(* ===== verification/Edge_Prelude.thy ===== *)
theory Edge_Prelude
  imports Main "HOL-Library.AList" "HOL-Library.Word" "HOL-Library.Multiset"
    "HOL-Library.Code_Target_Nat"
begin

text \<open>
  Shared vocabulary of the development.

  \<^item> \<open>usize\<close>/\<open>u64\<close> values are \<open>nat\<close>; the tree arithmetic also has a 64-bit version in
    \<open>Recursion_Tree\<close>.
  \<^item> a time stamp (\<open>DateTime<Utc>\<close>) is an \<open>int\<close> count of nanoseconds; a call of \<open>Utc::now()\<close> is
    an argument of the operation that makes it;
  \<^item> a \<open>HashMap\<close>/\<open>DashMap\<close>/\<open>BTreeMap\<close> is an association list, updated with \<open>AList.update\<close>,
    read with \<open>map_of\<close> and emptied with \<open>AList.delete\<close>; a well-formed map has distinct keys;
  \<^item> \<open>Result\<close> and panics are values of \<open>outcome\<close>: \<open>Ok\<close>, \<open>Err\<close> (an \<open>eyre\<close> report) or
    \<open>Panic\<close> (an \<open>unwrap\<close> on \<open>None\<close>);
  \<^item> \<open>format!\<close> is list append with \<open>show_nat\<close> for integers.
\<close>

named_theorems fmt_defs \<open>definitions of rendered messages\<close>

type_synonym bytes = "8 word list"
type_synonym f64_bits = "64 word"
type_synonym instant = int
type_synonym ('k, 'v) hmap = "('k \<times> 'v) list"

datatype 'a outcome = Ok 'a | Err string | Panic string

definition is_ok :: "'a outcome \<Rightarrow> bool" where
  "is_ok r \<longleftrightarrow> (case r of Ok _ \<Rightarrow> True | _ \<Rightarrow> False)"

lemma is_ok_simps [simp]:
  "is_ok (Ok x)" "\<not> is_ok (Err e)" "\<not> is_ok (Panic p)"
  by (simp_all add: is_ok_def)

text \<open>The \<open>?\<close> operator.\<close>

definition bind_outcome :: "'a outcome \<Rightarrow> ('a \<Rightarrow> 'b outcome) \<Rightarrow> 'b outcome" where
  "bind_outcome r f = (case r of Ok x \<Rightarrow> f x | Err e \<Rightarrow> Err e | Panic p \<Rightarrow> Panic p)"

lemma bind_outcome_simps [simp]:
  "bind_outcome (Ok x) f = f x" "bind_outcome (Err e) f = Err e" "bind_outcome (Panic p) f = Panic p"
  by (simp_all add: bind_outcome_def)

lemma bind_outcome_Ok_iff: "bind_outcome r f = Ok y \<longleftrightarrow> (\<exists>x. r = Ok x \<and> f x = Ok y)"
  by (cases r) simp_all

section \<open>Rust integer arithmetic\<close>

definition div_ceil :: "nat \<Rightarrow> nat \<Rightarrow> nat" where
  "div_ceil a b = (if a mod b = 0 then a div b else a div b + 1)"

lemma div_ceil_Suc: "0 < b \<Longrightarrow> 0 < n \<Longrightarrow> div_ceil n b = Suc ((n - 1) div b)"
proof -
  assume b: "0 < b" and n: "0 < n"
  then obtain m where m: "n = Suc m" by (cases n) auto
  show ?thesis using b unfolding m div_ceil_def by (simp add: div_Suc)
qed

lemma div_ceil_0 [simp]: "div_ceil 0 b = 0"
  by (simp add: div_ceil_def)

lemma div_ceil_pos [simp]: "0 < b \<Longrightarrow> 0 < div_ceil n b \<longleftrightarrow> 0 < n"
  by (cases "n = 0") (simp_all add: div_ceil_Suc)

lemma div_ceil_1 [simp]: "div_ceil n 1 = n" "div_ceil n (Suc 0) = n"
  by (simp_all add: div_ceil_def)

lemma div_ceil_div_ceil:
  assumes "0 < a" "0 < b"
  shows "div_ceil (div_ceil n b) a = div_ceil n (b * a)"
proof (cases "n = 0")
  case False
  then show ?thesis using assms by (simp add: div_ceil_Suc div_mult2_eq)
qed simp

lemma div_ceil_le_iff:
  assumes "0 < b"
  shows "div_ceil n b \<le> k \<longleftrightarrow> n \<le> k * b"
proof (cases n)
  case (Suc m)
  have "div_ceil n b \<le> k \<longleftrightarrow> m div b < k"
    using assms Suc by (simp add: div_ceil_Suc Suc_le_eq)
  also have "\<dots> \<longleftrightarrow> m < k * b" using assms by (simp add: div_less_iff_less_mult)
  finally show ?thesis using Suc by (simp add: Suc_le_eq)
qed simp

lemma less_div_ceil_iff: "0 < b \<Longrightarrow> k < div_ceil n b \<longleftrightarrow> k * b < n"
  by (metis div_ceil_le_iff not_le)

lemma div_ceil_mono:
  assumes "0 < b" "m \<le> n"
  shows "div_ceil m b \<le> div_ceil n b"
proof -
  have "n \<le> div_ceil n b * b" using div_ceil_le_iff [OF assms(1), of n "div_ceil n b"] by simp
  then show ?thesis using assms by (simp add: div_ceil_le_iff)
qed

lemma div_ceil_less: "2 \<le> b \<Longrightarrow> 1 < n \<Longrightarrow> div_ceil n b < n"
proof -
  assume b: "2 \<le> b" and n: "1 < n"
  have "(n - 1) div b \<le> (n - 1) div 2" using b by (simp add: div_le_mono2)
  also have "\<dots> < n - 1" using n by simp
  finally have "Suc ((n - 1) div b) < n" using n by simp
  then show ?thesis using b n by (simp add: div_ceil_Suc)
qed

section \<open>Decimal rendering and parsing of \<open>usize\<close>\<close>

definition digit_char :: "nat \<Rightarrow> char" where
  "digit_char d = char_of (48 + d)"

fun show_nat :: "nat \<Rightarrow> string" where
  "show_nat n = (if n < 10 then [digit_char n] else show_nat (n div 10) @ [digit_char (n mod 10)])"

declare show_nat.simps [simp del]

definition digit_val :: "char \<Rightarrow> nat option" where
  "digit_val c = (let k = of_char c in if 48 \<le> k \<and> k \<le> 57 then Some (k - 48) else None)"

fun parse_digits :: "nat \<Rightarrow> string \<Rightarrow> nat option" where
  "parse_digits acc [] = Some acc"
| "parse_digits acc (c # cs) =
     (case digit_val c of
        None \<Rightarrow> None
      | Some d \<Rightarrow> (let v = acc * 10 + d in if v < 2 ^ 64 then parse_digits v cs else None))"

text \<open>\<open>usize::from_str\<close>: an optional \<open>+\<close>, then at least one decimal digit, without overflow.\<close>

definition parse_usize :: "string \<Rightarrow> nat option" where
  "parse_usize s =
     (case s of
        [] \<Rightarrow> None
      | c # cs \<Rightarrow> (if c = CHR ''+'' then (if cs = [] then None else parse_digits 0 cs)
                  else parse_digits 0 s))"

lemma digit_val_char [simp]: "d < 10 \<Longrightarrow> digit_val (digit_char d) = Some d"
  by (simp add: digit_val_def digit_char_def)

lemma parse_digits_append:
  "parse_digits acc (xs @ ys) = Option.bind (parse_digits acc xs) (\<lambda>v. parse_digits v ys)"
  by (induction xs arbitrary: acc) (simp_all add: Let_def split: option.splits)

lemma parse_show_nat: "n < 2 ^ 64 \<Longrightarrow> parse_digits 0 (show_nat n) = Some n"
proof (induction n rule: show_nat.induct)
  case (1 n)
  show ?case
  proof (cases "n < 10")
    case True
    then show ?thesis by (simp add: show_nat.simps [of n])
  next
    case False
    have "parse_digits 0 (show_nat (n div 10)) = Some (n div 10)"
      using "1.IH" False "1.prems" by simp
    moreover have "n div 10 * 10 + n mod 10 = n" by simp
    ultimately show ?thesis using False "1.prems"
      by (simp add: show_nat.simps [of n] parse_digits_append Let_def)
  qed
qed

lemma show_nat_chars: "c \<in> set (show_nat n) \<Longrightarrow> \<exists>d < 10. c = digit_char d"
proof (induction n rule: show_nat.induct)
  case (1 n)
  show ?case
  proof (cases "n < 10")
    case True
    then show ?thesis using "1.prems" by (auto simp: show_nat.simps [of n])
  next
    case False
    have "n mod 10 < 10" by simp
    then show ?thesis using "1.IH" "1.prems" False
      by (subst (asm) show_nat.simps [of n]) (auto simp del: mod_less_divisor)
  qed
qed

lemma show_nat_nonempty [simp]: "show_nat n \<noteq> []"
  by (subst show_nat.simps) simp

lemma digit_char_neq:
  assumes "d < 10"
  shows "digit_char d \<noteq> CHR '':''" "digit_char d \<noteq> CHR ''+'' "
proof -
  have v: "digit_val (digit_char d) = Some d" using assms by simp
  show "digit_char d \<noteq> CHR '':''" "digit_char d \<noteq> CHR ''+'' "
    using v by (auto simp: digit_val_def)
qed

lemma show_nat_inject: "show_nat m = show_nat n \<Longrightarrow> m = n"
proof (induction m arbitrary: n rule: show_nat.induct)
  case (1 m)
  have digit: "digit_char a = digit_char b \<Longrightarrow> a < 10 \<Longrightarrow> b < 10 \<Longrightarrow> a = b" for a b
    by (metis digit_val_char option.inject)
  note e = 1(2) [unfolded show_nat.simps [of m] show_nat.simps [of n]]
  show ?case
  proof (cases "m < 10 \<or> n < 10")
    case True
    then show ?thesis using e digit [of m n] show_nat_nonempty [of "n div 10"] show_nat_nonempty [of "m div 10"]
      by (auto split: if_splits simp del: show_nat_nonempty)
  next
    case False
    then have "show_nat (m div 10) = show_nat (n div 10)" "m mod 10 = n mod 10"
      using e digit [of "m mod 10" "n mod 10"] by auto
    then have "m div 10 = n div 10" using 1(1) False by simp
    then show ?thesis using \<open>m mod 10 = n mod 10\<close> by (metis div_mult_mod_eq)
  qed
qed

lemma show_nat_no_colon: "CHR '':'' \<notin> set (show_nat n)"
  using show_nat_chars digit_char_neq(1) by metis

lemma parse_usize_show_nat: "n < 2 ^ 64 \<Longrightarrow> parse_usize (show_nat n) = Some n"
proof -
  assume n: "n < 2 ^ 64"
  obtain c cs where s: "show_nat n = c # cs" by (cases "show_nat n") auto
  then have "c \<in> set (show_nat n)" by simp
  then have "c \<noteq> CHR ''+''" using show_nat_chars digit_char_neq(2) by metis
  then show ?thesis using parse_show_nat [OF n] s by (simp add: parse_usize_def)
qed

definition quote :: string where
  "quote = [CHR 0x27]"

fun join_with :: "string \<Rightarrow> string list \<Rightarrow> string" where
  "join_with sep [] = []"
| "join_with sep [x] = x"
| "join_with sep (x # y # ys) = x @ sep @ join_with sep (y # ys)"

definition is_ascii_alphanumeric :: "char \<Rightarrow> bool" where
  "is_ascii_alphanumeric c \<longleftrightarrow>
     (let k = of_char c :: nat in 48 \<le> k \<and> k \<le> 57 \<or> 65 \<le> k \<and> k \<le> 90 \<or> 97 \<le> k \<and> k \<le> 122)"

definition strip_prefix :: "string \<Rightarrow> string \<Rightarrow> string option" where
  "strip_prefix p s = (if take (length p) s = p then Some (drop (length p) s) else None)"

section \<open>Association lists as hash maps\<close>

definition hm_wf :: "('k, 'v) hmap \<Rightarrow> bool" where
  "hm_wf m \<longleftrightarrow> distinct (map fst m)"

lemma hm_wf_Nil [simp]: "hm_wf []"
  by (simp add: hm_wf_def)

lemma hm_wf_update [simp]: "hm_wf m \<Longrightarrow> hm_wf (AList.update k v m)"
  by (simp add: hm_wf_def distinct_update)

lemma hm_wf_delete [simp]: "hm_wf m \<Longrightarrow> hm_wf (AList.delete k m)"
  by (simp add: hm_wf_def distinct_delete)

lemma hm_get_update [simp]: "map_of (AList.update k v m) k' = (if k' = k then Some v else map_of m k')"
  by (simp add: update_conv')

lemma hm_get_delete [simp]: "map_of (AList.delete k m) k' = (if k' = k then None else map_of m k')"
  by (simp add: delete_conv')

lemma hm_update_neq_Nil [simp]: "AList.update k v m \<noteq> []"
  by (cases m) auto

lemma hm_length_update:
  "length (AList.update k v m) = (if map_of m k = None then Suc (length m) else length m)"
  by (induction m) (auto simp: map_of_eq_None_iff)

lemma map_of_map_snd [simp]: "map_of (map (\<lambda>(k, v). (k, f v)) m) k = map_option f (map_of m k)"
  by (induction m) auto

lemma hm_wf_map_snd [simp]: "hm_wf (map (\<lambda>(k, v). (k, f v)) m) \<longleftrightarrow> hm_wf m"
  by (simp add: hm_wf_def case_prod_unfold comp_def)

text \<open>All values of a map satisfy a predicate.\<close>

definition hm_all :: "('v \<Rightarrow> bool) \<Rightarrow> ('k, 'v) hmap \<Rightarrow> bool" where
  "hm_all P m \<longleftrightarrow> list_all (\<lambda>(k, v). P v) m"

lemma hm_all_Nil [simp]: "hm_all P []"
  by (simp add: hm_all_def)

lemma hm_all_update [simp]: "hm_all P m \<Longrightarrow> P v \<Longrightarrow> hm_all P (AList.update k v m)"
  by (induction m) (auto simp: hm_all_def)

lemma hm_all_delete [simp]: "hm_all P m \<Longrightarrow> hm_all P (AList.delete k m)"
  by (induction m) (auto simp: hm_all_def AList.delete_eq)

lemma hm_all_get: "hm_all P m \<Longrightarrow> map_of m k = Some v \<Longrightarrow> P v"
  by (auto simp: hm_all_def list_all_iff dest: map_of_SomeD)

section \<open>Lists\<close>

text \<open>\<open>Iterator::position\<close>: the index of the first element that satisfies the predicate.\<close>

fun find_index :: "('a \<Rightarrow> bool) \<Rightarrow> 'a list \<Rightarrow> nat option" where
  "find_index P [] = None"
| "find_index P (x # xs) = (if P x then Some 0 else map_option Suc (find_index P xs))"

lemma find_index_SomeD:
  "find_index P xs = Some i \<Longrightarrow> i < length xs \<and> P (xs ! i) \<and> (\<forall>j < i. \<not> P (xs ! j))"
proof (induction xs arbitrary: i)
  case (Cons x xs)
  then show ?case by (auto simp: nth_Cons split: if_splits nat.splits)
qed simp

lemma find_index_None_iff: "find_index P xs = None \<longleftrightarrow> (\<forall>x \<in> set xs. \<not> P x)"
  by (induction xs) auto

text \<open>\<open>Iterator::min_by_key\<close>: the first element with the least key.\<close>

fun min_by_key :: "('a \<Rightarrow> nat) \<Rightarrow> 'a list \<Rightarrow> 'a option" where
  "min_by_key f [] = None"
| "min_by_key f (x # xs) =
     (case min_by_key f xs of None \<Rightarrow> Some x | Some y \<Rightarrow> if f x \<le> f y then Some x else Some y)"

lemma min_by_key_None_iff [simp]: "min_by_key f xs = None \<longleftrightarrow> xs = []"
  by (cases xs) (auto split: option.splits)

lemma min_by_key_SomeD: "min_by_key f xs = Some x \<Longrightarrow> x \<in> set xs \<and> (\<forall>y \<in> set xs. f x \<le> f y)"
  by (induction xs arbitrary: x) (fastforce split: option.splits if_splits)+

text \<open>The largest \<open>usize\<close>, and the saturating product.\<close>

definition usize_max :: nat where
  "usize_max = 2 ^ 64 - 1"

definition saturating_mul :: "nat \<Rightarrow> nat \<Rightarrow> nat" where
  "saturating_mul a b = min (a * b) usize_max"

text \<open>\<open>sort_by_key\<close> on an association list with ordered keys.\<close>

definition sort_by_id :: "(nat \<times> 'v) list \<Rightarrow> (nat \<times> 'v) list" where
  "sort_by_id xs = sort_key fst xs"

text \<open>The \<open>Debug\<close> rendering of a list of numbers.\<close>

definition debug_nats :: "nat list \<Rightarrow> string" where
  "debug_nats ns = ''['' @ join_with '', '' (map show_nat ns) @ '']''"

text \<open>The elements of a list, taken key by key.\<close>

lemma mset_by_key:
  assumes "distinct ks" "\<forall>x \<in> set xs. k x \<in> set ks"
  shows "mset (concat (map (\<lambda>j. map v (filter (\<lambda>x. k x = j) xs)) ks)) = mset (map v xs)"
  using assms
proof (induction ks arbitrary: xs)
  case (Cons j ks)
  let ?others = "filter (\<lambda>x. k x \<noteq> j) xs"
  have "filter (\<lambda>x. k x = i) ?others = filter (\<lambda>x. k x = i) xs" if "i \<in> set ks" for i
    using that Cons.prems(1) by (auto simp: filter_filter intro: filter_cong)
  moreover have "\<forall>x \<in> set ?others. k x \<in> set ks" "distinct ks" using Cons.prems by auto
  ultimately have rest: "mset (concat (map (\<lambda>j. map v (filter (\<lambda>x. k x = j) xs)) ks)) = mset (map v ?others)"
    using Cons.IH [of ?others] by (simp cong: map_cong)
  have "mset xs = mset (filter (\<lambda>x. k x = j) xs) + mset ?others"
    using multiset_partition [of "mset xs" "\<lambda>x. k x = j"] by simp
  then have "mset (map v xs) = mset (map v (filter (\<lambda>x. k x = j) xs)) + mset (map v ?others)"
    by (metis image_mset_union mset_map)
  then show ?case using rest by simp
qed simp

end
