(* ===== verification/Protocol_Types.thy ===== *)
theory Protocol_Types
  imports Edge_Prelude
begin

text \<open>
  The wire types of \<open>crates/protocol\<close>: steps, the proof context, programs and their loadout,
  requests, worker roles and results. A struct is a record whose fields carry the struct's initials
  as a prefix (\<open>AppProofState.segment_idx\<close> is \<open>aps_segment_idx\<close>); an enum is a datatype. Proof and
  segment payloads are opaque bytes, as on the wire; \<open>f64\<close> timings are their bit patterns.
\<close>

section \<open>Steps\<close>

datatype step = ShardedAppProve | LeafProve | InternalProve | RootProve | Halo2Prove | EvmProve

fun step_as_str :: "step \<Rightarrow> string" where
  "step_as_str ShardedAppProve = ''sharded_app_prove''"
| "step_as_str LeafProve = ''leaf_prove''"
| "step_as_str InternalProve = ''internal_prove''"
| "step_as_str RootProve = ''root_prove''"
| "step_as_str Halo2Prove = ''halo2_prove''"
| "step_as_str EvmProve = ''evm_prove''"

section \<open>Programs\<close>

record program_ref =
  pr_name :: string
  pr_version :: nat

definition program_display :: "program_ref \<Rightarrow> string" where
  "program_display p = pr_name p @ ''@v'' @ show_nat (pr_version p)"

datatype parse_programs_error =
  Missing | InvalidJson string | Empty | Duplicate program_ref

definition is_ascii_whitespace :: "char \<Rightarrow> bool" where
  "is_ascii_whitespace c \<longleftrightarrow> (let k = of_char c in k = (32::nat) \<or> (9 \<le> k \<and> k \<le> 13))"

text \<open>\<open>str::trim\<close> on ASCII input.\<close>

definition trim :: "string \<Rightarrow> string" where
  "trim s = rev (dropWhile is_ascii_whitespace (rev (dropWhile is_ascii_whitespace s)))"

fun first_duplicate :: "'a list \<Rightarrow> 'a list \<Rightarrow> 'a option" where
  "first_duplicate seen [] = None"
| "first_duplicate seen (p # ps) =
     (if p \<in> set seen then Some p else first_duplicate (p # seen) ps)"

text \<open>The JSON decoder (\<open>serde_json\<close>) is the parameter \<open>from_json\<close>.\<close>

definition parse_programs_str ::
  "(string \<Rightarrow> string + program_ref list) \<Rightarrow> string \<Rightarrow> parse_programs_error + program_ref list" where
  "parse_programs_str from_json raw =
     (let trimmed = trim raw in
      if trimmed = [] then Inl Missing
      else case from_json trimmed of
        Inl e \<Rightarrow> Inl (InvalidJson e)
      | Inr programs \<Rightarrow>
          if programs = [] then Inl Empty
          else case first_duplicate [] programs of
            Some p \<Rightarrow> Inl (Duplicate p)
          | None \<Rightarrow> Inr programs)"

definition parse_programs_env ::
  "(string \<Rightarrow> string + program_ref list) \<Rightarrow> string option \<Rightarrow> parse_programs_error + program_ref list" where
  "parse_programs_env from_json var =
     (case var of Some s \<Rightarrow> parse_programs_str from_json s | None \<Rightarrow> Inl Missing)"

section \<open>Context\<close>

datatype proof_type = Stark | Evm

fun proof_type_debug :: "proof_type \<Rightarrow> string" where
  "proof_type_debug Stark = ''Stark''"
| "proof_type_debug Evm = ''Evm''"

record proof_context =
  pc_proof_uuid :: string
  pc_program :: program_ref
  pc_labels :: "(string, string) hmap"
  pc_proof_type :: proof_type

definition proof_context_new :: "string \<Rightarrow> program_ref \<Rightarrow> (string, string) hmap \<Rightarrow> proof_context" where
  "proof_context_new uuid program labels =
     \<lparr>pc_proof_uuid = uuid, pc_program = program, pc_labels = labels, pc_proof_type = Stark\<rparr>"

record 'm message_envelope =
  me_timestamp :: nat
  me_message_id :: string
  me_message :: 'm

section \<open>Requests\<close>

record start_proof_request =
  spr_proof_uuid :: string
  spr_program :: "program_ref option"
  spr_labels :: "(string, string) hmap"
  spr_proof_type :: proof_type
  spr_input_already_uploaded :: bool
  spr_segment_memory :: "nat option"
  spr_leaf_pack_threshold :: "nat option"
  spr_timeout_secs :: "nat option"

datatype worker_role = Full | StarkOnly | EvmDedicated

fun runs_stark_proving :: "worker_role \<Rightarrow> bool" where
  "runs_stark_proving Full = True"
| "runs_stark_proving StarkOnly = True"
| "runs_stark_proving EvmDedicated = False"

fun runs_evm_prove :: "worker_role \<Rightarrow> bool" where
  "runs_evm_prove Full = True"
| "runs_evm_prove StarkOnly = False"
| "runs_evm_prove EvmDedicated = True"

record register_worker_request =
  rwr_worker_url :: string
  rwr_worker_id :: nat
  rwr_max_app_provers :: nat
  rwr_max_leaf_provers :: nat
  rwr_max_internal_provers :: nat
  rwr_loaded_programs :: "program_ref list"
  rwr_worker_role :: worker_role

record sharded_app_prove_request =
  sar_proof_uuid :: string
  sar_program :: program_ref
  sar_prover_id :: nat
  sar_num_provers :: nat
  sar_segment_memory :: "nat option"
  sar_num_deferral_circuits :: nat

record leaf_prove_request =
  lpr_context :: proof_context
  lpr_app_proofs :: "bytes list"
  lpr_segment_start :: nat
  lpr_segment_end :: nat

datatype proofs_type_wire = Vm | Deferral | Mix | Combined

record internal_layer_metadata_wire =
  ilm_internal_recursive_layer :: "32 word"
  ilm_internal_node_idx :: "32 word"
  ilm_proofs_type :: proofs_type_wire

record deferral_tail_dispatch =
  dtd_layer_metadata :: internal_layer_metadata_wire
  dtd_final_merkle_path_bytes :: bytes

record internal_prove_request =
  ipr_context :: proof_context
  ipr_child_proofs :: "bytes list"
  ipr_layer_idx :: nat
  ipr_segment_start :: nat
  ipr_segment_end :: nat
  ipr_is_final_proof :: bool
  ipr_deferral_tail :: "deferral_tail_dispatch option"
  ipr_deferral_merkle_proofs_bytes :: "bytes option"

record evm_prove_request =
  epr_context :: proof_context
  epr_internal_proof_bytes :: bytes
  epr_deferral_merkle_proofs_bytes :: "bytes option"
  epr_proof_has_deferral :: bool

datatype general_prove_request =
  LeafProveReq leaf_prove_request
| InternalProveReq internal_prove_request
| EvmProveReq evm_prove_request

fun step_of_request :: "general_prove_request \<Rightarrow> step" where
  "step_of_request (LeafProveReq _) = LeafProve"
| "step_of_request (InternalProveReq _) = InternalProve"
| "step_of_request (EvmProveReq _) = EvmProve"

fun request_context :: "general_prove_request \<Rightarrow> proof_context" where
  "request_context (LeafProveReq req) = lpr_context req"
| "request_context (InternalProveReq req) = ipr_context req"
| "request_context (EvmProveReq req) = epr_context req"

section \<open>Results\<close>

record execute_e2_state =
  e2_num_segments :: nat
  e2_segments :: "bytes list"
  e2_cost :: nat
  e2_execute_time_ms :: nat

record app_proof_state =
  aps_proof :: "bytes option"
  aps_segment_idx :: nat
  aps_prove_time_ms :: nat
  aps_fastfwd_time_ms :: nat
  aps_stark_prove_time_ms :: nat
  aps_sub_metrics :: "(string, f64_bits) hmap"
  aps_final_merkle_path_bytes :: "bytes option"
  aps_deferral_merkle_proofs_bytes :: "bytes option"

record leaf_proof_state =
  lps_proof :: "bytes option"
  lps_segment_start :: nat
  lps_segment_end :: nat
  lps_prove_time_ms :: nat
  lps_sub_metrics :: "(string, f64_bits) hmap"

record internal_proof_state =
  ips_proof :: "bytes option"
  ips_layer_idx :: nat
  ips_segment_start :: nat
  ips_segment_end :: nat
  ips_prove_time_ms :: nat
  ips_compression_time_ms :: nat
  ips_sub_metrics :: "(string, f64_bits) hmap"
  ips_deferral_merkle_proofs_bytes :: "bytes option"
  ips_ready_for_evm :: bool

record root_proof_state =
  rps_proof :: "bytes option"
  rps_prove_time_ms :: nat
  rps_sub_metrics :: "(string, f64_bits) hmap"

record evm_proof_state =
  eps_proof :: "bytes option"
  eps_prove_time_ms :: nat
  eps_root_prove_time_ms :: nat
  eps_sub_metrics :: "(string, f64_bits) hmap"

record error_result =
  er_context :: proof_context
  er_step :: string
  er_error :: string

text \<open>The structs \<open>ExecuteE2Result\<close>, \<open>AppProof\<close>, \<open>LeafProof\<close>, \<open>InternalProof\<close> and \<open>EvmProof\<close>
  pair a context with a state, and are the arguments of the constructors.\<close>

datatype proof_result =
  ExecuteE2Res proof_context execute_e2_state
| AppRes proof_context app_proof_state
| LeafRes proof_context leaf_proof_state
| InternalRes proof_context internal_proof_state
| EvmRes proof_context evm_proof_state
| ErrorRes error_result

fun result_kind :: "proof_result \<Rightarrow> string" where
  "result_kind (ExecuteE2Res _ _) = ''execute_e2''"
| "result_kind (AppRes _ _) = ''app''"
| "result_kind (LeafRes _ _) = ''leaf''"
| "result_kind (InternalRes _ _) = ''internal''"
| "result_kind (EvmRes _ _) = ''evm''"
| "result_kind (ErrorRes _) = ''error''"

fun result_context :: "proof_result \<Rightarrow> proof_context" where
  "result_context (ExecuteE2Res c _) = c"
| "result_context (AppRes c _) = c"
| "result_context (LeafRes c _) = c"
| "result_context (InternalRes c _) = c"
| "result_context (EvmRes c _) = c"
| "result_context (ErrorRes r) = er_context r"

record result_payload =
  rp_worker_id :: nat
  rp_proof_uuid :: string
  rp_result :: "proof_result message_envelope"

section \<open>Lemmas\<close>

lemma first_duplicate_None_iff:
  "first_duplicate seen xs = None \<longleftrightarrow> distinct xs \<and> set xs \<inter> set seen = {}"
  by (induction xs arbitrary: seen) auto

lemma first_duplicate_Nil_distinct: "distinct xs \<Longrightarrow> first_duplicate [] xs = None"
  by (simp add: first_duplicate_None_iff)

lemma first_duplicate_SomeD: "first_duplicate seen xs = Some p \<Longrightarrow> p \<in> set xs"
  by (induction xs arbitrary: seen) (auto split: if_splits)

lemma role_runs_something: "runs_stark_proving r \<or> runs_evm_prove r"
  by (cases r) simp_all

section \<open>Properties\<close>

text \<open>Loadout parsing: exactly the nonempty duplicate-free lists the JSON decoder yields for a
  nonblank variable are accepted, in declaration order; in particular an accepted loadout has
  distinct programs.\<close>

theorem parse_programs_accepts_iff:
  "parse_programs_env from_json var = Inr programs \<longleftrightarrow>
     (\<exists>raw. var = Some raw \<and> trim raw \<noteq> [] \<and> from_json (trim raw) = Inr programs \<and>
            programs \<noteq> [] \<and> distinct programs)"
  by (auto simp: parse_programs_env_def parse_programs_str_def Let_def first_duplicate_None_iff
        first_duplicate_Nil_distinct split: option.splits sum.splits)

end
