(* ===== verification/Work_Queue.thy ===== *)
theory Work_Queue
  imports Protocol_Types
begin

text \<open>
  The priority work queue of \<open>edge-manager/src/priority_queue.rs\<close>: one FIFO for leaf proofs, ten for the
  internal layers and one for the EVM step. The locale \<open>priority_queue\<close> is the interface the scheduler
  relies on: the contents of the queue, in pop order, form a list sorted by class, to which a push adds
  behind the items of its own and of better classes.
\<close>

section \<open>Priority classes\<close>

datatype work_class = Class_Leaf | Class_Internal nat | Class_Other

fun class_rank :: "work_class \<Rightarrow> nat \<times> nat" where
  "class_rank Class_Leaf = (0, 0)"
| "class_rank (Class_Internal k) = (1, k)"
| "class_rank Class_Other = (2, 0)"

lemma class_rank_inj: "class_rank c = class_rank d \<Longrightarrow> c = d"
  by (cases c; cases d) simp_all

instantiation work_class :: linorder
begin

definition less_eq_work_class :: "work_class \<Rightarrow> work_class \<Rightarrow> bool" where
  "c \<le> d \<longleftrightarrow> fst (class_rank c) < fst (class_rank d) \<or>
     fst (class_rank c) = fst (class_rank d) \<and> snd (class_rank c) \<le> snd (class_rank d)"

definition less_work_class :: "work_class \<Rightarrow> work_class \<Rightarrow> bool" where
  "(c :: work_class) < d \<longleftrightarrow> c \<le> d \<and> \<not> d \<le> c"

instance
proof
  fix c d e :: work_class
  show "c \<le> c" by (simp add: less_eq_work_class_def)
  show "c \<le> d \<Longrightarrow> d \<le> e \<Longrightarrow> c \<le> e" by (auto simp: less_eq_work_class_def)
  show "c \<le> d \<Longrightarrow> d \<le> c \<Longrightarrow> c = d"
    by (rule class_rank_inj) (auto simp: less_eq_work_class_def prod_eq_iff)
  show "c \<le> d \<or> d \<le> c" by (auto simp: less_eq_work_class_def)
  show "c < d \<longleftrightarrow> c \<le> d \<and> \<not> d \<le> c" by (rule less_work_class_def)
qed

end

lemma class_le_simps [simp]:
  "Class_Leaf \<le> c"
  "Class_Internal j \<le> Class_Internal k \<longleftrightarrow> j \<le> k"
  "\<not> Class_Internal j \<le> Class_Leaf"
  "c \<le> Class_Other"
  "\<not> Class_Other \<le> Class_Leaf"
  "\<not> Class_Other \<le> Class_Internal k"
  by (simp_all add: less_eq_work_class_def) ((cases c; simp)+)

section \<open>The queue\<close>

record edge_work_item =
  wi_envelope :: "general_prove_request message_envelope"
  wi_step :: step

record work_queue =
  wq_leaf :: "edge_work_item list"
  wq_layers :: "edge_work_item list list"
  wq_other :: "edge_work_item list"

definition max_layers :: nat where
  "max_layers = 10"

definition queue_new :: work_queue where
  "queue_new = \<lparr>wq_leaf = [], wq_layers = replicate max_layers [], wq_other = []\<rparr>"

definition queue_push :: "edge_work_item \<Rightarrow> work_queue \<Rightarrow> work_queue" where
  "queue_push item q =
     (case me_message (wi_envelope item) of
        LeafProveReq _ \<Rightarrow> q\<lparr>wq_leaf := wq_leaf q @ [item]\<rparr>
      | InternalProveReq req \<Rightarrow>
          (let layer_idx = ipr_layer_idx req;
               k = (if layer_idx < length (wq_layers q) then layer_idx else length (wq_layers q) - 1)
           in q\<lparr>wq_layers := (wq_layers q)[k := wq_layers q ! k @ [item]]\<rparr>)
      | EvmProveReq _ \<Rightarrow> q\<lparr>wq_other := wq_other q @ [item]\<rparr>)"

text \<open>The loop over the layer queues.\<close>

fun pop_layers :: "edge_work_item list list \<Rightarrow> (edge_work_item \<times> edge_work_item list list) option" where
  "pop_layers [] = None"
| "pop_layers ((x # xs) # rest) = Some (x, xs # rest)"
| "pop_layers ([] # rest) = map_option (\<lambda>(x, rest'). (x, [] # rest')) (pop_layers rest)"

definition queue_pop :: "work_queue \<Rightarrow> (edge_work_item \<times> work_queue) option" where
  "queue_pop q =
     (case wq_leaf q of
        x # xs \<Rightarrow> Some (x, q\<lparr>wq_leaf := xs\<rparr>)
      | [] \<Rightarrow>
          (case pop_layers (wq_layers q) of
             Some (x, layers) \<Rightarrow> Some (x, q\<lparr>wq_layers := layers\<rparr>)
           | None \<Rightarrow>
               (case wq_other q of
                  x # xs \<Rightarrow> Some (x, q\<lparr>wq_other := xs\<rparr>)
                | [] \<Rightarrow> None)))"

definition queue_requeue :: "edge_work_item \<Rightarrow> work_queue \<Rightarrow> work_queue" where
  "queue_requeue item q = queue_push item q"

definition queue_is_empty :: "work_queue \<Rightarrow> bool" where
  "queue_is_empty q \<longleftrightarrow> wq_leaf q = [] \<and> list_all (\<lambda>l. l = []) (wq_layers q) \<and> wq_other q = []"

section \<open>The interface\<close>

lemma sorted_dropWhile_greater:
  fixes f :: "'a \<Rightarrow> 'c :: linorder"
  shows "sorted (map f xs) \<Longrightarrow> y \<in> set (dropWhile (\<lambda>y. f y \<le> c) xs) \<Longrightarrow> c < f y"
  by (induction xs) (auto split: if_splits)

locale priority_queue =
  fixes empty :: 'q
    and push :: "'a \<Rightarrow> 'q \<Rightarrow> 'q"
    and pop :: "'q \<Rightarrow> ('a \<times> 'q) option"
    and is_empty :: "'q \<Rightarrow> bool"
    and ok :: "'q \<Rightarrow> bool"
    and items :: "'q \<Rightarrow> 'a list"
    and class_of :: "'a \<Rightarrow> 'c :: linorder"
  assumes ok_empty: "ok empty"
    and items_empty: "items empty = []"
    and ok_push: "ok q \<Longrightarrow> ok (push x q)"
    and items_push: "ok q \<Longrightarrow> items (push x q) =
          takeWhile (\<lambda>y. class_of y \<le> class_of x) (items q) @
          x # dropWhile (\<lambda>y. class_of y \<le> class_of x) (items q)"
    and ok_pop: "ok q \<Longrightarrow> pop q = Some (x, q') \<Longrightarrow> ok q'"
    and items_pop: "ok q \<Longrightarrow> pop q = Some (x, q') \<Longrightarrow> items q = x # items q'"
    and pop_None: "ok q \<Longrightarrow> pop q = None \<longleftrightarrow> items q = []"
    and is_empty_iff: "ok q \<Longrightarrow> is_empty q \<longleftrightarrow> items q = []"
    and items_sorted: "ok q \<Longrightarrow> sorted (map class_of (items q))"
begin

lemma mset_push: "ok q \<Longrightarrow> mset (items (push x q)) = add_mset x (mset (items q))"
proof -
  assume q: "ok q"
  let ?P = "\<lambda>y. class_of y \<le> class_of x"
  have "mset (items q) = mset (takeWhile ?P (items q)) + mset (dropWhile ?P (items q))"
    by (metis mset_append takeWhile_dropWhile_id)
  then show "mset (items (push x q)) = add_mset x (mset (items q))" by (simp add: items_push [OF q])
qed

lemma length_push: "ok q \<Longrightarrow> length (items (push x q)) = Suc (length (items q))"
  using mset_push [of q x] by (metis size_add_mset size_mset)

lemma pop_first_class:
  assumes "ok q" "pop q = Some (x, q')"
  shows "mset (items q) = add_mset x (mset (items q'))" "y \<in> set (items q) \<Longrightarrow> class_of x \<le> class_of y"
  using items_pop [OF assms] items_sorted [OF assms(1)] by auto

lemma pop_nonempty: "ok q \<Longrightarrow> items q = x # xs \<Longrightarrow> \<exists>q'. pop q = Some (x, q') \<and> items q' = xs \<and> ok q'"
  using pop_None [of q] items_pop [of q] ok_pop [of q] by (cases "pop q") auto

text \<open>Pop order is the stable sort of the arrival order.\<close>

lemma ok_pushes: "ok q \<Longrightarrow> ok (fold push xs q)"
  by (induction xs arbitrary: q) (simp_all add: ok_push)

lemma items_push_filter:
  assumes "ok q"
  shows "filter (\<lambda>y. k = class_of y) (items (push x q)) =
    filter (\<lambda>y. k = class_of y) (items q) @ (if k = class_of x then [x] else [])"
proof -
  let ?P = "\<lambda>y. class_of y \<le> class_of x"
  have "\<forall>y \<in> set (dropWhile ?P (items q)). class_of x < class_of y"
    using sorted_dropWhile_greater [OF items_sorted [OF assms]] by blast
  then have "k = class_of x \<Longrightarrow> filter (\<lambda>y. k = class_of y) (dropWhile ?P (items q)) = []"
    by (fastforce simp: filter_empty_conv)
  moreover have "filter (\<lambda>y. k = class_of y) (items q) =
      filter (\<lambda>y. k = class_of y) (takeWhile ?P (items q)) @ filter (\<lambda>y. k = class_of y) (dropWhile ?P (items q))"
    by (metis filter_append takeWhile_dropWhile_id)
  ultimately show ?thesis by (auto simp: items_push [OF assms])
qed

lemma items_pushes: "items (fold push xs empty) = sort_key class_of xs"
proof (rule sym, rule properties_for_sort_key)
  show "sorted (map class_of (items (fold push xs empty)))"
    by (rule items_sorted [OF ok_pushes [OF ok_empty]])
  have f: "ok q \<Longrightarrow> filter (\<lambda>y. k = class_of y) (items (fold push xs q)) =
      filter (\<lambda>y. k = class_of y) (items q) @ filter (\<lambda>y. k = class_of y) xs" for k q
  proof (induction xs arbitrary: q)
    case (Cons x xs)
    then show ?case using items_push_filter [OF Cons.prems, of k x] by (simp add: ok_push)
  qed simp
  show "filter (\<lambda>x. class_of k = class_of x) (items (fold push xs empty)) =
      filter (\<lambda>x. class_of k = class_of x) xs" for k
    using f [OF ok_empty, of "class_of k"] by (simp add: items_empty)
  have "ok q \<Longrightarrow> mset (items (fold push xs q)) = mset (items q) + mset xs" for q
    by (induction xs arbitrary: q) (simp_all add: ok_push mset_push)
  from this [OF ok_empty] show "mset (items (fold push xs empty)) = mset xs" by (simp add: items_empty)
qed

end

section \<open>The queue provides the interface\<close>

fun request_class :: "general_prove_request \<Rightarrow> work_class" where
  "request_class (LeafProveReq _) = Class_Leaf"
| "request_class (InternalProveReq r) = Class_Internal (min (ipr_layer_idx r) (max_layers - 1))"
| "request_class (EvmProveReq _) = Class_Other"

definition item_class :: "edge_work_item \<Rightarrow> work_class" where
  "item_class item = request_class (me_message (wi_envelope item))"

definition queue_items :: "work_queue \<Rightarrow> edge_work_item list" where
  "queue_items q = wq_leaf q @ concat (wq_layers q) @ wq_other q"

definition queue_ok :: "work_queue \<Rightarrow> bool" where
  "queue_ok q \<longleftrightarrow> length (wq_layers q) = max_layers \<and>
     (\<forall>x \<in> set (wq_leaf q). item_class x = Class_Leaf) \<and>
     (\<forall>k < length (wq_layers q). \<forall>x \<in> set (wq_layers q ! k). item_class x = Class_Internal k) \<and>
     (\<forall>x \<in> set (wq_other q). item_class x = Class_Other)"

lemma split_while:
  "(\<forall>x \<in> set xs. P x) \<Longrightarrow> (\<forall>y \<in> set ys. \<not> P y) \<Longrightarrow>
   takeWhile P (xs @ ys) = xs \<and> dropWhile P (xs @ ys) = ys"
  by (cases ys) (auto simp: takeWhile_append dropWhile_append)

lemma layers_split:
  assumes "k < length ls"
  shows "concat ls = concat (take k ls) @ ls ! k @ concat (drop (Suc k) ls)"
    "concat (ls[k := xs]) = concat (take k ls) @ xs @ concat (drop (Suc k) ls)"
proof -
  have "ls = take k ls @ ls ! k # drop (Suc k) ls" using assms by (rule id_take_nth_drop)
  then show "concat ls = concat (take k ls) @ ls ! k @ concat (drop (Suc k) ls)"
    by (metis concat.simps(2) concat_append)
  show "concat (ls[k := xs]) = concat (take k ls) @ xs @ concat (drop (Suc k) ls)"
    using assms by (simp add: upd_conv_take_nth_drop)
qed

lemma queue_ok_layer_mem:
  assumes "queue_ok q" "x \<in> set (concat (take m (wq_layers q)))"
  shows "\<exists>j < m. item_class x = Class_Internal j"
proof -
  obtain l where "l \<in> set (take m (wq_layers q))" and l: "x \<in> set l" using assms(2) by auto
  then obtain j where "j < m" "j < length (wq_layers q)" "wq_layers q ! j = l"
    by (metis in_set_conv_nth length_take min_less_iff_conj nth_take)
  with l have "x \<in> set (wq_layers q ! j)" "j < m" "j < length (wq_layers q)" by simp_all
  then show ?thesis using assms(1) by (auto simp: queue_ok_def)
qed

lemma queue_ok_layer_drop:
  assumes "queue_ok q" "x \<in> set (concat (drop m (wq_layers q)))"
  shows "\<exists>j \<ge> m. item_class x = Class_Internal j"
proof -
  obtain l where "l \<in> set (drop m (wq_layers q))" and l: "x \<in> set l" using assms(2) by auto
  then obtain j where "j < length (wq_layers q) - m" "wq_layers q ! (m + j) = l"
    by (metis in_set_conv_nth length_drop nth_drop less_diff_conv add.commute less_imp_le_nat
        list.size(3) drop_eq_Nil not_le length_pos_if_in_set)
  with l have "x \<in> set (wq_layers q ! (m + j))" "j < length (wq_layers q) - m" by simp_all
  then show ?thesis using assms(1) by (intro exI [of _ "m + j"]) (auto simp: queue_ok_def)
qed

lemma queue_push_split:
  assumes q: "queue_ok q"
  obtains pre post where "queue_items q = pre @ post" "queue_items (queue_push x q) = pre @ x # post"
    "\<forall>y \<in> set pre. item_class y \<le> item_class x" "\<forall>y \<in> set post. \<not> item_class y \<le> item_class x"
    "queue_ok (queue_push x q)"
proof (cases "me_message (wi_envelope x)")
  case (LeafProveReq r)
  have "item_class y \<noteq> Class_Leaf" if "y \<in> set (concat (wq_layers q) @ wq_other q)" for y
  proof -
    from that consider "y \<in> set (concat (take (length (wq_layers q)) (wq_layers q)))" | "y \<in> set (wq_other q)"
      by auto
    then show ?thesis
    proof cases
      case 1
      then show ?thesis using queue_ok_layer_mem [OF q 1] by auto
    qed (use q in \<open>auto simp: queue_ok_def\<close>)
  qed
  then have "\<forall>y \<in> set (concat (wq_layers q) @ wq_other q). \<not> item_class y \<le> Class_Leaf"
    by (metis class_le_simps(1) order_antisym)
  then show ?thesis
    using q LeafProveReq that [of "wq_leaf q" "concat (wq_layers q) @ wq_other q"]
    by (simp add: queue_items_def queue_push_def item_class_def queue_ok_def)
next
  case (EvmProveReq r)
  then show ?thesis
    using q that [of "queue_items q" "[]"]
    by (simp add: queue_items_def queue_push_def item_class_def queue_ok_def)
next
  case (InternalProveReq r)
  define k where "k = min (ipr_layer_idx r) (max_layers - 1)"
  have len: "length (wq_layers q) = max_layers" "k < length (wq_layers q)"
    using q by (simp_all add: queue_ok_def k_def max_layers_def min_def)
  have cl: "item_class x = Class_Internal k" using InternalProveReq by (simp add: item_class_def k_def)
  have push: "queue_push x q = q\<lparr>wq_layers := (wq_layers q)[k := wq_layers q ! k @ [x]]\<rparr>"
    using InternalProveReq len by (simp add: queue_push_def Let_def k_def min_def)
  let ?pre = "wq_leaf q @ concat (take (Suc k) (wq_layers q))"
  let ?post = "concat (drop (Suc k) (wq_layers q)) @ wq_other q"
  have tk: "concat (take (Suc k) (wq_layers q)) = concat (take k (wq_layers q)) @ wq_layers q ! k"
    using len by (simp add: take_Suc_conv_app_nth)
  have "queue_items q = ?pre @ ?post"
    using layers_split(1) [OF len(2)] by (simp add: queue_items_def tk)
  moreover have "queue_items (queue_push x q) = ?pre @ x # ?post"
    using layers_split(2) [OF len(2)] by (simp add: queue_items_def push tk)
  moreover have "\<forall>y \<in> set ?pre. item_class y \<le> item_class x"
  proof
    fix y assume "y \<in> set ?pre"
    then consider "y \<in> set (wq_leaf q)" | "y \<in> set (concat (take (Suc k) (wq_layers q)))" by auto
    then show "item_class y \<le> item_class x"
    proof cases
      case 2
      then show ?thesis using queue_ok_layer_mem [OF q 2] cl by auto
    qed (use q in \<open>simp add: queue_ok_def\<close>)
  qed
  moreover have "\<forall>y \<in> set ?post. \<not> item_class y \<le> item_class x"
  proof
    fix y assume "y \<in> set ?post"
    then consider "y \<in> set (wq_other q)" | "y \<in> set (concat (drop (Suc k) (wq_layers q)))" by auto
    then show "\<not> item_class y \<le> item_class x"
    proof cases
      case 2
      then show ?thesis using queue_ok_layer_drop [OF q 2] cl by auto
    qed (use q cl in \<open>simp add: queue_ok_def\<close>)
  qed
  moreover have "queue_ok (queue_push x q)"
    using q cl len by (auto simp: push queue_ok_def nth_list_update)
  ultimately show ?thesis using that by blast
qed

lemma pop_layers_None: "pop_layers ls = None \<longleftrightarrow> concat ls = []"
  by (induction ls rule: pop_layers.induct) auto

lemma pop_layers_Some:
  "pop_layers ls = Some (x, ls') \<Longrightarrow>
   concat ls = x # concat ls' \<and> length ls' = length ls \<and> (\<forall>k < length ls. set (ls' ! k) \<subseteq> set (ls ! k))"
proof (induction ls arbitrary: ls' rule: pop_layers.induct)
  case (2 y ys rest)
  then show ?case by (auto simp: nth_Cons split: nat.splits)
next
  case (3 rest)
  then obtain r where r: "pop_layers rest = Some (x, r)" "ls' = [] # r" by auto
  then show ?case using 3(1) [OF r(1)] by (auto simp: nth_Cons split: nat.splits)
qed simp

lemma queue_pop_Some:
  assumes q: "queue_ok q" and pop: "queue_pop q = Some (x, q')"
  shows "queue_items q = x # queue_items q' \<and> queue_ok q'"
proof (cases "wq_leaf q")
  case (Cons y ys)
  then show ?thesis using assms by (auto simp: queue_pop_def queue_items_def queue_ok_def)
next
  case Nil
  show ?thesis
  proof (cases "pop_layers (wq_layers q)")
    case None
    then have "queue_pop q = (case wq_other q of x # xs \<Rightarrow> Some (x, q\<lparr>wq_other := xs\<rparr>) | [] \<Rightarrow> None)"
      using Nil by (simp add: queue_pop_def)
    moreover have c: "concat (wq_layers q) = []" using None by (simp only: pop_layers_None)
    ultimately show ?thesis using assms Nil
      by (cases "wq_other q") (auto simp: queue_items_def queue_ok_def c)
  next
    case (Some r)
    then obtain ls where ls: "pop_layers (wq_layers q) = Some (x, ls)" "q' = q\<lparr>wq_layers := ls\<rparr>"
      using pop Nil by (cases r) (auto simp: queue_pop_def)
    show ?thesis
      using q Nil pop_layers_Some [OF ls(1)] by (auto simp: ls(2) queue_items_def queue_ok_def subset_iff)
  qed
qed

lemma queue_pop_None: "queue_pop q = None \<longleftrightarrow> queue_items q = []"
  using pop_layers_None [of "wq_layers q"]
  by (auto simp: queue_pop_def queue_items_def split: list.splits option.splits)

lemma queue_sorted:
  assumes "queue_ok q"
  shows "sorted (map item_class (queue_items q))"
proof -
  have l: "m \<le> length (wq_layers q) \<Longrightarrow> sorted (map item_class (concat (take m (wq_layers q))))" for m
  proof (induction m)
    case (Suc m)
    then have "concat (take (Suc m) (wq_layers q)) = concat (take m (wq_layers q)) @ wq_layers q ! m"
      by (simp add: take_Suc_conv_app_nth)
    moreover have "\<forall>x \<in> set (wq_layers q ! m). item_class x = Class_Internal m"
      using Suc.prems assms by (simp add: queue_ok_def)
    moreover have "sorted (map item_class xs)" if "\<forall>x \<in> set xs. item_class x = Class_Internal m" for xs
      using that by (induction xs) auto
    ultimately show ?case
      using Suc queue_ok_layer_mem [OF assms, of _ m]
      by (fastforce simp: sorted_append)
  qed simp
  have const: "sorted (map item_class xs)" if "\<forall>x \<in> set xs. item_class x = c" for xs c
    using that by (induction xs) auto
  have "sorted (map item_class (concat (wq_layers q)))" using l [of "length (wq_layers q)"] by simp
  then show ?thesis
    using assms const [of "wq_leaf q" Class_Leaf] const [of "wq_other q" Class_Other]
    by (auto simp: queue_items_def sorted_append queue_ok_def)
qed

interpretation wq: priority_queue queue_new queue_push queue_pop queue_is_empty queue_ok queue_items item_class
proof
  show "queue_ok queue_new" "queue_items queue_new = []"
    by (simp_all add: queue_ok_def queue_new_def queue_items_def)
  fix q :: work_queue and x q'
  assume q: "queue_ok q"
  obtain pre post where p: "queue_items q = pre @ post" "queue_items (queue_push x q) = pre @ x # post"
    "\<forall>y \<in> set pre. item_class y \<le> item_class x" "\<forall>y \<in> set post. \<not> item_class y \<le> item_class x"
    "queue_ok (queue_push x q)" using queue_push_split [OF q] by blast
  show "queue_ok (queue_push x q)" by (rule p(5))
  show "queue_items (queue_push x q) = takeWhile (\<lambda>y. item_class y \<le> item_class x) (queue_items q) @
      x # dropWhile (\<lambda>y. item_class y \<le> item_class x) (queue_items q)"
    using split_while [OF p(3,4)] by (simp only: p(1,2))
  show "queue_pop q = Some (x, q') \<Longrightarrow> queue_ok q'" "queue_pop q = Some (x, q') \<Longrightarrow> queue_items q = x # queue_items q'"
    using queue_pop_Some [OF q] by blast+
  show "queue_pop q = None \<longleftrightarrow> queue_items q = []" by (rule queue_pop_None)
  show "queue_is_empty q \<longleftrightarrow> queue_items q = []"
    by (auto simp: queue_is_empty_def queue_items_def list_all_iff)
  show "sorted (map item_class (queue_items q))" by (rule queue_sorted [OF q])
qed

section \<open>Properties\<close>


end
