(* ===== verification/Manager_Config.thy ===== *)
theory Manager_Config
  imports Protocol_Types
begin

text \<open>
  The manager's configuration, \<open>edge-manager/src/config.rs\<close>: the TOML sections, their defaults, loading
  and validation. A path is the string of its characters. The file system and the TOML decoder are
  parameters of \<open>load\<close>.
\<close>

record server_config =
  sc_listen_addr :: string
  sc_num_workers :: nat
  sc_artifacts_path :: "string option"

record provers_config =
  pv_max_app_provers :: nat
  pv_max_leaf_provers :: nat
  pv_max_internal_provers :: nat

record proof_config =
  pf_timeout_secs :: nat
  pf_leaf_pack_threshold :: nat
  pf_persist_final_proofs_dir :: "string option"
  pf_compress_persisted_final_proofs :: bool
  pf_persist_leaf_failure_app_proofs_dir :: "string option"
  pf_leaf_arity :: nat
  pf_internal_arity :: nat

record metrics_config =
  mt_output_dir :: string
  mt_endpoint :: "string option"
  mt_api_key :: "string option"

record lifecycle_config =
  lc_webhook_url :: "string option"
  lc_timeout_ms :: nat

record telemetry_config =
  tl_log_level :: string
  tl_otlp_endpoint :: "string option"

record manager_config =
  mc_server :: server_config
  mc_proof :: proof_config
  mc_provers :: provers_config
  mc_lifecycle :: lifecycle_config
  mc_telemetry :: telemetry_config
  mc_metrics :: metrics_config

definition default_timeout_secs :: nat where "default_timeout_secs = 300"
definition default_leaf_pack_threshold :: nat where "default_leaf_pack_threshold = 48"
definition default_log_level :: string where "default_log_level = ''info''"
definition default_lifecycle_timeout_ms :: nat where "default_lifecycle_timeout_ms = 6000"
definition default_leaf_arity :: nat where "default_leaf_arity = 4"
definition default_internal_arity :: nat where "default_internal_arity = 3"
definition default_metrics_output_dir :: string where "default_metrics_output_dir = ''/data/metrics''"

lemmas config_defaults = default_timeout_secs_def default_leaf_pack_threshold_def
  default_log_level_def default_lifecycle_timeout_ms_def default_leaf_arity_def
  default_internal_arity_def default_metrics_output_dir_def

definition proof_config_default :: proof_config where
  "proof_config_default =
     \<lparr>pf_timeout_secs = default_timeout_secs,
      pf_leaf_pack_threshold = default_leaf_pack_threshold,
      pf_persist_final_proofs_dir = None,
      pf_compress_persisted_final_proofs = False,
      pf_persist_leaf_failure_app_proofs_dir = None,
      pf_leaf_arity = default_leaf_arity,
      pf_internal_arity = default_internal_arity\<rparr>"

definition metrics_config_default :: metrics_config where
  "metrics_config_default =
     \<lparr>mt_output_dir = default_metrics_output_dir, mt_endpoint = None, mt_api_key = None\<rparr>"

definition telemetry_config_default :: telemetry_config where
  "telemetry_config_default = \<lparr>tl_log_level = default_log_level, tl_otlp_endpoint = None\<rparr>"

definition lifecycle_config_default :: lifecycle_config where
  "lifecycle_config_default = \<lparr>lc_webhook_url = None, lc_timeout_ms = default_lifecycle_timeout_ms\<rparr>"

definition validate_config :: "manager_config \<Rightarrow> unit outcome" where
  "validate_config c =
     (if sc_num_workers (mc_server c) = 0 then Err ''server.num_workers must be > 0''
      else if pv_max_app_provers (mc_provers c) = 0 then Err ''provers.max_app_provers must be > 0''
      else if pv_max_leaf_provers (mc_provers c) = 0 then Err ''provers.max_leaf_provers must be > 0''
      else if pv_max_internal_provers (mc_provers c) = 0 then
        Err ''provers.max_internal_provers must be > 0''
      else if pf_timeout_secs (mc_proof c) = 0 then Err ''proof.timeout_secs must be > 0''
      else if pf_leaf_pack_threshold (mc_proof c) = 0 then
        Err ''proof.leaf_pack_threshold must be > 0''
      else if pf_leaf_arity (mc_proof c) = 0 then Err ''proof.leaf_arity must be > 0''
      else if pf_internal_arity (mc_proof c) = 0 then Err ''proof.internal_arity must be > 0''
      else if pf_persist_final_proofs_dir (mc_proof c) = Some [] then
        Err ''proof.persist_final_proofs_dir must not be empty''
      else if pf_compress_persisted_final_proofs (mc_proof c) \<and>
              pf_persist_final_proofs_dir (mc_proof c) = None then
        Err ''proof.compress_persisted_final_proofs requires proof.persist_final_proofs_dir''
      else if pf_persist_leaf_failure_app_proofs_dir (mc_proof c) = Some [] then
        Err ''proof.persist_leaf_failure_app_proofs_dir must not be empty''
      else case lc_webhook_url (mc_lifecycle c) of
             None \<Rightarrow> Ok ()
           | Some url \<Rightarrow>
               if trim url = [] then Err ''lifecycle.webhook_url must not be empty when set''
               else if lc_timeout_ms (mc_lifecycle c) = 0 then Err ''lifecycle.timeout_ms must be > 0''
               else Ok ())"

definition load_config ::
  "(string \<Rightarrow> string + string) \<Rightarrow> (string \<Rightarrow> string + manager_config) \<Rightarrow> string \<Rightarrow> manager_config outcome" where
  "load_config read_to_string toml_from_str path =
     (case read_to_string path of
        Inl e \<Rightarrow> Err e
      | Inr content \<Rightarrow>
          (case toml_from_str content of
             Inl e \<Rightarrow> Err e
           | Inr config \<Rightarrow>
               (case validate_config config of Ok _ \<Rightarrow> Ok config | Err e \<Rightarrow> Err e | Panic p \<Rightarrow> Panic p)))"

section \<open>Properties\<close>

text \<open>Validation accepts exactly the configurations with positive counts, fan-ins and timeouts,
  nonempty directories, compression only with a persistence directory, and a nonblank webhook URL
  with a positive timeout when a URL is set.\<close>

theorem validate_config_ok_iff:
  "validate_config c = Ok () \<longleftrightarrow>
     0 < sc_num_workers (mc_server c) \<and>
     0 < pv_max_app_provers (mc_provers c) \<and> 0 < pv_max_leaf_provers (mc_provers c) \<and>
     0 < pv_max_internal_provers (mc_provers c) \<and>
     0 < pf_timeout_secs (mc_proof c) \<and> 0 < pf_leaf_pack_threshold (mc_proof c) \<and>
     0 < pf_leaf_arity (mc_proof c) \<and> 0 < pf_internal_arity (mc_proof c) \<and>
     pf_persist_final_proofs_dir (mc_proof c) \<noteq> Some [] \<and>
     \<not> (pf_compress_persisted_final_proofs (mc_proof c) \<and> pf_persist_final_proofs_dir (mc_proof c) = None) \<and>
     pf_persist_leaf_failure_app_proofs_dir (mc_proof c) \<noteq> Some [] \<and>
     (case lc_webhook_url (mc_lifecycle c) of
        None \<Rightarrow> True | Some url \<Rightarrow> trim url \<noteq> [] \<and> 0 < lc_timeout_ms (mc_lifecycle c))"
  by (auto simp: validate_config_def split: option.splits)

end
