(* ===== verification/Worker_Registry.thy ===== *)
theory Worker_Registry
  imports Manager_Config
begin

text \<open>
  The worker registry of \<open>edge-manager/src/worker_registry.rs\<close>: registration with role and capacity
  checks, readiness of the whole stack, and the app-eligible set. A \<open>DashMap\<close> is an association
  list; \<open>register\<close> is also split at the point where its checks end, since two registrations may
  interleave there.
\<close>

record registered_worker =
  rw_worker_url :: string
  rw_last_seen :: instant
  rw_worker_role :: worker_role

record worker_registry =
  wr_next_worker_id :: nat
  wr_expected_num_workers :: nat
  wr_expected_provers :: provers_config
  wr_workers :: "(nat, registered_worker) hmap"
  wr_url_to_id :: "(string, nat) hmap"

definition registry_new :: "nat \<Rightarrow> provers_config \<Rightarrow> worker_registry" where
  "registry_new expected_num_workers expected_provers =
     \<lparr>wr_next_worker_id = 0, wr_expected_num_workers = expected_num_workers,
      wr_expected_provers = expected_provers, wr_workers = [], wr_url_to_id = []\<rparr>"

text \<open>The compare-and-exchange loop leaves the larger of the two values.\<close>

definition bump_next_worker_id :: "nat \<Rightarrow> worker_registry \<Rightarrow> worker_registry" where
  "bump_next_worker_id min_next r =
     (if wr_next_worker_id r \<ge> min_next then r else r\<lparr>wr_next_worker_id := min_next\<rparr>)"

definition debug_provers :: "provers_config \<Rightarrow> string" where
  "debug_provers p = ''ProversConfig { max_app_provers: '' @ show_nat (pv_max_app_provers p) @
     '', max_leaf_provers: '' @ show_nat (pv_max_leaf_provers p) @
     '', max_internal_provers: '' @ show_nat (pv_max_internal_provers p) @ '' }''"

fun validate_provers :: "worker_registry \<Rightarrow> provers_config \<Rightarrow> worker_role \<Rightarrow> unit outcome" where
  "validate_provers r reported EvmDedicated =
     (if pv_max_app_provers reported \<noteq> 0 \<or> pv_max_leaf_provers reported \<noteq> 0 \<or>
         pv_max_internal_provers reported \<noteq> 0
      then Err (''EvmDedicated worker must report zero app/leaf/internal capacity '' @
                ''(it runs only the EVM step), but reported '' @ debug_provers reported)
      else Ok ())"
| "validate_provers r reported _ =
     (if reported \<noteq> wr_expected_provers r
      then Err (''worker provers config does not match manager config: worker reported '' @
                debug_provers reported @ '', manager expects '' @ debug_provers (wr_expected_provers r))
      else Ok ())"

text \<open>The first part of \<open>register\<close>: the checks, up to the re-registration of a known URL, which ends
  the call (\<open>Inl\<close>), or the decision to add a new worker (\<open>Inr\<close>).\<close>

definition register_check ::
  "instant \<Rightarrow> string \<Rightarrow> nat \<Rightarrow> provers_config \<Rightarrow> worker_role \<Rightarrow> worker_registry \<Rightarrow>
   (worker_registry \<times> nat outcome) + unit" where
  "register_check now worker_url worker_id provers role r =
     (case validate_provers r provers role of
        Err e \<Rightarrow> Inl (r, Err e)
      | Panic p \<Rightarrow> Inl (r, Panic p)
      | Ok _ \<Rightarrow>
          if worker_id \<ge> wr_expected_num_workers r then
            Inl (r, Err (''worker_id '' @ show_nat worker_id @ '' >= server.num_workers '' @
                    show_nat (wr_expected_num_workers r)))
          else case map_of (wr_url_to_id r) worker_url of
            Some existing_id \<Rightarrow>
              if worker_id \<noteq> existing_id then
                Inl (r, Err (''worker URL '' @ worker_url @ '' already bound to worker_id '' @
                  show_nat existing_id @ '' but requested worker_id '' @ show_nat worker_id))
              else
                Inl (case map_of (wr_workers r) existing_id of
                       None \<Rightarrow> (r, Ok existing_id)
                     | Some w \<Rightarrow>
                         (r\<lparr>wr_workers := AList.update existing_id
                              (w\<lparr>rw_last_seen := now, rw_worker_role := role\<rparr>) (wr_workers r)\<rparr>,
                          Ok existing_id))
          | None \<Rightarrow>
              (case map_of (wr_workers r) worker_id of
                 Some existing_worker \<Rightarrow>
                   if rw_worker_url existing_worker \<noteq> worker_url then
                     Inl (r, Err (''worker_id '' @ show_nat worker_id @ '' already bound to '' @
                       rw_worker_url existing_worker @ '' (requested by '' @ worker_url @ '')''))
                   else Inr ()
               | None \<Rightarrow> Inr ()))"

text \<open>The second part: the insertions.\<close>

definition register_commit ::
  "instant \<Rightarrow> string \<Rightarrow> nat \<Rightarrow> worker_role \<Rightarrow> worker_registry \<Rightarrow> worker_registry \<times> nat outcome" where
  "register_commit now worker_url worker_id role r =
     (let r1 = bump_next_worker_id (worker_id + 1) r;
          worker = \<lparr>rw_worker_url = worker_url, rw_last_seen = now, rw_worker_role = role\<rparr>
      in (r1\<lparr>wr_workers := AList.update worker_id worker (wr_workers r1),
             wr_url_to_id := AList.update worker_url worker_id (wr_url_to_id r1)\<rparr>,
          Ok worker_id))"

definition register ::
  "instant \<Rightarrow> string \<Rightarrow> nat \<Rightarrow> provers_config \<Rightarrow> worker_role \<Rightarrow> worker_registry \<Rightarrow>
   worker_registry \<times> nat outcome" where
  "register now worker_url worker_id provers role r =
     (case register_check now worker_url worker_id provers role r of
        Inl res \<Rightarrow> res
      | Inr _ \<Rightarrow> register_commit now worker_url worker_id role r)"

definition ready_workers :: "worker_registry \<Rightarrow> (nat \<times> registered_worker) list outcome" where
  "ready_workers r =
     (if wr_workers r = [] then Err ''No Edge workers have registered yet''
      else
        (let workers = sort_by_id (wr_workers r);
             expected = wr_expected_num_workers r
         in if length workers \<noteq> expected then
              Err (''Only '' @ show_nat (length workers) @ ''/'' @ show_nat expected @
                   '' Edge workers have registered with manager'')
            else
              (let missing_ids =
                     filter (\<lambda>expected_id. list_all (\<lambda>(worker_id, _). worker_id \<noteq> expected_id) workers)
                       [0..<expected]
               in if missing_ids \<noteq> [] then
                    Err (''Edge workers missing registrations for worker IDs '' @ debug_nats missing_ids)
                  else
                    (let app_ids = map fst (filter (\<lambda>(_, w). runs_stark_proving (rw_worker_role w)) workers)
                     in case find_index (\<lambda>(i, w). w \<noteq> i) (enumerate 0 app_ids) of
                          Some i \<Rightarrow>
                            Err (''App-eligible (STARK-proving) worker IDs must be the contiguous range 0..'' @
                              show_nat (length app_ids) @ '' for modulo sharding to cover them; worker at position '' @
                              show_nat i @ '' has id '' @ show_nat (app_ids ! i) @ '' (got '' @
                              debug_nats app_ids @
                              ''). Assign EvmDedicated worker(s) the top worker IDs.'')
                        | None \<Rightarrow> Ok workers))))"

record registry_status =
  rs_num_workers :: nat
  rs_expected_num_workers :: nat
  rs_workers :: "(nat \<times> registered_worker) list"

definition get_status :: "worker_registry \<Rightarrow> registry_status" where
  "get_status r =
     \<lparr>rs_num_workers = length (sort_by_id (wr_workers r)),
      rs_expected_num_workers = wr_expected_num_workers r,
      rs_workers = sort_by_id (wr_workers r)\<rparr>"

definition app_eligible_workers :: "(nat \<times> registered_worker) list \<Rightarrow> (nat \<times> registered_worker) list" where
  "app_eligible_workers workers = filter (\<lambda>(_, w). runs_stark_proving (rw_worker_role w)) workers"

section \<open>Invariant\<close>

text \<open>Identifiers are below the expected count and the two maps are inverse to each other.\<close>

definition registry_inv :: "worker_registry \<Rightarrow> bool" where
  "registry_inv r \<longleftrightarrow> hm_wf (wr_workers r) \<and> hm_wf (wr_url_to_id r) \<and>
     (\<forall>i. map_of (wr_workers r) i \<noteq> None \<longrightarrow>
        i < wr_expected_num_workers r \<and> i < wr_next_worker_id r) \<and>
     (\<forall>u i. map_of (wr_url_to_id r) u = Some i \<longleftrightarrow>
        map_option rw_worker_url (map_of (wr_workers r) i) = Some u)"

lemma registry_url_iff:
  "registry_inv r \<Longrightarrow> map_of (wr_url_to_id r) u = Some i \<longleftrightarrow>
     (\<exists>w. map_of (wr_workers r) i = Some w \<and> rw_worker_url w = u)"
  by (auto simp: registry_inv_def)

lemma registry_inv_new: "registry_inv (registry_new n p)"
  by (simp add: registry_inv_def registry_new_def)

lemma validate_provers_cases:
  "validate_provers r p role = Ok () \<or> (\<exists>e. validate_provers r p role = Err e)"
  by (cases role) auto

lemma registry_inv_refresh:
  assumes "registry_inv r" "map_of (wr_workers r) i = Some w"
  shows "registry_inv (r\<lparr>wr_workers := AList.update i (w\<lparr>rw_last_seen := t, rw_worker_role := role\<rparr>)
           (wr_workers r)\<rparr>)"
  using assms unfolding registry_inv_def by simp

lemma registry_inv_commit:
  assumes inv: "registry_inv r" and "map_of (wr_workers r) i = None" "map_of (wr_url_to_id r) u = None"
    "i < wr_expected_num_workers r"
  shows "registry_inv (fst (register_commit now u i role r))"
proof -
  have nx: "wr_next_worker_id (bump_next_worker_id (Suc i) r) = max (Suc i) (wr_next_worker_id r)"
    "wr_workers (bump_next_worker_id (Suc i) r) = wr_workers r"
    "wr_url_to_id (bump_next_worker_id (Suc i) r) = wr_url_to_id r"
    "wr_expected_num_workers (bump_next_worker_id (Suc i) r) = wr_expected_num_workers r"
    by (simp_all add: bump_next_worker_id_def)
  have "map_of (wr_url_to_id r) v \<noteq> Some i" for v
    using registry_url_iff [OF inv, of v i] assms(2) by simp
  moreover have "map_option rw_worker_url (map_of (wr_workers r) j) \<noteq> Some u" for j
    using registry_url_iff [OF inv, of u j] assms(3) by auto
  ultimately show ?thesis
    using assms unfolding registry_inv_def register_commit_def Let_def
    by (auto simp: nx less_max_iff_disj)
qed

lemma register_inv:
  assumes inv: "registry_inv r"
  shows "registry_inv (fst (register now u i p role r))"
proof -
  consider e where "validate_provers r p role = Err e" | "validate_provers r p role = Ok ()"
    using validate_provers_cases by blast
  then show ?thesis
  proof cases
    case 2
    show ?thesis
    proof (cases "map_of (wr_url_to_id r) u")
      case None
      have "map_of (wr_workers r) i = None \<or> (\<exists>w. map_of (wr_workers r) i = Some w \<and> rw_worker_url w \<noteq> u)"
        using registry_url_iff [OF inv, of u i] None by (cases "map_of (wr_workers r) i") auto
      then show ?thesis
        using 2 None inv registry_inv_commit [OF inv _ None]
        by (auto simp: register_def register_check_def split: option.split)
    next
      case (Some j)
      then obtain w where "map_of (wr_workers r) j = Some w"
        using registry_url_iff [OF inv] by blast
      then show ?thesis
        using 2 Some inv registry_inv_refresh [OF inv, of j w]
        by (auto simp: register_def register_check_def)
    qed
  qed (simp add: register_def register_check_def inv)
qed

lemma sort_by_id_ids:
  assumes "hm_wf m"
  shows "set (sort_by_id m) = set m" "length (sort_by_id m) = length m"
    "sorted (map fst (sort_by_id m))" "distinct (map fst (sort_by_id m))"
proof -
  show "set (sort_by_id m) = set m" "length (sort_by_id m) = length m"
    "sorted (map fst (sort_by_id m))" by (simp_all add: sort_by_id_def)
  have "mset (map fst (sort_by_id m)) = mset (map fst m)"
    by (simp add: sort_by_id_def)
  then show "distinct (map fst (sort_by_id m))"
    using assms by (metis hm_wf_def mset_eq_imp_distinct_iff)
qed

lemma sorted_complete_ids:
  assumes "sorted xs" "distinct xs" "length xs = n" "set [0..<n] \<subseteq> set xs"
  shows "xs = [0..<n]"
proof -
  have "set xs = set [0..<n]"
    using assms(2-4) by (intro card_subset_eq [symmetric]) (auto simp: distinct_card)
  then show ?thesis using assms(1,2) by (intro sorted_distinct_set_unique) auto
qed

lemma enumerate_prefix_iff:
  "find_index (\<lambda>(i, w). w \<noteq> i) (enumerate 0 xs) = None \<longleftrightarrow> xs = [0..<length xs]"
proof -
  have "find_index (\<lambda>(i, w). w \<noteq> i) (enumerate 0 xs) = None \<longleftrightarrow> (\<forall>i < length xs. xs ! i = i)"
    by (auto simp: find_index_None_iff in_set_enumerate_eq)
  also have "\<dots> \<longleftrightarrow> xs = [0..<length xs]"
    by (metis add.left_neutral length_upt minus_nat.diff_0 nth_equalityI nth_upt)
  finally show ?thesis .
qed

lemma ready_workers_ok_iff:
  assumes "registry_inv r"
  shows "ready_workers r = Ok ws \<longleftrightarrow>
    wr_workers r \<noteq> [] \<and> ws = sort_by_id (wr_workers r) \<and>
    map fst ws = [0..<wr_expected_num_workers r] \<and>
    map fst (app_eligible_workers ws) = [0..<length (app_eligible_workers ws)]"
proof -
  let ?ws = "sort_by_id (wr_workers r)" and ?n = "wr_expected_num_workers r"
  let ?app = "map fst (filter (\<lambda>(_, w). runs_stark_proving (rw_worker_role w)) ?ws)"
  have wf: "hm_wf (wr_workers r)" using assms by (simp add: registry_inv_def)
  note srt = sort_by_id_ids [OF wf]
  have miss: "filter (\<lambda>i. list_all (\<lambda>(j, _). j \<noteq> i) ?ws) [0..<?n] = [] \<longleftrightarrow> set [0..<?n] \<subseteq> set (map fst ?ws)"
    by (force simp: filter_empty_conv list_all_iff)
  have ids: "length ?ws = ?n \<and> set [0..<?n] \<subseteq> set (map fst ?ws) \<longleftrightarrow> map fst ?ws = [0..<?n]"
    using sorted_complete_ids [OF srt(3,4), of ?n] by (metis length_map length_upt minus_nat.diff_0 order_refl)
  have "ready_workers r = Ok ws \<longleftrightarrow>
      wr_workers r \<noteq> [] \<and> length ?ws = ?n \<and> set [0..<?n] \<subseteq> set (map fst ?ws) \<and>
      ?app = [0..<length ?app] \<and> ws = ?ws"
    unfolding ready_workers_def Let_def miss [symmetric] enumerate_prefix_iff [symmetric]
    by (auto split: option.splits)
  then show ?thesis using ids by (auto simp: app_eligible_workers_def)
qed

section \<open>Example data\<close>

definition demo_provers :: provers_config where
  "demo_provers = \<lparr>pv_max_app_provers = 1, pv_max_leaf_provers = 2, pv_max_internal_provers = 1\<rparr>"

definition no_provers :: provers_config where
  "no_provers = \<lparr>pv_max_app_provers = 0, pv_max_leaf_provers = 0, pv_max_internal_provers = 0\<rparr>"

text \<open>A stack of two STARK workers and one dedicated EVM worker, registered out of order.\<close>

type_synonym registration = "instant \<times> string \<times> nat \<times> provers_config \<times> worker_role"

definition run_registrations :: "registration list \<Rightarrow> worker_registry \<Rightarrow> worker_registry" where
  "run_registrations reqs r =
     fold (\<lambda>(now, url, i, p, role) r. fst (register now url i p role r)) reqs r"

definition demo_registry :: worker_registry where
  "demo_registry = run_registrations
     [(1, ''c'', 2, no_provers, EvmDedicated), (2, ''a'', 0, demo_provers, StarkOnly),
      (3, ''b'', 1, demo_provers, StarkOnly)] (registry_new 3 demo_provers)"

lemma run_registrations_inv: "registry_inv r \<Longrightarrow> registry_inv (run_registrations reqs r)"
  unfolding run_registrations_def
  by (induction reqs arbitrary: r) (auto simp: register_inv)

lemma demo_registry_inv: "registry_inv demo_registry"
  unfolding demo_registry_def by (intro run_registrations_inv registry_inv_new)

lemma demo_ready:
  "ready_workers demo_registry =
     Ok [(0, \<lparr>rw_worker_url = ''a'', rw_last_seen = 2, rw_worker_role = StarkOnly\<rparr>),
         (1, \<lparr>rw_worker_url = ''b'', rw_last_seen = 3, rw_worker_role = StarkOnly\<rparr>),
         (2, \<lparr>rw_worker_url = ''c'', rw_last_seen = 1, rw_worker_role = EvmDedicated\<rparr>)]"
  by code_simp

section \<open>Properties\<close>

text \<open>C25. Any sequence of registrations, accepted or refused, keeps the registry's invariant: identifiers
  stay below the expected count and URL and identifier determine each other.\<close>

theorem registrations_keep_bijection:
  "registry_inv (run_registrations reqs (registry_new n p))"
  by (rule run_registrations_inv [OF registry_inv_new])

text \<open>The readiness gate: the worker list is handed out exactly when every identifier below the
  expected count is registered and the STARK-proving workers have the lowest identifiers; the list is
  then ordered by identifier.\<close>

theorem ready_workers_exact:
  assumes "registry_inv r"
  shows "ready_workers r = Ok ws \<longleftrightarrow>
    wr_workers r \<noteq> [] \<and> ws = sort_by_id (wr_workers r) \<and>
    map fst ws = [0..<wr_expected_num_workers r] \<and>
    map fst (app_eligible_workers ws) = [0..<length (app_eligible_workers ws)]"
  by (rule ready_workers_ok_iff [OF assms])

theorem ready_workers_exact_witness:
  "map fst (sort_by_id (wr_workers demo_registry)) = [0..<3]"
proof -
  have "wr_expected_num_workers demo_registry = 3" by code_simp
  then show ?thesis using ready_workers_exact [OF demo_registry_inv] demo_ready by metis
qed

text \<open>Shard ownership: over a ready stack each segment belongs to exactly one STARK-proving worker,
  the one whose identifier is the segment index modulo the size of the app-eligible set.\<close>

theorem shard_owner_unique:
  assumes "registry_inv r" "ready_workers r = Ok ws" "app_eligible_workers ws \<noteq> []"
  shows "\<exists>!w. w \<in> set (app_eligible_workers ws) \<and>
    fst w = segment mod length (app_eligible_workers ws)"
proof -
  let ?app = "app_eligible_workers ws"
  have ids: "map fst ?app = [0..<length ?app]"
    using assms(1,2) ready_workers_ok_iff by blast
  then have inj: "inj_on fst (set ?app)" by (metis distinct_map distinct_upt)
  have "segment mod length ?app \<in> set (map fst ?app)"
    unfolding ids using assms(3) by simp
  then obtain w where "w \<in> set ?app" "fst w = segment mod length ?app" by auto
  then show ?thesis using inj by (metis inj_on_def)
qed

theorem shard_owner_unique_witness:
  "\<exists>!w. w \<in> set (app_eligible_workers (sort_by_id (wr_workers demo_registry))) \<and> fst w = 5 mod 2"
proof -
  have *: "ready_workers demo_registry = Ok (sort_by_id (wr_workers demo_registry))" by code_simp
  have len: "length (app_eligible_workers (sort_by_id (wr_workers demo_registry))) = 2" by code_simp
  then have ne: "app_eligible_workers (sort_by_id (wr_workers demo_registry)) \<noteq> []" by auto
  show ?thesis using shard_owner_unique [OF demo_registry_inv * ne, of 5] unfolding len .
qed

text \<open>Re-registration: a worker that registers again under its URL and identifier is accepted, and
  the registry changes only in that worker's time stamp and role.\<close>

theorem reregistration_idempotent:
  assumes "registry_inv r" "register now url i p role r = (r1, Ok j)"
  shows "i = j \<and> register now' url i p role r1 =
    (r1\<lparr>wr_workers := AList.update i \<lparr>rw_worker_url = url, rw_last_seen = now', rw_worker_role = role\<rparr>
       (wr_workers r1)\<rparr>, Ok i)"
proof -
  have v: "validate_provers r p role = Ok ()" and i: "i < wr_expected_num_workers r"
    using assms(2) validate_provers_cases [of r p role]
    by (auto simp: register_def register_check_def split: if_splits)
  have "i = j \<and> map_of (wr_url_to_id r1) url = Some i \<and>
      (\<exists>t. map_of (wr_workers r1) i = Some \<lparr>rw_worker_url = url, rw_last_seen = t, rw_worker_role = role\<rparr>) \<and>
      wr_expected_num_workers r1 = wr_expected_num_workers r \<and> wr_expected_provers r1 = wr_expected_provers r"
  proof (cases "map_of (wr_url_to_id r) url")
    case None
    then show ?thesis using assms(2) v i
      by (auto simp: register_def register_check_def register_commit_def Let_def bump_next_worker_id_def
          split: option.splits if_splits)
  next
    case (Some k)
    then obtain w where w: "map_of (wr_workers r) k = Some w" "rw_worker_url w = url"
      using registry_url_iff [OF assms(1)] by blast
    show ?thesis using assms(2) v i Some w
      by (cases w) (auto simp: register_def register_check_def split: if_splits)
  qed
  moreover from this have "validate_provers r1 p role = Ok ()" using v
    by (cases role) (auto split: if_splits)
  ultimately show ?thesis using i by (auto simp: register_def register_check_def)
qed

theorem reregistration_idempotent_witness:
  "snd (register 9 ''a'' 0 demo_provers Full
     (fst (register 1 ''a'' 0 demo_provers Full (registry_new 1 demo_provers)))) = Ok 0"
proof -
  have "register 1 ''a'' 0 demo_provers Full (registry_new 1 demo_provers) =
      (fst (register 1 ''a'' 0 demo_provers Full (registry_new 1 demo_provers)), Ok 0)" by code_simp
  from reregistration_idempotent [OF registry_inv_new this, of 9] show ?thesis by simp
qed

text \<open>Registration is not atomic: two workers that claim the same identifier from different URLs
  can both pass the checks before either is inserted; both are then accepted, and the first one's URL
  is left pointing at an identifier whose entry names the other.\<close>

theorem concurrent_registration_breaks_bijection:
  "let r = registry_new 1 demo_provers;
       (r1, ok1) = register_commit 1 ''a'' 0 Full r;
       (r2, ok2) = register_commit 2 ''b'' 0 Full r1
   in register_check 1 ''a'' 0 demo_provers Full r = Inr () \<and>
      register_check 2 ''b'' 0 demo_provers Full r = Inr () \<and>
      ok1 = Ok 0 \<and> ok2 = Ok 0 \<and>
      map_of (wr_url_to_id r2) ''a'' = Some 0 \<and>
      map_option rw_worker_url (map_of (wr_workers r2) 0) = Some ''b''"
  by code_simp

end
