(* ===== verification/Edge_Scheduler.thy ===== *)
theory Edge_Scheduler
  imports Work_Queue Worker_Registry
begin

text \<open>
  The per-proof scheduler of \<open>edge-manager/src/scheduler.rs\<close>: which worker takes which request, what
  waits in the priority queue, and when a worker's slot is released. A \<open>HashSet\<close> of segments is a
  list without repetitions (\<open>List.insert\<close>); a lookup through \<open>iter_mut().find\<close> is an index and a
  list update. The remainder by a worker count of zero is a panic.
\<close>

record assigned_work =
  aw_proof_uuid :: string
  aw_worker_id :: nat
  aw_worker_url :: string
  aw_envelope :: "general_prove_request message_envelope"
  aw_step :: step

record worker_debug_state =
  wd_worker_id :: nat
  wd_worker_url :: string
  wd_active_proof_count :: nat
  wd_active_steps :: "string list"
  wd_completed_segments_received :: nat
  wd_completed_segments_mod_match :: "nat option"
  wd_expected_segments_mod_match :: "nat option"
  wd_remaining_segments_mod_match :: "nat option"

record proof_debug_state =
  pd_proof_uuid :: string
  pd_num_workers :: nat
  pd_num_segments :: "nat option"
  pd_pending_work_empty :: bool
  pd_workers :: "worker_debug_state list"

record active_proof =
  ap_step :: step
  ap_layer_idx :: "nat option"

record edge_worker_state =
  ws_id :: nat
  ws_worker_url :: string
  ws_worker_role :: worker_role
  ws_active_proof_count :: nat
  ws_active_proofs :: "active_proof list"
  ws_completed_segments :: "nat list"

record edge_proof_state =
  es_workers :: "edge_worker_state list"
  es_pending :: work_queue
  es_num_segments :: "nat option"
  es_num_workers :: nat
  es_assigned_leaf_proofs :: nat
  es_leaf_pack_threshold :: nat
  es_max_leaf_provers :: nat

definition active_step_label :: "active_proof \<Rightarrow> string" where
  "active_step_label a =
     (if ap_step a = InternalProve then
        step_as_str (ap_step a) @ ''(layer='' @
        show_nat (case ap_layer_idx a of Some l \<Rightarrow> l | None \<Rightarrow> usize_max) @ '')''
      else step_as_str (ap_step a))"

definition active_proof_from_request :: "general_prove_request \<Rightarrow> step \<Rightarrow> active_proof" where
  "active_proof_from_request request s =
     (let layer_idx = (case request of InternalProveReq req \<Rightarrow> Some (ipr_layer_idx req) | _ \<Rightarrow> None)
      in \<lparr>ap_step = s, ap_layer_idx = layer_idx\<rparr>)"

definition runs_step :: "step \<Rightarrow> edge_worker_state \<Rightarrow> bool" where
  "runs_step s w \<longleftrightarrow> list_ex (\<lambda>p. ap_step p = s) (ws_active_proofs w)"

definition can_accept_work :: "edge_worker_state \<Rightarrow> step \<Rightarrow> nat \<Rightarrow> bool" where
  "can_accept_work w s max_leaf_provers =
     (if s = EvmProve then
        (if \<not> runs_evm_prove (ws_worker_role w) then False else ws_active_proof_count w = 0)
      else if ws_worker_role w = EvmDedicated then False
      else if runs_step EvmProve w then False
      else if runs_step ShardedAppProve w then False
      else (case s of
              LeafProve \<Rightarrow> ws_active_proof_count w < max_leaf_provers
            | InternalProve \<Rightarrow> ws_active_proof_count w = 0
            | ShardedAppProve \<Rightarrow> False
            | EvmProve \<Rightarrow> False
            | RootProve \<Rightarrow> False
            | Halo2Prove \<Rightarrow> False))"

text \<open>The key of the packing choice.\<close>

definition leaf_pack_key :: "edge_worker_state \<Rightarrow> nat" where
  "leaf_pack_key w =
     (let active_bias =
        (case ws_active_proofs w of
           active # _ \<Rightarrow>
             (if ap_step active = InternalProve
              then 1000 - (case ap_layer_idx active of Some l \<Rightarrow> l | None \<Rightarrow> 0) * 10
              else if ap_step active = LeafProve then 2000
              else 1500)
         | [] \<Rightarrow> 1500)
      in saturating_mul (ws_active_proof_count w) 10000 + active_bias)"

definition find_best_worker_for_leaf :: "edge_worker_state list \<Rightarrow> nat \<Rightarrow> nat \<Rightarrow> nat \<Rightarrow> nat option" where
  "find_best_worker_for_leaf workers assigned_leaf_proofs leaf_pack_threshold max_leaf_provers =
     (case find_index (\<lambda>w. runs_stark_proving (ws_worker_role w) \<and> ws_active_proof_count w = 0 \<and>
             \<not> runs_step ShardedAppProve w) workers of
        Some idx \<Rightarrow> Some idx
      | None \<Rightarrow>
          (if assigned_leaf_proofs < leaf_pack_threshold then
             map_option fst
               (min_by_key (\<lambda>(_, w). leaf_pack_key w)
                 (filter (\<lambda>(_, w). runs_stark_proving (ws_worker_role w) \<and>
                    ws_active_proof_count w < max_leaf_provers \<and> \<not> runs_step ShardedAppProve w)
                  (enumerate 0 workers)))
           else None))"

definition edge_proof_state_new :: "edge_worker_state list \<Rightarrow> nat \<Rightarrow> nat \<Rightarrow> nat \<Rightarrow> edge_proof_state" where
  "edge_proof_state_new workers num_workers leaf_pack_threshold max_leaf_provers =
     \<lparr>es_workers = workers, es_pending = queue_new, es_num_segments = None,
      es_num_workers = num_workers, es_assigned_leaf_proofs = 0,
      es_leaf_pack_threshold = leaf_pack_threshold, es_max_leaf_provers = max_leaf_provers\<rparr>"

text \<open>\<open>(total_count - id).div_ceil(n)\<close> for a worker that owns a segment; the division by zero panics.\<close>

definition div_by_zero :: string where
  "div_by_zero = ''attempt to divide by zero''"

definition expected_segments :: "nat \<Rightarrow> nat \<Rightarrow> nat \<Rightarrow> nat outcome" where
  "expected_segments worker_id total_count num_workers =
     (if worker_id < total_count then
        (if num_workers = 0 then Panic div_by_zero else Ok (div_ceil (total_count - worker_id) num_workers))
      else Ok 0)"

definition matched_segments :: "nat \<Rightarrow> nat list \<Rightarrow> nat \<Rightarrow> nat outcome" where
  "matched_segments worker_id completed num_workers =
     (if completed \<noteq> [] \<and> num_workers = 0 then Panic ''attempt to calculate the remainder with a divisor of zero''
      else Ok (length (filter (\<lambda>seg. seg mod num_workers = worker_id) completed)))"

definition worker_completed_all_segments :: "nat \<Rightarrow> nat list \<Rightarrow> nat \<Rightarrow> nat option \<Rightarrow> bool outcome" where
  "worker_completed_all_segments worker_id completed_segments num_workers total_segments =
     (case total_segments of
        None \<Rightarrow> Ok False
      | Some total_count \<Rightarrow>
          bind_outcome (expected_segments worker_id total_count num_workers) (\<lambda>expected_count.
          bind_outcome (matched_segments worker_id completed_segments num_workers) (\<lambda>actual_count.
          Ok (actual_count \<ge> expected_count))))"

section \<open>Assignment\<close>

definition choose_worker :: "edge_proof_state \<Rightarrow> step \<Rightarrow> nat option" where
  "choose_worker s st =
     (if st = LeafProve then
        find_best_worker_for_leaf (es_workers s) (es_assigned_leaf_proofs s)
          (es_leaf_pack_threshold s) (es_max_leaf_provers s)
      else find_index (\<lambda>w. can_accept_work w st (es_max_leaf_provers s)) (es_workers s))"

text \<open>The assignment to the worker at an index, common to both callers.\<close>

definition assign_to ::
  "string \<Rightarrow> nat \<Rightarrow> general_prove_request message_envelope \<Rightarrow> step \<Rightarrow> edge_proof_state \<Rightarrow>
   edge_proof_state \<times> assigned_work" where
  "assign_to proof_uuid idx envelope st s =
     (let worker = es_workers s ! idx;
          worker' = worker\<lparr>ws_active_proof_count := ws_active_proof_count worker + 1,
            ws_active_proofs := ws_active_proofs worker @ [active_proof_from_request (me_message envelope) st]\<rparr>;
          s1 = s\<lparr>es_workers := (es_workers s)[idx := worker']\<rparr>;
          s2 = (if st = LeafProve then s1\<lparr>es_assigned_leaf_proofs := es_assigned_leaf_proofs s1 + 1\<rparr> else s1)
      in (s2, \<lparr>aw_proof_uuid = proof_uuid, aw_worker_id = ws_id worker, aw_worker_url = ws_worker_url worker,
               aw_envelope = envelope, aw_step = st\<rparr>))"

definition assign_or_queue ::
  "string \<Rightarrow> general_prove_request message_envelope \<Rightarrow> step \<Rightarrow> edge_proof_state \<Rightarrow>
   edge_proof_state \<times> assigned_work option" where
  "assign_or_queue proof_uuid envelope st s =
     (case choose_worker s st of
        Some idx \<Rightarrow> (let (s', w) = assign_to proof_uuid idx envelope st s in (s', Some w))
      | None \<Rightarrow>
          (s\<lparr>es_pending := queue_push \<lparr>wi_envelope = envelope, wi_step = st\<rparr> (es_pending s)\<rparr>, None))"

definition try_dequeue_work :: "string \<Rightarrow> edge_proof_state \<Rightarrow> edge_proof_state \<times> assigned_work option" where
  "try_dequeue_work proof_uuid s =
     (case queue_pop (es_pending s) of
        None \<Rightarrow> (s, None)
      | Some (item, rest) \<Rightarrow>
          (let s1 = s\<lparr>es_pending := rest\<rparr> in
           case choose_worker s1 (wi_step item) of
             Some idx \<Rightarrow> (let (s', w) = assign_to proof_uuid idx (wi_envelope item) (wi_step item) s1
                          in (s', Some w))
           | None \<Rightarrow> (s1\<lparr>es_pending := queue_requeue item rest\<rparr>, None)))"

section \<open>Completion\<close>

definition remove_at :: "nat \<Rightarrow> 'a list \<Rightarrow> 'a list" where
  "remove_at i xs = take i xs @ drop (Suc i) xs"

definition release_app_slot :: "edge_worker_state \<Rightarrow> edge_worker_state" where
  "release_app_slot w =
     w\<lparr>ws_active_proof_count := ws_active_proof_count w - 1,
       ws_active_proofs := filter (\<lambda>p. ap_step p \<noteq> ShardedAppProve) (ws_active_proofs w)\<rparr>"

text \<open>A finished leaf, internal or EVM step: the count goes down (never below zero), and the first
  active proof of that step is removed if there is one.\<close>

definition finish_step :: "step \<Rightarrow> edge_worker_state \<Rightarrow> edge_worker_state" where
  "finish_step completed w =
     (let w1 = w\<lparr>ws_active_proof_count := ws_active_proof_count w - 1\<rparr>
      in case find_index (\<lambda>p. ap_step p = completed) (ws_active_proofs w1) of
           Some pos \<Rightarrow> w1\<lparr>ws_active_proofs := remove_at pos (ws_active_proofs w1)\<rparr>
         | None \<Rightarrow> w1)"

fun completion_of_worker ::
  "nat \<Rightarrow> nat option \<Rightarrow> proof_result \<Rightarrow> edge_worker_state \<Rightarrow> edge_worker_state \<times> bool outcome" where
  "completion_of_worker num_workers num_segments (AppRes _ app_proof) w =
     (let w1 = w\<lparr>ws_completed_segments := List.insert (aps_segment_idx app_proof) (ws_completed_segments w)\<rparr>
      in case worker_completed_all_segments (ws_id w) (ws_completed_segments w1) num_workers num_segments of
           Ok all_complete \<Rightarrow> if all_complete then (release_app_slot w1, Ok True) else (w1, Ok False)
         | Err e \<Rightarrow> (w1, Err e)
         | Panic p \<Rightarrow> (w1, Panic p))"
| "completion_of_worker _ _ (ExecuteE2Res _ _) w = (w, Ok False)"
| "completion_of_worker _ _ (LeafRes _ _) w = (finish_step LeafProve w, Ok True)"
| "completion_of_worker _ _ (InternalRes _ _) w = (finish_step InternalProve w, Ok True)"
| "completion_of_worker _ _ (EvmRes _ _) w = (finish_step EvmProve w, Ok True)"
| "completion_of_worker _ _ (ErrorRes _) w =
     (if ws_active_proofs w \<noteq> []
      then (w\<lparr>ws_active_proof_count := ws_active_proof_count w - 1,
              ws_active_proofs := remove_at 0 (ws_active_proofs w)\<rparr>, Ok True)
      else (w, Ok True))"

definition apply_completion ::
  "string \<Rightarrow> nat \<Rightarrow> proof_result \<Rightarrow> edge_proof_state \<Rightarrow> edge_proof_state \<times> bool outcome" where
  "apply_completion proof_uuid worker_id result s =
     (case find_index (\<lambda>w. ws_id w = worker_id) (es_workers s) of
        None \<Rightarrow> (s, Err (''Worker '' @ show_nat worker_id @ '' not registered for '' @ proof_uuid))
      | Some i \<Rightarrow>
          (let (w', r) = completion_of_worker (es_num_workers s) (es_num_segments s) result (es_workers s ! i)
           in (s\<lparr>es_workers := (es_workers s)[i := w']\<rparr>, r)))"

definition complete_work ::
  "string \<Rightarrow> nat \<Rightarrow> proof_result \<Rightarrow> edge_proof_state \<Rightarrow> edge_proof_state \<times> assigned_work option outcome" where
  "complete_work proof_uuid worker_id result s =
     (case apply_completion proof_uuid worker_id result s of
        (s1, Ok freed) \<Rightarrow>
          if freed then (let (s2, w) = try_dequeue_work proof_uuid s1 in (s2, Ok w)) else (s1, Ok None)
      | (s1, Err e) \<Rightarrow> (s1, Err e)
      | (s1, Panic p) \<Rightarrow> (s1, Panic p))"

lemma queue_pop_length: "queue_pop q = Some (x, q') \<Longrightarrow> length (queue_items q) = Suc (length (queue_items q'))"
  by (auto simp: queue_pop_def queue_items_def split: list.splits option.splits dest!: pop_layers_Some)

lemma pending_assign_to [simp]: "es_pending (fst (assign_to u i e st s)) = es_pending s"
  by (simp add: assign_to_def Let_def)

lemma try_dequeue_shrinks:
  "try_dequeue_work u s = (s', Some w) \<Longrightarrow>
   length (queue_items (es_pending s')) < length (queue_items (es_pending s))"
  using pending_assign_to
  by (fastforce simp: try_dequeue_work_def Let_def case_prod_unfold
      split: option.splits prod.splits dest: queue_pop_length)

function drain_pending :: "string \<Rightarrow> edge_proof_state \<Rightarrow> edge_proof_state \<times> assigned_work list" where
  "drain_pending proof_uuid s =
     (case try_dequeue_work proof_uuid s of
        (s1, Some work) \<Rightarrow> (let (s2, assigned) = drain_pending proof_uuid s1 in (s2, work # assigned))
      | (s1, None) \<Rightarrow> (s1, []))"
  by pat_completeness auto

termination
  by (relation "measure (\<lambda>(_, s). length (queue_items (es_pending s)))") (auto dest!: try_dequeue_shrinks [OF sym])

declare drain_pending.simps [simp del]

text \<open>The same equation with a conditional, for evaluation.\<close>

lemma drain_pending_code [code]:
  "drain_pending u s =
     (if Option.is_none (snd (try_dequeue_work u s)) then (fst (try_dequeue_work u s), [])
      else (fst (drain_pending u (fst (try_dequeue_work u s))),
            the (snd (try_dequeue_work u s)) # snd (drain_pending u (fst (try_dequeue_work u s)))))"
  by (subst drain_pending.simps) (auto simp: case_prod_unfold Let_def Option.is_none_def split: option.split)

section \<open>The store\<close>

text \<open>The release of the app slots once the number of segments is known: the new workers, and whether
  any slot was released.\<close>

definition release_if_complete :: "nat \<Rightarrow> nat \<Rightarrow> edge_worker_state \<Rightarrow> (edge_worker_state \<times> bool) outcome" where
  "release_if_complete num_segments num_workers w =
     (if ws_active_proof_count w > 0 then
        bind_outcome (expected_segments (ws_id w) num_segments num_workers) (\<lambda>expected_count.
        bind_outcome (if expected_count = 0 then Ok True
                      else worker_completed_all_segments (ws_id w) (ws_completed_segments w) num_workers
                             (Some num_segments)) (\<lambda>all_complete.
        Ok (if all_complete then (release_app_slot w, True) else (w, False))))
      else Ok (w, False))"

fun release_complete ::
  "nat \<Rightarrow> nat \<Rightarrow> edge_worker_state list \<Rightarrow> edge_worker_state list \<times> bool outcome" where
  "release_complete num_segments num_workers [] = ([], Ok False)"
| "release_complete num_segments num_workers (w # ws) =
     (case release_if_complete num_segments num_workers w of
        Ok (w', freed) \<Rightarrow>
          (let (ws', r) = release_complete num_segments num_workers ws
           in (w' # ws', bind_outcome r (\<lambda>freed'. Ok (freed \<or> freed'))))
      | Err e \<Rightarrow> (w # ws, Err e)
      | Panic p \<Rightarrow> (w # ws, Panic p))"

definition set_segments :: "string \<Rightarrow> nat \<Rightarrow> edge_proof_state \<Rightarrow> edge_proof_state \<times> assigned_work list outcome" where
  "set_segments proof_uuid num_segments s =
     (let s1 = s\<lparr>es_num_segments := Some num_segments\<rparr>;
          (ws, r) = release_complete num_segments (es_num_workers s1) (es_workers s1);
          s2 = s1\<lparr>es_workers := ws\<rparr>
      in case r of
           Ok freed_a_slot \<Rightarrow>
             (if \<not> freed_a_slot then (s2, Ok [])
              else (let (s3, assigned) = drain_pending proof_uuid s2 in (s3, Ok assigned)))
         | Err e \<Rightarrow> (s2, Err e)
         | Panic p \<Rightarrow> (s2, Panic p))"

record edge_state_store =
  ess_proofs :: "(string, edge_proof_state) hmap"
  ess_max_leaf_provers :: nat

definition store_new :: "nat \<Rightarrow> edge_state_store" where
  "store_new max_leaf_provers = \<lparr>ess_proofs = [], ess_max_leaf_provers = max_leaf_provers\<rparr>"

definition seed_worker :: "nat \<times> registered_worker \<Rightarrow> edge_worker_state" where
  "seed_worker = (\<lambda>(i, worker).
     (let runs_stark = runs_stark_proving (rw_worker_role worker) in
      \<lparr>ws_id = i, ws_worker_url = rw_worker_url worker, ws_worker_role = rw_worker_role worker,
       ws_active_proof_count = (if runs_stark then 1 else 0),
       ws_active_proofs = (if runs_stark then [\<lparr>ap_step = ShardedAppProve, ap_layer_idx = None\<rparr>] else []),
       ws_completed_segments = []\<rparr>))"

definition init_proof ::
  "string \<Rightarrow> (nat \<times> registered_worker) list \<Rightarrow> nat \<Rightarrow> edge_state_store \<Rightarrow> edge_state_store" where
  "init_proof proof_uuid workers leaf_pack_threshold st =
     (let num_workers = length (filter (\<lambda>(_, w). runs_stark_proving (rw_worker_role w)) workers);
          state = edge_proof_state_new (map seed_worker workers) num_workers leaf_pack_threshold
                    (ess_max_leaf_provers st)
      in st\<lparr>ess_proofs := AList.update proof_uuid state (ess_proofs st)\<rparr>)"

text \<open>The lookup of a proof's state, an operation on it under its lock, and the default for an
  unknown proof.\<close>

definition on_proof ::
  "string \<Rightarrow> 'a \<Rightarrow> (edge_proof_state \<Rightarrow> edge_proof_state \<times> 'a) \<Rightarrow> edge_state_store \<Rightarrow> edge_state_store \<times> 'a" where
  "on_proof proof_uuid dflt f st =
     (case map_of (ess_proofs st) proof_uuid of
        None \<Rightarrow> (st, dflt)
      | Some s \<Rightarrow> (let (s', r) = f s in (st\<lparr>ess_proofs := AList.update proof_uuid s' (ess_proofs st)\<rparr>, r)))"

definition set_num_segments ::
  "string \<Rightarrow> nat \<Rightarrow> edge_state_store \<Rightarrow> edge_state_store \<times> assigned_work list outcome" where
  "set_num_segments proof_uuid num_segments = on_proof proof_uuid (Ok []) (set_segments proof_uuid num_segments)"

definition remove_proof :: "string \<Rightarrow> edge_state_store \<Rightarrow> edge_state_store" where
  "remove_proof proof_uuid st = st\<lparr>ess_proofs := AList.delete proof_uuid (ess_proofs st)\<rparr>"

definition enqueue_or_assign ::
  "string \<Rightarrow> general_prove_request message_envelope \<Rightarrow> step \<Rightarrow> edge_state_store \<Rightarrow>
   edge_state_store \<times> assigned_work option outcome" where
  "enqueue_or_assign proof_uuid envelope st =
     on_proof proof_uuid (Ok None) (\<lambda>s. map_prod id Ok (assign_or_queue proof_uuid envelope st s))"

definition worker_completed ::
  "string \<Rightarrow> nat \<Rightarrow> proof_result \<Rightarrow> edge_state_store \<Rightarrow> edge_state_store \<times> assigned_work option outcome" where
  "worker_completed proof_uuid worker_id result =
     on_proof proof_uuid (Ok None) (complete_work proof_uuid worker_id result)"

definition worker_drained ::
  "string \<Rightarrow> nat \<Rightarrow> proof_result \<Rightarrow> edge_state_store \<Rightarrow> edge_state_store \<times> unit outcome" where
  "worker_drained proof_uuid worker_id result =
     on_proof proof_uuid (Ok ())
       (\<lambda>s. map_prod id (\<lambda>r. bind_outcome r (\<lambda>_. Ok ())) (apply_completion proof_uuid worker_id result s))"

definition has_proof :: "string \<Rightarrow> edge_state_store \<Rightarrow> bool" where
  "has_proof proof_uuid st \<longleftrightarrow> map_of (ess_proofs st) proof_uuid \<noteq> None"

definition has_any_proofs :: "edge_state_store \<Rightarrow> bool" where
  "has_any_proofs st \<longleftrightarrow> ess_proofs st \<noteq> []"

definition clear_slots :: "nat \<Rightarrow> edge_proof_state \<Rightarrow> edge_proof_state" where
  "clear_slots worker_id s =
     (case find_index (\<lambda>w. ws_id w = worker_id) (es_workers s) of
        None \<Rightarrow> s
      | Some i \<Rightarrow> s\<lparr>es_workers := (es_workers s)[i :=
          (es_workers s ! i)\<lparr>ws_active_proof_count := 0, ws_active_proofs := []\<rparr>]\<rparr>)"

definition release_worker :: "string \<Rightarrow> nat \<Rightarrow> edge_state_store \<Rightarrow> edge_state_store" where
  "release_worker proof_uuid worker_id st =
     fst (on_proof proof_uuid () (\<lambda>s. (clear_slots worker_id s, ())) st)"

definition all_idle :: "edge_proof_state \<Rightarrow> bool" where
  "all_idle s \<longleftrightarrow> list_all (\<lambda>w. ws_active_proof_count w = 0) (es_workers s)"

definition is_fully_drained :: "string \<Rightarrow> edge_state_store \<Rightarrow> bool" where
  "is_fully_drained proof_uuid st =
     (case map_of (ess_proofs st) proof_uuid of None \<Rightarrow> True | Some s \<Rightarrow> all_idle s)"

definition worker_debug :: "nat \<Rightarrow> nat option \<Rightarrow> edge_worker_state \<Rightarrow> worker_debug_state outcome" where
  "worker_debug num_workers num_segments w =
     bind_outcome
       (case num_segments of
          Some total_count \<Rightarrow>
            bind_outcome (expected_segments (ws_id w) total_count num_workers) (\<lambda>expected.
            bind_outcome (matched_segments (ws_id w) (ws_completed_segments w) num_workers) (\<lambda>matched.
            Ok (Some matched, Some expected, Some (expected - matched))))
        | None \<Rightarrow> Ok (None, None, None))
       (\<lambda>(matched, expected, remaining).
          Ok \<lparr>wd_worker_id = ws_id w, wd_worker_url = ws_worker_url w,
              wd_active_proof_count = ws_active_proof_count w,
              wd_active_steps = map active_step_label (ws_active_proofs w),
              wd_completed_segments_received = length (ws_completed_segments w),
              wd_completed_segments_mod_match = matched,
              wd_expected_segments_mod_match = expected,
              wd_remaining_segments_mod_match = remaining\<rparr>)"

fun map_outcome :: "('a \<Rightarrow> 'b outcome) \<Rightarrow> 'a list \<Rightarrow> 'b list outcome" where
  "map_outcome f [] = Ok []"
| "map_outcome f (x # xs) = bind_outcome (f x) (\<lambda>y. bind_outcome (map_outcome f xs) (\<lambda>ys. Ok (y # ys)))"

definition proof_debug_state_of :: "string \<Rightarrow> edge_state_store \<Rightarrow> proof_debug_state option outcome" where
  "proof_debug_state_of proof_uuid st =
     (case map_of (ess_proofs st) proof_uuid of
        None \<Rightarrow> Ok None
      | Some s \<Rightarrow>
          bind_outcome (map_outcome (worker_debug (es_num_workers s) (es_num_segments s)) (es_workers s))
            (\<lambda>workers. Ok (Some
               \<lparr>pd_proof_uuid = proof_uuid, pd_num_workers = es_num_workers s,
                pd_num_segments = es_num_segments s,
                pd_pending_work_empty = queue_is_empty (es_pending s), pd_workers = workers\<rparr>)))"

end
