(* ===== verification/Scheduler_Run.thy ===== *)
theory Scheduler_Run
  imports Edge_Scheduler
begin

text \<open>
  What the scheduler promises over a whole proof. Events are the calls the manager makes; a run is any
  sequence of them. Work is conserved in every run. In a fault-free run (each worker answers what it
  runs, each segment is reported once by its owner, the EVM step is enqueued after the tree is done)
  slot counts, roles, capacities, the app slots and progress are as promised.
\<close>

datatype sched_event =
  Enqueue "general_prove_request message_envelope" step
| Complete nat proof_result
| Drained nat proof_result
| Segments nat
| Release nat

fun ok_or :: "'a \<Rightarrow> 'a outcome \<Rightarrow> 'a" where
  "ok_or d (Ok x) = x"
| "ok_or d (Err e) = d"
| "ok_or d (Panic p) = d"

fun sched_step :: "string \<Rightarrow> sched_event \<Rightarrow> edge_proof_state \<Rightarrow> edge_proof_state \<times> assigned_work list" where
  "sched_step u (Enqueue env st) s = map_prod id (case_option [] (\<lambda>w. [w])) (assign_or_queue u env st s)"
| "sched_step u (Complete wid res) s =
     map_prod id (\<lambda>r. case_option [] (\<lambda>w. [w]) (ok_or None r)) (complete_work u wid res s)"
| "sched_step u (Drained wid res) s = (fst (apply_completion u wid res s), [])"
| "sched_step u (Segments n) s = map_prod id (ok_or []) (set_segments u n s)"
| "sched_step u (Release wid) s = (clear_slots wid s, [])"

section \<open>Conservation of work\<close>

text \<open>A pool that neither loses nor duplicates work.\<close>

locale conserving_pool =
  fixes step :: "'e \<Rightarrow> 's \<Rightarrow> 's \<times> 'w list"
    and ok :: "'s \<Rightarrow> bool"
    and pending :: "'s \<Rightarrow> 'i list"
    and incoming :: "'e \<Rightarrow> 'i list"
    and item_of :: "'w \<Rightarrow> 'i"
  assumes ok_step: "ok s \<Longrightarrow> ok (fst (step e s))"
    and conserve: "ok s \<Longrightarrow> mset (pending (fst (step e s))) + mset (map item_of (snd (step e s))) =
          mset (pending s) + mset (incoming e)"
begin

fun run :: "'e list \<Rightarrow> 's \<Rightarrow> 's \<times> 'w list" where
  "run [] s = (s, [])"
| "run (e # es) s = (let (s1, ws) = step e s; (s2, ws') = run es s1 in (s2, ws @ ws'))"

lemma run_conserves:
  "ok s \<Longrightarrow> ok (fst (run es s)) \<and>
     mset (pending (fst (run es s))) + mset (map item_of (snd (run es s))) =
     mset (pending s) + mset (concat (map incoming es))"
proof (induction es arbitrary: s)
  case (Cons e es)
  let ?s1 = "fst (step e s)"
  have ok1: "ok ?s1" by (rule ok_step [OF Cons.prems])
  have m: "a + b = d + c \<Longrightarrow> d + e = f + g \<Longrightarrow> a + (e + b) = f + (g + c)" for a b c d e f g :: "'i multiset"
    by (metis (no_types, lifting) add.assoc add.commute)
  have r: "fst (run (e # es) s) = fst (run es ?s1)" "snd (run (e # es) s) = snd (step e s) @ snd (run es ?s1)"
    by (simp_all add: case_prod_unfold Let_def)
  show ?case
    using Cons.IH [OF ok1] m [OF _ conserve [OF Cons.prems, of e], of _ "mset (map item_of (snd (run es ?s1)))"]
    unfolding r by simp
qed simp

end

definition aw_item :: "assigned_work \<Rightarrow> edge_work_item" where
  "aw_item w = \<lparr>wi_envelope = aw_envelope w, wi_step = aw_step w\<rparr>"

fun event_items :: "sched_event \<Rightarrow> edge_work_item list" where
  "event_items (Enqueue env st) = [\<lparr>wi_envelope = env, wi_step = st\<rparr>]"
| "event_items _ = []"

abbreviation pending_items :: "edge_proof_state \<Rightarrow> edge_work_item list" where
  "pending_items s \<equiv> queue_items (es_pending s)"

definition pending_ok :: "edge_proof_state \<Rightarrow> bool" where
  "pending_ok s \<longleftrightarrow> queue_ok (es_pending s)"

lemma aw_item_assign_to [simp]: "aw_item (snd (assign_to u i env st s)) = \<lparr>wi_envelope = env, wi_step = st\<rparr>"
  by (simp add: assign_to_def Let_def aw_item_def)

lemma assign_or_queue_cases:
  obtains (assigned) i where "choose_worker s st = Some i"
      "assign_or_queue u env st s = (fst (assign_to u i env st s), Some (snd (assign_to u i env st s)))"
  | (queued) "choose_worker s st = None"
      "assign_or_queue u env st s =
         (s\<lparr>es_pending := queue_push \<lparr>wi_envelope = env, wi_step = st\<rparr> (es_pending s)\<rparr>, None)"
  by (cases "choose_worker s st") (auto simp: assign_or_queue_def case_prod_unfold Let_def)

lemma try_dequeue_cases:
  obtains (empty) "queue_pop (es_pending s) = None" "try_dequeue_work u s = (s, None)"
  | (assigned) item rest i where "queue_pop (es_pending s) = Some (item, rest)"
      "choose_worker (s\<lparr>es_pending := rest\<rparr>) (wi_step item) = Some i"
      "try_dequeue_work u s =
         (fst (assign_to u i (wi_envelope item) (wi_step item) (s\<lparr>es_pending := rest\<rparr>)),
          Some (snd (assign_to u i (wi_envelope item) (wi_step item) (s\<lparr>es_pending := rest\<rparr>))))"
  | (requeued) item rest where "queue_pop (es_pending s) = Some (item, rest)"
      "choose_worker (s\<lparr>es_pending := rest\<rparr>) (wi_step item) = None"
      "try_dequeue_work u s = (s\<lparr>es_pending := queue_push item rest\<rparr>, None)"
proof (cases "queue_pop (es_pending s)")
  case None
  then show ?thesis using that(1) by (simp add: try_dequeue_work_def)
next
  case (Some p)
  obtain item rest where p: "p = (item, rest)" by fastforce
  show ?thesis
    using Some that(2,3) [of item rest]
    by (cases "choose_worker (s\<lparr>es_pending := rest\<rparr>) (wi_step item)")
      (simp_all add: p try_dequeue_work_def Let_def case_prod_unfold queue_requeue_def)
qed

lemma choose_worker_pending [simp]: "choose_worker (s\<lparr>es_pending := q\<rparr>) st = choose_worker s st"
  by (simp add: choose_worker_def)

lemma try_dequeue_conserves:
  assumes "pending_ok s" "try_dequeue_work u s = (s', r)"
  shows "pending_ok s' \<and> mset (pending_items s') + mset (map aw_item (case_option [] (\<lambda>w. [w]) r)) =
    mset (pending_items s)"
  using assms
  by (cases rule: try_dequeue_cases [of s u])
    (auto simp: pending_ok_def wq.ok_pop wq.items_pop wq.ok_push wq.mset_push)

lemma drain_conserves:
  "pending_ok s \<Longrightarrow> pending_ok (fst (drain_pending u s)) \<and>
   mset (pending_items (fst (drain_pending u s))) + mset (map aw_item (snd (drain_pending u s))) =
   mset (pending_items s)"
proof (induction u s rule: drain_pending.induct)
  case (1 u s)
  obtain s1 r where d: "try_dequeue_work u s = (s1, r)" by fastforce
  show ?case
  proof (cases r)
    case None
    then show ?thesis using try_dequeue_conserves [OF "1.prems" d] d by (simp add: drain_pending.simps [of u s])
  next
    case (Some w)
    have "pending_ok s1" and c: "mset (pending_items s1) + {#aw_item w#} = mset (pending_items s)"
      using try_dequeue_conserves [OF "1.prems" d] Some by simp_all
    then show ?thesis
      using "1.IH" [of s1 r w] d Some
      by (simp add: drain_pending.simps [of u s] case_prod_unfold Let_def)
  qed
qed

lemma apply_completion_pending [simp]: "es_pending (fst (apply_completion u wid res s)) = es_pending s"
  by (simp add: apply_completion_def case_prod_unfold Let_def split: option.split)

lemma clear_slots_pending [simp]: "es_pending (clear_slots wid s) = es_pending s"
  by (simp add: clear_slots_def split: option.split)

interpretation pool: conserving_pool "sched_step u" pending_ok pending_items event_items aw_item for u
proof
  fix e s
  assume ok: "pending_ok s"
  have "pending_ok (fst (sched_step u e s)) \<and>
      mset (pending_items (fst (sched_step u e s))) + mset (map aw_item (snd (sched_step u e s))) =
      mset (pending_items s) + mset (event_items e)"
  proof (cases e)
    case (Enqueue env st)
    then show ?thesis
      using ok by (cases rule: assign_or_queue_cases [of s st u env])
        (simp_all add: pending_ok_def wq.ok_push wq.mset_push)
  next
    case (Complete wid res)
    obtain s1 r where a: "apply_completion u wid res s = (s1, r)" by fastforce
    have p: "es_pending s1 = es_pending s" using apply_completion_pending [of u wid res s] by (simp add: a)
    obtain s2 w where d: "try_dequeue_work u s1 = (s2, w)" by fastforce
    have "pending_ok s1" using ok p by (simp add: pending_ok_def)
    then show ?thesis
      using try_dequeue_conserves [OF _ d] ok Complete p
      by (cases r) (auto simp: complete_work_def a d pending_ok_def Let_def)
  next
    case (Segments n)
    obtain ws r where rc: "release_complete n (es_num_workers s) (es_workers s) = (ws, r)" by fastforce
    have "pending_ok (s\<lparr>es_num_segments := Some n, es_workers := ws\<rparr>)" using ok by (simp add: pending_ok_def)
    then show ?thesis
      using drain_conserves [of "s\<lparr>es_num_segments := Some n, es_workers := ws\<rparr>" u] ok Segments
      by (cases r) (auto simp: set_segments_def Let_def rc pending_ok_def case_prod_unfold)
  qed (use ok in \<open>simp_all add: pending_ok_def\<close>)
  then show "pending_ok (fst (sched_step u e s))"
    "mset (pending_items (fst (sched_step u e s))) + mset (map aw_item (snd (sched_step u e s))) =
     mset (pending_items s) + mset (event_items e)" by blast+
qed


section \<open>Segment ownership\<close>

definition owned :: "nat \<Rightarrow> nat \<Rightarrow> nat \<Rightarrow> nat set" where
  "owned total_count num_workers worker_id = {s. s < total_count \<and> s mod num_workers = worker_id}"

lemma finite_owned [simp]: "finite (owned t n i)"
  by (rule finite_subset [of _ "{..<t}"]) (auto simp: owned_def)

lemma owned_image:
  assumes "i < n"
  shows "owned t n i = (\<lambda>k. i + k * n) ` {..<div_ceil (t - i) n}"
proof -
  have n: "0 < n" using assms by simp
  have "k < div_ceil (t - i) n \<longleftrightarrow> i + k * n < t" for k
    using less_div_ceil_iff [OF n, of k "t - i"] by auto
  moreover have "s mod n = i \<longleftrightarrow> (\<exists>k. s = i + k * n)" for s
    using assms by (auto intro: exI [of _ "s div n"])
  ultimately show ?thesis by (auto simp: owned_def)
qed

lemma card_owned: "i < n \<Longrightarrow> card (owned t n i) = div_ceil (t - i) n"
  unfolding owned_image by (subst card_image) (auto intro!: inj_onI)

lemma expected_segments_card: "i < n \<Longrightarrow> expected_segments i t n = Ok (card (owned t n i))"
  by (simp add: expected_segments_def card_owned)

lemma matched_segments_card:
  "0 < n \<Longrightarrow> distinct segs \<Longrightarrow> set segs \<subseteq> {..<t} \<Longrightarrow>
   matched_segments i segs n = Ok (card (set segs \<inter> owned t n i))"
proof -
  assume n: "0 < n" and d: "distinct segs" and b: "set segs \<subseteq> {..<t}"
  have "length (filter (\<lambda>s. s mod n = i) segs) = card (set (filter (\<lambda>s. s mod n = i) segs))"
    using d by (metis distinct_card distinct_filter)
  also have "set (filter (\<lambda>s. s mod n = i) segs) = set segs \<inter> owned t n i"
    using b by (auto simp: owned_def)
  finally show ?thesis using n by (simp add: matched_segments_def)
qed

lemma completed_all_iff:
  assumes "i < n" "distinct segs" "set segs \<subseteq> {..<t}"
  shows "worker_completed_all_segments i segs n (Some t) = Ok (owned t n i \<subseteq> set segs)"
proof -
  let ?O = "owned t n i"
  have "card ?O \<le> card (set segs \<inter> ?O) \<longleftrightarrow> ?O \<subseteq> set segs"
  proof
    assume "card ?O \<le> card (set segs \<inter> ?O)"
    then have "set segs \<inter> ?O = ?O" by (intro card_seteq) auto
    then show "?O \<subseteq> set segs" by blast
  qed (simp add: Int_absorb1)
  then show ?thesis
    using assms by (simp add: worker_completed_all_segments_def expected_segments_card
        matched_segments_card [where t = t])
qed


section \<open>Fault-free runs\<close>

definition evm_present :: "edge_proof_state \<Rightarrow> bool" where
  "evm_present s \<longleftrightarrow> list_ex (runs_step EvmProve) (es_workers s) \<or>
     list_ex (\<lambda>x. wi_step x = EvmProve) (pending_items s)"

fun reports :: "edge_proof_state \<Rightarrow> proof_result \<Rightarrow> edge_worker_state \<Rightarrow> bool" where
  "reports s (AppRes _ a) w \<longleftrightarrow> aps_segment_idx a mod es_num_workers s = ws_id w \<and>
     aps_segment_idx a \<notin> set (ws_completed_segments w) \<and>
     (case es_num_segments s of None \<Rightarrow> True | Some t \<Rightarrow> aps_segment_idx a < t)"
| "reports s (ExecuteE2Res _ _) w \<longleftrightarrow> True"
| "reports s (LeafRes _ _) w \<longleftrightarrow> runs_step LeafProve w"
| "reports s (InternalRes _ _) w \<longleftrightarrow> runs_step InternalProve w"
| "reports s (EvmRes _ _) w \<longleftrightarrow> runs_step EvmProve w"
| "reports s (ErrorRes _) w \<longleftrightarrow> False"

fun enabled :: "sched_event \<Rightarrow> edge_proof_state \<Rightarrow> bool" where
  "enabled (Enqueue env st) s \<longleftrightarrow> st = step_of_request (me_message env) \<and>
     (if st = EvmProve then es_num_segments s \<noteq> None \<and> pending_items s = [] else \<not> evm_present s)"
| "enabled (Complete wid res) s \<longleftrightarrow> list_ex (\<lambda>w. ws_id w = wid \<and> reports s res w) (es_workers s)"
| "enabled (Segments n) s \<longleftrightarrow> es_num_segments s = None \<and>
     list_all (\<lambda>w. list_all (\<lambda>seg. seg < n) (ws_completed_segments w)) (es_workers s)"
| "enabled _ s \<longleftrightarrow> False"

text \<open>The stack a proof starts on: ids \<open>0..\<close>, the STARK-proving ones first, and a worker for each kind
  of step.\<close>

definition stack_ready :: "(nat \<times> registered_worker) list \<Rightarrow> bool" where
  "stack_ready ws \<longleftrightarrow> map fst ws = [0..<length ws] \<and>
     map fst (app_eligible_workers ws) = [0..<length (app_eligible_workers ws)] \<and>
     app_eligible_workers ws \<noteq> [] \<and> list_ex (\<lambda>(_, w). runs_evm_prove (rw_worker_role w)) ws"

definition fresh_state :: "(nat \<times> registered_worker) list \<Rightarrow> nat \<Rightarrow> nat \<Rightarrow> edge_proof_state" where
  "fresh_state ws leaf_pack_threshold max_leaf_provers =
     edge_proof_state_new (map seed_worker ws) (length (app_eligible_workers ws))
       leaf_pack_threshold max_leaf_provers"

lemma init_proof_fresh:
  "map_of (ess_proofs (init_proof u ws thr st)) u = Some (fresh_state ws thr (ess_max_leaf_provers st))"
  by (simp add: init_proof_def fresh_state_def app_eligible_workers_def Let_def)

fun fault_free :: "string \<Rightarrow> sched_event list \<Rightarrow> edge_proof_state \<Rightarrow> bool" where
  "fault_free u [] s \<longleftrightarrow> True"
| "fault_free u (e # es) s \<longleftrightarrow> enabled e s \<and> fault_free u es (fst (sched_step u e s))"

definition role_fits :: "worker_role \<Rightarrow> step \<Rightarrow> bool" where
  "role_fits r st \<longleftrightarrow>
     (if st = EvmProve then runs_evm_prove r
      else st \<in> {ShardedAppProve, LeafProve, InternalProve} \<and> runs_stark_proving r)"

definition worker_inv :: "nat \<Rightarrow> nat option \<Rightarrow> nat \<Rightarrow> edge_worker_state \<Rightarrow> bool" where
  "worker_inv n num_segments max_leaf w \<longleftrightarrow>
     ws_active_proof_count w = length (ws_active_proofs w) \<and>
     length (ws_active_proofs w) \<le> max 1 max_leaf \<and>
     (\<forall>p \<in> set (ws_active_proofs w). role_fits (ws_worker_role w) (ap_step p)) \<and>
     (runs_step EvmProve w \<or> runs_step ShardedAppProve w \<longrightarrow> length (ws_active_proofs w) = 1) \<and>
     (runs_stark_proving (ws_worker_role w) \<longleftrightarrow> ws_id w < n) \<and>
     distinct (ws_completed_segments w) \<and>
     (\<forall>seg \<in> set (ws_completed_segments w). seg mod n = ws_id w \<and>
        (case num_segments of None \<Rightarrow> True | Some t \<Rightarrow> seg < t)) \<and>
     (runs_step ShardedAppProve w \<longleftrightarrow> runs_stark_proving (ws_worker_role w) \<and>
        (case num_segments of None \<Rightarrow> True
         | Some t \<Rightarrow> \<not> owned t n (ws_id w) \<subseteq> set (ws_completed_segments w)))"

definition sched_core :: "edge_proof_state \<Rightarrow> bool" where
  "sched_core s \<longleftrightarrow> pending_ok s \<and> 0 < es_num_workers s \<and>
     (\<forall>x \<in> set (pending_items s). wi_step x = step_of_request (me_message (wi_envelope x))) \<and>
     map ws_id (es_workers s) = [0..<length (es_workers s)] \<and>
     (\<forall>w \<in> set (es_workers s). worker_inv (es_num_workers s) (es_num_segments s) (es_max_leaf_provers s) w) \<and>
     (evm_present s \<longrightarrow> es_num_segments s \<noteq> None \<and> (\<forall>x \<in> set (pending_items s). wi_step x = EvmProve)) \<and>
     (\<exists>w \<in> set (es_workers s). runs_stark_proving (ws_worker_role w)) \<and>
     (\<exists>w \<in> set (es_workers s). runs_evm_prove (ws_worker_role w))"

definition some_busy :: "edge_proof_state \<Rightarrow> bool" where
  "some_busy s \<longleftrightarrow> (\<exists>w \<in> set (es_workers s). ws_active_proofs w \<noteq> [])"

definition sched_inv :: "edge_proof_state \<Rightarrow> bool" where
  "sched_inv s \<longleftrightarrow> sched_core s \<and> (pending_items s \<noteq> [] \<longrightarrow> some_busy s)"

definition may_start :: "step \<Rightarrow> edge_proof_state \<Rightarrow> bool" where
  "may_start st s \<longleftrightarrow>
     (if st = EvmProve then es_num_segments s \<noteq> None \<and> (\<forall>x \<in> set (pending_items s). wi_step x = EvmProve)
      else \<not> evm_present s)"

lemma step_of_request_cases: "step_of_request r = LeafProve \<or> step_of_request r = InternalProve \<or> step_of_request r = EvmProve"
  by (cases r) simp_all

lemma runs_step_Nil: "ws_active_proofs w = [] \<Longrightarrow> \<not> runs_step st w"
  by (simp add: runs_step_def)

lemma set_list_update: "i < length xs \<Longrightarrow> x \<in> set (xs[i := y]) \<Longrightarrow> x = y \<or> x \<in> set xs"
  by (metis insertE set_update_subset_insert subsetD)

lemma ex_list_update:
  "i < length xs \<Longrightarrow> \<exists>x \<in> set xs. P x \<Longrightarrow> (P (xs ! i) \<Longrightarrow> P y) \<Longrightarrow> \<exists>x \<in> set (xs[i := y]). P x"
  by (metis in_set_conv_nth length_list_update nth_list_update)

lemma core_worker: "sched_core s \<Longrightarrow> w \<in> set (es_workers s) \<Longrightarrow>
    worker_inv (es_num_workers s) (es_num_segments s) (es_max_leaf_provers s) w"
  by (simp add: sched_core_def)

lemma core_update:
  assumes core: "sched_core s" and i: "i < length (es_workers s)"
    and inv: "worker_inv (es_num_workers s) (es_num_segments s) (es_max_leaf_provers s) w'"
    and same: "ws_id w' = ws_id (es_workers s ! i)" "ws_worker_role w' = ws_worker_role (es_workers s ! i)"
    and evm: "runs_step EvmProve w' \<Longrightarrow> runs_step EvmProve (es_workers s ! i) \<or> may_start EvmProve s"
  shows "sched_core (s\<lparr>es_workers := (es_workers s)[i := w']\<rparr>)"
proof -
  let ?s = "s\<lparr>es_workers := (es_workers s)[i := w']\<rparr>"
  have pres: "evm_present ?s \<Longrightarrow> evm_present s \<or> may_start EvmProve s"
    using evm i unfolding evm_present_def list_ex_iff
    by (auto dest!: set_list_update [OF i])
  have ids: "map ws_id ((es_workers s)[i := w']) = map ws_id (es_workers s)"
    using i same(1) by (metis list_update_id map_update)
  have stark: "\<exists>w \<in> set ((es_workers s)[i := w']). runs_stark_proving (ws_worker_role w)"
    and cap: "\<exists>w \<in> set ((es_workers s)[i := w']). runs_evm_prove (ws_worker_role w)"
    using core i same(2) by (auto simp: sched_core_def intro!: ex_list_update)
  have all: "\<forall>w \<in> set ((es_workers s)[i := w']).
      worker_inv (es_num_workers s) (es_num_segments s) (es_max_leaf_provers s) w"
    using core inv by (auto simp: sched_core_def dest: set_list_update [OF i])
  show ?thesis
    unfolding sched_core_def
    using core stark cap all ids pres
    by (simp add: sched_core_def pending_ok_def) (auto simp: may_start_def)
qed

lemma choose_worker_Some:
  assumes core: "sched_core s" and ch: "choose_worker s st = Some i"
  defines "w \<equiv> es_workers s ! i"
  shows "i < length (es_workers s)" "\<not> runs_step ShardedAppProve w"
    "st = EvmProve \<Longrightarrow> runs_evm_prove (ws_worker_role w) \<and> ws_active_proofs w = []"
    "st \<noteq> EvmProve \<Longrightarrow> runs_stark_proving (ws_worker_role w) \<and>
       (ws_active_proofs w = [] \<or> length (ws_active_proofs w) < es_max_leaf_provers s)"
    "st = InternalProve \<Longrightarrow> ws_active_proofs w = []"
    "st \<in> {LeafProve, InternalProve, EvmProve}"
proof -
  have stark: "runs_stark_proving r \<longleftrightarrow> r \<noteq> EvmDedicated" for r by (cases r) simp_all
  have P: "i < length (es_workers s) \<and>
      (if st = LeafProve then runs_stark_proving (ws_worker_role w) \<and> \<not> runs_step ShardedAppProve w \<and>
         (ws_active_proof_count w = 0 \<or> ws_active_proof_count w < es_max_leaf_provers s)
       else can_accept_work w st (es_max_leaf_provers s))"
  proof (cases "st = LeafProve")
    case True
    show ?thesis
    proof (cases "find_index (\<lambda>w. runs_stark_proving (ws_worker_role w) \<and> ws_active_proof_count w = 0 \<and>
             \<not> runs_step ShardedAppProve w) (es_workers s)")
      case (Some j)
      then show ?thesis using True ch find_index_SomeD [OF Some]
        by (simp add: choose_worker_def find_best_worker_for_leaf_def w_def)
    next
      case None
      let ?Q = "\<lambda>(_ :: nat, w). runs_stark_proving (ws_worker_role w) \<and>
          ws_active_proof_count w < es_max_leaf_provers s \<and> \<not> runs_step ShardedAppProve w"
      obtain p where p: "min_by_key (\<lambda>(_, w). leaf_pack_key w) (filter ?Q (enumerate 0 (es_workers s))) = Some p"
        "fst p = i"
        using True ch None by (auto simp: choose_worker_def find_best_worker_for_leaf_def split: if_splits)
      have "p \<in> set (filter ?Q (enumerate 0 (es_workers s)))" using min_by_key_SomeD [OF p(1)] by blast
      then show ?thesis using True p(2) by (auto simp: in_set_enumerate_eq w_def)
    qed
  next
    case False
    then have "find_index (\<lambda>w. can_accept_work w st (es_max_leaf_provers s)) (es_workers s) = Some i"
      using ch by (simp add: choose_worker_def)
    from find_index_SomeD [OF this] show ?thesis using False by (simp add: w_def)
  qed
  then show i: "i < length (es_workers s)" by blast
  then have "w \<in> set (es_workers s)" by (simp add: w_def)
  from core_worker [OF core this] have c: "ws_active_proof_count w = length (ws_active_proofs w)"
    by (simp add: worker_inv_def)
  show "\<not> runs_step ShardedAppProve w"
    "st = EvmProve \<Longrightarrow> runs_evm_prove (ws_worker_role w) \<and> ws_active_proofs w = []"
    "st \<noteq> EvmProve \<Longrightarrow> runs_stark_proving (ws_worker_role w) \<and>
       (ws_active_proofs w = [] \<or> length (ws_active_proofs w) < es_max_leaf_provers s)"
    "st = InternalProve \<Longrightarrow> ws_active_proofs w = []"
    "st \<in> {LeafProve, InternalProve, EvmProve}"
    using P c by (auto simp: can_accept_work_def stark runs_step_def split: if_splits step.splits)
qed

lemma choose_worker_None_busy:
  assumes core: "sched_core s" and ch: "choose_worker s st = None"
    and st: "st \<in> {LeafProve, InternalProve, EvmProve}"
  shows "some_busy s"
proof (rule ccontr)
  assume "\<not> some_busy s"
  then have idle: "ws_active_proofs w = []" "ws_active_proof_count w = 0" if "w \<in> set (es_workers s)" for w
    using core_worker [OF core that] that by (auto simp: some_busy_def worker_inv_def)
  obtain w1 w2 where w: "w1 \<in> set (es_workers s)" "runs_stark_proving (ws_worker_role w1)"
    "w2 \<in> set (es_workers s)" "runs_evm_prove (ws_worker_role w2)"
    using core by (auto simp: sched_core_def)
  have "ws_worker_role w1 \<noteq> EvmDedicated" using w(2) by auto
  then have "can_accept_work w2 EvmProve m" "can_accept_work w1 InternalProve m" for m
    using idle [OF w(1)] idle [OF w(3)] w(4) by (simp_all add: can_accept_work_def runs_step_Nil)
  moreover have "runs_stark_proving (ws_worker_role w1) \<and> ws_active_proof_count w1 = 0 \<and>
      \<not> runs_step ShardedAppProve w1"
    using idle [OF w(1)] w(2) by (simp add: runs_step_Nil)
  moreover have "st = LeafProve \<Longrightarrow> find_index (\<lambda>w. runs_stark_proving (ws_worker_role w) \<and>
      ws_active_proof_count w = 0 \<and> \<not> runs_step ShardedAppProve w) (es_workers s) = None"
    "st \<noteq> LeafProve \<Longrightarrow> find_index (\<lambda>w. can_accept_work w st (es_max_leaf_provers s)) (es_workers s) = None"
    using ch by (auto simp: choose_worker_def find_best_worker_for_leaf_def split: option.splits)
  ultimately show False
    using w(1,3) st unfolding find_index_None_iff by blast
qed

text \<open>Starting a step on a chosen worker.\<close>

lemma worker_inv_start:
  assumes "worker_inv n ns mx w" "\<not> runs_step ShardedAppProve w" "\<not> runs_step EvmProve w"
    "st \<in> {LeafProve, InternalProve, EvmProve}" "ap_step p = st"
    "st = EvmProve \<Longrightarrow> runs_evm_prove (ws_worker_role w) \<and> ws_active_proofs w = []"
    "st \<noteq> EvmProve \<Longrightarrow> runs_stark_proving (ws_worker_role w) \<and>
       (ws_active_proofs w = [] \<or> length (ws_active_proofs w) < mx)"
  shows "worker_inv n ns mx (w\<lparr>ws_active_proof_count := ws_active_proof_count w + 1,
            ws_active_proofs := ws_active_proofs w @ [p]\<rparr>)"
proof -
  define w' where "w' = w\<lparr>ws_active_proof_count := ws_active_proof_count w + 1,
      ws_active_proofs := ws_active_proofs w @ [p]\<rparr>"
  have f: "ws_active_proof_count w' = Suc (ws_active_proof_count w)" "ws_active_proofs w' = ws_active_proofs w @ [p]"
    "ws_worker_role w' = ws_worker_role w" "ws_id w' = ws_id w" "ws_completed_segments w' = ws_completed_segments w"
    by (simp_all add: w'_def)
  have r: "runs_step t w' \<longleftrightarrow> runs_step t w \<or> t = st" for t using assms(5) by (auto simp: runs_step_def f)
  have rf: "role_fits (ws_worker_role w) (ap_step p)" using assms(4-7) by (auto simp: role_fits_def)
  have l: "length (ws_active_proofs w') \<le> max 1 mx" "st = EvmProve \<Longrightarrow> length (ws_active_proofs w') = 1"
    using assms(6,7) by (cases "st = EvmProve"; auto simp: f)+
  show ?thesis unfolding w'_def [symmetric] worker_inv_def r
    using assms l rf by (cases ns; auto simp: f worker_inv_def)
qed

lemma sched_core_assigned [simp]: "sched_core (s\<lparr>es_assigned_leaf_proofs := k\<rparr>) = sched_core s"
  by (simp add: sched_core_def pending_ok_def evm_present_def)

lemma assign_to_core:
  assumes core: "sched_core s" and ch: "choose_worker s st = Some i" and may: "may_start st s"
  shows "sched_core (fst (assign_to u i env st s)) \<and> some_busy (fst (assign_to u i env st s))"
proof -
  note c = choose_worker_Some [OF core ch]
  let ?w = "es_workers s ! i"
  let ?w' = "?w\<lparr>ws_active_proof_count := ws_active_proof_count ?w + 1,
      ws_active_proofs := ws_active_proofs ?w @ [active_proof_from_request (me_message env) st]\<rparr>"
  have w: "?w \<in> set (es_workers s)" using c(1) by simp
  have "\<not> runs_step EvmProve ?w"
  proof (cases "st = EvmProve")
    case False
    then show ?thesis using may w by (auto simp: may_start_def evm_present_def list_ex_iff)
  qed (use c(3) in \<open>simp add: runs_step_Nil\<close>)
  then have inv: "worker_inv (es_num_workers s) (es_num_segments s) (es_max_leaf_provers s) ?w'"
    by (intro worker_inv_start [OF core_worker [OF core w] c(2) _ c(6)])
      (use c(3,4) in \<open>auto simp: active_proof_from_request_def Let_def\<close>)
  have "sched_core (s\<lparr>es_workers := (es_workers s)[i := ?w']\<rparr>)"
  proof (rule core_update [OF core c(1) inv])
    assume "runs_step EvmProve ?w'"
    then have "runs_step EvmProve ?w \<or> st = EvmProve"
      by (auto simp: runs_step_def active_proof_from_request_def Let_def)
    then show "runs_step EvmProve ?w \<or> may_start EvmProve s" using may by auto
  qed simp_all
  moreover have "some_busy (s\<lparr>es_workers := (es_workers s)[i := ?w']\<rparr>)"
    using c(1) by (auto simp: some_busy_def set_update_memI intro!: bexI [of _ ?w'])
  moreover have "fst (assign_to u i env st s) = s\<lparr>es_workers := (es_workers s)[i := ?w']\<rparr> \<or>
      fst (assign_to u i env st s) = s\<lparr>es_workers := (es_workers s)[i := ?w']\<rparr>
        \<lparr>es_assigned_leaf_proofs := es_assigned_leaf_proofs s + 1\<rparr>"
    by (simp add: assign_to_def Let_def)
  ultimately show ?thesis by (elim disjE) (simp_all add: some_busy_def)
qed

lemma queue_push_core:
  assumes core: "sched_core s" and st: "wi_step x = step_of_request (me_message (wi_envelope x))"
    and may: "may_start (wi_step x) s"
  shows "sched_core (s\<lparr>es_pending := queue_push x (es_pending s)\<rparr>)"
proof -
  have ok: "queue_ok (es_pending s)" using core by (simp add: sched_core_def pending_ok_def)
  have set: "set (queue_items (queue_push x (es_pending s))) = insert x (set (pending_items s))"
    by (metis wq.mset_push [OF ok] set_mset_add_mset_insert set_mset_mset)
  show ?thesis
    using core st may unfolding sched_core_def
    by (auto simp: set pending_ok_def wq.ok_push may_start_def evm_present_def list_ex_iff split: if_splits)
qed

lemma assign_or_queue_inv:
  assumes core: "sched_core s" and st: "st = step_of_request (me_message env)" and may: "may_start st s"
  shows "sched_inv (fst (assign_or_queue u env st s))"
proof (cases rule: assign_or_queue_cases [of s st u env])
  case (assigned i)
  then show ?thesis using assign_to_core [OF core assigned(1) may] by (simp add: sched_inv_def)
next
  case queued
  have "some_busy s"
    using choose_worker_None_busy [OF core queued(1)] step_of_request_cases [of "me_message env"] st by auto
  then show ?thesis
    using queue_push_core [OF core, of "\<lparr>wi_envelope = env, wi_step = st\<rparr>"] st may queued(2)
    by (simp add: sched_inv_def some_busy_def)
qed

lemma try_dequeue_inv:
  assumes core: "sched_core s"
  shows "sched_inv (fst (try_dequeue_work u s))"
proof -
  have ok: "queue_ok (es_pending s)" using core by (simp add: sched_core_def pending_ok_def)
  have pop: "sched_core (s\<lparr>es_pending := rest\<rparr>) \<and> may_start (wi_step item) (s\<lparr>es_pending := rest\<rparr>) \<and>
      wi_step item = step_of_request (me_message (wi_envelope item))"
    if p: "queue_pop (es_pending s) = Some (item, rest)" for item rest
    using core wq.items_pop [OF ok p] wq.ok_pop [OF ok p]
    by (auto simp: sched_core_def pending_ok_def may_start_def evm_present_def list_ex_iff)
  show ?thesis
  proof (cases rule: try_dequeue_cases [of s u])
    case empty
    then show ?thesis using core wq.pop_None [OF ok] by (simp add: sched_inv_def)
  next
    case (assigned item rest i)
    note p = pop [OF assigned(1)]
    show ?thesis
      using assign_to_core [OF conjunct1 [OF p] assigned(2) conjunct1 [OF conjunct2 [OF p]],
          of u "wi_envelope item"]
      unfolding assigned(3) by (simp add: sched_inv_def)
  next
    case (requeued item rest)
    note p = pop [OF requeued(1)]
    have "some_busy (s\<lparr>es_pending := rest\<rparr>)"
      using choose_worker_None_busy [OF _ requeued(2)] p step_of_request_cases [of "me_message (wi_envelope item)"]
      by auto
    then show ?thesis
      using queue_push_core [OF conjunct1 [OF p], of item] p
      unfolding requeued(3) by (auto simp: sched_inv_def some_busy_def)
  qed
qed

lemma drain_inv: "sched_core s \<Longrightarrow> sched_inv (fst (drain_pending u s))"
proof (induction u s rule: drain_pending.induct)
  case (1 u s)
  obtain s1 r where d: "try_dequeue_work u s = (s1, r)" by fastforce
  have "sched_inv s1" using try_dequeue_inv [OF "1.prems", of u] d by simp
  then show ?case
    using "1.IH" [OF d [symmetric]] d
    by (cases r) (auto simp: drain_pending.simps [of u s] case_prod_unfold Let_def sched_inv_def)
qed


text \<open>Completions.\<close>

lemma find_worker:
  assumes "map ws_id ws = [0..<length ws]" "i < length ws"
  shows "find_index (\<lambda>w. ws_id w = i) ws = Some i"
proof -
  have id: "ws_id (ws ! j) = j" if "j < length ws" for j
    using that assms(1) by (metis add_0 length_map nth_map nth_upt length_upt minus_nat.diff_0)
  then have "\<exists>w \<in> set ws. ws_id w = i" using assms(2) by (metis nth_mem)
  then obtain j where j: "find_index (\<lambda>w. ws_id w = i) ws = Some j"
    by (cases "find_index (\<lambda>w. ws_id w = i) ws") (auto simp: find_index_None_iff)
  show ?thesis using find_index_SomeD [OF j] id j by auto
qed

lemma length_remove_at [simp]: "i < length xs \<Longrightarrow> length (remove_at i xs) = length xs - 1"
  by (simp add: remove_at_def)

lemma set_remove_at: "x \<in> set (remove_at i xs) \<Longrightarrow> x \<in> set xs"
  by (auto simp: remove_at_def dest: in_set_takeD in_set_dropD)

lemma finish_step_inv:
  assumes inv: "worker_inv n ns mx w" and run: "runs_step st w" and st: "st \<noteq> ShardedAppProve"
  shows "worker_inv n ns mx (finish_step st w)" "runs_step t (finish_step st w) \<Longrightarrow> runs_step t w"
proof -
  obtain i where i: "find_index (\<lambda>p. ap_step p = st) (ws_active_proofs w) = Some i"
    using run by (cases "find_index (\<lambda>p. ap_step p = st) (ws_active_proofs w)")
      (auto simp: runs_step_def list_ex_iff find_index_None_iff)
  have il: "i < length (ws_active_proofs w)" using find_index_SomeD [OF i] by simp
  define w' where "w' = finish_step st w"
  have f: "ws_active_proof_count w' = ws_active_proof_count w - 1"
    "ws_active_proofs w' = remove_at i (ws_active_proofs w)"
    "ws_worker_role w' = ws_worker_role w" "ws_id w' = ws_id w" "ws_completed_segments w' = ws_completed_segments w"
    using i by (simp_all add: w'_def finish_step_def Let_def)
  have r: "runs_step t w' \<Longrightarrow> runs_step t w" for t
    by (auto simp: runs_step_def f list_ex_iff dest: set_remove_at)
  then show "runs_step t (finish_step st w) \<Longrightarrow> runs_step t w" by (simp add: w'_def)
  have none: "\<not> runs_step ShardedAppProve w"
  proof
    assume a: "runs_step ShardedAppProve w"
    then have "length (ws_active_proofs w) = 1" using inv by (auto simp: worker_inv_def)
    then show False using a run st by (auto simp: runs_step_def length_Suc_conv)
  qed
  have evm: "\<not> runs_step EvmProve w'"
  proof
    assume a: "runs_step EvmProve w'"
    then have "length (ws_active_proofs w) = 1" using inv r by (auto simp: worker_inv_def)
    then have "ws_active_proofs w' = []" using il by (simp add: f remove_at_def)
    then show False using a by (simp add: runs_step_Nil)
  qed
  have "worker_inv n ns mx w'"
    using inv none evm r [of ShardedAppProve] il unfolding worker_inv_def
    by (cases ns; auto simp: f dest: set_remove_at)
  then show "worker_inv n ns mx (finish_step st w)" by (simp add: w'_def)
qed

lemma finish_step_same [simp]: "ws_id (finish_step st w) = ws_id w" "ws_worker_role (finish_step st w) = ws_worker_role w"
  by (simp_all add: finish_step_def Let_def split: option.split)

lemma release_app_slot_simps [simp]:
  "ws_id (release_app_slot w) = ws_id w" "ws_worker_role (release_app_slot w) = ws_worker_role w"
  "ws_completed_segments (release_app_slot w) = ws_completed_segments w"
  "\<not> runs_step ShardedAppProve (release_app_slot w)"
  "runs_step EvmProve (release_app_slot w) \<longleftrightarrow> runs_step EvmProve w"
  by (auto simp: release_app_slot_def runs_step_def list_ex_iff)

text \<open>A worker that holds only the app slot is idle after its release.\<close>

lemma release_app_slot_idle:
  assumes "length (ws_active_proofs w) = 1" "runs_step ShardedAppProve w"
  shows "ws_active_proofs (release_app_slot w) = []"
  using assms by (auto simp: release_app_slot_def runs_step_def length_Suc_conv)

lemma app_result_inv:
  assumes inv: "worker_inv n ns mx w" and n: "0 < n"
    and seg: "seg mod n = ws_id w" "seg \<notin> set (ws_completed_segments w)"
      "case ns of None \<Rightarrow> True | Some t \<Rightarrow> seg < t"
  defines "w1 \<equiv> w\<lparr>ws_completed_segments := List.insert seg (ws_completed_segments w)\<rparr>"
  shows "case worker_completed_all_segments (ws_id w) (ws_completed_segments w1) n ns of
      Ok b \<Rightarrow> worker_inv n ns mx (if b then release_app_slot w1 else w1)
    | Err e \<Rightarrow> False | Panic p \<Rightarrow> False"
proof -
  have id: "ws_id w < n" using seg(1) n by (metis mod_less_divisor)
  then have stark: "runs_stark_proving (ws_worker_role w)" using inv by (simp add: worker_inv_def)
  have f: "ws_active_proof_count w1 = ws_active_proof_count w" "ws_active_proofs w1 = ws_active_proofs w"
    "ws_worker_role w1 = ws_worker_role w" "ws_id w1 = ws_id w"
    "set (ws_completed_segments w1) = insert seg (set (ws_completed_segments w))" "distinct (ws_completed_segments w1)"
    using inv by (simp_all add: w1_def worker_inv_def)
  have r1: "runs_step t w1 = runs_step t w" for t by (simp add: runs_step_def f)
  show ?thesis
  proof (cases ns)
    case None
    then show ?thesis
      using inv seg f r1 by (auto simp: worker_completed_all_segments_def worker_inv_def)
  next
    case (Some t)
    let ?O = "owned t n (ws_id w)"
    have "set (ws_completed_segments w1) \<subseteq> {..<t}"
      using inv seg(3) Some by (auto simp: f worker_inv_def)
    then have all: "worker_completed_all_segments (ws_id w) (ws_completed_segments w1) n ns =
        Ok (?O \<subseteq> set (ws_completed_segments w1))"
      using completed_all_iff [OF id f(6)] Some by simp
    have "seg \<in> ?O" using seg(1,3) Some by (simp add: owned_def)
    then have mark: "runs_step ShardedAppProve w" and one: "length (ws_active_proofs w1) = 1"
      using inv stark seg(2) Some by (auto simp: worker_inv_def f)
    have idle: "ws_active_proofs (release_app_slot w1) = []"
      by (rule release_app_slot_idle [OF one]) (simp add: r1 mark)
    define w2 where "w2 = release_app_slot w1"
    have g: "ws_active_proof_count w2 = ws_active_proof_count w1 - 1" "ws_active_proofs w2 = []"
      "ws_worker_role w2 = ws_worker_role w" "ws_id w2 = ws_id w"
      "ws_completed_segments w2 = ws_completed_segments w1"
      using idle f by (simp_all add: w2_def release_app_slot_def)
    have "worker_inv n ns mx (release_app_slot w1)" if "?O \<subseteq> set (ws_completed_segments w1)"
      unfolding w2_def [symmetric] using inv that one seg Some stark id
      by (auto simp: worker_inv_def runs_step_Nil f g)
    moreover have "worker_inv n ns mx w1" if "\<not> ?O \<subseteq> set (ws_completed_segments w1)"
      using inv that f seg Some stark id mark r1
      by (auto simp: worker_inv_def)
    ultimately show ?thesis by (simp add: all)
  qed
qed


lemma completion_of_worker_inv:
  assumes inv: "worker_inv (es_num_workers s) (es_num_segments s) mx w" and n: "0 < es_num_workers s"
    and rep: "reports s res w"
  shows "\<exists>w' b. completion_of_worker (es_num_workers s) (es_num_segments s) res w = (w', Ok b) \<and>
    worker_inv (es_num_workers s) (es_num_segments s) mx w' \<and>
    ws_id w' = ws_id w \<and> ws_worker_role w' = ws_worker_role w \<and>
    (runs_step EvmProve w' \<longrightarrow> runs_step EvmProve w) \<and>
    (\<not> b \<longrightarrow> ws_active_proofs w' = ws_active_proofs w)"
proof (cases res)
  case (AppRes c a)
  let ?seg = "aps_segment_idx a"
  define w1 where "w1 = w\<lparr>ws_completed_segments := List.insert ?seg (ws_completed_segments w)\<rparr>"
  have f: "ws_id w1 = ws_id w" "ws_worker_role w1 = ws_worker_role w" "ws_active_proofs w1 = ws_active_proofs w"
    by (simp_all add: w1_def)
  then have r: "runs_step t w1 = runs_step t w" for t by (simp add: runs_step_def)
  have seg: "?seg mod es_num_workers s = ws_id w" "?seg \<notin> set (ws_completed_segments w)"
    "case es_num_segments s of None \<Rightarrow> True | Some t \<Rightarrow> ?seg < t"
    using rep AppRes by simp_all
  have "case worker_completed_all_segments (ws_id w) (ws_completed_segments w1) (es_num_workers s) (es_num_segments s) of
      Ok b \<Rightarrow> worker_inv (es_num_workers s) (es_num_segments s) mx (if b then release_app_slot w1 else w1)
    | Err e \<Rightarrow> False | Panic p \<Rightarrow> False"
    unfolding w1_def by (rule app_result_inv [OF inv n seg])
  then obtain b where b: "worker_completed_all_segments (ws_id w) (ws_completed_segments w1)
      (es_num_workers s) (es_num_segments s) = Ok b"
    and i: "worker_inv (es_num_workers s) (es_num_segments s) mx (if b then release_app_slot w1 else w1)"
    by (auto split: outcome.splits)
  then show ?thesis
    using f r by (cases b) (auto simp: AppRes w1_def [symmetric] Let_def)
qed (use inv rep in \<open>auto simp: finish_step_inv\<close>)

lemma reports_worker:
  assumes core: "sched_core s" and en: "enabled (Complete wid res) s"
  shows "wid < length (es_workers s)" "reports s res (es_workers s ! wid)"
    "find_index (\<lambda>w. ws_id w = wid) (es_workers s) = Some wid"
proof -
  have ids: "map ws_id (es_workers s) = [0..<length (es_workers s)]" using core by (simp add: sched_core_def)
  obtain j where j: "j < length (es_workers s)" "ws_id (es_workers s ! j) = wid" "reports s res (es_workers s ! j)"
    using en by (auto simp: list_ex_iff in_set_conv_nth)
  have "ws_id (es_workers s ! j) = j"
    using j(1) ids by (metis add_0 nth_map nth_upt)
  then show "wid < length (es_workers s)" "reports s res (es_workers s ! wid)" using j by auto
  then show "find_index (\<lambda>w. ws_id w = wid) (es_workers s) = Some wid" by (intro find_worker ids)
qed

lemma complete_work_inv:
  assumes inv: "sched_inv s" and en: "enabled (Complete wid res) s"
  shows "sched_inv (fst (complete_work u wid res s))"
    "\<exists>r. snd (complete_work u wid res s) = Ok r"
proof -
  have core: "sched_core s" using inv by (simp add: sched_inv_def)
  note rw = reports_worker [OF core en]
  let ?w = "es_workers s ! wid"
  have "?w \<in> set (es_workers s)" and n: "0 < es_num_workers s" using rw(1) core by (simp_all add: sched_core_def)
  then obtain w' b where c: "completion_of_worker (es_num_workers s) (es_num_segments s) res ?w = (w', Ok b)"
    and w': "worker_inv (es_num_workers s) (es_num_segments s) (es_max_leaf_provers s) w'"
      "ws_id w' = ws_id ?w" "ws_worker_role w' = ws_worker_role ?w"
      "runs_step EvmProve w' \<longrightarrow> runs_step EvmProve ?w" "\<not> b \<longrightarrow> ws_active_proofs w' = ws_active_proofs ?w"
    using completion_of_worker_inv [OF core_worker [OF core] n rw(2)] by blast
  let ?s1 = "s\<lparr>es_workers := (es_workers s)[wid := w']\<rparr>"
  have core1: "sched_core ?s1" by (rule core_update [OF core rw(1) w'(1-3)]) (use w'(4) in blast)
  have a: "apply_completion u wid res s = (?s1, Ok b)" by (simp add: apply_completion_def rw(3) c)
  have "sched_inv ?s1" if "\<not> b"
  proof -
    have "some_busy s \<Longrightarrow> some_busy ?s1"
      unfolding some_busy_def using w'(5) that rw(1)
      by (simp add: ex_list_update)
    then show ?thesis using core1 inv by (simp add: sched_inv_def)
  qed
  then show "sched_inv (fst (complete_work u wid res s))" "\<exists>r. snd (complete_work u wid res s) = Ok r"
    using try_dequeue_inv [OF core1, of u] by (simp_all add: complete_work_def a case_prod_unfold Let_def)
qed

text \<open>The number of segments arrives.\<close>

lemma release_if_complete_inv:
  assumes inv: "worker_inv n None mx w" and n: "0 < n" and evm: "\<not> runs_step EvmProve w"
    and bound: "\<forall>seg \<in> set (ws_completed_segments w). seg < t"
  shows "\<exists>w' b. release_if_complete t n w = Ok (w', b) \<and> worker_inv n (Some t) mx w' \<and>
    ws_id w' = ws_id w \<and> ws_worker_role w' = ws_worker_role w \<and> \<not> runs_step EvmProve w' \<and>
    (\<not> b \<longrightarrow> w' = w)"
proof (cases "runs_stark_proving (ws_worker_role w)")
  case False
  then have "ws_active_proofs w = []"
    using inv evm by (cases "ws_active_proofs w") (auto simp: worker_inv_def role_fits_def runs_step_def)
  moreover from this have "worker_inv n (Some t) mx w"
    using inv bound False by (auto simp: worker_inv_def runs_step_Nil)
  ultimately show ?thesis
    using inv evm by (intro exI [of _ w] exI [of _ False]) (auto simp: release_if_complete_def worker_inv_def)
next
  case True
  let ?O = "owned t n (ws_id w)"
  have id: "ws_id w < n" and mark: "runs_step ShardedAppProve w" and one: "length (ws_active_proofs w) = 1"
    and cnt: "ws_active_proof_count w = 1"
    using inv True by (auto simp: worker_inv_def)
  have d: "distinct (ws_completed_segments w)" "set (ws_completed_segments w) \<subseteq> {..<t}"
    using inv bound by (auto simp: worker_inv_def)
  have rel: "release_if_complete t n w =
      Ok (if ?O \<subseteq> set (ws_completed_segments w) then (release_app_slot w, True) else (w, False))"
    using completed_all_iff [OF id d] cnt
    by (auto simp: release_if_complete_def expected_segments_card [OF id])
  define w2 where "w2 = release_app_slot w"
  have g: "ws_active_proof_count w2 = ws_active_proof_count w - 1" "ws_active_proofs w2 = []"
    "ws_worker_role w2 = ws_worker_role w" "ws_id w2 = ws_id w" "ws_completed_segments w2 = ws_completed_segments w"
    using release_app_slot_idle [OF one mark] by (simp_all add: w2_def release_app_slot_def)
  have "worker_inv n (Some t) mx (release_app_slot w)" if "?O \<subseteq> set (ws_completed_segments w)"
    unfolding w2_def [symmetric] using inv that bound cnt by (auto simp: worker_inv_def runs_step_Nil g)
  moreover have "worker_inv n (Some t) mx w" if "\<not> ?O \<subseteq> set (ws_completed_segments w)"
    using inv that bound mark by (auto simp: worker_inv_def)
  ultimately show ?thesis using rel evm by auto
qed

lemma release_complete_inv:
  assumes "0 < n" "\<forall>w \<in> set ws. worker_inv n None mx w \<and> \<not> runs_step EvmProve w \<and>
      (\<forall>seg \<in> set (ws_completed_segments w). seg < t)"
  shows "\<exists>ws' b. release_complete t n ws = (ws', Ok b) \<and>
    (\<forall>w \<in> set ws'. worker_inv n (Some t) mx w \<and> \<not> runs_step EvmProve w) \<and>
    map ws_id ws' = map ws_id ws \<and> map ws_worker_role ws' = map ws_worker_role ws \<and> (\<not> b \<longrightarrow> ws' = ws)"
  using assms(2)
proof (induction ws)
  case (Cons w ws)
  obtain w' b where w: "release_if_complete t n w = Ok (w', b)" "worker_inv n (Some t) mx w'" "ws_id w' = ws_id w"
    "ws_worker_role w' = ws_worker_role w" "\<not> runs_step EvmProve w'" "\<not> b \<longrightarrow> w' = w"
    using release_if_complete_inv [OF _ assms(1), of mx w t] Cons.prems by auto
  obtain ws' b' where ws: "release_complete t n ws = (ws', Ok b')"
    "\<forall>w \<in> set ws'. worker_inv n (Some t) mx w \<and> \<not> runs_step EvmProve w"
    "map ws_id ws' = map ws_id ws" "map ws_worker_role ws' = map ws_worker_role ws" "\<not> b' \<longrightarrow> ws' = ws"
    using Cons by auto
  show ?case using w ws by (intro exI [of _ "w' # ws'"] exI [of _ "b \<or> b'"]) auto
qed (auto intro: exI [of _ False])

lemma set_segments_inv:
  assumes inv: "sched_inv s" and en: "enabled (Segments t) s"
  shows "sched_inv (fst (set_segments u t s))" "\<exists>r. snd (set_segments u t s) = Ok r"
proof -
  have core: "sched_core s" using inv by (simp add: sched_inv_def)
  have none: "es_num_segments s = None" and no_evm: "\<not> evm_present s" and n: "0 < es_num_workers s"
    using en core by (auto simp: sched_core_def)
  have "\<forall>w \<in> set (es_workers s). worker_inv (es_num_workers s) None (es_max_leaf_provers s) w \<and>
      \<not> runs_step EvmProve w \<and> (\<forall>seg \<in> set (ws_completed_segments w). seg < t)"
    using core en no_evm none by (auto simp: sched_core_def evm_present_def list_ex_iff list_all_iff)
  from release_complete_inv [OF n this] obtain ws b where
    r: "release_complete t (es_num_workers s) (es_workers s) = (ws, Ok b)"
    and ws: "\<forall>w \<in> set ws. worker_inv (es_num_workers s) (Some t) (es_max_leaf_provers s) w \<and> \<not> runs_step EvmProve w"
      "map ws_id ws = map ws_id (es_workers s)" "map ws_worker_role ws = map ws_worker_role (es_workers s)"
      "\<not> b \<longrightarrow> ws = es_workers s"
    by blast
  let ?s2 = "s\<lparr>es_num_segments := Some t, es_workers := ws\<rparr>"
  have roles: "(\<exists>w \<in> set ws. P (ws_worker_role w)) \<longleftrightarrow> (\<exists>w \<in> set (es_workers s). P (ws_worker_role w))" for P
  proof -
    have m: "(\<exists>w \<in> set vs. P (ws_worker_role w)) \<longleftrightarrow> (\<exists>r \<in> set (map ws_worker_role vs). P r)" for vs by simp
    show ?thesis unfolding m [of ws] m [of "es_workers s"] ws(3) by (rule refl)
  qed
  have len: "length ws = length (es_workers s)" using ws(2) by (metis length_map)
  have core2: "sched_core ?s2"
    unfolding sched_core_def
    using core ws(1) no_evm roles [of runs_stark_proving] roles [of runs_evm_prove] ws(2) len
    by (auto simp: sched_core_def pending_ok_def evm_present_def list_ex_iff)
  have "sched_inv ?s2" if "\<not> b"
    using inv core2 ws(4) that by (auto simp: sched_inv_def some_busy_def)
  then show "sched_inv (fst (set_segments u t s))" "\<exists>r. snd (set_segments u t s) = Ok r"
    using drain_inv [OF core2, of u] by (auto simp: set_segments_def Let_def r case_prod_unfold)
qed


section \<open>The invariant holds along a fault-free run\<close>

fun sched_run :: "string \<Rightarrow> sched_event list \<Rightarrow> edge_proof_state \<Rightarrow> edge_proof_state \<times> assigned_work list" where
  "sched_run u [] s = (s, [])"
| "sched_run u (e # es) s =
     (let (s1, ws) = sched_step u e s; (s2, ws') = sched_run u es s1 in (s2, ws @ ws'))"

lemma sched_run_pool: "sched_run u es s = pool.run u es s"
  by (induction es arbitrary: s) (simp_all add: case_prod_unfold)

lemma sched_step_inv:
  assumes inv: "sched_inv s" and en: "enabled e s"
  shows "sched_inv (fst (sched_step u e s))"
proof (cases e)
  case (Enqueue env st)
  have core: "sched_core s" using inv by (simp add: sched_inv_def)
  have "st = step_of_request (me_message env)" "may_start st s"
    using en Enqueue by (auto simp: may_start_def split: if_splits)
  then show ?thesis using assign_or_queue_inv [OF core] Enqueue by simp
next
  case (Complete wid res)
  then show ?thesis using complete_work_inv(1) [OF inv] en by simp
next
  case (Segments t)
  then show ?thesis using set_segments_inv(1) [OF inv] en by simp
qed (use en in simp_all)

lemma sched_run_inv: "sched_inv s \<Longrightarrow> fault_free u es s \<Longrightarrow> sched_inv (fst (sched_run u es s))"
  by (induction es arbitrary: s) (simp_all add: case_prod_unfold Let_def sched_step_inv)

lemma stack_ready_role:
  assumes ready: "stack_ready ws" and mem: "(i, w) \<in> set ws"
  shows "runs_stark_proving (rw_worker_role w) \<longleftrightarrow> i < length (app_eligible_workers ws)"
proof
  let ?app = "app_eligible_workers ws"
  have ids: "map fst ?app = [0..<length ?app]" using ready by (simp add: stack_ready_def)
  { assume "runs_stark_proving (rw_worker_role w)"
    then have "(i, w) \<in> set ?app" using mem by (simp add: app_eligible_workers_def)
    then have "i \<in> set (map fst ?app)" by force
    then show "i < length ?app" unfolding ids by simp }
  assume "i < length ?app"
  then have "i \<in> set (map fst ?app)" unfolding ids by simp
  then obtain w' where w': "(i, w') \<in> set ws" "runs_stark_proving (rw_worker_role w')"
    by (auto simp: app_eligible_workers_def)
  have "distinct (map fst ws)" using ready by (metis stack_ready_def distinct_upt)
  then have "w' = w" using mem w'(1) by (metis map_of_is_SomeI option.inject)
  then show "runs_stark_proving (rw_worker_role w)" using w'(2) by simp
qed

lemma fresh_inv:
  assumes ready: "stack_ready ws"
  shows "sched_inv (fresh_state ws thr mx)"
proof -
  let ?n = "length (app_eligible_workers ws)"
  have n: "0 < ?n" using ready by (simp add: stack_ready_def)
  have w: "worker_inv ?n None mx (seed_worker (i, w))" if "(i, w) \<in> set ws" for i w
    using stack_ready_role [OF ready that]
    by (auto simp: seed_worker_def Let_def worker_inv_def runs_step_def role_fits_def)
  have no_evm: "\<not> runs_step EvmProve (seed_worker p)" for p
    by (auto simp: seed_worker_def Let_def runs_step_def case_prod_unfold)
  have role: "ws_worker_role (seed_worker p) = rw_worker_role (snd p)" "ws_id (seed_worker p) = fst p" for p
    by (simp_all add: seed_worker_def case_prod_unfold Let_def)
  obtain p where "p \<in> set (app_eligible_workers ws)" using n by (cases "app_eligible_workers ws") auto
  then have "\<exists>p \<in> set ws. runs_stark_proving (rw_worker_role (snd p))"
    by (intro bexI [of _ p]) (auto simp: app_eligible_workers_def)
  moreover have "\<exists>p \<in> set ws. runs_evm_prove (rw_worker_role (snd p))"
    using ready unfolding stack_ready_def list_ex_iff by (metis (no_types, lifting) case_prodE snd_conv)
  moreover have "map (\<lambda>p. ws_id (seed_worker p)) ws = [0..<length ws]"
    using ready by (simp add: role stack_ready_def)
  ultimately show ?thesis
    using n w no_evm wq.ok_empty wq.items_empty
    by (auto simp: sched_inv_def sched_core_def fresh_state_def edge_proof_state_new_def pending_ok_def
        evm_present_def list_ex_iff role comp_def)
qed

lemma fault_free_inv:
  "stack_ready ws \<Longrightarrow> fault_free u es (fresh_state ws thr mx) \<Longrightarrow>
   sched_inv (fst (sched_run u es (fresh_state ws thr mx)))"
  by (rule sched_run_inv [OF fresh_inv])

text \<open>Nothing but the class of a request decides whether some worker can take it.\<close>

lemma head_refused_all_refused:
  assumes core: "sched_core s" and pop: "queue_pop (es_pending s) = Some (item, rest)"
    and none: "choose_worker s (wi_step item) = None" and x: "x \<in> set (pending_items s)"
  shows "choose_worker s (wi_step x) = None"
proof (rule ccontr)
  have ok: "queue_ok (es_pending s)" using core by (simp add: sched_core_def pending_ok_def)
  have it: "item \<in> set (pending_items s)" using wq.items_pop [OF ok pop] by simp
  have all_evm: "wi_step y = EvmProve" if "z \<in> set (pending_items s)" "wi_step z = EvmProve"
    "y \<in> set (pending_items s)" for y z
    using core that by (auto simp: sched_core_def evm_present_def list_ex_iff)
  have st: "wi_step y = LeafProve \<or> wi_step y = InternalProve \<or> wi_step y = EvmProve" if "y \<in> set (pending_items s)" for y
    using core that step_of_request_cases by (auto simp: sched_core_def)
  have kind: "wi_step y = step_of_request (me_message (wi_envelope y))" if "y \<in> set (pending_items s)" for y
    using core that by (simp add: sched_core_def)
  assume "choose_worker s (wi_step x) \<noteq> None"
  then have d: "wi_step x \<noteq> wi_step item" using none by auto
  have ne: "wi_step x \<noteq> EvmProve" "wi_step item \<noteq> EvmProve" using d all_evm x it by metis+
  have "item_class item \<le> item_class x" by (rule wq.pop_first_class(2) [OF ok pop x])
  moreover have "wi_step y = LeafProve \<longleftrightarrow> item_class y = Class_Leaf" if "y \<in> set (pending_items s)" for y
    using kind [OF that] by (cases "me_message (wi_envelope y)") (simp_all add: item_class_def)
  ultimately have leaf: "wi_step item = LeafProve" and int: "wi_step x = InternalProve"
    using st [OF x] st [OF it] d ne x it by (metis class_le_simps(1) order_antisym)+
  obtain i where i: "choose_worker s InternalProve = Some i"
    using \<open>choose_worker s (wi_step x) \<noteq> None\<close> int by auto
  note c = choose_worker_Some [OF core i]
  let ?w = "es_workers s ! i"
  have w: "?w \<in> set (es_workers s)" using c(1) by simp
  have "runs_stark_proving (ws_worker_role ?w) \<and> ws_active_proof_count ?w = 0 \<and> \<not> runs_step ShardedAppProve ?w"
    using c(2,4,5) core_worker [OF core w] by (simp add: worker_inv_def)
  then have "choose_worker s LeafProve \<noteq> None"
    using w find_index_None_iff [of "\<lambda>w. runs_stark_proving (ws_worker_role w) \<and>
      ws_active_proof_count w = 0 \<and> \<not> runs_step ShardedAppProve w" "es_workers s"]
    by (auto simp: choose_worker_def find_best_worker_for_leaf_def split: option.splits)
  then show False using none leaf by simp
qed

lemma try_dequeue_None_all_refused:
  assumes core: "sched_core s" and none: "snd (try_dequeue_work u s) = None" and x: "x \<in> set (pending_items s)"
  shows "choose_worker s (wi_step x) = None"
proof (cases rule: try_dequeue_cases [of s u])
  case empty
  then have "pending_items s = []" by (simp only: queue_pop_None)
  then show ?thesis using x by simp
next
  case (assigned item rest i)
  then show ?thesis using none by simp
next
  case (requeued item rest)
  then show ?thesis using head_refused_all_refused [OF core requeued(1) _ x] by simp
qed

lemma same_class_same_step:
  assumes "wi_step x = step_of_request (me_message (wi_envelope x))"
    "wi_step y = step_of_request (me_message (wi_envelope y))" "item_class x = item_class y"
  shows "wi_step x = wi_step y"
  using assms by (cases "me_message (wi_envelope x)"; cases "me_message (wi_envelope y)")
    (simp_all add: item_class_def)

text \<open>The drain loop stops only when the next attempt would assign nothing.\<close>

lemma drain_pending_stops:
  "queue_ok (es_pending s) \<Longrightarrow>
   \<exists>s'. snd (try_dequeue_work u s') = None \<and> fst (try_dequeue_work u s') = fst (drain_pending u s) \<and>
        queue_ok (es_pending s')"
proof (induction u s rule: drain_pending.induct)
  case (1 u s)
  obtain s1 r where d: "try_dequeue_work u s = (s1, r)" by fastforce
  show ?case
  proof (cases r)
    case None
    then show ?thesis using d "1.prems" by (auto simp: drain_pending.simps [of u s] intro!: exI [of _ s])
  next
    case (Some w)
    have "queue_ok (es_pending s1)"
      using try_dequeue_conserves [OF _ d] "1.prems" by (simp add: pending_ok_def)
    then show ?thesis
      using "1.IH" [OF d [symmetric] Some] d Some
      by (simp add: drain_pending.simps [of u s] case_prod_unfold Let_def)
  qed
qed

lemma drain_all_refused:
  assumes core: "sched_core s" and x: "x \<in> set (pending_items (fst (drain_pending u s)))"
  shows "choose_worker (fst (drain_pending u s)) (wi_step x) = None"
proof -
  let ?d = "fst (drain_pending u s)"
  have ok: "queue_ok (es_pending s)" using core by (simp add: sched_core_def pending_ok_def)
  have core_d: "sched_core ?d" using drain_inv [OF core, of u] by (simp add: sched_inv_def)
  obtain s' where s': "snd (try_dequeue_work u s') = None" "fst (try_dequeue_work u s') = ?d"
    "queue_ok (es_pending s')"
    using drain_pending_stops [OF ok] by blast
  show ?thesis
  proof (cases rule: try_dequeue_cases [of s' u])
    case empty
    then have "es_pending ?d = es_pending s'" using s'(2) by simp
    then have "pending_items ?d = []" using empty(1) by (simp only: queue_pop_None)
    then show ?thesis using x by simp
  next
    case (assigned item rest i)
    then show ?thesis using s'(1) by simp
  next
    case (requeued item rest)
    have rest: "queue_ok rest" and items: "queue_items (es_pending s') = item # queue_items rest"
      using wq.ok_pop [OF s'(3) requeued(1)] wq.items_pop [OF s'(3) requeued(1)] by simp_all
    have d: "?d = s'\<lparr>es_pending := queue_push item rest\<rparr>" using s'(2) requeued(3) by simp
    have ms: "mset (pending_items ?d) = mset (pending_items s')"
      using items by (simp add: d wq.mset_push [OF rest])
    have none: "choose_worker ?d (wi_step item) = None" using requeued(2) by (simp add: d)
    obtain it2 rest2 where p2: "queue_pop (es_pending ?d) = Some (it2, rest2)"
      using x wq.pop_None [of "es_pending ?d"] core_d
      by (cases "queue_pop (es_pending ?d)") (auto simp: sched_core_def pending_ok_def)
    have okd: "queue_ok (es_pending ?d)" using core_d by (simp add: sched_core_def pending_ok_def)
    have mem: "item \<in> set (pending_items ?d)" "it2 \<in> set (pending_items ?d)" "it2 \<in> set (queue_items (es_pending s'))"
      using ms items wq.items_pop [OF okd p2] by (metis list.set_intros(1) set_mset_mset)+
    have "item_class it2 = item_class item"
      using wq.pop_first_class(2) [OF okd p2 mem(1)] wq.pop_first_class(2) [OF s'(3) requeued(1) mem(3)]
      by (rule order_antisym)
    then have "wi_step it2 = wi_step item"
      using core_d mem by (intro same_class_same_step) (auto simp: sched_core_def)
    then show ?thesis using head_refused_all_refused [OF core_d p2 _ x] none by simp
  qed
qed

end
