(* ===== verification/Scheduler_Properties.thy ===== *)
theory Scheduler_Properties
  imports Scheduler_Run
begin

text \<open>
  The properties of the scheduler: conservation, slot discipline, the app slots, progress, the drain,
  the segment arithmetic, and two behaviours outside fault-free runs. The example is a stack of two
  STARK workers and one dedicated EVM worker with three segments.
\<close>

definition demo_stack :: "(nat \<times> registered_worker) list" where
  "demo_stack =
     [(0, \<lparr>rw_worker_url = ''a'', rw_last_seen = 2, rw_worker_role = StarkOnly\<rparr>),
      (1, \<lparr>rw_worker_url = ''b'', rw_last_seen = 3, rw_worker_role = StarkOnly\<rparr>),
      (2, \<lparr>rw_worker_url = ''c'', rw_last_seen = 1, rw_worker_role = EvmDedicated\<rparr>)]"

definition sched_context :: proof_context where
  "sched_context = \<lparr>pc_proof_uuid = ''p1'', pc_program = \<lparr>pr_name = ''fib'', pr_version = 1\<rparr>,
     pc_labels = [], pc_proof_type = Evm\<rparr>"

definition leaf_work :: "nat \<Rightarrow> general_prove_request message_envelope" where
  "leaf_work i = \<lparr>me_timestamp = 0, me_message_id = show_nat i,
     me_message = LeafProveReq \<lparr>lpr_context = sched_context, lpr_app_proofs = [],
       lpr_segment_start = i, lpr_segment_end = i\<rparr>\<rparr>"

definition internal_work :: "nat \<Rightarrow> general_prove_request message_envelope" where
  "internal_work k = \<lparr>me_timestamp = 0, me_message_id = show_nat k,
     me_message = InternalProveReq \<lparr>ipr_context = sched_context, ipr_child_proofs = [], ipr_layer_idx = k,
       ipr_segment_start = 0, ipr_segment_end = 2, ipr_is_final_proof = False, ipr_deferral_tail = None,
       ipr_deferral_merkle_proofs_bytes = None\<rparr>\<rparr>"

definition evm_work :: "general_prove_request message_envelope" where
  "evm_work = \<lparr>me_timestamp = 0, me_message_id = ''evm'',
     me_message = EvmProveReq \<lparr>epr_context = sched_context, epr_internal_proof_bytes = [],
       epr_deferral_merkle_proofs_bytes = None, epr_proof_has_deferral = False\<rparr>\<rparr>"

definition app_done :: "nat \<Rightarrow> proof_result" where
  "app_done i = AppRes sched_context
     \<lparr>aps_proof = None, aps_segment_idx = i, aps_prove_time_ms = 0, aps_fastfwd_time_ms = 0,
      aps_stark_prove_time_ms = 0, aps_sub_metrics = [], aps_final_merkle_path_bytes = None,
      aps_deferral_merkle_proofs_bytes = None\<rparr>"

definition leaf_done :: proof_result where
  "leaf_done = LeafRes sched_context
     \<lparr>lps_proof = None, lps_segment_start = 0, lps_segment_end = 0, lps_prove_time_ms = 0, lps_sub_metrics = []\<rparr>"

text \<open>All app proofs beat the segment count; the leaves built from them wait until it arrives.\<close>

definition demo_events :: "sched_event list" where
  "demo_events =
     [Complete 0 (app_done 0), Enqueue (leaf_work 0) LeafProve, Complete 1 (app_done 1),
      Enqueue (leaf_work 1) LeafProve, Complete 0 (app_done 2), Enqueue (leaf_work 2) LeafProve,
      Segments 3]"

lemma demo_stack_ready: "stack_ready demo_stack"
  by code_simp

lemma demo_events_fault_free: "fault_free ''p1'' demo_events (fresh_state demo_stack 48 1)"
  by code_simp

section \<open>Properties\<close>

text \<open>C7. Work is conserved: over any sequence of scheduler calls, faulty ones included, the requests
  handed to workers together with those still queued are exactly the requests enqueued: none is lost
  and none is dispatched twice.\<close>

theorem work_conserved:
  "mset (pending_items (fst (sched_run u es (fresh_state ws thr mx)))) +
   mset (map aw_item (snd (sched_run u es (fresh_state ws thr mx)))) =
   mset (concat (map event_items es))"
proof -
  have "pending_ok (fresh_state ws thr mx)" "pending_items (fresh_state ws thr mx) = []"
    by (simp_all add: fresh_state_def edge_proof_state_new_def pending_ok_def wq.ok_empty wq.items_empty)
  then show ?thesis
    unfolding sched_run_pool using pool.run_conserves [of "fresh_state ws thr mx" u es] by simp
qed

text \<open>C27. Slot discipline: in a fault-free run the slot count of every worker is the number of steps it
  runs, at most the leaf capacity (and one in any case); each step fits the worker's role; and a worker
  that holds its app slot or runs the EVM step runs nothing else.\<close>

theorem slot_discipline:
  assumes "stack_ready ws" "fault_free u es (fresh_state ws thr mx)"
    "w \<in> set (es_workers (fst (sched_run u es (fresh_state ws thr mx))))"
  shows "ws_active_proof_count w = length (ws_active_proofs w) \<and>
    ws_active_proof_count w \<le> max 1 (es_max_leaf_provers (fst (sched_run u es (fresh_state ws thr mx)))) \<and>
    list_all (\<lambda>p. role_fits (ws_worker_role w) (ap_step p)) (ws_active_proofs w) \<and>
    (runs_step EvmProve w \<or> runs_step ShardedAppProve w \<longrightarrow> length (ws_active_proofs w) = 1)"
  using fault_free_inv [OF assms(1,2)] assms(3)
  by (auto simp: sched_inv_def sched_core_def worker_inv_def list_all_iff)

theorem slot_discipline_witness:
  "let w = es_workers (fst (sched_run ''p1'' demo_events (fresh_state demo_stack 48 1))) ! 0
   in ws_active_proof_count w = length (ws_active_proofs w) \<and>
      list_all (\<lambda>p. role_fits (ws_worker_role w) (ap_step p)) (ws_active_proofs w)"
proof -
  let ?ws = "es_workers (fst (sched_run ''p1'' demo_events (fresh_state demo_stack 48 1)))"
  have "length ?ws = 3" by code_simp
  then have "?ws ! 0 \<in> set ?ws" by (intro nth_mem) simp
  from slot_discipline [OF demo_stack_ready demo_events_fault_free this] show ?thesis by (simp add: Let_def)
qed

text \<open>App slots: in a fault-free run a worker holds its app slot exactly while it may still have a
  segment to prove: before the segment count is known, every STARK-proving worker; afterwards, the
  workers that own a segment not yet reported. So the app phase ends, whatever the order in which the
  segment count and the app results arrive.\<close>

theorem app_slot_iff_segments_missing:
  assumes "stack_ready ws" "fault_free u es (fresh_state ws thr mx)"
    "sched_run u es (fresh_state ws thr mx) = (s, out)" "w \<in> set (es_workers s)"
  shows "runs_step ShardedAppProve w \<longleftrightarrow> runs_stark_proving (ws_worker_role w) \<and>
    (case es_num_segments s of
       None \<Rightarrow> True
     | Some t \<Rightarrow> \<exists>seg. seg < t \<and> seg mod es_num_workers s = ws_id w \<and> seg \<notin> set (ws_completed_segments w))"
proof -
  have "sched_inv s" using fault_free_inv [OF assms(1,2)] assms(3) by simp
  then show ?thesis using assms(4)
    by (cases "es_num_segments s") (auto simp: sched_inv_def sched_core_def worker_inv_def owned_def)
qed

theorem app_slot_iff_segments_missing_witness:
  "list_all (\<lambda>w. \<not> runs_step ShardedAppProve w)
     (es_workers (fst (sched_run ''p1'' demo_events (fresh_state demo_stack 48 1))))"
proof -
  let ?s = "fst (sched_run ''p1'' demo_events (fresh_state demo_stack 48 1))"
  have run: "sched_run ''p1'' demo_events (fresh_state demo_stack 48 1) =
      (?s, snd (sched_run ''p1'' demo_events (fresh_state demo_stack 48 1)))" by simp
  have three: "es_num_segments ?s = Some 3" by code_simp
  have all: "list_all (\<lambda>w. list_all (\<lambda>seg. seg mod es_num_workers ?s = ws_id w \<longrightarrow>
      seg \<in> set (ws_completed_segments w)) [0, 1, 2]) (es_workers ?s)" by code_simp
  have lt: "seg = 0 \<or> seg = 1 \<or> seg = 2" if "seg < 3" for seg :: nat using that by auto
  have "\<not> runs_step ShardedAppProve w" if w: "w \<in> set (es_workers ?s)" for w
  proof
    assume "runs_step ShardedAppProve w"
    then obtain seg where "seg < 3" "seg mod es_num_workers ?s = ws_id w" "seg \<notin> set (ws_completed_segments w)"
      using app_slot_iff_segments_missing [OF demo_stack_ready demo_events_fault_free run w]
      unfolding three option.case by blast
    moreover have "list_all (\<lambda>seg. seg mod es_num_workers ?s = ws_id w \<longrightarrow>
        seg \<in> set (ws_completed_segments w)) [0, 1, 2]"
      using all w unfolding list_all_iff by blast
    ultimately show False using lt [of seg] by auto
  qed
  then show ?thesis by (simp add: list_all_iff)
qed

text \<open>C28. Progress: in a fault-free run work waits only while some worker is busy, so a completion that
  dispatches it is still to come; a drained proof has nothing left in its queue.\<close>

theorem no_stalled_work:
  assumes "stack_ready ws" "fault_free u es (fresh_state ws thr mx)"
    "all_idle (fst (sched_run u es (fresh_state ws thr mx)))"
  shows "pending_items (fst (sched_run u es (fresh_state ws thr mx))) = []"
proof -
  let ?s = "fst (sched_run u es (fresh_state ws thr mx))"
  have inv: "sched_inv ?s" by (rule fault_free_inv [OF assms(1,2)])
  then have "\<not> some_busy ?s"
    using assms(3) core_worker [of ?s]
    by (auto simp: some_busy_def all_idle_def list_all_iff sched_inv_def worker_inv_def)
  then show ?thesis using inv by (auto simp: sched_inv_def)
qed

theorem no_stalled_work_witness:
  "pending_items (fst (sched_run ''p1'' [Segments 0] (fresh_state demo_stack 48 1))) = []"
  by (rule no_stalled_work [OF demo_stack_ready]) code_simp+

text \<open>The drain after the segment count leaves nothing behind that a worker could take: in a
  fault-free run, when \<open>drain_pending\<close> returns, no worker accepts any queued request; in particular
  no request at the head of the queue blocks one behind it.\<close>

theorem drain_leaves_nothing_placeable:
  assumes "stack_ready ws" "fault_free u es (fresh_state ws thr mx)"
    "sched_run u es (fresh_state ws thr mx) = (s, out)"
    "x \<in> set (pending_items (fst (drain_pending u s)))"
  shows "choose_worker (fst (drain_pending u s)) (wi_step x) = None"
proof -
  have "sched_inv s" using fault_free_inv [OF assms(1,2)] assms(3) by simp
  then show ?thesis using drain_all_refused [OF _ assms(4)] by (simp add: sched_inv_def)
qed

theorem drain_leaves_nothing_placeable_witness:
  "choose_worker (fst (drain_pending ''p1'' (fst (sched_run ''p1'' demo_events (fresh_state demo_stack 48 1)))))
     LeafProve = None"
proof -
  let ?r = "sched_run ''p1'' demo_events (fresh_state demo_stack 48 1)"
  let ?x = "\<lparr>wi_envelope = leaf_work 2, wi_step = LeafProve\<rparr>"
  have "pending_items (fst (drain_pending ''p1'' (fst ?r))) = [?x]" by code_simp
  then have "?x \<in> set (pending_items (fst (drain_pending ''p1'' (fst ?r))))" by simp
  from drain_leaves_nothing_placeable [OF demo_stack_ready demo_events_fault_free _ this, of "snd ?r"]
  show ?thesis by simp
qed

text \<open>In a fault-free run no scheduler call fails: every completion of a worker and the segment count
  are processed without an error and without a division by zero.\<close>

theorem scheduler_calls_succeed:
  assumes "stack_ready ws" "fault_free u es (fresh_state ws thr mx)"
    "sched_run u es (fresh_state ws thr mx) = (s, out)"
  shows "(enabled (Complete wid res) s \<longrightarrow> is_ok (snd (complete_work u wid res s))) \<and>
    (enabled (Segments n) s \<longrightarrow> is_ok (snd (set_segments u n s)))"
proof -
  have "sched_inv s" using fault_free_inv [OF assms(1,2)] assms(3) by simp
  then show ?thesis using complete_work_inv(2) [of s wid res u] set_segments_inv(2) [of s n u]
    by (metis is_ok_simps(1))
qed

theorem scheduler_calls_succeed_witness:
  "is_ok (snd (complete_work ''p1'' 0 leaf_done
     (fst (sched_run ''p1'' demo_events (fresh_state demo_stack 48 1)))))"
proof -
  let ?r = "sched_run ''p1'' demo_events (fresh_state demo_stack 48 1)"
  have "enabled (Complete 0 leaf_done) (fst ?r)" by code_simp
  then show ?thesis
    using scheduler_calls_succeed [OF demo_stack_ready demo_events_fault_free, of "fst ?r" "snd ?r" 0 leaf_done]
    by simp
qed

text \<open>The constant-time completion test agrees with the ownership rule: for a worker of the
  app-eligible set that has reported distinct segments below the total, the test succeeds exactly when
  every segment the rule assigns to it has been reported.\<close>

theorem completion_test_is_ownership:
  assumes "i < n" "distinct segs" "list_all (\<lambda>seg. seg < t) segs"
  shows "worker_completed_all_segments i segs n (Some t) =
    Ok (\<forall>seg < t. seg mod n = i \<longrightarrow> seg \<in> set segs)"
proof -
  have "set segs \<subseteq> {..<t}" using assms(3) by (auto simp: list_all_iff)
  moreover have "(owned t n i \<subseteq> set segs) = (\<forall>seg < t. seg mod n = i \<longrightarrow> seg \<in> set segs)"
    by (auto simp: owned_def)
  ultimately show ?thesis using completed_all_iff [OF assms(1,2)] by simp
qed

theorem completion_test_is_ownership_witness:
  "worker_completed_all_segments 1 [4, 1] 3 (Some 6) = Ok True"
proof -
  have "seg < 6 \<Longrightarrow> seg mod 3 = 1 \<Longrightarrow> seg = 1 \<or> seg = 4" for seg :: nat by presburger
  then have "\<forall>seg < 6. seg mod 3 = 1 \<longrightarrow> seg \<in> set [4, 1 :: nat]" by auto
  then show ?thesis using completion_test_is_ownership [of 1 3 "[4, 1]" 6] by simp
qed

text \<open>Completions are not idempotent: a leaf result delivered twice releases two slots of a worker
  that runs two leaves; and a result of a step the worker does not run releases a slot too, so the worker
  counts as idle, and its proof as drained, while a leaf still runs.\<close>

theorem duplicate_completion_frees_busy_worker:
  "let s0 = fst (sched_run ''p1''
        [Segments 0, Enqueue (leaf_work 0) LeafProve, Enqueue (leaf_work 1) LeafProve,
         Enqueue (leaf_work 2) LeafProve]
        (fresh_state [(0, \<lparr>rw_worker_url = ''a'', rw_last_seen = 0, rw_worker_role = Full\<rparr>)] 48 2));
       s1 = fst (apply_completion ''p1'' 0 leaf_done (fst (apply_completion ''p1'' 0 leaf_done s0)));
       s2 = fst (apply_completion ''p1'' 0
              (InternalRes sched_context \<lparr>ips_proof = None, ips_layer_idx = 0, ips_segment_start = 0,
                 ips_segment_end = 0, ips_prove_time_ms = 0, ips_compression_time_ms = 0, ips_sub_metrics = [],
                 ips_deferral_merkle_proofs_bytes = None, ips_ready_for_evm = False\<rparr>)
              (fst (apply_completion ''p1'' 0 leaf_done s0)))
   in map ws_active_proof_count (es_workers s0) = [2] \<and>
      map ws_active_proof_count (es_workers s1) = [0] \<and>
      all_idle s2 \<and> map (\<lambda>w. map ap_step (ws_active_proofs w)) (es_workers s2) = [[LeafProve]]"
  by code_simp

text \<open>The packing choice for leaves does not apply the isolation rule of \<open>can_accept_work\<close>: a worker
  that runs the EVM step is refused a leaf by that rule but chosen by the packing branch.\<close>

theorem leaf_packing_ignores_evm_isolation:
  "let w = \<lparr>ws_id = 0, ws_worker_url = ''a'', ws_worker_role = Full, ws_active_proof_count = 1,
            ws_active_proofs = [\<lparr>ap_step = EvmProve, ap_layer_idx = None\<rparr>], ws_completed_segments = []\<rparr>
   in \<not> can_accept_work w LeafProve 2 \<and> find_best_worker_for_leaf [w] 0 48 2 = Some 0"
  by code_simp

end
