(* ===== verification/Worker_Config.thy ===== *)
theory Worker_Config
  imports Protocol_Types
begin

text \<open>
  The worker's configuration, \<open>edge-worker/src/config.rs\<close>: the TOML sections, their defaults,
  loading and the role-aware validation. The file system and the TOML decoder are parameters of
  \<open>load\<close>.
\<close>

record worker_server_config =
  wsc_listen_addr :: string

record worker_settings =
  ws_prover_id :: nat
  ws_num_provers :: nat
  ws_worker_url :: "string option"
  ws_manager_url :: string
  ws_worker_role :: worker_role

record artifacts_config =
  ac_artifacts_path :: "string option"
  ac_halo2_pk_path :: "string option"
  ac_enable_deferral :: bool

record worker_provers_config =
  wp_max_app_provers :: nat
  wp_max_leaf_provers :: nat
  wp_max_internal_provers :: nat
  wp_max_root_provers :: nat
  wp_max_halo2_provers :: nat
  wp_default_segment_memory :: "nat option"

record worker_telemetry_config =
  wtl_log_level :: string
  wtl_otlp_endpoint :: "string option"

record worker_config =
  wc_server :: worker_server_config
  wc_worker :: worker_settings
  wc_artifacts :: artifacts_config
  wc_provers :: worker_provers_config
  wc_telemetry :: worker_telemetry_config

definition default_app_provers :: nat where "default_app_provers = 2"
definition default_leaf_provers :: nat where "default_leaf_provers = 2"
definition default_internal_provers :: nat where "default_internal_provers = 1"
definition default_root_provers :: nat where "default_root_provers = 1"
definition default_halo2_provers :: nat where "default_halo2_provers = 1"

lemmas worker_defaults = default_app_provers_def default_leaf_provers_def
  default_internal_provers_def default_root_provers_def default_halo2_provers_def

definition worker_provers_default :: worker_provers_config where
  "worker_provers_default =
     \<lparr>wp_max_app_provers = default_app_provers, wp_max_leaf_provers = default_leaf_provers,
      wp_max_internal_provers = default_internal_provers, wp_max_root_provers = default_root_provers,
      wp_max_halo2_provers = default_halo2_provers, wp_default_segment_memory = None\<rparr>"

definition worker_telemetry_default :: worker_telemetry_config where
  "worker_telemetry_default = \<lparr>wtl_log_level = ''info'', wtl_otlp_endpoint = None\<rparr>"

definition validate_worker_config :: "worker_config \<Rightarrow> unit outcome" where
  "validate_worker_config c =
     (let w = wc_worker c; p = wc_provers c in
      if ws_num_provers w \<le> ws_prover_id w then
        Err (''worker.prover_id ('' @ show_nat (ws_prover_id w) @ '') must be < worker.num_provers ('' @
          show_nat (ws_num_provers w) @ '')'')
      else case ws_worker_role w of
        EvmDedicated \<Rightarrow>
          if wp_max_root_provers p = 0 \<or> wp_max_halo2_provers p = 0 then
            Err (''EvmDedicated worker requires root + halo2 capacity: provers.max_root_provers ('' @
              show_nat (wp_max_root_provers p) @ '') and provers.max_halo2_provers ('' @
              show_nat (wp_max_halo2_provers p) @ '') must both be > 0'')
          else if wp_max_app_provers p \<noteq> 0 \<or> wp_max_leaf_provers p \<noteq> 0 \<or> wp_max_internal_provers p \<noteq> 0 then
            Err (''EvmDedicated worker must set app/leaf/internal capacity to 0 (got app='' @
              show_nat (wp_max_app_provers p) @ '', leaf='' @ show_nat (wp_max_leaf_provers p) @
              '', internal='' @ show_nat (wp_max_internal_provers p) @
              ''); this role runs only root + halo2'')
          else Ok ()
      | _ \<Rightarrow>
          if wp_max_app_provers p = 0 then Err ''provers.max_app_provers must be > 0'' else Ok ())"

definition load_worker_config ::
  "(string \<Rightarrow> string + string) \<Rightarrow> (string \<Rightarrow> string + worker_config) \<Rightarrow> string \<Rightarrow> worker_config outcome" where
  "load_worker_config read_to_string toml_from_str path =
     (case read_to_string path of
        Inl e \<Rightarrow> Err e
      | Inr content \<Rightarrow>
          (case toml_from_str content of
             Inl e \<Rightarrow> Err e
           | Inr config \<Rightarrow> bind_outcome (validate_worker_config config) (\<lambda>_. Ok config)))"

text \<open>\<open>str::replace\<close>: the occurrences are matched from the left and do not overlap.\<close>

function replace_str :: "string \<Rightarrow> string \<Rightarrow> string \<Rightarrow> string" where
  "replace_str pat rep s =
     (if pat = [] \<or> s = [] then s
      else if take (length pat) s = pat then rep @ replace_str pat rep (drop (length pat) s)
      else hd s # replace_str pat rep (tl s))"
  by pat_completeness auto
termination by (relation "measure (\<lambda>(pat, rep, s). length s)") auto

declare replace_str.simps [simp del]

definition effective_worker_url :: "worker_config \<Rightarrow> string" where
  "effective_worker_url c =
     (case ws_worker_url (wc_worker c) of
        Some url \<Rightarrow> url
      | None \<Rightarrow> ''http://'' @ replace_str ''0.0.0.0'' ''127.0.0.1'' (wsc_listen_addr (wc_server c)))"

section \<open>Lemmas\<close>

lemma validated_prover_id: "validate_worker_config c = Ok () \<Longrightarrow> ws_prover_id (wc_worker c) < ws_num_provers (wc_worker c)"
  by (auto simp: validate_worker_config_def Let_def split: if_splits)

lemma validated_dedicated:
  "validate_worker_config c = Ok () \<Longrightarrow> ws_worker_role (wc_worker c) = EvmDedicated \<Longrightarrow>
     wp_max_app_provers (wc_provers c) = 0 \<and> wp_max_leaf_provers (wc_provers c) = 0 \<and>
     wp_max_internal_provers (wc_provers c) = 0 \<and> 0 < wp_max_root_provers (wc_provers c) \<and>
     0 < wp_max_halo2_provers (wc_provers c)"
  by (auto simp: validate_worker_config_def Let_def split: if_splits)

lemma validated_stark:
  "validate_worker_config c = Ok () \<Longrightarrow> runs_stark_proving (ws_worker_role (wc_worker c)) \<Longrightarrow>
     0 < wp_max_app_provers (wc_provers c)"
  by (cases "ws_worker_role (wc_worker c)") (auto simp: validate_worker_config_def Let_def split: if_splits)

end
