(* ===== verification/Recursion_Tree.thy ===== *)
theory Recursion_Tree
  imports Edge_Prelude
begin

text \<open>
  The recursion-plan arithmetic of \<open>edge-manager/src/proof_state/recursion.rs\<close>: the depth loop,
  the per-layer proof counts and the two conversions between an internal-proof index and the first
  segment it covers. The depth loop is a \<open>partial_function\<close>: \<open>None\<close> says that the Rust loop
  does not return a value (it panics on arity 0 and spins for ever on arity 1 with two leaves or
  more); \<open>num_internal_layers\<close> is the total view the result handler uses, which is the loop's value
  whenever there is one.
\<close>

section \<open>Definitions\<close>

partial_function (option) layers_loop :: "nat \<Rightarrow> nat \<Rightarrow> nat \<Rightarrow> nat option" where
  "layers_loop arity nodes layers =
     (if nodes > 1
      then (if arity = 0 then None else layers_loop arity (div_ceil nodes arity) (layers + 1))
      else Some layers)"

declare layers_loop.simps [code]

definition num_internal_layers_for_leaf_count :: "nat \<Rightarrow> nat \<Rightarrow> nat option" where
  "num_internal_layers_for_leaf_count num_leaf_proofs internal_arity =
     (if num_leaf_proofs \<le> 1 then Some 1 else layers_loop internal_arity num_leaf_proofs 0)"

definition num_internal_layers :: "nat \<Rightarrow> nat \<Rightarrow> nat" where
  "num_internal_layers n a =
     (case num_internal_layers_for_leaf_count n a of Some l \<Rightarrow> l | None \<Rightarrow> 0)"

fun layer_count_loop :: "nat \<Rightarrow> nat \<Rightarrow> nat \<Rightarrow> nat" where
  "layer_count_loop internal_arity 0 ret = ret"
| "layer_count_loop internal_arity (Suc k) ret =
     (if ret = 1 then 0 else layer_count_loop internal_arity k (div_ceil ret internal_arity))"

definition num_proofs_at_internal_layer_for_leaf_count :: "nat \<Rightarrow> nat \<Rightarrow> nat \<Rightarrow> nat" where
  "num_proofs_at_internal_layer_for_leaf_count num_leaf_proofs layer_idx internal_arity =
     layer_count_loop internal_arity (Suc layer_idx) num_leaf_proofs"

fun base_loop :: "nat \<Rightarrow> nat \<Rightarrow> nat \<Rightarrow> nat" where
  "base_loop internal_arity 0 base = base"
| "base_loop internal_arity (Suc k) base = base_loop internal_arity k (base * internal_arity)"

definition segment_start_of_internal_proof_for_leaf_count :: "nat \<Rightarrow> nat \<Rightarrow> nat \<Rightarrow> nat \<Rightarrow> nat" where
  "segment_start_of_internal_proof_for_leaf_count leaf_arity internal_arity layer_idx idx =
     idx * base_loop internal_arity layer_idx internal_arity * leaf_arity"

definition segment_start_to_internal_idx_with_batch :: "nat \<Rightarrow> nat \<Rightarrow> nat \<Rightarrow> nat \<Rightarrow> nat" where
  "segment_start_to_internal_idx_with_batch segment_start layer_idx leaf_arity internal_arity =
     segment_start div base_loop internal_arity layer_idx (internal_arity * leaf_arity)"

text \<open>The same two conversions on 64-bit words, with the wrap-around of a release build.\<close>

fun base_loop_w :: "64 word \<Rightarrow> nat \<Rightarrow> 64 word \<Rightarrow> 64 word" where
  "base_loop_w internal_arity 0 base = base"
| "base_loop_w internal_arity (Suc k) base = base_loop_w internal_arity k (base * internal_arity)"

definition segment_start_of_internal_proof_w :: "64 word \<Rightarrow> 64 word \<Rightarrow> nat \<Rightarrow> 64 word \<Rightarrow> 64 word" where
  "segment_start_of_internal_proof_w leaf_arity internal_arity layer_idx idx =
     idx * base_loop_w internal_arity layer_idx internal_arity * leaf_arity"

definition segment_start_to_internal_idx_w :: "64 word \<Rightarrow> nat \<Rightarrow> 64 word \<Rightarrow> 64 word \<Rightarrow> 64 word" where
  "segment_start_to_internal_idx_w segment_start layer_idx leaf_arity internal_arity =
     segment_start div base_loop_w internal_arity layer_idx (internal_arity * leaf_arity)"

section \<open>Depth of the tree\<close>

lemma layers_loop_done [simp]: "nodes \<le> 1 \<Longrightarrow> layers_loop a nodes k = Some k"
  by (simp add: layers_loop.simps)

lemma layers_loop_step:
  "1 < nodes \<Longrightarrow> 0 < a \<Longrightarrow> layers_loop a nodes k = layers_loop a (div_ceil nodes a) (Suc k)"
  by (subst layers_loop.simps) simp

lemma layers_loop_terminates:
  assumes "2 \<le> a"
  shows "\<exists>l. layers_loop a n k = Some (k + l) \<and> n \<le> a ^ l \<and> (\<forall>j < l. a ^ j < n)"
proof (induction n arbitrary: k rule: less_induct)
  case (less n)
  show ?case
  proof (cases "n \<le> 1")
    case True
    then show ?thesis by (intro exI [of _ 0]) simp
  next
    case False
    have a: "0 < a" using assms by simp
    have "div_ceil n a < n" using assms False by (simp add: div_ceil_less)
    from less [OF this, of "Suc k"] obtain l where
      l: "layers_loop a (div_ceil n a) (Suc k) = Some (Suc k + l)"
        "div_ceil n a \<le> a ^ l" "\<forall>j < l. a ^ j < div_ceil n a" by blast
    have "n \<le> a ^ Suc l" using l(2) a by (simp add: div_ceil_le_iff mult.commute)
    moreover have "a ^ j < n" if "j < Suc l" for j
      using that l(3) a False by (cases j) (auto simp: less_div_ceil_iff mult.commute)
    ultimately show ?thesis using l(1) False a
      by (intro exI [of _ "Suc l"]) (simp add: layers_loop_step)
  qed
qed

text \<open>An exponent that is least for \<open>n \<le> a ^ l\<close> is unique.\<close>

lemma least_exponent_unique:
  fixes n a l m :: nat
  assumes "n \<le> a ^ l" "\<forall>j < l. a ^ j < n" "n \<le> a ^ m" "\<forall>j < m. a ^ j < n"
  shows "l = m"
proof (rule linorder_cases [of l m])
  assume "l < m"
  with assms(4) have "a ^ l < n" by simp
  with assms(1) show ?thesis by simp
next
  assume "m < l"
  with assms(2) have "a ^ m < n" by simp
  with assms(3) show ?thesis by simp
qed

lemma num_internal_layers_some:
  assumes "2 \<le> a"
  shows "num_internal_layers_for_leaf_count n a = Some (num_internal_layers n a)"
  using layers_loop_terminates [OF assms, of n 0]
  by (auto simp: num_internal_layers_def num_internal_layers_for_leaf_count_def)

lemma num_internal_layers_le1 [simp]: "n \<le> 1 \<Longrightarrow> num_internal_layers n a = 1"
  by (simp add: num_internal_layers_def num_internal_layers_for_leaf_count_def)

lemma num_internal_layers_spec:
  assumes "2 \<le> a" "1 < n"
  shows "n \<le> a ^ num_internal_layers n a" "\<forall>j < num_internal_layers n a. a ^ j < n"
  using layers_loop_terminates [OF assms(1), of n 0] assms(2)
  by (auto simp: num_internal_layers_def num_internal_layers_for_leaf_count_def)

lemma num_internal_layers_eqI:
  assumes "2 \<le> a" "1 < n" "n \<le> a ^ l" "\<forall>j < l. a ^ j < n"
  shows "num_internal_layers n a = l"
  using num_internal_layers_spec [OF assms(1,2)] assms(3,4) by (blast intro: least_exponent_unique)

lemma num_internal_layers_pos: "2 \<le> a \<Longrightarrow> 0 < num_internal_layers n a"
proof (cases "n \<le> 1")
  case False
  moreover assume "2 \<le> a"
  ultimately show ?thesis using num_internal_layers_spec(1) [of a n]
    by (cases "num_internal_layers n a") auto
qed simp

lemma layers_loop_arity1: "1 < n \<Longrightarrow> layers_loop 1 n k \<noteq> Some l"
proof
  assume "1 < n" and ret: "layers_loop 1 n k = Some l"
  have "1 < n \<longrightarrow> (1::nat) \<noteq> 1"
  proof (rule layers_loop.raw_induct [where P = "\<lambda>a n k l. 1 < n \<longrightarrow> a \<noteq> 1", OF _ ret])
    fix f a n k l
    assume IH: "\<And>a n k l. f a n k = Some l \<Longrightarrow> 1 < n \<longrightarrow> a \<noteq> (1::nat)"
      and eq: "(if n > 1 then (if a = 0 then None else f a (div_ceil n a) (k + 1)) else Some k)
               = Some l"
    show "1 < n \<longrightarrow> a \<noteq> 1"
    proof (intro impI notI)
      assume n: "1 < n" and a: "a = 1"
      with eq have "f 1 n (k + 1) = Some l" by simp
      from IH [OF this] n show False by simp
    qed
  qed
  with \<open>1 < n\<close> show False by simp
qed

section \<open>Proofs per layer\<close>

lemma layer_count_loop_closed:
  assumes "2 \<le> a" "1 < n" "\<forall>j < k. a ^ j < n"
  shows "layer_count_loop a k n = div_ceil n (a ^ k)"
  using assms(2,3)
proof (induction k arbitrary: n)
  case (Suc k)
  have a: "0 < a" using assms(1) by simp
  have n1: "n \<noteq> Suc 0" using Suc.prems by simp
  show ?case
  proof (cases "k = 0")
    case False
    have le: "\<forall>j < k. a ^ j < div_ceil n a"
      using Suc.prems(2) a by (auto simp: less_div_ceil_iff mult.commute)
    have "1 < div_ceil n a" using le False by (metis gr0I power_0)
    from Suc.IH [OF this le] show ?thesis
      using n1 a by (simp add: div_ceil_div_ceil)
  qed (simp add: n1)
qed simp

lemma num_proofs_at_closed:
  assumes "2 \<le> a" "1 < n" "k < num_internal_layers n a"
  shows "num_proofs_at_internal_layer_for_leaf_count n k a = div_ceil n (a ^ Suc k)"
  unfolding num_proofs_at_internal_layer_for_leaf_count_def
  using assms num_internal_layers_spec(2) [OF assms(1,2)]
  by (intro layer_count_loop_closed) auto

lemma num_proofs_at_single [simp]: "num_proofs_at_internal_layer_for_leaf_count (Suc 0) k a = 0"
  by (simp add: num_proofs_at_internal_layer_for_leaf_count_def)

lemma layer_count_loop_add:
  "layer_count_loop a (i + j) n = 0 \<or> layer_count_loop a (i + j) n = layer_count_loop a j (layer_count_loop a i n)"
  by (induction i arbitrary: n) auto

lemma num_proofs_at_beyond:
  assumes "2 \<le> a" "0 < n" "num_internal_layers n a \<le> k"
  shows "num_proofs_at_internal_layer_for_leaf_count n k a = 0"
proof (cases "n = 1")
  case False
  with assms have n: "1 < n" by simp
  let ?l = "num_internal_layers n a"
  have "div_ceil n (a ^ ?l) \<le> 1" "0 < div_ceil n (a ^ ?l)"
    using num_internal_layers_spec(1) [OF assms(1) n] assms(1,2) by (simp_all add: div_ceil_le_iff)
  then have "div_ceil n (a ^ ?l) = 1" by linarith
  then have "layer_count_loop a ?l n = 1"
    using layer_count_loop_closed [OF assms(1) n] num_internal_layers_spec(2) [OF assms(1) n] by simp
  moreover obtain j where "Suc k = ?l + Suc j"
    using assms(3) by (metis Suc_le_mono add_Suc_right le_iff_add)
  ultimately show ?thesis
    using layer_count_loop_add [of a ?l "Suc j" n]
    by (simp add: num_proofs_at_internal_layer_for_leaf_count_def)
qed simp

lemma num_proofs_at_eq:
  assumes "2 \<le> a" "0 < n"
  shows "num_proofs_at_internal_layer_for_leaf_count n k a =
     (if n \<noteq> 1 \<and> k < num_internal_layers n a then div_ceil n (a ^ Suc k) else 0)"
  using assms num_proofs_at_closed [of a n k] num_proofs_at_beyond [of a n k] by auto

section \<open>Index conversions\<close>

lemma base_loop_closed [simp]: "base_loop a k b = b * a ^ k"
  by (induction k arbitrary: b) (simp_all add: mult.assoc)

lemma base_loop_w_closed: "base_loop_w a k b = b * a ^ k"
  by (induction k arbitrary: b) (simp_all add: mult.assoc)

lemma segment_start_closed:
  "segment_start_of_internal_proof_for_leaf_count la a k idx = idx * (a ^ Suc k * la)"
  by (simp add: segment_start_of_internal_proof_for_leaf_count_def mult.assoc)

lemma internal_idx_closed:
  "segment_start_to_internal_idx_with_batch s k la a = s div (a ^ Suc k * la)"
  by (simp add: segment_start_to_internal_idx_with_batch_def mult.assoc mult.left_commute
        mult.commute [of la])

lemma unat_segment_start_w:
  "unat (segment_start_of_internal_proof_w la a k idx) =
   (unat idx * (unat a ^ Suc k * unat la)) mod 2 ^ 64"
proof -
  have "segment_start_of_internal_proof_w la a k idx =
      word_of_nat (unat idx * (unat a ^ Suc k * unat la))"
    by (simp add: segment_start_of_internal_proof_w_def base_loop_w_closed mult.assoc)
  then show ?thesis by (simp only: unat_of_nat) simp
qed

lemma unat_base_w:
  fixes a la :: "64 word"
  shows "unat (a * la * a ^ k) = (unat a ^ Suc k * unat la) mod 2 ^ 64"
proof -
  have "a * la * a ^ k = word_of_nat (unat a ^ Suc k * unat la)"
    by (simp add: mult.assoc mult.commute [of la])
  then show ?thesis by (simp only: unat_of_nat) simp
qed

section \<open>Properties\<close>

text \<open>C36. Depth of the tree: with an internal fan-in of at least two the depth loop returns; for two
  leaves or more its value is the least \<open>l\<close> with \<open>num_leaf_proofs \<le> internal_arity ^ l\<close>, and for at
  most one leaf it is one layer.\<close>

theorem num_internal_layers_least:
  assumes "2 \<le> internal_arity"
  shows "\<exists>l. num_internal_layers_for_leaf_count n internal_arity = Some l \<and>
     (if n \<le> 1 then l = 1
      else n \<le> internal_arity ^ l \<and> (\<forall>k < l. internal_arity ^ k < n))"
  using num_internal_layers_some [OF assms, of n] num_internal_layers_spec [OF assms, of n]
  by (cases "n \<le> 1") auto

theorem num_internal_layers_least_witness:
  "num_internal_layers_for_leaf_count 10 3 = Some 3"
proof -
  obtain l where l: "num_internal_layers_for_leaf_count 10 3 = Some l" "(10::nat) \<le> 3 ^ l"
      "\<forall>k < l. 3 ^ k < (10::nat)"
    using num_internal_layers_least [of 3 10] by auto
  have "l = 3" by (rule least_exponent_unique [OF l(2,3)]) (auto simp: numeral_3_eq_3 less_Suc_eq)
  then show ?thesis using l(1) by simp
qed

text \<open>A fan-in of one: for two leaves or more the depth loop never returns a value.\<close>

theorem num_internal_layers_arity_one_diverges:
  assumes "2 \<le> n"
  shows "num_internal_layers_for_leaf_count n 1 = None"
  using assms layers_loop_arity1 [of n 0]
  by (cases "layers_loop 1 n 0") (auto simp: num_internal_layers_for_leaf_count_def)

theorem num_internal_layers_arity_one_diverges_witness:
  "num_internal_layers_for_leaf_count 2 1 = None"
  by (rule num_internal_layers_arity_one_diverges) simp

text \<open>The number of proofs at each layer of the tree is the leaf count divided, rounding up, by
  the fan-in to the power of the layer, and the last layer has one proof (a single leaf has no
  internal proof below the wrap).\<close>

theorem layer_counts_single_root:
  assumes "2 \<le> a" "0 < n"
  shows "(\<forall>k < num_internal_layers n a. num_proofs_at_internal_layer_for_leaf_count n k a =
            (if n = 1 then 0 else div_ceil n (a ^ Suc k))) \<and>
         num_proofs_at_internal_layer_for_leaf_count n (num_internal_layers n a - 1) a =
            (if n = 1 then 0 else 1)"
proof (cases "n = 1")
  case False
  with assms have n: "1 < n" by simp
  let ?l = "num_internal_layers n a"
  have l: "0 < ?l" using assms(1) by (rule num_internal_layers_pos)
  have "div_ceil n (a ^ ?l) \<le> 1" using num_internal_layers_spec(1) [OF assms(1) n] assms
    by (simp add: div_ceil_le_iff)
  moreover have "0 < div_ceil n (a ^ ?l)" using assms by simp
  ultimately have "div_ceil n (a ^ ?l) = 1" by simp
  then have "num_proofs_at_internal_layer_for_leaf_count n (?l - 1) a = 1"
    using num_proofs_at_closed [OF assms(1) n, of "?l - 1"] l by simp
  then show ?thesis using False num_proofs_at_closed [OF assms(1) n] by simp
qed simp

theorem layer_counts_single_root_witness:
  "num_proofs_at_internal_layer_for_leaf_count 10 1 3 = 2 \<and>
   num_proofs_at_internal_layer_for_leaf_count 10 (num_internal_layers 10 3 - 1) 3 = 1"
proof -
  have "1 < num_internal_layers 10 3" by code_simp
  then show ?thesis using layer_counts_single_root [of 3 10] by (simp add: div_ceil_def)
qed

text \<open>Index round trip: the index recovered from the first segment of an internal proof is the
  index it was computed from.\<close>

theorem segment_start_idx_roundtrip:
  assumes "0 < leaf_arity" "0 < internal_arity"
  shows "segment_start_to_internal_idx_with_batch
           (segment_start_of_internal_proof_for_leaf_count leaf_arity internal_arity k idx)
           k leaf_arity internal_arity = idx"
  using assms by (simp add: segment_start_closed internal_idx_closed)

theorem segment_start_idx_roundtrip_witness:
  "segment_start_to_internal_idx_with_batch
     (segment_start_of_internal_proof_for_leaf_count 4 3 2 7) 2 4 3 = 7"
  by (rule segment_start_idx_roundtrip) simp_all

text \<open>On 64-bit words the two conversions compute the unbounded values exactly whenever the
  products stay below \<open>2 ^ 64\<close>, so that the round trip also holds for the machine arithmetic.\<close>

theorem segment_conversions_64bit:
  fixes la a idx s :: "64 word"
  shows "(unat idx * (unat a ^ Suc k * unat la) < 2 ^ 64 \<longrightarrow>
      unat (segment_start_of_internal_proof_w la a k idx) =
      segment_start_of_internal_proof_for_leaf_count (unat la) (unat a) k (unat idx)) \<and>
    (unat a ^ Suc k * unat la < 2 ^ 64 \<longrightarrow>
      unat (segment_start_to_internal_idx_w s k la a) =
      segment_start_to_internal_idx_with_batch (unat s) k (unat la) (unat a))"
  unfolding segment_start_closed internal_idx_closed unat_segment_start_w
    segment_start_to_internal_idx_w_def base_loop_w_closed unat_div unat_base_w
  by (intro conjI impI) (simp_all only: mod_less)

theorem segment_conversions_64bit_witness:
  "unat (segment_start_of_internal_proof_w 4 3 2 7) =
     segment_start_of_internal_proof_for_leaf_count 4 3 2 7 \<and>
   unat (segment_start_to_internal_idx_w 756 2 4 3) =
     segment_start_to_internal_idx_with_batch 756 2 4 3"
  using segment_conversions_64bit [of 7 3 2 4 756] by simp

end
