(* ===== verification/Proof_State.thy ===== *)
theory Proof_State
  imports Protocol_Types Recursion_Tree
begin

text \<open>
  The per-proof state of the manager, \<open>edge-manager/src/proof_state/state.rs\<close>: the status machine,
  the readiness and sealing tests, the timeout and failure transitions, compaction, eviction and
  the lightweight projection. \<open>completion_notifier\<close> is modelled by the number of \<open>notify_waiters\<close>
  calls made so far (\<open>ps_notifications\<close>).
\<close>

section \<open>Internal proof indices\<close>

record internal_proof_index =
  ipi_layer_idx :: nat
  ipi_idx :: nat

definition internal_proof_index_display :: "internal_proof_index \<Rightarrow> string" where
  "internal_proof_index_display i = show_nat (ipi_layer_idx i) @ '':'' @ show_nat (ipi_idx i)"

fun split_once :: "char \<Rightarrow> string \<Rightarrow> (string \<times> string) option" where
  "split_once c [] = None"
| "split_once c (x # xs) =
     (if x = c then Some ([], xs) else map_option (\<lambda>(l, r). (x # l, r)) (split_once c xs))"

definition internal_proof_index_from_str :: "string \<Rightarrow> string + internal_proof_index" where
  "internal_proof_index_from_str s =
     (case split_once (CHR '':'') s of
        None \<Rightarrow> Inl (''expected format '' @ quote @ ''layer:idx'' @ quote)
      | Some (layer_str, idx_str) \<Rightarrow>
          (case parse_usize layer_str of
             None \<Rightarrow> Inl ''invalid layer idx''
           | Some layer \<Rightarrow>
               (case parse_usize idx_str of
                  None \<Rightarrow> Inl ''invalid idx''
                | Some idx \<Rightarrow> Inr \<lparr>ipi_layer_idx = layer, ipi_idx = idx\<rparr>)))"

section \<open>Status and state\<close>

datatype proof_status = InProgress | Completed | Failing string | Failed string | Canceled

fun status_as_str :: "proof_status \<Rightarrow> string" where
  "status_as_str InProgress = ''in_progress''"
| "status_as_str Completed = ''completed''"
| "status_as_str (Failing _) = ''failing''"
| "status_as_str (Failed _) = ''failed''"
| "status_as_str Canceled = ''canceled''"

record proof_state =
  ps_context :: proof_context
  ps_status :: proof_status
  ps_cost_limit :: nat
  ps_num_workers :: nat
  ps_num_segments :: "nat option"
  ps_num_instructions :: "nat option"
  ps_leaf_arity :: nat
  ps_internal_arity :: nat
  ps_timeout_secs :: nat
  ps_execute_e2_state :: "execute_e2_state option"
  ps_proof_start_time :: instant
  ps_e2e_latency_ms :: "nat option"
  ps_proving_started_at :: "instant option"
  ps_proving_latency_ms :: "nat option"
  ps_app_prove_started_at :: "instant option"
  ps_app_prove_ended_at :: "instant option"
  ps_leaf_prove_started_at :: "instant option"
  ps_leaf_prove_ended_at :: "instant option"
  ps_internal_prove_started_at :: "instant option"
  ps_internal_prove_ended_at :: "instant option"
  ps_app_proofs :: "(nat, app_proof_state) hmap"
  ps_leaf_proofs :: "(nat, leaf_proof_state) hmap"
  ps_internal_proofs :: "(internal_proof_index, internal_proof_state) hmap"
  ps_evm_proof :: "evm_proof_state option"
  ps_last_updated :: instant
  ps_notifications :: nat
  ps_persisted_final_proof_path :: "string option"
  ps_persisted_leaf_failure_app_proofs_path :: "string option"
  ps_last_error_result :: "error_result option"
  ps_late_result_notice_emitted :: bool
  ps_deferral_circuit_count :: nat
  ps_deferral_final_merkle_path_bytes :: "bytes option"
  ps_deferral_depth0_merkle_proofs_bytes :: "bytes option"

definition proof_state_new ::
  "proof_context \<Rightarrow> nat \<Rightarrow> nat \<Rightarrow> nat \<Rightarrow> nat \<Rightarrow> nat \<Rightarrow> instant \<Rightarrow> proof_state" where
  "proof_state_new ctx cost_limit num_workers leaf_arity internal_arity timeout_secs now =
     \<lparr>ps_context = ctx,
      ps_status = InProgress,
      ps_cost_limit = cost_limit,
      ps_num_workers = num_workers,
      ps_num_segments = None,
      ps_num_instructions = None,
      ps_leaf_arity = leaf_arity,
      ps_internal_arity = internal_arity,
      ps_timeout_secs = timeout_secs,
      ps_execute_e2_state = None,
      ps_proof_start_time = now,
      ps_e2e_latency_ms = None,
      ps_proving_started_at = None,
      ps_proving_latency_ms = None,
      ps_app_prove_started_at = None,
      ps_app_prove_ended_at = None,
      ps_leaf_prove_started_at = None,
      ps_leaf_prove_ended_at = None,
      ps_internal_prove_started_at = None,
      ps_internal_prove_ended_at = None,
      ps_app_proofs = [],
      ps_leaf_proofs = [],
      ps_internal_proofs = [],
      ps_evm_proof = None,
      ps_last_updated = now,
      ps_notifications = 0,
      ps_persisted_final_proof_path = None,
      ps_persisted_leaf_failure_app_proofs_path = None,
      ps_last_error_result = None,
      ps_late_result_notice_emitted = False,
      ps_deferral_circuit_count = 0,
      ps_deferral_final_merkle_path_bytes = None,
      ps_deferral_depth0_merkle_proofs_bytes = None\<rparr>"

definition notify_completion :: "proof_state \<Rightarrow> proof_state" where
  "notify_completion s = s\<lparr>ps_notifications := Suc (ps_notifications s)\<rparr>"

section \<open>Readiness and sealing\<close>

text \<open>The slot of the final internal proof, \<open>num_internal_layers.max(2) - 1\<close>.\<close>

definition effective_final_layer :: "proof_state \<Rightarrow> nat \<Rightarrow> nat" where
  "effective_final_layer s num_segments =
     (let num_leaf_proofs = div_ceil num_segments (ps_leaf_arity s);
          num_layers = num_internal_layers num_leaf_proofs (ps_internal_arity s)
      in max num_layers 2 - 1)"

definition final_internal_state :: "proof_state \<Rightarrow> internal_proof_state option" where
  "final_internal_state s =
     (case ps_num_segments s of
        None \<Rightarrow> None
      | Some n \<Rightarrow> map_of (ps_internal_proofs s)
          \<lparr>ipi_layer_idx = effective_final_layer s n, ipi_idx = 0\<rparr>)"

definition final_internal_proof_present :: "proof_state \<Rightarrow> bool" where
  "final_internal_proof_present s =
     (case ps_num_segments s of
        Some n \<Rightarrow> map_of (ps_internal_proofs s)
          \<lparr>ipi_layer_idx = effective_final_layer s n, ipi_idx = 0\<rparr> \<noteq> None
      | None \<Rightarrow> False)"

definition is_ready_for_finalization :: "proof_state \<Rightarrow> bool" where
  "is_ready_for_finalization s =
     (case pc_proof_type (ps_context s) of
        Stark \<Rightarrow> final_internal_proof_present s
      | Evm \<Rightarrow> Option.bind (ps_evm_proof s) eps_proof \<noteq> None)"

definition is_sealed_for_results :: "proof_state \<Rightarrow> bool" where
  "is_sealed_for_results s \<longleftrightarrow> ps_status s \<noteq> InProgress \<or> is_ready_for_finalization s"

section \<open>Failure transitions\<close>

text \<open>\<open>num_seconds\<close> and \<open>num_milliseconds\<close> of a \<open>chrono::Duration\<close> truncate towards zero.\<close>

definition trunc_div :: "int \<Rightarrow> int \<Rightarrow> int" where
  "trunc_div a b = sgn a * (\<bar>a\<bar> div b)"

definition num_seconds :: "int \<Rightarrow> int" where
  "num_seconds d = trunc_div d 1000000000"

definition num_milliseconds :: "int \<Rightarrow> int" where
  "num_milliseconds d = trunc_div d 1000000"

definition is_timed_out :: "proof_state \<Rightarrow> instant \<Rightarrow> bool" where
  "is_timed_out s now =
     (if is_sealed_for_results s then False
      else let elapsed = num_seconds (now - ps_proof_start_time s)
           in elapsed > 0 \<and> nat elapsed > ps_timeout_secs s)"

definition mark_timed_out :: "proof_state \<Rightarrow> proof_state" where
  "mark_timed_out s =
     (if is_sealed_for_results s then s
      else let reason = ''timed out after '' @ show_nat (ps_timeout_secs s) @ ''s'';
               err = \<lparr>er_context = ps_context s, er_step = ''timeout'', er_error = reason\<rparr>
           in notify_completion (s\<lparr>ps_last_error_result := Some err, ps_status := Failing reason\<rparr>))"

definition mark_failing :: "string \<Rightarrow> proof_state \<Rightarrow> proof_state" where
  "mark_failing reason s =
     (if is_sealed_for_results s then s
      else let err = \<lparr>er_context = ps_context s, er_step = ''failing'', er_error = reason\<rparr>
           in notify_completion (s\<lparr>ps_last_error_result := Some err, ps_status := Failing reason\<rparr>))"

definition transition_failing_to_failed :: "proof_state \<Rightarrow> proof_state" where
  "transition_failing_to_failed s =
     (case ps_status s of Failing reason \<Rightarrow> s\<lparr>ps_status := Failed reason\<rparr> | _ \<Rightarrow> s)"

section \<open>Retrieval, compaction, projection, eviction\<close>

text \<open>\<open>proof::decode_proof\<close> is the parameter \<open>decode\<close>.\<close>

definition get_stark_proof :: "(bytes \<Rightarrow> string + 'p) \<Rightarrow> proof_state \<Rightarrow> 'p option" where
  "get_stark_proof decode s =
     (if ps_status s \<noteq> Completed then None
      else case Option.bind (final_internal_state s) ips_proof of
        None \<Rightarrow> None
      | Some b \<Rightarrow> (case decode b of Inl _ \<Rightarrow> None | Inr p \<Rightarrow> Some p))"

definition get_evm_proof :: "proof_state \<Rightarrow> bytes option" where
  "get_evm_proof s =
     (if ps_status s \<noteq> Completed then None else Option.bind (ps_evm_proof s) eps_proof)"

fun status_compactable :: "proof_status \<Rightarrow> bool" where
  "status_compactable Completed = True"
| "status_compactable (Failed _) = True"
| "status_compactable Canceled = True"
| "status_compactable InProgress = False"
| "status_compactable (Failing _) = False"

definition compact_completed_state :: "proof_state \<Rightarrow> proof_state" where
  "compact_completed_state s =
     (if \<not> status_compactable (ps_status s) then s
      else s\<lparr>ps_app_proofs := map (\<lambda>(k, v). (k, v\<lparr>aps_proof := None\<rparr>)) (ps_app_proofs s),
             ps_leaf_proofs := map (\<lambda>(k, v). (k, v\<lparr>lps_proof := None\<rparr>)) (ps_leaf_proofs s),
             ps_internal_proofs := map (\<lambda>(k, v). (k, v\<lparr>ips_proof := None\<rparr>)) (ps_internal_proofs s),
             ps_execute_e2_state :=
               map_option (\<lambda>e. e\<lparr>e2_segments := []\<rparr>) (ps_execute_e2_state s)\<rparr>)"

record lightweight_proof_state =
  lw_proof_uuid :: string
  lw_program :: program_ref
  lw_status :: proof_status
  lw_num_segments :: "nat option"
  lw_num_instructions :: "nat option"
  lw_proof_start_time :: instant
  lw_e2e_latency_ms :: "nat option"
  lw_proving_latency_ms :: "nat option"
  lw_app_proofs_count :: nat
  lw_leaf_proofs_count :: nat
  lw_internal_proofs_count :: nat
  lw_last_updated :: instant
  lw_execute_time_ms :: "nat option"
  lw_total_app_prove_ms :: "nat option"
  lw_total_leaf_prove_ms :: "nat option"
  lw_total_internal_prove_ms :: "nat option"
  lw_compression_time_ms :: "nat option"
  lw_total_root_prove_ms :: "nat option"
  lw_total_halo2_prove_ms :: "nat option"
  lw_app_prove_started_at :: "instant option"
  lw_app_prove_ended_at :: "instant option"
  lw_leaf_prove_started_at :: "instant option"
  lw_leaf_prove_ended_at :: "instant option"
  lw_internal_prove_started_at :: "instant option"
  lw_internal_prove_ended_at :: "instant option"
  lw_persisted_final_proof_path :: "string option"
  lw_persisted_leaf_failure_app_proofs_path :: "string option"

definition sum_unless_empty :: "('v \<Rightarrow> nat) \<Rightarrow> ('k, 'v) hmap \<Rightarrow> nat option" where
  "sum_unless_empty f m = (if m = [] then None else Some (sum_list (map (f \<circ> snd) m)))"

definition to_lightweight_state :: "proof_state \<Rightarrow> lightweight_proof_state" where
  "to_lightweight_state s =
     \<lparr>lw_proof_uuid = pc_proof_uuid (ps_context s),
      lw_program = pc_program (ps_context s),
      lw_status = ps_status s,
      lw_num_segments = ps_num_segments s,
      lw_num_instructions = ps_num_instructions s,
      lw_proof_start_time = ps_proof_start_time s,
      lw_e2e_latency_ms = ps_e2e_latency_ms s,
      lw_proving_latency_ms = ps_proving_latency_ms s,
      lw_app_proofs_count = length (ps_app_proofs s),
      lw_leaf_proofs_count = length (ps_leaf_proofs s),
      lw_internal_proofs_count = length (ps_internal_proofs s),
      lw_last_updated = ps_last_updated s,
      lw_execute_time_ms = map_option e2_execute_time_ms (ps_execute_e2_state s),
      lw_total_app_prove_ms = sum_unless_empty aps_prove_time_ms (ps_app_proofs s),
      lw_total_leaf_prove_ms = sum_unless_empty lps_prove_time_ms (ps_leaf_proofs s),
      lw_total_internal_prove_ms = sum_unless_empty ips_prove_time_ms (ps_internal_proofs s),
      lw_compression_time_ms = sum_unless_empty ips_compression_time_ms (ps_internal_proofs s),
      lw_total_root_prove_ms = map_option eps_root_prove_time_ms (ps_evm_proof s),
      lw_total_halo2_prove_ms = map_option eps_prove_time_ms (ps_evm_proof s),
      lw_app_prove_started_at = ps_app_prove_started_at s,
      lw_app_prove_ended_at = ps_app_prove_ended_at s,
      lw_leaf_prove_started_at = ps_leaf_prove_started_at s,
      lw_leaf_prove_ended_at = ps_leaf_prove_ended_at s,
      lw_internal_prove_started_at = ps_internal_prove_started_at s,
      lw_internal_prove_ended_at = ps_internal_prove_ended_at s,
      lw_persisted_final_proof_path = ps_persisted_final_proof_path s,
      lw_persisted_leaf_failure_app_proofs_path = ps_persisted_leaf_failure_app_proofs_path s\<rparr>"

definition hours :: "int \<Rightarrow> int" where
  "hours n = n * 3600 * 1000000000"

definition minutes :: "int \<Rightarrow> int" where
  "minutes n = n * 60 * 1000000000"

definition should_evict :: "proof_state \<Rightarrow> instant \<Rightarrow> bool" where
  "should_evict s now =
     (let age = now - ps_last_updated s in
      case ps_status s of
        InProgress \<Rightarrow> \<not> is_ready_for_finalization s \<and> age > hours 10
      | Failing _ \<Rightarrow> False
      | Completed \<Rightarrow> age > minutes 5
      | Failed _ \<Rightarrow> age > minutes 5
      | Canceled \<Rightarrow> age > minutes 5)"

section \<open>Lemmas\<close>

lemma split_once_append: "c \<notin> set xs \<Longrightarrow> split_once c (xs @ c # ys) = Some (xs, ys)"
  by (induction xs) auto

text \<open>The readiness test reads the context, the segment count, the two fan-ins, the internal proofs
  and the EVM artifact, and nothing else.\<close>

lemma is_ready_cong:
  assumes "ps_context s = ps_context t" "ps_num_segments s = ps_num_segments t"
    "ps_leaf_arity s = ps_leaf_arity t" "ps_internal_arity s = ps_internal_arity t"
    "map_of (ps_internal_proofs s) = map_of (ps_internal_proofs t)"
    "ps_evm_proof s = ps_evm_proof t"
  shows "is_ready_for_finalization s = is_ready_for_finalization t"
proof -
  have eff: "effective_final_layer s = effective_final_layer t"
    using assms(3,4) by (intro ext) (simp add: effective_final_layer_def)
  have "final_internal_proof_present s = final_internal_proof_present t"
    unfolding final_internal_proof_present_def assms(2) assms(5) eff by (rule refl)
  then show ?thesis
    unfolding is_ready_for_finalization_def assms(1) assms(6) by (simp split: proof_type.split)
qed

lemma is_ready_frame [simp]:
  "is_ready_for_finalization (s\<lparr>ps_status := st\<rparr>) = is_ready_for_finalization s"
  "is_ready_for_finalization (s\<lparr>ps_notifications := k\<rparr>) = is_ready_for_finalization s"
  "is_ready_for_finalization (s\<lparr>ps_last_updated := t\<rparr>) = is_ready_for_finalization s"
  "is_ready_for_finalization (s\<lparr>ps_last_error_result := e\<rparr>) = is_ready_for_finalization s"
  "is_ready_for_finalization (s\<lparr>ps_late_result_notice_emitted := b\<rparr>) = is_ready_for_finalization s"
  "is_ready_for_finalization (s\<lparr>ps_e2e_latency_ms := l\<rparr>) = is_ready_for_finalization s"
  "is_ready_for_finalization (s\<lparr>ps_proving_latency_ms := l\<rparr>) = is_ready_for_finalization s"
  "is_ready_for_finalization (s\<lparr>ps_proving_started_at := i\<rparr>) = is_ready_for_finalization s"
  "is_ready_for_finalization (s\<lparr>ps_persisted_final_proof_path := q\<rparr>) = is_ready_for_finalization s"
  "is_ready_for_finalization (s\<lparr>ps_persisted_leaf_failure_app_proofs_path := q\<rparr>)
     = is_ready_for_finalization s"
  "is_ready_for_finalization (s\<lparr>ps_deferral_circuit_count := n\<rparr>) = is_ready_for_finalization s"
  by (rule is_ready_cong; simp)+

lemma notify_completion_simps [simp]:
  "ps_status (notify_completion s) = ps_status s"
  "is_ready_for_finalization (notify_completion s) = is_ready_for_finalization s"
  by (simp_all add: notify_completion_def)

lemma not_in_progress_sealed [simp]: "ps_status s \<noteq> InProgress \<Longrightarrow> is_sealed_for_results s"
  by (simp add: is_sealed_for_results_def)

lemma final_present_iff: "final_internal_proof_present s \<longleftrightarrow> final_internal_state s \<noteq> None"
  by (simp add: final_internal_proof_present_def final_internal_state_def split: option.splits)

lemma new_not_sealed [simp]: "\<not> is_sealed_for_results (proof_state_new c l w la ia t now)"
  by (cases "pc_proof_type c")
     (simp_all add: is_sealed_for_results_def is_ready_for_finalization_def
       final_internal_proof_present_def proof_state_new_def)

lemma less_zdiv_iff:
  fixes t d c :: int
  assumes "0 < c"
  shows "t < d div c \<longleftrightarrow> (t + 1) * c \<le> d"
proof -
  have "(d + (- (t + 1)) * c) div c = d div c + (- (t + 1))"
    using assms by (simp only: div_mult_self1)
  with pos_imp_zdiv_nonneg_iff [of c "d + (- (t + 1)) * c"] assms show ?thesis
    by (simp add: algebra_simps) linarith
qed

lemma num_seconds_gt_iff:
  assumes "0 \<le> t"
  shows "num_seconds d > t \<longleftrightarrow> d \<ge> (t + 1) * 1000000000"
proof (cases "d > 0")
  case True
  then have "num_seconds d = d div 1000000000" by (simp add: num_seconds_def trunc_div_def)
  then show ?thesis by (simp only: less_zdiv_iff zero_less_numeral)
next
  case False
  then have "num_seconds d \<le> 0"
    by (cases "d = 0") (auto simp: num_seconds_def trunc_div_def pos_imp_zdiv_nonneg_iff)
  then show ?thesis using False assms by auto
qed

section \<open>Properties\<close>

text \<open>Printing an internal-proof index as \<open>layer:idx\<close>, the key format of the serialised state,
  and parsing it back gives the index, for indices in the range of \<open>usize\<close>.\<close>

theorem internal_proof_index_roundtrip:
  assumes "ipi_layer_idx i < 2 ^ 64" "ipi_idx i < 2 ^ 64"
  shows "internal_proof_index_from_str (internal_proof_index_display i) = Inr i"
  using assms
  by (simp add: internal_proof_index_from_str_def internal_proof_index_display_def
      split_once_append show_nat_no_colon parse_usize_show_nat)

theorem internal_proof_index_roundtrip_witness:
  "internal_proof_index_from_str (internal_proof_index_display \<lparr>ipi_layer_idx = 2, ipi_idx = 13\<rparr>)
     = Inr \<lparr>ipi_layer_idx = 2, ipi_idx = 13\<rparr>"
  by (rule internal_proof_index_roundtrip) simp_all

text \<open>The watchdog test: a proof is timed out exactly when result accumulation is not sealed and
  at least \<open>timeout_secs + 1\<close> whole seconds have passed since it started.\<close>

theorem is_timed_out_iff:
  "is_timed_out s now \<longleftrightarrow> \<not> is_sealed_for_results s \<and>
     now - ps_proof_start_time s \<ge> (int (ps_timeout_secs s) + 1) * 1000000000"
  using num_seconds_gt_iff [of "int (ps_timeout_secs s)" "now - ps_proof_start_time s"]
  by (auto simp: is_timed_out_def Let_def)

text \<open>Failure declarations: \<open>mark_failing\<close> and \<open>mark_timed_out\<close> change nothing once result
  accumulation is sealed; before that they record the error, enter \<open>Failing\<close>, seal the proof, wake
  the waiters once and leave the recursion tree as it is, and only then can the drain move the proof
  to \<open>Failed\<close> with the same reason.\<close>

theorem failure_transitions:
  assumes "t = mark_failing reason s \<or>
    (t = mark_timed_out s \<and> reason = ''timed out after '' @ show_nat (ps_timeout_secs s) @ ''s'')"
  shows "if is_sealed_for_results s then t = s
     else ps_status t = Failing reason \<and> is_sealed_for_results t \<and>
          map_option er_error (ps_last_error_result t) = Some reason \<and>
          ps_notifications t = Suc (ps_notifications s) \<and>
          ps_app_proofs t = ps_app_proofs s \<and> ps_leaf_proofs t = ps_leaf_proofs s \<and>
          ps_internal_proofs t = ps_internal_proofs s \<and>
          ps_status (transition_failing_to_failed t) = Failed reason"
  using assms
  by (auto simp: mark_failing_def mark_timed_out_def Let_def notify_completion_def
      transition_failing_to_failed_def)

theorem failure_transitions_witness:
  "ps_status (mark_failing ''boom''
     (proof_state_new (proof_context_new ''p'' \<lparr>pr_name = ''g'', pr_version = 1\<rparr> []) 9 1 4 3 300 0))
   = Failing ''boom''"
  using failure_transitions [of _ "''boom''"
      "proof_state_new (proof_context_new ''p'' \<lparr>pr_name = ''g'', pr_version = 1\<rparr> []) 9 1 4 3 300 0",
      OF disjI1, OF refl]
  by simp

text \<open>Compaction drops every proof payload of a terminal proof, keeps the slots of the recursion
  tree (so readiness and the API projection are unchanged), and touches no other proof.\<close>

theorem compact_completed_state_projection:
  "to_lightweight_state (compact_completed_state s) = to_lightweight_state s \<and>
   is_ready_for_finalization (compact_completed_state s) = is_ready_for_finalization s \<and>
   (if status_compactable (ps_status s)
    then set (map (aps_proof \<circ> snd) (ps_app_proofs (compact_completed_state s))) \<subseteq> {None} \<and>
         set (map (lps_proof \<circ> snd) (ps_leaf_proofs (compact_completed_state s))) \<subseteq> {None} \<and>
         set (map (ips_proof \<circ> snd) (ps_internal_proofs (compact_completed_state s))) \<subseteq> {None}
    else compact_completed_state s = s)"
proof -
  have sums: "sum_unless_empty f (map (\<lambda>(k, v). (k, g v)) m) = sum_unless_empty f m"
    if "\<And>v. f (g v) = f v" for f :: "'v \<Rightarrow> nat" and g and m :: "('k, 'v) hmap"
    using that by (simp add: sum_unless_empty_def case_prod_unfold comp_def)
  have "to_lightweight_state (compact_completed_state s) = to_lightweight_state s"
    by (simp add: to_lightweight_state_def compact_completed_state_def sums option.map_comp comp_def)
  moreover have "is_ready_for_finalization (compact_completed_state s) = is_ready_for_finalization s"
    by (cases "pc_proof_type (ps_context s)")
       (auto simp: compact_completed_state_def is_ready_for_finalization_def
         final_internal_proof_present_def effective_final_layer_def split: option.splits)
  moreover have "if status_compactable (ps_status s)
    then set (map (aps_proof \<circ> snd) (ps_app_proofs (compact_completed_state s))) \<subseteq> {None} \<and>
         set (map (lps_proof \<circ> snd) (ps_leaf_proofs (compact_completed_state s))) \<subseteq> {None} \<and>
         set (map (ips_proof \<circ> snd) (ps_internal_proofs (compact_completed_state s))) \<subseteq> {None}
    else compact_completed_state s = s"
    by (auto simp: compact_completed_state_def)
  ultimately show ?thesis by blast
qed

end
