(* ===== verification/Proof_Persistence.thy ===== *)
theory Proof_Persistence
  imports Proof_State
begin

text \<open>
  Final-proof and failure-snapshot files, \<open>edge-manager/src/proof_state/persistence.rs\<close>. The disk is
  a map from paths to contents; a fault oracle decides for each system call whether it fails, and a
  failing write may leave arbitrary bytes under the path it was writing. The proof codecs
  (\<open>proof::decode_proof\<close>, \<open>verify_stark\<close>), \<open>zstd\<close> and \<open>bincode\<close> are parameters; what they decode to
  is opaque.
\<close>

section \<open>Disk\<close>

datatype io_op =
  Create_Dir string | Write_File string | Rename_File string string | Path_Exists string | Read_File string

type_synonym disk = "(string, bytes) hmap"
type_synonym io_faults = "io_op \<Rightarrow> (string \<times> bytes option) option"

definition create_dir_all :: "io_faults \<Rightarrow> string \<Rightarrow> unit outcome" where
  "create_dir_all faults dir = (case faults (Create_Dir dir) of Some (e, _) \<Rightarrow> Err e | None \<Rightarrow> Ok ())"

definition write_file :: "io_faults \<Rightarrow> string \<Rightarrow> bytes \<Rightarrow> disk \<Rightarrow> disk \<times> unit outcome" where
  "write_file faults path content d =
     (case faults (Write_File path) of
        Some (e, Some junk) \<Rightarrow> (AList.update path junk d, Err e)
      | Some (e, None) \<Rightarrow> (d, Err e)
      | None \<Rightarrow> (AList.update path content d, Ok ()))"

definition rename_file :: "io_faults \<Rightarrow> string \<Rightarrow> string \<Rightarrow> disk \<Rightarrow> disk \<times> unit outcome" where
  "rename_file faults src dst d =
     (case faults (Rename_File src dst) of
        Some (e, _) \<Rightarrow> (d, Err e)
      | None \<Rightarrow>
          (case map_of d src of
             None \<Rightarrow> (d, Err ''No such file or directory'')
           | Some content \<Rightarrow> (AList.update dst content (AList.delete src d), Ok ())))"

text \<open>\<open>Path::join\<close>.\<close>

definition path_join :: "string \<Rightarrow> string \<Rightarrow> string" where
  "path_join dir name =
     (if name \<noteq> [] \<and> hd name = CHR ''/'' then name
      else if dir = [] then name
      else if last dir = CHR ''/'' then dir @ name
      else dir @ ''/'' @ name)"

section \<open>The leaf failure snapshot\<close>

definition leaf_logup_nonzero_root_sum_error :: string where
  "leaf_logup_nonzero_root_sum_error = ''LogupZerocheck: Fractional sumcheck: nonzero root sum''"

record completed_leaf_batch =
  clb_segment_start :: nat
  clb_segment_end :: nat

record leaf_failure_snapshot =
  lfs_persisted_at :: instant
  lfs_context :: proof_context
  lfs_error :: error_result
  lfs_num_segments :: "nat option"
  lfs_leaf_arity :: nat
  lfs_app_proofs :: "app_proof_state list"
  lfs_completed_leaf_batches :: "completed_leaf_batch list"

text \<open>\<open>str::contains\<close> and \<open>to_ascii_lowercase\<close>.\<close>

definition contains_str :: "string \<Rightarrow> string \<Rightarrow> bool" where
  "contains_str pat s \<longleftrightarrow> list_ex (\<lambda>i. take (length pat) (drop i s) = pat) [0..<Suc (length s)]"

definition to_ascii_lowercase :: "string \<Rightarrow> string" where
  "to_ascii_lowercase =
     map (\<lambda>c. let k = of_char c :: nat in if 65 \<le> k \<and> k \<le> 90 then char_of (k + 32) else c)"

definition is_leaf_logup_nonzero_root_sum_error :: "error_result \<Rightarrow> bool" where
  "is_leaf_logup_nonzero_root_sum_error result =
     (let st = to_ascii_lowercase (er_step result);
          is_leaf_step = contains_str ''leaf'' st \<or> contains_str ''Leaf prove failed:'' (er_error result)
      in is_leaf_step \<and> contains_str leaf_logup_nonzero_root_sum_error (er_error result))"

section \<open>The final proof\<close>

text \<open>The codec of the real build: decode a proof to its inner proof and its user public values,
  decode the deferral merkle proofs, and encode the \<open>VmStarkProof\<close> of the three.\<close>

definition from_sum :: "string + 'a \<Rightarrow> 'a outcome" where
  "from_sum r = (case r of Inr x \<Rightarrow> Ok x | Inl e \<Rightarrow> Err e)"

record stark_codec =
  cd_decode_proof :: "bytes \<Rightarrow> string + (bytes \<times> bytes option)"
  cd_decode_merkle :: "bytes \<Rightarrow> string + bytes"
  cd_encode :: "bytes \<Rightarrow> bytes \<Rightarrow> bytes option \<Rightarrow> string + bytes"

text \<open>\<open>None\<close> is the \<open>mock-provers\<close> build, which keeps the raw proof bytes.\<close>

definition stark_payload :: "stark_codec option \<Rightarrow> proof_state \<Rightarrow> internal_proof_state \<Rightarrow> bytes \<Rightarrow> bytes outcome" where
  "stark_payload codec s final_state proof_bytes =
     (case codec of
        None \<Rightarrow> Ok proof_bytes
      | Some c \<Rightarrow>
          bind_outcome (from_sum (cd_decode_proof c proof_bytes)) (\<lambda>(inner, user_public_values).
            (case user_public_values of
               None \<Rightarrow> Err (''stark proof for '' @ pc_proof_uuid (ps_context s) @
                 '' has no user_public_values; cannot build VmStarkProof'')
             | Some user_pvs_proof \<Rightarrow>
                 (let merkle_bytes = (case ips_deferral_merkle_proofs_bytes final_state of
                        Some mb \<Rightarrow> Some mb | None \<Rightarrow> ps_deferral_depth0_merkle_proofs_bytes s)
                  in bind_outcome
                       (case merkle_bytes of
                          None \<Rightarrow> Ok None
                        | Some mb \<Rightarrow> (case cd_decode_merkle c mb of
                            Inr m \<Rightarrow> Ok (Some m)
                          | Inl e \<Rightarrow> Err (''failed to decode deferral merkle proofs for '' @
                              pc_proof_uuid (ps_context s) @ '': '' @ e)))
                       (\<lambda>deferral_merkle_proofs.
                          case cd_encode c inner user_pvs_proof deferral_merkle_proofs of
                            Inr b \<Rightarrow> Ok b
                          | Inl e \<Rightarrow> Err (''failed to encode VmStarkProof for '' @
                              pc_proof_uuid (ps_context s) @ '': '' @ e))))))"

definition final_proof_payload :: "stark_codec option \<Rightarrow> proof_state \<Rightarrow> (bytes \<times> string) option outcome" where
  "final_proof_payload codec s =
     (if \<not> is_ready_for_finalization s then Ok None
      else case pc_proof_type (ps_context s) of
        Stark \<Rightarrow>
          (case final_internal_state s of
             None \<Rightarrow> Ok None
           | Some final_state \<Rightarrow>
               (case ips_proof final_state of
                  None \<Rightarrow> Ok None
                | Some proof_bytes \<Rightarrow>
                    bind_outcome (stark_payload codec s final_state proof_bytes)
                      (\<lambda>b. Ok (Some (b, ''proof.bin'')))))
      | Evm \<Rightarrow>
          (case Option.bind (ps_evm_proof s) eps_proof of
             None \<Rightarrow> Ok None
           | Some evm_bytes \<Rightarrow> Ok (Some (evm_bytes, ''evm.bin''))))"

text \<open>The write of a file through a temporary name, common to both artifacts.\<close>

definition write_then_rename ::
  "io_faults \<Rightarrow> string \<Rightarrow> string \<Rightarrow> bytes \<Rightarrow> disk \<Rightarrow> disk \<times> unit outcome" where
  "write_then_rename faults temp_path final_path content d =
     (case write_file faults temp_path content d of
        (d1, Ok _) \<Rightarrow> rename_file faults temp_path final_path d1
      | (d1, e) \<Rightarrow> (d1, e))"

definition final_proof_path :: "string \<Rightarrow> string \<Rightarrow> string \<Rightarrow> string" where
  "final_proof_path dir uuid suffix = path_join dir (uuid @ ''.'' @ suffix)"

definition final_proof_temp_path :: "string \<Rightarrow> string \<Rightarrow> string \<Rightarrow> string" where
  "final_proof_temp_path dir uuid suffix = path_join dir (uuid @ ''.'' @ suffix @ ''.tmp'')"

definition persist_final_proof_to_disk ::
  "io_faults \<Rightarrow> stark_codec option \<Rightarrow> (bytes \<Rightarrow> string + bytes) \<Rightarrow> string \<Rightarrow> bool \<Rightarrow> proof_state \<Rightarrow> disk \<Rightarrow>
   proof_state \<times> disk \<times> string option outcome" where
  "persist_final_proof_to_disk faults codec zstd_encode output_dir compress s d =
     (case ps_persisted_final_proof_path s of
        Some path \<Rightarrow> (s, d, Ok (Some path))
      | None \<Rightarrow>
          (case final_proof_payload codec s of
             Err e \<Rightarrow> (s, d, Err e)
           | Panic p \<Rightarrow> (s, d, Panic p)
           | Ok None \<Rightarrow> (s, d, Ok None)
           | Ok (Some (payload, suffix)) \<Rightarrow>
               (case create_dir_all faults output_dir of
                  Err e \<Rightarrow> (s, d, Err e)
                | Panic p \<Rightarrow> (s, d, Panic p)
                | Ok _ \<Rightarrow>
                    (let uuid = pc_proof_uuid (ps_context s);
                         final_path = final_proof_path output_dir uuid suffix;
                         temp_path = final_proof_temp_path output_dir uuid suffix
                     in case (if compress then zstd_encode payload else Inr payload) of
                          Inl e \<Rightarrow> (s, d, Err e)
                        | Inr content \<Rightarrow>
                            (case write_then_rename faults temp_path final_path content d of
                               (d1, Ok _) \<Rightarrow>
                                 (s\<lparr>ps_persisted_final_proof_path := Some final_path\<rparr>, d1, Ok (Some final_path))
                             | (d1, Err e) \<Rightarrow> (s, d1, Err e)
                             | (d1, Panic p) \<Rightarrow> (s, d1, Panic p))))))"

definition should_persist_leaf_failure_app_proofs :: "proof_state \<Rightarrow> bool" where
  "should_persist_leaf_failure_app_proofs s \<longleftrightarrow>
     (case ps_status s of Failed _ \<Rightarrow> True | Failing _ \<Rightarrow> True | _ \<Rightarrow> False) \<and>
     (case ps_last_error_result s of Some e \<Rightarrow> is_leaf_logup_nonzero_root_sum_error e | None \<Rightarrow> False)"

definition leaf_failure_snapshot_of :: "instant \<Rightarrow> error_result \<Rightarrow> proof_state \<Rightarrow> leaf_failure_snapshot" where
  "leaf_failure_snapshot_of now error s =
     \<lparr>lfs_persisted_at = now, lfs_context = ps_context s, lfs_error = error,
      lfs_num_segments = ps_num_segments s, lfs_leaf_arity = ps_leaf_arity s,
      lfs_app_proofs = sort_key aps_segment_idx (map snd (ps_app_proofs s)),
      lfs_completed_leaf_batches = sort_key clb_segment_start
        (map (\<lambda>(_, st). \<lparr>clb_segment_start = lps_segment_start st, clb_segment_end = lps_segment_end st\<rparr>)
          (ps_leaf_proofs s))\<rparr>"

definition persist_leaf_failure_app_proofs_to_disk ::
  "io_faults \<Rightarrow> (leaf_failure_snapshot \<Rightarrow> string + bytes) \<Rightarrow> instant \<Rightarrow> string \<Rightarrow> proof_state \<Rightarrow> disk \<Rightarrow>
   proof_state \<times> disk \<times> string option outcome" where
  "persist_leaf_failure_app_proofs_to_disk faults serialize now output_dir s d =
     (if \<not> should_persist_leaf_failure_app_proofs s then (s, d, Ok None)
      else case ps_persisted_leaf_failure_app_proofs_path s of
        Some path \<Rightarrow> (s, d, Ok (Some path))
      | None \<Rightarrow>
          (case ps_last_error_result s of
             None \<Rightarrow> (s, d, Ok None)
           | Some error \<Rightarrow>
               (case create_dir_all faults output_dir of
                  Err e \<Rightarrow> (s, d, Err e)
                | Panic p \<Rightarrow> (s, d, Panic p)
                | Ok _ \<Rightarrow>
                    (let uuid = pc_proof_uuid (ps_context s);
                         final_path = path_join output_dir (uuid @ ''.leaf-logup.app-proofs.bin'');
                         temp_path = path_join output_dir (uuid @ ''.leaf-logup.app-proofs.bin.tmp'')
                     in case serialize (leaf_failure_snapshot_of now error s) of
                          Inl e \<Rightarrow> (s, d, Err e)
                        | Inr content \<Rightarrow>
                            (case write_then_rename faults temp_path final_path content d of
                               (d1, Ok _) \<Rightarrow>
                                 (s\<lparr>ps_persisted_leaf_failure_app_proofs_path := Some final_path\<rparr>, d1,
                                  Ok (Some final_path))
                             | (d1, Err e) \<Rightarrow> (s, d1, Err e)
                             | (d1, Panic p) \<Rightarrow> (s, d1, Panic p))))))"


section \<open>Paths and writes\<close>

lemma last_path_join: "name \<noteq> [] \<Longrightarrow> last (path_join dir name) = last name"
  by (simp add: path_join_def)

lemma last_of_paths:
  "last (final_proof_temp_path dir u suffix) = CHR ''p''"
  "suffix \<in> {''proof.bin'', ''evm.bin''} \<Longrightarrow> last (final_proof_path dir u suffix) = CHR ''n''"
  by (auto simp: final_proof_temp_path_def final_proof_path_def last_path_join)

lemma temp_path_differs:
  assumes "suffix \<in> {''proof.bin'', ''evm.bin''}"
  shows "final_proof_temp_path dir u t \<noteq> final_proof_path dir' v suffix"
proof
  assume "final_proof_temp_path dir u t = final_proof_path dir' v suffix"
  from arg_cong [OF this, of last] have "CHR ''p'' = CHR ''n''"
    unfolding last_of_paths(1) last_of_paths(2) [OF assms] .
  then show False by simp
qed

lemma final_proof_payload_suffix:
  "final_proof_payload codec s = Ok (Some (b, suffix)) \<Longrightarrow> suffix \<in> {''proof.bin'', ''evm.bin''}"
  by (auto simp: final_proof_payload_def bind_outcome_Ok_iff split: if_splits proof_type.splits option.splits)

lemma write_then_rename_atomic:
  assumes "write_then_rename faults temp path content d = (d', r)" "temp \<noteq> path"
  shows "(map_of d' path = map_of d path \<or> map_of d' path = Some content) \<and>
    (is_ok r \<longrightarrow> map_of d' path = Some content) \<and> (\<forall>p. p \<noteq> path \<and> p \<noteq> temp \<longrightarrow> map_of d' p = map_of d p)"
  using assms
  by (auto simp: write_then_rename_def write_file_def rename_file_def split: option.splits outcome.splits prod.splits)

section \<open>Properties\<close>

text \<open>C13. The final proof's file is whole: whatever system calls fail, and whatever a failed write leaves
  behind, the file under the final name keeps its content or holds the complete (compressed) payload;
  success means it holds the payload and its path is recorded, and a failure leaves the proof's state
  as it was.\<close>

theorem final_file_is_whole:
  assumes "persist_final_proof_to_disk faults codec zstd dir compress s d = (s', d', r)"
    "ps_persisted_final_proof_path s = None" "final_proof_payload codec s = Ok (Some (payload, suffix))"
    "(if compress then zstd payload else Inr payload) = Inr content"
  defines "path \<equiv> final_proof_path dir (pc_proof_uuid (ps_context s)) suffix"
  shows "(map_of d' path = map_of d path \<or> map_of d' path = Some content) \<and>
    (if is_ok r then r = Ok (Some path) \<and> map_of d' path = Some content \<and>
       s' = s\<lparr>ps_persisted_final_proof_path := Some path\<rparr>
     else s' = s)"
proof -
  let ?temp = "final_proof_temp_path dir (pc_proof_uuid (ps_context s)) suffix"
  have ne: "?temp \<noteq> path"
    unfolding path_def by (rule temp_path_differs [OF final_proof_payload_suffix [OF assms(3)]])
  obtain d1 q where w: "write_then_rename faults ?temp path content d = (d1, q)" by fastforce
  note unfolded = assms(1) [unfolded persist_final_proof_to_disk_def assms(2,3) option.case outcome.case prod.case
      Let_def assms(4) sum.case path_def [symmetric] w]
  show ?thesis
  proof (cases "create_dir_all faults dir")
    case (Ok x)
    note run = unfolded [unfolded Ok outcome.case]
    show ?thesis
    proof (cases q)
      case (Ok y)
      then have "s' = s\<lparr>ps_persisted_final_proof_path := Some path\<rparr>" "d' = d1" "r = Ok (Some path)"
        using run by simp_all
      then show ?thesis using write_then_rename_atomic [OF w ne] Ok by simp
    next
      case (Err e)
      then have "s' = s" "d' = d1" "r = Err e" using run by simp_all
      then show ?thesis using write_then_rename_atomic [OF w ne] by simp
    next
      case (Panic e)
      then have "s' = s" "d' = d1" "r = Panic e" using run by simp_all
      then show ?thesis using write_then_rename_atomic [OF w ne] by simp
    qed
  qed (use unfolded in \<open>clarsimp+\<close>)
qed

definition sample_evm_state :: proof_state where
  "sample_evm_state =
     (proof_state_new ((proof_context_new ''p1'' \<lparr>pr_name = ''fib'', pr_version = 1\<rparr> [])\<lparr>pc_proof_type := Evm\<rparr>)
        1000 2 4 2 300 0)
     \<lparr>ps_evm_proof := Some \<lparr>eps_proof = Some [7, 8], eps_prove_time_ms = 0, eps_root_prove_time_ms = 0, eps_sub_metrics = []\<rparr>\<rparr>"

text \<open>A disk on which the write under the temporary name fails half way.\<close>

definition sample_faults :: io_faults where
  "sample_faults op = (if op = Write_File ''out/p1.evm.bin.tmp'' then Some (''disk full'', Some [7]) else None)"

theorem final_file_is_whole_witness:
  "map_of (fst (snd (persist_final_proof_to_disk sample_faults None Inr ''out'' False sample_evm_state []))) ''out/p1.evm.bin''
     \<in> {None, Some [7, 8]}"
proof -
  let ?r = "persist_final_proof_to_disk sample_faults None Inr ''out'' False sample_evm_state []"
  have u: "pc_proof_uuid (ps_context sample_evm_state) = ''p1''" by code_simp
  have p: "final_proof_path ''out'' ''p1'' ''evm.bin'' = ''out/p1.evm.bin''" by code_simp
  have "ps_persisted_final_proof_path sample_evm_state = None"
    "final_proof_payload None sample_evm_state = Ok (Some ([7, 8], ''evm.bin''))" by code_simp+
  from final_file_is_whole [where s = sample_evm_state and faults = sample_faults and compress = False and zstd = Inr
      and codec = None and dir = "''out''" and d = "[]", OF _ this, of "fst ?r" "fst (snd ?r)" "snd (snd ?r)"]
  show ?thesis by (simp add: u p)
qed

end
