(* ===== verification/Worker_Artifacts.thy ===== *)
theory Worker_Artifacts
  imports Worker_Config Proof_Persistence
begin

text \<open>
  The proving artifacts of a worker, \<open>edge-worker/src/artifacts.rs\<close>: the shared keys, one
  executable per configured program, the optional deferral keyset and the optional EVM keys. Keys,
  executables and commitments are opaque (type variables); reading and decoding a file, rebuilding
  the SDK from a cached key and reading its commitments are the parameters of \<open>artifact_files\<close>. The
  \<open>OnceCell\<close> that holds the store is an optional store.
\<close>

section \<open>Types\<close>

text \<open>\<open>AggProvingKey\<close>: the keys of the three circuits of the aggregation tree.\<close>

record 'k agg_proving_key =
  agg_leaf :: 'k
  agg_internal_for_leaf :: 'k
  agg_internal_recursive :: 'k

record ('k, 'd) cached_proving_key =
  cpk_app_pk :: 'k
  cpk_agg_pk :: "'k agg_proving_key"
  cpk_root_pk :: "'k option"

record 'd sdk_commits =
  sdk_def_hook_cached_commit :: "'d option"
  sdk_def_hook_commit :: "'d option"

record ('k, 'd) deferral_artifacts =
  da_cached_pk :: "('k, 'd) cached_proving_key"
  da_def_hook_cached_commit :: 'd
  da_def_hook_commit :: 'd

record 'k evm_artifacts =
  ea_root_pk :: 'k
  ea_halo2_pk :: 'k
  ea_halo2_params_dir :: string

record ('k, 'd, 'x) edge_artifacts =
  art_app_pk :: 'k
  art_agg_stark_pk :: "'k agg_proving_key"
  art_programs :: "(program_ref, 'x) hmap"
  art_evm :: "'k evm_artifacts option"
  art_deferral :: "('k, 'd) deferral_artifacts option"

text \<open>\<open>read_object_from_file\<close> at the types it is used with, and the SDK.\<close>

record ('k, 'd, 'x) artifact_files =
  af_key :: "string \<Rightarrow> 'k outcome"
  af_agg_key :: "string \<Rightarrow> 'k agg_proving_key outcome"
  af_cached_key :: "string \<Rightarrow> ('k, 'd) cached_proving_key outcome"
  af_exe :: "string \<Rightarrow> 'x outcome"
  af_rebuild_sdk :: "('k, 'd) cached_proving_key \<Rightarrow> 'd sdk_commits outcome"

definition map_err :: "(string \<Rightarrow> string) \<Rightarrow> 'a outcome \<Rightarrow> 'a outcome" where
  "map_err f r = (case r of Err e \<Rightarrow> Err (f e) | _ \<Rightarrow> r)"

definition ok_or :: "'a option \<Rightarrow> string \<Rightarrow> 'a outcome" where
  "ok_or x e = (case x of Some v \<Rightarrow> Ok v | None \<Rightarrow> Err e)"

definition outcome_ok :: "'a outcome \<Rightarrow> 'a option" where
  "outcome_ok r = (case r of Ok x \<Rightarrow> Some x | _ \<Rightarrow> None)"

lemma outcome_plumbing [simp]:
  "map_err f (Ok x) = Ok x" "map_err f (Err e) = Err (f e)" "map_err f (Panic p) = Panic p"
  "ok_or (Some x) e = Ok x" "ok_or None e = Err e"
  "outcome_ok (Ok x) = Some x" "outcome_ok (Err e) = None" "outcome_ok (Panic e) = None"
  by (simp_all add: map_err_def ok_or_def outcome_ok_def)

lemma map_err_eq_Ok [simp]: "map_err f r = Ok x \<longleftrightarrow> r = Ok x"
  by (cases r) simp_all

lemma ok_or_eq_Ok [simp]: "ok_or x e = Ok v \<longleftrightarrow> x = Some v"
  by (cases x) simp_all

section \<open>Loading\<close>

definition try_load_deferral ::
  "('k, 'd, 'x) artifact_files \<Rightarrow> string \<Rightarrow> bool \<Rightarrow> ('k, 'd) deferral_artifacts option outcome" where
  "try_load_deferral files base_path enable_deferral =
     (if \<not> enable_deferral then Ok None
      else let path = path_join (path_join base_path ''deferral'') ''cached_pk'' in
        bind_outcome (map_err (\<lambda>e. ''enable_deferral is set but the deferral cached_pk at '' @ path @
            '' failed to load (did `keygen --with-deferral` run?): '' @ e) (af_cached_key files path))
        (\<lambda>cached_pk.
        bind_outcome (map_err (\<lambda>e. ''Failed to reconstruct deferral SDK from '' @ path @ '': '' @ e)
            (af_rebuild_sdk files cached_pk))
        (\<lambda>rebuilt.
        bind_outcome (ok_or (sdk_def_hook_cached_commit rebuilt)
            (''Reconstructed deferral SDK from '' @ path @ '' but def_hook_cached_commit() returned None''))
        (\<lambda>cached_commit.
        bind_outcome (ok_or (sdk_def_hook_commit rebuilt)
            (''Reconstructed deferral SDK from '' @ path @ '' but def_hook_commit() returned None''))
        (\<lambda>commit.
          Ok (Some \<lparr>da_cached_pk = cached_pk, da_def_hook_cached_commit = cached_commit,
                    da_def_hook_commit = commit\<rparr>))))))"

definition try_load_evm ::
  "('k, 'd, 'x) artifact_files \<Rightarrow> string \<Rightarrow> string option \<Rightarrow> ('k, 'd) deferral_artifacts option \<Rightarrow>
     'k evm_artifacts option" where
  "try_load_evm files base_path halo2_pk_path deferral =
     (case halo2_pk_path of
        None \<Rightarrow> None
      | Some halo2_dir \<Rightarrow>
          (case (case deferral of
                   Some d \<Rightarrow> cpk_root_pk (da_cached_pk d)
                 | None \<Rightarrow> outcome_ok (af_key files (path_join base_path ''root_pk''))) of
             None \<Rightarrow> None
           | Some root_pk \<Rightarrow>
               (case outcome_ok (af_key files (path_join halo2_dir ''halo2_pk'')) of
                  None \<Rightarrow> None
                | Some halo2_pk \<Rightarrow>
                    Some \<lparr>ea_root_pk = root_pk, ea_halo2_pk = halo2_pk,
                          ea_halo2_params_dir = halo2_dir\<rparr>)))"

definition vmexe_path :: "string \<Rightarrow> program_ref \<Rightarrow> string" where
  "vmexe_path base_path program =
     path_join (path_join (path_join (path_join base_path ''programs'') (pr_name program))
       (show_nat (pr_version program))) ''program.vmexe''"

fun load_programs ::
  "('k, 'd, 'x) artifact_files \<Rightarrow> string \<Rightarrow> program_ref list \<Rightarrow> (program_ref, 'x) hmap \<Rightarrow>
     (program_ref, 'x) hmap outcome" where
  "load_programs files base_path [] program_map = Ok program_map"
| "load_programs files base_path (program # programs) program_map =
     bind_outcome (af_exe files (vmexe_path base_path program))
       (\<lambda>exe. load_programs files base_path programs (AList.update program exe program_map))"

definition load_from_disk ::
  "('k, 'd, 'x) artifact_files \<Rightarrow> string \<Rightarrow> program_ref list \<Rightarrow> string option \<Rightarrow> bool \<Rightarrow>
     ('k, 'd, 'x) edge_artifacts outcome" where
  "load_from_disk files base_path programs halo2_pk_path enable_deferral =
     bind_outcome (try_load_deferral files base_path enable_deferral) (\<lambda>deferral.
     bind_outcome
       (case deferral of
          Some d \<Rightarrow> Ok (cpk_app_pk (da_cached_pk d), cpk_agg_pk (da_cached_pk d))
        | None \<Rightarrow>
            bind_outcome (af_key files (path_join base_path ''app_pk'')) (\<lambda>app_pk.
            bind_outcome (af_agg_key files (path_join base_path ''agg_stark_pk'')) (\<lambda>agg_stark_pk.
              Ok (app_pk, agg_stark_pk))))
       (\<lambda>(app_pk, agg_stark_pk).
     bind_outcome (load_programs files base_path programs []) (\<lambda>program_map.
       Ok \<lparr>art_app_pk = app_pk, art_agg_stark_pk = agg_stark_pk, art_programs = program_map,
           art_evm = try_load_evm files base_path halo2_pk_path deferral,
           art_deferral = deferral\<rparr>)))"

definition def_hook_cached_commit :: "('k, 'd, 'x) edge_artifacts \<Rightarrow> 'd option" where
  "def_hook_cached_commit a = map_option da_def_hook_cached_commit (art_deferral a)"

definition def_hook_commit :: "('k, 'd, 'x) edge_artifacts \<Rightarrow> 'd option" where
  "def_hook_commit a = map_option da_def_hook_commit (art_deferral a)"

definition is_deferral_deployment :: "('k, 'd, 'x) edge_artifacts \<Rightarrow> bool" where
  "is_deferral_deployment a \<longleftrightarrow> art_deferral a \<noteq> None"

section \<open>The store\<close>

record ('k, 'd, 'x) artifact_store =
  st_configured_programs :: "program_ref list"
  st_artifacts_path :: string
  st_edge_artifacts :: "('k, 'd, 'x) edge_artifacts option"

definition artifact_store_init ::
  "('k, 'd, 'x) artifact_files \<Rightarrow> artifacts_config \<Rightarrow> program_ref list \<Rightarrow>
     ('k, 'd, 'x) artifact_store option \<Rightarrow> ('k, 'd, 'x) artifact_store option \<times> unit outcome" where
  "artifact_store_init files config programs cell =
     (let artifacts_path = (case ac_artifacts_path config of Some p \<Rightarrow> p | None \<Rightarrow> ''/data/artifacts'');
          store = \<lparr>st_configured_programs = programs, st_artifacts_path = artifacts_path,
                   st_edge_artifacts = outcome_ok (load_from_disk files artifacts_path programs
                     (ac_halo2_pk_path config) (ac_enable_deferral config))\<rparr>
      in case cell of
           None \<Rightarrow> (Some store, Ok ())
         | Some old \<Rightarrow> (Some old, Err ''Artifact store already initialized''))"

definition store_vmexe :: "program_ref \<Rightarrow> ('k, 'd, 'x) artifact_store \<Rightarrow> 'x option" where
  "store_vmexe program store =
     (case st_edge_artifacts store of None \<Rightarrow> None | Some a \<Rightarrow> map_of (art_programs a) program)"

definition store_is_ready :: "('k, 'd, 'x) artifact_store \<Rightarrow> bool" where
  "store_is_ready store =
     (case st_edge_artifacts store of
        Some a \<Rightarrow> length (art_programs a) = length (st_configured_programs store)
      | None \<Rightarrow> False)"

text \<open>The artifacts a prover instance is built from, with the two errors of its constructor.\<close>

definition global_artifacts ::
  "('k, 'd, 'x) artifact_store option \<Rightarrow> ('k, 'd, 'x) edge_artifacts outcome" where
  "global_artifacts cell =
     bind_outcome (ok_or cell ''Artifact store not initialized'')
       (\<lambda>store. ok_or (st_edge_artifacts store) ''Edge artifacts not loaded'')"

section \<open>Lemmas\<close>

lemma load_programs_dom:
  "load_programs files base ps m = Ok m' \<Longrightarrow> hm_wf m \<Longrightarrow>
     hm_wf m' \<and> dom (map_of m') = dom (map_of m) \<union> set ps"
proof (induction ps arbitrary: m)
  case (Cons p ps)
  then obtain exe where "load_programs files base ps (AList.update p exe m) = Ok m'"
    by (auto simp: bind_outcome_Ok_iff)
  moreover have "dom (map_of (AList.update p exe m)) = insert p (dom (map_of m))" by (auto split: if_splits)
  ultimately show ?case using Cons.IH [of "AList.update p exe m"] Cons.prems(2)
    by (simp del: hm_get_update)
qed simp

lemma load_programs_loaded:
  "load_programs files base ps m = Ok m' \<Longrightarrow> p \<in> set ps \<or> map_of m p = outcome_ok (af_exe files (vmexe_path base p)) \<Longrightarrow>
     map_of m' p = outcome_ok (af_exe files (vmexe_path base p))"
  by (induction ps arbitrary: m) (auto simp: bind_outcome_Ok_iff split: if_splits)

lemma load_programs_card:
  assumes "load_programs files base ps [] = Ok m"
  shows "length m = card (set ps)"
proof -
  have "hm_wf m" "fst ` set m = set ps" using load_programs_dom [OF assms] by (simp_all add: dom_map_of_conv_image_fst)
  then show ?thesis by (metis hm_wf_def distinct_card length_map set_map)
qed

lemma load_from_disk_programs:
  assumes "load_from_disk files base ps h e = Ok a"
  shows "load_programs files base ps [] = Ok (art_programs a)"
  using assms by (auto simp: load_from_disk_def bind_outcome_Ok_iff)

lemma load_from_disk_deferral:
  assumes "load_from_disk files base ps h e = Ok a"
  shows "try_load_deferral files base e = Ok (art_deferral a)"
  using assms by (auto simp: load_from_disk_def bind_outcome_Ok_iff)

lemma try_load_deferral_mode: "try_load_deferral files base e = Ok d \<Longrightarrow> (d \<noteq> None) = e"
  by (auto simp: try_load_deferral_def bind_outcome_Ok_iff Let_def split: if_splits)

section \<open>Properties\<close>

text \<open>Readiness of the artifacts: a store initialised with a loadout is ready exactly when the
  shared keys and the executable of every configured program could be read and the loadout lists
  no program twice; then every configured program has the executable of its own path, and the
  store serves deferrals exactly when the configuration enables them.\<close>

theorem store_ready_iff_loaded:
  fixes files :: "('k, 'd, 'x) artifact_files"
  defines "base \<equiv> \<lambda>config. case ac_artifacts_path config of Some p \<Rightarrow> p | None \<Rightarrow> ''/data/artifacts''"
  assumes "artifact_store_init files config programs None = (Some store, r)"
  shows "(store_is_ready store \<longleftrightarrow>
      distinct programs \<and>
      is_ok (load_from_disk files (base config) programs (ac_halo2_pk_path config) (ac_enable_deferral config))) \<and>
    (store_is_ready store \<longrightarrow>
      (\<forall>p \<in> set programs. store_vmexe p store \<noteq> None \<and>
         store_vmexe p store = outcome_ok (af_exe files (vmexe_path (base config) p))) \<and>
      (\<exists>a. st_edge_artifacts store = Some a \<and> is_deferral_deployment a = ac_enable_deferral config))"
proof -
  define L where "L = load_from_disk files (base config) programs (ac_halo2_pk_path config) (ac_enable_deferral config)"
  have s: "st_edge_artifacts store = outcome_ok L" "st_configured_programs store = programs"
    using assms(2) by (auto simp: artifact_store_init_def Let_def L_def base_def)
  show ?thesis
  proof (cases L)
    case (Ok a)
    note lp = load_from_disk_programs [OF Ok [unfolded L_def]]
    have card: "length (art_programs a) = card (set programs)" using load_programs_card [OF lp] .
    have dist: "store_is_ready store \<longleftrightarrow> distinct programs"
      using s Ok card by (simp add: store_is_ready_def) (metis card_distinct distinct_card)
    have exes: "\<forall>p \<in> set programs. store_vmexe p store \<noteq> None \<and>
        store_vmexe p store = outcome_ok (af_exe files (vmexe_path (base config) p))"
    proof
      fix p assume that: "p \<in> set programs"
      have "map_of (art_programs a) p = outcome_ok (af_exe files (vmexe_path (base config) p))"
        using load_programs_loaded [OF lp] that by blast
      moreover have "p \<in> dom (map_of (art_programs a))" using load_programs_dom [OF lp] that by simp
      then have "map_of (art_programs a) p \<noteq> None" by auto
      ultimately show "store_vmexe p store \<noteq> None \<and>
          store_vmexe p store = outcome_ok (af_exe files (vmexe_path (base config) p))"
        using s Ok by (simp add: store_vmexe_def)
    qed
    have "is_deferral_deployment a = ac_enable_deferral config"
      using try_load_deferral_mode [OF load_from_disk_deferral [OF Ok [unfolded L_def]]]
      by (simp add: is_deferral_deployment_def)
    then have dep: "\<exists>a. st_edge_artifacts store = Some a \<and> is_deferral_deployment a = ac_enable_deferral config"
      using s Ok by simp
    have ok: "is_ok L" using Ok by simp
    show ?thesis unfolding L_def [symmetric] using dist exes dep ok by blast
  qed (simp_all add: s store_is_ready_def L_def [symmetric])
qed

definition example_files :: "(nat, nat, string) artifact_files" where
  "example_files =
     \<lparr>af_key = (\<lambda>_. Ok 1), af_agg_key = (\<lambda>_. Ok \<lparr>agg_leaf = 1, agg_internal_for_leaf = 2, agg_internal_recursive = 3\<rparr>),
      af_cached_key = (\<lambda>_. Err ''missing''), af_exe = Ok, af_rebuild_sdk = (\<lambda>_. Err ''unused'')\<rparr>"

definition example_artifacts_config :: artifacts_config where
  "example_artifacts_config = \<lparr>ac_artifacts_path = None, ac_halo2_pk_path = Some ''/halo2'', ac_enable_deferral = False\<rparr>"

definition example_loadout :: "program_ref list" where
  "example_loadout = [\<lparr>pr_name = ''fib'', pr_version = 1\<rparr>, \<lparr>pr_name = ''fib'', pr_version = 2\<rparr>]"

definition example_store :: "(nat, nat, string) artifact_store" where
  "example_store = the (fst (artifact_store_init example_files example_artifacts_config example_loadout None))"

lemma example_store_init:
  "artifact_store_init example_files example_artifacts_config example_loadout None = (Some example_store, Ok ())"
  by code_simp

theorem store_ready_iff_loaded_witness:
  "store_vmexe \<lparr>pr_name = ''fib'', pr_version = 2\<rparr> example_store =
     Some ''/data/artifacts/programs/fib/2/program.vmexe''"
proof -
  have "store_is_ready example_store" by code_simp
  then have "store_vmexe p example_store = outcome_ok (af_exe example_files (vmexe_path ''/data/artifacts'' p))"
    if "p \<in> set example_loadout" for p
    using store_ready_iff_loaded [OF example_store_init] that by (auto simp: example_artifacts_config_def)
  from this [of "\<lparr>pr_name = ''fib'', pr_version = 2\<rparr>"]
  have "store_vmexe \<lparr>pr_name = ''fib'', pr_version = 2\<rparr> example_store =
      outcome_ok (af_exe example_files (vmexe_path ''/data/artifacts'' \<lparr>pr_name = ''fib'', pr_version = 2\<rparr>))"
    by (simp add: example_loadout_def)
  also have "\<dots> = Some ''/data/artifacts/programs/fib/2/program.vmexe''" by code_simp
  finally show ?thesis .
qed

end
