(* ===== verification/Worker_Provers.thy ===== *)
theory Worker_Provers
  imports Worker_Artifacts
begin

text \<open>
  The provers of \<open>edge-worker/src/provers\<close>: the jobs of \<open>mod.rs\<close>, the leaf and internal aggregation,
  the root proof and the halo2 wrap (the real builds; the mock builds only sleep). Proofs, user public
  values, Merkle proofs and keys are opaque; the aggregation circuits, the SDK's root and halo2
  provers, the wire codecs (\<open>bincode\<close>) and the two limits on the number of children are the
  parameters of \<open>backend\<close>. The \<open>i\<close>-th stop watch reading of a call, with the span timings drained
  at its end, is \<open>clk i\<close>. An \<open>assert!\<close> that fails is the outcome \<open>Panic\<close>.
\<close>

section \<open>Types\<close>

record ('p, 'u) typed_proof =
  tp_proof :: 'p
  tp_user_public_values :: "'u option"

datatype verifier_circuit_type = Leaf_Circuit | Internal_For_Leaf | Internal_Recursive

datatype child_vk_kind = Child_App | Child_Standard | Child_Recursive_Self

text \<open>\<open>Inner{Cpu,Gpu}Prover::from_pk\<close>: the arguments a prover is built from.\<close>

record ('k, 'd) inner_prover =
  in_child_vk :: 'k
  in_pk :: 'k
  in_circuit :: verifier_circuit_type
  in_def_hook_cached_commit :: "'d option"

record ('k, 'd) internal_prover_instance =
  ii_internal_for_leaf_prover :: "('k, 'd) inner_prover"
  ii_internal_recursive_prover :: "('k, 'd) inner_prover"

text \<open>The arguments of the SDK's \<open>RootProver::from_pk\<close>; the memory dimensions and the number of
  public values are read from the app key.\<close>

record ('k, 'd) sdk_root_prover =
  sr_internal_recursive_vk :: 'k
  sr_internal_recursive_vk_commit :: 'd
  sr_root_pk :: 'k
  sr_app_pk :: 'k
  sr_def_hook_commit :: "'d option"

record ('k, 'd) root_prover_instance =
  ri_root_prover :: "('k, 'd) sdk_root_prover"
  ri_internal_recursive_prover :: "('k, 'd) inner_prover"

record 'k halo2_prover_instance =
  hi_params_dir :: string
  hi_halo2_pk :: 'k

record ('p, 'u, 'm) vm_stark_proof =
  vs_inner :: 'p
  vs_user_pvs_proof :: 'u
  vs_deferral_merkle_proofs :: "'m option"

record measured =
  ms_elapsed :: nat
  ms_timings :: "(string, f64_bits) hmap"

record ('p, 'u, 'k, 'd, 'm, 'r, 'e) backend =
  bk_encode_proof :: "('p, 'u) typed_proof \<Rightarrow> bytes outcome"
  bk_decode_proof :: "bytes \<Rightarrow> ('p, 'u) typed_proof outcome"
  bk_encode_root :: "'r \<Rightarrow> bytes outcome"
  bk_decode_root :: "bytes \<Rightarrow> 'r outcome"
  bk_encode_evm :: "'e \<Rightarrow> bytes outcome"
  bk_max_children_leaf :: nat
  bk_max_children_internal :: nat
  bk_get_vk :: "'k \<Rightarrow> 'k"
  bk_app_vk :: "'k \<Rightarrow> 'k"
  bk_self_vk_commit :: "('k, 'd) inner_prover \<Rightarrow> 'd option"
  bk_agg_prove_no_def :: "('k, 'd) inner_prover \<Rightarrow> 'p list \<Rightarrow> child_vk_kind \<Rightarrow> 'p outcome"
  bk_agg_prove :: "('k, 'd) inner_prover \<Rightarrow> 'p list \<Rightarrow> child_vk_kind \<Rightarrow> proofs_type_wire \<Rightarrow> 'p outcome"
  bk_root_prove :: "('k, 'd) sdk_root_prover \<Rightarrow> ('p, 'u, 'm) vm_stark_proof \<Rightarrow> nat \<Rightarrow>
     (('p, 'u, 'm) vm_stark_proof \<Rightarrow> ('p, 'u, 'm) vm_stark_proof outcome) \<Rightarrow> 'r outcome"
  bk_prove_for_evm :: "'k halo2_prover_instance \<Rightarrow> 'r \<Rightarrow> 'e outcome"
  bk_f64_add :: "f64_bits \<Rightarrow> f64_bits \<Rightarrow> f64_bits"

datatype prover_result = ProverSuccess "proof_result list" | ProverError string

record sharded_app_prover_job =
  sj_context :: proof_context
  sj_num_provers :: nat
  sj_prover_id :: nat
  sj_input_path :: string
  sj_segment_memory :: "nat option"
  sj_max_app_provers :: nat
  sj_result_tx :: bool
  sj_deferral_state_paths :: "string list"

record ('p, 'u) leaf_prover_job =
  lj_context :: proof_context
  lj_app_proofs :: "('p, 'u) typed_proof list"
  lj_segment_start :: nat
  lj_segment_end :: nat

record ('p, 'u) internal_prover_job =
  ij_context :: proof_context
  ij_child_proofs :: "('p, 'u) typed_proof list"
  ij_layer_idx :: nat
  ij_segment_start :: nat
  ij_segment_end :: nat
  ij_is_final_proof :: bool
  ij_proof_has_deferral :: bool

record ('p, 'u, 'm) root_prover_job =
  rj_context :: proof_context
  rj_final_internal_proof :: "('p, 'u) typed_proof"
  rj_deferral_merkle_proofs :: "'m option"
  rj_proof_has_deferral :: bool

record 'r halo2_prover_job =
  hj_context :: proof_context
  hj_root_proof :: 'r

section \<open>Prover instances\<close>

definition leaf_prover_instance ::
  "('p, 'u, 'k, 'd, 'm, 'r, 'e) backend \<Rightarrow> ('k, 'd, 'x) artifact_store option \<Rightarrow> ('k, 'd) inner_prover outcome" where
  "leaf_prover_instance bk cell =
     bind_outcome (global_artifacts cell) (\<lambda>a.
       Ok \<lparr>in_child_vk = bk_app_vk bk (art_app_pk a), in_pk = agg_leaf (art_agg_stark_pk a),
           in_circuit = Leaf_Circuit, in_def_hook_cached_commit = def_hook_cached_commit a\<rparr>)"

definition recursive_prover ::
  "('p, 'u, 'k, 'd, 'm, 'r, 'e) backend \<Rightarrow> ('k, 'd, 'x) edge_artifacts \<Rightarrow> ('k, 'd) inner_prover" where
  "recursive_prover bk a =
     \<lparr>in_child_vk = bk_get_vk bk (agg_internal_for_leaf (art_agg_stark_pk a)),
      in_pk = agg_internal_recursive (art_agg_stark_pk a),
      in_circuit = Internal_Recursive, in_def_hook_cached_commit = def_hook_cached_commit a\<rparr>"

definition new_internal_prover_instance ::
  "('p, 'u, 'k, 'd, 'm, 'r, 'e) backend \<Rightarrow> ('k, 'd, 'x) artifact_store option \<Rightarrow>
     ('k, 'd) internal_prover_instance outcome" where
  "new_internal_prover_instance bk cell =
     bind_outcome (global_artifacts cell) (\<lambda>a.
       Ok \<lparr>ii_internal_for_leaf_prover =
             \<lparr>in_child_vk = bk_get_vk bk (agg_leaf (art_agg_stark_pk a)),
              in_pk = agg_internal_for_leaf (art_agg_stark_pk a),
              in_circuit = Internal_For_Leaf, in_def_hook_cached_commit = def_hook_cached_commit a\<rparr>,
           ii_internal_recursive_prover = recursive_prover bk a\<rparr>)"

definition new_root_prover_instance ::
  "('p, 'u, 'k, 'd, 'm, 'r, 'e) backend \<Rightarrow> ('k, 'd, 'x) artifact_store option \<Rightarrow>
     ('k, 'd) root_prover_instance outcome" where
  "new_root_prover_instance bk cell =
     bind_outcome (global_artifacts cell) (\<lambda>a.
     bind_outcome (ok_or (art_evm a) ''EVM artifacts not loaded (halo2_pk_path missing?)'') (\<lambda>evm.
     let recursive = recursive_prover bk a in
     bind_outcome (ok_or (bk_self_vk_commit bk recursive)
       ''internal_recursive_prover has no self_vk_pcs_data; construct with VerifierCircuitType::InternalRecursive'')
     (\<lambda>commit.
       Ok \<lparr>ri_root_prover =
             \<lparr>sr_internal_recursive_vk = bk_get_vk bk (in_pk recursive),
              sr_internal_recursive_vk_commit = commit, sr_root_pk = ea_root_pk evm,
              sr_app_pk = art_app_pk a, sr_def_hook_commit = def_hook_commit a\<rparr>,
           ri_internal_recursive_prover = recursive\<rparr>)))"

definition new_halo2_prover_instance ::
  "('k, 'd, 'x) artifact_store option \<Rightarrow> 'k halo2_prover_instance outcome" where
  "new_halo2_prover_instance cell =
     bind_outcome (global_artifacts cell) (\<lambda>a.
     bind_outcome (ok_or (art_evm a) ''EVM artifacts not loaded (halo2_pk_path missing?)'') (\<lambda>evm.
       Ok \<lparr>hi_params_dir = ea_halo2_params_dir evm, hi_halo2_pk = ea_halo2_pk evm\<rparr>))"

section \<open>Leaf proofs\<close>

definition guard_err :: "bool \<Rightarrow> string \<Rightarrow> unit outcome" where
  "guard_err bad e = (if bad then Err e else Ok ())"

lemma guard_err_simps [simp]: "guard_err False e = Ok ()" "guard_err True e = Err e"
  by (simp_all add: guard_err_def)

lemma guard_err_eq_Ok [simp]: "guard_err bad e = Ok u \<longleftrightarrow> \<not> bad"
  by (simp add: guard_err_def)

definition range_error :: "nat \<Rightarrow> nat \<Rightarrow> string" where
  "range_error s e = ''Invalid segment range: start '' @ show_nat s @ '' > end '' @ show_nat e"

definition validate_leaf_job ::
  "('p, 'u, 'k, 'd, 'm, 'r, 'e) backend \<Rightarrow> ('p, 'u) leaf_prover_job \<Rightarrow> unit outcome" where
  "validate_leaf_job bk job =
     (let n = length (lj_app_proofs job); s = lj_segment_start job; e = lj_segment_end job in
      bind_outcome (guard_err (lj_app_proofs job = []) ''Cannot aggregate empty app_proofs list'') (\<lambda>_.
      bind_outcome (guard_err (e < s) (range_error s e)) (\<lambda>_.
      bind_outcome (guard_err (n \<noteq> e - s + 1) (''Proof count '' @ show_nat n @
        '' does not match segment range ['' @ show_nat s @ '', '' @ show_nat e @ ''] (expected '' @
        show_nat (e - s + 1) @ '')'')) (\<lambda>_.
      guard_err (bk_max_children_leaf bk < n) (''Too many app proofs: '' @ show_nat n @
        '' exceeds MAX_NUM_CHILDREN_LEAF='' @ show_nat (bk_max_children_leaf bk))))))"

definition last_option :: "'a list \<Rightarrow> 'a option" where
  "last_option xs = (if xs = [] then None else Some (last xs))"

definition prove_leaf_impl ::
  "('p, 'u, 'k, 'd, 'm, 'r, 'e) backend \<Rightarrow> (nat \<Rightarrow> measured) \<Rightarrow> ('p, 'u) leaf_prover_job \<Rightarrow>
     ('k, 'd) inner_prover \<Rightarrow> proof_result list outcome" where
  "prove_leaf_impl bk clk job prover =
     bind_outcome (validate_leaf_job bk job) (\<lambda>_.
     let user_public_values = Option.bind (last_option (lj_app_proofs job)) tp_user_public_values;
         proofs = map tp_proof (lj_app_proofs job) in
     bind_outcome (bk_agg_prove_no_def bk prover proofs Child_App) (\<lambda>leaf_proof.
     bind_outcome (bk_encode_proof bk
         \<lparr>tp_proof = leaf_proof, tp_user_public_values = user_public_values\<rparr>) (\<lambda>b.
       Ok [LeafRes (lj_context job)
         \<lparr>lps_proof = Some b, lps_segment_start = lj_segment_start job,
          lps_segment_end = lj_segment_end job, lps_prove_time_ms = ms_elapsed (clk 0),
          lps_sub_metrics = ms_timings (clk 0)\<rparr>])))"

definition as_prover_result :: "string \<Rightarrow> proof_result list outcome \<Rightarrow> prover_result outcome" where
  "as_prover_result what r =
     (case r of Ok results \<Rightarrow> Ok (ProverSuccess results) | Err e \<Rightarrow> Ok (ProverError (what @ e))
      | Panic p \<Rightarrow> Panic p)"

lemma as_prover_result_simps [simp]:
  "as_prover_result w (Ok rs) = Ok (ProverSuccess rs)" "as_prover_result w (Err e) = Ok (ProverError (w @ e))"
  "as_prover_result w (Panic p) = Panic p"
  by (simp_all add: as_prover_result_def)

definition prove_leaf ::
  "('p, 'u, 'k, 'd, 'm, 'r, 'e) backend \<Rightarrow> (nat \<Rightarrow> measured) \<Rightarrow> ('p, 'u) leaf_prover_job \<Rightarrow>
     ('k, 'd) inner_prover \<Rightarrow> prover_result outcome" where
  "prove_leaf bk clk job prover =
     as_prover_result ''Leaf prove failed: '' (prove_leaf_impl bk clk job prover)"

section \<open>Internal proofs\<close>

definition validate_internal_job ::
  "('p, 'u, 'k, 'd, 'm, 'r, 'e) backend \<Rightarrow> ('p, 'u) internal_prover_job \<Rightarrow> unit outcome" where
  "validate_internal_job bk job =
     (let n = length (ij_child_proofs job); s = ij_segment_start job; e = ij_segment_end job in
      bind_outcome (guard_err (ij_child_proofs job = []) ''Cannot aggregate empty child_proofs list'') (\<lambda>_.
      bind_outcome (guard_err (e < s) (range_error s e)) (\<lambda>_.
      guard_err (bk_max_children_internal bk < n) (''Too many child proofs: '' @ show_nat n @
        '' exceeds MAX_NUM_CHILDREN_INTERNAL='' @ show_nat (bk_max_children_internal bk)))))"

text \<open>The last child that has user public values: \<open>iter().rev().find_map(..)\<close>.\<close>

fun find_map :: "('a \<Rightarrow> 'b option) \<Rightarrow> 'a list \<Rightarrow> 'b option" where
  "find_map f [] = None"
| "find_map f (x # xs) = (case f x of Some y \<Rightarrow> Some y | None \<Rightarrow> find_map f xs)"

definition internal_aggregate ::
  "('p, 'u, 'k, 'd, 'm, 'r, 'e) backend \<Rightarrow> nat \<Rightarrow> 'p list \<Rightarrow> ('k, 'd) internal_prover_instance \<Rightarrow> 'p outcome" where
  "internal_aggregate bk layer_idx proofs inst =
     (if layer_idx = 0 then
        bk_agg_prove_no_def bk (ii_internal_for_leaf_prover inst) proofs Child_Standard
      else if layer_idx = 1 then
        bk_agg_prove_no_def bk (ii_internal_recursive_prover inst) proofs Child_Standard
      else bk_agg_prove_no_def bk (ii_internal_recursive_prover inst) proofs Child_Recursive_Self)"

fun add_timings ::
  "(f64_bits \<Rightarrow> f64_bits \<Rightarrow> f64_bits) \<Rightarrow> (string, f64_bits) hmap \<Rightarrow> (string, f64_bits) hmap \<Rightarrow>
     (string, f64_bits) hmap" where
  "add_timings add [] m = m"
| "add_timings add ((k, v) # kvs) m =
     add_timings add kvs
       (AList.update k (add (case map_of m k of Some x \<Rightarrow> x | None \<Rightarrow> 0) v) m)"

definition final_wrap ::
  "('p, 'u, 'k, 'd, 'm, 'r, 'e) backend \<Rightarrow> ('p, 'u) internal_prover_job \<Rightarrow> 'p \<Rightarrow>
     ('k, 'd) internal_prover_instance \<Rightarrow> ('p \<times> bool) outcome" where
  "final_wrap bk job internal_proof inst =
     (let skip_wrap_for_deferral = ij_is_final_proof job \<and> ij_proof_has_deferral job in
      if ij_is_final_proof job \<and> \<not> skip_wrap_for_deferral then
        (if ij_layer_idx job < 1 then Panic ''Internal for leaf should not be final proof!!''
         else bind_outcome (bk_agg_prove_no_def bk (ii_internal_recursive_prover inst) [internal_proof]
                Child_Recursive_Self) (\<lambda>p. Ok (p, True)))
      else Ok (internal_proof, False))"

definition prove_internal_impl ::
  "('p, 'u, 'k, 'd, 'm, 'r, 'e) backend \<Rightarrow> (nat \<Rightarrow> measured) \<Rightarrow> ('p, 'u) internal_prover_job \<Rightarrow>
     ('k, 'd) internal_prover_instance \<Rightarrow> proof_result list outcome" where
  "prove_internal_impl bk clk job inst =
     bind_outcome (validate_internal_job bk job) (\<lambda>_.
     let user_public_values = find_map tp_user_public_values (rev (ij_child_proofs job));
         proofs = map tp_proof (ij_child_proofs job) in
     bind_outcome (internal_aggregate bk (ij_layer_idx job) proofs inst) (\<lambda>internal_proof.
     bind_outcome (final_wrap bk job internal_proof inst) (\<lambda>(final_proof, wrapped).
     bind_outcome (bk_encode_proof bk
         \<lparr>tp_proof = final_proof, tp_user_public_values = user_public_values\<rparr>) (\<lambda>b.
       Ok [InternalRes (ij_context job)
         \<lparr>ips_proof = Some b, ips_layer_idx = ij_layer_idx job,
          ips_segment_start = ij_segment_start job, ips_segment_end = ij_segment_end job,
          ips_prove_time_ms = ms_elapsed (clk 0),
          ips_compression_time_ms = (if wrapped then ms_elapsed (clk 1) else 0),
          ips_sub_metrics = (if wrapped then add_timings (bk_f64_add bk) (ms_timings (clk 1)) (ms_timings (clk 0))
                             else ms_timings (clk 0)),
          ips_deferral_merkle_proofs_bytes = None, ips_ready_for_evm = False\<rparr>]))))"

definition prove_internal ::
  "('p, 'u, 'k, 'd, 'm, 'r, 'e) backend \<Rightarrow> (nat \<Rightarrow> measured) \<Rightarrow> ('p, 'u) internal_prover_job \<Rightarrow>
     ('k, 'd) internal_prover_instance \<Rightarrow> prover_result outcome" where
  "prove_internal bk clk job inst =
     as_prover_result ''Internal prove failed: '' (prove_internal_impl bk clk job inst)"

section \<open>Root and halo2 proofs\<close>

definition max_root_tracegen_retries :: nat where "max_root_tracegen_retries = 8"

definition wrap_vm_stark_proof ::
  "('p, 'u, 'k, 'd, 'm, 'r, 'e) backend \<Rightarrow> ('k, 'd) inner_prover \<Rightarrow> bool \<Rightarrow>
     ('p, 'u, 'm) vm_stark_proof \<Rightarrow> ('p, 'u, 'm) vm_stark_proof outcome" where
  "wrap_vm_stark_proof bk recursive proof_has_deferral p =
     bind_outcome (bk_agg_prove bk recursive [vs_inner p] Child_Recursive_Self
         (if proof_has_deferral then Combined else Vm))
       (\<lambda>inner. Ok (p\<lparr>vs_inner := inner\<rparr>))"

definition prove_root ::
  "('p, 'u, 'k, 'd, 'm, 'r, 'e) backend \<Rightarrow> (nat \<Rightarrow> measured) \<Rightarrow> ('p, 'u, 'm) root_prover_job \<Rightarrow>
     ('k, 'd) root_prover_instance \<Rightarrow> root_proof_state outcome" where
  "prove_root bk clk job inst =
     bind_outcome (ok_or (tp_user_public_values (rj_final_internal_proof job))
       ''final internal proof is missing user_public_values; cannot reconstruct VmStarkProof for root prove'')
     (\<lambda>user_pvs_proof.
     bind_outcome (bk_root_prove bk (ri_root_prover inst)
         \<lparr>vs_inner = tp_proof (rj_final_internal_proof job), vs_user_pvs_proof = user_pvs_proof,
          vs_deferral_merkle_proofs = rj_deferral_merkle_proofs job\<rparr>
         max_root_tracegen_retries
         (wrap_vm_stark_proof bk (ri_internal_recursive_prover inst) (rj_proof_has_deferral job)))
     (\<lambda>root_proof.
     bind_outcome (bk_encode_root bk root_proof) (\<lambda>b.
       Ok \<lparr>rps_proof = Some b, rps_prove_time_ms = ms_elapsed (clk 0),
           rps_sub_metrics = ms_timings (clk 0)\<rparr>)))"

definition prove_halo2_impl ::
  "('p, 'u, 'k, 'd, 'm, 'r, 'e) backend \<Rightarrow> (nat \<Rightarrow> measured) \<Rightarrow> 'r halo2_prover_job \<Rightarrow>
     'k halo2_prover_instance \<Rightarrow> proof_result list outcome" where
  "prove_halo2_impl bk clk job inst =
     bind_outcome (map_err (\<lambda>e. ''EVM proof conversion failed: '' @ e)
         (bk_prove_for_evm bk inst (hj_root_proof job))) (\<lambda>typed.
     bind_outcome (bk_encode_evm bk typed) (\<lambda>b.
       Ok [EvmRes (hj_context job)
         \<lparr>eps_proof = Some b, eps_prove_time_ms = ms_elapsed (clk 0), eps_root_prove_time_ms = 0,
          eps_sub_metrics = ms_timings (clk 0)\<rparr>]))"

definition prove_halo2 ::
  "('p, 'u, 'k, 'd, 'm, 'r, 'e) backend \<Rightarrow> (nat \<Rightarrow> measured) \<Rightarrow> 'r halo2_prover_job \<Rightarrow>
     'k halo2_prover_instance \<Rightarrow> prover_result outcome" where
  "prove_halo2 bk clk job inst =
     as_prover_result ''Halo2 prove failed: '' (prove_halo2_impl bk clk job inst)"

end
