(* ===== verification/Deferral_Merkle.thy ===== *)
theory Deferral_Merkle
  imports Worker_Artifacts
begin

unbundle bit_operations_syntax

text \<open>
  Deferral authentication paths, \<open>edge-worker/src/deferral_merkle.rs\<close>. A memory Merkle tree is its
  \<open>get_node\<close> function (node 1 is the root, node \<open>k\<close> has the children \<open>2k\<close> and \<open>2k + 1\<close>); the
  dimensions give its height and the index of the label \<open>(DEFERRAL_AS, 0)\<close>. Building a tree from a
  memory image and the initial image of an executable are parameters. \<open>debug_assert\<close>s are not part of
  the release build.
\<close>

record memory_dimensions =
  md_overall_height :: nat
  md_deferral_index :: nat

record 'n deferral_merkle_proofs =
  dmp_initial_merkle_proof :: "'n list"
  dmp_final_merkle_proof :: "'n list"

definition leaf_idx :: "memory_dimensions \<Rightarrow> nat" where
  "leaf_idx dims = 2 ^ md_overall_height dims + md_deferral_index dims"

function siblings_from :: "(nat \<Rightarrow> 'n) \<Rightarrow> nat \<Rightarrow> 'n list" where
  "siblings_from get_node node_idx =
     (if 1 < node_idx then get_node (node_idx XOR 1) # siblings_from get_node (node_idx div 2) else [])"
  by pat_completeness auto
termination by (relation "measure snd") auto

declare siblings_from.simps [simp del]

definition extract_deferral_auth_path :: "memory_dimensions \<Rightarrow> (nat \<Rightarrow> 'n) \<Rightarrow> 'n list" where
  "extract_deferral_auth_path dims get_node = siblings_from get_node (leaf_idx dims + 1)"

definition finalize_deferral_path :: "'n \<Rightarrow> 'n list \<Rightarrow> nat \<Rightarrow> 'n list outcome" where
  "finalize_deferral_path zero path depth =
     (if depth \<le> length path then Ok (replicate depth zero @ drop depth path)
      else Panic (''deferral depth '' @ show_nat depth @ '' exceeds path length '' @
        show_nat (length path)))"

text \<open>\<open>MerkleTree::from_memory\<close>, the initial memory image of an executable and the zero digest.\<close>

record ('x, 'm, 'n) merkle_world =
  mk_tree :: "'m \<Rightarrow> nat \<Rightarrow> 'n"
  mk_initial_memory :: "'x \<Rightarrow> 'm"
  mk_zero :: 'n

definition build_initial_memory_tree :: "('x, 'm, 'n) merkle_world \<Rightarrow> 'x \<Rightarrow> nat \<Rightarrow> 'n" where
  "build_initial_memory_tree mw exe = mk_tree mw (mk_initial_memory mw exe)"

definition depth0_deferral_merkle_proofs ::
  "('x, 'm, 'n) merkle_world \<Rightarrow> 'x \<Rightarrow> memory_dimensions \<Rightarrow> 'm \<Rightarrow> 'n deferral_merkle_proofs outcome" where
  "depth0_deferral_merkle_proofs mw exe dims final_memory =
     (let initial_path = extract_deferral_auth_path dims (build_initial_memory_tree mw exe);
          final_path = extract_deferral_auth_path dims (mk_tree mw final_memory) in
      bind_outcome (finalize_deferral_path (mk_zero mw) initial_path 0) (\<lambda>i.
      bind_outcome (finalize_deferral_path (mk_zero mw) final_path 0) (\<lambda>f.
        Ok \<lparr>dmp_initial_merkle_proof = i, dmp_final_merkle_proof = f\<rparr>)))"

section \<open>Lemmas\<close>

lemma xor_1_nat: "(k :: nat) XOR 1 = (if even k then k + 1 else k - 1)"
  by (rule xor_nat_unfold [THEN trans]) (auto simp: odd_iff_mod_2_eq_one elim!: evenE oddE)

lemma siblings_from_nth:
  "2 ^ h \<le> k \<Longrightarrow> k < 2 ^ Suc h \<Longrightarrow>
     siblings_from g k = map (\<lambda>i. g ((k div 2 ^ i) XOR 1)) [0..<h]"
proof (induction h arbitrary: k)
  case 0
  then show ?case by (simp add: siblings_from.simps)
next
  case (Suc h)
  have k: "1 < k" using Suc.prems(1) by (metis le_less_trans less_le_trans one_less_numeral_iff one_less_power
        semiring_norm(76) zero_less_Suc)
  have "siblings_from g (k div 2) = map (\<lambda>i. g ((k div 2 div 2 ^ i) XOR 1)) [0..<h]"
    using Suc.prems by (intro Suc.IH) auto
  moreover have "[0..<Suc h] = 0 # map Suc [0..<h]" by (simp add: map_Suc_upt upt_conv_Cons del: upt_Suc)
  ultimately show ?case using k
    by (subst siblings_from.simps) (simp add: div_mult2_eq [symmetric] mult.commute del: upt_Suc)
qed

text \<open>The node a path leads to: each entry is the left or right sibling of the node reached.\<close>

fun climb :: "('n \<Rightarrow> 'n \<Rightarrow> 'n) \<Rightarrow> nat \<Rightarrow> 'n \<Rightarrow> 'n list \<Rightarrow> 'n" where
  "climb compress k x [] = x"
| "climb compress k x (s # path) =
     climb compress (k div 2) (if even k then compress x s else compress s x) path"

definition merkle_tree :: "('n \<Rightarrow> 'n \<Rightarrow> 'n) \<Rightarrow> nat \<Rightarrow> (nat \<Rightarrow> 'n) \<Rightarrow> bool" where
  "merkle_tree compress h g \<longleftrightarrow> (\<forall>k. 1 \<le> k \<and> k < 2 ^ h \<longrightarrow> g k = compress (g (2 * k)) (g (2 * k + 1)))"

lemma climb_siblings:
  assumes "merkle_tree compress h g" "1 \<le> k" "k < 2 ^ Suc h"
  shows "climb compress k (g k) (siblings_from g k) = g 1"
  using assms(2,3)
proof (induction k rule: less_induct)
  case (less k)
  show ?case
  proof (cases "k = 1")
    case True
    then show ?thesis by (simp add: siblings_from.simps)
  next
    case False
    define j where "j = k div 2"
    have k: "1 < k" "1 \<le> j" "j < 2 ^ h" using False less.prems by (auto simp: j_def)
    have node: "g j = compress (g (2 * j)) (g (2 * j + 1))" using assms(1) k by (simp add: merkle_tree_def)
    have step: "(if even k then compress (g k) (g (k XOR Suc 0)) else compress (g (k XOR Suc 0)) (g k)) = g j"
    proof (cases "even k")
      case True
      then have "k = 2 * j" by (simp add: j_def)
      then show ?thesis using node by (simp add: xor_1_nat [unfolded One_nat_def])
    next
      case False
      then have "k = 2 * j + 1" by (simp add: j_def)
      then show ?thesis using node by (simp add: xor_1_nat [unfolded One_nat_def])
    qed
    have "climb compress j (g j) (siblings_from g j) = g 1"
      using k less.prems by (intro less.IH) (auto simp: j_def)
    then show ?thesis using k(1) step by (subst siblings_from.simps) (simp add: j_def split: if_splits)
  qed
qed

definition dims_ok :: "memory_dimensions \<Rightarrow> bool" where
  "dims_ok dims \<longleftrightarrow> 0 < md_overall_height dims \<and> md_deferral_index dims + 1 < 2 ^ md_overall_height dims \<and>
     even (md_deferral_index dims)"

section \<open>Properties\<close>

text \<open>C38. Deferral paths: the extracted path has one entry per level and leads from the right
  neighbour of the leaf \<open>(DEFERRAL_AS, 0)\<close> to the root of the memory tree; the path finalized for a
  depth has zeros below that depth and, from there on, the siblings of the ancestors of the leaf
  itself, so the part above the deferral subtree does not depend on where the path was started; and a
  depth beyond the height panics.\<close>

theorem deferral_path_authenticates:
  assumes "dims_ok dims" "merkle_tree compress (md_overall_height dims) g"
  shows "length (extract_deferral_auth_path dims g) = md_overall_height dims \<and>
    climb compress (leaf_idx dims + 1) (g (leaf_idx dims + 1)) (extract_deferral_auth_path dims g) = g 1 \<and>
    (\<forall>depth. is_ok (finalize_deferral_path zero (extract_deferral_auth_path dims g) depth) \<longleftrightarrow>
       depth \<le> md_overall_height dims) \<and>
    (\<forall>depth \<in> {1..md_overall_height dims}.
       finalize_deferral_path zero (extract_deferral_auth_path dims g) depth =
         Ok (map (\<lambda>i. if i < depth then zero else g ((leaf_idx dims div 2 ^ i) XOR 1))
               [0..<md_overall_height dims]))"
proof -
  define h where "h = md_overall_height dims"
  define k where "k = leaf_idx dims"
  have h: "0 < h" "even k" "2 ^ h \<le> k + 1" "k + 1 < 2 ^ Suc h"
    using assms(1) by (simp_all add: dims_ok_def h_def k_def leaf_idx_def)
  have path: "extract_deferral_auth_path dims g = map (\<lambda>i. g (((k + 1) div 2 ^ i) XOR 1)) [0..<h]"
    unfolding extract_deferral_auth_path_def k_def [symmetric] using siblings_from_nth [OF h(3,4)] .
  have same: "(k + 1) div 2 ^ i = k div 2 ^ i" if "1 \<le> i" for i
  proof -
    obtain j where i: "i = Suc j" using \<open>1 \<le> i\<close> by (cases i) auto
    show ?thesis using h(2) by (simp add: i div_mult2_eq)
  qed
  have fin: "finalize_deferral_path zero (extract_deferral_auth_path dims g) depth =
      Ok (map (\<lambda>i. if i < depth then zero else g ((k div 2 ^ i) XOR 1)) [0..<h])"
    if "1 \<le> depth" "depth \<le> h" for depth
    unfolding path finalize_deferral_path_def using that same
    by (auto simp: nth_append intro!: nth_equalityI)
  have ok: "is_ok (finalize_deferral_path zero (extract_deferral_auth_path dims g) depth) \<longleftrightarrow> depth \<le> h" for depth
    by (simp add: finalize_deferral_path_def path)
  have climb: "climb compress (k + 1) (g (k + 1)) (extract_deferral_auth_path dims g) = g 1"
    using climb_siblings [OF assms(2), of "k + 1"] h
    by (simp add: extract_deferral_auth_path_def h_def k_def)
  show ?thesis using fin ok climb path unfolding h_def [symmetric] k_def [symmetric] by simp
qed

definition example_dims :: memory_dimensions where
  "example_dims = \<lparr>md_overall_height = 3, md_deferral_index = 4\<rparr>"

definition example_tree :: "nat \<Rightarrow> nat" where
  "example_tree k = [0, 92, 38, 54, 17, 21, 25, 29, 8, 9, 10, 11, 12, 13, 14, 15] ! k"

theorem deferral_path_authenticates_witness:
  "climb (+) 13 (example_tree 13) (extract_deferral_auth_path example_dims example_tree) = 92 \<and>
   finalize_deferral_path 0 (extract_deferral_auth_path example_dims example_tree) 1 = Ok [0, 29, 38]"
proof -
  have ok: "dims_ok example_dims" by code_simp
  have "\<forall>k \<in> set [1..<8]. example_tree k = example_tree (2 * k) + example_tree (2 * k + 1)" by code_simp
  then have tree: "merkle_tree (+) (md_overall_height example_dims) example_tree"
    by (simp add: merkle_tree_def example_dims_def)
  have idx: "leaf_idx example_dims + 1 = 13" "md_overall_height example_dims = 3" by code_simp+
  have "climb (+) 13 (example_tree 13) (extract_deferral_auth_path example_dims example_tree) = 92"
    using deferral_path_authenticates [OF ok tree, of 0] idx by (simp add: example_tree_def)
  moreover have "finalize_deferral_path 0 (extract_deferral_auth_path example_dims example_tree) 1 =
      Ok (map (\<lambda>i. if i < 1 then 0 else example_tree ((leaf_idx example_dims div 2 ^ i) XOR 1)) [0..<3])"
    using deferral_path_authenticates [OF ok tree, of 0] idx(2) by simp
  moreover have "map (\<lambda>i. if i < 1 then 0 else example_tree ((leaf_idx example_dims div 2 ^ i) XOR 1)) [0..<3] = [0, 29, 38]"
    by code_simp
  ultimately show ?thesis by simp
qed

end
