(* ===== verification/Segment_Pipeline.thy ===== *)
theory Segment_Pipeline
  imports Worker_Provers Deferral_Merkle
begin

text \<open>
  The sharded app prover, \<open>edge-worker/src/provers/sharded_app_prover.rs\<close>. One executor thread runs
  the guest segment by segment and sends the segments of its shard, each with a VM snapshot, through a
  bounded channel to consumers that prove them: one consumer for the sequential prover, several for the
  parallel one (the coordinator is consumer 0). The threads are a transition function on the pipeline
  state: an event names the thread that takes its next step, and is not enabled while that thread is
  blocked on the channel, so that a run is any interleaving of the threads.

  The VM (metered and pure execution, proving), the codecs and the stop watches are parameters. Rust's
  integer subtractions wrap (both build profiles run without overflow checks).
\<close>

section \<open>The VM and the environment\<close>

record 'h segment =
  sg_instret_start :: nat
  sg_num_insns :: nat
  sg_trace_heights :: 'h

record ('s, 'c, 'h) metered_state =
  mx_vm_state :: 's
  mx_segments :: "'h segment list"
  mx_instret :: nat
  mx_exit_code :: "string + nat option"
  mx_ctx :: 'c

text \<open>\<open>vm_prove\<close> also updates the GPU prover, whose memory top tree is read afterwards.\<close>

record ('s, 'c, 'h, 'g, 'p, 'm, 'u, 'i) vm =
  vm_metered :: "('s, 'c, 'h) metered_state \<Rightarrow> string + ('s, 'c, 'h) metered_state"
  vm_pure :: "'s \<Rightarrow> nat \<Rightarrow> string + 's"
  vm_prove :: "'g \<Rightarrow> 's \<Rightarrow> nat \<Rightarrow> 'h \<Rightarrow> 'g \<times> (string + 'p \<times> 'm option)"
  vm_has_top_tree :: "'g \<Rightarrow> bool"
  vm_user_public_values :: "'m \<Rightarrow> 'g \<Rightarrow> 'u"
  vm_build_metered_ctx :: 'c
  vm_with_max_memory :: "nat \<Rightarrow> 'c \<Rightarrow> 'c"
  vm_decode_stdin :: "bytes \<Rightarrow> string + 'i"
  vm_decode_deferral :: "bytes \<Rightarrow> string + bytes"
  vm_set_deferrals :: "bytes list \<Rightarrow> 'i \<Rightarrow> 'i"
  vm_initial_state :: "'i \<Rightarrow> 's"

record seg_times =
  tm_fastfwd :: nat
  tm_stark :: nat
  tm_total :: nat
  tm_sub_metrics :: "(string, f64_bits) hmap"

text \<open>What a job runs with: the VM of the program, the codecs, the artifacts, the files of the worker
  and the clock.\<close>

record ('s, 'c, 'h, 'g, 'p, 'm, 'u, 'i, 'k, 'd, 'x, 'n) app_env =
  ae_vm :: "('s, 'c, 'h, 'g, 'p, 'm, 'u, 'i) vm"
  ae_encode_proof :: "('p, 'u) typed_proof \<Rightarrow> string + bytes"
  ae_encode_segment :: "'h segment \<Rightarrow> string + bytes"
  ae_merkle :: "('x, 'm, 'n) merkle_world"
  ae_encode_path :: "'n list \<Rightarrow> string + bytes"
  ae_encode_merkle_proofs :: "'n deferral_merkle_proofs \<Rightarrow> string + bytes"
  ae_dims :: memory_dimensions
  ae_store :: "('k, 'd, 'x) artifact_store option"
  ae_num_circuits :: "'k \<Rightarrow> nat"
  ae_read :: "string \<Rightarrow> string + bytes"
  ae_seg_times :: "nat \<Rightarrow> seg_times"
  ae_execute_time_ms :: nat

record ('s, 'h) snapshot =
  sn_vm_state :: 's
  sn_instret :: nat

record ('s, 'h) prove_data =
  dt_snapshot :: "('s, 'h) snapshot"
  dt_segment :: "'h segment"
  dt_segment_idx :: nat
  dt_is_final :: bool

section \<open>Input\<close>

definition map_inl :: "(string \<Rightarrow> string) \<Rightarrow> string + 'a \<Rightarrow> string + 'a" where
  "map_inl f r = (case r of Inl e \<Rightarrow> Inl (f e) | Inr x \<Rightarrow> Inr x)"

definition bind_sum :: "string + 'a \<Rightarrow> ('a \<Rightarrow> string + 'b) \<Rightarrow> string + 'b" where
  "bind_sum r f = (case r of Inl e \<Rightarrow> Inl e | Inr x \<Rightarrow> f x)"

lemma sum_plumbing [simp]:
  "map_inl f (Inl e) = Inl (f e)" "map_inl f (Inr x) = Inr x"
  "bind_sum (Inl e) g = Inl e" "bind_sum (Inr x) g = g x"
  by (simp_all add: map_inl_def bind_sum_def)

lemma bind_sum_eq_Inr: "bind_sum r f = Inr y \<longleftrightarrow> (\<exists>x. r = Inr x \<and> f x = Inr y)"
  by (cases r) simp_all

lemma map_inl_eq_Inr [simp]: "map_inl f r = Inr x \<longleftrightarrow> r = Inr x"
  by (cases r) simp_all

definition to_sum :: "'a outcome \<Rightarrow> string + 'a" where
  "to_sum r = (case r of Ok x \<Rightarrow> Inr x | Err e \<Rightarrow> Inl e | Panic p \<Rightarrow> Inl p)"

fun read_states ::
  "(string \<Rightarrow> string + bytes) \<Rightarrow> (bytes \<Rightarrow> string + bytes) \<Rightarrow> nat \<Rightarrow> string list \<Rightarrow> string + bytes list" where
  "read_states read decode idx [] = Inr []"
| "read_states read decode idx (path # paths) =
     bind_sum (map_inl (\<lambda>e. ''Failed to read deferral state file for circuit '' @ show_nat idx @ '' at '' @
       path @ '': '' @ e) (read path)) (\<lambda>b.
     bind_sum (map_inl (\<lambda>e. ''Failed to deserialize DeferralState for circuit '' @ show_nat idx @ '' at '' @
       path @ '': '' @ e) (decode b)) (\<lambda>state.
     bind_sum (read_states read decode (Suc idx) paths) (\<lambda>states. Inr (state # states))))"

definition load_and_validate_deferral_states ::
  "('s, 'c, 'h, 'g, 'p, 'm, 'u, 'i, 'k, 'd, 'x, 'n) app_env \<Rightarrow> string list \<Rightarrow> string + bytes list" where
  "load_and_validate_deferral_states env paths =
     (if paths = [] then Inr []
      else bind_sum (to_sum (global_artifacts (ae_store env))) (\<lambda>a.
        case art_deferral a of
          None \<Rightarrow> Inl (''Deferral job received ('' @ show_nat (length paths) @
            '' circuits) but this worker is not a deferral deployment (enable_deferral not set). Refusing to start.'')
        | Some d \<Rightarrow>
            (let n = ae_num_circuits env (cpk_app_pk (da_cached_pk d)) in
             if length paths \<noteq> n then
               Inl (''Deferral job has '' @ show_nat (length paths) @
                 '' circuits in request but the loaded keyset expects '' @ show_nat n @
                 ''; the caller's def_inputs.len() must match num_deferral_circuits.'')
             else read_states (ae_read env) (vm_decode_deferral (ae_vm env)) 0 paths)))"

definition build_execution_stdin ::
  "('s, 'c, 'h, 'g, 'p, 'm, 'u, 'i, 'k, 'd, 'x, 'n) app_env \<Rightarrow> bytes \<Rightarrow> string list \<Rightarrow> string + 'i" where
  "build_execution_stdin env input_bytes paths =
     bind_sum (map_inl (\<lambda>e. ''Failed to deserialize input: '' @ e) (vm_decode_stdin (ae_vm env) input_bytes))
       (\<lambda>stdin. bind_sum (load_and_validate_deferral_states env paths) (\<lambda>deferrals.
          Inr (if deferrals \<noteq> [] then vm_set_deferrals (ae_vm env) deferrals stdin else stdin)))"

definition build_metered_ctx :: "('s, 'c, 'h, 'g, 'p, 'm, 'u, 'i) vm \<Rightarrow> nat option \<Rightarrow> 'c" where
  "build_metered_ctx v segment_memory =
     (case segment_memory of
        None \<Rightarrow> vm_build_metered_ctx v
      | Some m \<Rightarrow> vm_with_max_memory v m (vm_build_metered_ctx v))"

section \<open>Proving a segment\<close>

datatype segment_failure =
  Fast_Forward_Failed string
| Stark_Prove_Failed string
| No_Final_Memory
| No_Top_Tree
| Deferral_Path_Failed string
| Depth0_Failed string
| Encode_Failed string

definition coordinator_error :: "nat \<Rightarrow> segment_failure \<Rightarrow> string" where
  "coordinator_error idx f =
     (case f of
        Fast_Forward_Failed e \<Rightarrow> e | Stark_Prove_Failed e \<Rightarrow> e
      | No_Final_Memory \<Rightarrow> ''Terminal segment '' @ show_nat idx @ '' did not return final_memory''
      | No_Top_Tree \<Rightarrow> ''Memory top tree should exist for terminal segment''
      | Deferral_Path_Failed e \<Rightarrow> e | Depth0_Failed e \<Rightarrow> e | Encode_Failed e \<Rightarrow> e)"

definition consumer_error :: "nat \<Rightarrow> segment_failure \<Rightarrow> string" where
  "consumer_error idx f =
     (case f of
        Fast_Forward_Failed e \<Rightarrow> ''Consumer fast-forward failed for segment '' @ show_nat idx @ '': '' @ e
      | Stark_Prove_Failed e \<Rightarrow> ''Consumer STARK prove failed for segment '' @ show_nat idx @ '': '' @ e
      | No_Final_Memory \<Rightarrow> ''Terminal segment '' @ show_nat idx @ '' did not return final_memory''
      | No_Top_Tree \<Rightarrow> ''Memory top tree missing for terminal segment '' @ show_nat idx
      | Deferral_Path_Failed e \<Rightarrow>
          ''Consumer deferral path extraction failed for segment '' @ show_nat idx @ '': '' @ e
      | Depth0_Failed e \<Rightarrow>
          ''Consumer depth-0 deferral merkle build failed for segment '' @ show_nat idx @ '': '' @ e
      | Encode_Failed e \<Rightarrow> ''Consumer failed to encode proof for segment '' @ show_nat idx @ '': '' @ e)"

definition terminal_deferral_path_bytes ::
  "('s, 'c, 'h, 'g, 'p, 'm, 'u, 'i, 'k, 'd, 'x, 'n) app_env \<Rightarrow> 'm \<Rightarrow> string + bytes" where
  "terminal_deferral_path_bytes env memory =
     map_inl (\<lambda>e. ''encode_deferral_auth_path failed: '' @ e)
       (ae_encode_path env (extract_deferral_auth_path (ae_dims env) (mk_tree (ae_merkle env) memory)))"

definition terminal_depth0_deferral_proofs_bytes ::
  "('s, 'c, 'h, 'g, 'p, 'm, 'u, 'i, 'k, 'd, 'x, 'n) app_env \<Rightarrow> program_ref \<Rightarrow> 'm \<Rightarrow>
     string + bytes option" where
  "terminal_depth0_deferral_proofs_bytes env program final_memory =
     bind_sum (to_sum (global_artifacts (ae_store env))) (\<lambda>a.
       if \<not> is_deferral_deployment a then Inr None
       else case Option.bind (ae_store env) (store_vmexe program) of
         None \<Rightarrow> Inl (''vmexe for '' @ program_display program @ '' not loaded on this worker'')
       | Some exe \<Rightarrow>
           bind_sum (to_sum (depth0_deferral_merkle_proofs (ae_merkle env) exe (ae_dims env) final_memory))
             (\<lambda>proofs. bind_sum (map_inl (\<lambda>e. ''encode depth-0 DeferralMerkleProofs failed: '' @ e)
                (ae_encode_merkle_proofs env proofs)) (\<lambda>b. Inr (Some b))))"

text \<open>Unsigned 64-bit subtraction.\<close>

definition wrapping_sub :: "nat \<Rightarrow> nat \<Rightarrow> nat" where
  "wrapping_sub a b = (a + 2 ^ 64 - b) mod 2 ^ 64"

lemma wrapping_sub_le: "b \<le> a \<Longrightarrow> a < 2 ^ 64 \<Longrightarrow> wrapping_sub a b = a - b"
proof -
  assume "b \<le> a" "a < 2 ^ 64"
  then have "a + 2 ^ 64 - b = (a - b) + 2 ^ 64" "a - b < 2 ^ 64" by simp_all
  then show ?thesis unfolding wrapping_sub_def by (simp only: mod_add_self2 mod_less)
qed

definition fast_forward ::
  "('s, 'c, 'h, 'g, 'p, 'm, 'u, 'i) vm \<Rightarrow> ('s, 'h) prove_data \<Rightarrow> string + 's" where
  "fast_forward v d =
     (let num_ins = wrapping_sub (sg_instret_start (dt_segment d)) (sn_instret (dt_snapshot d)) in
      if 0 < num_ins then vm_pure v (sn_vm_state (dt_snapshot d)) num_ins
      else Inr (sn_vm_state (dt_snapshot d)))"

text \<open>The public values and Merkle data of the terminal segment.\<close>

definition terminal_values ::
  "('s, 'c, 'h, 'g, 'p, 'm, 'u, 'i, 'k, 'd, 'x, 'n) app_env \<Rightarrow> program_ref \<Rightarrow> bool \<Rightarrow> 'g \<Rightarrow>
     'm option \<Rightarrow> segment_failure + ('u \<times> bytes option \<times> bytes option)" where
  "terminal_values env program is_deferral_job gpu final_memory =
     (case final_memory of
        None \<Rightarrow> Inl No_Final_Memory
      | Some memory \<Rightarrow>
          if \<not> vm_has_top_tree (ae_vm env) gpu then Inl No_Top_Tree
          else let u = vm_user_public_values (ae_vm env) memory gpu in
            (if is_deferral_job then
               (case terminal_deferral_path_bytes env memory of
                  Inr b \<Rightarrow> Inr (u, Some b, None) | Inl e \<Rightarrow> Inl (Deferral_Path_Failed e))
             else
               (case terminal_depth0_deferral_proofs_bytes env program memory of
                  Inr b \<Rightarrow> Inr (u, None, b) | Inl e \<Rightarrow> Inl (Depth0_Failed e))))"

definition prove_segment ::
  "('s, 'c, 'h, 'g, 'p, 'm, 'u, 'i, 'k, 'd, 'x, 'n) app_env \<Rightarrow> proof_context \<Rightarrow> bool \<Rightarrow> 'g \<Rightarrow>
     ('s, 'h) prove_data \<Rightarrow> 'g \<times> (segment_failure + proof_result)" where
  "prove_segment env ctx is_deferral_job gpu d =
     (case fast_forward (ae_vm env) d of
        Inl e \<Rightarrow> (gpu, Inl (Fast_Forward_Failed e))
      | Inr vm_state \<Rightarrow>
          (case vm_prove (ae_vm env) gpu vm_state (sg_num_insns (dt_segment d)) (sg_trace_heights (dt_segment d)) of
             (gpu', Inl e) \<Rightarrow> (gpu', Inl (Stark_Prove_Failed e))
           | (gpu', Inr (p, final_memory)) \<Rightarrow>
               (gpu',
                case (if dt_is_final d
                      then case terminal_values env (pc_program ctx) is_deferral_job gpu' final_memory of
                             Inl f \<Rightarrow> Inl f | Inr (u, path, merkle) \<Rightarrow> Inr (Some u, path, merkle)
                      else Inr (None, None, None)) of
                  Inl f \<Rightarrow> Inl f
                | Inr (user_public_values, path, merkle) \<Rightarrow>
                    (case ae_encode_proof env \<lparr>tp_proof = p, tp_user_public_values = user_public_values\<rparr> of
                       Inl e \<Rightarrow> Inl (Encode_Failed e)
                     | Inr b \<Rightarrow>
                         (let t = ae_seg_times env (dt_segment_idx d) in
                          Inr (AppRes ctx
                            \<lparr>aps_proof = Some b, aps_segment_idx = dt_segment_idx d,
                             aps_prove_time_ms = tm_total t, aps_fastfwd_time_ms = tm_fastfwd t,
                             aps_stark_prove_time_ms = tm_stark t, aps_sub_metrics = tm_sub_metrics t,
                             aps_final_merkle_path_bytes = path,
                             aps_deferral_merkle_proofs_bytes = merkle\<rparr>))))))"

section \<open>The executor thread\<close>

definition seeds_initial_snapshot :: "nat \<Rightarrow> bool" where
  "seeds_initial_snapshot prover_id \<longleftrightarrow> prover_id < 2"

definition saves_snapshot_at :: "nat \<Rightarrow> nat \<Rightarrow> nat \<Rightarrow> bool" where
  "saves_snapshot_at curr_idx num_provers prover_id \<longleftrightarrow>
     num_provers = 1 \<or> (curr_idx + 2) mod num_provers = prover_id"

record ('s, 'c, 'h) exec_thread =
  et_snapshots :: "('s, 'h) snapshot list"
  et_state :: "('s, 'c, 'h) metered_state"

definition exec_thread_start ::
  "nat \<Rightarrow> 's \<Rightarrow> 'c \<Rightarrow> ('s, 'c, 'h) exec_thread" where
  "exec_thread_start prover_id vm_state ctx =
     \<lparr>et_snapshots = (if seeds_initial_snapshot prover_id
                      then [\<lparr>sn_vm_state = vm_state, sn_instret = 0\<rparr>] else []),
      et_state = \<lparr>mx_vm_state = vm_state, mx_segments = [], mx_instret = 0, mx_exit_code = Inr None,
                  mx_ctx = ctx\<rparr>\<rparr>"

text \<open>The snapshot of an assigned segment: the seed stays in the deque for segment 0 of a single
  prover, otherwise the oldest one is popped.\<close>

definition take_snapshot ::
  "nat \<Rightarrow> nat \<Rightarrow> ('s, 'h) snapshot list \<Rightarrow> (('s, 'h) snapshot \<times> ('s, 'h) snapshot list) outcome" where
  "take_snapshot num_provers curr_idx snapshots =
     (case snapshots of
        [] \<Rightarrow> Panic (if num_provers = 1 \<and> curr_idx = 0 then ''Out of bounds access''
                  else ''Snapshot missing for assigned segment'')
      | sn # rest \<Rightarrow> Ok (sn, if num_provers = 1 \<and> curr_idx = 0 then snapshots else rest))"

text \<open>One iteration of the loop, without the \<open>send\<close>: the data to send, the thread at the start of the
  next iteration, and whether the loop breaks.\<close>

definition executor_iteration ::
  "('s, 'c, 'h, 'g, 'p, 'm, 'u, 'i) vm \<Rightarrow> nat \<Rightarrow> nat \<Rightarrow> ('s, 'c, 'h) exec_thread \<Rightarrow>
     (('s, 'h) prove_data option \<times> ('s, 'c, 'h) exec_thread \<times> bool) outcome" where
  "executor_iteration v num_provers prover_id et =
     (case vm_metered v (et_state et) of
        Inl e \<Rightarrow> Err e
      | Inr ms \<Rightarrow>
          (case mx_exit_code ms of
             Inl e \<Rightarrow> Err e
           | Inr exit_code \<Rightarrow>
               (let ms' = ms\<lparr>mx_exit_code := Inr None\<rparr> in
                case exit_code of
                  Some (Suc code) \<Rightarrow> Err (''VM exited with non-zero exit code: '' @ show_nat (Suc code))
                | _ \<Rightarrow>
                    (let should_break = (exit_code \<noteq> None);
                         curr_idx = wrapping_sub (length (mx_segments ms')) 1 in
                     bind_outcome
                       (if curr_idx mod num_provers = prover_id then
                          bind_outcome (take_snapshot num_provers curr_idx (et_snapshots et)) (\<lambda>(sn, rest).
                            if curr_idx < length (mx_segments ms') then
                              Ok (Some \<lparr>dt_snapshot = sn, dt_segment = mx_segments ms' ! curr_idx,
                                        dt_segment_idx = curr_idx, dt_is_final = should_break\<rparr>, rest)
                            else Panic ''index out of bounds'')
                        else Ok (None, et_snapshots et)) (\<lambda>(data, snapshots).
                     Ok (data,
                         \<lparr>et_snapshots =
                            (if \<not> should_break \<and> saves_snapshot_at curr_idx num_provers prover_id
                             then snapshots @ [\<lparr>sn_vm_state = mx_vm_state ms', sn_instret = mx_instret ms'\<rparr>]
                             else snapshots),
                          et_state = ms'\<rparr>, should_break))))))"

record 'h executor_result =
  xr_execute_time_ms :: nat
  xr_segments :: "'h segment list"
  xr_num_segments :: nat

datatype ('s, 'c, 'h) executor =
  Executing "('s, 'c, 'h) exec_thread"
| Sending "('s, 'h) prove_data" "('s, 'c, 'h) exec_thread" bool
| Stopped "'h executor_result outcome"

section \<open>The pipeline\<close>

datatype consumer_status = Working | Drained | Failed_At nat segment_failure | Stream_Closed nat

record 'g consumer =
  cs_gpu :: 'g
  cs_results :: "proof_result list"
  cs_status :: consumer_status

record ('s, 'c, 'h, 'g) pipeline =
  pl_executor :: "('s, 'c, 'h) executor"
  pl_queue :: "('s, 'h) prove_data list"
  pl_consumers :: "'g consumer list"
  pl_streamed :: "proof_result list"
  pl_stream_open :: bool

fun encode_segments :: "('h segment \<Rightarrow> string + bytes) \<Rightarrow> 'h segment list \<Rightarrow> string + bytes list" where
  "encode_segments enc [] = Inr []"
| "encode_segments enc (s # ss) =
     bind_sum (enc s) (\<lambda>b. bind_sum (encode_segments enc ss) (\<lambda>bs. Inr (b # bs)))"

definition execute_e2_result ::
  "proof_context \<Rightarrow> 'h executor_result \<Rightarrow> bytes list \<Rightarrow> proof_result" where
  "execute_e2_result ctx r segment_bytes =
     ExecuteE2Res ctx \<lparr>e2_num_segments = xr_num_segments r, e2_segments = segment_bytes, e2_cost = 0,
                       e2_execute_time_ms = xr_execute_time_ms r\<rparr>"

definition stream_result :: "proof_result \<Rightarrow> ('s, 'c, 'h, 'g) pipeline \<Rightarrow> ('s, 'c, 'h, 'g) pipeline" where
  "stream_result r pl = (if pl_stream_open pl then pl\<lparr>pl_streamed := pl_streamed pl @ [r]\<rparr> else pl)"

text \<open>The end of the executor thread: shard 0 streams the execution result.\<close>

definition executor_finish ::
  "('s, 'c, 'h, 'g, 'p, 'm, 'u, 'i, 'k, 'd, 'x, 'n) app_env \<Rightarrow> sharded_app_prover_job \<Rightarrow>
     ('s, 'c, 'h) exec_thread \<Rightarrow> ('s, 'c, 'h, 'g) pipeline \<Rightarrow> ('s, 'c, 'h, 'g) pipeline" where
  "executor_finish env job et pl =
     (let segments = mx_segments (et_state et);
          r = \<lparr>xr_execute_time_ms = ae_execute_time_ms env, xr_segments = segments,
               xr_num_segments = length segments\<rparr> in
      if sj_result_tx job \<and> sj_prover_id job = 0 then
        (case encode_segments (ae_encode_segment env) segments of
           Inl e \<Rightarrow> pl\<lparr>pl_executor := Stopped (Err e)\<rparr>
         | Inr bs \<Rightarrow> (stream_result (execute_e2_result (sj_context job) r bs) pl)\<lparr>pl_executor := Stopped (Ok r)\<rparr>)
      else pl\<lparr>pl_executor := Stopped (Ok r)\<rparr>)"

definition advance ::
  "('s, 'c, 'h, 'g, 'p, 'm, 'u, 'i, 'k, 'd, 'x, 'n) app_env \<Rightarrow> sharded_app_prover_job \<Rightarrow>
     ('s, 'c, 'h) exec_thread \<Rightarrow> bool \<Rightarrow> ('s, 'c, 'h, 'g) pipeline \<Rightarrow> ('s, 'c, 'h, 'g) pipeline" where
  "advance env job et should_break pl =
     (if should_break then executor_finish env job et pl else pl\<lparr>pl_executor := Executing et\<rparr>)"

definition disconnected_error :: "('s, 'c, 'h, 'g) pipeline \<Rightarrow> string" where
  "disconnected_error pl =
     (if length (pl_consumers pl) = 1 then ''Prover disconnected'' else ''All prover consumers disconnected'')"

definition channel_capacity :: "('s, 'c, 'h, 'g) pipeline \<Rightarrow> nat" where
  "channel_capacity pl = length (pl_consumers pl) * 2"

definition executor_step ::
  "('s, 'c, 'h, 'g, 'p, 'm, 'u, 'i, 'k, 'd, 'x, 'n) app_env \<Rightarrow> sharded_app_prover_job \<Rightarrow>
     ('s, 'c, 'h, 'g) pipeline \<Rightarrow> ('s, 'c, 'h, 'g) pipeline option" where
  "executor_step env job pl =
     (case pl_executor pl of
        Stopped _ \<Rightarrow> None
      | Executing et \<Rightarrow>
          (case executor_iteration (ae_vm env) (sj_num_provers job) (sj_prover_id job) et of
             Err e \<Rightarrow> Some (pl\<lparr>pl_executor := Stopped (Err e)\<rparr>)
           | Panic p \<Rightarrow> Some (pl\<lparr>pl_executor := Stopped (Panic p)\<rparr>)
           | Ok (Some d, et', should_break) \<Rightarrow> Some (pl\<lparr>pl_executor := Sending d et' should_break\<rparr>)
           | Ok (None, et', should_break) \<Rightarrow> Some (advance env job et' should_break pl))
      | Sending d et should_break \<Rightarrow>
          (if list_all (\<lambda>c. cs_status c \<noteq> Working) (pl_consumers pl) then
             Some (pl\<lparr>pl_executor := Stopped (Err (disconnected_error pl))\<rparr>)
           else if length (pl_queue pl) < channel_capacity pl then
             Some (advance env job et should_break (pl\<lparr>pl_queue := pl_queue pl @ [d]\<rparr>))
           else None))"

text \<open>Consumer 0 (the coordinator, or the only prover) ignores a closed result channel; the others
  stop.\<close>

definition deliver_result ::
  "sharded_app_prover_job \<Rightarrow> nat \<Rightarrow> nat \<Rightarrow> proof_result \<Rightarrow> 'g consumer \<Rightarrow> ('s, 'c, 'h, 'g) pipeline \<Rightarrow>
     ('s, 'c, 'h, 'g) pipeline" where
  "deliver_result job i idx r c pl =
     (let set_consumer = (\<lambda>c' p. p\<lparr>pl_consumers := (pl_consumers p)[i := c']\<rparr>) in
      if \<not> sj_result_tx job then set_consumer (c\<lparr>cs_results := cs_results c @ [r]\<rparr>) pl
      else if pl_stream_open pl \<or> i = 0 then set_consumer c (stream_result r pl)
      else set_consumer (c\<lparr>cs_status := Stream_Closed idx\<rparr>) pl)"

definition consumer_step ::
  "('s, 'c, 'h, 'g, 'p, 'm, 'u, 'i, 'k, 'd, 'x, 'n) app_env \<Rightarrow> sharded_app_prover_job \<Rightarrow> nat \<Rightarrow>
     ('s, 'c, 'h, 'g) pipeline \<Rightarrow> ('s, 'c, 'h, 'g) pipeline option" where
  "consumer_step env job i pl =
     (if i < length (pl_consumers pl) \<and> cs_status (pl_consumers pl ! i) = Working then
        (let c = pl_consumers pl ! i in
         case pl_queue pl of
           [] \<Rightarrow> (case pl_executor pl of
                   Stopped _ \<Rightarrow> Some (pl\<lparr>pl_consumers := (pl_consumers pl)[i := c\<lparr>cs_status := Drained\<rparr>]\<rparr>)
                 | _ \<Rightarrow> None)
         | d # queue \<Rightarrow>
             (case prove_segment env (sj_context job) (sj_deferral_state_paths job \<noteq> []) (cs_gpu c) d of
                (gpu, Inl f) \<Rightarrow>
                  Some (pl\<lparr>pl_queue := queue,
                           pl_consumers := (pl_consumers pl)
                             [i := c\<lparr>cs_gpu := gpu, cs_status := Failed_At (dt_segment_idx d) f\<rparr>]\<rparr>)
              | (gpu, Inr r) \<Rightarrow>
                  Some (deliver_result job i (dt_segment_idx d) r (c\<lparr>cs_gpu := gpu\<rparr>)
                    (pl\<lparr>pl_queue := queue\<rparr>))))
      else None)"

datatype pipe_event = Run_Executor | Run_Consumer nat | Close_Stream

fun pipe_step ::
  "('s, 'c, 'h, 'g, 'p, 'm, 'u, 'i, 'k, 'd, 'x, 'n) app_env \<Rightarrow> sharded_app_prover_job \<Rightarrow> pipe_event \<Rightarrow>
     ('s, 'c, 'h, 'g) pipeline \<Rightarrow> ('s, 'c, 'h, 'g) pipeline option" where
  "pipe_step env job Run_Executor pl = executor_step env job pl"
| "pipe_step env job (Run_Consumer i) pl = consumer_step env job i pl"
| "pipe_step env job Close_Stream pl = Some (pl\<lparr>pl_stream_open := False\<rparr>)"

fun pipe_run ::
  "('s, 'c, 'h, 'g, 'p, 'm, 'u, 'i, 'k, 'd, 'x, 'n) app_env \<Rightarrow> sharded_app_prover_job \<Rightarrow> pipe_event list \<Rightarrow>
     ('s, 'c, 'h, 'g) pipeline \<Rightarrow> ('s, 'c, 'h, 'g) pipeline option" where
  "pipe_run env job [] pl = Some pl"
| "pipe_run env job (e # es) pl =
     (case pipe_step env job e pl of None \<Rightarrow> None | Some pl' \<Rightarrow> pipe_run env job es pl')"

section \<open>Start and result\<close>

definition pipeline_start ::
  "('s, 'c, 'h, 'g, 'p, 'm, 'u, 'i, 'k, 'd, 'x, 'n) app_env \<Rightarrow> sharded_app_prover_job \<Rightarrow> 'g list \<Rightarrow>
     string + ('s, 'c, 'h, 'g) pipeline" where
  "pipeline_start env job gpus =
     (if sj_num_provers job = 0 then Inl ''num_provers cannot be 0''
      else if sj_num_provers job \<le> sj_prover_id job then
        Inl (''prover_id '' @ show_nat (sj_prover_id job) @ '' must be less than num_provers '' @
          show_nat (sj_num_provers job))
      else
        bind_sum (map_inl (\<lambda>e. ''Failed to read input file '' @ sj_input_path job @ '': '' @ e)
            (ae_read env (sj_input_path job))) (\<lambda>input_bytes.
        bind_sum (build_execution_stdin env input_bytes (sj_deferral_state_paths job)) (\<lambda>stdin.
        Inr \<lparr>pl_executor = Executing (exec_thread_start (sj_prover_id job)
               (vm_initial_state (ae_vm env) stdin)
               (build_metered_ctx (ae_vm env) (sj_segment_memory job))),
             pl_queue = [],
             pl_consumers = map (\<lambda>g. \<lparr>cs_gpu = g, cs_results = [], cs_status = Working\<rparr>) gpus,
             pl_streamed = [], pl_stream_open = True\<rparr>)))"

text \<open>All threads have ended.\<close>

definition pipeline_ended :: "('s, 'c, 'h, 'g) pipeline \<Rightarrow> bool" where
  "pipeline_ended pl \<longleftrightarrow>
     (case pl_executor pl of Stopped _ \<Rightarrow> True | _ \<Rightarrow> False) \<and>
     list_all (\<lambda>c. cs_status c \<noteq> Working) (pl_consumers pl)"

text \<open>What the coordinator returns once its loop has ended and the executor is joined. A failed
  encoding returns before the join.\<close>

definition coordinator_result ::
  "('s, 'c, 'h, 'g, 'p, 'm, 'u, 'i, 'k, 'd, 'x, 'n) app_env \<Rightarrow> sharded_app_prover_job \<Rightarrow>
     ('s, 'c, 'h, 'g) pipeline \<Rightarrow> string + proof_result list" where
  "coordinator_result env job pl =
     (let c = hd (pl_consumers pl) in
      case cs_status c of
        Failed_At idx (Encode_Failed e) \<Rightarrow> Inl e
      | status \<Rightarrow>
          (case pl_executor pl of
             Stopped (Panic p) \<Rightarrow> Inl (''Executor thread panicked: '' @ p)
           | Stopped r \<Rightarrow>
               (case status of
                  Failed_At idx f \<Rightarrow> Inl (coordinator_error idx f)
                | _ \<Rightarrow>
                    bind_sum (to_sum r) (\<lambda>x.
                    if xr_num_segments x = 0 then Inl ''No segments produced from execution''
                    else if sj_prover_id job = 0 \<and> \<not> sj_result_tx job then
                      bind_sum (encode_segments (ae_encode_segment env) (xr_segments x)) (\<lambda>bs.
                        Inr (execute_e2_result (sj_context job) x bs # cs_results c))
                    else Inr (cs_results c)))
           | _ \<Rightarrow> Inl ''Executor thread still running''))"

definition coordinator_prover_result ::
  "('s, 'c, 'h, 'g, 'p, 'm, 'u, 'i, 'k, 'd, 'x, 'n) app_env \<Rightarrow> sharded_app_prover_job \<Rightarrow>
     ('s, 'c, 'h, 'g) pipeline \<Rightarrow> prover_result" where
  "coordinator_prover_result env job pl =
     (case coordinator_result env job pl of
        Inr rs \<Rightarrow> ProverSuccess rs
      | Inl e \<Rightarrow> ProverError ((if length (pl_consumers pl) = 1 then ''Sharded app prove failed: ''
                              else ''Parallel app prove failed: '') @ e))"

definition consumer_prover_result :: "'g consumer \<Rightarrow> prover_result" where
  "consumer_prover_result c =
     (case cs_status c of
        Failed_At idx f \<Rightarrow> ProverError (consumer_error idx f)
      | Stream_Closed idx \<Rightarrow> ProverError (''Consumer failed to stream proof for segment '' @ show_nat idx @
          '': result channel closed'')
      | _ \<Rightarrow> ProverSuccess (cs_results c))"

end
