(* ===== verification/Segment_Schedule.thy ===== *)
theory Segment_Schedule
  imports Segment_Pipeline
begin

text \<open>
  The contract of the VM, the snapshot schedule of the executor, and what a run of the pipeline
  proves. A guest run is its VM states by instruction count, the boundaries of its segments, and the
  point inside the next segment at which metered execution is suspended after closing a segment.
\<close>

record ('s, 'c, 'h) guest =
  gu_state :: "nat \<Rightarrow> 's"
  gu_ctx :: "nat \<Rightarrow> 'c"
  gu_bound :: "nat \<Rightarrow> nat"
  gu_suspend :: "nat \<Rightarrow> nat"
  gu_count :: nat
  gu_heights :: "nat \<Rightarrow> 'h"

definition guest_segment :: "('s, 'c, 'h) guest \<Rightarrow> nat \<Rightarrow> 'h segment" where
  "guest_segment g i =
     \<lparr>sg_instret_start = gu_bound g i, sg_num_insns = gu_bound g (Suc i) - gu_bound g i,
      sg_trace_heights = gu_heights g i\<rparr>"

definition guest_ok :: "('s, 'c, 'h) guest \<Rightarrow> bool" where
  "guest_ok g \<longleftrightarrow> 0 < gu_count g \<and> gu_bound g 0 = 0 \<and> gu_count g < 2 ^ 64 \<and>
     (\<forall>i < gu_count g. gu_bound g i \<le> gu_bound g (Suc i)) \<and>
     (\<forall>i \<le> gu_count g. gu_bound g i \<le> gu_bound g (gu_count g)) \<and> gu_bound g (gu_count g) < 2 ^ 64 \<and>
     (\<forall>c. Suc c < gu_count g \<longrightarrow>
        gu_bound g (Suc c) \<le> gu_suspend g c \<and> gu_suspend g c \<le> gu_bound g (Suc (Suc c)))"

text \<open>The instruction count of the \<open>t\<close>-th donor of a snapshot: the start, then the suspensions.\<close>

definition snap_point :: "('s, 'c, 'h) guest \<Rightarrow> nat \<Rightarrow> nat" where
  "snap_point g t = (if t = 0 then 0 else gu_suspend g (t - 1))"

definition snap :: "('s, 'c, 'h) guest \<Rightarrow> nat \<Rightarrow> ('s, 'h) snapshot" where
  "snap g t = \<lparr>sn_vm_state = gu_state g (snap_point g t), sn_instret = snap_point g t\<rparr>"

definition metered_of :: "('s, 'c, 'h) guest \<Rightarrow> nat \<Rightarrow> ('s, 'c, 'h) metered_state" where
  "metered_of g c =
     \<lparr>mx_vm_state = gu_state g (snap_point g c), mx_segments = map (guest_segment g) [0..<c],
      mx_instret = snap_point g c, mx_exit_code = Inr None, mx_ctx = gu_ctx g c\<rparr>"

definition vm_runs :: "('s, 'c, 'h, 'g, 'p, 'm, 'u, 'i) vm \<Rightarrow> ('s, 'c, 'h) guest \<Rightarrow> bool" where
  "vm_runs v g \<longleftrightarrow>
     (\<forall>c. Suc c < gu_count g \<longrightarrow> vm_metered v (metered_of g c) = Inr (metered_of g (Suc c))) \<and>
     (\<exists>ms. vm_metered v (metered_of g (gu_count g - 1)) = Inr ms \<and> mx_exit_code ms = Inr (Some 0) \<and>
        mx_segments ms = map (guest_segment g) [0..<gu_count g]) \<and>
     (\<forall>i k. i + k \<le> gu_bound g (gu_count g) \<longrightarrow> vm_pure v (gu_state g i) k = Inr (gu_state g (i + k)))"

section \<open>The snapshot schedule\<close>

text \<open>The donors in the deque before segment \<open>c\<close> is closed: one for each assigned segment among \<open>c\<close>
  and \<open>c + 1\<close>; a single prover starts with the seed only, which it uses twice.\<close>

definition schedule :: "nat \<Rightarrow> nat \<Rightarrow> nat \<Rightarrow> nat list" where
  "schedule n p c =
     (if n = 1 \<and> c = 0 then [0] else map (\<lambda>a. a - 1) (filter (\<lambda>a. a mod n = p) [c, Suc c]))"

definition segment_data :: "('s, 'c, 'h) guest \<Rightarrow> nat \<Rightarrow> ('s, 'h) prove_data" where
  "segment_data g c =
     \<lparr>dt_snapshot = snap g (c - 1), dt_segment = guest_segment g c, dt_segment_idx = c,
      dt_is_final = (Suc c = gu_count g)\<rparr>"

definition exec_at :: "('s, 'c, 'h) guest \<Rightarrow> nat \<Rightarrow> nat \<Rightarrow> nat \<Rightarrow> ('s, 'c, 'h) exec_thread \<Rightarrow> bool" where
  "exec_at g n p c et \<longleftrightarrow> et_state et = metered_of g c \<and> et_snapshots et = map (snap g) (schedule n p c)"

lemma exec_at_start:
  assumes "0 < n" "p < n"
  shows "exec_at g n p 0 (exec_thread_start p (gu_state g 0) (gu_ctx g 0))"
  using assms
  by (cases "n = 1") (auto simp: exec_at_def exec_thread_start_def metered_of_def snap_point_def snap_def
      schedule_def seeds_initial_snapshot_def)

lemma schedule_step:
  assumes "0 < n" "p < n" "c mod n = p"
  shows "take_snapshot n c (map (snap g) (schedule n p c)) =
     Ok (snap g (c - 1), map (snap g) (if n = 1 then [c] else []))"
proof (cases "n = 1")
  case True
  then show ?thesis using assms by (simp add: take_snapshot_def schedule_def)
next
  case False
  then have "Suc c mod n \<noteq> c mod n" using assms by (simp add: mod_Suc)
  then show ?thesis using assms False by (simp add: take_snapshot_def schedule_def)
qed

lemma schedule_push:
  assumes "0 < n" "p < n"
  shows "(if c mod n = p then (if n = 1 then [c] else []) else schedule n p c) @
     (if saves_snapshot_at c n p then [Suc c] else []) = schedule n p (Suc c)"
proof (cases "n = 1")
  case False
  then have "Suc c mod n \<noteq> c mod n" "Suc (Suc c) mod n \<noteq> Suc c mod n" using assms by (simp_all add: mod_Suc)
  then show ?thesis using assms False by (auto simp: schedule_def saves_snapshot_at_def)
qed (use assms in \<open>auto simp: schedule_def saves_snapshot_at_def\<close>)

lemma wrapping_sub_Suc: "c < 2 ^ 64 \<Longrightarrow> Suc c < 2 ^ 64 \<Longrightarrow> wrapping_sub (Suc c) 1 = c"
  using wrapping_sub_le [of 1 "Suc c"] by simp

text \<open>One iteration, in any shard.\<close>

lemma executor_iteration_at:
  assumes "guest_ok g" "vm_runs v g" "0 < n" "p < n" "c < gu_count g" "exec_at g n p c et"
  shows "\<exists>et'. executor_iteration v n p et =
      Ok (if c mod n = p then Some (segment_data g c) else None, et', Suc c = gu_count g) \<and>
    mx_segments (et_state et') = map (guest_segment g) [0..<Suc c] \<and>
    (Suc c < gu_count g \<longrightarrow> exec_at g n p (Suc c) et')"
proof -
  obtain ms where ms: "vm_metered v (et_state et) = Inr ms"
      "mx_segments ms = map (guest_segment g) [0..<Suc c]"
      "mx_exit_code ms = Inr (if Suc c = gu_count g then Some 0 else None)"
      "Suc c < gu_count g \<Longrightarrow> ms = metered_of g (Suc c)"
  proof (cases "Suc c = gu_count g")
    case True
    then have "c = gu_count g - 1" by simp
    then show ?thesis using assms(2,6) True that by (auto simp: vm_runs_def exec_at_def)
  next
    case False
    then show ?thesis using assms(2,5,6) that by (auto simp: vm_runs_def exec_at_def metered_of_def)
  qed
  have c: "wrapping_sub (Suc c) 1 = c"
    using assms(1,5) by (intro wrapping_sub_Suc) (auto simp: guest_ok_def)
  have sched: "et_snapshots et = map (snap g) (schedule n p c)" using assms(6) by (simp add: exec_at_def)
  define sn where "sn = (if c mod n = p then map (snap g) (if n = 1 then [c] else []) else et_snapshots et)"
  define et' where "et' = \<lparr>et_snapshots =
      (if Suc c \<noteq> gu_count g \<and> saves_snapshot_at c n p
       then sn @ [\<lparr>sn_vm_state = mx_vm_state ms, sn_instret = mx_instret ms\<rparr>] else sn),
      et_state = ms\<lparr>mx_exit_code := Inr None\<rparr>\<rparr>"
  have "executor_iteration v n p et =
      Ok (if c mod n = p then Some (segment_data g c) else None, et', Suc c = gu_count g)"
  proof -
    have len: "length (mx_segments ms) = Suc c" and nth: "mx_segments ms ! c = guest_segment g c"
      using ms(2) by (simp_all add: nth_append)
    have take: "c mod n = p \<Longrightarrow> take_snapshot n c (et_snapshots et) =
        Ok (snap g (c - 1), map (snap g) (if n = 1 then [c] else []))"
      unfolding sched by (rule schedule_step [OF assms(3,4)])
    show ?thesis
      unfolding executor_iteration_def ms(1) sum.case ms(3) Let_def
      using take len nth c
      by (cases "Suc c = gu_count g"; cases "c mod n = p")
        (simp_all add: et'_def sn_def segment_data_def)
  qed
  moreover have "exec_at g n p (Suc c) et'" if "Suc c < gu_count g"
  proof -
    have m: "ms\<lparr>mx_exit_code := Inr None\<rparr> = metered_of g (Suc c)"
        "\<lparr>sn_vm_state = mx_vm_state ms, sn_instret = mx_instret ms\<rparr> = snap g (Suc c)"
      using ms(4) [OF that] by (simp_all add: metered_of_def snap_def)
    have "et_snapshots et' = map (snap g) (schedule n p (Suc c))"
      unfolding schedule_push [OF assms(3,4), symmetric] using that m(2) sched
      by (simp add: et'_def sn_def)
    then show ?thesis using m(1) by (simp add: exec_at_def et'_def)
  qed
  moreover have "mx_segments (et_state et') = map (guest_segment g) [0..<Suc c]"
    using ms(2) by (simp add: et'_def)
  ultimately show ?thesis by blast
qed

text \<open>A snapshot is at most one segment behind, so fast-forwarding gives the state at the start.\<close>

lemma snap_point_bounds:
  assumes "guest_ok g" "c < gu_count g"
  shows "gu_bound g (c - 1) \<le> snap_point g (c - 1)" "snap_point g (c - 1) \<le> gu_bound g c"
proof -
  consider "c = 0" | "c = 1" | d where "c = Suc (Suc d)" by (metis One_nat_def not0_implies_Suc)
  then have "gu_bound g (c - 1) \<le> snap_point g (c - 1) \<and> snap_point g (c - 1) \<le> gu_bound g c"
    using assms by cases (auto simp: guest_ok_def snap_point_def)
  then show "gu_bound g (c - 1) \<le> snap_point g (c - 1)" "snap_point g (c - 1) \<le> gu_bound g c" by simp_all
qed

lemma fast_forward_exact:
  assumes "guest_ok g" "vm_runs v g" "c < gu_count g"
  shows "fast_forward v (segment_data g c) = Inr (gu_state g (gu_bound g c))"
proof -
  have le: "gu_bound g c \<le> gu_bound g (gu_count g)" "gu_bound g (gu_count g) < 2 ^ 64"
    using assms(1,3) by (simp_all add: guest_ok_def)
  then have b: "snap_point g (c - 1) \<le> gu_bound g c" "gu_bound g c \<le> gu_bound g (gu_count g)"
      "gu_bound g c < 2 ^ 64"
    using snap_point_bounds(2) [OF assms(1,3)] by simp_all
  have "wrapping_sub (gu_bound g c) (snap_point g (c - 1)) = gu_bound g c - snap_point g (c - 1)"
    using b by (intro wrapping_sub_le) auto
  then show ?thesis using assms(2) b
    by (auto simp: fast_forward_def segment_data_def snap_def guest_segment_def vm_runs_def Let_def)
qed

end
