(* ===== verification/Segment_Properties.thy ===== *)
theory Segment_Properties
  imports Scheduler_Run Segment_Schedule
begin

text \<open>
  What a run of the app-proving pipeline produces: the invariant of every interleaving, the results of
  an ended run, the cover of all segments by the shards, and progress.
\<close>

section \<open>Accounting for the segments\<close>

fun app_index :: "proof_result \<Rightarrow> nat list" where
  "app_index (AppRes ctx s) = [aps_segment_idx s]"
| "app_index _ = []"

fun e2_count :: "proof_result \<Rightarrow> nat list" where
  "e2_count (ExecuteE2Res ctx s) = [e2_num_segments s]"
| "e2_count _ = []"

definition app_indices :: "proof_result list \<Rightarrow> nat list" where
  "app_indices rs = concat (map app_index rs)"

definition e2_counts :: "proof_result list \<Rightarrow> nat list" where
  "e2_counts rs = concat (map e2_count rs)"

lemma index_simps [simp]:
  "app_indices [] = []" "app_indices (r # rs) = app_index r @ app_indices rs"
  "app_indices (rs @ rs') = app_indices rs @ app_indices rs'"
  "e2_counts [] = []" "e2_counts (r # rs) = e2_count r @ e2_counts rs"
  "e2_counts (rs @ rs') = e2_counts rs @ e2_counts rs'"
  by (simp_all add: app_indices_def e2_counts_def)

fun stopped_at :: "consumer_status \<Rightarrow> nat list" where
  "stopped_at (Failed_At i f) = [i]"
| "stopped_at (Stream_Closed i) = [i]"
| "stopped_at _ = []"

definition consumed :: "'g consumer \<Rightarrow> nat multiset" where
  "consumed c = mset (app_indices (cs_results c)) + mset (stopped_at (cs_status c))"

definition handled :: "('s, 'c, 'h, 'g) pipeline \<Rightarrow> nat multiset" where
  "handled pl = mset (app_indices (pl_streamed pl)) + sum_list (map consumed (pl_consumers pl))"

lemma sum_list_map_update:
  fixes f :: "'a \<Rightarrow> 'b :: comm_monoid_add"
  shows "i < length xs \<Longrightarrow> sum_list (map f (xs[i := y])) + f (xs ! i) = sum_list (map f xs) + f y"
proof (induction xs arbitrary: i)
  case (Cons x xs)
  then show ?case by (cases i) (simp_all add: ac_simps)
qed simp

text \<open>A result proved from exactly the VM state at the start of its segment.\<close>

definition app_exact ::
  "('s, 'c, 'h, 'g, 'p, 'm, 'u, 'i, 'k, 'd, 'x, 'n) app_env \<Rightarrow> ('s, 'c, 'h) guest \<Rightarrow> sharded_app_prover_job \<Rightarrow>
     proof_result \<Rightarrow> bool" where
  "app_exact env g job r \<longleftrightarrow>
     (\<exists>s i gpu gpu' p memory upv b.
        r = AppRes (sj_context job) s \<and> aps_segment_idx s = i \<and> i < gu_count g \<and>
        vm_prove (ae_vm env) gpu (gu_state g (gu_bound g i)) (gu_bound g (Suc i) - gu_bound g i) (gu_heights g i) =
          (gpu', Inr (p, memory)) \<and>
        ae_encode_proof env \<lparr>tp_proof = p, tp_user_public_values = upv\<rparr> = Inr b \<and> aps_proof s = Some b \<and>
        (if Suc i = gu_count g
         then \<exists>m. memory = Some m \<and> upv = Some (vm_user_public_values (ae_vm env) m gpu') \<and>
           (aps_final_merkle_path_bytes s \<noteq> None \<longleftrightarrow> sj_deferral_state_paths job \<noteq> [])
         else upv = None \<and> aps_final_merkle_path_bytes s = None \<and> aps_deferral_merkle_proofs_bytes s = None))"

lemma app_exact_index: "app_exact env g job r \<Longrightarrow> e2_count r = []"
  by (auto simp: app_exact_def)

lemma prove_segment_exact:
  assumes "guest_ok g" "vm_runs (ae_vm env) g" "i < gu_count g"
    "prove_segment env (sj_context job) (sj_deferral_state_paths job \<noteq> []) gpu (segment_data g i) = (gpu', Inr r)"
  shows "app_exact env g job r \<and> app_index r = [i] \<and> e2_count r = []"
proof -
  define tv where "tv = terminal_values env (pc_program (sj_context job)) (sj_deferral_state_paths job \<noteq> []) gpu'"
  note ff = fast_forward_exact [OF assms(1-3)]
  obtain pr mem where pv: "vm_prove (ae_vm env) gpu (gu_state g (gu_bound g i))
      (gu_bound g (Suc i) - gu_bound g i) (gu_heights g i) = (gpu', Inr (pr, mem))"
    using assms(4) ff
    by (cases "vm_prove (ae_vm env) gpu (gu_state g (gu_bound g i)) (gu_bound g (Suc i) - gu_bound g i) (gu_heights g i)")
      (auto simp: prove_segment_def segment_data_def guest_segment_def split: sum.splits)
  define vals where "vals = (if Suc i = gu_count g
      then case tv mem of Inl f \<Rightarrow> Inl f | Inr (u, path, merkle) \<Rightarrow> Inr (Some u, path, merkle)
      else Inr (None, None, None))"
  obtain upv path merkle where v: "vals = Inr (upv, path, merkle)"
    using assms(4) ff pv
    by (cases vals) (auto simp: prove_segment_def segment_data_def guest_segment_def vals_def tv_def split: sum.splits prod.splits if_splits)
  obtain b where b: "ae_encode_proof env \<lparr>tp_proof = pr, tp_user_public_values = upv\<rparr> = Inr b"
    and r: "r = AppRes (sj_context job)
      \<lparr>aps_proof = Some b, aps_segment_idx = i, aps_prove_time_ms = tm_total (ae_seg_times env i),
       aps_fastfwd_time_ms = tm_fastfwd (ae_seg_times env i), aps_stark_prove_time_ms = tm_stark (ae_seg_times env i),
       aps_sub_metrics = tm_sub_metrics (ae_seg_times env i), aps_final_merkle_path_bytes = path,
       aps_deferral_merkle_proofs_bytes = merkle\<rparr>"
    using assms(4) ff pv v
    by (auto simp: prove_segment_def segment_data_def guest_segment_def vals_def tv_def Let_def split: sum.splits)
  have "if Suc i = gu_count g
      then \<exists>m. mem = Some m \<and> upv = Some (vm_user_public_values (ae_vm env) m gpu') \<and>
        (path \<noteq> None \<longleftrightarrow> sj_deferral_state_paths job \<noteq> [])
      else upv = None \<and> path = None \<and> merkle = None"
    using v by (auto simp: vals_def tv_def terminal_values_def Let_def split: sum.splits option.splits if_splits)
  moreover obtain s where "r = AppRes (sj_context job) s" "aps_segment_idx s = i" "aps_proof s = Some b"
      "aps_final_merkle_path_bytes s = path" "aps_deferral_merkle_proofs_bytes s = merkle"
    using r by simp
  ultimately have "app_exact env g job r"
    unfolding app_exact_def using pv b assms(3) by blast
  then show ?thesis by (simp add: r)
qed

lemma prove_segment_failed_index: "dt_segment_idx (segment_data g i) = i"
  by (simp add: segment_data_def)

section \<open>The invariant\<close>

fun executor_inv :: "('s, 'c, 'h) guest \<Rightarrow> nat \<Rightarrow> nat \<Rightarrow> nat \<Rightarrow> ('s, 'c, 'h) executor \<Rightarrow> bool" where
  "executor_inv g n p c (Executing et) \<longleftrightarrow> c < gu_count g \<and> exec_at g n p c et"
| "executor_inv g n p c (Sending d et brk) \<longleftrightarrow>
     c < gu_count g \<and> c mod n = p \<and> d = segment_data g c \<and> brk = (Suc c = gu_count g) \<and>
     mx_segments (et_state et) = map (guest_segment g) [0..<Suc c] \<and>
     (Suc c < gu_count g \<longrightarrow> exec_at g n p (Suc c) et)"
| "executor_inv g n p c (Stopped r) \<longleftrightarrow>
     (case r of
        Ok x \<Rightarrow> c = gu_count g \<and> xr_num_segments x = gu_count g \<and>
          xr_segments x = map (guest_segment g) [0..<gu_count g]
      | Err e \<Rightarrow> c \<le> gu_count g | Panic _ \<Rightarrow> False)"

definition executed_ok :: "('s, 'c, 'h) executor \<Rightarrow> bool" where
  "executed_ok x \<longleftrightarrow> (case x of Stopped (Ok _) \<Rightarrow> True | _ \<Rightarrow> False)"

definition executor_stopped :: "('s, 'c, 'h) executor \<Rightarrow> bool" where
  "executor_stopped x \<longleftrightarrow> (case x of Stopped _ \<Rightarrow> True | _ \<Rightarrow> False)"

lemma executor_status_simps [simp]:
  "\<not> executed_ok (Executing et)" "\<not> executed_ok (Sending d et b)" "executed_ok (Stopped r) \<longleftrightarrow> is_ok r"
  "\<not> executor_stopped (Executing et)" "\<not> executor_stopped (Sending d et b)" "executor_stopped (Stopped r)"
  by (auto simp: executed_ok_def executor_stopped_def is_ok_def split: outcome.splits)

definition shard :: "nat \<Rightarrow> nat \<Rightarrow> nat \<Rightarrow> nat list" where
  "shard n p c = filter (\<lambda>a. a mod n = p) [0..<c]"

lemma shard_Suc: "shard n p (Suc c) = shard n p c @ (if c mod n = p then [c] else [])"
  by (simp add: shard_def)

definition pipe_inv ::
  "('s, 'c, 'h, 'g, 'p, 'm, 'u, 'i, 'k, 'd, 'x, 'n) app_env \<Rightarrow> ('s, 'c, 'h) guest \<Rightarrow> sharded_app_prover_job \<Rightarrow>
     ('s, 'c, 'h, 'g) pipeline \<Rightarrow> bool" where
  "pipe_inv env g job pl \<longleftrightarrow>
     (\<exists>c qs. executor_inv g (sj_num_provers job) (sj_prover_id job) c (pl_executor pl) \<and>
        pl_queue pl = map (segment_data g) qs \<and> (\<forall>i \<in> set qs. i < gu_count g) \<and>
        (pl_stream_open pl \<longrightarrow>
           handled pl + mset qs = mset (shard (sj_num_provers job) (sj_prover_id job) c))) \<and>
     (\<forall>r \<in> set (pl_streamed pl). app_exact env g job r \<or> e2_count r \<noteq> []) \<and>
     (\<forall>c \<in> set (pl_consumers pl). \<forall>r \<in> set (cs_results c). app_exact env g job r) \<and>
     (pl_stream_open pl \<longrightarrow> e2_counts (pl_streamed pl) =
        (if executed_ok (pl_executor pl) \<and> sj_result_tx job \<and> sj_prover_id job = 0 then [gu_count g] else [])) \<and>
     (\<forall>c \<in> set (pl_consumers pl).
        (cs_status c = Drained \<longrightarrow> pl_queue pl = [] \<and> executor_stopped (pl_executor pl)) \<and>
        (\<forall>i. cs_status c = Stream_Closed i \<longrightarrow> \<not> pl_stream_open pl))"

text \<open>The counters a step moves between the executor, the queue and the consumers.\<close>

lemma handled_set_consumer:
  "i < length (pl_consumers pl) \<Longrightarrow>
     handled (pl\<lparr>pl_consumers := (pl_consumers pl)[i := c]\<rparr>) + consumed (pl_consumers pl ! i) =
     handled pl + consumed c"
  using sum_list_map_update [of i "pl_consumers pl" consumed c]
  by (simp add: handled_def ac_simps)

lemma handled_update_simps [simp]:
  "handled (pl\<lparr>pl_executor := x\<rparr>) = handled pl" "handled (pl\<lparr>pl_queue := q\<rparr>) = handled pl"
  "handled (pl\<lparr>pl_stream_open := b\<rparr>) = handled pl"
  by (simp_all add: handled_def)

lemma pipe_inv_start:
  assumes "guest_ok g" "sj_prover_id job < sj_num_provers job"
  shows "pipe_inv env g job
    \<lparr>pl_executor = Executing (exec_thread_start (sj_prover_id job) (gu_state g 0) (gu_ctx g 0)), pl_queue = [],
     pl_consumers = map (\<lambda>g. \<lparr>cs_gpu = g, cs_results = [], cs_status = Working\<rparr>) gpus,
     pl_streamed = [], pl_stream_open = True\<rparr>"
proof -
  have "sum_list (map consumed (map (\<lambda>g. \<lparr>cs_gpu = g, cs_results = [], cs_status = Working\<rparr>) gpus)) = {#}"
    by (induction gpus) (simp_all add: consumed_def)
  then show ?thesis using exec_at_start [of "sj_num_provers job" "sj_prover_id job" g] assms
    by (auto simp: pipe_inv_def handled_def shard_def guest_ok_def intro!: exI [of _ 0] exI [of _ "[]"])
qed

lemma pipe_invD:
  assumes "pipe_inv env g job pl"
  obtains c qs where
    "executor_inv g (sj_num_provers job) (sj_prover_id job) c (pl_executor pl)"
    "pl_queue pl = map (segment_data g) qs" "\<forall>i \<in> set qs. i < gu_count g"
    "pl_stream_open pl \<longrightarrow>
       handled pl + mset qs = mset (shard (sj_num_provers job) (sj_prover_id job) c)"
    "\<forall>r \<in> set (pl_streamed pl). app_exact env g job r \<or> e2_count r \<noteq> []"
    "\<forall>c \<in> set (pl_consumers pl). \<forall>r \<in> set (cs_results c). app_exact env g job r"
    "pl_stream_open pl \<longrightarrow> e2_counts (pl_streamed pl) =
        (if executed_ok (pl_executor pl) \<and> sj_result_tx job \<and> sj_prover_id job = 0 then [gu_count g] else [])"
    "\<forall>c \<in> set (pl_consumers pl).
        (cs_status c = Drained \<longrightarrow> pl_queue pl = [] \<and> executor_stopped (pl_executor pl)) \<and>
        (\<forall>i. cs_status c = Stream_Closed i \<longrightarrow> \<not> pl_stream_open pl)"
  using assms unfolding pipe_inv_def by blast

lemma pipe_invI:
  assumes "executor_inv g (sj_num_provers job) (sj_prover_id job) c (pl_executor pl)"
    "pl_queue pl = map (segment_data g) qs" "\<forall>i \<in> set qs. i < gu_count g"
    "pl_stream_open pl \<longrightarrow>
       handled pl + mset qs = mset (shard (sj_num_provers job) (sj_prover_id job) c)"
    "\<forall>r \<in> set (pl_streamed pl). app_exact env g job r \<or> e2_count r \<noteq> []"
    "\<forall>c \<in> set (pl_consumers pl). \<forall>r \<in> set (cs_results c). app_exact env g job r"
    "pl_stream_open pl \<longrightarrow> e2_counts (pl_streamed pl) =
        (if executed_ok (pl_executor pl) \<and> sj_result_tx job \<and> sj_prover_id job = 0 then [gu_count g] else [])"
    "\<forall>c \<in> set (pl_consumers pl).
        (cs_status c = Drained \<longrightarrow> pl_queue pl = [] \<and> executor_stopped (pl_executor pl)) \<and>
        (\<forall>i. cs_status c = Stream_Closed i \<longrightarrow> \<not> pl_stream_open pl)"
  shows "pipe_inv env g job pl"
  using assms unfolding pipe_inv_def by blast

lemma handled_stream [simp]:
  "pl_stream_open pl \<Longrightarrow> handled (stream_result r pl) = handled pl + mset (app_index r)"
  by (simp add: stream_result_def handled_def ac_simps)

text \<open>The thread goes on after segment \<open>c\<close>, whose data (if it is ours) is now in the queue.\<close>

lemma advance_inv:
  assumes "brk = (Suc c = gu_count g)" "c < gu_count g"
    "mx_segments (et_state et) = map (guest_segment g) [0..<Suc c]"
    "Suc c < gu_count g \<longrightarrow> exec_at g (sj_num_provers job) (sj_prover_id job) (Suc c) et"
    "\<not> executor_stopped (pl_executor pl)"
    "pl_queue pl = map (segment_data g) qs" "\<forall>i \<in> set qs. i < gu_count g"
    "pl_stream_open pl \<longrightarrow>
       handled pl + mset qs = mset (shard (sj_num_provers job) (sj_prover_id job) (Suc c))"
    "\<forall>r \<in> set (pl_streamed pl). app_exact env g job r \<or> e2_count r \<noteq> []"
    "\<forall>c \<in> set (pl_consumers pl). \<forall>r \<in> set (cs_results c). app_exact env g job r"
    "pl_stream_open pl \<longrightarrow> e2_counts (pl_streamed pl) = []"
    "\<forall>c \<in> set (pl_consumers pl). cs_status c \<noteq> Drained \<and>
        (\<forall>i. cs_status c = Stream_Closed i \<longrightarrow> \<not> pl_stream_open pl)"
  shows "pipe_inv env g job (advance env job et brk pl)"
proof (cases "Suc c = gu_count g")
  case False
  then show ?thesis using assms
    by (intro pipe_invI [of _ _ "Suc c" _ qs]) (auto simp: advance_def)
next
  case True
  define x where "x = \<lparr>xr_execute_time_ms = ae_execute_time_ms env, xr_segments = map (guest_segment g) [0..<gu_count g],
      xr_num_segments = gu_count g\<rparr>"
  have fin: "advance env job et brk pl =
     (if sj_result_tx job \<and> sj_prover_id job = 0 then
        (case encode_segments (ae_encode_segment env) (xr_segments x) of
           Inl e \<Rightarrow> pl\<lparr>pl_executor := Stopped (Err e)\<rparr>
         | Inr bs \<Rightarrow> (stream_result (execute_e2_result (sj_context job) x bs) pl)\<lparr>pl_executor := Stopped (Ok x)\<rparr>)
      else pl\<lparr>pl_executor := Stopped (Ok x)\<rparr>)"
    using assms(1,3) True by (simp add: advance_def executor_finish_def Let_def x_def del: upt_Suc cong: sum.case_cong split: sum.split)
  have cnt: "e2_count (execute_e2_result (sj_context job) x bs) = [gu_count g]"
      "app_index (execute_e2_result (sj_context job) x bs) = []" for bs
    by (simp_all add: execute_e2_result_def x_def)
  have sh: "shard (sj_num_provers job) (sj_prover_id job) (gu_count g) =
      shard (sj_num_provers job) (sj_prover_id job) (Suc c)" using True by simp
  show ?thesis
    unfolding fin using assms(6-12) cnt sh
    by (intro pipe_invI [of _ _ "gu_count g" _ qs])
      (auto simp: x_def stream_result_def handled_def split: sum.splits)
qed

lemma executor_step_inv:
  assumes "guest_ok g" "vm_runs (ae_vm env) g" "0 < sj_num_provers job"
    "sj_prover_id job < sj_num_provers job" "pipe_inv env g job pl" "executor_step env job pl = Some pl'"
  shows "pipe_inv env g job pl'"
  using assms(5)
proof (rule pipe_invD)
  fix c qs
  assume ex: "executor_inv g (sj_num_provers job) (sj_prover_id job) c (pl_executor pl)"
    and q: "pl_queue pl = map (segment_data g) qs" "\<forall>i \<in> set qs. i < gu_count g"
    and acc: "pl_stream_open pl \<longrightarrow>
       handled pl + mset qs = mset (shard (sj_num_provers job) (sj_prover_id job) c)"
    and rs: "\<forall>r \<in> set (pl_streamed pl). app_exact env g job r \<or> e2_count r \<noteq> []"
      "\<forall>c \<in> set (pl_consumers pl). \<forall>r \<in> set (cs_results c). app_exact env g job r"
    and e2: "pl_stream_open pl \<longrightarrow> e2_counts (pl_streamed pl) =
        (if executed_ok (pl_executor pl) \<and> sj_result_tx job \<and> sj_prover_id job = 0 then [gu_count g] else [])"
    and st: "\<forall>c \<in> set (pl_consumers pl).
        (cs_status c = Drained \<longrightarrow> pl_queue pl = [] \<and> executor_stopped (pl_executor pl)) \<and>
        (\<forall>i. cs_status c = Stream_Closed i \<longrightarrow> \<not> pl_stream_open pl)"
  show ?thesis
  proof (cases "pl_executor pl")
    case (Executing et)
    then have c: "c < gu_count g" "exec_at g (sj_num_provers job) (sj_prover_id job) c et" using ex by simp_all
    obtain et' where it: "executor_iteration (ae_vm env) (sj_num_provers job) (sj_prover_id job) et =
        Ok (if c mod sj_num_provers job = sj_prover_id job then Some (segment_data g c) else None, et',
            Suc c = gu_count g)"
      "mx_segments (et_state et') = map (guest_segment g) [0..<Suc c]"
      "Suc c < gu_count g \<longrightarrow> exec_at g (sj_num_provers job) (sj_prover_id job) (Suc c) et'"
      using executor_iteration_at [OF assms(1-4) c] by blast
    show ?thesis
    proof (cases "c mod sj_num_provers job = sj_prover_id job")
      case True
      then have pl': "pl' = pl\<lparr>pl_executor := Sending (segment_data g c) et' (Suc c = gu_count g)\<rparr>"
        using assms(6) Executing it(1) by (simp add: executor_step_def)
      show ?thesis unfolding pl' using c it True q acc rs e2 st Executing
        by (intro pipe_invI [of _ _ c _ qs]) (auto simp del: upt_Suc)
    next
      case False
      then have pl': "pl' = advance env job et' (Suc c = gu_count g) pl"
        using assms(6) Executing it(1) by (simp add: executor_step_def)
      show ?thesis unfolding pl' using c it False q acc rs e2 st Executing
        by (intro advance_inv [of _ c _ _ _ _ qs]) (auto simp: shard_Suc simp del: upt_Suc)
    qed
  next
    case (Sending d et brk)
    then have c: "c < gu_count g" "c mod sj_num_provers job = sj_prover_id job" "d = segment_data g c"
        "brk = (Suc c = gu_count g)" "mx_segments (et_state et) = map (guest_segment g) [0..<Suc c]"
        "Suc c < gu_count g \<longrightarrow> exec_at g (sj_num_provers job) (sj_prover_id job) (Suc c) et"
      using ex by (simp_all del: upt_Suc)
    show ?thesis
    proof (cases "list_all (\<lambda>c. cs_status c \<noteq> Working) (pl_consumers pl)")
      case True
      then have pl': "pl' = pl\<lparr>pl_executor := Stopped (Err (disconnected_error pl))\<rparr>"
        using assms(6) Sending by (simp add: executor_step_def)
      have "executor_inv g (sj_num_provers job) (sj_prover_id job) c (pl_executor pl')"
        using c(1) by (simp add: pl')
      then show ?thesis using q acc rs e2 st Sending
        by (intro pipe_invI [of _ _ c _ qs]) (auto simp: pl')
    next
      case False
      then have pl': "pl' = advance env job et brk (pl\<lparr>pl_queue := pl_queue pl @ [d]\<rparr>)"
        using assms(6) Sending by (simp add: executor_step_def split: if_splits)
      show ?thesis unfolding pl' using c q acc rs e2 st Sending
        by (intro advance_inv [of _ c _ _ _ _ "qs @ [c]"]) (auto simp: shard_Suc simp del: upt_Suc)
    qed
  next
    case (Stopped r)
    then show ?thesis using assms(6) by (simp add: executor_step_def)
  qed
qed

lemma set_list_update_all:
  "\<forall>x \<in> set xs. P x \<Longrightarrow> P y \<Longrightarrow> \<forall>x \<in> set (xs[i := y]). P x"
  using set_update_subset_insert [of xs i y] by auto

lemma pipe_inv_set_consumer:
  assumes "executor_inv g (sj_num_provers job) (sj_prover_id job) n (pl_executor pl)"
    "pl_queue pl = map (segment_data g) qs" "\<forall>i \<in> set qs. i < gu_count g"
    "pl_stream_open pl \<longrightarrow> handled (pl\<lparr>pl_consumers := (pl_consumers pl)[k := c]\<rparr>) + mset qs =
       mset (shard (sj_num_provers job) (sj_prover_id job) n)"
    "\<forall>r \<in> set (pl_streamed pl). app_exact env g job r \<or> e2_count r \<noteq> []"
    "\<forall>c \<in> set (pl_consumers pl). \<forall>r \<in> set (cs_results c). app_exact env g job r"
    "pl_stream_open pl \<longrightarrow> e2_counts (pl_streamed pl) =
        (if executed_ok (pl_executor pl) \<and> sj_result_tx job \<and> sj_prover_id job = 0 then [gu_count g] else [])"
    "\<forall>c \<in> set (pl_consumers pl).
        (cs_status c = Drained \<longrightarrow> pl_queue pl = [] \<and> executor_stopped (pl_executor pl)) \<and>
        (\<forall>i. cs_status c = Stream_Closed i \<longrightarrow> \<not> pl_stream_open pl)"
    "\<forall>r \<in> set (cs_results c). app_exact env g job r"
    "(cs_status c = Drained \<longrightarrow> pl_queue pl = [] \<and> executor_stopped (pl_executor pl)) \<and>
       (\<forall>i. cs_status c = Stream_Closed i \<longrightarrow> \<not> pl_stream_open pl)"
  shows "pipe_inv env g job (pl\<lparr>pl_consumers := (pl_consumers pl)[k := c]\<rparr>)"
proof (rule pipe_invI)
  show "\<forall>c \<in> set (pl_consumers (pl\<lparr>pl_consumers := (pl_consumers pl)[k := c]\<rparr>)).
      \<forall>r \<in> set (cs_results c). app_exact env g job r"
    using set_list_update_all [OF assms(6,9)] by simp
  show "\<forall>c' \<in> set (pl_consumers (pl\<lparr>pl_consumers := (pl_consumers pl)[k := c]\<rparr>)).
        (cs_status c' = Drained \<longrightarrow> pl_queue (pl\<lparr>pl_consumers := (pl_consumers pl)[k := c]\<rparr>) = [] \<and>
           executor_stopped (pl_executor (pl\<lparr>pl_consumers := (pl_consumers pl)[k := c]\<rparr>))) \<and>
        (\<forall>i. cs_status c' = Stream_Closed i \<longrightarrow> \<not> pl_stream_open (pl\<lparr>pl_consumers := (pl_consumers pl)[k := c]\<rparr>))"
    using set_list_update_all [OF assms(8,10)] by simp
qed (use assms(1-5,7) in simp_all)

lemma deliver_result_inv:
  assumes "app_exact env g job r" "app_index r = [i]" "e2_count r = []" "k < length (pl_consumers pl)"
    "cs_status (pl_consumers pl ! k) = Working" "c = (pl_consumers pl ! k)\<lparr>cs_gpu := gpu\<rparr>"
    "executor_inv g (sj_num_provers job) (sj_prover_id job) n (pl_executor pl)"
    "pl_queue pl = map (segment_data g) qs" "\<forall>i \<in> set qs. i < gu_count g"
    "pl_stream_open pl \<longrightarrow>
       handled pl + mset (i # qs) = mset (shard (sj_num_provers job) (sj_prover_id job) n)"
    "\<forall>r \<in> set (pl_streamed pl). app_exact env g job r \<or> e2_count r \<noteq> []"
    "\<forall>c \<in> set (pl_consumers pl). \<forall>r \<in> set (cs_results c). app_exact env g job r"
    "pl_stream_open pl \<longrightarrow> e2_counts (pl_streamed pl) =
        (if executed_ok (pl_executor pl) \<and> sj_result_tx job \<and> sj_prover_id job = 0 then [gu_count g] else [])"
    "\<forall>c \<in> set (pl_consumers pl).
        (cs_status c = Drained \<longrightarrow> pl_queue pl = [] \<and> executor_stopped (pl_executor pl)) \<and>
        (\<forall>i. cs_status c = Stream_Closed i \<longrightarrow> \<not> pl_stream_open pl)"
  shows "pipe_inv env g job (deliver_result job k i r c pl)"
proof -
  have gpu: "consumed c = consumed (pl_consumers pl ! k)" "cs_results c = cs_results (pl_consumers pl ! k)"
      "cs_status c = Working"
    using assms(5,6) by (simp_all add: consumed_def)
  have old: "\<forall>r \<in> set (cs_results c). app_exact env g job r" using assms(12) nth_mem [OF assms(4)] gpu(2) by simp
  note upd = handled_set_consumer [OF assms(4)]
  consider "\<not> sj_result_tx job" | "sj_result_tx job" "pl_stream_open pl \<or> k = 0"
    | "sj_result_tx job" "\<not> pl_stream_open pl" "k \<noteq> 0" by blast
  then show ?thesis
  proof cases
    case 1
    define c' where "c' = c\<lparr>cs_results := cs_results c @ [r]\<rparr>"
    have "consumed c' = add_mset i (consumed (pl_consumers pl ! k))"
      using gpu(1) assms(2) by (simp add: c'_def consumed_def)
    then have h: "handled (pl\<lparr>pl_consumers := (pl_consumers pl)[k := c']\<rparr>) = add_mset i (handled pl)"
      using upd [of c'] by simp
    have c': "\<forall>r \<in> set (cs_results c'). app_exact env g job r" "cs_status c' = Working"
      using assms(1) old gpu by (auto simp: c'_def)
    have res: "deliver_result job k i r c pl = pl\<lparr>pl_consumers := (pl_consumers pl)[k := c']\<rparr>"
      using 1 by (simp add: deliver_result_def c'_def)
    show ?thesis unfolding res
      by (rule pipe_inv_set_consumer [OF assms(7-9) _ assms(11-14) c'(1)]) (use h assms(10) c'(2) in simp_all)
  next
    case 2
    define pl' where "pl' = stream_result r pl"
    have same: "pl_executor pl' = pl_executor pl" "pl_queue pl' = pl_queue pl" "pl_consumers pl' = pl_consumers pl"
        "pl_stream_open pl' = pl_stream_open pl" "set (pl_streamed pl') \<subseteq> insert r (set (pl_streamed pl))"
        "e2_counts (pl_streamed pl') = e2_counts (pl_streamed pl)"
      using assms(3) by (auto simp: pl'_def stream_result_def)
    have h: "handled (pl'\<lparr>pl_consumers := (pl_consumers pl')[k := c]\<rparr>) = handled pl'"
      using handled_set_consumer [of k pl' c] assms(4) gpu(1) by (simp add: same(3))
    have hs: "pl_stream_open pl \<longrightarrow> handled pl' = add_mset i (handled pl)"
      using assms(2) by (simp add: pl'_def)
    have res: "deliver_result job k i r c pl = pl'\<lparr>pl_consumers := (pl_consumers pl')[k := c]\<rparr>"
      using 2 by (simp add: deliver_result_def pl'_def)
    have streamed: "\<forall>r \<in> set (pl_streamed pl'). app_exact env g job r \<or> e2_count r \<noteq> []"
      using same(5) assms(1,11) by auto
    show ?thesis unfolding res
      by (rule pipe_inv_set_consumer [where n = n and qs = qs, OF _ _ assms(9) _ streamed _ _ _ old])
        (use h hs assms(7,8,10,12-14) gpu(3) in \<open>simp_all add: same(1-4,6)\<close>)
  next
    case 3
    define c' where "c' = c\<lparr>cs_status := Stream_Closed i\<rparr>"
    have res: "deliver_result job k i r c pl = pl\<lparr>pl_consumers := (pl_consumers pl)[k := c']\<rparr>"
      using 3 by (simp add: deliver_result_def c'_def)
    show ?thesis unfolding res
      by (rule pipe_inv_set_consumer [OF assms(7-9) _ assms(11-14)])
        (use 3 old in \<open>simp_all add: c'_def\<close>)
  qed
qed

lemma prove_segment_failed:
  "prove_segment env ctx b gpu (segment_data g i) = (gpu', Inl f) \<Longrightarrow> dt_segment_idx (segment_data g i) = i"
  by (simp add: segment_data_def)

lemma consumer_step_inv:
  assumes "guest_ok g" "vm_runs (ae_vm env) g" "pipe_inv env g job pl" "consumer_step env job k pl = Some pl'"
  shows "pipe_inv env g job pl'"
  using assms(3)
proof (rule pipe_invD)
  fix n qs
  assume ex: "executor_inv g (sj_num_provers job) (sj_prover_id job) n (pl_executor pl)"
    and q: "pl_queue pl = map (segment_data g) qs" "\<forall>i \<in> set qs. i < gu_count g"
    and acc: "pl_stream_open pl \<longrightarrow>
       handled pl + mset qs = mset (shard (sj_num_provers job) (sj_prover_id job) n)"
    and rs: "\<forall>r \<in> set (pl_streamed pl). app_exact env g job r \<or> e2_count r \<noteq> []"
      "\<forall>c \<in> set (pl_consumers pl). \<forall>r \<in> set (cs_results c). app_exact env g job r"
    and e2: "pl_stream_open pl \<longrightarrow> e2_counts (pl_streamed pl) =
        (if executed_ok (pl_executor pl) \<and> sj_result_tx job \<and> sj_prover_id job = 0 then [gu_count g] else [])"
    and st: "\<forall>c \<in> set (pl_consumers pl).
        (cs_status c = Drained \<longrightarrow> pl_queue pl = [] \<and> executor_stopped (pl_executor pl)) \<and>
        (\<forall>i. cs_status c = Stream_Closed i \<longrightarrow> \<not> pl_stream_open pl)"
  have k: "k < length (pl_consumers pl)" "cs_status (pl_consumers pl ! k) = Working"
    using assms(4) by (auto simp: consumer_step_def split: if_splits)
  define c where "c = pl_consumers pl ! k"
  have old: "\<forall>r \<in> set (cs_results c). app_exact env g job r"
    using rs(2) nth_mem [OF k(1)] by (simp add: c_def)
  have work: "cs_status c = Working" using k(2) by (simp add: c_def)
  note upd = handled_set_consumer [OF k(1), folded c_def]
  show ?thesis
  proof (cases qs)
    case Nil
    define c' where "c' = c\<lparr>cs_status := Drained\<rparr>"
    have stop: "executor_stopped (pl_executor pl)" and pl': "pl' = pl\<lparr>pl_consumers := (pl_consumers pl)[k := c']\<rparr>"
      using assms(4) k Nil q(1)
      by (auto simp: consumer_step_def Let_def c_def c'_def split: executor.splits)
    have "consumed c' = consumed c" using work by (simp add: c'_def consumed_def)
    then have h: "handled (pl\<lparr>pl_consumers := (pl_consumers pl)[k := c']\<rparr>) = handled pl" using upd [of c'] by simp
    show ?thesis unfolding pl'
      by (rule pipe_inv_set_consumer [OF ex q _ rs e2 st])
        (use h acc old stop Nil q in \<open>simp_all add: c'_def\<close>)
  next
    case (Cons i qs')
    define pl1 where "pl1 = pl\<lparr>pl_queue := map (segment_data g) qs'\<rparr>"
    have i: "i < gu_count g" using q(2) Cons by simp
    have nodrain: "\<forall>c \<in> set (pl_consumers pl1).
        (cs_status c = Drained \<longrightarrow> pl_queue pl1 = [] \<and> executor_stopped (pl_executor pl1)) \<and>
        (\<forall>i. cs_status c = Stream_Closed i \<longrightarrow> \<not> pl_stream_open pl1)"
      using st q(1) Cons by (auto simp: pl1_def)
    have base: "executor_inv g (sj_num_provers job) (sj_prover_id job) n (pl_executor pl1)"
        "pl_queue pl1 = map (segment_data g) qs'" "\<forall>i \<in> set qs'. i < gu_count g"
        "\<forall>r \<in> set (pl_streamed pl1). app_exact env g job r \<or> e2_count r \<noteq> []"
        "\<forall>c \<in> set (pl_consumers pl1). \<forall>r \<in> set (cs_results c). app_exact env g job r"
        "pl_stream_open pl1 \<longrightarrow> e2_counts (pl_streamed pl1) =
           (if executed_ok (pl_executor pl1) \<and> sj_result_tx job \<and> sj_prover_id job = 0 then [gu_count g] else [])"
      using ex q Cons rs e2 by (simp_all add: pl1_def)
    obtain gpu res where ps: "prove_segment env (sj_context job) (sj_deferral_state_paths job \<noteq> [])
        (cs_gpu c) (segment_data g i) = (gpu, res)" by fastforce
    show ?thesis
    proof (cases res)
      case (Inl f)
      define c' where "c' = c\<lparr>cs_gpu := gpu, cs_status := Failed_At i f\<rparr>"
      have pl': "pl' = pl1\<lparr>pl_consumers := (pl_consumers pl1)[k := c']\<rparr>"
        using assms(4) k q(1) Cons ps Inl
        by (simp add: consumer_step_def Let_def c_def [symmetric] c'_def pl1_def prove_segment_failed_index)
      have "consumed c' = add_mset i (consumed c)" using work by (simp add: c'_def consumed_def)
      then have h: "handled (pl1\<lparr>pl_consumers := (pl_consumers pl1)[k := c']\<rparr>) = add_mset i (handled pl)"
        using handled_set_consumer [of k pl1 c'] k(1) by (simp add: pl1_def c_def [symmetric])
      show ?thesis unfolding pl'
        by (rule pipe_inv_set_consumer [OF base(1-3) _ base(4-6) nodrain])
          (use h acc old Cons in \<open>simp_all add: c'_def pl1_def\<close>)
    next
      case (Inr r)
      have ex_r: "app_exact env g job r" "app_index r = [i]" "e2_count r = []"
        using prove_segment_exact [OF assms(1,2) i ps [unfolded Inr]] by simp_all
      have pl': "pl' = deliver_result job k i r (c\<lparr>cs_gpu := gpu\<rparr>) pl1"
        using assms(4) k q(1) Cons ps Inr
        by (simp add: consumer_step_def Let_def c_def [symmetric] pl1_def prove_segment_failed_index)
      show ?thesis unfolding pl'
        by (rule deliver_result_inv [OF ex_r _ _ _ base(1-3) _ base(4-6) nodrain])
          (use k acc Cons in \<open>simp_all add: pl1_def c_def\<close>)
    qed
  qed
qed

lemma pipe_step_inv:
  assumes "guest_ok g" "vm_runs (ae_vm env) g" "sj_prover_id job < sj_num_provers job"
    "pipe_inv env g job pl" "pipe_step env job e pl = Some pl'"
  shows "pipe_inv env g job pl'"
proof (cases e)
  case Run_Executor
  then show ?thesis using executor_step_inv [OF assms(1,2) _ assms(3,4)] assms(3,5) by simp
next
  case (Run_Consumer k)
  then show ?thesis using consumer_step_inv [OF assms(1,2,4)] assms(5) by simp
next
  case Close_Stream
  then have "pl' = pl\<lparr>pl_stream_open := False\<rparr>" using assms(5) by simp
  then show ?thesis using assms(4) by (auto simp: pipe_inv_def)
qed

lemma pipe_run_inv:
  assumes "guest_ok g" "vm_runs (ae_vm env) g" "sj_prover_id job < sj_num_provers job"
  shows "pipe_inv env g job pl \<Longrightarrow> pipe_run env job es pl = Some pl' \<Longrightarrow> pipe_inv env g job pl'"
  by (induction es arbitrary: pl) (auto split: option.splits dest: pipe_step_inv [OF assms])

section \<open>Ended runs\<close>

text \<open>A job that starts on a guest: the VM of the environment runs it from its initial state.\<close>

definition guest_run ::
  "('s, 'c, 'h, 'g, 'p, 'm, 'u, 'i, 'k, 'd, 'x, 'n) app_env \<Rightarrow> sharded_app_prover_job \<Rightarrow> 'g list \<Rightarrow>
     ('s, 'c, 'h) guest \<Rightarrow> ('s, 'c, 'h, 'g) pipeline \<Rightarrow> bool" where
  "guest_run env job gpus g pl \<longleftrightarrow>
     guest_ok g \<and> vm_runs (ae_vm env) g \<and> gpus \<noteq> [] \<and> pipeline_start env job gpus = Inr pl \<and>
     pl_executor pl = Executing (exec_thread_start (sj_prover_id job) (gu_state g 0) (gu_ctx g 0))"

text \<open>The results of the consumers other than the coordinator, and all results of a run.\<close>

definition consumers_succeed :: "('s, 'c, 'h, 'g) pipeline \<Rightarrow> bool" where
  "consumers_succeed pl \<longleftrightarrow>
     list_all (\<lambda>c. consumer_prover_result c = ProverSuccess (cs_results c)) (tl (pl_consumers pl))"

definition emitted :: "('s, 'c, 'h, 'g) pipeline \<Rightarrow> proof_result list \<Rightarrow> proof_result list" where
  "emitted pl rs = pl_streamed pl @ rs @ concat (map cs_results (tl (pl_consumers pl)))"

lemma guest_runD:
  assumes "guest_run env job gpus g pl"
  shows "guest_ok g" "vm_runs (ae_vm env) g" "sj_prover_id job < sj_num_provers job" "pipe_inv env g job pl"
    "length (pl_consumers pl) = length gpus" "gpus \<noteq> []"
proof -
  show ok: "guest_ok g" "vm_runs (ae_vm env) g" "gpus \<noteq> []"
    using assms by (simp_all add: guest_run_def)
  show p: "sj_prover_id job < sj_num_provers job"
    using assms by (auto simp: guest_run_def pipeline_start_def split: if_splits)
  have pl: "pl = \<lparr>pl_executor = Executing (exec_thread_start (sj_prover_id job) (gu_state g 0) (gu_ctx g 0)),
      pl_queue = [], pl_consumers = map (\<lambda>g. \<lparr>cs_gpu = g, cs_results = [], cs_status = Working\<rparr>) gpus,
      pl_streamed = [], pl_stream_open = True\<rparr>"
    using assms by (auto simp: guest_run_def pipeline_start_def bind_sum_eq_Inr split: if_splits)
  show "pipe_inv env g job pl" unfolding pl by (rule pipe_inv_start [OF ok(1) p])
  show "length (pl_consumers pl) = length gpus" by (simp add: pl)
qed

lemma guest_run_inv:
  assumes "guest_run env job gpus g pl" "pipe_run env job es pl = Some pl'"
  shows "pipe_inv env g job pl'"
  using pipe_run_inv [OF guest_runD(1-3) [OF assms(1)] guest_runD(4) [OF assms(1)] assms(2)] .

lemma deliver_result_consumers: "length (pl_consumers (deliver_result job k i r c pl)) = length (pl_consumers pl)"
  by (simp add: deliver_result_def Let_def stream_result_def)

lemma advance_consumers: "pl_consumers (advance env job et brk pl) = pl_consumers pl"
  by (simp add: advance_def executor_finish_def Let_def stream_result_def split: sum.splits)

lemma pipe_step_consumers:
  assumes "pipe_step env job e pl = Some pl'"
  shows "length (pl_consumers pl') = length (pl_consumers pl)"
proof (cases e)
  case Run_Executor
  then show ?thesis using assms
    by (auto simp: executor_step_def advance_consumers split: executor.splits outcome.splits option.splits if_splits)
next
  case (Run_Consumer k)
  then show ?thesis using assms
    by (auto simp: consumer_step_def Let_def deliver_result_consumers
        split: executor.splits list.splits prod.splits sum.splits if_splits)
qed (use assms in auto)

lemma pipe_run_consumers:
  "pipe_run env job es pl = Some pl' \<Longrightarrow> length (pl_consumers pl') = length (pl_consumers pl)"
  by (induction es arbitrary: pl) (auto split: option.splits dest: pipe_step_consumers)

lemma sum_list_consumed:
  "\<forall>c \<in> set cs. stopped_at (cs_status c) = [] \<Longrightarrow>
     sum_list (map consumed cs) = mset (app_indices (concat (map cs_results cs)))"
  by (induction cs) (simp_all add: consumed_def)

lemma e2_counts_exact: "\<forall>r \<in> set rs. app_exact env g job r \<Longrightarrow> e2_counts rs = []"
  by (induction rs) (auto dest: app_exact_index)

text \<open>A successful end: everything was executed, sent and proved.\<close>

lemma successful_end:
  assumes "pipe_inv env g job pl" "pl_consumers pl \<noteq> []" "pipeline_ended pl" "pl_stream_open pl"
    "coordinator_result env job pl = Inr rs" "consumers_succeed pl"
  shows "mset (app_indices (emitted pl rs)) = mset (shard (sj_num_provers job) (sj_prover_id job) (gu_count g)) \<and>
    e2_counts (emitted pl rs) = (if sj_prover_id job = 0 then [gu_count g] else []) \<and>
    (\<forall>r \<in> set (emitted pl rs). app_exact env g job r \<or> e2_count r \<noteq> [])"
  using assms(1)
proof (rule pipe_invD)
  fix n qs
  assume ex: "executor_inv g (sj_num_provers job) (sj_prover_id job) n (pl_executor pl)"
    and q: "pl_queue pl = map (segment_data g) qs" "\<forall>i \<in> set qs. i < gu_count g"
    and acc: "pl_stream_open pl \<longrightarrow>
       handled pl + mset qs = mset (shard (sj_num_provers job) (sj_prover_id job) n)"
    and rs: "\<forall>r \<in> set (pl_streamed pl). app_exact env g job r \<or> e2_count r \<noteq> []"
      "\<forall>c \<in> set (pl_consumers pl). \<forall>r \<in> set (cs_results c). app_exact env g job r"
    and e2: "pl_stream_open pl \<longrightarrow> e2_counts (pl_streamed pl) =
        (if executed_ok (pl_executor pl) \<and> sj_result_tx job \<and> sj_prover_id job = 0 then [gu_count g] else [])"
    and st: "\<forall>c \<in> set (pl_consumers pl).
        (cs_status c = Drained \<longrightarrow> pl_queue pl = [] \<and> executor_stopped (pl_executor pl)) \<and>
        (\<forall>i. cs_status c = Stream_Closed i \<longrightarrow> \<not> pl_stream_open pl)"
  obtain c0 cs where cs: "pl_consumers pl = c0 # cs" using assms(2) by (cases "pl_consumers pl") auto
  obtain r where stop: "pl_executor pl = Stopped r"
    using assms(3) by (auto simp: pipeline_ended_def split: executor.splits)
  have noclose: "\<forall>c \<in> set (pl_consumers pl). \<forall>i. cs_status c \<noteq> Stream_Closed i" using st assms(4) by blast
  have nowork: "\<forall>c \<in> set (pl_consumers pl). cs_status c \<noteq> Working"
    using assms(3) by (simp add: pipeline_ended_def list_all_iff)
  have nofail0: "cs_status c0 \<noteq> Failed_At i f" for i f
    using assms(5) cs stop by (cases f; cases r) (auto simp: coordinator_result_def)
  then have d0: "cs_status c0 = Drained" using noclose nowork cs by (cases "cs_status c0") auto
  then have empty: "qs = []" using st cs q by auto
  obtain x where r: "r = Ok x" "xr_num_segments x = gu_count g" "xr_segments x = map (guest_segment g) [0..<gu_count g]"
      "n = gu_count g"
    using assms(5) cs stop d0 ex
    by (cases r) (auto simp: coordinator_result_def to_sum_def)
  have good: "\<forall>c \<in> set (pl_consumers pl). stopped_at (cs_status c) = []"
  proof
    fix c assume "c \<in> set (pl_consumers pl)"
    then have "c = c0 \<or> c \<in> set cs" using cs by simp
    then show "stopped_at (cs_status c) = []"
      using d0 assms(6) cs by (cases "cs_status c") (auto simp: consumers_succeed_def list_all_iff consumer_prover_result_def)
  qed
  have h: "mset (app_indices (pl_streamed pl)) + mset (app_indices (cs_results c0)) +
      mset (app_indices (concat (map cs_results cs))) = mset (shard (sj_num_provers job) (sj_prover_id job) (gu_count g))"
  proof -
    have "handled pl = mset (app_indices (pl_streamed pl)) + mset (app_indices (concat (map cs_results (pl_consumers pl))))"
      unfolding handled_def sum_list_consumed [OF good] ..
    then show ?thesis using acc assms(4) empty r(4) cs by (simp add: ac_simps)
  qed
  have res: "if sj_prover_id job = 0 \<and> \<not> sj_result_tx job
      then \<exists>bs. rs = execute_e2_result (sj_context job) x bs # cs_results c0 else rs = cs_results c0"
    using assms(5) cs stop d0 r(1)
    by (auto simp: coordinator_result_def to_sum_def bind_sum_eq_Inr split: if_splits)
  then have idx: "app_indices rs = app_indices (cs_results c0)"
    by (auto simp: execute_e2_result_def split: if_splits)
  have none: "e2_counts (cs_results c0) = []" "e2_counts (concat (map cs_results cs)) = []"
    using rs(2) cs by (auto intro!: e2_counts_exact [of _ env g job])
  have cnt: "e2_counts rs = (if sj_prover_id job = 0 \<and> \<not> sj_result_tx job then [gu_count g] else [])"
    using res none r(2) by (auto simp: execute_e2_result_def split: if_splits)
  have ok: "executed_ok (pl_executor pl)" using stop r(1) by simp
  have "mset (app_indices (emitted pl rs)) = mset (shard (sj_num_provers job) (sj_prover_id job) (gu_count g))"
    using h by (simp add: emitted_def cs idx ac_simps)
  moreover have "e2_counts (emitted pl rs) = (if sj_prover_id job = 0 then [gu_count g] else [])"
    using e2 assms(4) cnt none ok cs by (simp add: emitted_def)
  moreover have "\<forall>r \<in> set (emitted pl rs). app_exact env g job r \<or> e2_count r \<noteq> []"
    using rs res cs by (auto simp: emitted_def execute_e2_result_def split: if_splits)
  ultimately show ?thesis by blast
qed

section \<open>Progress\<close>

fun executor_rank :: "nat \<Rightarrow> ('s, 'c, 'h) executor \<Rightarrow> nat" where
  "executor_rank m (Executing et) = 3 * (m - length (mx_segments (et_state et))) + 1"
| "executor_rank m (Sending d et brk) = 3 * (Suc m - length (mx_segments (et_state et)))"
| "executor_rank m (Stopped r) = 0"

definition working :: "('s, 'c, 'h, 'g) pipeline \<Rightarrow> nat" where
  "working pl = sum_list (map (\<lambda>c. if cs_status c = Working then 1 else 0) (pl_consumers pl))"

definition pipe_rank :: "('s, 'c, 'h) guest \<Rightarrow> ('s, 'c, 'h, 'g) pipeline \<Rightarrow> nat" where
  "pipe_rank g pl = executor_rank (gu_count g) (pl_executor pl) + length (pl_queue pl) + working pl"

lemma working_set:
  "k < length (pl_consumers pl) \<Longrightarrow>
     working (pl\<lparr>pl_consumers := (pl_consumers pl)[k := c]\<rparr>) + (if cs_status (pl_consumers pl ! k) = Working then 1 else 0) =
     working pl + (if cs_status c = Working then 1 else 0)"
  using sum_list_map_update [of k "pl_consumers pl" "\<lambda>c. if cs_status c = Working then 1 else 0 :: nat" c]
  by (simp add: working_def)

lemma advance_rank:
  assumes "brk = (Suc c = gu_count g)" "c < gu_count g" "mx_segments (et_state et) = map (guest_segment g) [0..<Suc c]"
  shows "pipe_rank g (advance env job et brk pl) \<le> 3 * (gu_count g - Suc c) + (if brk then 0 else 1) + length (pl_queue pl) + working pl"
  using assms
  by (auto simp: advance_def executor_finish_def Let_def pipe_rank_def working_def stream_result_def split: sum.splits)

lemma executor_step_rank:
  assumes "guest_ok g" "vm_runs (ae_vm env) g" "sj_prover_id job < sj_num_provers job"
    "pipe_inv env g job pl" "executor_step env job pl = Some pl'"
  shows "pipe_rank g pl' < pipe_rank g pl"
  using assms(4)
proof (rule pipe_invD)
  fix c qs
  assume ex: "executor_inv g (sj_num_provers job) (sj_prover_id job) c (pl_executor pl)"
  show ?thesis
  proof (cases "pl_executor pl")
    case (Executing et)
    then have c: "c < gu_count g" "exec_at g (sj_num_provers job) (sj_prover_id job) c et" using ex by simp_all
    have len: "length (mx_segments (et_state et)) = c" using c(2) by (simp add: exec_at_def metered_of_def)
    have n: "0 < sj_num_provers job" using assms(3) by simp
    obtain et' where it: "executor_iteration (ae_vm env) (sj_num_provers job) (sj_prover_id job) et =
        Ok (if c mod sj_num_provers job = sj_prover_id job then Some (segment_data g c) else None, et',
            Suc c = gu_count g)" "mx_segments (et_state et') = map (guest_segment g) [0..<Suc c]"
      using executor_iteration_at [OF assms(1,2) n assms(3) c] by blast
    have rank: "pipe_rank g pl = 3 * (gu_count g - c) + 1 + length (pl_queue pl) + working pl"
      using Executing len by (simp add: pipe_rank_def)
    show ?thesis
    proof (cases "c mod sj_num_provers job = sj_prover_id job")
      case True
      then have "pl' = pl\<lparr>pl_executor := Sending (segment_data g c) et' (Suc c = gu_count g)\<rparr>"
        using assms(5) Executing it(1) by (simp add: executor_step_def)
      then have "pipe_rank g pl' = 3 * (gu_count g - c) + length (pl_queue pl) + working pl"
        using it(2) by (simp add: pipe_rank_def working_def)
      then show ?thesis using rank by simp
    next
      case False
      then have pl': "pl' = advance env job et' (Suc c = gu_count g) pl"
        using assms(5) Executing it(1) by (simp add: executor_step_def)
      show ?thesis using advance_rank [OF refl c(1) it(2), of env job pl] rank c(1) by (auto simp: pl' split: if_splits)
    qed
  next
    case (Sending d et brk)
    then have c: "c < gu_count g" "brk = (Suc c = gu_count g)"
        "mx_segments (et_state et) = map (guest_segment g) [0..<Suc c]"
      using ex by (simp_all del: upt_Suc)
    have rank: "pipe_rank g pl = 3 * (gu_count g - c) + length (pl_queue pl) + working pl"
      using Sending c(3) by (simp add: pipe_rank_def)
    show ?thesis
    proof (cases "list_all (\<lambda>c. cs_status c \<noteq> Working) (pl_consumers pl)")
      case True
      then have "pl' = pl\<lparr>pl_executor := Stopped (Err (disconnected_error pl))\<rparr>"
        using assms(5) Sending by (simp add: executor_step_def)
      then have "pipe_rank g pl' = length (pl_queue pl) + working pl" by (simp add: pipe_rank_def working_def)
      then show ?thesis using rank c(1) by simp
    next
      case False
      then have pl': "pl' = advance env job et brk (pl\<lparr>pl_queue := pl_queue pl @ [d]\<rparr>)"
        using assms(5) Sending by (simp add: executor_step_def split: if_splits)
      show ?thesis using advance_rank [OF c(2,1,3), of env job "pl\<lparr>pl_queue := pl_queue pl @ [d]\<rparr>"] rank c(1)
        by (auto simp: pl' working_def split: if_splits)
    qed
  next
    case (Stopped r)
    then show ?thesis using assms(5) by (simp add: executor_step_def)
  qed
qed

lemma deliver_result_rank:
  assumes "k < length (pl_consumers pl)" "cs_status (pl_consumers pl ! k) = Working" "cs_status c = Working"
  shows "pipe_rank g (deliver_result job k i r c pl) \<le> pipe_rank g pl"
proof -
  have w: "working (pl\<lparr>pl_consumers := (pl_consumers pl)[k := c']\<rparr>) \<le> working pl" for c'
    using working_set [OF assms(1), of c'] assms(2) by (auto split: if_splits)
  have "working (pl\<lparr>pl_streamed := s, pl_consumers := (pl_consumers pl)[k := c']\<rparr>) \<le> working pl" for s c'
    using w [of c'] by (simp add: working_def)
  then show ?thesis using w
    by (auto simp: deliver_result_def Let_def stream_result_def pipe_rank_def)
qed

lemma consumer_step_rank:
  assumes "consumer_step env job k pl = Some pl'"
  shows "pipe_rank g pl' < pipe_rank g pl"
proof -
  have k: "k < length (pl_consumers pl)" "cs_status (pl_consumers pl ! k) = Working"
    using assms by (auto simp: consumer_step_def split: if_splits)
  define c where "c = pl_consumers pl ! k"
  have work: "cs_status c = Working" using k(2) by (simp add: c_def)
  show ?thesis
  proof (cases "pl_queue pl")
    case Nil
    then have pl': "pl' = pl\<lparr>pl_consumers := (pl_consumers pl)[k := c\<lparr>cs_status := Drained\<rparr>]\<rparr>"
      using assms k by (auto simp: consumer_step_def Let_def c_def split: executor.splits)
    show ?thesis using working_set [OF k(1), of "c\<lparr>cs_status := Drained\<rparr>"] k(2)
      by (simp add: pl' pipe_rank_def)
  next
    case (Cons d q)
    define pl1 where "pl1 = pl\<lparr>pl_queue := q\<rparr>"
    have r1: "pipe_rank g pl1 < pipe_rank g pl" using Cons by (simp add: pl1_def pipe_rank_def working_def)
    obtain gpu res where ps: "prove_segment env (sj_context job) (sj_deferral_state_paths job \<noteq> []) (cs_gpu c) d = (gpu, res)"
      by fastforce
    show ?thesis
    proof (cases res)
      case (Inl f)
      define c' where "c' = c\<lparr>cs_gpu := gpu, cs_status := Failed_At (dt_segment_idx d) f\<rparr>"
      have pl': "pl' = pl1\<lparr>pl_consumers := (pl_consumers pl1)[k := c']\<rparr>"
        using assms k Cons ps Inl by (simp add: consumer_step_def Let_def c_def [symmetric] c'_def pl1_def)
      show ?thesis using working_set [of k pl1 c'] k r1
        by (simp add: pl' pipe_rank_def c'_def pl1_def)
    next
      case (Inr r)
      have pl': "pl' = deliver_result job k (dt_segment_idx d) r (c\<lparr>cs_gpu := gpu\<rparr>) pl1"
        using assms k Cons ps Inr by (simp add: consumer_step_def Let_def c_def [symmetric] pl1_def)
      have "pipe_rank g pl' \<le> pipe_rank g pl1"
        unfolding pl' using k work by (intro deliver_result_rank) (simp_all add: pl1_def)
      then show ?thesis using r1 by simp
    qed
  qed
qed

lemma pipe_run_rank:
  assumes "guest_ok g" "vm_runs (ae_vm env) g" "sj_prover_id job < sj_num_provers job"
  shows "pipe_inv env g job pl \<Longrightarrow> pipe_run env job es pl = Some pl' \<Longrightarrow>
     length (filter (\<lambda>e. e \<noteq> Close_Stream) es) + pipe_rank g pl' \<le> pipe_rank g pl"
proof (induction es arbitrary: pl)
  case (Cons e es)
  then obtain pl1 where s: "pipe_step env job e pl = Some pl1" "pipe_run env job es pl1 = Some pl'"
    by (auto split: option.splits)
  have ih: "length (filter (\<lambda>e. e \<noteq> Close_Stream) es) + pipe_rank g pl' \<le> pipe_rank g pl1"
    using Cons.IH [OF pipe_step_inv [OF assms Cons.prems(1) s(1)] s(2)] .
  show ?case
  proof (cases e)
    case Run_Executor
    then show ?thesis using executor_step_rank [OF assms Cons.prems(1)] s(1) ih by fastforce
  next
    case (Run_Consumer k)
    then show ?thesis using consumer_step_rank [of env job k pl pl1 g] s(1) ih by simp
  next
    case Close_Stream
    then have "pl1 = pl\<lparr>pl_stream_open := False\<rparr>" using s(1) by simp
    then have "pipe_rank g pl1 = pipe_rank g pl" by (simp add: pipe_rank_def working_def)
    then show ?thesis using ih Close_Stream by simp
  qed
qed simp

text \<open>Some thread can always take a step.\<close>

lemma pipe_enabled:
  assumes "guest_ok g" "vm_runs (ae_vm env) g" "sj_prover_id job < sj_num_provers job"
    "pipe_inv env g job pl" "\<not> pipeline_ended pl" "pl_consumers pl \<noteq> []"
  shows "\<exists>e pl'. e \<noteq> Close_Stream \<and> pipe_step env job e pl = Some pl'"
proof -
  have consume: "\<exists>pl'. pipe_step env job (Run_Consumer k) pl = Some pl'"
    if "k < length (pl_consumers pl)" "cs_status (pl_consumers pl ! k) = Working"
      "pl_queue pl \<noteq> [] \<or> executor_stopped (pl_executor pl)" for k
    using that
    by (cases "pl_queue pl")
      (auto simp: consumer_step_def Let_def executor_stopped_def split: executor.splits prod.splits sum.splits)
  have worker: "\<exists>k. k < length (pl_consumers pl) \<and> cs_status (pl_consumers pl ! k) = Working"
    if "\<not> list_all (\<lambda>c. cs_status c \<noteq> Working) (pl_consumers pl)"
    using that by (auto simp: list_all_length)
  show ?thesis
  proof (cases "pl_executor pl")
    case (Executing et)
    have "\<exists>pl'. executor_step env job pl = Some pl'"
      using Executing by (auto simp: executor_step_def split: outcome.splits prod.splits option.splits)
    then show ?thesis by (intro exI [of _ Run_Executor]) simp
  next
    case (Sending d et brk)
    show ?thesis
    proof (cases "list_all (\<lambda>c. cs_status c \<noteq> Working) (pl_consumers pl) \<or> length (pl_queue pl) < channel_capacity pl")
      case True
      then have "\<exists>pl'. executor_step env job pl = Some pl'" using Sending by (auto simp: executor_step_def)
      then show ?thesis by (intro exI [of _ Run_Executor]) simp
    next
      case False
      then have "pl_queue pl \<noteq> []" using assms(6) by (auto simp: channel_capacity_def)
      then show ?thesis using False worker consume by (metis pipe_event.distinct(5))
    qed
  next
    case (Stopped r)
    then have "\<not> list_all (\<lambda>c. cs_status c \<noteq> Working) (pl_consumers pl)" "executor_stopped (pl_executor pl)"
      using assms(5) by (auto simp: pipeline_ended_def)
    then show ?thesis using worker consume by (metis pipe_event.distinct(5))
  qed
qed

section \<open>The shards together\<close>

lemma shard_length: "p < n \<Longrightarrow> expected_segments p m n = Ok (length (shard n p m))"
proof -
  assume p: "p < n"
  have "set (shard n p m) = owned m n p" by (auto simp: shard_def owned_def)
  then have "length (shard n p m) = card (owned m n p)"
    by (metis distinct_card distinct_filter distinct_upt shard_def)
  then show ?thesis using p by (simp add: expected_segments_card)
qed

lemma shards_partition: "0 < n \<Longrightarrow> (\<Sum>p<n. mset (shard n p m)) = mset [0..<m]"
proof (induction m)
  case (Suc m)
  have "mset (shard n p (Suc m)) = mset (shard n p m) + (if p = m mod n then {#m#} else {#})" for p
    by (simp add: shard_Suc)
  then have "(\<Sum>p<n. mset (shard n p (Suc m))) =
      (\<Sum>p<n. mset (shard n p m)) + (\<Sum>p<n. if p = m mod n then {#m#} else {#})"
    by (simp only: sum.distrib)
  also have "(\<Sum>p<n. if p = m mod n then {#m#} else {#}) = {#m#}"
    using Suc.prems by (subst sum.delta) simp_all
  finally show ?case using Suc by simp
qed (simp add: shard_def)

text \<open>A shard whose worker started on the guest, ran all its threads to their end with the result
  channel open, and succeeded.\<close>

definition shard_completed ::
  "('s, 'c, 'h, 'g, 'p, 'm, 'u, 'i, 'k, 'd, 'x, 'n) app_env \<Rightarrow> sharded_app_prover_job \<Rightarrow> 'g list \<Rightarrow>
     ('s, 'c, 'h) guest \<Rightarrow> pipe_event list \<Rightarrow> proof_result list \<Rightarrow> bool" where
  "shard_completed env job gpus g es out \<longleftrightarrow>
     (\<exists>pl0 pl rs. guest_run env job gpus g pl0 \<and> pipe_run env job es pl0 = Some pl \<and> pipeline_ended pl \<and>
        pl_stream_open pl \<and> coordinator_result env job pl = Inr rs \<and> consumers_succeed pl \<and> out = emitted pl rs)"

lemma shard_completed_results:
  assumes "shard_completed env job gpus g es out"
  shows "mset (app_indices out) = mset (shard (sj_num_provers job) (sj_prover_id job) (gu_count g))"
    "e2_counts out = (if sj_prover_id job = 0 then [gu_count g] else [])"
    "\<forall>r \<in> set out. app_exact env g job r \<or> e2_count r \<noteq> []"
proof -
  obtain pl0 pl rs where run: "guest_run env job gpus g pl0" "pipe_run env job es pl0 = Some pl"
      "pipeline_ended pl" "pl_stream_open pl" "coordinator_result env job pl = Inr rs" "consumers_succeed pl"
      "out = emitted pl rs"
    using assms by (auto simp: shard_completed_def)
  have "pl_consumers pl \<noteq> []"
    using pipe_run_consumers [OF run(2)] guest_runD(5,6) [OF run(1)] by auto
  note finish = successful_end [OF guest_run_inv [OF run(1,2)] this run(3-6)]
  show "mset (app_indices out) = mset (shard (sj_num_provers job) (sj_prover_id job) (gu_count g))"
    "e2_counts out = (if sj_prover_id job = 0 then [gu_count g] else [])"
    "\<forall>r \<in> set out. app_exact env g job r \<or> e2_count r \<noteq> []"
    using finish run(7) by simp_all
qed

section \<open>Example data\<close>

definition demo_guest :: "(nat, nat, nat) guest" where
  "demo_guest = \<lparr>gu_state = (\<lambda>i. i), gu_ctx = (\<lambda>c. c), gu_bound = (\<lambda>i. 10 * i),
     gu_suspend = (\<lambda>c. 10 * Suc c + 3), gu_count = 3, gu_heights = (\<lambda>i. i)\<rparr>"

definition demo_vm :: "(nat, nat, nat, unit, nat, nat, nat, nat) vm" where
  "demo_vm =
     \<lparr>vm_metered = (\<lambda>ms. let c = length (mx_segments ms) in
        if c < 2 then Inr (metered_of demo_guest (Suc c))
        else Inr ((metered_of demo_guest 3)\<lparr>mx_exit_code := Inr (Some 0)\<rparr>)),
      vm_pure = (\<lambda>s k. Inr (s + k)), vm_prove = (\<lambda>gpu s n h. (gpu, Inr (s, Some n))),
      vm_has_top_tree = (\<lambda>_. True), vm_user_public_values = (\<lambda>m gpu. m),
      vm_build_metered_ctx = 0, vm_with_max_memory = (\<lambda>m c. c), vm_decode_stdin = (\<lambda>b. Inr 0),
      vm_decode_deferral = Inr, vm_set_deferrals = (\<lambda>ds i. i), vm_initial_state = (\<lambda>i. i)\<rparr>"

definition demo_env :: "(nat, nat, nat, unit, nat, nat, nat, nat, nat, nat, string, nat) app_env" where
  "demo_env =
     \<lparr>ae_vm = demo_vm, ae_encode_proof = (\<lambda>p. Inr [of_nat (tp_proof p)]), ae_encode_segment = (\<lambda>s. Inr []),
      ae_merkle = \<lparr>mk_tree = (\<lambda>m i. i), mk_initial_memory = (\<lambda>x. 0), mk_zero = 0\<rparr>,
      ae_encode_path = (\<lambda>p. Inr []), ae_encode_merkle_proofs = (\<lambda>p. Inr []), ae_dims = example_dims,
      ae_store = Some example_store, ae_num_circuits = (\<lambda>k. 0), ae_read = (\<lambda>path. Inr []),
      ae_seg_times = (\<lambda>i. \<lparr>tm_fastfwd = 0, tm_stark = 0, tm_total = 0, tm_sub_metrics = []\<rparr>),
      ae_execute_time_ms = 7\<rparr>"

definition demo_job :: "nat \<Rightarrow> sharded_app_prover_job" where
  "demo_job p =
     \<lparr>sj_context = proof_context_new ''p1'' \<lparr>pr_name = ''fib'', pr_version = 1\<rparr> [], sj_num_provers = 2,
      sj_prover_id = p, sj_input_path = ''in'', sj_segment_memory = None, sj_max_app_provers = 1 + p,
      sj_result_tx = True, sj_deferral_state_paths = []\<rparr>"

text \<open>Shard 0 with one prover thread, shard 1 with two.\<close>

definition demo_gpus :: "nat \<Rightarrow> unit list" where
  "demo_gpus p = replicate (Suc p) ()"

definition demo_schedule :: "nat \<Rightarrow> pipe_event list" where
  "demo_schedule p =
     (if p = 0 then [Run_Executor, Run_Executor, Run_Executor, Run_Consumer 0, Run_Executor, Run_Executor,
        Run_Consumer 0, Run_Consumer 0]
      else [Run_Executor, Run_Executor, Run_Executor, Run_Executor, Run_Consumer 1, Run_Consumer 1, Run_Consumer 0])"

definition demo_start :: "nat \<Rightarrow> (nat, nat, nat, unit) pipeline" where
  "demo_start p =
     \<lparr>pl_executor = Executing (exec_thread_start p 0 0), pl_queue = [],
      pl_consumers = map (\<lambda>g. \<lparr>cs_gpu = g, cs_results = [], cs_status = Working\<rparr>) (demo_gpus p),
      pl_streamed = [], pl_stream_open = True\<rparr>"

lemma demo_guest_ok: "guest_ok demo_guest" "vm_runs demo_vm demo_guest"
proof -
  show "guest_ok demo_guest" by (simp add: guest_ok_def demo_guest_def)
  have "Suc c < 3 \<Longrightarrow> vm_metered demo_vm (metered_of demo_guest c) = Inr (metered_of demo_guest (Suc c))" for c
    by (simp add: demo_vm_def metered_of_def)
  moreover have "vm_metered demo_vm (metered_of demo_guest 2) = Inr ((metered_of demo_guest 3)\<lparr>mx_exit_code := Inr (Some 0)\<rparr>)"
    by (simp add: demo_vm_def metered_of_def Let_def)
  moreover have "gu_count demo_guest = 3" "gu_state demo_guest = (\<lambda>i. i)" "vm_pure demo_vm = (\<lambda>s k. Inr (s + k))"
    by (simp_all add: demo_guest_def demo_vm_def)
  ultimately show "vm_runs demo_vm demo_guest"
    by (auto simp: vm_runs_def numeral_2_eq_2 numeral_3_eq_3 metered_of_def)
qed

lemma demo_guest_run:
  assumes "p < 2"
  shows "guest_run demo_env (demo_job p) (demo_gpus p) demo_guest (demo_start p)"
proof -
  have "pipeline_start demo_env (demo_job p) (demo_gpus p) = Inr (demo_start p)"
    using assms by (simp add: pipeline_start_def demo_job_def demo_env_def build_execution_stdin_def
        load_and_validate_deferral_states_def demo_vm_def build_metered_ctx_def demo_start_def)
  moreover have "ae_vm demo_env = demo_vm" "demo_gpus p \<noteq> []" by (simp_all add: demo_env_def demo_gpus_def)
  moreover have "pl_executor (demo_start p) =
      Executing (exec_thread_start (sj_prover_id (demo_job p)) (gu_state demo_guest 0) (gu_ctx demo_guest 0))"
    by (simp add: demo_start_def demo_job_def demo_guest_def)
  ultimately show ?thesis using demo_guest_ok by (simp add: guest_run_def)
qed

definition demo_end :: "nat \<Rightarrow> (nat, nat, nat, unit) pipeline" where
  "demo_end p = the (pipe_run demo_env (demo_job p) (demo_schedule p) (demo_start p))"

definition demo_out :: "nat \<Rightarrow> proof_result list" where
  "demo_out p = emitted (demo_end p) []"

lemma demo_completed:
  assumes "p < 2"
  shows "shard_completed demo_env (demo_job p) (demo_gpus p) demo_guest (demo_schedule p) (demo_out p)"
proof -
  have run: "pipe_run demo_env (demo_job p) (demo_schedule p) (demo_start p) = Some (demo_end p)"
  proof -
    have "pipe_run demo_env (demo_job 0) (demo_schedule 0) (demo_start 0) \<noteq> None" by code_simp
    moreover have "pipe_run demo_env (demo_job 1) (demo_schedule 1) (demo_start 1) \<noteq> None" by code_simp
    moreover have "p = 0 \<or> p = 1" using assms by auto
    ultimately show ?thesis unfolding demo_end_def by auto
  qed
  have "pipeline_ended (demo_end 0) \<and> pl_stream_open (demo_end 0) \<and> consumers_succeed (demo_end 0)" by code_simp
  moreover have "pipeline_ended (demo_end 1) \<and> pl_stream_open (demo_end 1) \<and> consumers_succeed (demo_end 1)" by code_simp
  moreover have "coordinator_result demo_env (demo_job 0) (demo_end 0) = Inr []" by code_simp
  moreover have "coordinator_result demo_env (demo_job 1) (demo_end 1) = Inr []" by code_simp
  moreover have "p = 0 \<or> p = 1" using assms by auto
  ultimately have "pipeline_ended (demo_end p) \<and> pl_stream_open (demo_end p) \<and> consumers_succeed (demo_end p) \<and>
      coordinator_result demo_env (demo_job p) (demo_end p) = Inr []"
    by auto
  then show ?thesis using demo_guest_run [OF assms] run unfolding shard_completed_def demo_out_def by blast
qed

section \<open>Properties\<close>

text \<open>C18. Complete cover by the shards: when the workers of all \<open>n\<close> shards complete, in whatever
  interleavings of their threads, every segment of the guest is proved exactly once, each from the VM
  state at its first instruction, with the user public values on the last segment only; each shard
  yields as many app proofs as the manager's scheduler waits for; and exactly one execution result is
  emitted, with the number of segments.\<close>

theorem shards_prove_every_segment:
  assumes "0 < n" "\<forall>p < n. sj_num_provers (job p) = n \<and> sj_prover_id (job p) = p \<and>
      shard_completed (env p) (job p) (gpus p) g (es p) (out p)"
  shows "mset (concat (map (\<lambda>p. app_indices (out p)) [0..<n])) = mset [0..<gu_count g] \<and>
    concat (map (\<lambda>p. e2_counts (out p)) [0..<n]) = [gu_count g] \<and>
    (\<forall>p < n. expected_segments p (gu_count g) n = Ok (length (app_indices (out p))) \<and>
       (\<forall>r \<in> set (out p). app_exact (env p) g (job p) r \<or> e2_count r \<noteq> []))"
proof -
  have res: "mset (app_indices (out p)) = mset (shard n p (gu_count g))"
      "e2_counts (out p) = (if p = 0 then [gu_count g] else [])"
      "\<forall>r \<in> set (out p). app_exact (env p) g (job p) r \<or> e2_count r \<noteq> []" if "p < n" for p
    using shard_completed_results [of "env p" "job p" "gpus p" g "es p" "out p"] assms(2) that by auto
  have "mset (concat (map (\<lambda>p. app_indices (out p)) [0..<k])) = (\<Sum>p<k. mset (shard n p (gu_count g)))"
    if "k \<le> n" for k
    using that by (induction k) (simp_all add: res(1))
  moreover have "concat (map (\<lambda>p. e2_counts (out p)) [0..<k]) = (if k = 0 then [] else [gu_count g])"
    if "k \<le> n" for k
    using that by (induction k) (simp_all add: res(2))
  moreover have "length (app_indices (out p)) = length (shard n p (gu_count g))" if "p < n" for p
    using res(1) [OF that] by (metis size_mset)
  ultimately show ?thesis using assms(1) shards_partition [OF assms(1)] res(3) by (simp add: shard_length)
qed

theorem shards_prove_every_segment_witness:
  "mset (app_indices (demo_out 0) @ app_indices (demo_out 1)) = {#0, 1, 2#}"
proof -
  have "[0..<2] = [0, 1 :: nat]" "[0..<3] = [0, 1, 2 :: nat]" by code_simp+
  moreover have "gu_count demo_guest = 3" by (simp add: demo_guest_def)
  moreover have "\<forall>p < 2. sj_num_provers (demo_job p) = 2 \<and> sj_prover_id (demo_job p) = p \<and>
      shard_completed demo_env (demo_job p) (demo_gpus p) demo_guest (demo_schedule p) (demo_out p)"
    using demo_completed by (simp add: demo_job_def)
  ultimately show ?thesis
    using shards_prove_every_segment [of 2 demo_job "\<lambda>_. demo_env" demo_gpus demo_guest demo_schedule demo_out]
    by simp
qed

text \<open>C12. Snapshots: in every interleaving the executor never panics (a snapshot is there whenever
  an assigned segment is closed), and whatever it sends is a segment of its shard with the VM state
  at an instruction of the segment before it, so that fast-forwarding replays at most one segment and
  ends in the state at the start of the segment.\<close>

theorem snapshots_one_segment_back:
  assumes "guest_run env job gpus g pl0" "pipe_run env job es pl0 = Some pl"
  shows "pl_executor pl \<noteq> Stopped (Panic e) \<and>
    (\<forall>d et brk. pl_executor pl = Sending d et brk \<longrightarrow>
       (let i = dt_segment_idx d; at = sn_instret (dt_snapshot d) in
        i < gu_count g \<and> i mod sj_num_provers job = sj_prover_id job \<and> dt_segment d = guest_segment g i \<and>
        (dt_is_final d \<longleftrightarrow> Suc i = gu_count g) \<and> sn_vm_state (dt_snapshot d) = gu_state g at \<and>
        gu_bound g (i - 1) \<le> at \<and> at \<le> gu_bound g i \<and>
        fast_forward (ae_vm env) d = Inr (gu_state g (gu_bound g i))))"
proof -
  note g = guest_runD(1,2) [OF assms(1)]
  obtain c where ex: "executor_inv g (sj_num_provers job) (sj_prover_id job) c (pl_executor pl)"
    using guest_run_inv [OF assms] by (auto simp: pipe_inv_def)
  have "let i = dt_segment_idx d; at = sn_instret (dt_snapshot d) in
        i < gu_count g \<and> i mod sj_num_provers job = sj_prover_id job \<and> dt_segment d = guest_segment g i \<and>
        (dt_is_final d \<longleftrightarrow> Suc i = gu_count g) \<and> sn_vm_state (dt_snapshot d) = gu_state g at \<and>
        gu_bound g (i - 1) \<le> at \<and> at \<le> gu_bound g i \<and>
        fast_forward (ae_vm env) d = Inr (gu_state g (gu_bound g i))"
    if "pl_executor pl = Sending d et brk" for d et brk
  proof -
    have c: "c < gu_count g" "c mod sj_num_provers job = sj_prover_id job" and d: "d = segment_data g c"
      using ex that by simp_all
    show ?thesis unfolding d Let_def
      using c snap_point_bounds [OF g(1) c(1)] fast_forward_exact [OF g c(1)]
      by (simp add: segment_data_def snap_def)
  qed
  moreover have "pl_executor pl \<noteq> Stopped (Panic e)" using ex by auto
  ultimately show ?thesis by blast
qed

theorem snapshots_one_segment_back_witness:
  "pl_executor (the (pipe_run demo_env (demo_job 0) (take 4 (demo_schedule 0)) (demo_start 0))) \<noteq> Stopped (Panic [])"
proof -
  have "pipe_run demo_env (demo_job 0) (take 4 (demo_schedule 0)) (demo_start 0) \<noteq> None" by code_simp
  then obtain pl where pl: "pipe_run demo_env (demo_job 0) (take 4 (demo_schedule 0)) (demo_start 0) = Some pl" by auto
  show ?thesis using snapshots_one_segment_back [OF demo_guest_run [of 0] pl, of "[]"] pl by simp
qed

text \<open>C19. The pipeline never deadlocks and always ends: as long as a thread has not ended, some
  thread can take a step; and no run takes more steps than three per segment, one per prover thread
  and one, whether or not a prover fails or the result channel closes on the way.\<close>

theorem pipeline_always_ends:
  assumes "guest_run env job gpus g pl0" "pipe_run env job es pl0 = Some pl"
  shows "(pipeline_ended pl \<or> (\<exists>e pl'. e \<noteq> Close_Stream \<and> pipe_step env job e pl = Some pl')) \<and>
    length (filter (\<lambda>e. e \<noteq> Close_Stream) es) \<le> 3 * gu_count g + 1 + length gpus"
proof -
  note g = guest_runD [OF assms(1)]
  have "pl_consumers pl \<noteq> []" using pipe_run_consumers [OF assms(2)] g(5,6) by auto
  then have "pipeline_ended pl \<or> (\<exists>e pl'. e \<noteq> Close_Stream \<and> pipe_step env job e pl = Some pl')"
    using pipe_enabled [OF g(1-3) guest_run_inv [OF assms]] by blast
  moreover have "length (filter (\<lambda>e. e \<noteq> Close_Stream) es) \<le> pipe_rank g pl0"
    using pipe_run_rank [OF g(1-3) g(4) assms(2)] by simp
  moreover have "pipe_rank g pl0 \<le> 3 * gu_count g + 1 + length gpus"
  proof -
    have "working pl0 \<le> length (pl_consumers pl0)"
    proof -
      have "sum_list (map (\<lambda>c. if cs_status c = Working then 1 else 0 :: nat) cs) \<le> length cs" for cs :: "'d consumer list"
        by (induction cs) auto
      then show ?thesis by (simp add: working_def)
    qed
    moreover have "pl_queue pl0 = []"
      using assms(1) by (auto simp: guest_run_def pipeline_start_def bind_sum_eq_Inr split: if_splits)
    moreover have "pl_executor pl0 = Executing (exec_thread_start (sj_prover_id job) (gu_state g 0) (gu_ctx g 0))"
      using assms(1) by (simp add: guest_run_def)
    ultimately show ?thesis using g(5) by (simp add: pipe_rank_def exec_thread_start_def)
  qed
  ultimately show ?thesis by (blast intro: le_trans)
qed

theorem pipeline_always_ends_witness:
  "\<exists>e pl'. e \<noteq> Close_Stream \<and>
     pipe_step demo_env (demo_job 0) e (the (pipe_run demo_env (demo_job 0) (take 3 (demo_schedule 0)) (demo_start 0))) =
       Some pl'"
proof -
  have "pipe_run demo_env (demo_job 0) (take 3 (demo_schedule 0)) (demo_start 0) \<noteq> None" by code_simp
  then obtain pl where pl: "pipe_run demo_env (demo_job 0) (take 3 (demo_schedule 0)) (demo_start 0) = Some pl" by auto
  have "\<not> pipeline_ended (the (pipe_run demo_env (demo_job 0) (take 3 (demo_schedule 0)) (demo_start 0)))" by code_simp
  then show ?thesis using pipeline_always_ends [OF demo_guest_run [of 0] pl] pl by simp
qed

end
