(* ===== verification/Prover_Pool.thy ===== *)
theory Prover_Pool
  imports Worker_Provers "HOL-Library.List_Lexorder" "HOL-Library.Char_ord"
begin

text \<open>
  The prover pool, \<open>edge-worker/src/prover_pool.rs\<close>, except for its threads (\<open>Pool_Dispatch\<close>): the
  sizes of the pools by role, the job kinds with their initialisation, run and panic conversion, the
  lazy loading of a program on an app worker, and the merge of a parallel app job. A caught panic is
  the outcome \<open>Panic\<close> of the run. The closures of a parallel job are functions on the loaded prover.
\<close>

datatype job_type = Job_Sharded_App | Job_Leaf | Job_Internal | Job_Root | Job_Halo2

text \<open>The number of threads of each kind that \<open>ProverPool::new\<close> spawns; \<open>app_ctx\<close> tells whether the
  caller supplied the app execution context.\<close>

definition pool_size :: "worker_provers_config \<Rightarrow> worker_role \<Rightarrow> bool \<Rightarrow> job_type \<Rightarrow> nat" where
  "pool_size config role app_ctx kind =
     (let runs_stark = runs_stark_proving role; runs_evm = runs_evm_prove role in
      case kind of
        Job_Sharded_App \<Rightarrow> if app_ctx then (if runs_stark then wp_max_app_provers config else 0) else 0
      | Job_Leaf \<Rightarrow> if runs_stark then wp_max_leaf_provers config else 0
      | Job_Internal \<Rightarrow> if runs_stark then wp_max_internal_provers config else 0
      | Job_Root \<Rightarrow> if runs_evm then wp_max_root_provers config else 0
      | Job_Halo2 \<Rightarrow> if runs_evm then wp_max_halo2_provers config else 0)"

section \<open>Process-wide state\<close>

record active_leaf_job =
  al_proof_uuid :: string
  al_segment_start :: nat
  al_segment_end :: nat

record pool_shared =
  sh_app_jobs_total :: nat
  sh_app_swaps_total :: nat
  sh_active_leaf_jobs :: "(string, active_leaf_job) hmap"

definition active_leaf_enter :: "string \<Rightarrow> active_leaf_job \<Rightarrow> pool_shared \<Rightarrow> pool_shared" where
  "active_leaf_enter name job sh =
     sh\<lparr>sh_active_leaf_jobs := AList.update name job (sh_active_leaf_jobs sh)\<rparr>"

definition active_leaf_exit :: "string \<Rightarrow> pool_shared \<Rightarrow> pool_shared" where
  "active_leaf_exit name sh = sh\<lparr>sh_active_leaf_jobs := AList.delete name (sh_active_leaf_jobs sh)\<rparr>"

text \<open>The registry is a \<open>BTreeMap\<close>, listed in the order of the worker names.\<close>

definition snapshot_summary :: "pool_shared \<Rightarrow> string" where
  "snapshot_summary sh =
     (let entries = map (\<lambda>(name, job). name @ '':'' @ al_proof_uuid job @ ''['' @
            show_nat (al_segment_start job) @ ''-'' @ show_nat (al_segment_end job) @ '']'')
            (sort_key fst (sh_active_leaf_jobs sh))
      in if entries = [] then ''none'' else join_with '', '' entries)"

section \<open>Panics\<close>

definition panic_to_prover_result :: "string \<Rightarrow> prover_result" where
  "panic_to_prover_result panic_msg = ProverError (''Prover panicked: '' @ panic_msg)"

definition panic_to_root_result :: "string \<Rightarrow> root_proof_state outcome" where
  "panic_to_root_result panic_msg = Err (''Prover panicked: '' @ panic_msg)"

definition handle_panic_result :: "prover_result outcome \<Rightarrow> prover_result" where
  "handle_panic_result r =
     (case r of Ok x \<Rightarrow> x | Panic p \<Rightarrow> panic_to_prover_result p | Err e \<Rightarrow> ProverError e)"

section \<open>Worker kinds\<close>

text \<open>\<open>trait WorkerKind\<close>: what a worker thread does with the process-wide state \<open>'w\<close>, its instance
  \<open>'i\<close> and a job \<open>'j\<close>. \<open>wk_enter\<close> is what a run does before the proving call.\<close>

record ('w, 'i, 'j, 'o) worker_kind =
  wk_name_prefix :: string
  wk_init :: "'i outcome"
  wk_enter :: "string \<Rightarrow> 'j \<Rightarrow> 'w \<Rightarrow> 'w"
  wk_run :: "string \<Rightarrow> 'i \<Rightarrow> 'j \<Rightarrow> 'w \<Rightarrow> 'w \<times> 'i \<times> 'o outcome"
  wk_on_panic :: "string \<Rightarrow> 'o"

definition worker_name :: "('w, 'i, 'j, 'o) worker_kind \<Rightarrow> nat \<Rightarrow> string" where
  "worker_name kind i = wk_name_prefix kind @ ''-'' @ show_nat i"

text \<open>The result of a job: a run that panics is converted.\<close>

definition run_result :: "('w, 'i, 'j, 'o) worker_kind \<Rightarrow> string \<Rightarrow> 'i \<Rightarrow> 'j \<Rightarrow> 'w \<Rightarrow> 'w \<times> 'i \<times> 'o" where
  "run_result kind name inst job w =
     (case wk_run kind name inst job w of
        (w', inst', Ok x) \<Rightarrow> (w', inst', x)
      | (w', inst', Panic p) \<Rightarrow> (w', inst', wk_on_panic kind p)
      | (w', inst', Err e) \<Rightarrow> (w', inst', wk_on_panic kind e))"

text \<open>The leaf worker reports the leaf jobs active at the time of a failure.\<close>

definition leaf_run ::
  "('p, 'u, 'k, 'd, 'm, 'r, 'e) backend \<Rightarrow> (nat \<Rightarrow> measured) \<Rightarrow> string \<Rightarrow> ('k, 'd) inner_prover \<Rightarrow>
     ('p, 'u) leaf_prover_job \<Rightarrow> pool_shared \<Rightarrow>
     pool_shared \<times> ('k, 'd) inner_prover \<times> prover_result outcome" where
  "leaf_run bk clk name inst j sh =
     (let result = handle_panic_result (prove_leaf bk clk j inst);
          result' = (case result of
            ProverError err \<Rightarrow> ProverError (err @ '' [active_leaf_jobs='' @ snapshot_summary sh @ '']'')
          | ProverSuccess rs \<Rightarrow> ProverSuccess rs)
      in (active_leaf_exit name sh, inst, Ok result'))"

definition leaf_kind ::
  "('p, 'u, 'k, 'd, 'm, 'r, 'e) backend \<Rightarrow> (nat \<Rightarrow> measured) \<Rightarrow> ('k, 'd, 'x) artifact_store option \<Rightarrow>
     (pool_shared, ('k, 'd) inner_prover, ('p, 'u) leaf_prover_job, prover_result) worker_kind" where
  "leaf_kind bk clk store =
     \<lparr>wk_name_prefix = ''leaf-prover'', wk_init = leaf_prover_instance bk store,
      wk_enter = (\<lambda>name j. active_leaf_enter name
        \<lparr>al_proof_uuid = pc_proof_uuid (lj_context j), al_segment_start = lj_segment_start j,
         al_segment_end = lj_segment_end j\<rparr>),
      wk_run = leaf_run bk clk, wk_on_panic = panic_to_prover_result\<rparr>"

definition internal_kind ::
  "('p, 'u, 'k, 'd, 'm, 'r, 'e) backend \<Rightarrow> (nat \<Rightarrow> measured) \<Rightarrow> ('k, 'd, 'x) artifact_store option \<Rightarrow>
     (pool_shared, ('k, 'd) internal_prover_instance, ('p, 'u) internal_prover_job, prover_result) worker_kind" where
  "internal_kind bk clk store =
     \<lparr>wk_name_prefix = ''internal-prover'', wk_init = new_internal_prover_instance bk store,
      wk_enter = (\<lambda>name j sh. sh), wk_run = (\<lambda>name inst j sh. (sh, inst, prove_internal bk clk j inst)),
      wk_on_panic = panic_to_prover_result\<rparr>"

text \<open>A root job returns a \<open>Result\<close> of its own; only a panic is left to \<open>on_panic\<close>.\<close>

definition catch_unwind :: "'a outcome \<Rightarrow> 'a outcome outcome" where
  "catch_unwind r = (case r of Panic p \<Rightarrow> Panic p | _ \<Rightarrow> Ok r)"

definition root_kind ::
  "('p, 'u, 'k, 'd, 'm, 'r, 'e) backend \<Rightarrow> (nat \<Rightarrow> measured) \<Rightarrow> ('k, 'd, 'x) artifact_store option \<Rightarrow>
     (pool_shared, ('k, 'd) root_prover_instance, ('p, 'u, 'm) root_prover_job, root_proof_state outcome) worker_kind" where
  "root_kind bk clk store =
     \<lparr>wk_name_prefix = ''root-prover'', wk_init = new_root_prover_instance bk store,
      wk_enter = (\<lambda>name j sh. sh), wk_run = (\<lambda>name inst j sh. (sh, inst, catch_unwind (prove_root bk clk j inst))),
      wk_on_panic = panic_to_root_result\<rparr>"

definition halo2_kind ::
  "('p, 'u, 'k, 'd, 'm, 'r, 'e) backend \<Rightarrow> (nat \<Rightarrow> measured) \<Rightarrow> ('k, 'd, 'x) artifact_store option \<Rightarrow>
     (pool_shared, 'k halo2_prover_instance, 'r halo2_prover_job, prover_result) worker_kind" where
  "halo2_kind bk clk store =
     \<lparr>wk_name_prefix = ''halo2-prover'', wk_init = new_halo2_prover_instance store,
      wk_enter = (\<lambda>name j sh. sh), wk_run = (\<lambda>name inst j sh. (sh, inst, prove_halo2 bk clk j inst)),
      wk_on_panic = panic_to_prover_result\<rparr>"

section \<open>App workers\<close>

text \<open>The app execution context: the instances built at boot by program, and the construction of a
  GPU prover \<open>'g\<close> for a program (the SDK).\<close>

record ('g, 'n) app_worker_context =
  aw_execution_instances :: "(program_ref, 'n) hmap"
  aw_build_gpu_prover :: "program_ref \<Rightarrow> 'n \<Rightarrow> 'g outcome"

datatype ('g, 'n) app_prover_job =
  ShardedApp program_ref sharded_app_prover_job
| ParallelCoordinator program_ref "'n \<Rightarrow> 'g \<Rightarrow> 'g \<times> prover_result outcome"
| SegmentConsumer program_ref "'n \<Rightarrow> 'g \<Rightarrow> 'g \<times> prover_result outcome"

fun target_program :: "('g, 'n) app_prover_job \<Rightarrow> program_ref" where
  "target_program (ShardedApp p _) = p"
| "target_program (ParallelCoordinator p _) = p"
| "target_program (SegmentConsumer p _) = p"

text \<open>\<open>sharded\<close> is \<open>prove_sharded_app_with_prover\<close> under some schedule of its threads.\<close>

definition run_app_job ::
  "('g, 'n) app_worker_context \<Rightarrow> (sharded_app_prover_job \<Rightarrow> 'n \<Rightarrow> 'g \<Rightarrow> 'g \<times> prover_result outcome) \<Rightarrow> string \<Rightarrow>
     (program_ref \<times> 'g) option \<Rightarrow> ('g, 'n) app_prover_job \<Rightarrow> pool_shared \<Rightarrow>
     pool_shared \<times> (program_ref \<times> 'g) option \<times> prover_result outcome" where
  "run_app_job ctx sharded name loaded job sh0 =
     (let target = target_program job;
          sh1 = sh0\<lparr>sh_app_jobs_total := sh_app_jobs_total sh0 + 1\<rparr>;
          call = (\<lambda>inst gpu. case job of
            ShardedApp _ j \<Rightarrow> sharded j inst gpu
          | ParallelCoordinator _ f \<Rightarrow> f inst gpu
          | SegmentConsumer _ f \<Rightarrow> f inst gpu)
      in case map_of (aw_execution_instances ctx) target of
           None \<Rightarrow> (sh1, loaded, Ok (ProverError (''Worker '' @ name @ '': program '' @ program_display target @
             '' not in execution_instances; manager validation should have rejected this dispatch'')))
         | Some instances \<Rightarrow>
             (let needs_swap = (case loaded of Some (program, _) \<Rightarrow> program \<noteq> target | None \<Rightarrow> True);
                  sh2 = (if needs_swap \<and> loaded \<noteq> None
                         then sh1\<lparr>sh_app_swaps_total := sh_app_swaps_total sh1 + 1\<rparr> else sh1);
                  prover = (if needs_swap then aw_build_gpu_prover ctx target instances
                            else Ok (snd (the loaded)))
              in case prover of
                   Ok gpu \<Rightarrow> (case call instances gpu of (gpu', r) \<Rightarrow> (sh2, Some (target, gpu'), r))
                 | Err e \<Rightarrow> (sh2, None, Ok (ProverError (''Worker '' @ name @
                     '': failed to build GPU prover for '' @ program_display target @ '': '' @ e)))
                 | Panic p \<Rightarrow> (sh2, None, Panic p)))"

definition app_kind ::
  "('g, 'n) app_worker_context \<Rightarrow> (sharded_app_prover_job \<Rightarrow> 'n \<Rightarrow> 'g \<Rightarrow> 'g \<times> prover_result outcome) \<Rightarrow>
     (pool_shared, (program_ref \<times> 'g) option, ('g, 'n) app_prover_job, prover_result) worker_kind" where
  "app_kind ctx sharded =
     \<lparr>wk_name_prefix = ''app-prover'', wk_init = Ok None, wk_enter = (\<lambda>name j sh. sh),
      wk_run = run_app_job ctx sharded, wk_on_panic = panic_to_prover_result\<rparr>"

section \<open>Parallel app jobs\<close>

definition merge_parallel_app_results ::
  "prover_result \<Rightarrow> proof_result list \<Rightarrow> string list \<Rightarrow> prover_result" where
  "merge_parallel_app_results coordinator_result consumer_proofs consumer_errors =
     (case coordinator_result of
        ProverSuccess results \<Rightarrow>
          if consumer_errors = [] then ProverSuccess (results @ consumer_proofs)
          else ProverError (''Parallel app consumer failure(s): '' @ join_with ''; '' consumer_errors)
      | ProverError coordinator_error \<Rightarrow>
          if consumer_errors = [] then ProverError coordinator_error
          else ProverError (''Parallel app coordinator failed: '' @ coordinator_error @
            ''; consumer failure(s): '' @ join_with ''; '' consumer_errors))"

text \<open>The collection of the consumers' results; \<open>None\<close> is a dropped result channel.\<close>

fun collect_consumers :: "prover_result option list \<Rightarrow> proof_result list \<times> string list" where
  "collect_consumers [] = ([], [])"
| "collect_consumers (r # rs) =
     (let (proofs, errors) = collect_consumers rs in
      case r of
        Some (ProverSuccess results) \<Rightarrow> (results @ proofs, errors)
      | Some (ProverError e) \<Rightarrow> (proofs, e # errors)
      | None \<Rightarrow> (proofs, ''Consumer dropped result channel'' # errors))"

definition parallel_app_result :: "prover_result \<Rightarrow> prover_result option list \<Rightarrow> prover_result" where
  "parallel_app_result coordinator_result consumers =
     (let (proofs, errors) = collect_consumers consumers in
      merge_parallel_app_results coordinator_result proofs errors)"

section \<open>Lemmas\<close>

lemma pool_size_roles [simp]:
  "pool_size c EvmDedicated b Job_Sharded_App = 0" "pool_size c EvmDedicated b Job_Leaf = 0"
  "pool_size c EvmDedicated b Job_Internal = 0"
  "pool_size c StarkOnly b Job_Root = 0" "pool_size c StarkOnly b Job_Halo2 = 0"
  by (simp_all add: pool_size_def)

lemma collect_consumers_errors:
  "snd (collect_consumers rs) = [] \<longleftrightarrow> (\<forall>r \<in> set rs. \<exists>ps. r = Some (ProverSuccess ps))"
  by (induction rs) (auto split: prod.splits option.splits prover_result.splits)

lemma parallel_app_success_iff:
  "(\<exists>rs. parallel_app_result c consumers = ProverSuccess rs) \<longleftrightarrow>
     (\<exists>rs. c = ProverSuccess rs) \<and> (\<forall>r \<in> set consumers. \<exists>ps. r = Some (ProverSuccess ps))"
  using collect_consumers_errors [of consumers]
  by (auto simp: parallel_app_result_def merge_parallel_app_results_def
      split: prod.splits prover_result.splits if_splits)

text \<open>The loaded program of an app worker after a job, and the swap counter.\<close>

lemma run_app_job_loaded:
  assumes "run_app_job ctx sharded name loaded job sh = (sh', loaded', r)"
    "map_of (aw_execution_instances ctx) (target_program job) = Some inst"
  shows "case loaded' of None \<Rightarrow> True | Some (p, _) \<Rightarrow> p = target_program job"
  using assms by (auto simp: run_app_job_def Let_def split: outcome.splits prod.splits app_prover_job.splits)

lemma run_app_job_counters:
  assumes "run_app_job ctx sharded name loaded job sh = (sh', loaded', r)"
  shows "sh_app_jobs_total sh' = Suc (sh_app_jobs_total sh) \<and>
    sh_app_swaps_total sh' = sh_app_swaps_total sh +
      (if map_of (aw_execution_instances ctx) (target_program job) \<noteq> None \<and>
          (\<exists>p g. loaded = Some (p, g) \<and> p \<noteq> target_program job) then 1 else 0)"
  using assms
  by (auto simp: run_app_job_def Let_def split: outcome.splits prod.splits app_prover_job.splits option.splits if_splits)

end
