(* ===== verification/Pool_Dispatch.thy ===== *)
theory Pool_Dispatch
  imports Prover_Pool
begin

text \<open>
  The threads of the prover pool, \<open>edge-worker/src/prover_pool.rs\<close>. A pool of one kind is a list of
  worker threads, each with a job channel of capacity one, a cancel channel and the two flags
  \<open>is_busy\<close> and \<open>is_initialized\<close>, and the clients that submit jobs to it. Every atomic access (a load
  or store of a flag, a \<open>try_send\<close>, a \<open>recv\<close>, a notification) is a step of its own, so that a run is
  any interleaving of the threads: an event names the thread that moves, and is not enabled while that
  thread is blocked.

  \<open>notify_waiters\<close> wakes the clients that are registered when it is called and keeps no permit;
  \<open>tokio\<close> and \<open>crossbeam\<close> are modelled by what the code uses of them. The log of the runs is a ghost.
\<close>

section \<open>Workers and clients\<close>

text \<open>The position of a worker thread in its loop, with its prover instance, and the client (and the
  job, then its result) it serves.\<close>

datatype ('i, 'j, 'o) worker_phase =
  Starting
| Announcing 'i
| Ready 'i
| Got 'i nat 'j
| Started 'i nat 'j
| Proving 'i nat 'j
| Ran 'i nat 'o
| Released 'i nat 'o
| Reply 'i nat 'o
| Exited

record ('i, 'j, 'o) worker_thread =
  wt_phase :: "('i, 'j, 'o) worker_phase"
  wt_channel :: "(nat \<times> 'j) option"
  wt_cancel :: bool
  wt_is_busy :: bool
  wt_is_initialized :: bool

definition new_worker_thread :: "('i, 'j, 'o) worker_thread" where
  "new_worker_thread = \<lparr>wt_phase = Starting, wt_channel = None, wt_cancel = False, wt_is_busy = False,
     wt_is_initialized = False\<rparr>"

text \<open>The position of a client in the submission. \<open>Awaiting i\<close> holds the result receiver of worker
  \<open>i\<close>; \<open>Disconnected\<close> is a dropped result channel; a client whose future is dropped is \<open>Abandoned\<close>
  after its job was sent, and \<open>Withdrawn\<close> before.\<close>

datatype 'o client_phase =
  Entering
| Registering
| Scanning nat
| Checking nat
| Sending nat
| Cancel_check
| Asleep
| Awaiting nat
| Delivered 'o
| Disconnected
| Failed_submit string
| Abandoned nat
| Withdrawn

record ('j, 'o) pool_client =
  cl_job :: 'j
  cl_phase :: "'o client_phase"
  cl_notified :: bool

record ('w, 'i, 'j, 'o) pool =
  pl_workers :: "('i, 'j, 'o) worker_thread list"
  pl_clients :: "('j, 'o) pool_client list"
  pl_cancelled :: bool
  pl_shared :: 'w
  pl_log :: "(nat \<times> nat \<times> 'o) list"

definition new_pool :: "nat \<Rightarrow> 'w \<Rightarrow> ('w, 'i, 'j, 'o) pool" where
  "new_pool n w = \<lparr>pl_workers = replicate n new_worker_thread, pl_clients = [],
     pl_cancelled = False, pl_shared = w, pl_log = []\<rparr>"

definition set_worker :: "nat \<Rightarrow> ('i, 'j, 'o) worker_thread \<Rightarrow> ('w, 'i, 'j, 'o) pool \<Rightarrow> ('w, 'i, 'j, 'o) pool" where
  "set_worker i wk st = st\<lparr>pl_workers := (pl_workers st)[i := wk]\<rparr>"

definition set_client :: "nat \<Rightarrow> ('j, 'o) pool_client \<Rightarrow> ('w, 'i, 'j, 'o) pool \<Rightarrow> ('w, 'i, 'j, 'o) pool" where
  "set_client c cl st = st\<lparr>pl_clients := (pl_clients st)[c := cl]\<rparr>"

definition notify_waiters :: "('w, 'i, 'j, 'o) pool \<Rightarrow> ('w, 'i, 'j, 'o) pool" where
  "notify_waiters st = st\<lparr>pl_clients := map (cl_notified_update (\<lambda>_. True)) (pl_clients st)\<rparr>"

text \<open>What happens to the result receiver of a client when its sender is used or dropped.\<close>

definition resolve :: "nat \<Rightarrow> 'o client_phase \<Rightarrow> ('w, 'i, 'j, 'o) pool \<Rightarrow> ('w, 'i, 'j, 'o) pool" where
  "resolve c r st =
     (let cl = pl_clients st ! c in
      case cl_phase cl of Awaiting i \<Rightarrow> set_client c (cl\<lparr>cl_phase := r\<rparr>) st | _ \<Rightarrow> st)"

section \<open>Worker threads\<close>

text \<open>One step of a worker thread outside its \<open>select!\<close>: initialisation, then for a received job the
  busy flag, the run (with its panic caught), the release, the notification and the answer.\<close>

definition worker_step ::
  "('w, 'i, 'j, 'o) worker_kind \<Rightarrow> nat \<Rightarrow> ('w, 'i, 'j, 'o) pool \<Rightarrow> ('w, 'i, 'j, 'o) pool option" where
  "worker_step kind i st =
     (let wk = pl_workers st ! i in
      case wt_phase wk of
        Starting \<Rightarrow>
          (case wk_init kind of
             Ok inst \<Rightarrow> Some (set_worker i (wk\<lparr>wt_phase := Announcing inst, wt_is_initialized := True\<rparr>) st)
           | _ \<Rightarrow> Some (set_worker i (wk\<lparr>wt_phase := Exited\<rparr>) st))
      | Announcing inst \<Rightarrow> Some (notify_waiters (set_worker i (wk\<lparr>wt_phase := Ready inst\<rparr>) st))
      | Ready inst \<Rightarrow> None
      | Got inst c j \<Rightarrow> Some (set_worker i (wk\<lparr>wt_phase := Started inst c j, wt_is_busy := True\<rparr>) st)
      | Started inst c j \<Rightarrow>
          Some (set_worker i (wk\<lparr>wt_phase := Proving inst c j\<rparr>)
            (st\<lparr>pl_shared := wk_enter kind (worker_name kind i) j (pl_shared st)\<rparr>))
      | Proving inst c j \<Rightarrow>
          (case run_result kind (worker_name kind i) inst j (pl_shared st) of
             (w, inst', r) \<Rightarrow> Some (set_worker i (wk\<lparr>wt_phase := Ran inst' c r\<rparr>)
               (st\<lparr>pl_shared := w, pl_log := pl_log st @ [(c, i, r)]\<rparr>)))
      | Ran inst c r \<Rightarrow> Some (set_worker i (wk\<lparr>wt_phase := Released inst c r, wt_is_busy := False\<rparr>) st)
      | Released inst c r \<Rightarrow> Some (notify_waiters (set_worker i (wk\<lparr>wt_phase := Reply inst c r\<rparr>) st))
      | Reply inst c r \<Rightarrow> Some (resolve c (Delivered r) (set_worker i (wk\<lparr>wt_phase := Ready inst\<rparr>) st))
      | Exited \<Rightarrow> None)"

text \<open>The two arms of the \<open>select!\<close>, and the messages left in the channel of a thread that exits.\<close>

definition worker_recv :: "nat \<Rightarrow> ('w, 'i, 'j, 'o) pool \<Rightarrow> ('w, 'i, 'j, 'o) pool option" where
  "worker_recv i st =
     (let wk = pl_workers st ! i in
      case (wt_phase wk, wt_channel wk) of
        (Ready inst, Some (c, j)) \<Rightarrow>
          Some (set_worker i (wk\<lparr>wt_phase := Got inst c j, wt_channel := None\<rparr>) st)
      | _ \<Rightarrow> None)"

definition worker_recv_cancel :: "nat \<Rightarrow> ('w, 'i, 'j, 'o) pool \<Rightarrow> ('w, 'i, 'j, 'o) pool option" where
  "worker_recv_cancel i st =
     (let wk = pl_workers st ! i in
      case wt_phase wk of
        Ready inst \<Rightarrow> (if wt_cancel wk then Some (set_worker i (wk\<lparr>wt_phase := Exited\<rparr>) st) else None)
      | _ \<Rightarrow> None)"

definition channel_drop :: "nat \<Rightarrow> ('w, 'i, 'j, 'o) pool \<Rightarrow> ('w, 'i, 'j, 'o) pool option" where
  "channel_drop i st =
     (let wk = pl_workers st ! i in
      case (wt_phase wk, wt_channel wk) of
        (Exited, Some (c, j)) \<Rightarrow> Some (resolve c Disconnected (set_worker i (wk\<lparr>wt_channel := None\<rparr>) st))
      | _ \<Rightarrow> None)"

section \<open>Clients\<close>

text \<open>\<open>submit_to_workers\<close>: register, scan the workers, send to the first free one, otherwise sleep.
  \<open>label\<close> is the kind named in the error of an empty pool.\<close>

definition client_step ::
  "string \<Rightarrow> nat \<Rightarrow> ('w, 'i, 'j, 'o) pool \<Rightarrow> ('w, 'i, 'j, 'o) pool option" where
  "client_step label c st =
     (let cl = pl_clients st ! c; ws = pl_workers st;
          go = (\<lambda>p. Some (set_client c (cl\<lparr>cl_phase := p\<rparr>) st))
      in case cl_phase cl of
           Entering \<Rightarrow>
             go (if ws = [] then Failed_submit (''No '' @ label @ '' workers available - check prover pool configuration'')
                 else Registering)
         | Registering \<Rightarrow> Some (set_client c (cl\<lparr>cl_phase := Scanning 0, cl_notified := False\<rparr>) st)
         | Scanning k \<Rightarrow>
             go (if length ws \<le> k then Cancel_check
                 else if wt_is_busy (ws ! k) then Scanning (Suc k) else Checking k)
         | Checking k \<Rightarrow> go (if wt_is_initialized (ws ! k) then Sending k else Scanning (Suc k))
         | Sending k \<Rightarrow>
             (if wt_phase (ws ! k) = Exited then go (Failed_submit ''Worker channel closed'')
              else if wt_channel (ws ! k) = None
              then Some (set_worker k ((ws ! k)\<lparr>wt_channel := Some (c, cl_job cl)\<rparr>)
                     (set_client c (cl\<lparr>cl_phase := Awaiting k\<rparr>) st))
              else go (Scanning (Suc k)))
         | Cancel_check \<Rightarrow> go (if pl_cancelled st then Failed_submit ''Prover pool cancelled'' else Asleep)
         | Asleep \<Rightarrow> (if cl_notified cl \<or> pl_cancelled st then go Registering else None)
         | _ \<Rightarrow> None)"

definition client_timeout :: "nat \<Rightarrow> ('w, 'i, 'j, 'o) pool \<Rightarrow> ('w, 'i, 'j, 'o) pool option" where
  "client_timeout c st =
     (let cl = pl_clients st ! c in
      case cl_phase cl of
        Asleep \<Rightarrow> Some (set_client c (cl\<lparr>cl_phase := Registering\<rparr>) st)
      | _ \<Rightarrow> None)"

fun abandoned_phase :: "'o client_phase \<Rightarrow> 'o client_phase option" where
  "abandoned_phase (Awaiting i) = Some (Abandoned i)"
| "abandoned_phase (Delivered r) = None"
| "abandoned_phase Disconnected = None"
| "abandoned_phase (Failed_submit e) = None"
| "abandoned_phase (Abandoned i) = None"
| "abandoned_phase Withdrawn = None"
| "abandoned_phase _ = Some Withdrawn"

definition new_client :: "'j \<Rightarrow> 'o client_phase \<Rightarrow> ('w, 'i, 'j, 'o) pool \<Rightarrow> ('w, 'i, 'j, 'o) pool" where
  "new_client job p st =
     st\<lparr>pl_clients := pl_clients st @ [\<lparr>cl_job = job, cl_phase = p, cl_notified = False\<rparr>]\<rparr>"

text \<open>The entry points: \<open>submit_to_workers\<close> starts with the check of an empty pool, \<open>dispatch_app_job\<close>
  (the same loop, which hands out the result receiver) does not.\<close>

definition submit_to_workers :: "'j \<Rightarrow> ('w, 'i, 'j, 'o) pool \<Rightarrow> ('w, 'i, 'j, 'o) pool" where
  "submit_to_workers job st = new_client job Entering st"

definition dispatch_app_job :: "'j \<Rightarrow> ('w, 'i, 'j, 'o) pool \<Rightarrow> ('w, 'i, 'j, 'o) pool" where
  "dispatch_app_job job st = new_client job Registering st"

definition submit_result :: "'o client_phase \<Rightarrow> 'o outcome option" where
  "submit_result p =
     (case p of
        Delivered r \<Rightarrow> Some (Ok r)
      | Disconnected \<Rightarrow> Some (Err ''Worker dropped result channel'')
      | Failed_submit e \<Rightarrow> Some (Err e)
      | _ \<Rightarrow> None)"

section \<open>The pool\<close>

datatype 'j pool_event =
  Ev_worker nat | Ev_recv nat | Ev_recv_cancel nat | Ev_channel_drop nat
| Ev_client nat | Ev_timeout nat | Ev_abandon nat
| Ev_submit 'j | Ev_dispatch 'j
| Ev_foreign_notify | Ev_cancel_token | Ev_cancel_worker nat

text \<open>The workers of the other kinds share the \<open>Notify\<close>; \<open>shutdown\<close> cancels the token, then sends to
  the cancel channel of every worker.\<close>

fun pool_step ::
  "('w, 'i, 'j, 'o) worker_kind \<Rightarrow> string \<Rightarrow> 'j pool_event \<Rightarrow> ('w, 'i, 'j, 'o) pool \<Rightarrow> ('w, 'i, 'j, 'o) pool option" where
  "pool_step kind label (Ev_worker i) st = (if i < length (pl_workers st) then worker_step kind i st else None)"
| "pool_step kind label (Ev_recv i) st = (if i < length (pl_workers st) then worker_recv i st else None)"
| "pool_step kind label (Ev_recv_cancel i) st = (if i < length (pl_workers st) then worker_recv_cancel i st else None)"
| "pool_step kind label (Ev_channel_drop i) st = (if i < length (pl_workers st) then channel_drop i st else None)"
| "pool_step kind label (Ev_client c) st = (if c < length (pl_clients st) then client_step label c st else None)"
| "pool_step kind label (Ev_timeout c) st = (if c < length (pl_clients st) then client_timeout c st else None)"
| "pool_step kind label (Ev_abandon c) st =
     (if c < length (pl_clients st)
      then map_option (\<lambda>p. set_client c ((pl_clients st ! c)\<lparr>cl_phase := p\<rparr>) st)
        (abandoned_phase (cl_phase (pl_clients st ! c)))
      else None)"
| "pool_step kind label (Ev_submit job) st = Some (submit_to_workers job st)"
| "pool_step kind label (Ev_dispatch job) st = Some (dispatch_app_job job st)"
| "pool_step kind label Ev_foreign_notify st = Some (notify_waiters st)"
| "pool_step kind label Ev_cancel_token st = Some (st\<lparr>pl_cancelled := True\<rparr>)"
| "pool_step kind label (Ev_cancel_worker i) st =
     (if i < length (pl_workers st) \<and> pl_cancelled st
      then Some (set_worker i ((pl_workers st ! i)\<lparr>wt_cancel := True\<rparr>) st) else None)"

fun pool_run ::
  "('w, 'i, 'j, 'o) worker_kind \<Rightarrow> string \<Rightarrow> 'j pool_event list \<Rightarrow> ('w, 'i, 'j, 'o) pool \<Rightarrow> ('w, 'i, 'j, 'o) pool option" where
  "pool_run kind label [] st = Some st"
| "pool_run kind label (ev # evs) st =
     (case pool_step kind label ev st of None \<Rightarrow> None | Some st' \<Rightarrow> pool_run kind label evs st')"

section \<open>Counters\<close>

text \<open>The flags \<open>(is_busy, is_initialized)\<close> of the workers of each kind.\<close>

type_synonym pool_flags = "job_type \<Rightarrow> (bool \<times> bool) list"

definition worker_flags :: "('i, 'j, 'o) worker_thread list \<Rightarrow> (bool \<times> bool) list" where
  "worker_flags ws = map (\<lambda>wk. (wt_is_busy wk, wt_is_initialized wk)) ws"

definition free_flags :: "bool \<times> bool \<Rightarrow> bool" where
  "free_flags f \<longleftrightarrow> \<not> fst f \<and> snd f"

definition has_available_worker :: "pool_flags \<Rightarrow> job_type \<Rightarrow> bool" where
  "has_available_worker flags kind = list_ex free_flags (flags kind)"

definition busy_count :: "pool_flags \<Rightarrow> job_type \<Rightarrow> nat" where
  "busy_count flags kind = length (filter fst (flags kind))"

definition initialized_count :: "pool_flags \<Rightarrow> job_type \<Rightarrow> nat" where
  "initialized_count flags kind = length (filter snd (flags kind))"

definition configured_count :: "pool_flags \<Rightarrow> job_type \<Rightarrow> nat" where
  "configured_count flags kind = length (flags kind)"

definition all_provers_initialized :: "pool_flags \<Rightarrow> bool" where
  "all_provers_initialized flags \<longleftrightarrow>
     list_all (\<lambda>kind. flags kind = [] \<or> list_all snd (flags kind))
       [Job_Sharded_App, Job_Leaf, Job_Internal, Job_Root, Job_Halo2]"

lemma all_provers_initialized_iff:
  "all_provers_initialized flags \<longleftrightarrow> (\<forall>kind. initialized_count flags kind = configured_count flags kind)"
proof -
  have one: "(flags k = [] \<or> list_all snd (flags k)) \<longleftrightarrow> initialized_count flags k = configured_count flags k" for k
    by (auto simp: initialized_count_def configured_count_def list_all_iff length_filter_less
      dest: length_filter_less [of _ _ snd] intro!: arg_cong [where f = length] filter_True)
  have "(\<forall>k. P k) \<longleftrightarrow> P Job_Sharded_App \<and> P Job_Leaf \<and> P Job_Internal \<and> P Job_Root \<and> P Job_Halo2"
    for P :: "job_type \<Rightarrow> bool"
    by (metis job_type.exhaust)
  then show ?thesis unfolding all_provers_initialized_def by (simp add: one)
qed

section \<open>Sharded app jobs\<close>

text \<open>\<open>submit_sharded_app_job\<close>: one \<open>ShardedApp\<close> job, or for several provers the parallel job: its
  consumers are dispatched, then a barrier waits (at most two seconds) until as many app workers are
  busy, then the coordinator is submitted and all results are collected. \<open>create\<close> is
  \<open>create_parallel_prove_jobs\<close>, \<open>single\<close> wraps the job for one worker. Clients are named by their number
  in the pool.\<close>

datatype 'j app_submission =
  App_start
| App_single nat
| App_dispatching "nat list" "'j list" 'j
| App_dispatched "nat list" nat "'j list" 'j
| App_barrier "nat list" 'j
| App_coordinating "nat list" nat
| App_collecting "nat list" "prover_result option list" prover_result
| App_done "prover_result outcome"

record ('w, 'i, 'j) app_pool =
  ap_pool :: "('w, 'i, 'j, prover_result) pool"
  ap_phase :: "'j app_submission"

definition app_flags :: "('w, 'i, 'j, prover_result) pool \<Rightarrow> pool_flags" where
  "app_flags st kind = (if kind = Job_Sharded_App then worker_flags (pl_workers st) else [])"

definition dispatch_returned :: "'o client_phase \<Rightarrow> unit outcome option" where
  "dispatch_returned p =
     (case p of
        Awaiting i \<Rightarrow> Some (Ok ())
      | Delivered r \<Rightarrow> Some (Ok ())
      | Disconnected \<Rightarrow> Some (Ok ())
      | Failed_submit e \<Rightarrow> Some (Err e)
      | _ \<Rightarrow> None)"

definition wait_for_busy_app_workers ::
  "nat \<Rightarrow> bool \<Rightarrow> ('w, 'i, 'j, prover_result) pool \<Rightarrow> unit outcome option" where
  "wait_for_busy_app_workers min_busy timed_out st =
     (let busy = busy_count (app_flags st) Job_Sharded_App in
      if min_busy = 0 \<or> min_busy \<le> busy then Some (Ok ())
      else if timed_out
      then Some (Err (''Timed out waiting for app consumers to start: need busy >= '' @ show_nat min_busy @
             '', got '' @ show_nat busy))
      else None)"

definition parallel_app_step ::
  "nat \<Rightarrow> program_ref \<Rightarrow> ('j \<times> 'j list) outcome \<Rightarrow> bool \<Rightarrow> ('w, 'i, 'j) app_pool \<Rightarrow> ('w, 'i, 'j) app_pool option" where
  "parallel_app_step max_app_provers program create timed_out s =
     (let st = ap_pool s; cs = pl_clients st; go = (\<lambda>p. Some (s\<lparr>ap_phase := p\<rparr>)) in
      case ap_phase s of
        App_start \<Rightarrow>
          (let available = length (filter free_flags (app_flags st Job_Sharded_App)) in
           if available < max_app_provers
           then go (App_done (Err (''Not enough available app workers for parallel proving of '' @
             program_display program @ '': need '' @ show_nat max_app_provers @ '', have '' @ show_nat available)))
           else (case create of
                   Ok (coordinator, consumers) \<Rightarrow> go (App_dispatching [] consumers coordinator)
                 | Err e \<Rightarrow> go (App_done (Err e))
                 | Panic p \<Rightarrow> go (App_done (Panic p))))
      | App_dispatching ids (f # fs) coordinator \<Rightarrow>
          Some (s\<lparr>ap_pool := dispatch_app_job f st, ap_phase := App_dispatched ids (length cs) fs coordinator\<rparr>)
      | App_dispatching ids [] coordinator \<Rightarrow> go (App_barrier ids coordinator)
      | App_dispatched ids c fs coordinator \<Rightarrow>
          (case dispatch_returned (cl_phase (cs ! c)) of
             None \<Rightarrow> None
           | Some (Ok u) \<Rightarrow> go (App_dispatching (ids @ [c]) fs coordinator)
           | Some (Err e) \<Rightarrow> go (App_done (Err e))
           | Some (Panic p) \<Rightarrow> go (App_done (Panic p)))
      | App_barrier ids coordinator \<Rightarrow>
          (case wait_for_busy_app_workers (max_app_provers - 1) timed_out st of
             None \<Rightarrow> None
           | Some (Ok u) \<Rightarrow>
               Some (s\<lparr>ap_pool := submit_to_workers coordinator st, ap_phase := App_coordinating ids (length cs)\<rparr>)
           | Some (Err e) \<Rightarrow> go (App_done (Err e))
           | Some (Panic p) \<Rightarrow> go (App_done (Panic p)))
      | App_coordinating ids c \<Rightarrow>
          (case submit_result (cl_phase (cs ! c)) of
             None \<Rightarrow> None
           | Some (Ok r) \<Rightarrow> go (App_collecting ids [] r)
           | Some (Err e) \<Rightarrow> go (App_done (Err e))
           | Some (Panic p) \<Rightarrow> go (App_done (Panic p)))
      | App_collecting (c # ids) rs r \<Rightarrow>
          (case cl_phase (cs ! c) of
             Delivered r' \<Rightarrow> go (App_collecting ids (rs @ [Some r']) r)
           | Disconnected \<Rightarrow> go (App_collecting ids (rs @ [None]) r)
           | _ \<Rightarrow> None)
      | App_collecting [] rs r \<Rightarrow> go (App_done (Ok (parallel_app_result r rs)))
      | _ \<Rightarrow> None)"

definition sharded_app_step ::
  "nat \<Rightarrow> program_ref \<Rightarrow> 'j \<Rightarrow> ('j \<times> 'j list) outcome \<Rightarrow> bool \<Rightarrow> ('w, 'i, 'j) app_pool \<Rightarrow>
     ('w, 'i, 'j) app_pool option" where
  "sharded_app_step max_app_provers program single create timed_out s =
     (if max_app_provers > 1 then parallel_app_step max_app_provers program create timed_out s
      else case ap_phase s of
             App_start \<Rightarrow> Some (s\<lparr>ap_pool := submit_to_workers single (ap_pool s),
               ap_phase := App_single (length (pl_clients (ap_pool s)))\<rparr>)
           | App_single c \<Rightarrow>
               map_option (\<lambda>r. s\<lparr>ap_phase := App_done r\<rparr>) (submit_result (cl_phase (pl_clients (ap_pool s) ! c)))
           | _ \<Rightarrow> None)"

text \<open>The submission interleaved with the pool: \<open>Inr\<close> is a step of the submitting task, with the
  state of its two second timer.\<close>

fun app_run ::
  "('w, 'i, 'j, prover_result) worker_kind \<Rightarrow> nat \<Rightarrow> program_ref \<Rightarrow> 'j \<Rightarrow> ('j \<times> 'j list) outcome \<Rightarrow>
     ('j pool_event + bool) list \<Rightarrow> ('w, 'i, 'j) app_pool \<Rightarrow> ('w, 'i, 'j) app_pool option" where
  "app_run kind m program single create [] s = Some s"
| "app_run kind m program single create (Inl ev # evs) s =
     (case pool_step kind ''app'' ev (ap_pool s) of
        None \<Rightarrow> None
      | Some st \<Rightarrow> app_run kind m program single create evs (s\<lparr>ap_pool := st\<rparr>))"
| "app_run kind m program single create (Inr timed_out # evs) s =
     (case sharded_app_step m program single create timed_out s of
        None \<Rightarrow> None
      | Some s' \<Rightarrow> app_run kind m program single create evs s')"

end
