(* ===== verification/Pool_Properties.thy ===== *)
theory Pool_Properties
  imports Pool_Dispatch
begin

text \<open>
  The invariant of the prover pool and its properties: every job is run at most once, by one worker,
  and the answer a client receives is the result of its own job; no wake-up is lost; the errors of the
  pool are those of a shutdown.
\<close>

section \<open>Where a job is\<close>

fun pre_run :: "('i, 'j, 'o) worker_phase \<Rightarrow> (nat \<times> 'j) option" where
  "pre_run (Got inst c j) = Some (c, j)"
| "pre_run (Started inst c j) = Some (c, j)"
| "pre_run (Proving inst c j) = Some (c, j)"
| "pre_run _ = None"

fun post_run :: "('i, 'j, 'o) worker_phase \<Rightarrow> (nat \<times> 'o) option" where
  "post_run (Ran inst c r) = Some (c, r)"
| "post_run (Released inst c r) = Some (c, r)"
| "post_run (Reply inst c r) = Some (c, r)"
| "post_run _ = None"

fun busy_phase :: "('i, 'j, 'o) worker_phase \<Rightarrow> bool" where
  "busy_phase (Started inst c j) = True"
| "busy_phase (Proving inst c j) = True"
| "busy_phase (Ran inst c r) = True"
| "busy_phase _ = False"

definition holds :: "('i, 'j, 'o) worker_thread \<Rightarrow> nat \<Rightarrow> bool" where
  "holds wk c \<longleftrightarrow> (\<exists>j. wt_channel wk = Some (c, j)) \<or> (\<exists>j. pre_run (wt_phase wk) = Some (c, j)) \<or>
     (\<exists>r. post_run (wt_phase wk) = Some (c, r))"

text \<open>A worker that is free for a new job: initialized, not busy, its channel empty, and its next
  action not a notification.\<close>

definition idle_worker :: "('i, 'j, 'o) worker_thread \<Rightarrow> bool" where
  "idle_worker wk \<longleftrightarrow> wt_channel wk = None \<and>
     (case wt_phase wk of Ready inst \<Rightarrow> True | Reply inst c r \<Rightarrow> True | _ \<Rightarrow> False)"

fun sent_to :: "nat \<Rightarrow> 'o client_phase \<Rightarrow> bool" where
  "sent_to i (Awaiting k) = (k = i)"
| "sent_to i (Abandoned k) = (k = i)"
| "sent_to i _ = False"

fun unsent :: "'o client_phase \<Rightarrow> bool" where
  "unsent (Awaiting k) = False"
| "unsent (Abandoned k) = False"
| "unsent (Delivered r) = False"
| "unsent Disconnected = False"
| "unsent _ = True"

text \<open>How many workers a client has scanned since it registered.\<close>

fun scanned :: "nat \<Rightarrow> 'o client_phase \<Rightarrow> nat" where
  "scanned n (Scanning k) = k"
| "scanned n (Checking k) = k"
| "scanned n (Sending k) = k"
| "scanned n Cancel_check = n"
| "scanned n Asleep = n"
| "scanned n _ = 0"

fun settled :: "'o client_phase \<Rightarrow> bool" where
  "settled (Delivered r) = True"
| "settled Disconnected = True"
| "settled (Failed_submit e) = True"
| "settled (Abandoned i) = True"
| "settled Withdrawn = True"
| "settled _ = False"

section \<open>The invariant\<close>

definition worker_inv ::
  "('j, 'o) pool_client list \<Rightarrow> bool \<Rightarrow> (nat \<times> nat \<times> 'o) list \<Rightarrow> nat \<Rightarrow> ('i, 'j, 'o) worker_thread \<Rightarrow> bool" where
  "worker_inv cls cancelled lg i wk \<longleftrightarrow>
     wt_is_busy wk = busy_phase (wt_phase wk) \<and>
     (wt_phase wk = Starting \<longrightarrow> \<not> wt_is_initialized wk) \<and>
     (wt_phase wk \<noteq> Starting \<longrightarrow> wt_phase wk \<noteq> Exited \<longrightarrow> wt_is_initialized wk) \<and>
     (wt_channel wk \<noteq> None \<longrightarrow> wt_is_initialized wk) \<and>
     (wt_cancel wk \<longrightarrow> cancelled) \<and>
     (wt_phase wk = Exited \<longrightarrow> wt_is_initialized wk \<longrightarrow> cancelled) \<and>
     (\<forall>c. holds wk c \<longrightarrow> c < length cls \<and> sent_to i (cl_phase (cls ! c))) \<and>
     (\<forall>c j. wt_channel wk = Some (c, j) \<longrightarrow> j = cl_job (cls ! c) \<and> c \<notin> fst ` set lg \<and>
        pre_run (wt_phase wk) \<noteq> Some (c, j)) \<and>
     (\<forall>c j. pre_run (wt_phase wk) = Some (c, j) \<longrightarrow> j = cl_job (cls ! c) \<and> c \<notin> fst ` set lg) \<and>
     (\<forall>c r. post_run (wt_phase wk) = Some (c, r) \<longrightarrow> (c, i, r) \<in> set lg)"

definition client_inv ::
  "('i, 'j, 'o) worker_thread list \<Rightarrow> bool \<Rightarrow> (nat \<times> nat \<times> 'o) list \<Rightarrow> nat \<Rightarrow> ('j, 'o) pool_client \<Rightarrow> bool" where
  "client_inv ws cancelled lg c cl \<longleftrightarrow>
     (unsent (cl_phase cl) \<longrightarrow> c \<notin> fst ` set lg) \<and>
     scanned (length ws) (cl_phase cl) \<le> length ws \<and>
     (\<forall>k. cl_phase cl = Checking k \<longrightarrow> k < length ws) \<and>
     (\<forall>k. cl_phase cl = Sending k \<longrightarrow> k < length ws \<and> wt_is_initialized (ws ! k)) \<and>
     (\<forall>i. cl_phase cl = Awaiting i \<longrightarrow> i < length ws \<and> holds (ws ! i) c) \<and>
     (\<forall>r. cl_phase cl = Delivered r \<longrightarrow> (\<exists>i. (c, i, r) \<in> set lg)) \<and>
     (cl_phase cl = Disconnected \<longrightarrow> cancelled) \<and>
     (\<forall>e. cl_phase cl = Failed_submit e \<longrightarrow> cancelled \<or> ws = []) \<and>
     (\<not> cl_notified cl \<longrightarrow> (\<forall>i < scanned (length ws) (cl_phase cl). \<not> idle_worker (ws ! i)))"

definition log_inv ::
  "('w, 'i, 'j, 'o) worker_kind \<Rightarrow> ('j, 'o) pool_client list \<Rightarrow> (nat \<times> nat \<times> 'o) list \<Rightarrow> bool" where
  "log_inv kind cls lg \<longleftrightarrow> distinct (map fst lg) \<and>
     (\<forall>(c, i, r) \<in> set lg. c < length cls \<and>
        (\<exists>inst w. snd (snd (run_result kind (worker_name kind i) inst (cl_job (cls ! c)) w)) = r))"

definition pool_inv :: "('w, 'i, 'j, 'o) worker_kind \<Rightarrow> ('w, 'i, 'j, 'o) pool \<Rightarrow> bool" where
  "pool_inv kind st \<longleftrightarrow>
     (\<forall>i < length (pl_workers st). worker_inv (pl_clients st) (pl_cancelled st) (pl_log st) i (pl_workers st ! i)) \<and>
     (\<forall>c < length (pl_clients st). client_inv (pl_workers st) (pl_cancelled st) (pl_log st) c (pl_clients st ! c)) \<and>
     log_inv kind (pl_clients st) (pl_log st)"

lemma pool_invD:
  assumes "pool_inv kind st"
  shows "i < length (pl_workers st) \<Longrightarrow>
      worker_inv (pl_clients st) (pl_cancelled st) (pl_log st) i (pl_workers st ! i)"
    "c < length (pl_clients st) \<Longrightarrow> client_inv (pl_workers st) (pl_cancelled st) (pl_log st) c (pl_clients st ! c)"
    "log_inv kind (pl_clients st) (pl_log st)"
  using assms by (auto simp: pool_inv_def)

lemma worker_inv_clients:
  assumes wi: "worker_inv cls cancelled lg i wk"
    and same: "\<And>c. holds wk c \<Longrightarrow> c < length cls \<Longrightarrow> c < length cls' \<and> cl_job (cls' ! c) = cl_job (cls ! c) \<and>
      (sent_to i (cl_phase (cls ! c)) \<longrightarrow> sent_to i (cl_phase (cls' ! c)))"
  shows "worker_inv cls' cancelled lg i wk"
proof -
  have lt: "c < length cls" if "holds wk c" for c using wi that by (simp add: worker_inv_def)
  have "j = cl_job (cls' ! c)" if "wt_channel wk = Some (c, j) \<or> pre_run (wt_phase wk) = Some (c, j)" for c j
  proof -
    have h: "holds wk c" using that by (auto simp: holds_def)
    have "j = cl_job (cls ! c)" using wi that by (auto simp: worker_inv_def)
    then show ?thesis using same [OF h lt [OF h]] by simp
  qed
  moreover have "c < length cls' \<and> sent_to i (cl_phase (cls' ! c))" if "holds wk c" for c
    using wi same [OF that] that by (simp add: worker_inv_def)
  ultimately show ?thesis using wi unfolding worker_inv_def by (elim conjE) (intro conjI; blast)
qed

lemma pool_inv_shared [simp]: "pool_inv kind (st\<lparr>pl_shared := w\<rparr>) = pool_inv kind st"
  by (simp add: pool_inv_def)

lemma new_pool_inv: "pool_inv kind (new_pool n w)"
  by (auto simp: pool_inv_def new_pool_def worker_inv_def log_inv_def new_worker_thread_def holds_def)

section \<open>Frame rules\<close>

text \<open>A worker changes on its own: it still serves the clients it served, and it does not become idle
  unless every client has been notified.\<close>

lemma frame_worker:
  assumes inv: "pool_inv kind st" and i: "i < length (pl_workers st)"
    and wk: "worker_inv (pl_clients st) (pl_cancelled st) (pl_log st) i wk"
    and init: "wt_is_initialized (pl_workers st ! i) \<Longrightarrow> wt_is_initialized wk"
    and holds: "\<And>c. holds (pl_workers st ! i) c \<Longrightarrow> holds wk c"
    and idle: "idle_worker wk \<Longrightarrow> idle_worker (pl_workers st ! i) \<or> (\<forall>cl \<in> set (pl_clients st). cl_notified cl)"
  shows "pool_inv kind (set_worker i wk st)"
proof -
  let ?ws = "(pl_workers st)[i := wk]"
  have "client_inv ?ws (pl_cancelled st) (pl_log st) c (pl_clients st ! c)" if c: "c < length (pl_clients st)" for c
  proof -
    note ci = pool_invD(2) [OF inv c]
    have 1: "wt_is_initialized (?ws ! k)" if "wt_is_initialized (pl_workers st ! k)" for k
      using that init i by (cases "k = i") auto
    have 2: "holds (?ws ! k) c" if "holds (pl_workers st ! k) c" for k
      using that holds i by (cases "k = i") auto
    have 3: "\<not> idle_worker (?ws ! k)" if "\<not> idle_worker (pl_workers st ! k)" "\<not> cl_notified (pl_clients st ! c)" for k
      using that idle i c by (cases "k = i") auto
    have 4: "?ws = [] \<longleftrightarrow> pl_workers st = []" by simp
    show ?thesis using ci unfolding client_inv_def length_list_update 4 by (simp add: 1 2 3)
  qed
  then show ?thesis using inv wk i
    by (auto simp: pool_inv_def set_worker_def nth_list_update)
qed

text \<open>A client changes on its own: the worker it was sent to stays the same.\<close>

lemma frame_client:
  assumes inv: "pool_inv kind st" and c: "c < length (pl_clients st)"
    and cl: "client_inv (pl_workers st) (pl_cancelled st) (pl_log st) c cl"
    and job: "cl_job cl = cl_job (pl_clients st ! c)"
    and sent: "\<And>i. sent_to i (cl_phase (pl_clients st ! c)) \<Longrightarrow> sent_to i (cl_phase cl)"
  shows "pool_inv kind (set_client c cl st)"
proof -
  let ?cs = "(pl_clients st)[c := cl]"
  have j: "cl_job (?cs ! k) = cl_job (pl_clients st ! k)" for k
    using job c by (cases "k = c") auto
  have s: "sent_to i (cl_phase (?cs ! k))" if "sent_to i (cl_phase (pl_clients st ! k))" for i k
    using that sent c by (cases "k = c") auto
  have w: "worker_inv ?cs (pl_cancelled st) (pl_log st) i (pl_workers st ! i)" if "i < length (pl_workers st)" for i
    by (rule worker_inv_clients [OF pool_invD(1) [OF inv that]]) (simp add: j s)
  have l: "log_inv kind ?cs (pl_log st)"
    using pool_invD(3) [OF inv] unfolding log_inv_def length_list_update j .
  have k: "client_inv (pl_workers st) (pl_cancelled st) (pl_log st) k (?cs ! k)" if "k < length (pl_clients st)" for k
    using pool_invD(2) [OF inv that] cl that by (cases "k = c") simp_all
  show ?thesis using w l k by (simp add: pool_inv_def set_client_def)
qed

lemma notify_inv:
  assumes inv: "pool_inv kind st"
  shows "pool_inv kind (notify_waiters st)"
proof -
  let ?cs = "map (cl_notified_update (\<lambda>_. True)) (pl_clients st)"
  have w: "worker_inv ?cs (pl_cancelled st) (pl_log st) i (pl_workers st ! i)" if i: "i < length (pl_workers st)" for i
    by (rule worker_inv_clients [OF pool_invD(1) [OF inv i]]) simp
  have l: "log_inv kind ?cs (pl_log st)"
    using pool_invD(3) [OF inv] by (fastforce simp: log_inv_def)
  have "client_inv (pl_workers st) (pl_cancelled st) (pl_log st) c (?cs ! c)" if "c < length (pl_clients st)" for c
    using pool_invD(2) [OF inv that] that by (simp add: client_inv_def)
  then show ?thesis using w l by (simp add: pool_inv_def notify_waiters_def)
qed


section \<open>Steps of several parties\<close>

text \<open>A worker answers or drops the job it holds for client \<open>c\<close>, and then holds no other change.\<close>

lemma settle_inv:
  assumes inv: "pool_inv kind st" and i: "i < length (pl_workers st)"
    and held: "holds (pl_workers st ! i) c"
    and wk: "worker_inv (pl_clients st) (pl_cancelled st) (pl_log st) i wk"
    and init: "wt_is_initialized wk = wt_is_initialized (pl_workers st ! i)"
    and holds: "\<And>d. holds wk d \<longleftrightarrow> d \<noteq> c \<and> holds (pl_workers st ! i) d"
    and idle: "idle_worker wk \<Longrightarrow> idle_worker (pl_workers st ! i)"
    and r: "r = Disconnected \<and> pl_cancelled st \<or> (\<exists>x. r = Delivered x \<and> (c, i, x) \<in> set (pl_log st))"
  shows "pool_inv kind (resolve c r (set_worker i wk st))"
proof -
  let ?ws = "(pl_workers st)[i := wk]"
  note wi = pool_invD(1) [OF inv i]
  have c: "c < length (pl_clients st)" and si: "sent_to i (cl_phase (pl_clients st ! c))"
    using wi held by (auto simp: worker_inv_def)
  define p where "p = (case cl_phase (pl_clients st ! c) of Awaiting i \<Rightarrow> r | q \<Rightarrow> q)"
  define cl where "cl = (pl_clients st ! c)\<lparr>cl_phase := p\<rparr>"
  let ?cs = "(pl_clients st)[c := cl]"
  have same: "cl = pl_clients st ! c" if "cl_phase (pl_clients st ! c) = Abandoned k" for k
    using that by (cases "pl_clients st ! c") (simp add: cl_def p_def)
  have st': "resolve c r (set_worker i wk st) = st\<lparr>pl_workers := ?ws, pl_clients := ?cs\<rparr>"
  proof (cases "cl_phase (pl_clients st ! c)")
    case (Awaiting k)
    then show ?thesis by (simp add: resolve_def set_worker_def set_client_def cl_def p_def Let_def)
  next
    case (Abandoned k)
    then show ?thesis using same by (simp add: resolve_def set_worker_def Let_def)
  qed (use si in auto)
  have other: "\<not> holds (?ws ! k) c" if "k < length ?ws" for k
  proof (cases "k = i")
    case False
    then have "holds (?ws ! k) c \<Longrightarrow> sent_to k (cl_phase (pl_clients st ! c))"
      using pool_invD(1) [OF inv, of k] that by (auto simp: worker_inv_def)
    then show ?thesis using si False by (cases "cl_phase (pl_clients st ! c)") auto
  qed (use holds i in auto)
  have w: "worker_inv ?cs (pl_cancelled st) (pl_log st) k (?ws ! k)" if k: "k < length ?ws" for k
  proof -
    have o: "worker_inv (pl_clients st) (pl_cancelled st) (pl_log st) k (?ws ! k)"
      using pool_invD(1) [OF inv, of k] wk k by (cases "k = i") auto
    have e: "?cs ! d = pl_clients st ! d" if "holds (?ws ! k) d" for d
      using that other [OF k] by (cases "d = c") auto
    show ?thesis by (rule worker_inv_clients [OF o]) (simp add: e)
  qed
  have l: "log_inv kind ?cs (pl_log st)"
  proof -
    have j: "cl_job (?cs ! d) = cl_job (pl_clients st ! d)" for d
      using c by (cases "d = c") (auto simp: cl_def)
    show ?thesis using pool_invD(3) [OF inv] unfolding log_inv_def length_list_update j .
  qed
  have k: "client_inv ?ws (pl_cancelled st) (pl_log st) d (?cs ! d)" if d: "d < length ?cs" for d
  proof (cases "d = c")
    case True
    have "client_inv ?ws (pl_cancelled st) (pl_log st) c cl"
      using r si pool_invD(2) [OF inv c]
      by (cases "cl_phase (pl_clients st ! c)") (auto simp: client_inv_def cl_def p_def)
    then show ?thesis using True c by simp
  next
    case False
    have 1: "wt_is_initialized (?ws ! k) = wt_is_initialized (pl_workers st ! k)" for k
      using init i by (cases "k = i") auto
    have 2: "holds (?ws ! k) d = holds (pl_workers st ! k) d" for k
      using holds False i by (cases "k = i") auto
    have 3: "\<not> idle_worker (?ws ! k)" if "\<not> idle_worker (pl_workers st ! k)" for k
      using that idle i by (cases "k = i") auto
    have 4: "?ws = [] \<longleftrightarrow> pl_workers st = []" by simp
    have "client_inv (pl_workers st) (pl_cancelled st) (pl_log st) d (pl_clients st ! d)"
      using pool_invD(2) [OF inv] d by simp
    then have "client_inv ?ws (pl_cancelled st) (pl_log st) d (pl_clients st ! d)"
      unfolding client_inv_def length_list_update 1 2 4 by (simp add: 3)
    then show ?thesis using False by simp
  qed
  show ?thesis using w l k unfolding st' by (simp add: pool_inv_def)
qed

text \<open>A client puts its job into the channel of a worker.\<close>

lemma send_inv:
  assumes inv: "pool_inv kind st" and c: "c < length (pl_clients st)" and i: "i < length (pl_workers st)"
    and un: "unsent (cl_phase (pl_clients st ! c))"
    and wk: "wt_channel (pl_workers st ! i) = None" "wt_is_initialized (pl_workers st ! i)"
  shows "pool_inv kind (set_worker i ((pl_workers st ! i)\<lparr>wt_channel := Some (c, cl_job (pl_clients st ! c))\<rparr>)
    (set_client c ((pl_clients st ! c)\<lparr>cl_phase := Awaiting i\<rparr>) st))"
proof -
  define w where "w = (pl_workers st ! i)\<lparr>wt_channel := Some (c, cl_job (pl_clients st ! c))\<rparr>"
  define cl where "cl = (pl_clients st ! c)\<lparr>cl_phase := Awaiting i\<rparr>"
  let ?ws = "(pl_workers st)[i := w]"
  let ?cs = "(pl_clients st)[c := cl]"
  have j: "cl_job (?cs ! d) = cl_job (pl_clients st ! d)" for d
    using c by (cases "d = c") (auto simp: cl_def)
  have nl: "c \<notin> fst ` set (pl_log st)"
    using pool_invD(2) [OF inv c] un by (simp add: client_inv_def)
  have nh: "\<not> holds (pl_workers st ! k) c" if "k < length (pl_workers st)" for k
  proof
    assume "holds (pl_workers st ! k) c"
    then have "sent_to k (cl_phase (pl_clients st ! c))"
      using pool_invD(1) [OF inv that] by (simp add: worker_inv_def)
    then show False using un by (cases "cl_phase (pl_clients st ! c)") auto
  qed
  have h: "holds w d \<longleftrightarrow> d = c \<or> holds (pl_workers st ! i) d" for d
    using wk by (auto simp: holds_def w_def)
  have w: "worker_inv ?cs (pl_cancelled st) (pl_log st) k (?ws ! k)" if k: "k < length ?ws" for k
  proof -
    have o: "worker_inv (pl_clients st) (pl_cancelled st) (pl_log st) k (pl_workers st ! k)"
      using pool_invD(1) [OF inv, of k] k by simp
    have e: "?cs ! d = pl_clients st ! d" if "holds (pl_workers st ! k) d" for d
      using that nh [of k] k by (cases "d = c") auto
    have o': "worker_inv ?cs (pl_cancelled st) (pl_log st) k (pl_workers st ! k)"
      by (rule worker_inv_clients [OF o]) (simp add: e)
    have np: "pre_run (wt_phase (pl_workers st ! i)) \<noteq> Some (c, x)" for x
      using nh [OF i] by (auto simp: holds_def)
    show ?thesis
    proof (cases "k = i")
      case True
      then show ?thesis using o' c i nl np wk h
        by (auto simp: worker_inv_def w_def cl_def nth_list_update)
    qed (use o' in simp)
  qed
  have l: "log_inv kind ?cs (pl_log st)"
    using pool_invD(3) [OF inv] unfolding log_inv_def length_list_update j .
  have k: "client_inv ?ws (pl_cancelled st) (pl_log st) d (?cs ! d)" if d: "d < length ?cs" for d
  proof (cases "d = c")
    case True
    then show ?thesis using c i h by (auto simp: client_inv_def cl_def nl)
  next
    case False
    have 1: "wt_is_initialized (?ws ! k) = wt_is_initialized (pl_workers st ! k)" for k
      using i by (cases "k = i") (auto simp: w_def)
    have 2: "holds (?ws ! k) d = holds (pl_workers st ! k) d" for k
      using h False i by (cases "k = i") auto
    have 3: "\<not> idle_worker (?ws ! k)" if "\<not> idle_worker (pl_workers st ! k)" for k
      using that i by (cases "k = i") (auto simp: w_def idle_worker_def)
    have 4: "?ws = [] \<longleftrightarrow> pl_workers st = []" by simp
    have "client_inv (pl_workers st) (pl_cancelled st) (pl_log st) d (pl_clients st ! d)"
      using pool_invD(2) [OF inv] d by simp
    then have "client_inv ?ws (pl_cancelled st) (pl_log st) d (pl_clients st ! d)"
      unfolding client_inv_def length_list_update 1 2 4 by (simp add: 3)
    then show ?thesis using False by simp
  qed
  show ?thesis using w l k by (simp add: pool_inv_def set_worker_def set_client_def w_def cl_def)
qed


text \<open>A worker runs its job: the result is logged.\<close>

lemma prove_inv:
  assumes inv: "pool_inv kind st" and i: "i < length (pl_workers st)"
    and p: "wt_phase (pl_workers st ! i) = Proving inst c j"
    and r: "run_result kind (worker_name kind i) inst j (pl_shared st) = (w, inst', r)"
  shows "pool_inv kind (set_worker i ((pl_workers st ! i)\<lparr>wt_phase := Ran inst' c r\<rparr>)
    (st\<lparr>pl_shared := w, pl_log := pl_log st @ [(c, i, r)]\<rparr>))"
proof -
  define wk where "wk = (pl_workers st ! i)\<lparr>wt_phase := Ran inst' c r\<rparr>"
  let ?ws = "(pl_workers st)[i := wk]"
  let ?lg = "pl_log st @ [(c, i, r)]"
  note wi = pool_invD(1) [OF inv i]
  have hc: "holds (pl_workers st ! i) c" using p by (simp add: holds_def)
  have c: "c < length (pl_clients st)" and si: "sent_to i (cl_phase (pl_clients st ! c))"
    and nl: "c \<notin> fst ` set (pl_log st)" and j: "j = cl_job (pl_clients st ! c)"
    using wi hc p by (auto simp: worker_inv_def)
  have h: "holds wk d = holds (pl_workers st ! i) d" for d
    using p by (auto simp: holds_def wk_def)
  have other: "d \<noteq> c" if "holds (pl_workers st ! k) d" "k < length (pl_workers st)" "k \<noteq> i" for d k
    using pool_invD(1) [OF inv that(2)] that si
    by (cases "cl_phase (pl_clients st ! c)") (auto simp: worker_inv_def)
  have w: "worker_inv (pl_clients st) (pl_cancelled st) ?lg k (?ws ! k)" if k: "k < length ?ws" for k
  proof (cases "k = i")
    case True
    have "worker_inv (pl_clients st) (pl_cancelled st) ?lg i wk"
      using wi p h nl j unfolding worker_inv_def by (auto simp: wk_def)
    then show ?thesis using True i by simp
  next
    case False
    have "worker_inv (pl_clients st) (pl_cancelled st) (pl_log st) k (pl_workers st ! k)"
      using pool_invD(1) [OF inv, of k] k by simp
    moreover have "d \<noteq> c" if "wt_channel (pl_workers st ! k) = Some (d, x) \<or>
        pre_run (wt_phase (pl_workers st ! k)) = Some (d, x)" for d x
      using other [of k d] that k False by (auto simp: holds_def)
    ultimately have "worker_inv (pl_clients st) (pl_cancelled st) ?lg k (pl_workers st ! k)"
      unfolding worker_inv_def by auto
    then show ?thesis using False by simp
  qed
  have l: "log_inv kind (pl_clients st) ?lg"
  proof -
    have "snd (snd (run_result kind (worker_name kind i) inst (cl_job (pl_clients st ! c)) (pl_shared st))) = r"
      using r j by simp
    then show ?thesis using pool_invD(3) [OF inv] nl c by (auto simp: log_inv_def)
  qed
  have k: "client_inv ?ws (pl_cancelled st) ?lg d (pl_clients st ! d)" if d: "d < length (pl_clients st)" for d
  proof -
    have 1: "wt_is_initialized (?ws ! k) = wt_is_initialized (pl_workers st ! k)" for k
      using i by (cases "k = i") (auto simp: wk_def)
    have 2: "holds (?ws ! k) d = holds (pl_workers st ! k) d" for k
      using h i by (cases "k = i") auto
    have 3: "\<not> idle_worker (?ws ! k)" if "\<not> idle_worker (pl_workers st ! k)" for k
      using that i by (cases "k = i") (auto simp: wk_def idle_worker_def)
    have 4: "?ws = [] \<longleftrightarrow> pl_workers st = []" by simp
    have 5: "\<not> unsent (cl_phase (pl_clients st ! c))"
      using si by (cases "cl_phase (pl_clients st ! c)") auto
    have "client_inv (pl_workers st) (pl_cancelled st) (pl_log st) d (pl_clients st ! d)"
      using pool_invD(2) [OF inv] d by simp
    then show ?thesis
      unfolding client_inv_def length_list_update 1 2 4 using 5 by (cases "d = c") (auto simp: 3)
  qed
  show ?thesis using w l k by (simp add: pool_inv_def set_worker_def wk_def)
qed

lemma new_client_inv:
  assumes inv: "pool_inv kind st" and p: "p \<in> {Entering, Registering}"
  shows "pool_inv kind (new_client job p st)"
proof -
  let ?cs = "pl_clients st @ [\<lparr>cl_job = job, cl_phase = p, cl_notified = False\<rparr>]"
  have w: "worker_inv ?cs (pl_cancelled st) (pl_log st) k (pl_workers st ! k)" if k: "k < length (pl_workers st)" for k
    by (rule worker_inv_clients [OF pool_invD(1) [OF inv k]]) (simp add: nth_append)
  have l: "log_inv kind ?cs (pl_log st)"
    using pool_invD(3) [OF inv] by (fastforce simp: log_inv_def nth_append)
  have nl: "length (pl_clients st) \<notin> fst ` set (pl_log st)"
    using pool_invD(3) [OF inv] by (fastforce simp: log_inv_def)
  have k: "client_inv (pl_workers st) (pl_cancelled st) (pl_log st) d (?cs ! d)" if d: "d < length ?cs" for d
    using pool_invD(2) [OF inv, of d] p d nl
    by (cases "d = length (pl_clients st)") (auto simp: nth_append client_inv_def)
  show ?thesis using w l k by (simp add: pool_inv_def new_client_def)
qed

text \<open>A worker notifies: it moves on to a phase that holds the same job.\<close>

lemma announce_inv:
  assumes inv: "pool_inv kind st" and i: "i < length (pl_workers st)"
    and old: "wt_phase (pl_workers st ! i) = q"
    and p: "pre_run p = pre_run q" "post_run p = post_run q" "busy_phase p = busy_phase q"
    and live: "p \<noteq> Starting" "p \<noteq> Exited" "q \<noteq> Starting" "q \<noteq> Exited"
  shows "pool_inv kind (notify_waiters (set_worker i ((pl_workers st ! i)\<lparr>wt_phase := p\<rparr>) st))"
proof -
  define wk where "wk = (pl_workers st ! i)\<lparr>wt_phase := p\<rparr>"
  have n: "notify_waiters (set_worker i wk st) = set_worker i wk (notify_waiters st)"
    by (simp add: notify_waiters_def set_worker_def)
  have i': "i < length (pl_workers (notify_waiters st))" and w: "pl_workers (notify_waiters st) = pl_workers st"
    using i by (simp_all add: notify_waiters_def)
  have h: "holds wk c = holds (pl_workers st ! i) c" for c
    using p old by (simp add: holds_def wk_def)
  have "worker_inv (pl_clients (notify_waiters st)) (pl_cancelled (notify_waiters st))
      (pl_log (notify_waiters st)) i (pl_workers st ! i)"
    using pool_invD(1) [OF notify_inv [OF inv] i'] w by simp
  then have wi: "worker_inv (pl_clients (notify_waiters st)) (pl_cancelled (notify_waiters st))
      (pl_log (notify_waiters st)) i wk"
    unfolding worker_inv_def h using p live old by (simp add: wk_def)
  have all: "\<forall>cl \<in> set (pl_clients (notify_waiters st)). cl_notified cl"
    by (auto simp: notify_waiters_def)
  have init: "wt_is_initialized wk = wt_is_initialized (pl_workers st ! i)" by (simp add: wk_def)
  show ?thesis unfolding wk_def [symmetric] n
    by (rule frame_worker [OF notify_inv [OF inv] i' wi]) (simp_all add: w h init all)
qed

section \<open>Every step keeps the invariant\<close>

lemma worker_step_inv:
  assumes inv: "pool_inv kind st" and i: "i < length (pl_workers st)" and s: "worker_step kind i st = Some st'"
  shows "pool_inv kind st'"
proof -
  note wi = pool_invD(1) [OF inv i]
  show ?thesis
  proof (cases "wt_phase (pl_workers st ! i)")
    case Starting
    show ?thesis
      using s wi Starting
      by (auto simp: worker_step_def Let_def worker_inv_def holds_def idle_worker_def split: outcome.splits
          intro!: frame_worker [OF inv i])
  next
    case (Announcing inst)
    then show ?thesis using s announce_inv [OF inv i Announcing, of "Ready inst"]
      by (simp add: worker_step_def)
  next
    case (Ready inst)
    then show ?thesis using s by (simp add: worker_step_def)
  next
    case (Got inst c j)
    show ?thesis
      using s wi Got
      by (auto simp: worker_step_def Let_def worker_inv_def holds_def idle_worker_def intro!: frame_worker [OF inv i])
  next
    case (Started inst c j)
    have sh: "set_worker i wk (st\<lparr>pl_shared := w\<rparr>) = (set_worker i wk st)\<lparr>pl_shared := w\<rparr>" for wk w
      by (simp add: set_worker_def)
    show ?thesis
      using s wi Started
      by (auto simp: worker_step_def Let_def sh worker_inv_def holds_def idle_worker_def intro!: frame_worker [OF inv i])
  next
    case (Proving inst c j)
    then show ?thesis using s prove_inv [OF inv i Proving]
      by (auto simp: worker_step_def Let_def split: prod.splits)
  next
    case (Ran inst c r)
    show ?thesis
      using s wi Ran
      by (auto simp: worker_step_def Let_def worker_inv_def holds_def idle_worker_def intro!: frame_worker [OF inv i])
  next
    case (Released inst c r)
    then show ?thesis using s announce_inv [OF inv i Released, of "Reply inst c r"]
      by (simp add: worker_step_def)
  next
    case (Reply inst c r)
    have "(c, i, r) \<in> set (pl_log st)" and "\<And>j. wt_channel (pl_workers st ! i) \<noteq> Some (c, j)"
      using wi Reply by (force simp: worker_inv_def)+
    then show ?thesis
      using s wi Reply
      by (auto simp: worker_step_def Let_def worker_inv_def holds_def idle_worker_def
          intro!: settle_inv [OF inv i, of c])
  next
    case Exited
    then show ?thesis using s by (simp add: worker_step_def)
  qed
qed


lemma idle_workerD:
  assumes "worker_inv cls cancelled lg i wk" "idle_worker wk"
  shows "\<not> wt_is_busy wk" "wt_is_initialized wk" "wt_channel wk = None"
  using assms by (auto simp: worker_inv_def idle_worker_def split: worker_phase.splits)

text \<open>An unsent client moves on to another unsent phase.\<close>

lemma unsent_inv:
  assumes inv: "pool_inv kind st" and c: "c < length (pl_clients st)"
    and old: "unsent (cl_phase (pl_clients st ! c))" and new: "unsent p"
    and le: "scanned (length (pl_workers st)) p \<le> length (pl_workers st)"
    and check: "\<And>k. p = Checking k \<Longrightarrow> k < length (pl_workers st)"
    and send: "\<And>k. p = Sending k \<Longrightarrow> k < length (pl_workers st) \<and> wt_is_initialized (pl_workers st ! k)"
    and fail: "\<And>e. p = Failed_submit e \<Longrightarrow> pl_cancelled st \<or> pl_workers st = []"
    and wake: "\<And>i. \<not> b \<Longrightarrow> i < scanned (length (pl_workers st)) p \<Longrightarrow> \<not> idle_worker (pl_workers st ! i)"
  shows "pool_inv kind (set_client c ((pl_clients st ! c)\<lparr>cl_phase := p, cl_notified := b\<rparr>) st)"
proof (rule frame_client [OF inv c])
  show "client_inv (pl_workers st) (pl_cancelled st) (pl_log st) c
      ((pl_clients st ! c)\<lparr>cl_phase := p, cl_notified := b\<rparr>)"
    using pool_invD(2) [OF inv c] old new le check send fail wake by (auto simp: client_inv_def)
  show "sent_to i (cl_phase ((pl_clients st ! c)\<lparr>cl_phase := p, cl_notified := b\<rparr>))"
    if "sent_to i (cl_phase (pl_clients st ! c))" for i
    using that old by (cases "cl_phase (pl_clients st ! c)") auto
qed simp

text \<open>The same without a change of the registration.\<close>

lemma unsent_inv':
  assumes inv: "pool_inv kind st" and c: "c < length (pl_clients st)"
    and old: "unsent (cl_phase (pl_clients st ! c))" and new: "unsent p"
    and le: "scanned (length (pl_workers st)) p \<le> length (pl_workers st)"
    and check: "\<And>k. p = Checking k \<Longrightarrow> k < length (pl_workers st)"
    and send: "\<And>k. p = Sending k \<Longrightarrow> k < length (pl_workers st) \<and> wt_is_initialized (pl_workers st ! k)"
    and fail: "\<And>e. p = Failed_submit e \<Longrightarrow> pl_cancelled st \<or> pl_workers st = []"
    and wake: "\<And>i. i < scanned (length (pl_workers st)) p \<Longrightarrow>
      scanned (length (pl_workers st)) (cl_phase (pl_clients st ! c)) \<le> i \<Longrightarrow> \<not> idle_worker (pl_workers st ! i)"
  shows "pool_inv kind (set_client c ((pl_clients st ! c)\<lparr>cl_phase := p\<rparr>) st)"
proof -
  have e: "(pl_clients st ! c)\<lparr>cl_phase := p\<rparr> =
      (pl_clients st ! c)\<lparr>cl_phase := p, cl_notified := cl_notified (pl_clients st ! c)\<rparr>"
    by (cases "pl_clients st ! c") simp
  show ?thesis
  proof (subst e, rule unsent_inv [OF inv c old new le])
    show "\<not> idle_worker (pl_workers st ! i)"
      if "\<not> cl_notified (pl_clients st ! c)" "i < scanned (length (pl_workers st)) p" for i
    proof (cases "i < scanned (length (pl_workers st)) (cl_phase (pl_clients st ! c))")
      case True
      then show ?thesis using that(1) pool_invD(2) [OF inv c] unfolding client_inv_def by blast
    next
      case False
      then show ?thesis using wake [OF that(2)] by simp
    qed
  qed (use check send fail in auto)
qed

lemma client_step_inv:
  assumes inv: "pool_inv kind st" and c: "c < length (pl_clients st)" and s: "client_step label c st = Some st'"
  shows "pool_inv kind st'"
proof -
  note ci = pool_invD(2) [OF inv c]
  have scan: "\<not> idle_worker (pl_workers st ! k)"
    if "k < length (pl_workers st)" "wt_is_busy (pl_workers st ! k) \<or> \<not> wt_is_initialized (pl_workers st ! k) \<or>
      wt_channel (pl_workers st ! k) \<noteq> None" for k
    using that idle_workerD [OF pool_invD(1) [OF inv that(1)]] by auto
  show ?thesis
  proof (cases "cl_phase (pl_clients st ! c)")
    case Entering
    then show ?thesis using s
      by (auto simp: client_step_def Let_def split: if_splits intro!: unsent_inv' [OF inv c])
  next
    case Registering
    then show ?thesis using s
      by (auto simp: client_step_def Let_def intro!: unsent_inv [OF inv c])
  next
    case (Scanning k)
    then have "k \<le> length (pl_workers st)" using ci by (simp add: client_inv_def)
    then show ?thesis using s Scanning scan [of k]
      by (auto simp: client_step_def Let_def le_less_Suc_eq split: if_splits intro!: unsent_inv' [OF inv c])
  next
    case (Checking k)
    then have "k < length (pl_workers st)" using ci by (simp add: client_inv_def)
    then show ?thesis using s Checking scan [of k]
      by (auto simp: client_step_def Let_def le_less_Suc_eq split: if_splits intro!: unsent_inv' [OF inv c])
  next
    case (Sending k)
    then have k: "k < length (pl_workers st)" "wt_is_initialized (pl_workers st ! k)"
      using ci by (simp_all add: client_inv_def)
    then have "pl_cancelled st" if "wt_phase (pl_workers st ! k) = Exited"
      using pool_invD(1) [OF inv k(1)] that by (simp add: worker_inv_def)
    then show ?thesis using s Sending scan [of k] k send_inv [OF inv c k(1)]
      by (auto simp: client_step_def Let_def le_less_Suc_eq split: if_splits intro!: unsent_inv' [OF inv c])
  next
    case Cancel_check
    then show ?thesis using s
      by (auto simp: client_step_def Let_def split: if_splits intro!: unsent_inv' [OF inv c])
  next
    case Asleep
    then show ?thesis using s
      by (auto simp: client_step_def Let_def split: if_splits intro!: unsent_inv' [OF inv c])
  qed (use s in \<open>simp_all add: client_step_def Let_def\<close>)
qed

lemma abandon_inv:
  assumes inv: "pool_inv kind st" and c: "c < length (pl_clients st)"
    and p: "abandoned_phase (cl_phase (pl_clients st ! c)) = Some p"
  shows "pool_inv kind (set_client c ((pl_clients st ! c)\<lparr>cl_phase := p\<rparr>) st)"
proof (cases "unsent (cl_phase (pl_clients st ! c))")
  case True
  then show ?thesis using p
    by (cases "cl_phase (pl_clients st ! c)") (auto intro!: unsent_inv' [OF inv c])
next
  case False
  then obtain i where i: "cl_phase (pl_clients st ! c) = Awaiting i" "p = Abandoned i"
    using p by (cases "cl_phase (pl_clients st ! c)") auto
  then show ?thesis using pool_invD(2) [OF inv c]
    by (auto simp: client_inv_def intro!: frame_client [OF inv c])
qed

lemma channel_drop_inv:
  assumes inv: "pool_inv kind st" and i: "i < length (pl_workers st)" and s: "channel_drop i st = Some st'"
  shows "pool_inv kind st'"
proof -
  obtain c j where p: "wt_phase (pl_workers st ! i) = Exited" "wt_channel (pl_workers st ! i) = Some (c, j)"
    using s by (auto simp: channel_drop_def Let_def split: worker_phase.splits option.splits)
  then show ?thesis
    using s pool_invD(1) [OF inv i]
    by (auto simp: channel_drop_def Let_def worker_inv_def holds_def idle_worker_def
        intro!: settle_inv [OF inv i, of c])
qed

lemma worker_recv_inv:
  assumes inv: "pool_inv kind st" and i: "i < length (pl_workers st)" and s: "worker_recv i st = Some st'"
  shows "pool_inv kind st'"
proof -
  obtain inst c j where p: "wt_phase (pl_workers st ! i) = Ready inst" "wt_channel (pl_workers st ! i) = Some (c, j)"
    using s by (auto simp: worker_recv_def Let_def split: worker_phase.splits option.splits)
  then show ?thesis
    using s pool_invD(1) [OF inv i]
    by (auto simp: worker_recv_def Let_def worker_inv_def holds_def idle_worker_def
        intro!: frame_worker [OF inv i])
qed

lemma worker_recv_cancel_inv:
  assumes inv: "pool_inv kind st" and i: "i < length (pl_workers st)" and s: "worker_recv_cancel i st = Some st'"
  shows "pool_inv kind st'"
proof -
  obtain inst where p: "wt_phase (pl_workers st ! i) = Ready inst" "wt_cancel (pl_workers st ! i)"
    using s by (auto simp: worker_recv_cancel_def Let_def split: worker_phase.splits if_splits)
  then show ?thesis
    using s pool_invD(1) [OF inv i]
    by (auto simp: worker_recv_cancel_def Let_def worker_inv_def holds_def idle_worker_def
        intro!: frame_worker [OF inv i])
qed

lemma cancel_worker_inv:
  assumes inv: "pool_inv kind st" and i: "i < length (pl_workers st)" and cc: "pl_cancelled st"
  shows "pool_inv kind (set_worker i ((pl_workers st ! i)\<lparr>wt_cancel := True\<rparr>) st)"
  using pool_invD(1) [OF inv i] cc
  by (auto simp: worker_inv_def holds_def idle_worker_def intro!: frame_worker [OF inv i])

lemma cancel_token_inv:
  assumes "pool_inv kind st"
  shows "pool_inv kind (st\<lparr>pl_cancelled := True\<rparr>)"
proof -
  have "worker_inv (pl_clients st) True (pl_log st) i (pl_workers st ! i)" if "i < length (pl_workers st)" for i
    using pool_invD(1) [OF assms that] unfolding worker_inv_def by (elim conjE) (intro conjI; (assumption | simp))
  moreover have "client_inv (pl_workers st) True (pl_log st) c (pl_clients st ! c)" if "c < length (pl_clients st)" for c
    using pool_invD(2) [OF assms that] unfolding client_inv_def by (elim conjE) (intro conjI; (assumption | simp))
  ultimately show ?thesis using pool_invD(3) [OF assms] by (simp add: pool_inv_def)
qed

lemma pool_step_inv:
  assumes inv: "pool_inv kind st" and s: "pool_step kind label ev st = Some st'"
  shows "pool_inv kind st'"
proof (cases ev)
  case (Ev_timeout c)
  then show ?thesis using s
    by (auto simp: client_timeout_def Let_def split: if_splits client_phase.splits intro!: unsent_inv' [OF inv])
qed (use s in \<open>auto simp: submit_to_workers_def dispatch_app_job_def split: if_splits
    intro: worker_step_inv [OF inv] worker_recv_inv [OF inv] worker_recv_cancel_inv [OF inv]
      channel_drop_inv [OF inv] client_step_inv [OF inv] abandon_inv [OF inv] new_client_inv [OF inv]
      notify_inv [OF inv] cancel_token_inv [OF inv] cancel_worker_inv [OF inv]\<close>)

lemma pool_run_inv: "pool_inv kind st \<Longrightarrow> pool_run kind label evs st = Some st' \<Longrightarrow> pool_inv kind st'"
  by (induction evs arbitrary: st) (auto split: option.splits dest: pool_step_inv)

lemma pool_updates_length [simp]:
  "length (pl_workers (set_worker i wk st)) = length (pl_workers st)"
  "pl_workers (set_client c cl st) = pl_workers st" "pl_workers (notify_waiters st) = pl_workers st"
  "pl_workers (new_client job p st) = pl_workers st"
  by (simp_all add: set_worker_def set_client_def notify_waiters_def new_client_def)

lemma resolve_workers [simp]: "pl_workers (resolve c r st) = pl_workers st"
  by (simp add: resolve_def Let_def split: client_phase.splits)

lemma worker_step_length: "worker_step kind i st = Some st' \<Longrightarrow> length (pl_workers st') = length (pl_workers st)"
  by (cases "wt_phase (pl_workers st ! i)")
    (auto simp: worker_step_def Let_def split: outcome.splits prod.splits)

lemma client_step_length: "client_step label c st = Some st' \<Longrightarrow> length (pl_workers st') = length (pl_workers st)"
  by (cases "cl_phase (pl_clients st ! c)") (auto simp: client_step_def Let_def split: if_splits)

lemma pool_step_length: "pool_step kind label ev st = Some st' \<Longrightarrow> length (pl_workers st') = length (pl_workers st)"
  by (cases ev) (auto simp: worker_recv_def worker_recv_cancel_def channel_drop_def client_timeout_def Let_def
    submit_to_workers_def dispatch_app_job_def split: if_splits worker_phase.splits client_phase.splits option.splits
    dest: worker_step_length client_step_length)

lemma pool_run_length: "pool_run kind label evs st = Some st' \<Longrightarrow> length (pl_workers st') = length (pl_workers st)"
  by (induction evs arbitrary: st) (auto split: option.splits dest: pool_step_length)


section \<open>Properties\<close>

text \<open>C22. At most one run, and the right answer: in every state that a pool of any kind can reach, under any
  interleaving of its workers and clients, with any jobs submitted and clients dropped at any moment and a
  shutdown at any point, every job has been run at most once, and a client that has an answer has the
  result of running its own job, with the name of the worker that ran it, panics converted.\<close>

theorem pool_runs_each_job_once:
  assumes "pool_run kind label evs (new_pool n w) = Some st"
  shows "distinct (map fst (pl_log st)) \<and>
    (\<forall>c r. c < length (pl_clients st) \<and> cl_phase (pl_clients st ! c) = Delivered r \<longrightarrow>
      (\<exists>i inst w'. (c, i, r) \<in> set (pl_log st) \<and>
        snd (snd (run_result kind (worker_name kind i) inst (cl_job (pl_clients st ! c)) w')) = r))"
proof -
  note inv = pool_run_inv [OF new_pool_inv assms]
  have l: "distinct (map fst (pl_log st))" "\<And>c i r. (c, i, r) \<in> set (pl_log st) \<Longrightarrow>
      \<exists>inst w. snd (snd (run_result kind (worker_name kind i) inst (cl_job (pl_clients st ! c)) w)) = r"
    using pool_invD(3) [OF inv] by (auto simp: log_inv_def)
  moreover have "\<exists>i. (c, i, r) \<in> set (pl_log st)"
    if "c < length (pl_clients st)" "cl_phase (pl_clients st ! c) = Delivered r" for c r
    using pool_invD(2) [OF inv that(1)] that(2) by (simp add: client_inv_def)
  ultimately show ?thesis by meson
qed

definition demo_kind :: "(nat, unit, nat, nat) worker_kind" where
  "demo_kind = \<lparr>wk_name_prefix = ''leaf-prover'', wk_init = Ok (), wk_enter = (\<lambda>name j w. Suc w),
     wk_run = (\<lambda>name inst j w. (w, inst, if j = 0 then Panic ''boom'' else Ok (j + 100))),
     wk_on_panic = (\<lambda>p. length p)\<rparr>"

definition demo_boot :: "nat \<Rightarrow> 'j pool_event list" where
  "demo_boot n = concat (map (\<lambda>i. [Ev_worker i, Ev_worker i]) [0..<n])"

definition demo_serve :: "nat \<Rightarrow> 'j pool_event list" where
  "demo_serve i = Ev_recv i # replicate 6 (Ev_worker i)"

lemma pool_runs_each_job_once_witness:
  "\<exists>st. pool_run demo_kind ''leaf'' (demo_boot 1 @ [Ev_submit 7] @ replicate 5 (Ev_client 0) @ demo_serve 0) (new_pool 1 0) = Some st \<and>
     cl_phase (pl_clients st ! 0) = Delivered 107 \<and> distinct (map fst (pl_log st))"
proof -
  let ?r = "pool_run demo_kind ''leaf'' (demo_boot 1 @ [Ev_submit 7] @ replicate 5 (Ev_client 0) @ demo_serve 0) (new_pool 1 0)"
  have "case ?r of Some st \<Rightarrow> cl_phase (pl_clients st ! 0) = Delivered 107 | None \<Rightarrow> False"
    by code_simp
  then obtain st where "?r = Some st" "cl_phase (pl_clients st ! 0) = Delivered 107"
    by (auto split: option.splits)
  with pool_runs_each_job_once [OF this(1)] show ?thesis by blast
qed

text \<open>Nothing can move except a backstop timer, a new client, a dropped future or a shutdown.\<close>

definition pool_quiet ::
  "('w, 'i, 'j, 'o) worker_kind \<Rightarrow> string \<Rightarrow> ('w, 'i, 'j, 'o) pool \<Rightarrow> bool" where
  "pool_quiet kind label st \<longleftrightarrow>
     list_all (\<lambda>i. Option.is_none (worker_step kind i st) \<and> Option.is_none (worker_recv i st) \<and>
       Option.is_none (channel_drop i st)) [0..<length (pl_workers st)] \<and>
     list_all (\<lambda>c. Option.is_none (client_step label c st)) [0..<length (pl_clients st)]"

lemma pool_quietD:
  assumes "pool_quiet kind label st"
  shows "i < length (pl_workers st) \<Longrightarrow> worker_step kind i st = None \<and> worker_recv i st = None \<and> channel_drop i st = None"
    "c < length (pl_clients st) \<Longrightarrow> client_step label c st = None"
  using assms by (auto simp: pool_quiet_def list_all_iff Option.is_none_def)

text \<open>C8. No lost wake-up and no deadlock: when nothing can move any more without the one second backstop,
  every client has been settled, or every worker failed to initialize. So a sleeping client never
  coexists with an idle worker, although \<open>notify_waiters\<close> keeps no permit.\<close>

theorem pool_loses_no_wakeup:
  assumes run: "pool_run kind label evs (new_pool n w) = Some st"
    and quiet: "pool_quiet kind label st"
  shows "(\<forall>cl \<in> set (pl_clients st). settled (cl_phase cl)) \<or>
    (\<forall>wk \<in> set (pl_workers st). wt_phase wk = Exited \<and> \<not> wt_is_initialized wk)"
proof -
  note inv = pool_run_inv [OF new_pool_inv run]
  have ws: "wt_phase (pl_workers st ! i) = Exited \<and> wt_channel (pl_workers st ! i) = None \<or>
      idle_worker (pl_workers st ! i) \<and> \<not> holds (pl_workers st ! i) c"
    if i: "i < length (pl_workers st)" for i c
    using pool_quietD(1) [OF quiet i]
    by (cases "wt_phase (pl_workers st ! i)")
      (auto simp: worker_step_def worker_recv_def channel_drop_def Let_def idle_worker_def holds_def
        split: outcome.splits prod.splits option.splits)
  have sleeping: "settled (cl_phase (pl_clients st ! c)) \<or>
      (\<not> pl_cancelled st \<and> (\<forall>i < length (pl_workers st). \<not> idle_worker (pl_workers st ! i)))"
    if c: "c < length (pl_clients st)" for c
  proof (cases "cl_phase (pl_clients st ! c)")
    case (Awaiting i)
    then have "i < length (pl_workers st)" "holds (pl_workers st ! i) c"
      using pool_invD(2) [OF inv c] by (simp_all add: client_inv_def)
    then show ?thesis using ws [of i c] by (auto simp: holds_def)
  next
    case Asleep
    then have "\<not> cl_notified (pl_clients st ! c)" "\<not> pl_cancelled st"
      using pool_quietD(2) [OF quiet c] by (auto simp: client_step_def Let_def split: if_splits)
    then show ?thesis using pool_invD(2) [OF inv c] Asleep by (simp add: client_inv_def)
  qed (use pool_quietD(2) [OF quiet c] in \<open>auto simp: client_step_def Let_def split: if_splits\<close>)
  show ?thesis
  proof (cases "\<forall>cl \<in> set (pl_clients st). settled (cl_phase cl)")
    case False
    then obtain c where "c < length (pl_clients st)" "\<not> settled (cl_phase (pl_clients st ! c))"
      by (auto simp: in_set_conv_nth)
    then have nc: "\<not> pl_cancelled st" and ni: "\<forall>i < length (pl_workers st). \<not> idle_worker (pl_workers st ! i)"
      using sleeping by blast+
    have "wt_phase (pl_workers st ! i) = Exited \<and> \<not> wt_is_initialized (pl_workers st ! i)"
      if "i < length (pl_workers st)" for i
      using ws [OF that] ni that nc pool_invD(1) [OF inv that] by (auto simp: worker_inv_def)
    then show ?thesis by (auto simp: in_set_conv_nth)
  qed blast
qed


definition demo_two_clients :: "nat pool_event list" where
  "demo_two_clients = demo_boot 1 @ [Ev_submit 7, Ev_submit 0] @ replicate 5 (Ev_client 0) @ [Ev_recv 0, Ev_worker 0] @
     replicate 5 (Ev_client 1) @ replicate 5 (Ev_worker 0) @ replicate 5 (Ev_client 1) @ demo_serve 0"

lemma pool_loses_no_wakeup_witness:
  "\<exists>st. pool_run demo_kind ''leaf'' demo_two_clients (new_pool 1 0) = Some st \<and> pool_quiet demo_kind ''leaf'' st \<and>
     wt_phase (pl_workers st ! 0) = Ready () \<and> (\<forall>cl \<in> set (pl_clients st). settled (cl_phase cl))"
proof -
  let ?r = "pool_run demo_kind ''leaf'' demo_two_clients (new_pool 1 0)"
  have "case ?r of Some st \<Rightarrow> pool_quiet demo_kind ''leaf'' st \<and> wt_phase (pl_workers st ! 0) = Ready () \<and>
      length (pl_workers st) = 1 | None \<Rightarrow> False"
    by code_simp
  then obtain st where st: "?r = Some st" "pool_quiet demo_kind ''leaf'' st"
    "wt_phase (pl_workers st ! 0) = Ready ()" "length (pl_workers st) = 1"
    by (auto split: option.splits)
  have "pl_workers st ! 0 \<in> set (pl_workers st)" using st(4) by simp
  then have "\<not> (\<forall>wk \<in> set (pl_workers st). wt_phase wk = Exited \<and> \<not> wt_is_initialized wk)"
    using st(3) by force
  then show ?thesis using pool_loses_no_wakeup [OF st(1) st(2)] st by blast
qed

text \<open>While a pool with a worker has not been shut down, no submission fails: the errors \<open>Worker channel
  closed\<close>, \<open>Prover pool cancelled\<close> and \<open>Worker dropped result channel\<close> are only ever seen after a shutdown, and
  a pool without workers reports the misconfiguration to every submission at once.\<close>

theorem pool_errors_need_shutdown:
  assumes "pool_run kind label evs (new_pool n w) = Some st" "c < length (pl_clients st)"
  shows "((\<exists>e. submit_result (cl_phase (pl_clients st ! c)) = Some (Err e)) \<longrightarrow> pl_cancelled st \<or> n = 0) \<and>
    (n = 0 \<and> cl_phase (pl_clients st ! c) = Entering \<longrightarrow>
       map_option (\<lambda>s. submit_result (cl_phase (pl_clients s ! c))) (pool_step kind label (Ev_client c) st) =
       Some (Some (Err (''No '' @ label @ '' workers available - check prover pool configuration''))))"
proof -
  note inv = pool_run_inv [OF new_pool_inv assms(1)]
  have len: "length (pl_workers st) = n" using pool_run_length [OF assms(1)] by (simp add: new_pool_def)
  have "pl_cancelled st \<or> n = 0" if "\<exists>e. submit_result (cl_phase (pl_clients st ! c)) = Some (Err e)"
    using that pool_invD(2) [OF inv assms(2)] len
    by (auto simp: submit_result_def client_inv_def split: client_phase.splits)
  moreover have "map_option (\<lambda>s. submit_result (cl_phase (pl_clients s ! c))) (pool_step kind label (Ev_client c) st) =
       Some (Some (Err (''No '' @ label @ '' workers available - check prover pool configuration'')))"
    if "n = 0" "cl_phase (pl_clients st ! c) = Entering"
    using that len assms(2) by (simp add: client_step_def set_client_def submit_result_def)
  ultimately show ?thesis by blast
qed

lemma pool_errors_need_shutdown_witness:
  "\<exists>st. pool_run demo_kind ''leaf'' [Ev_submit 7] (new_pool 0 0) = Some st \<and>
     map_option (\<lambda>s. submit_result (cl_phase (pl_clients s ! 0))) (pool_step demo_kind ''leaf'' (Ev_client 0) st) =
     Some (Some (Err (''No leaf workers available - check prover pool configuration'')))"
proof -
  let ?r = "pool_run demo_kind ''leaf'' [Ev_submit 7] (new_pool 0 0)"
  obtain st where st: "?r = Some st" "length (pl_clients st) = 1" "cl_phase (pl_clients st ! 0) = Entering"
    by (simp add: submit_to_workers_def new_client_def new_pool_def)
  then show ?thesis using pool_errors_need_shutdown [OF st(1), of 0] by auto
qed

text \<open>The barrier of a parallel app job can fail a healthy pool. Between a worker's \<open>recv\<close> and its
  \<open>is_busy.store(true)\<close> it still looks free and its channel is empty, so that the dispatch of the second consumer
  can queue behind the first on the same worker; with three app provers the busy count then stays at one, and
  the submission ends in a timeout although two of the three workers are idle.\<close>

definition demo_app_kind :: "(unit, unit, nat, prover_result) worker_kind" where
  "demo_app_kind = \<lparr>wk_name_prefix = ''app-prover'', wk_init = Ok (), wk_enter = (\<lambda>name j w. w),
     wk_run = (\<lambda>name inst j w. (w, inst, Ok (ProverSuccess []))), wk_on_panic = panic_to_prover_result\<rparr>"

definition race_events :: "(nat pool_event + bool) list" where
  "race_events = map Inl (demo_boot 3) @ [Inr False, Inr False] @ map Inl (replicate 4 (Ev_client 0)) @
     [Inr False, Inl (Ev_recv 0), Inr False] @ map Inl (replicate 4 (Ev_client 1)) @
     [Inr False, Inr False, Inl (Ev_worker 0), Inl (Ev_worker 0), Inr True]"

theorem consumers_can_queue_on_one_worker:
  "map_option (\<lambda>s. (ap_phase s, map (cl_phase) (pl_clients (ap_pool s)), map idle_worker (pl_workers (ap_pool s))))
     (app_run demo_app_kind 3 \<lparr>pr_name = ''p'', pr_version = 1\<rparr> 0 (Ok (9, [1, 2])) race_events
       \<lparr>ap_pool = new_pool 3 (), ap_phase = App_start\<rparr>) =
   Some (App_done (Err ''Timed out waiting for app consumers to start: need busy >= 2, got 1''),
     [Awaiting 0, Awaiting 0], [False, True, True])"
  by code_simp

end
