(* ===== verification/Result_Handler.thy ===== *)
theory Result_Handler
  imports Proof_State
begin

text \<open>
  The per-proof state machine of \<open>edge-manager/src/proof_state/result_handler.rs\<close>: a result arrives,
  the recursion tree is updated and follow-up requests are emitted. A method on \<open>&mut self\<close> returns
  the new state and its result; \<open>unwrap\<close> on \<open>None\<close> and an index subtraction below zero are the
  outcome \<open>Panic\<close>, \<open>bail!\<close> the outcome \<open>Err\<close>. The three clock readings of one call
  (reception, the handler's \<open>now\<close>, completion) are the record \<open>clock\<close>. Logs and metrics are left out.
\<close>

record clock =
  ck_received :: instant
  ck_handled :: instant
  ck_completed :: instant

text \<open>The feature \<open>mock-provers\<close> selects how instructions are counted; the segment decoder
  (\<open>proof::decode_segment\<close>, its \<open>num_insns\<close>) is a parameter of the real build.\<close>

datatype build = Mock_Provers | Real_Provers "bytes \<Rightarrow> nat option"

datatype envelope_outcome =
  Late bool proof_status
| Processed "general_prove_request list" bool

section \<open>Batch collection\<close>

text \<open>The loops that gather the children of one proof stop at the first missing child
  (\<open>Ok None\<close>).\<close>

fun collect_app_proofs :: "(nat, app_proof_state) hmap \<Rightarrow> nat list \<Rightarrow> bytes list option" where
  "collect_app_proofs m [] = Some []"
| "collect_app_proofs m (i # is) =
     (case map_of m i of
        None \<Rightarrow> None
      | Some app_state \<Rightarrow>
          (case aps_proof app_state of
             None \<Rightarrow> None
           | Some proof \<Rightarrow> map_option (Cons proof) (collect_app_proofs m is)))"

fun collect_leaf_proofs ::
  "(nat, leaf_proof_state) hmap \<Rightarrow> nat \<Rightarrow> nat list \<Rightarrow> nat \<Rightarrow> bytes list \<Rightarrow>
   (bytes list \<times> nat) option outcome" where
  "collect_leaf_proofs m leaf_arity [] seg_end acc = Ok (Some (acc, seg_end))"
| "collect_leaf_proofs m leaf_arity (i # is) seg_end acc =
     (case map_of m (i * leaf_arity) of
        None \<Rightarrow> Ok None
      | Some leaf_state \<Rightarrow>
          (case lps_proof leaf_state of
             None \<Rightarrow> Panic ''unwrap''
           | Some proof \<Rightarrow>
               collect_leaf_proofs m leaf_arity is (lps_segment_end leaf_state) (acc @ [proof])))"

fun collect_tail_internal_proofs ::
  "(internal_proof_index, internal_proof_state) hmap \<Rightarrow> nat \<Rightarrow> nat list \<Rightarrow> nat \<Rightarrow> bytes list \<Rightarrow>
   (bytes list \<times> nat) option outcome" where
  "collect_tail_internal_proofs m child_layer [] seg_end acc = Ok (Some (acc, seg_end))"
| "collect_tail_internal_proofs m child_layer (i # is) seg_end acc =
     (case map_of m \<lparr>ipi_layer_idx = child_layer, ipi_idx = i\<rparr> of
        None \<Rightarrow> Ok None
      | Some st \<Rightarrow>
          (case ips_proof st of
             None \<Rightarrow> Panic ''unwrap''
           | Some proof \<Rightarrow>
               collect_tail_internal_proofs m child_layer is (ips_segment_end st) (acc @ [proof])))"

fun collect_internal_proofs ::
  "(internal_proof_index, internal_proof_state) hmap \<Rightarrow> nat \<Rightarrow> nat list \<Rightarrow> nat \<Rightarrow> nat \<Rightarrow> bytes list \<Rightarrow>
   (bytes list \<times> nat \<times> nat) option outcome" where
  "collect_internal_proofs m layer_idx [] seg_start seg_end acc = Ok (Some (acc, seg_start, seg_end))"
| "collect_internal_proofs m layer_idx (i # is) seg_start seg_end acc =
     (case map_of m \<lparr>ipi_layer_idx = layer_idx, ipi_idx = i\<rparr> of
        None \<Rightarrow> Ok None
      | Some st \<Rightarrow>
          (case ips_proof st of
             None \<Rightarrow> Panic ''unwrap''
           | Some proof \<Rightarrow>
               collect_internal_proofs m layer_idx is (min seg_start (ips_segment_start st))
                 (max seg_end (ips_segment_end st)) (acc @ [proof])))"

section \<open>Requests\<close>

definition build_deferral_tail_dispatch :: "proof_state \<Rightarrow> nat \<Rightarrow> deferral_tail_dispatch option" where
  "build_deferral_tail_dispatch s final_layer_idx =
     (if ps_deferral_circuit_count s = 0 then None
      else case ps_num_segments s of
        None \<Rightarrow> None
      | Some num_segments \<Rightarrow>
          (let num_leaf_proofs = div_ceil num_segments (ps_leaf_arity s);
               num_layers = num_internal_layers num_leaf_proofs (ps_internal_arity s);
               effective_final = max num_layers 2 - 1;
               total_internal_proofs = sum_list (map (\<lambda>layer.
                   max (num_proofs_at_internal_layer_for_leaf_count num_leaf_proofs layer
                          (ps_internal_arity s)) 1) [0..<Suc effective_final]);
               internal_node_idx = word_of_nat (total_internal_proofs - 1);
               internal_recursive_layer = word_of_nat (max final_layer_idx 1);
               final_merkle_path_bytes =
                 (case ps_deferral_final_merkle_path_bytes s of Some b \<Rightarrow> b | None \<Rightarrow> [])
           in Some \<lparr>dtd_layer_metadata =
                      \<lparr>ilm_internal_recursive_layer = internal_recursive_layer,
                       ilm_internal_node_idx = internal_node_idx, ilm_proofs_type = Vm\<rparr>,
                    dtd_final_merkle_path_bytes = final_merkle_path_bytes\<rparr>))"

definition build_evm_prove_request :: "proof_state \<Rightarrow> internal_proof_state \<Rightarrow> general_prove_request" where
  "build_evm_prove_request s st =
     EvmProveReq \<lparr>epr_context = ps_context s,
       epr_internal_proof_bytes = (case ips_proof st of Some b \<Rightarrow> b | None \<Rightarrow> []),
       epr_deferral_merkle_proofs_bytes = ips_deferral_merkle_proofs_bytes st,
       epr_proof_has_deferral = (ps_deferral_circuit_count s > 0)\<rparr>"

definition flush_pending_leaf_batches :: "proof_state \<Rightarrow> general_prove_request list" where
  "flush_pending_leaf_batches s =
     (case ps_num_segments s of
        None \<Rightarrow> []
      | Some num_segments \<Rightarrow>
          (let batch_size = ps_leaf_arity s;
               num_full_batches = num_segments div batch_size;
               tail_batch_size = num_segments mod batch_size
           in if tail_batch_size > 0 then
                (let batch_start = num_full_batches * batch_size;
                     batch_end = num_segments - 1
                 in if map_of (ps_leaf_proofs s) batch_start \<noteq> None then []
                    else case collect_app_proofs (ps_app_proofs s) [batch_start..<Suc batch_end] of
                      None \<Rightarrow> []
                    | Some app_proofs \<Rightarrow>
                        if app_proofs = [] then []
                        else [LeafProveReq \<lparr>lpr_context = ps_context s, lpr_app_proofs = app_proofs,
                                lpr_segment_start = batch_start, lpr_segment_end = batch_end\<rparr>])
              else []))"

text \<open>One iteration of the layer loop of \<open>trigger_tail_proofs\<close>.\<close>

definition tail_request_at :: "proof_state \<Rightarrow> nat \<Rightarrow> nat \<Rightarrow> nat \<Rightarrow> general_prove_request list outcome" where
  "tail_request_at s num_leaf_proofs effective_final layer_idx =
     (let leaf_arity = ps_leaf_arity s;
          internal_arity = ps_internal_arity s;
          num_proofs = (if layer_idx = 0 then num_leaf_proofs
            else num_proofs_at_internal_layer_for_leaf_count num_leaf_proofs (layer_idx - 1)
                   internal_arity);
          num_tail_proofs = num_proofs mod internal_arity
      in if num_tail_proofs > 0 then
           (let idx_start = num_proofs - num_tail_proofs;
                tail_idx = num_proofs div internal_arity
            in if map_of (ps_internal_proofs s) \<lparr>ipi_layer_idx = layer_idx, ipi_idx = tail_idx\<rparr> \<noteq> None
               then Ok []
               else
                 (let segment_start = (if layer_idx = 0 then idx_start * leaf_arity
                        else segment_start_of_internal_proof_for_leaf_count leaf_arity internal_arity
                               (layer_idx - 1) idx_start);
                      idxs = [idx_start..<idx_start + num_tail_proofs]
                  in case (if layer_idx = 0
                           then collect_leaf_proofs (ps_leaf_proofs s) leaf_arity idxs segment_start []
                           else collect_tail_internal_proofs (ps_internal_proofs s) (layer_idx - 1)
                                  idxs segment_start []) of
                       Err e \<Rightarrow> Err e
                     | Panic p \<Rightarrow> Panic p
                     | Ok None \<Rightarrow> Ok []
                     | Ok (Some (proofs, actual_segment_end)) \<Rightarrow>
                         (let is_final_proof = (layer_idx = effective_final)
                          in Ok [InternalProveReq
                                  \<lparr>ipr_context = ps_context s,
                                   ipr_child_proofs = proofs,
                                   ipr_layer_idx = layer_idx,
                                   ipr_segment_start = segment_start,
                                   ipr_segment_end = actual_segment_end,
                                   ipr_is_final_proof = is_final_proof,
                                   ipr_deferral_tail =
                                     (if is_final_proof then build_deferral_tail_dispatch s layer_idx
                                      else None),
                                   ipr_deferral_merkle_proofs_bytes =
                                     (if is_final_proof then ps_deferral_depth0_merkle_proofs_bytes s
                                      else None)\<rparr>])))
         else Ok [])"

fun concat_outcomes :: "'a list outcome list \<Rightarrow> 'a list outcome" where
  "concat_outcomes [] = Ok []"
| "concat_outcomes (x # xs) =
     (case x of Ok ys \<Rightarrow> (case concat_outcomes xs of Ok zs \<Rightarrow> Ok (ys @ zs) | e \<Rightarrow> e) | e \<Rightarrow> e)"

definition trigger_tail_proofs :: "proof_state \<Rightarrow> general_prove_request list outcome" where
  "trigger_tail_proofs s =
     (case ps_num_segments s of
        None \<Rightarrow> Panic ''unwrap''
      | Some num_segments \<Rightarrow>
          (let num_leaf_proofs = div_ceil num_segments (ps_leaf_arity s);
               num_layers = num_internal_layers num_leaf_proofs (ps_internal_arity s);
               effective_final = max num_layers 2 - 1
           in concat_outcomes (map (tail_request_at s num_leaf_proofs effective_final) [0..<num_layers])))"

section \<open>Handlers\<close>

type_synonym handler_result = "proof_state \<times> general_prove_request list outcome"

text \<open>The failures the handlers declare set the status and wake the waiters; unlike \<open>mark_failing\<close>
  they leave \<open>last_error_result\<close> alone.\<close>

definition fail_with :: "string \<Rightarrow> proof_state \<Rightarrow> handler_result" where
  "fail_with reason s = (notify_completion (s\<lparr>ps_status := Failing reason\<rparr>), Ok [])"

definition handle_error_result :: "error_result \<Rightarrow> proof_state \<Rightarrow> proof_state" where
  "handle_error_result r s =
     notify_completion (s\<lparr>ps_last_error_result := Some r,
       ps_status := Failing (''step '' @ quote @ er_step r @ quote @ '' failed: '' @ er_error r)\<rparr>)"

definition count_instructions :: "build \<Rightarrow> execute_e2_state \<Rightarrow> nat" where
  "count_instructions b st =
     (case b of
        Mock_Provers \<Rightarrow> e2_num_segments st * 1000000
      | Real_Provers decode_num_insns \<Rightarrow>
          sum_list (map (\<lambda>seg. case decode_num_insns seg of Some k \<Rightarrow> k | None \<Rightarrow> 0) (e2_segments st)))"

definition handle_execute_e2_result :: "build \<Rightarrow> execute_e2_state \<Rightarrow> proof_state \<Rightarrow> handler_result" where
  "handle_execute_e2_result b st s =
     (if ps_execute_e2_state s \<noteq> None then (s, Ok [])
      else if e2_num_segments st = 0 then fail_with ''ExecuteE2 returned 0 segments'' s
      else
        (let s' = s\<lparr>ps_num_segments := Some (e2_num_segments st),
                    ps_num_instructions := Some (count_instructions b st),
                    ps_execute_e2_state := Some st\<rparr>;
             requests = flush_pending_leaf_batches s'
         in (s', case trigger_tail_proofs s' of Ok tail \<Rightarrow> Ok (requests @ tail) | e \<Rightarrow> e)))"

definition keep_first :: "'a option \<Rightarrow> 'a option \<Rightarrow> 'a option" where
  "keep_first old new = (case new of None \<Rightarrow> old | Some b \<Rightarrow> (case old of Some c \<Rightarrow> Some c | None \<Rightarrow> Some b))"

text \<open>The second half of \<open>handle_app_result\<close>: the batch of the segment, once complete, becomes a
  leaf request.\<close>

definition request_leaf_batch :: "proof_state \<Rightarrow> nat \<Rightarrow> general_prove_request list" where
  "request_leaf_batch s segment_idx =
     (let batch_size = ps_leaf_arity s;
          batch_start = (segment_idx div batch_size) * batch_size;
          batch_end = batch_start + batch_size - 1
      in if ps_num_segments s = Some 0 then []
         else
           (let actual_batch_end =
                  (case ps_num_segments s of Some n \<Rightarrow> min batch_end (n - 1) | None \<Rightarrow> batch_end)
            in if batch_start > actual_batch_end then []
               else case collect_app_proofs (ps_app_proofs s) [batch_start..<Suc actual_batch_end] of
                      None \<Rightarrow> []
                    | Some app_proofs \<Rightarrow>
                        [LeafProveReq \<lparr>lpr_context = ps_context s, lpr_app_proofs = app_proofs,
                           lpr_segment_start = batch_start, lpr_segment_end = actual_batch_end\<rparr>]))"

definition handle_app_result :: "instant \<Rightarrow> app_proof_state \<Rightarrow> proof_state \<Rightarrow> handler_result" where
  "handle_app_result now st s0 =
     (let s = s0\<lparr>ps_app_prove_started_at :=
                   (case ps_app_prove_started_at s0 of None \<Rightarrow> Some now | Some t \<Rightarrow> Some t),
                 ps_app_prove_ended_at := Some now\<rparr>;
          segment_idx = aps_segment_idx st
      in if aps_proof st = None then
           fail_with (''AppProof for segment '' @ show_nat segment_idx @ '' missing proof data'') s
         else if (case ps_num_segments s of Some n \<Rightarrow> segment_idx \<ge> n | None \<Rightarrow> False) then (s, Ok [])
         else
           (let duplicate = (map_of (ps_app_proofs s) segment_idx \<noteq> None);
                s1 = s\<lparr>ps_app_proofs := AList.update segment_idx st (ps_app_proofs s)\<rparr>
            in if duplicate then (s1, Ok [])
               else
                 (let s2 = s1\<lparr>ps_deferral_final_merkle_path_bytes :=
                                keep_first (ps_deferral_final_merkle_path_bytes s1)
                                  (aps_final_merkle_path_bytes st),
                              ps_deferral_depth0_merkle_proofs_bytes :=
                                keep_first (ps_deferral_depth0_merkle_proofs_bytes s1)
                                  (aps_deferral_merkle_proofs_bytes st)\<rparr>
                  in (s2, Ok (request_leaf_batch s2 segment_idx)))))"

text \<open>The second half of \<open>handle_leaf_result\<close>: a complete group of leaves becomes a layer-0
  internal request.\<close>

definition request_leaf_group :: "proof_state \<Rightarrow> nat \<Rightarrow> general_prove_request list outcome" where
  "request_leaf_group s leaf_segment_start =
     (if ps_num_segments s = Some 0 then Ok []
      else
        (let leaf_arity = ps_leaf_arity s;
             internal_arity = ps_internal_arity s;
             leaf_idx = leaf_segment_start div leaf_arity;
             group_start_leaf_idx = (leaf_idx div internal_arity) * internal_arity;
             group_end_leaf_idx = group_start_leaf_idx + internal_arity - 1;
             group_segment_start = group_start_leaf_idx * leaf_arity;
             group_end = (case ps_num_segments s of
               Some n \<Rightarrow> min group_end_leaf_idx (div_ceil n leaf_arity - 1)
             | None \<Rightarrow> group_end_leaf_idx)
         in if group_end < group_start_leaf_idx then Panic ''attempt to subtract with overflow''
            else case collect_leaf_proofs (ps_leaf_proofs s) leaf_arity
                   [group_start_leaf_idx..<Suc group_end] group_segment_start [] of
              Err e \<Rightarrow> Err e
            | Panic p \<Rightarrow> Panic p
            | Ok None \<Rightarrow> Ok []
            | Ok (Some (leaf_proofs, actual_segment_end)) \<Rightarrow>
                Ok [InternalProveReq
                      \<lparr>ipr_context = ps_context s,
                       ipr_child_proofs = leaf_proofs,
                       ipr_layer_idx = 0,
                       ipr_segment_start = group_segment_start,
                       ipr_segment_end = actual_segment_end,
                       ipr_is_final_proof = False,
                       ipr_deferral_tail = None,
                       ipr_deferral_merkle_proofs_bytes = None\<rparr>]))"

definition handle_leaf_result :: "instant \<Rightarrow> leaf_proof_state \<Rightarrow> proof_state \<Rightarrow> handler_result" where
  "handle_leaf_result now st s0 =
     (let s = s0\<lparr>ps_leaf_prove_started_at :=
                   (case ps_leaf_prove_started_at s0 of None \<Rightarrow> Some now | Some t \<Rightarrow> Some t),
                 ps_leaf_prove_ended_at := Some now\<rparr>;
          leaf_segment_start = lps_segment_start st;
          leaf_segment_end = lps_segment_end st
      in if lps_proof st = None then
           fail_with (''LeafProof for segments ['' @ show_nat leaf_segment_start @ ''-''
             @ show_nat leaf_segment_end @ ''] missing proof data'') s
         else if (case ps_num_segments s of
                    Some n \<Rightarrow> leaf_segment_start \<ge> n \<or> leaf_segment_end \<ge> n | None \<Rightarrow> False)
         then (s, Ok [])
         else
           (let duplicate = (map_of (ps_leaf_proofs s) leaf_segment_start \<noteq> None);
                s1 = s\<lparr>ps_leaf_proofs := AList.update leaf_segment_start st (ps_leaf_proofs s)\<rparr>
            in if duplicate then (s1, Ok []) else (s1, request_leaf_group s1 leaf_segment_start)))"

text \<open>The last part of \<open>handle_internal_result\<close>: gather the siblings and request the parent.\<close>

definition request_parent ::
  "proof_state \<Rightarrow> nat \<Rightarrow> nat \<Rightarrow> nat \<Rightarrow> bool \<Rightarrow> general_prove_request list outcome" where
  "request_parent s layer_idx idx_start idx_end is_next_layer_final =
     (if idx_end < idx_start then Panic ''attempt to subtract with overflow''
      else case collect_internal_proofs (ps_internal_proofs s) layer_idx [idx_start..<Suc idx_end]
             usize_max 0 [] of
        Err e \<Rightarrow> Err e
      | Panic p \<Rightarrow> Panic p
      | Ok None \<Rightarrow> Ok []
      | Ok (Some (proofs, segment_start, segment_end)) \<Rightarrow>
          Ok [InternalProveReq
            \<lparr>ipr_context = ps_context s,
             ipr_child_proofs = proofs,
             ipr_layer_idx = layer_idx + 1,
             ipr_segment_start = segment_start,
             ipr_segment_end = segment_end,
             ipr_is_final_proof = is_next_layer_final,
             ipr_deferral_tail =
               (if is_next_layer_final then build_deferral_tail_dispatch s (layer_idx + 1) else None),
             ipr_deferral_merkle_proofs_bytes =
               (if is_next_layer_final then ps_deferral_depth0_merkle_proofs_bytes s else None)\<rparr>])"

text \<open>The part of \<open>handle_internal_result\<close> that follows the insertion of a new proof at \<open>idx\<close>.\<close>

definition internal_follow_up ::
  "proof_state \<Rightarrow> internal_proof_state \<Rightarrow> nat \<Rightarrow> general_prove_request list outcome" where
  "internal_follow_up s st idx =
     (let leaf_arity = ps_leaf_arity s;
          internal_arity = ps_internal_arity s;
          layer_idx = ips_layer_idx st;
          idx_start = idx div internal_arity * internal_arity;
          idx_end = idx_start + internal_arity - 1
      in case ps_num_segments s of
           None \<Rightarrow> request_parent s layer_idx idx_start idx_end False
         | Some num_segments \<Rightarrow>
             (let num_leaf_proofs = div_ceil num_segments leaf_arity;
                  num_layers = num_internal_layers num_leaf_proofs internal_arity;
                  effective_final = max num_layers 2 - 1
              in if layer_idx = effective_final then
                   (if pc_proof_type (ps_context s) = Evm then
                      (if \<not> ips_ready_for_evm st then
                         Err (''Evm proof '' @ pc_proof_uuid (ps_context s) @
                           '' reached the final internal layer without a ready-for-evm '' @
                           ''(post-merge) proof; cannot dispatch the EVM step'')
                       else Ok [build_evm_prove_request s st])
                    else Ok [])
                 else if num_layers = layer_idx + 1 \<and> num_layers = 1 then
                   (case ips_proof st of
                      None \<Rightarrow> Panic ''unwrap''
                    | Some proof \<Rightarrow>
                        Ok [InternalProveReq
                          \<lparr>ipr_context = ps_context s,
                           ipr_child_proofs = [proof],
                           ipr_layer_idx = layer_idx + 1,
                           ipr_segment_start = ips_segment_start st,
                           ipr_segment_end = ips_segment_end st,
                           ipr_is_final_proof = True,
                           ipr_deferral_tail = build_deferral_tail_dispatch s (layer_idx + 1),
                           ipr_deferral_merkle_proofs_bytes =
                             ps_deferral_depth0_merkle_proofs_bytes s\<rparr>])
                 else
                   (let num_proofs_at_layer =
                          num_proofs_at_internal_layer_for_leaf_count num_leaf_proofs layer_idx
                            internal_arity
                    in if num_proofs_at_layer = 0 then Ok []
                       else request_parent s layer_idx idx_start
                              (min idx_end (num_proofs_at_layer - 1))
                              (layer_idx + 1 = effective_final))))"

definition handle_internal_result :: "instant \<Rightarrow> internal_proof_state \<Rightarrow> proof_state \<Rightarrow> handler_result" where
  "handle_internal_result now st s0 =
     (let s = s0\<lparr>ps_internal_prove_started_at :=
                   (case ps_internal_prove_started_at s0 of None \<Rightarrow> Some now | Some t \<Rightarrow> Some t),
                 ps_internal_prove_ended_at := Some now\<rparr>;
          layer_idx = ips_layer_idx st
      in if ips_proof st = None then
           fail_with (''InternalProof for layer '' @ show_nat layer_idx @ '' missing proof data'') s
         else if (case ps_num_segments s of
                    Some n \<Rightarrow> ips_segment_start st \<ge> n \<or> ips_segment_end st \<ge> n | None \<Rightarrow> False)
         then (s, Ok [])
         else
           (let idx = segment_start_to_internal_idx_with_batch (ips_segment_start st) layer_idx
                        (ps_leaf_arity s) (ps_internal_arity s);
                key = \<lparr>ipi_layer_idx = layer_idx, ipi_idx = idx\<rparr>;
                duplicate = (map_of (ps_internal_proofs s) key \<noteq> None);
                s1 = s\<lparr>ps_internal_proofs := AList.update key st (ps_internal_proofs s)\<rparr>
            in if duplicate then (s1, Ok []) else (s1, internal_follow_up s1 st idx)))"

definition handle_halo2_result :: "evm_proof_state \<Rightarrow> proof_state \<Rightarrow> handler_result" where
  "handle_halo2_result st s =
     (let proof_uuid = pc_proof_uuid (ps_context s) in
      if pc_proof_type (ps_context s) \<noteq> Evm then
        fail_with (''received Evm result for '' @ proof_uuid @ '' but proof_type is '' @
          proof_type_debug (pc_proof_type (ps_context s))) s
      else if eps_proof st = None then
        fail_with (''Evm result for '' @ proof_uuid @ '' missing proof bytes'') s
      else if ps_evm_proof s \<noteq> None then (s, Ok [])
      else (s\<lparr>ps_evm_proof := Some st\<rparr>, Ok []))"

section \<open>Entry points\<close>

definition record_completion :: "instant \<Rightarrow> proof_state \<Rightarrow> proof_state" where
  "record_completion completion_time s =
     (if is_ready_for_finalization s then
        s\<lparr>ps_e2e_latency_ms := Some (nat (num_milliseconds (completion_time - ps_proof_start_time s))),
          ps_proving_latency_ms := (case ps_proving_started_at s of
             Some t \<Rightarrow> Some (nat (num_milliseconds (completion_time - t)))
           | None \<Rightarrow> ps_proving_latency_ms s)\<rparr>
      else s)"

definition handle_proof_result :: "build \<Rightarrow> clock \<Rightarrow> proof_result \<Rightarrow> proof_state \<Rightarrow> handler_result" where
  "handle_proof_result b ck result s =
     (if is_sealed_for_results s then (s, Ok [])
      else
        (let finish = (\<lambda>(s', r). case r of Ok requests \<Rightarrow> (record_completion (ck_completed ck) s', Ok requests)
                                          | e \<Rightarrow> (s', e))
         in case result of
              ErrorRes r \<Rightarrow> finish (handle_error_result r s, Ok [])
            | ExecuteE2Res _ st \<Rightarrow>
                if e2_cost st > ps_cost_limit s then
                  fail_with (''ExecuteE2 cost '' @ show_nat (e2_cost st) @ '' exceeds cost limit '' @
                    show_nat (ps_cost_limit s)) s
                else finish (handle_execute_e2_result b st s)
            | AppRes _ st \<Rightarrow> finish (handle_app_result (ck_handled ck) st s)
            | LeafRes _ st \<Rightarrow> finish (handle_leaf_result (ck_handled ck) st s)
            | InternalRes _ st \<Rightarrow> finish (handle_internal_result (ck_handled ck) st s)
            | EvmRes _ st \<Rightarrow> finish (handle_halo2_result st s)))"

definition handle_proof_result_with_envelope_outcome ::
  "build \<Rightarrow> clock \<Rightarrow> proof_result message_envelope \<Rightarrow> proof_state \<Rightarrow> proof_state \<times> envelope_outcome outcome" where
  "handle_proof_result_with_envelope_outcome b ck envelope s =
     (if is_sealed_for_results s then
        (s\<lparr>ps_late_result_notice_emitted := True\<rparr>,
         Ok (Late (\<not> ps_late_result_notice_emitted s) (ps_status s)))
      else
        (case handle_proof_result b ck (me_message envelope) (s\<lparr>ps_last_updated := ck_received ck\<rparr>) of
           (s', Ok requests) \<Rightarrow> (s', Ok (Processed requests (is_sealed_for_results s')))
         | (s', Err e) \<Rightarrow> (s', Err e)
         | (s', Panic p) \<Rightarrow> (s', Panic p)))"

definition handle_proof_result_with_envelope ::
  "build \<Rightarrow> clock \<Rightarrow> proof_result message_envelope \<Rightarrow> proof_state \<Rightarrow> handler_result" where
  "handle_proof_result_with_envelope b ck envelope s =
     (case handle_proof_result_with_envelope_outcome b ck envelope s of
        (s', Ok (Processed requests _)) \<Rightarrow> (s', Ok requests)
      | (s', Ok (Late _ _)) \<Rightarrow> (s', Ok [])
      | (s', Err e) \<Rightarrow> (s', Err e)
      | (s', Panic p) \<Rightarrow> (s', Panic p))"

section \<open>Well-formed states\<close>

text \<open>Every stored proof of the tree carries its payload, the maps have distinct keys, and the number
  of segments is known exactly when the execution result was received, and is then positive.\<close>

definition proof_state_wf :: "proof_state \<Rightarrow> bool" where
  "proof_state_wf s \<longleftrightarrow>
     hm_wf (ps_app_proofs s) \<and> hm_wf (ps_leaf_proofs s) \<and> hm_wf (ps_internal_proofs s) \<and>
     hm_all (\<lambda>st. aps_proof st \<noteq> None) (ps_app_proofs s) \<and>
     hm_all (\<lambda>st. lps_proof st \<noteq> None) (ps_leaf_proofs s) \<and>
     hm_all (\<lambda>st. ips_proof st \<noteq> None) (ps_internal_proofs s) \<and>
     (ps_num_segments s = None \<longleftrightarrow> ps_execute_e2_state s = None) \<and>
     ps_num_segments s \<noteq> Some 0 \<and>
     (case ps_evm_proof s of None \<Rightarrow> True | Some e \<Rightarrow> eps_proof e \<noteq> None)"

section \<open>Lemmas on batch collection\<close>

lemma collect_app_proofs_eq:
  "hm_all (\<lambda>st. aps_proof st \<noteq> None) m \<Longrightarrow>
   collect_app_proofs m is =
     (if \<forall>i \<in> set is. map_of m i \<noteq> None
      then Some (map (\<lambda>i. the (aps_proof (the (map_of m i)))) is) else None)"
  by (induction "is") (auto dest: hm_all_get split: option.splits)

lemma collect_leaf_proofs_eq:
  "hm_all (\<lambda>st. lps_proof st \<noteq> None) m \<Longrightarrow>
   collect_leaf_proofs m la is e acc =
     Ok (if \<forall>i \<in> set is. map_of m (i * la) \<noteq> None
         then Some (acc @ map (\<lambda>i. the (lps_proof (the (map_of m (i * la))))) is,
                    if is = [] then e else lps_segment_end (the (map_of m (last is * la))))
         else None)"
  by (induction "is" arbitrary: e acc) (auto dest: hm_all_get split: option.splits)

lemma collect_tail_internal_proofs_eq:
  "hm_all (\<lambda>st. ips_proof st \<noteq> None) m \<Longrightarrow>
   collect_tail_internal_proofs m k is e acc =
     Ok (if \<forall>i \<in> set is. map_of m \<lparr>ipi_layer_idx = k, ipi_idx = i\<rparr> \<noteq> None
         then Some (acc @ map (\<lambda>i. the (ips_proof (the (map_of m \<lparr>ipi_layer_idx = k, ipi_idx = i\<rparr>)))) is,
                    if is = [] then e
                    else ips_segment_end (the (map_of m \<lparr>ipi_layer_idx = k, ipi_idx = last is\<rparr>)))
         else None)"
  by (induction "is" arbitrary: e acc) (auto dest: hm_all_get split: option.splits)

lemma collect_internal_proofs_eq:
  "hm_all (\<lambda>st. ips_proof st \<noteq> None) m \<Longrightarrow>
   collect_internal_proofs m k is b e acc =
     Ok (if \<forall>i \<in> set is. map_of m \<lparr>ipi_layer_idx = k, ipi_idx = i\<rparr> \<noteq> None
         then Some (acc @ map (\<lambda>i. the (ips_proof (the (map_of m \<lparr>ipi_layer_idx = k, ipi_idx = i\<rparr>)))) is,
           fold (\<lambda>i. min (ips_segment_start (the (map_of m \<lparr>ipi_layer_idx = k, ipi_idx = i\<rparr>)))) is b,
           fold (\<lambda>i. max (ips_segment_end (the (map_of m \<lparr>ipi_layer_idx = k, ipi_idx = i\<rparr>)))) is e)
         else None)"
  by (induction "is" arbitrary: b e acc)
     (auto dest: hm_all_get split: option.splits simp: min.commute max.commute)

text \<open>No collection panics on a map whose proofs carry their payloads.\<close>

lemma collect_no_panic:
  "hm_all (\<lambda>st. lps_proof st \<noteq> None) ml \<Longrightarrow> \<exists>r. collect_leaf_proofs ml la is e acc = Ok r"
  "hm_all (\<lambda>st. ips_proof st \<noteq> None) mi \<Longrightarrow> \<exists>r. collect_tail_internal_proofs mi k is e acc = Ok r"
  "hm_all (\<lambda>st. ips_proof st \<noteq> None) mi \<Longrightarrow> \<exists>r. collect_internal_proofs mi k is b e acc' = Ok r"
  by (simp_all add: collect_leaf_proofs_eq collect_tail_internal_proofs_eq collect_internal_proofs_eq)

lemma concat_outcomes_ok:
  "(\<forall>x \<in> set xs. \<exists>y. f x = Ok y) \<Longrightarrow>
   concat_outcomes (map f xs) = Ok (concat (map (\<lambda>x. case f x of Ok y \<Rightarrow> y | _ \<Rightarrow> []) xs))"
  by (induction xs) auto

lemma tail_request_ok:
  "hm_all (\<lambda>st. lps_proof st \<noteq> None) (ps_leaf_proofs s) \<Longrightarrow>
   hm_all (\<lambda>st. ips_proof st \<noteq> None) (ps_internal_proofs s) \<Longrightarrow>
   \<exists>r. tail_request_at s L f k = Ok r"
  by (auto simp: tail_request_at_def Let_def collect_leaf_proofs_eq collect_tail_internal_proofs_eq)

lemma trigger_tail_ok:
  "hm_all (\<lambda>st. lps_proof st \<noteq> None) (ps_leaf_proofs s) \<Longrightarrow>
   hm_all (\<lambda>st. ips_proof st \<noteq> None) (ps_internal_proofs s) \<Longrightarrow>
   ps_num_segments s = Some n \<Longrightarrow> \<exists>r. trigger_tail_proofs s = Ok r"
  by (simp add: trigger_tail_proofs_def Let_def concat_outcomes_ok tail_request_ok)

section \<open>Frame and totality of the handlers\<close>

text \<open>What no handler changes.\<close>

definition same_plan :: "proof_state \<Rightarrow> proof_state \<Rightarrow> bool" where
  "same_plan s t \<longleftrightarrow> ps_context s = ps_context t \<and> ps_leaf_arity s = ps_leaf_arity t \<and>
     ps_internal_arity s = ps_internal_arity t \<and> ps_cost_limit s = ps_cost_limit t \<and>
     ps_timeout_secs s = ps_timeout_secs t \<and> ps_deferral_circuit_count s = ps_deferral_circuit_count t \<and>
     ps_proof_start_time s = ps_proof_start_time t \<and> ps_num_workers s = ps_num_workers t"

lemma same_plan_refl [simp]: "same_plan s s"
  by (simp add: same_plan_def)

lemma notify_completion_frame [simp]:
  "proof_state_wf (notify_completion s) = proof_state_wf s"
  "same_plan (notify_completion s) t = same_plan s t"
  by (simp_all add: notify_completion_def proof_state_wf_def same_plan_def)

lemma fail_with_frame [simp]:
  "proof_state_wf (fst (fail_with m s)) = proof_state_wf s"
  "same_plan (fst (fail_with m s)) t = same_plan s t"
  "snd (fail_with m s) = Ok []"
  by (simp_all add: fail_with_def notify_completion_def proof_state_wf_def same_plan_def)

lemma handle_error_frame [simp]:
  "proof_state_wf (handle_error_result e s) = proof_state_wf s"
  "same_plan (handle_error_result e s) t = same_plan s t"
  by (simp_all add: handle_error_result_def notify_completion_def proof_state_wf_def same_plan_def)

lemma fail_with_total:
  "proof_state_wf s \<Longrightarrow> fail_with m s = (s', r) \<Longrightarrow>
   proof_state_wf s' \<and> same_plan s' s \<and> r = Ok []"
  using fail_with_frame [of m s] same_plan_refl [of s] by (metis fst_conv snd_conv)

lemma e2_result_total:
  assumes "proof_state_wf s" "handle_execute_e2_result b st s = (s', r)"
  shows "proof_state_wf s' \<and> same_plan s' s \<and> (\<exists>reqs. r = Ok reqs)"
proof -
  let ?t = "s\<lparr>ps_num_segments := Some (e2_num_segments st),
               ps_num_instructions := Some (count_instructions b st), ps_execute_e2_state := Some st\<rparr>"
  obtain tail where "trigger_tail_proofs ?t = Ok tail"
    using trigger_tail_ok [of ?t] assms(1) by (auto simp: proof_state_wf_def)
  then show ?thesis using assms
    by (auto simp: handle_execute_e2_result_def Let_def fail_with_def proof_state_wf_def same_plan_def
        notify_completion_def split: if_splits)
qed

lemma app_result_total:
  assumes "proof_state_wf s" "handle_app_result now st s = (s', r)"
  shows "proof_state_wf s' \<and> same_plan s' s \<and> (\<exists>reqs. r = Ok reqs)"
  using assms
  by (auto simp: handle_app_result_def Let_def fail_with_def proof_state_wf_def same_plan_def
      notify_completion_def split: if_splits)

lemma group_start_le:
  assumes "0 < la" "0 < a" "start < n"
  shows "start div la div a * a \<le> div_ceil n la - 1"
proof -
  have "start div la * la < n" using assms(3) by (meson div_times_less_eq_dividend le_less_trans)
  then have "start div la < div_ceil n la" using assms(1) by (simp add: less_div_ceil_iff)
  moreover have "start div la div a * a \<le> start div la" by simp
  ultimately show ?thesis by linarith
qed

lemma request_leaf_group_ok:
  assumes "proof_state_wf s" "0 < ps_leaf_arity s" "0 < ps_internal_arity s"
    "case ps_num_segments s of Some n \<Rightarrow> start < n | None \<Rightarrow> True"
  shows "\<exists>reqs. request_leaf_group s start = Ok reqs"
proof -
  have all: "hm_all (\<lambda>st. lps_proof st \<noteq> None) (ps_leaf_proofs s)"
    using assms(1) by (simp add: proof_state_wf_def)
  have nl: "\<not> x + ps_internal_arity s - Suc 0 < x" for x
    using assms(3) by simp
  show ?thesis
  proof (cases "ps_num_segments s")
    case None
    then show ?thesis
      by (simp add: request_leaf_group_def Let_def collect_leaf_proofs_eq [OF all] nl)
  next
    case (Some n)
    then show ?thesis using assms(4) group_start_le [OF assms(2,3), of start n]
      by (simp add: request_leaf_group_def Let_def collect_leaf_proofs_eq [OF all] nl min_less_iff_disj
          del: upt_Suc atLeastLessThan_iff)
  qed
qed

lemma leaf_result_total:
  assumes wf: "proof_state_wf s" and ar: "0 < ps_leaf_arity s" "0 < ps_internal_arity s"
    and run: "handle_leaf_result now st s = (s', r)"
  shows "proof_state_wf s' \<and> same_plan s' s \<and> (\<exists>reqs. r = Ok reqs)"
proof -
  have "proof_state_wf s' \<and> same_plan s' s"
    using wf run by (auto simp: handle_leaf_result_def Let_def fail_with_def proof_state_wf_def
        same_plan_def notify_completion_def split: if_splits)
  moreover have "\<exists>reqs. r = Ok reqs"
    using wf run ar
    by (auto simp: handle_leaf_result_def Let_def fail_with_def proof_state_wf_def not_le
        intro!: request_leaf_group_ok split: if_splits option.splits)
  ultimately show ?thesis by blast
qed

lemma request_parent_ok:
  assumes "proof_state_wf s" "lo \<le> hi"
  shows "\<exists>reqs. request_parent s k lo hi f = Ok reqs"
  using assms by (simp add: request_parent_def proof_state_wf_def collect_internal_proofs_eq)

lemma internal_index_bound:
  assumes la: "0 < la" and a: "2 \<le> a" and start: "start < n"
    and pos: "num_proofs_at_internal_layer_for_leaf_count (div_ceil n la) k a \<noteq> 0"
  shows "segment_start_to_internal_idx_with_batch start k la a div a * a
    \<le> num_proofs_at_internal_layer_for_leaf_count (div_ceil n la) k a - 1"
proof -
  let ?w = "a ^ Suc k * la"
  have L: "0 < div_ceil n la" using la start by simp
  have w: "0 < ?w" using la a by simp
  have N: "num_proofs_at_internal_layer_for_leaf_count (div_ceil n la) k a = div_ceil n ?w"
    using pos a la L
    by (simp add: num_proofs_at_eq div_ceil_div_ceil mult.commute split: if_splits)
  have "start div ?w * ?w < n" using start by (meson div_times_less_eq_dividend le_less_trans)
  then have "start div ?w < div_ceil n ?w" by (simp only: less_div_ceil_iff [OF w])
  moreover have "start div ?w div a * a \<le> start div ?w" by simp
  ultimately show ?thesis unfolding N internal_idx_closed by linarith
qed

lemma internal_follow_up_ok:
  assumes "proof_state_wf s" "0 < ps_leaf_arity s" "2 \<le> ps_internal_arity s" "ips_proof st \<noteq> None"
    "case ps_num_segments s of Some n \<Rightarrow> ips_segment_start st < n | None \<Rightarrow> True"
    "idx = segment_start_to_internal_idx_with_batch (ips_segment_start st) (ips_layer_idx st)
             (ps_leaf_arity s) (ps_internal_arity s)"
  shows "(\<exists>reqs. internal_follow_up s st idx = Ok reqs) \<or>
    ((\<exists>e. internal_follow_up s st idx = Err e) \<and> pc_proof_type (ps_context s) = Evm \<and>
     \<not> ips_ready_for_evm st)"
proof (cases "ps_num_segments s")
  case None
  have "x \<le> x + ps_internal_arity s - 1" for x using assms(3) by simp
  then show ?thesis using None request_parent_ok [OF assms(1)]
    by (simp add: internal_follow_up_def Let_def)
next
  case (Some n)
  have le: "x \<le> x + ps_internal_arity s - 1" for x using assms(3) by simp
  have st: "ips_segment_start st < n" using assms(5) Some by simp
  note ok = request_parent_ok [OF assms(1)]
  show ?thesis
    using Some assms(4) internal_index_bound [OF assms(2,3) st, of "ips_layer_idx st"] le
    by (auto simp: internal_follow_up_def Let_def assms(6) intro!: ok)
qed

lemma internal_result_total:
  assumes wf: "proof_state_wf s" and ar: "0 < ps_leaf_arity s" "2 \<le> ps_internal_arity s"
    and run: "handle_internal_result now st s = (s', r)"
  shows "proof_state_wf s' \<and> same_plan s' s \<and>
    ((\<exists>reqs. r = Ok reqs) \<or>
     (\<exists>e. r = Err e) \<and> pc_proof_type (ps_context s) = Evm \<and> \<not> ips_ready_for_evm st)"
proof -
  let ?idx = "segment_start_to_internal_idx_with_batch (ips_segment_start st) (ips_layer_idx st)
       (ps_leaf_arity s) (ps_internal_arity s)"
  have fr: "proof_state_wf s' \<and> same_plan s' s"
    using wf run by (auto simp: handle_internal_result_def Let_def fail_with_def proof_state_wf_def
        same_plan_def notify_completion_def split: if_splits)
  have "r = Ok [] \<or>
     r = internal_follow_up s' st ?idx \<and> ips_proof st \<noteq> None \<and>
     (case ps_num_segments s' of Some n \<Rightarrow> ips_segment_start st < n | None \<Rightarrow> True)"
    using run by (auto simp: handle_internal_result_def Let_def fail_with_def not_le
        split: if_splits option.splits)
  then show ?thesis
  proof
    assume "r = internal_follow_up s' st ?idx \<and> ips_proof st \<noteq> None \<and>
      (case ps_num_segments s' of Some n \<Rightarrow> ips_segment_start st < n | None \<Rightarrow> True)"
    with fr ar show ?thesis
      using internal_follow_up_ok [of s' st ?idx] by (simp add: same_plan_def)
  qed (use fr in blast)
qed

lemma halo2_result_total:
  assumes "proof_state_wf s" "handle_halo2_result st s = (s', r)"
  shows "proof_state_wf s' \<and> same_plan s' s \<and> r = Ok []"
  using assms by (auto simp: handle_halo2_result_def Let_def fail_with_def proof_state_wf_def
      same_plan_def notify_completion_def split: if_splits)

section \<open>Reference descriptions\<close>

text \<open>The reason for which a result fails an unsealed proof, if it does.\<close>

fun failure_reason :: "proof_state \<Rightarrow> proof_result \<Rightarrow> string option" where
  "failure_reason s (ErrorRes r) =
     Some (''step '' @ quote @ er_step r @ quote @ '' failed: '' @ er_error r)"
| "failure_reason s (ExecuteE2Res _ st) =
     (if e2_cost st > ps_cost_limit s then
        Some (''ExecuteE2 cost '' @ show_nat (e2_cost st) @ '' exceeds cost limit '' @
              show_nat (ps_cost_limit s))
      else if ps_execute_e2_state s = None \<and> e2_num_segments st = 0 then
        Some ''ExecuteE2 returned 0 segments''
      else None)"
| "failure_reason s (AppRes _ st) =
     (if aps_proof st = None then
        Some (''AppProof for segment '' @ show_nat (aps_segment_idx st) @ '' missing proof data'')
      else None)"
| "failure_reason s (LeafRes _ st) =
     (if lps_proof st = None then
        Some (''LeafProof for segments ['' @ show_nat (lps_segment_start st) @ ''-''
          @ show_nat (lps_segment_end st) @ ''] missing proof data'')
      else None)"
| "failure_reason s (InternalRes _ st) =
     (if ips_proof st = None then
        Some (''InternalProof for layer '' @ show_nat (ips_layer_idx st) @ '' missing proof data'')
      else None)"
| "failure_reason s (EvmRes _ st) =
     (if pc_proof_type (ps_context s) \<noteq> Evm then
        Some (''received Evm result for '' @ pc_proof_uuid (ps_context s) @ '' but proof_type is '' @
              proof_type_debug (pc_proof_type (ps_context s)))
      else if eps_proof st = None then
        Some (''Evm result for '' @ pc_proof_uuid (ps_context s) @ '' missing proof bytes'')
      else None)"

text \<open>The slots of the tree: which results are present, whatever their payload.\<close>

definition tree_slots :: "proof_state \<Rightarrow>
    nat set \<times> nat set \<times> internal_proof_index set \<times> bool \<times> nat option" where
  "tree_slots s = (dom (map_of (ps_app_proofs s)), dom (map_of (ps_leaf_proofs s)),
     dom (map_of (ps_internal_proofs s)), ps_evm_proof s \<noteq> None, ps_num_segments s)"

text \<open>A result whose slot is already filled.\<close>

fun slot_filled :: "proof_state \<Rightarrow> proof_result \<Rightarrow> bool" where
  "slot_filled s (ErrorRes _) = False"
| "slot_filled s (ExecuteE2Res _ st) = (ps_execute_e2_state s \<noteq> None)"
| "slot_filled s (AppRes _ st) = (map_of (ps_app_proofs s) (aps_segment_idx st) \<noteq> None)"
| "slot_filled s (LeafRes _ st) = (map_of (ps_leaf_proofs s) (lps_segment_start st) \<noteq> None)"
| "slot_filled s (InternalRes _ st) =
     (map_of (ps_internal_proofs s) \<lparr>ipi_layer_idx = ips_layer_idx st,
        ipi_idx = segment_start_to_internal_idx_with_batch (ips_segment_start st) (ips_layer_idx st)
          (ps_leaf_arity s) (ps_internal_arity s)\<rparr> \<noteq> None)"
| "slot_filled s (EvmRes _ st) = (ps_evm_proof s \<noteq> None)"

text \<open>A stream of results, each with its clock readings.\<close>

fun handle_stream ::
  "build \<Rightarrow> (clock \<times> proof_result message_envelope) list \<Rightarrow> proof_state \<Rightarrow>
   proof_state \<times> envelope_outcome outcome list" where
  "handle_stream b [] s = (s, [])"
| "handle_stream b ((ck, env) # rest) s =
     (let (s', r) = handle_proof_result_with_envelope_outcome b ck env s;
          (s'', rs) = handle_stream b rest s'
      in (s'', r # rs))"

section \<open>Lemmas on the entry points\<close>

lemma record_completion_frame [simp]:
  "proof_state_wf (record_completion t s) = proof_state_wf s"
  "same_plan (record_completion t s) u = same_plan s u"
  "is_ready_for_finalization (record_completion t s) = is_ready_for_finalization s"
  "is_sealed_for_results (record_completion t s) = is_sealed_for_results s"
  "ps_status (record_completion t s) = ps_status s"
  "ps_notifications (record_completion t s) = ps_notifications s"
  "tree_slots (record_completion t s) = tree_slots s"
  by (simp_all add: record_completion_def proof_state_wf_def same_plan_def is_sealed_for_results_def
      tree_slots_def)

lemma last_updated_frame [simp]:
  "proof_state_wf (s\<lparr>ps_last_updated := t\<rparr>) = proof_state_wf s"
  "same_plan (s\<lparr>ps_last_updated := t\<rparr>) u = same_plan s u"
  "same_plan u (s\<lparr>ps_last_updated := t\<rparr>) = same_plan u s"
  "is_sealed_for_results (s\<lparr>ps_last_updated := t\<rparr>) = is_sealed_for_results s"
  "slot_filled (s\<lparr>ps_last_updated := t\<rparr>) res = slot_filled s res"
  "failure_reason (s\<lparr>ps_last_updated := t\<rparr>) res = failure_reason s res"
  "tree_slots (s\<lparr>ps_last_updated := t\<rparr>) = tree_slots s"
  by (cases res; simp add: proof_state_wf_def same_plan_def is_sealed_for_results_def tree_slots_def)+

lemma sealed_outcome:
  "is_sealed_for_results s \<Longrightarrow> handle_proof_result_with_envelope_outcome b ck env s =
     (s\<lparr>ps_late_result_notice_emitted := True\<rparr>,
      Ok (Late (\<not> ps_late_result_notice_emitted s) (ps_status s)))"
  by (simp add: handle_proof_result_with_envelope_outcome_def)

lemma sealed_notice_frame [simp]:
  "is_sealed_for_results (s\<lparr>ps_late_result_notice_emitted := v\<rparr>) = is_sealed_for_results s"
  by (simp add: is_sealed_for_results_def)

lemma handle_proof_result_total:
  assumes wf: "proof_state_wf s" and ar: "0 < ps_leaf_arity s" "2 \<le> ps_internal_arity s"
    and run: "handle_proof_result b ck res s = (s', r)"
  shows "proof_state_wf s' \<and> same_plan s' s \<and>
    (case r of Ok _ \<Rightarrow> True
     | Err _ \<Rightarrow> pc_proof_type (ps_context s) = Evm \<and>
         (case res of InternalRes _ st \<Rightarrow> \<not> ips_ready_for_evm st | _ \<Rightarrow> False)
     | Panic _ \<Rightarrow> False)"
proof (cases "is_sealed_for_results s")
  case True
  then show ?thesis using wf run by (auto simp: handle_proof_result_def)
next
  case False
  have ar': "0 < ps_internal_arity s" using ar(2) by simp
  note tot = e2_result_total [OF wf] app_result_total [OF wf] leaf_result_total [OF wf ar(1) ar']
    internal_result_total [OF wf ar] halo2_result_total [OF wf]
  show ?thesis
  proof (cases res)
    case (ExecuteE2Res c st)
    then show ?thesis using run False tot(1) fail_with_total [OF wf]
      by (fastforce simp: handle_proof_result_def Let_def split: if_splits prod.splits)
  next
    case (AppRes c st)
    then show ?thesis using run False tot(2)
      by (fastforce simp: handle_proof_result_def Let_def split: prod.splits)
  next
    case (LeafRes c st)
    then show ?thesis using run False tot(3)
      by (fastforce simp: handle_proof_result_def Let_def split: prod.splits)
  next
    case (InternalRes c st)
    then show ?thesis using run False tot(4)
      by (fastforce simp: handle_proof_result_def Let_def split: prod.splits)
  next
    case (EvmRes c st)
    then show ?thesis using run False tot(5)
      by (fastforce simp: handle_proof_result_def Let_def split: prod.splits)
  next
    case (ErrorRes e)
    then show ?thesis using run False wf by (auto simp: handle_proof_result_def Let_def)
  qed
qed

lemma handle_proof_result_failure:
  assumes ns: "\<not> is_sealed_for_results s"
    and run: "handle_proof_result b ck res s = (s', r)"
  shows "case failure_reason s res of
      Some m \<Rightarrow> ps_status s' = Failing m \<and> r = Ok [] \<and>
        ps_notifications s' = Suc (ps_notifications s) \<and> tree_slots s' = tree_slots s
    | None \<Rightarrow> ps_status s' = InProgress \<and> ps_notifications s' = ps_notifications s"
proof -
  have st: "ps_status s = InProgress" using ns by (simp add: is_sealed_for_results_def)
  note defs = handle_proof_result_def Let_def fail_with_def notify_completion_def tree_slots_def
  show ?thesis
  proof (cases res)
    case (ExecuteE2Res c e)
    then show ?thesis using run ns st
      by (auto simp: defs handle_execute_e2_result_def record_completion_def
          split: if_splits outcome.splits)
  next
    case (AppRes c e)
    then show ?thesis using run ns st
      by (auto simp: defs handle_app_result_def record_completion_def split: if_splits)
  next
    case (LeafRes c e)
    then show ?thesis using run ns st
      by (auto simp: defs handle_leaf_result_def record_completion_def
          split: if_splits outcome.splits prod.splits)
  next
    case (InternalRes c e)
    then show ?thesis using run ns st
      by (auto simp: defs handle_internal_result_def record_completion_def
          split: if_splits outcome.splits prod.splits)
  next
    case (EvmRes c e)
    then show ?thesis using run ns st
      by (auto simp: defs handle_halo2_result_def record_completion_def split: if_splits)
  next
    case (ErrorRes e)
    then show ?thesis using run ns st
      by (auto simp: defs handle_error_result_def record_completion_def split: if_splits)
  qed
qed

lemma handle_proof_result_duplicate:
  assumes ns: "\<not> is_sealed_for_results s" and dup: "slot_filled s res"
    and run: "handle_proof_result b ck res s = (s', r)"
  shows "r = Ok [] \<and> tree_slots s' = tree_slots s"
proof -
  note defs = handle_proof_result_def Let_def fail_with_def notify_completion_def tree_slots_def
  have upd: "dom (map_of (AList.update k v m)) = dom (map_of m)" if "map_of m k = Some w"
    for k v w and m :: "('x, 'y) hmap"
    using that by (auto simp: dom_def)
  show ?thesis
  proof (cases res)
    case (ExecuteE2Res c e)
    then show ?thesis using run ns dup
      by (auto simp: defs handle_execute_e2_result_def record_completion_def split: if_splits)
  next
    case (AppRes c e)
    then show ?thesis using run ns dup
      by (auto simp: defs handle_app_result_def record_completion_def upd split: if_splits)
  next
    case (LeafRes c e)
    then show ?thesis using run ns dup
      by (auto simp: defs handle_leaf_result_def record_completion_def upd split: if_splits)
  next
    case (InternalRes c e)
    then show ?thesis using run ns dup
      by (auto simp: defs handle_internal_result_def record_completion_def upd split: if_splits)
  next
    case (EvmRes c e)
    then show ?thesis using run ns dup
      by (auto simp: defs handle_halo2_result_def record_completion_def split: if_splits)
  qed (use dup in simp)
qed

section \<open>Example data\<close>

definition demo_context :: "proof_type \<Rightarrow> proof_context" where
  "demo_context t = \<lparr>pc_proof_uuid = ''p1'', pc_program = \<lparr>pr_name = ''fib'', pr_version = 1\<rparr>,
     pc_labels = [], pc_proof_type = t\<rparr>"

definition demo_state :: "proof_type \<Rightarrow> nat \<Rightarrow> nat \<Rightarrow> proof_state" where
  "demo_state t leaf_arity internal_arity =
     proof_state_new (demo_context t) 1000 2 leaf_arity internal_arity 300 0"

definition demo_clock :: clock where
  "demo_clock = \<lparr>ck_received = 1, ck_handled = 2, ck_completed = 3\<rparr>"

definition demo_envelope :: "proof_result \<Rightarrow> proof_result message_envelope" where
  "demo_envelope r = \<lparr>me_timestamp = 0, me_message_id = ''m'', me_message = r\<rparr>"

definition demo_app :: "nat \<Rightarrow> proof_result" where
  "demo_app i = AppRes (demo_context Stark)
     \<lparr>aps_proof = Some [1], aps_segment_idx = i, aps_prove_time_ms = 0, aps_fastfwd_time_ms = 0,
      aps_stark_prove_time_ms = 0, aps_sub_metrics = [], aps_final_merkle_path_bytes = None,
      aps_deferral_merkle_proofs_bytes = None\<rparr>"

definition demo_e2 :: "nat \<Rightarrow> proof_result" where
  "demo_e2 n = ExecuteE2Res (demo_context Stark)
     \<lparr>e2_num_segments = n, e2_segments = [], e2_cost = 5, e2_execute_time_ms = 0\<rparr>"

definition demo_leaf :: "nat \<Rightarrow> nat \<Rightarrow> proof_result" where
  "demo_leaf a b = LeafRes (demo_context Stark)
     \<lparr>lps_proof = Some [2], lps_segment_start = a, lps_segment_end = b, lps_prove_time_ms = 0,
      lps_sub_metrics = []\<rparr>"

definition demo_internal :: "nat \<Rightarrow> nat \<Rightarrow> nat \<Rightarrow> proof_result" where
  "demo_internal k a b = InternalRes (demo_context Stark)
     \<lparr>ips_proof = Some [3], ips_layer_idx = k, ips_segment_start = a, ips_segment_end = b,
      ips_prove_time_ms = 0, ips_compression_time_ms = 0, ips_sub_metrics = [],
      ips_deferral_merkle_proofs_bytes = None, ips_ready_for_evm = False\<rparr>"

lemmas demo_defs = demo_context_def demo_state_def demo_clock_def demo_envelope_def demo_app_def
  demo_e2_def demo_leaf_def demo_internal_def

lemma demo_state_simps [simp]:
  "proof_state_wf (demo_state t l a)" "ps_leaf_arity (demo_state t l a) = l"
  "ps_internal_arity (demo_state t l a) = a" "\<not> is_sealed_for_results (demo_state t l a)"
  by (simp_all add: demo_defs proof_state_wf_def proof_state_new_def)
     (simp_all add: is_sealed_for_results_def is_ready_for_finalization_def
       final_internal_proof_present_def split: proof_type.split)

section \<open>Properties\<close>



text \<open>C24. The failing results: on an unsealed proof a result moves the status to \<open>Failing\<close>, with the
  reason listed in \<open>failure_reason\<close>, exactly when it is an error report, an execution above the cost
  limit or without segments, a proof without payload, or an EVM proof of a STARK job; it then emits
  no request, fills no slot and wakes the waiters once. Any other result leaves the proof in
  progress and wakes nobody.\<close>

theorem failing_results_exact:
  assumes "\<not> is_sealed_for_results s"
    and "handle_proof_result_with_envelope b ck env s = (s', r)"
  shows "case failure_reason s (me_message env) of
      Some m \<Rightarrow> ps_status s' = Failing m \<and> is_sealed_for_results s' \<and> r = Ok [] \<and>
        ps_notifications s' = Suc (ps_notifications s) \<and> tree_slots s' = tree_slots s
    | None \<Rightarrow> ps_status s' = InProgress \<and> ps_notifications s' = ps_notifications s"
proof -
  let ?t = "s\<lparr>ps_last_updated := ck_received ck\<rparr>"
  obtain t q where h: "handle_proof_result b ck (me_message env) ?t = (t, q)" by fastforce
  have "s' = t \<and> r = q"
    using assms h by (auto simp: handle_proof_result_with_envelope_def
        handle_proof_result_with_envelope_outcome_def split: outcome.splits)
  then show ?thesis
    using handle_proof_result_failure [OF _ h] assms(1)
    by (auto split: option.splits)
qed

theorem failing_results_exact_witness:
  "ps_status (fst (handle_proof_result_with_envelope Mock_Provers demo_clock
     (demo_envelope (demo_e2 0)) (demo_state Stark 4 3))) = Failing ''ExecuteE2 returned 0 segments''"
proof -
  have "failure_reason (demo_state Stark 4 3) (demo_e2 0) = Some ''ExecuteE2 returned 0 segments''"
    by (simp add: demo_defs proof_state_new_def)
  then show ?thesis
    using failing_results_exact [of "demo_state Stark 4 3" Mock_Provers demo_clock
        "demo_envelope (demo_e2 0)"]
    by (simp add: demo_envelope_def prod_eq_iff)
qed

text \<open>Redelivery: a result whose slot is already filled emits no request and fills no further slot,
  whatever the state of the proof.\<close>

theorem duplicate_results_emit_nothing:
  assumes "slot_filled s (me_message env)"
    and "handle_proof_result_with_envelope b ck env s = (s', r)"
  shows "r = Ok [] \<and> tree_slots s' = tree_slots s"
proof (cases "is_sealed_for_results s")
  case True
  then show ?thesis using assms(2)
    by (auto simp: handle_proof_result_with_envelope_def sealed_outcome tree_slots_def)
next
  case False
  let ?t = "s\<lparr>ps_last_updated := ck_received ck\<rparr>"
  obtain t q where h: "handle_proof_result b ck (me_message env) ?t = (t, q)" by fastforce
  have "s' = t \<and> r = q"
    using assms False h by (auto simp: handle_proof_result_with_envelope_def
        handle_proof_result_with_envelope_outcome_def split: outcome.splits)
  then show ?thesis
    using handle_proof_result_duplicate [OF _ _ h] assms(1) False by simp
qed

theorem duplicate_results_emit_nothing_witness:
  "let s = fst (handle_proof_result_with_envelope Mock_Provers demo_clock (demo_envelope (demo_app 0))
             (demo_state Stark 4 3))
   in snd (handle_proof_result_with_envelope Mock_Provers demo_clock (demo_envelope (demo_app 0)) s) = Ok []"
proof -
  let ?s = "fst (handle_proof_result_with_envelope Mock_Provers demo_clock
      (demo_envelope (demo_app 0)) (demo_state Stark 4 3))"
  have "slot_filled ?s (demo_app 0)" by code_simp
  then show ?thesis
    using duplicate_results_emit_nothing [of ?s "demo_envelope (demo_app 0)" Mock_Provers demo_clock]
    by (simp add: demo_envelope_def prod_eq_iff)
qed

text \<open>Late results: once a proof is sealed, no stream of results changes anything but the notice
  flag; every outcome is \<open>Late\<close> with the unchanged status, and the log notice is requested at most
  once over the whole stream.\<close>

theorem sealed_absorbs_stream:
  assumes "is_sealed_for_results s" "results \<noteq> []"
  shows "handle_stream b results s =
    (s\<lparr>ps_late_result_notice_emitted := True\<rparr>,
     Ok (Late (\<not> ps_late_result_notice_emitted s) (ps_status s))
       # replicate (length results - 1) (Ok (Late False (ps_status s))))"
  using assms
proof (induction results arbitrary: s)
  case (Cons x xs)
  obtain ck env where x: "x = (ck, env)" by (cases x)
  show ?case
  proof (cases xs)
    case Nil
    then show ?thesis using Cons.prems by (simp add: x sealed_outcome)
  next
    case (Cons y ys)
    then show ?thesis
      using Cons.IH [of "s\<lparr>ps_late_result_notice_emitted := True\<rparr>"] Cons.prems(1)
      by (simp add: x sealed_outcome)
  qed
qed simp

theorem sealed_absorbs_stream_witness:
  "handle_stream Mock_Provers [(demo_clock, demo_envelope (demo_app 0)), (demo_clock, demo_envelope (demo_app 0))]
     (mark_failing ''x'' (demo_state Stark 4 3))
   = ((mark_failing ''x'' (demo_state Stark 4 3))\<lparr>ps_late_result_notice_emitted := True\<rparr>,
      [Ok (Late True (Failing ''x'')), Ok (Late False (Failing ''x''))])"
proof -
  have *: "is_sealed_for_results (mark_failing ''x'' (demo_state Stark 4 3))"
    "ps_status (mark_failing ''x'' (demo_state Stark 4 3)) = Failing ''x''"
    "\<not> ps_late_result_notice_emitted (mark_failing ''x'' (demo_state Stark 4 3))" by code_simp+
  show ?thesis
    using sealed_absorbs_stream [OF *(1), of "[(demo_clock, demo_envelope (demo_app 0)),
        (demo_clock, demo_envelope (demo_app 0))]" Mock_Provers] *(2,3)
    by simp
qed

end
