(* ===== verification/Tree_Spec.thy ===== *)
theory Tree_Spec
  imports Recursion_Tree
begin

text \<open>
  The abstract recursion tree the result handler has to drive, without proofs, messages or hash maps.
  A plan fixes the number of segments and the two fan-ins. Level 0 holds the segments, level 1 the
  leaf proofs, level \<open>k + 2\<close> the internal proofs of layer \<open>k\<close>, up to \<open>top_level\<close>, which has one
  item. Item \<open>j\<close> of level \<open>l + 1\<close> has the children \<open>children l j\<close> at level \<open>l\<close>. The state says which items
  are stored, whether the number of segments is known yet, and which items were requested, in order.
  \<open>Job_Run\<close> shows that the handlers implement \<open>store\<close> and \<open>learn\<close>.
\<close>

record tree_plan =
  tp_segments :: nat
  tp_leaf_arity :: nat
  tp_internal_arity :: nat

definition plan_ok :: "tree_plan \<Rightarrow> bool" where
  "plan_ok c \<longleftrightarrow> 0 < tp_segments c \<and> tp_segments c \<le> 2 ^ 64 \<and> 0 < tp_leaf_arity c \<and>
     2 \<le> tp_internal_arity c"

definition fan_in :: "tree_plan \<Rightarrow> nat \<Rightarrow> nat" where
  "fan_in c l = (if l = 0 then tp_leaf_arity c else tp_internal_arity c)"

fun level_count :: "tree_plan \<Rightarrow> nat \<Rightarrow> nat" where
  "level_count c 0 = tp_segments c"
| "level_count c (Suc l) = div_ceil (level_count c l) (fan_in c l)"

text \<open>The final layer, and its level.\<close>

definition final_layer :: "tree_plan \<Rightarrow> nat" where
  "final_layer c =
     max (num_internal_layers (div_ceil (tp_segments c) (tp_leaf_arity c)) (tp_internal_arity c)) 2 - 1"

definition top_level :: "tree_plan \<Rightarrow> nat" where
  "top_level c = Suc (Suc (final_layer c))"

definition children :: "tree_plan \<Rightarrow> nat \<Rightarrow> nat \<Rightarrow> nat list" where
  "children c l j = [j * fan_in c l..<min (Suc j * fan_in c l) (level_count c l)]"

record tree_abs =
  ta_known :: bool
  ta_stored :: "(nat \<times> nat) set"
  ta_emitted :: "(nat \<times> nat) list"

definition tree_start :: tree_abs where
  "tree_start = \<lparr>ta_known = False, ta_stored = {}, ta_emitted = []\<rparr>"

text \<open>Before the number of segments is known only full groups count as complete.\<close>

definition group_complete :: "tree_plan \<Rightarrow> tree_abs \<Rightarrow> nat \<Rightarrow> nat \<Rightarrow> bool" where
  "group_complete c A l j \<longleftrightarrow>
     (ta_known A \<or> Suc j * fan_in c l \<le> level_count c l) \<and>
     (\<forall>i \<in> set (children c l j). (l, i) \<in> ta_stored A)"

definition store :: "tree_plan \<Rightarrow> nat \<Rightarrow> nat \<Rightarrow> tree_abs \<Rightarrow> tree_abs" where
  "store c l i A =
     (if (l, i) \<in> ta_stored A then A
      else let A' = A\<lparr>ta_stored := insert (l, i) (ta_stored A)\<rparr>;
               j = i div fan_in c l
           in A'\<lparr>ta_emitted := ta_emitted A @
                (if l < top_level c \<and> group_complete c A' l j then [(Suc l, j)] else [])\<rparr>)"

definition learn :: "tree_plan \<Rightarrow> tree_abs \<Rightarrow> tree_abs" where
  "learn c A =
     (if ta_known A then A
      else A\<lparr>ta_known := True, ta_emitted := ta_emitted A @
             map (\<lambda>l. (Suc l, level_count c l div fan_in c l))
               (filter (\<lambda>l. 0 < level_count c l mod fan_in c l \<and>
                  (\<forall>i \<in> set (children c l (level_count c l div fan_in c l)). (l, i) \<in> ta_stored A))
                  [0..<top_level c])\<rparr>)"

text \<open>An item is stored only after it was requested (segments are requested at the start), and an
  internal item only once the number of segments is known.\<close>

inductive tree_reach :: "tree_plan \<Rightarrow> tree_abs \<Rightarrow> bool" for c where
  start: "tree_reach c tree_start"
| learn: "tree_reach c A \<Longrightarrow> tree_reach c (learn c A)"
| store: "tree_reach c A \<Longrightarrow> i < level_count c l \<Longrightarrow> l \<le> top_level c \<Longrightarrow>
    l = 0 \<or> (l, i) \<in> set (ta_emitted A) \<Longrightarrow> 2 \<le> l \<longrightarrow> ta_known A \<Longrightarrow> tree_reach c (store c l i A)"

section \<open>Arithmetic of the levels\<close>

lemma plan_okD [simp]:
  "plan_ok c \<Longrightarrow> 0 < tp_segments c" "plan_ok c \<Longrightarrow> 0 < tp_leaf_arity c"
  "plan_ok c \<Longrightarrow> 2 \<le> tp_internal_arity c" "plan_ok c \<Longrightarrow> 0 < tp_internal_arity c"
  by (simp_all add: plan_ok_def)

lemma plan_ok_usize: "plan_ok c \<Longrightarrow> tp_segments c \<le> 2 ^ 64"
  by (simp only: plan_ok_def)

lemma fan_in_pos [simp]: "plan_ok c \<Longrightarrow> 0 < fan_in c l"
  by (simp add: fan_in_def)

lemma level_count_pos [simp]: "plan_ok c \<Longrightarrow> 0 < level_count c l"
  by (induction l) simp_all

lemma child_parent:
  assumes "plan_ok c" "i < level_count c l"
  shows "i div fan_in c l < level_count c (Suc l)" "i \<in> set (children c l (i div fan_in c l))"
proof -
  let ?f = "fan_in c l"
  have f: "0 < ?f" using assms(1) by simp
  have le: "i div ?f * ?f \<le> i" by simp
  then have "i div ?f * ?f < level_count c l" using assms(2) by (rule le_less_trans)
  then show "i div ?f < level_count c (Suc l)" using f by (simp add: less_div_ceil_iff)
  have "i < Suc (i div ?f) * ?f" using f by (metis dividend_less_div_times add.commute mult_Suc)
  then show "i \<in> set (children c l (i div ?f))" using le assms(2) by (simp add: children_def)
qed

lemma child_memD:
  assumes "plan_ok c" "i \<in> set (children c l j)"
  shows "i div fan_in c l = j" "i < level_count c l"
proof -
  have "j * fan_in c l \<le> i" "i < Suc j * fan_in c l" using assms(2) by (simp_all add: children_def)
  then show "i div fan_in c l = j" by (simp add: div_nat_eqI mult.commute)
  show "i < level_count c l" using assms(2) by (simp add: children_def)
qed

lemma children_nonempty:
  assumes "plan_ok c" "j < level_count c (Suc l)"
  shows "j * fan_in c l \<in> set (children c l j)" "children c l j \<noteq> []"
proof -
  have "j * fan_in c l < level_count c l" using assms by (simp add: less_div_ceil_iff)
  then show "j * fan_in c l \<in> set (children c l j)" using assms(1) by (simp add: children_def)
  then show "children c l j \<noteq> []" by auto
qed

lemma partial_group_last:
  assumes "plan_ok c" "j < level_count c (Suc l)" "\<not> Suc j * fan_in c l \<le> level_count c l"
  shows "j = level_count c l div fan_in c l" "0 < level_count c l mod fan_in c l"
proof -
  let ?f = "fan_in c l" and ?n = "level_count c l"
  have f: "0 < ?f" using assms(1) by simp
  have lt: "j * ?f < ?n" using assms f by (simp add: less_div_ceil_iff)
  show j: "j = ?n div ?f"
    using lt assms(3) by (intro div_nat_eqI [symmetric]) (simp_all add: mult.commute)
  show "0 < ?n mod ?f"
  proof (rule ccontr)
    assume "\<not> 0 < ?n mod ?f"
    then have "?n = j * ?f" using j by auto
    with lt show False by simp
  qed
qed

lemma last_group_partial:
  assumes "plan_ok c" "0 < level_count c l mod fan_in c l"
  shows "level_count c l div fan_in c l < level_count c (Suc l)"
    "\<not> Suc (level_count c l div fan_in c l) * fan_in c l \<le> level_count c l"
proof -
  let ?f = "fan_in c l" and ?n = "level_count c l"
  show "?n div ?f < level_count c (Suc l)" using assms(2) by (simp add: div_ceil_def)
  show "\<not> Suc (?n div ?f) * ?f \<le> ?n"
    using fan_in_pos [OF assms(1)] by (metis dividend_less_div_times add.commute mult_Suc not_le)
qed

lemma level_count_leaf: "level_count c (Suc 0) = div_ceil (tp_segments c) (tp_leaf_arity c)"
  by (simp add: fan_in_def)

lemma level_count_internal:
  assumes "plan_ok c"
  shows "level_count c (Suc (Suc k)) = div_ceil (level_count c (Suc 0)) (tp_internal_arity c ^ Suc k)"
proof (induction k)
  case (Suc k)
  have "level_count c (Suc (Suc (Suc k))) =
      div_ceil (level_count c (Suc (Suc k))) (tp_internal_arity c)" by (simp add: fan_in_def)
  also have "\<dots> = div_ceil (level_count c (Suc 0)) (tp_internal_arity c ^ Suc k * tp_internal_arity c)"
    unfolding Suc.IH using assms by (intro div_ceil_div_ceil) simp_all
  finally show ?case by (simp add: mult.commute)
qed (simp add: fan_in_def)

lemma level_count_top: "plan_ok c \<Longrightarrow> level_count c (top_level c) = 1"
proof -
  assume ok: "plan_ok c"
  let ?L = "div_ceil (tp_segments c) (tp_leaf_arity c)" and ?a = "tp_internal_arity c"
  let ?l = "num_internal_layers ?L ?a"
  have le: "?L \<le> ?a ^ Suc (final_layer c)"
  proof (cases "?L \<le> 1")
    case True
    have "1 \<le> ?a ^ Suc (final_layer c)" using plan_okD(3) [OF ok] by (intro one_le_power) linarith
    with True show ?thesis by linarith
  next
    case False
    then have "?L \<le> ?a ^ ?l" using ok by (intro num_internal_layers_spec(1)) simp_all
    also have "\<dots> \<le> ?a ^ Suc (final_layer c)"
      using plan_okD(4) [OF ok] by (intro power_increasing) (simp add: final_layer_def, linarith)
    finally show ?thesis .
  qed
  have p: "0 < ?a ^ Suc (final_layer c)" using ok by simp
  have "level_count c (top_level c) \<le> 1"
    using le p unfolding top_level_def level_count_internal [OF ok] level_count_leaf
    by (simp only: div_ceil_le_iff mult_1)
  moreover have "0 < level_count c (top_level c)" using ok by simp
  ultimately show ?thesis by linarith
qed

section \<open>Invariant\<close>

text \<open>Exactly the items whose group of children is complete are requested, each once; a stored item
  lies in the tree and was requested.\<close>

definition tree_inv :: "tree_plan \<Rightarrow> tree_abs \<Rightarrow> bool" where
  "tree_inv c A \<longleftrightarrow>
     distinct (ta_emitted A) \<and>
     (\<forall>l j. (l, j) \<in> set (ta_emitted A) \<longleftrightarrow>
        (\<exists>k. l = Suc k \<and> k < top_level c \<and> j < level_count c l \<and> group_complete c A k j)) \<and>
     (\<forall>l i. (l, i) \<in> ta_stored A \<longrightarrow>
        i < level_count c l \<and> l \<le> top_level c \<and> (l = 0 \<or> (l, i) \<in> set (ta_emitted A)) \<and>
        (2 \<le> l \<longrightarrow> ta_known A))"

lemma tree_invI:
  assumes "distinct (ta_emitted A)"
    "\<And>l j. (l, j) \<in> set (ta_emitted A) \<longleftrightarrow>
        (\<exists>k. l = Suc k \<and> k < top_level c \<and> j < level_count c l \<and> group_complete c A k j)"
    "\<And>l i. (l, i) \<in> ta_stored A \<Longrightarrow>
        i < level_count c l \<and> l \<le> top_level c \<and> (l = 0 \<or> (l, i) \<in> set (ta_emitted A)) \<and>
        (2 \<le> l \<longrightarrow> ta_known A)"
  shows "tree_inv c A"
  using assms unfolding tree_inv_def by blast

lemma tree_inv_storedD:
  "tree_inv c A \<Longrightarrow> (l, i) \<in> ta_stored A \<Longrightarrow>
     i < level_count c l \<and> l \<le> top_level c \<and> (l = 0 \<or> (l, i) \<in> set (ta_emitted A)) \<and>
     (2 \<le> l \<longrightarrow> ta_known A)"
  unfolding tree_inv_def by blast

lemma tree_inv_distinct: "tree_inv c A \<Longrightarrow> distinct (ta_emitted A)"
  by (simp add: tree_inv_def)

lemma tree_inv_emitted_iff:
  "tree_inv c A \<Longrightarrow> (Suc k, j) \<in> set (ta_emitted A) \<longleftrightarrow>
     k < top_level c \<and> j < level_count c (Suc k) \<and> group_complete c A k j"
  by (simp add: tree_inv_def)

lemma tree_inv_start: "plan_ok c \<Longrightarrow> tree_inv c tree_start"
  using children_nonempty by (fastforce simp: tree_inv_def tree_start_def group_complete_def)

lemma tree_inv_store:
  assumes ok: "plan_ok c" and inv: "tree_inv c A" and i: "i < level_count c l" "l \<le> top_level c"
    and req: "l = 0 \<or> (l, i) \<in> set (ta_emitted A)" "2 \<le> l \<longrightarrow> ta_known A"
  shows "tree_inv c (store c l i A)"
proof (cases "(l, i) \<in> ta_stored A")
  case False
  define j where "j = i div fan_in c l"
  define A' where "A' = A\<lparr>ta_stored := insert (l, i) (ta_stored A)\<rparr>"
  note par = child_parent [OF ok i(1), folded j_def]
  have gc: "group_complete c A' k m \<longleftrightarrow>
      (if k = l \<and> m = j then group_complete c A' l j else group_complete c A k m)" for k m
  proof -
    have "(k, x) \<noteq> (l, i)" if "\<not> (k = l \<and> m = j)" "x \<in> set (children c k m)" for x
      using that child_memD(1) [OF ok that(2)] by (auto simp: j_def)
    then show ?thesis by (auto simp: group_complete_def A'_def)
  qed
  have no: "\<not> group_complete c A l j" using par(2) False by (auto simp: group_complete_def)
  have new: "(Suc l, j) \<notin> set (ta_emitted A)" using no tree_inv_emitted_iff [OF inv] by simp
  let ?e = "if l < top_level c \<and> group_complete c A' l j then [(Suc l, j)] else []"
  have st: "store c l i A = A'\<lparr>ta_emitted := ta_emitted A @ ?e\<rparr>"
    using False by (simp add: store_def Let_def A'_def j_def)
  have gcs: "group_complete c (A'\<lparr>ta_emitted := x\<rparr>) = group_complete c A'" for x
    by (intro ext) (simp add: group_complete_def)
  have mem: "(m, q) \<in> set (ta_emitted A) \<longleftrightarrow>
     (\<exists>k. m = Suc k \<and> k < top_level c \<and> q < level_count c m \<and> group_complete c A k q)" for m q
    using inv by (simp add: tree_inv_def)
  define E where "E = ta_emitted A @ ?e"
  have "(m, q) \<in> set E \<longleftrightarrow>
     (\<exists>k. m = Suc k \<and> k < top_level c \<and> q < level_count c m \<and> group_complete c A' k q)" for m q
    using mem [of m q] par(1) no unfolding E_def by (subst gc) auto
  moreover have "distinct E" using tree_inv_distinct [OF inv] new by (auto simp: E_def)
  moreover have "x < level_count c m \<and> m \<le> top_level c \<and> (m = 0 \<or> (m, x) \<in> set E) \<and>
      (2 \<le> m \<longrightarrow> ta_known A')" if "(m, x) \<in> ta_stored A'" for m x
    using that tree_inv_storedD [OF inv, of m x] i req by (auto simp: A'_def E_def)
  ultimately show ?thesis
    unfolding st E_def [symmetric] by (intro tree_invI) (simp_all add: gcs, blast)
qed (use inv in \<open>simp add: store_def\<close>)

lemma tree_inv_learn:
  assumes ok: "plan_ok c" and inv: "tree_inv c A"
  shows "tree_inv c (learn c A)"
proof (cases "ta_known A")
  case False
  let ?all = "\<lambda>l j. \<forall>i \<in> set (children c l j). (l, i) \<in> ta_stored A"
  let ?q = "\<lambda>l. level_count c l div fan_in c l"
  let ?new = "map (\<lambda>l. (Suc l, ?q l))
    (filter (\<lambda>l. 0 < level_count c l mod fan_in c l \<and> ?all l (?q l)) [0..<top_level c])"
  have le: "learn c A = A\<lparr>ta_known := True, ta_emitted := ta_emitted A @ ?new\<rparr>"
    using False by (simp add: learn_def)
  have gc: "group_complete c (A\<lparr>ta_known := True, ta_emitted := x\<rparr>) l j \<longleftrightarrow> ?all l j" for x l j
    by (simp add: group_complete_def)
  have old: "group_complete c A l j \<longleftrightarrow> Suc j * fan_in c l \<le> level_count c l \<and> ?all l j" for l j
    using False by (simp add: group_complete_def)
  have new: "(Suc k, j) \<in> set ?new \<longleftrightarrow> k < top_level c \<and> j < level_count c (Suc k) \<and>
      \<not> Suc j * fan_in c k \<le> level_count c k \<and> ?all k j" for k j
    using partial_group_last [OF ok, of j k] last_group_partial [OF ok, of k] by auto
  have new0: "(0, j) \<notin> set ?new" for j by auto
  have mem: "(m, j) \<in> set (ta_emitted A @ ?new) \<longleftrightarrow>
     (\<exists>k. m = Suc k \<and> k < top_level c \<and> j < level_count c m \<and> ?all k j)" for m j
    using tree_inv_emitted_iff [OF inv, of _ j] new [of _ j] new0 [of j] old inv
    by (cases m) (auto simp: tree_inv_def)
  have dn: "distinct ?new"
    by (auto simp: distinct_map inj_on_def)
  have "set (ta_emitted A) \<inter> set ?new = {}"
  proof (intro equals0I)
    fix x assume "x \<in> set (ta_emitted A) \<inter> set ?new"
    then obtain m j where x: "x = (m, j)" "(m, j) \<in> set (ta_emitted A)" "(m, j) \<in> set ?new"
      by (cases x) auto
    then show False
      using tree_inv_emitted_iff [OF inv, of _ j] new [of _ j] new0 [of j] old by (cases m) blast+
  qed
  then have d: "distinct (ta_emitted A @ ?new)" using dn tree_inv_distinct [OF inv] by simp
  define E where "E = ta_emitted A @ ?new"
  have E: "learn c A = A\<lparr>ta_known := True, ta_emitted := E\<rparr>" "distinct E"
      "set (ta_emitted A) \<subseteq> set E"
    using le d by (simp_all add: E_def)
  show ?thesis unfolding E(1)
    using E(2,3) mem [folded E_def] tree_inv_storedD [OF inv]
    by (intro tree_invI) (simp_all add: gc, blast)
qed (use inv in \<open>simp add: learn_def\<close>)

lemma tree_reach_inv: "plan_ok c \<Longrightarrow> tree_reach c A \<Longrightarrow> tree_inv c A"
  by (rotate_tac 1, induction rule: tree_reach.induct)
     (simp_all add: tree_inv_start tree_inv_store tree_inv_learn)

section \<open>Progress\<close>

text \<open>If the number of segments is known, all segments are stored and every requested item has been
  stored, then the item of the top level is stored: the tree never gets stuck.\<close>

lemma tree_all_stored:
  assumes ok: "plan_ok c" and inv: "tree_inv c A" and known: "ta_known A"
    and segs: "\<forall>i < tp_segments c. (0, i) \<in> ta_stored A"
    and ans: "set (ta_emitted A) \<subseteq> ta_stored A"
  shows "l \<le> top_level c \<Longrightarrow> j < level_count c l \<Longrightarrow> (l, j) \<in> ta_stored A"
proof (induction l arbitrary: j)
  case (Suc l)
  have "group_complete c A l j"
    using Suc known child_memD(2) [OF ok] by (auto simp: group_complete_def)
  then have "(Suc l, j) \<in> set (ta_emitted A)"
    using Suc.prems tree_inv_emitted_iff [OF inv] by simp
  then show ?case using ans by blast
qed (use segs in simp)

lemma tree_progress:
  assumes "plan_ok c" "tree_inv c A" "ta_known A" "\<forall>i < tp_segments c. (0, i) \<in> ta_stored A"
    "set (ta_emitted A) \<subseteq> ta_stored A"
  shows "(top_level c, 0) \<in> ta_stored A"
  using tree_all_stored [OF assms, of "top_level c" 0] level_count_top [OF assms(1)] by simp

text \<open>A finished tree has requested every item of every level above the segments, once.\<close>

lemma tree_emitted_all:
  assumes ok: "plan_ok c" and inv: "tree_inv c A" and known: "ta_known A"
    and segs: "\<forall>i < tp_segments c. (0, i) \<in> ta_stored A"
    and ans: "set (ta_emitted A) \<subseteq> ta_stored A"
  shows "set (ta_emitted A) = (SIGMA l : {1..top_level c}. {..<level_count c l})"
proof -
  have gc: "group_complete c A k j" if "k < top_level c" for k j
    using tree_all_stored [OF assms, of k] that known child_memD(2) [OF ok]
    by (auto simp: group_complete_def)
  have "(0, j) \<notin> set (ta_emitted A)" for j using inv by (simp add: tree_inv_def)
  then have "(l, j) \<in> set (ta_emitted A) \<longleftrightarrow> 1 \<le> l \<and> l \<le> top_level c \<and> j < level_count c l" for l j
    using tree_inv_emitted_iff [OF inv, of "l - 1" j] gc by (cases l) auto
  then show ?thesis by auto
qed

end
