(* ===== verification/Job_Run.thy ===== *)
theory Job_Run
  imports Result_Handler Tree_Spec
begin

text \<open>
  A whole job seen from the result handler: results are delivered in any order and any number of
  times, each either an input of the job (the execution result, the app proofs of its segments) or
  an answer to a request that was emitted. The simulation lemmas show that the handlers of
  \<open>Result_Handler\<close> implement the abstract tree of \<open>Tree_Spec\<close>; its invariant and progress lemma then
  give the properties of the concrete runs: each request is emitted once, with the right segment
  range and children, and a run whose requests have all been answered is ready for finalization.
  The one restriction is that the execution result precedes the first internal proof;
  \<open>late_execution_result_stalls\<close> shows what happens otherwise.
\<close>

section \<open>Runs\<close>

record job =
  jb_state :: proof_state
  jb_requests :: "general_prove_request list"

fun follow_ups :: "envelope_outcome outcome \<Rightarrow> general_prove_request list" where
  "follow_ups (Ok (Processed requests _)) = requests"
| "follow_ups _ = []"

definition deliver :: "build \<Rightarrow> clock \<Rightarrow> proof_result message_envelope \<Rightarrow> job \<Rightarrow> job" where
  "deliver b ck env J =
     (let (s, r) = handle_proof_result_with_envelope_outcome b ck env (jb_state J)
      in \<lparr>jb_state = s, jb_requests = jb_requests J @ follow_ups r\<rparr>)"

text \<open>The results nobody has to ask for: the execution result and the app proofs of a job with the
  segments of the plan.\<close>

fun job_input :: "tree_plan \<Rightarrow> proof_state \<Rightarrow> proof_result \<Rightarrow> bool" where
  "job_input c s (ExecuteE2Res _ st) =
     (e2_num_segments st = tp_segments c \<and> e2_cost st \<le> ps_cost_limit s)"
| "job_input c s (AppRes _ st) = (aps_proof st \<noteq> None \<and> aps_segment_idx st < tp_segments c)"
| "job_input c s _ = False"

text \<open>What a worker sends back for a request.\<close>

fun answers :: "general_prove_request \<Rightarrow> proof_result \<Rightarrow> bool" where
  "answers (LeafProveReq r) (LeafRes _ st) =
     (lps_proof st \<noteq> None \<and> lps_segment_start st = lpr_segment_start r \<and>
      lps_segment_end st = lpr_segment_end r)"
| "answers (InternalProveReq r) (InternalRes _ st) =
     (ips_proof st \<noteq> None \<and> ips_layer_idx st = ipr_layer_idx r \<and>
      ips_segment_start st = ipr_segment_start r \<and> ips_segment_end st = ipr_segment_end r \<and>
      (ips_ready_for_evm st \<or> \<not> (ipr_is_final_proof r \<and> pc_proof_type (ipr_context r) = Evm)))"
| "answers (EvmProveReq r) (EvmRes _ st) = (eps_proof st \<noteq> None)"
| "answers _ _ = False"

fun is_internal_result :: "proof_result \<Rightarrow> bool" where
  "is_internal_result (InternalRes _ _) = True"
| "is_internal_result _ = False"

definition fresh_state :: "tree_plan \<Rightarrow> proof_state \<Rightarrow> bool" where
  "fresh_state c s \<longleftrightarrow> ps_status s = InProgress \<and> ps_leaf_arity s = tp_leaf_arity c \<and>
     ps_internal_arity s = tp_internal_arity c \<and> ps_num_segments s = None \<and>
     ps_execute_e2_state s = None \<and> ps_app_proofs s = [] \<and> ps_leaf_proofs s = [] \<and>
     ps_internal_proofs s = [] \<and> ps_evm_proof s = None"

inductive job_run :: "tree_plan \<Rightarrow> build \<Rightarrow> job \<Rightarrow> bool" for c b where
  start: "fresh_state c s \<Longrightarrow> job_run c b \<lparr>jb_state = s, jb_requests = []\<rparr>"
| input: "job_run c b J \<Longrightarrow> job_input c (jb_state J) (me_message env) \<Longrightarrow>
    job_run c b (deliver b ck env J)"
| answer: "job_run c b J \<Longrightarrow> req \<in> set (jb_requests J) \<Longrightarrow> answers req (me_message env) \<Longrightarrow>
    is_internal_result (me_message env) \<longrightarrow> ps_num_segments (jb_state J) \<noteq> None \<Longrightarrow>
    job_run c b (deliver b ck env J)"

section \<open>Abstraction\<close>

fun item_stored :: "proof_state \<Rightarrow> nat \<Rightarrow> nat \<Rightarrow> bool" where
  "item_stored s 0 i = (map_of (ps_app_proofs s) i \<noteq> None)"
| "item_stored s (Suc 0) i = (map_of (ps_leaf_proofs s) (i * ps_leaf_arity s) \<noteq> None)"
| "item_stored s (Suc (Suc k)) i =
     (map_of (ps_internal_proofs s) \<lparr>ipi_layer_idx = k, ipi_idx = i\<rparr> \<noteq> None)"

fun request_items :: "tree_plan \<Rightarrow> general_prove_request \<Rightarrow> (nat \<times> nat) list" where
  "request_items c (LeafProveReq r) = [(1, lpr_segment_start r div tp_leaf_arity c)]"
| "request_items c (InternalProveReq r) =
     [(ipr_layer_idx r + 2,
       segment_start_to_internal_idx_with_batch (ipr_segment_start r) (ipr_layer_idx r)
         (tp_leaf_arity c) (tp_internal_arity c))]"
| "request_items c (EvmProveReq r) = []"

definition abs_job :: "tree_plan \<Rightarrow> job \<Rightarrow> tree_abs" where
  "abs_job c J =
     \<lparr>ta_known = (ps_num_segments (jb_state J) \<noteq> None),
      ta_stored = {(l, i). item_stored (jb_state J) l i},
      ta_emitted = concat (map (request_items c) (jb_requests J))\<rparr>"

text \<open>The number of segments below one item of a level, and the segments an item covers.\<close>

fun level_span :: "tree_plan \<Rightarrow> nat \<Rightarrow> nat" where
  "level_span c 0 = 1"
| "level_span c (Suc l) = level_span c l * fan_in c l"

definition first_segment :: "tree_plan \<Rightarrow> nat \<Rightarrow> nat \<Rightarrow> nat" where
  "first_segment c l j = j * level_span c l"

definition last_segment :: "tree_plan \<Rightarrow> nat \<Rightarrow> nat \<Rightarrow> nat" where
  "last_segment c l j = min (Suc j * level_span c l) (tp_segments c) - 1"

text \<open>What a request has to look like.\<close>

fun request_ok :: "tree_plan \<Rightarrow> general_prove_request \<Rightarrow> bool" where
  "request_ok c (LeafProveReq r) =
     (\<exists>j < level_count c 1. lpr_segment_start r = first_segment c 1 j \<and>
        lpr_segment_end r = last_segment c 1 j \<and>
        length (lpr_app_proofs r) = length (children c 0 j))"
| "request_ok c (InternalProveReq r) =
     (ipr_layer_idx r \<le> final_layer c \<and>
      (\<exists>j < level_count c (ipr_layer_idx r + 2).
         ipr_segment_start r = first_segment c (ipr_layer_idx r + 2) j \<and>
         ipr_segment_end r = last_segment c (ipr_layer_idx r + 2) j \<and>
         length (ipr_child_proofs r) = length (children c (ipr_layer_idx r + 1) j)) \<and>
      ipr_is_final_proof r = (ipr_layer_idx r = final_layer c))"
| "request_ok c (EvmProveReq r) = True"

definition is_evm_request :: "general_prove_request \<Rightarrow> bool" where
  "is_evm_request r \<longleftrightarrow> step_of_request r = EvmProve"

definition slots_ok :: "tree_plan \<Rightarrow> proof_state \<Rightarrow> bool" where
  "slots_ok c s \<longleftrightarrow>
     (\<forall>i st. map_of (ps_app_proofs s) i = Some st \<longrightarrow> i < tp_segments c) \<and>
     (\<forall>m st. map_of (ps_leaf_proofs s) m = Some st \<longrightarrow>
        (\<exists>j < level_count c 1. m = first_segment c 1 j \<and> lps_segment_end st = last_segment c 1 j)) \<and>
     (\<forall>k j st. map_of (ps_internal_proofs s) \<lparr>ipi_layer_idx = k, ipi_idx = j\<rparr> = Some st \<longrightarrow>
        k \<le> final_layer c \<and> j < level_count c (k + 2) \<and>
        ips_segment_start st = first_segment c (k + 2) j \<and>
        ips_segment_end st = last_segment c (k + 2) j)"

definition state_ok :: "tree_plan \<Rightarrow> proof_state \<Rightarrow> bool" where
  "state_ok c s \<longleftrightarrow> proof_state_wf s \<and> ps_status s = InProgress \<and>
     ps_leaf_arity s = tp_leaf_arity c \<and> ps_internal_arity s = tp_internal_arity c \<and>
     ps_num_segments s \<in> {None, Some (tp_segments c)} \<and> slots_ok c s"

definition job_inv :: "tree_plan \<Rightarrow> job \<Rightarrow> bool" where
  "job_inv c J \<longleftrightarrow> state_ok c (jb_state J) \<and> tree_inv c (abs_job c J) \<and>
     (\<forall>r \<in> set (jb_requests J). request_ok c r \<and> request_context r = ps_context (jb_state J)) \<and>
     length (filter is_evm_request (jb_requests J)) =
       (if pc_proof_type (ps_context (jb_state J)) = Evm \<and>
           item_stored (jb_state J) (top_level c) 0 then 1 else 0) \<and>
     (ps_evm_proof (jb_state J) \<noteq> None \<longrightarrow> (\<exists>r \<in> set (jb_requests J). is_evm_request r))"

section \<open>Spans\<close>

lemma level_span_leaf: "level_span c (Suc 0) = tp_leaf_arity c"
  by (simp add: fan_in_def)

lemma level_span_internal:
  "level_span c (Suc (Suc k)) = tp_internal_arity c ^ Suc k * tp_leaf_arity c"
  by (induction k) (simp_all add: fan_in_def mult.commute mult.left_commute)

lemma level_span_pos [simp]: "plan_ok c \<Longrightarrow> 0 < level_span c l"
  by (induction l) simp_all

lemma level_count_span:
  assumes "plan_ok c"
  shows "level_count c l = div_ceil (tp_segments c) (level_span c l)"
proof (induction l)
  case (Suc l)
  show ?case using assms by (simp add: Suc.IH div_ceil_div_ceil)
qed simp

lemma first_segment_less:
  "plan_ok c \<Longrightarrow> j < level_count c l \<Longrightarrow> first_segment c l j < tp_segments c"
  by (simp add: level_count_span first_segment_def less_div_ceil_iff)

lemma last_segment_less:
  assumes "plan_ok c"
  shows "last_segment c l j < tp_segments c"
proof -
  have "min (Suc j * level_span c l) (tp_segments c) \<le> tp_segments c" by simp
  then show ?thesis using plan_okD(1) [OF assms] unfolding last_segment_def by linarith
qed

lemma internal_idx_first_segment:
  "plan_ok c \<Longrightarrow> segment_start_to_internal_idx_with_batch (first_segment c (Suc (Suc k)) j) k
     (tp_leaf_arity c) (tp_internal_arity c) = j"
  by (simp add: first_segment_def level_span_internal internal_idx_closed del: level_span.simps)

lemma leaf_idx_first_segment:
  "plan_ok c \<Longrightarrow> first_segment c (Suc 0) j div tp_leaf_arity c = j"
  by (simp add: first_segment_def level_span_leaf del: level_span.simps)

lemma first_segment_child: "first_segment c (Suc l) j = first_segment c l (j * fan_in c l)"
  by (simp add: first_segment_def mult.commute mult.left_commute)

lemma last_segment_child:
  assumes ok: "plan_ok c" and j: "j < level_count c (Suc l)"
  shows "last_segment c (Suc l) j = last_segment c l (last (children c l j))"
proof -
  let ?f = "fan_in c l" and ?w = "level_span c l" and ?n = "tp_segments c"
  let ?m = "min (Suc j * ?f) (level_count c l)"
  have lt: "j * ?f < ?m" using children_nonempty(1) [OF ok j] by (simp add: children_def)
  then have "Suc (last (children c l j)) = ?m" by (simp add: children_def)
  moreover have "min (?m * ?w) ?n = min (Suc j * ?f * ?w) ?n"
  proof (cases "Suc j * ?f \<le> level_count c l")
    case False
    have "?n \<le> level_count c l * ?w"
      using ok by (metis div_ceil_le_iff level_count_span level_span_pos order_refl)
    moreover from this have "?n \<le> Suc j * ?f * ?w"
      using False by (meson mult_le_mono1 nat_le_linear order_trans)
    moreover have "?m = level_count c l" using False by simp
    ultimately show ?thesis by (simp only: min_absorb2)
  qed simp
  ultimately show ?thesis
    unfolding last_segment_def by (simp only: level_span.simps mult.assoc mult.commute [of ?w])
qed

section \<open>Scanning a group of children\<close>

text \<open>The indices a handler scans for the children of item \<open>j\<close> at level \<open>l\<close>.\<close>

definition scan :: "tree_plan \<Rightarrow> proof_state \<Rightarrow> nat \<Rightarrow> nat \<Rightarrow> nat list" where
  "scan c s l j =
     (if ps_num_segments s = None then [j * fan_in c l..<j * fan_in c l + fan_in c l]
      else children c l j)"

lemma upt_min_Suc:
  "0 < f \<Longrightarrow> 0 < m \<Longrightarrow> [a..<Suc (min (a + f - Suc 0) (m - Suc 0))] = [a..<min (f + a) m]"
  by (simp add: min_def add.commute del: upt_Suc)

lemma item_stored_bound:
  assumes "plan_ok c" "state_ok c s" "item_stored s l i"
  shows "i < level_count c l"
proof -
  have sl: "slots_ok c s" and la: "ps_leaf_arity s = tp_leaf_arity c" "0 < tp_leaf_arity c"
    using assms by (simp_all add: state_ok_def)
  consider "l = 0" | "l = Suc 0" | k where "l = Suc (Suc k)" by (metis not0_implies_Suc)
  then show ?thesis
  proof cases
    case 2
    with assms(3) la obtain st where "map_of (ps_leaf_proofs s) (i * tp_leaf_arity c) = Some st" by auto
    with sl obtain j where "j < level_count c 1" "i * tp_leaf_arity c = first_segment c 1 j"
      unfolding slots_ok_def by blast
    then show ?thesis using 2 la by (simp add: first_segment_def level_span_leaf del: level_span.simps)
  qed (use assms(3) sl in \<open>auto simp: slots_ok_def\<close>)
qed

lemma scan_complete:
  assumes ok: "plan_ok c" and st: "state_ok c s"
  shows "(\<forall>x \<in> set (scan c s l j). item_stored s l x) \<longleftrightarrow>
      (ps_num_segments s \<noteq> None \<or> Suc j * fan_in c l \<le> level_count c l) \<and>
      (\<forall>x \<in> set (children c l j). item_stored s l x)"
    "(\<forall>x \<in> set (scan c s l j). item_stored s l x) \<Longrightarrow> scan c s l j = children c l j"
proof -
  let ?f = "fan_in c l"
  have full: "Suc j * ?f \<le> level_count c l"
    if "\<forall>x \<in> set [j * ?f..<j * ?f + ?f]. item_stored s l x"
  proof -
    have "j * ?f + ?f - 1 \<in> set [j * ?f..<j * ?f + ?f]" using fan_in_pos [OF ok, of l] by simp
    then have "j * ?f + ?f - 1 < level_count c l" using that item_stored_bound [OF ok st] by blast
    then show ?thesis by simp
  qed
  have eq: "children c l j = [j * ?f..<j * ?f + ?f]" if "Suc j * ?f \<le> level_count c l"
    using that by (simp add: children_def min_def add.commute)
  show "(\<forall>x \<in> set (scan c s l j). item_stored s l x) \<longleftrightarrow>
      (ps_num_segments s \<noteq> None \<or> Suc j * ?f \<le> level_count c l) \<and>
      (\<forall>x \<in> set (children c l j). item_stored s l x)"
    using full eq by (auto simp: scan_def)
  show "scan c s l j = children c l j" if "\<forall>x \<in> set (scan c s l j). item_stored s l x"
    using that full eq by (auto simp: scan_def)
qed

lemma group_complete_scan:
  assumes "plan_ok c" "state_ok c (jb_state J)"
  shows "group_complete c (abs_job c J) l j \<longleftrightarrow>
    (\<forall>x \<in> set (scan c (jb_state J) l j). item_stored (jb_state J) l x)"
  unfolding scan_complete(1) [OF assms] by (simp add: group_complete_def abs_job_def)

text \<open>The request for leaf \<open>j\<close>, from its stored segments.\<close>

definition leaf_request :: "tree_plan \<Rightarrow> proof_state \<Rightarrow> nat \<Rightarrow> general_prove_request" where
  "leaf_request c s j =
     LeafProveReq
       \<lparr>lpr_context = ps_context s,
        lpr_app_proofs = map (\<lambda>x. the (aps_proof (the (map_of (ps_app_proofs s) x)))) (children c 0 j),
        lpr_segment_start = first_segment c (Suc 0) j,
        lpr_segment_end = last_segment c (Suc 0) j\<rparr>"

lemma request_leaf_batch_eq:
  assumes ok: "plan_ok c" and st: "state_ok c s" and i: "i < tp_segments c"
  defines "j \<equiv> i div tp_leaf_arity c"
  shows "request_leaf_batch s i =
    (if \<forall>x \<in> set (scan c s 0 j). item_stored s 0 x
     then [leaf_request c s j] else [])"
proof -
  let ?la = "tp_leaf_arity c" and ?n = "tp_segments c"
  have la: "ps_leaf_arity s = ?la" "fan_in c 0 = ?la" "0 < ?la" and n: "0 < ?n"
    using st ok by (simp_all add: state_ok_def fan_in_def)
  have all: "hm_all (\<lambda>st. aps_proof st \<noteq> None) (ps_app_proofs s)"
    using st by (simp add: state_ok_def proof_state_wf_def)
  have lt: "j * ?la < ?n" unfolding j_def using i by (meson div_times_less_eq_dividend le_less_trans)
  have fs: "first_segment c (Suc 0) j = j * ?la"
    by (simp add: first_segment_def level_span_leaf del: level_span.simps)
  have ls: "last_segment c (Suc 0) j = min (Suc j * ?la) ?n - 1"
    by (simp add: last_segment_def level_span_leaf del: level_span.simps)
  have nl: "\<not> x + ?la - Suc 0 < x" for x using la(3) by simp
  have nl2: "\<not> ?n - Suc 0 < j * ?la" using lt by linarith
  note sc = scan_complete [OF ok st, of 0 j]
  show ?thesis
  proof (cases "ps_num_segments s")
    case None
    have "request_leaf_batch s i =
      (case collect_app_proofs (ps_app_proofs s) (scan c s 0 j) of None \<Rightarrow> []
       | Some ps \<Rightarrow> [LeafProveReq \<lparr>lpr_context = ps_context s, lpr_app_proofs = ps,
            lpr_segment_start = j * ?la, lpr_segment_end = j * ?la + ?la - 1\<rparr>])"
      using None la
      by (simp add: request_leaf_batch_def Let_def scan_def j_def [symmetric] nl split: option.split)
    then show ?thesis
      using sc None la n by (auto simp: leaf_request_def collect_app_proofs_eq [OF all] fs ls min_def add.commute)
  next
    case (Some m)
    then have m: "m = ?n" using st by (simp add: state_ok_def)
    have "request_leaf_batch s i =
      (case collect_app_proofs (ps_app_proofs s) (scan c s 0 j) of None \<Rightarrow> []
       | Some ps \<Rightarrow> [LeafProveReq \<lparr>lpr_context = ps_context s, lpr_app_proofs = ps,
            lpr_segment_start = j * ?la, lpr_segment_end = min (j * ?la + ?la - 1) (?n - 1)\<rparr>])"
      using Some la n nl2 upt_min_Suc [OF la(3) n, of "j * ?la"]
      by (simp add: request_leaf_batch_def Let_def scan_def j_def [symmetric] m children_def
          min_less_iff_disj nl del: upt_Suc split: option.split)
    moreover have "min (j * ?la + ?la - 1) (?n - 1) = last_segment c (Suc 0) j"
      using la n by (simp add: ls min_def add.commute)
    ultimately show ?thesis
      using sc Some by (auto simp: leaf_request_def collect_app_proofs_eq [OF all] fs)
  qed
qed

text \<open>The request for item \<open>j\<close> of internal layer \<open>k\<close>, from its stored children.\<close>

definition child_payload :: "proof_state \<Rightarrow> nat \<Rightarrow> nat \<Rightarrow> bytes" where
  "child_payload s k x =
     (if k = 0 then the (lps_proof (the (map_of (ps_leaf_proofs s) (x * ps_leaf_arity s))))
      else the (ips_proof (the (map_of (ps_internal_proofs s) \<lparr>ipi_layer_idx = k - 1, ipi_idx = x\<rparr>))))"

definition internal_request :: "tree_plan \<Rightarrow> proof_state \<Rightarrow> nat \<Rightarrow> nat \<Rightarrow> general_prove_request" where
  "internal_request c s k j =
     InternalProveReq
       \<lparr>ipr_context = ps_context s,
        ipr_child_proofs = map (child_payload s k) (children c (Suc k) j),
        ipr_layer_idx = k,
        ipr_segment_start = first_segment c (Suc (Suc k)) j,
        ipr_segment_end = last_segment c (Suc (Suc k)) j,
        ipr_is_final_proof = (k = final_layer c),
        ipr_deferral_tail =
          (if k = final_layer c then build_deferral_tail_dispatch s k else None),
        ipr_deferral_merkle_proofs_bytes =
          (if k = final_layer c then ps_deferral_depth0_merkle_proofs_bytes s else None)\<rparr>"

lemma final_layer_pos: "0 < final_layer c"
  by (simp add: final_layer_def)

lemma last_children:
  assumes "plan_ok c" "j < level_count c (Suc l)"
  shows "last (children c l j) \<in> set (children c l j)"
  using children_nonempty(2) [OF assms] by (rule last_in_set)

lemma leaf_slot_end:
  assumes "plan_ok c" "state_ok c s" "item_stored s (Suc 0) x"
  shows "lps_segment_end (the (map_of (ps_leaf_proofs s) (x * ps_leaf_arity s))) = last_segment c (Suc 0) x"
proof -
  obtain st where st: "map_of (ps_leaf_proofs s) (x * ps_leaf_arity s) = Some st" using assms(3) by auto
  moreover have "slots_ok c s" "ps_leaf_arity s = tp_leaf_arity c" using assms(2) by (simp_all add: state_ok_def)
  ultimately obtain j where j: "x * tp_leaf_arity c = first_segment c 1 j"
      "lps_segment_end st = last_segment c 1 j"
    unfolding slots_ok_def by metis
  have "x = j" using j(1) plan_okD(2) [OF assms(1)]
    by (simp add: first_segment_def level_span_leaf del: level_span.simps)
  then show ?thesis using st j(2) by simp
qed

lemma collect_leaves_children:
  assumes ok: "plan_ok c" and st: "state_ok c s" and j: "j < level_count c (Suc (Suc 0))"
  shows "collect_leaf_proofs (ps_leaf_proofs s) (tp_leaf_arity c) (scan c s (Suc 0) j) e [] =
    Ok (if \<forall>x \<in> set (scan c s (Suc 0) j). item_stored s (Suc 0) x
        then Some (map (child_payload s 0) (children c (Suc 0) j), last_segment c (Suc (Suc 0)) j)
        else None)"
proof -
  have all: "hm_all (\<lambda>st. lps_proof st \<noteq> None) (ps_leaf_proofs s)"
    and la: "ps_leaf_arity s = tp_leaf_arity c"
    using st by (simp_all add: state_ok_def proof_state_wf_def)
  show ?thesis
  proof (cases "\<forall>x \<in> set (scan c s (Suc 0) j). item_stored s (Suc 0) x")
    case True
    then have sc: "scan c s (Suc 0) j = children c (Suc 0) j"
      using scan_complete(2) [OF ok st] by blast
    have "lps_segment_end (the (map_of (ps_leaf_proofs s) (last (children c (Suc 0) j) * tp_leaf_arity c)))
        = last_segment c (Suc (Suc 0)) j"
      using leaf_slot_end [OF ok st, of "last (children c (Suc 0) j)"] True
        last_children [OF ok j] last_segment_child [OF ok j] la by (simp add: sc)
    then show ?thesis using True children_nonempty(2) [OF ok j] la
      by (simp add: collect_leaf_proofs_eq [OF all] sc child_payload_def)
  next
    case False
    then show ?thesis using la by (auto simp: collect_leaf_proofs_eq [OF all])
  qed
qed

lemma request_leaf_group_eq:
  assumes ok: "plan_ok c" and st: "state_ok c s" and i: "i < level_count c (Suc 0)"
  defines "j \<equiv> i div tp_internal_arity c"
  shows "request_leaf_group s (first_segment c (Suc 0) i) =
    Ok (if \<forall>x \<in> set (scan c s (Suc 0) j). item_stored s (Suc 0) x
        then [internal_request c s 0 j] else [])"
proof -
  let ?la = "tp_leaf_arity c" and ?a = "tp_internal_arity c" and ?L = "level_count c (Suc 0)"
  have ar: "ps_leaf_arity s = ?la" "ps_internal_arity s = ?a" "fan_in c (Suc 0) = ?a" "0 < ?a"
      "ps_num_segments s \<noteq> Some 0"
    using st ok by (simp_all add: state_ok_def fan_in_def proof_state_wf_def)
  have j: "j < level_count c (Suc (Suc 0))"
    using child_parent(1) [OF ok i] by (simp add: j_def ar del: level_count.simps)
  have fs: "first_segment c (Suc (Suc 0)) j = j * ?a * ?la"
    by (simp add: first_segment_def level_span_internal del: level_span.simps)
  have li: "first_segment c (Suc 0) i div ?la div ?a = j"
    using leaf_idx_first_segment [OF ok] by (simp add: j_def)
  have nl: "\<not> x + ?a - Suc 0 < x" for x using ar by simp
  note col = collect_leaves_children [OF ok st j]
  have req: "request_leaf_group s (first_segment c (Suc 0) i) =
    (case collect_leaf_proofs (ps_leaf_proofs s) ?la (scan c s (Suc 0) j) (j * ?a * ?la) [] of
       Err e \<Rightarrow> Err e | Panic p \<Rightarrow> Panic p | Ok None \<Rightarrow> Ok []
     | Ok (Some (proofs, e)) \<Rightarrow>
         Ok [InternalProveReq
               \<lparr>ipr_context = ps_context s, ipr_child_proofs = proofs, ipr_layer_idx = 0,
                ipr_segment_start = j * ?a * ?la, ipr_segment_end = e, ipr_is_final_proof = False,
                ipr_deferral_tail = None, ipr_deferral_merkle_proofs_bytes = None\<rparr>])"
  proof (cases "ps_num_segments s")
    case None
    then show ?thesis using ar
      by (simp add: request_leaf_group_def Let_def li scan_def nl
          split: option.split outcome.split prod.split)
  next
    case (Some n)
    then have n: "n = tp_segments c" using st by (simp add: state_ok_def)
    have "j * ?a < ?L" using j ar(4) by (simp add: less_div_ceil_iff fan_in_def)
    then have nl2: "\<not> ?L - Suc 0 < j * ?a" by linarith
    show ?thesis
      using Some ar nl2 upt_min_Suc [OF ar(4) level_count_pos [OF ok, of "Suc 0"], of "j * ?a"]
      by (simp add: request_leaf_group_def Let_def li scan_def n children_def min_less_iff_disj nl
          level_count_leaf [symmetric] del: upt_Suc level_count.simps
          split: option.split outcome.split prod.split)
  qed
  show ?thesis
    using final_layer_pos [of c] unfolding req col by (simp add: internal_request_def fs)
qed

section \<open>Internal layers\<close>

lemma fold_min_mono:
  fixes f :: "nat \<Rightarrow> nat"
  assumes "lo < hi" "\<And>x y. x \<le> y \<Longrightarrow> f x \<le> f y" "f lo \<le> b"
  shows "fold (\<lambda>i. min (f i)) [lo..<hi] b = f lo"
  using assms(1)
proof (induction hi)
  case (Suc hi)
  then show ?case
  proof (cases "lo = hi")
    case False
    then have "lo < hi" using Suc.prems by simp
    then show ?thesis using Suc.IH assms(2) [of lo hi] by (simp add: min_def)
  qed (use assms(3) in \<open>simp add: min_def\<close>)
qed simp

lemma fold_max_mono:
  fixes f :: "nat \<Rightarrow> nat"
  assumes "lo < hi" "\<And>x y. x \<le> y \<Longrightarrow> f x \<le> f y"
  shows "fold (\<lambda>i. max (f i)) [lo..<hi] 0 = f (hi - 1)"
  using assms(1)
proof (induction hi)
  case (Suc hi)
  then show ?case
  proof (cases "lo = hi")
    case False
    then have "lo < hi" using Suc.prems by simp
    moreover have "f (hi - 1) \<le> f hi" by (rule assms(2)) simp
    ultimately show ?thesis using Suc.IH by (simp add: max_def)
  qed simp
qed simp

lemma first_segment_mono: "x \<le> y \<Longrightarrow> first_segment c l x \<le> first_segment c l y"
  by (simp add: first_segment_def)

lemma last_segment_mono: "x \<le> y \<Longrightarrow> last_segment c l x \<le> last_segment c l y"
proof -
  assume "x \<le> y"
  then have "Suc x * level_span c l \<le> Suc y * level_span c l" by (intro mult_le_mono1) simp
  then have "min (Suc x * level_span c l) (tp_segments c) \<le> min (Suc y * level_span c l) (tp_segments c)"
    by (intro min.mono) simp_all
  then show ?thesis unfolding last_segment_def by (rule diff_le_mono)
qed

lemma internal_slot_range:
  assumes "state_ok c s" "item_stored s (Suc (Suc k)) x"
  defines "st \<equiv> the (map_of (ps_internal_proofs s) \<lparr>ipi_layer_idx = k, ipi_idx = x\<rparr>)"
  shows "ips_segment_start st = first_segment c (Suc (Suc k)) x"
    "ips_segment_end st = last_segment c (Suc (Suc k)) x"
  using assms by (auto simp: state_ok_def slots_ok_def)

lemma children_upt:
  assumes "plan_ok c" "j < level_count c (Suc l)"
  obtains hi where "children c l j = [j * fan_in c l..<hi]" "j * fan_in c l < hi"
    "last (children c l j) = hi - 1"
proof
  let ?hi = "min (Suc j * fan_in c l) (level_count c l)"
  show "children c l j = [j * fan_in c l..<?hi]" by (simp add: children_def)
  show lt: "j * fan_in c l < ?hi" using children_nonempty(1) [OF assms] by (simp add: children_def)
  show "last (children c l j) = ?hi - 1" using lt by (simp add: children_def del: mult_Suc)
qed

lemma collect_internal_children:
  assumes ok: "plan_ok c" and st: "state_ok c s" and j: "j < level_count c (Suc (Suc (Suc k)))"
  shows "collect_internal_proofs (ps_internal_proofs s) k (children c (Suc (Suc k)) j) usize_max 0 [] =
    Ok (if \<forall>x \<in> set (children c (Suc (Suc k)) j). item_stored s (Suc (Suc k)) x
        then Some (map (child_payload s (Suc k)) (children c (Suc (Suc k)) j),
                   first_segment c (Suc (Suc (Suc k))) j, last_segment c (Suc (Suc (Suc k))) j)
        else None)"
proof -
  let ?l = "Suc (Suc k)"
  let ?at = "\<lambda>x. the (map_of (ps_internal_proofs s) \<lparr>ipi_layer_idx = k, ipi_idx = x\<rparr>)"
  have all: "hm_all (\<lambda>st. ips_proof st \<noteq> None) (ps_internal_proofs s)"
    using st by (simp add: state_ok_def proof_state_wf_def)
  obtain hi where ch: "children c ?l j = [j * fan_in c ?l..<hi]" "j * fan_in c ?l < hi"
    "last (children c ?l j) = hi - 1" using children_upt [OF ok j] by blast
  show ?thesis
  proof (cases "\<forall>x \<in> set (children c ?l j). item_stored s ?l x")
    case True
    have "first_segment c ?l (j * fan_in c ?l) < tp_segments c"
      using child_memD(2) [OF ok children_nonempty(1) [OF ok j]] first_segment_less [OF ok] by blast
    then have bound: "first_segment c ?l (j * fan_in c ?l) \<le> usize_max"
      using plan_ok_usize [OF ok] unfolding usize_max_def by linarith
    have "fold (\<lambda>i. min (ips_segment_start (?at i))) (children c ?l j) usize_max =
        fold (\<lambda>i. min (first_segment c ?l i)) (children c ?l j) usize_max"
      by (intro List.fold_cong) (use True internal_slot_range(1) [OF st, of k] in simp_all)
    also have "\<dots> = first_segment c ?l (j * fan_in c ?l)"
      unfolding ch(1) using ch(2) first_segment_mono bound by (rule fold_min_mono)
    finally have 1: "fold (\<lambda>i. min (ips_segment_start (?at i))) (children c ?l j) usize_max =
        first_segment c (Suc ?l) j" by (simp only: first_segment_child)
    have "fold (\<lambda>i. max (ips_segment_end (?at i))) (children c ?l j) 0 =
        fold (\<lambda>i. max (last_segment c ?l i)) (children c ?l j) 0"
      by (intro List.fold_cong) (use True internal_slot_range(2) [OF st, of k] in simp_all)
    also have "\<dots> = last_segment c ?l (hi - 1)"
      unfolding ch(1) using ch(2) last_segment_mono by (rule fold_max_mono)
    finally have 2: "fold (\<lambda>i. max (ips_segment_end (?at i))) (children c ?l j) 0 =
        last_segment c (Suc ?l) j" using last_segment_child [OF ok j] ch(3) by simp
    show ?thesis using True 1 2 by (simp add: collect_internal_proofs_eq [OF all] child_payload_def)
  qed (auto simp: collect_internal_proofs_eq [OF all])
qed

lemma num_proofs_at_level:
  assumes ok: "plan_ok c" and k: "k < final_layer c" and nl: "num_internal_layers (level_count c (Suc 0)) (tp_internal_arity c) \<noteq> 1"
  shows "num_proofs_at_internal_layer_for_leaf_count (level_count c (Suc 0)) k (tp_internal_arity c) =
    level_count c (Suc (Suc k))"
proof -
  have "level_count c (Suc 0) \<noteq> 1" using nl by auto
  moreover have "k < num_internal_layers (level_count c (Suc 0)) (tp_internal_arity c)"
    using k nl num_internal_layers_pos [OF plan_okD(3) [OF ok], of "level_count c (Suc 0)"]
    by (simp add: final_layer_def level_count_leaf [symmetric] del: level_count.simps)
  ultimately show ?thesis
    using ok level_count_pos [OF ok, of "Suc 0"]
    by (simp add: num_proofs_at_eq level_count_internal del: level_count.simps)
qed

lemma internal_follow_up_eq:
  assumes ok: "plan_ok c" and st: "state_ok c s" and known: "ps_num_segments s \<noteq> None"
    and k: "ips_layer_idx st = k" "k \<le> final_layer c" and i: "i < level_count c (Suc (Suc k))"
    and slot: "map_of (ps_internal_proofs s) \<lparr>ipi_layer_idx = k, ipi_idx = i\<rparr> = Some st"
  defines "j \<equiv> i div tp_internal_arity c"
  shows "internal_follow_up s st i =
    (if k = final_layer c then
       (if pc_proof_type (ps_context s) = Evm then
          (if ips_ready_for_evm st then Ok [build_evm_prove_request s st]
           else Err (''Evm proof '' @ pc_proof_uuid (ps_context s) @
                     '' reached the final internal layer without a ready-for-evm '' @
                     ''(post-merge) proof; cannot dispatch the EVM step''))
        else Ok [])
     else Ok (if \<forall>x \<in> set (children c (Suc (Suc k)) j). item_stored s (Suc (Suc k)) x
              then [internal_request c s (Suc k) j] else []))"
proof -
  let ?la = "tp_leaf_arity c" and ?a = "tp_internal_arity c" and ?L = "level_count c (Suc 0)"
  let ?l = "Suc (Suc k)" and ?nl = "num_internal_layers (level_count c (Suc 0)) (tp_internal_arity c)"
  have ar: "ps_leaf_arity s = ?la" "ps_internal_arity s = ?a" "0 < ?a" "fan_in c ?l = ?a"
    and n: "ps_num_segments s = Some (tp_segments c)"
    using st ok known by (auto simp: state_ok_def fan_in_def)
  have F: "max ?nl 2 - Suc 0 = final_layer c"
    by (simp add: final_layer_def level_count_leaf [symmetric] del: level_count.simps)
  have L: "div_ceil (tp_segments c) ?la = ?L" by (simp add: fan_in_def)
  have j: "j < level_count c (Suc ?l)" "i \<in> set (children c ?l j)"
    using child_parent [OF ok i] ar(4) by (simp_all add: j_def del: level_count.simps)
  have pf: "ips_proof st \<noteq> None"
    using st slot by (auto simp: state_ok_def proof_state_wf_def dest: hm_all_get)
  note rng = internal_slot_range [OF st, of k i]
  consider "k = final_layer c" | "k < final_layer c" "?nl = 1" | "k < final_layer c" "?nl \<noteq> 1"
    using k(2) by fastforce
  then show ?thesis
  proof cases
    case 1
    then show ?thesis using F L n ar k(1) by (simp add: internal_follow_up_def Let_def)
  next
    case 2
    then have k0: "k = 0" and F1: "final_layer c = Suc 0" using F by simp_all
    have "level_count c (Suc (Suc (Suc 0))) = 1" using level_count_top [OF ok] F1 by (simp add: top_level_def)
    have "?L \<le> ?a" 
      using num_internal_layers_spec(1) [OF plan_okD(3) [OF ok], of ?L] 2(2) ar(3)
      by (cases "1 < ?L") simp_all
    then have c1: "level_count c (Suc (Suc 0)) \<le> 1"
      using ar(3) by (simp only: level_count.simps(2) [of c "Suc 0"] fan_in_def) (simp add: div_ceil_le_iff)
    then have i0: "i = 0" "level_count c (Suc (Suc 0)) = Suc 0" using i k0 by simp_all
    have j0: "j = 0" using i0 by (simp add: j_def)
    have ch: "children c (Suc (Suc 0)) 0 = [0]"
      using i0(2) ar(3) by (simp add: children_def fan_in_def del: level_count.simps)
    have st1: "item_stored s ?l i" using slot by simp
    have "first_segment c (Suc (Suc (Suc 0))) 0 = ips_segment_start st"
      "last_segment c (Suc (Suc (Suc 0))) 0 = ips_segment_end st"
      using rng [OF st1] slot k0 i0 last_segment_child [OF ok, of 0 "Suc (Suc 0)"] ch ok
      by (simp_all add: first_segment_def del: level_count.simps)
    then show ?thesis
      using 2 F L n ar k k0 F1 pf i0 slot
      by (auto simp: internal_follow_up_def Let_def internal_request_def ch j0 child_payload_def
          simp del: upt_Suc)
  next
    case 3
    note N = num_proofs_at_level [OF ok 3]
    have np: "0 < level_count c ?l" using ok by simp
    have "j * ?a < level_count c ?l" using j(1) ar by (simp add: less_div_ceil_iff del: level_count.simps(2) [of c k] del: level_count.simps(2) [of c "Suc k"])
    then have nl2: "\<not> level_count c ?l - Suc 0 < j * ?a" by linarith
    have nl: "\<not> x + ?a - Suc 0 < x" for x using ar by simp
    have ch: "[j * ?a..<Suc (min (j * ?a + ?a - Suc 0) (level_count c ?l - Suc 0))] = children c ?l j"
      using upt_min_Suc [OF ar(3) np, of "j * ?a"] by (simp add: children_def ar del: upt_Suc level_count.simps)
    have "internal_follow_up s st i = request_parent s k (j * ?a)
        (min (j * ?a + ?a - Suc 0) (level_count c ?l - Suc 0)) (Suc k = final_layer c)"
      using 3 F L n ar k np N
      by (simp add: internal_follow_up_def Let_def j_def [symmetric] del: level_count.simps)
    also have "\<dots> = Ok (if \<forall>x \<in> set (children c ?l j). item_stored s ?l x
        then [internal_request c s (Suc k) j] else [])"
      using nl nl2 collect_internal_children [OF ok st j(1)]
      by (simp add: request_parent_def ch min_less_iff_disj internal_request_def
          del: upt_Suc level_count.simps)
    finally show ?thesis using 3 by simp
  qed
qed

lemma concat_outcomes_Nil: "(\<And>x. x \<in> set xs \<Longrightarrow> f x = Ok []) \<Longrightarrow> concat_outcomes (map f xs) = Ok []"
  by (induction xs) simp_all

section \<open>The tails, once the number of segments is known\<close>

lemma last_group_children:
  assumes "plan_ok c" "0 < level_count c l mod fan_in c l"
  shows "children c l (level_count c l div fan_in c l) =
    [level_count c l div fan_in c l * fan_in c l..<level_count c l]"
  using last_group_partial(2) [OF assms] by (simp add: children_def min_def)

lemma flush_eq:
  assumes ok: "plan_ok c" and st: "state_ok c s" and known: "ps_num_segments s \<noteq> None"
  defines "q \<equiv> tp_segments c div tp_leaf_arity c"
  shows "flush_pending_leaf_batches s =
    (if 0 < tp_segments c mod tp_leaf_arity c \<and> \<not> item_stored s (Suc 0) q \<and>
        (\<forall>x \<in> set (children c 0 q). item_stored s 0 x)
     then [leaf_request c s q] else [])"
proof -
  let ?n = "tp_segments c" and ?la = "tp_leaf_arity c"
  have la: "ps_leaf_arity s = ?la" "fan_in c 0 = ?la" and n: "ps_num_segments s = Some ?n"
    and all: "hm_all (\<lambda>st. aps_proof st \<noteq> None) (ps_app_proofs s)"
    using st known by (auto simp: state_ok_def fan_in_def proof_state_wf_def)
  show ?thesis
  proof (cases "0 < ?n mod ?la")
    case True
    then have ch: "children c 0 q = [q * ?la..<?n]" and le: "\<not> Suc q * ?la \<le> ?n"
      using last_group_children [OF ok, of 0] last_group_partial(2) [OF ok, of 0] la
      by (simp_all add: q_def)
    have ne: "children c 0 q \<noteq> []"
      using children_nonempty(2) [OF ok, of q 0] last_group_partial(1) [OF ok, of 0] la True
      by (simp add: q_def)
    have rng: "[q * ?la..<Suc (?n - Suc 0)] = children c 0 q" using plan_okD(1) [OF ok] ch by simp
    have seg: "first_segment c (Suc 0) q = q * ?la" "last_segment c (Suc 0) q = ?n - Suc 0"
      using le by (simp_all add: first_segment_def last_segment_def level_span_leaf del: level_span.simps)
    show ?thesis
      using True ne by (auto simp: flush_pending_leaf_batches_def Let_def n la q_def [symmetric] rng seg
          collect_app_proofs_eq [OF all] leaf_request_def simp del: upt_Suc)
  qed (simp add: flush_pending_leaf_batches_def Let_def n la)
qed

lemma tail_request_0:
  assumes ok: "plan_ok c" and st: "state_ok c s" and known: "ps_num_segments s \<noteq> None"
    and F: "0 < F"
  defines "L \<equiv> level_count c (Suc 0)"
  defines "q \<equiv> L div tp_internal_arity c"
  shows "tail_request_at s L F 0 =
    Ok (if 0 < L mod tp_internal_arity c \<and> \<not> item_stored s (Suc (Suc 0)) q \<and>
           (\<forall>x \<in> set (children c (Suc 0) q). item_stored s (Suc 0) x)
        then [internal_request c s 0 q] else [])"
proof -
  let ?a = "tp_internal_arity c" and ?la = "tp_leaf_arity c"
  have ar: "ps_leaf_arity s = ?la" "ps_internal_arity s = ?a" "fan_in c (Suc 0) = ?a"
    using st by (simp_all add: state_ok_def fan_in_def)
  show ?thesis
  proof (cases "0 < L mod ?a")
    case True
    then have ch: "children c (Suc 0) q = [q * ?a..<L]" and q: "q < level_count c (Suc (Suc 0))"
      using last_group_children [OF ok, of "Suc 0"] last_group_partial(1) [OF ok, of "Suc 0"] ar
      by (simp_all add: q_def L_def del: level_count.simps)
    have st0: "L - L mod ?a = q * ?a" by (simp add: q_def minus_mod_eq_div_mult)
    have fs: "first_segment c (Suc (Suc 0)) q = q * ?a * ?la"
      by (simp add: first_segment_def level_span_internal del: level_span.simps)
    have sc: "scan c s (Suc 0) q = children c (Suc 0) q" using known by (auto simp: scan_def)
    have rng: "[q * ?a..<q * ?a + L mod ?a] = scan c s (Suc 0) q"
      unfolding sc ch using st0 by (simp add: q_def)
    show ?thesis
      using True F collect_leaves_children [OF ok st q, of "q * ?a * ?la"] final_layer_pos [of c]
      by (auto simp: tail_request_at_def Let_def ar st0 rng q_def [symmetric] fs internal_request_def
          sc [symmetric])
  qed (simp add: tail_request_at_def Let_def ar)
qed

lemma tail_request_Suc:
  assumes none: "\<And>k x. \<not> item_stored s (Suc (Suc k)) x"
  shows "tail_request_at s L F (Suc k) = Ok []"
proof -
  have m: "map_of (ps_internal_proofs s) \<lparr>ipi_layer_idx = k, ipi_idx = x\<rparr> = None" for x
    using none [of k x] by simp
  have col: "collect_tail_internal_proofs (ps_internal_proofs s) k [a..<b] e [] = Ok None"
    if "a < b" for a b e
    using that by (simp add: m upt_conv_Cons del: upt_Suc)
  have lt: "N - N mod d < N" if "0 < N mod d" for N d :: nat
    using that by (metis diff_less gr0I mod_0)
  show ?thesis by (simp add: tail_request_at_def Let_def col lt)
qed

lemma trigger_eq:
  assumes ok: "plan_ok c" and st: "state_ok c s" and known: "ps_num_segments s \<noteq> None"
    and none: "\<And>k x. \<not> item_stored s (Suc (Suc k)) x"
  defines "L \<equiv> level_count c (Suc 0)"
  defines "q \<equiv> L div tp_internal_arity c"
  shows "trigger_tail_proofs s =
    Ok (if 0 < L mod tp_internal_arity c \<and> (\<forall>x \<in> set (children c (Suc 0) q). item_stored s (Suc 0) x)
        then [internal_request c s 0 q] else [])"
proof -
  let ?a = "tp_internal_arity c" and ?la = "tp_leaf_arity c"
  let ?nl = "num_internal_layers L ?a" and ?F = "max (num_internal_layers L ?a) 2 - 1"
  have ar: "ps_leaf_arity s = ?la" "ps_internal_arity s = ?a" and n: "ps_num_segments s = Some (tp_segments c)"
    using st known by (auto simp: state_ok_def)
  have L: "div_ceil (tp_segments c) ?la = L" by (simp add: L_def fan_in_def)
  obtain m where m: "?nl = Suc m" using num_internal_layers_pos [OF plan_okD(3) [OF ok], of L] gr0_implies_Suc by blast
  have z: "concat_outcomes (map (tail_request_at s L F) [Suc 0..<Suc m]) = Ok []" for F
  proof (rule concat_outcomes_Nil)
    fix x assume "x \<in> set [Suc 0..<Suc m]"
    then have "Suc 0 \<le> x" by (simp only: set_upt atLeastLessThan_iff)
    then obtain k where "x = Suc k" by (cases x) simp_all
    then show "tail_request_at s L F x = Ok []" using tail_request_Suc [OF none] by simp
  qed
  have "trigger_tail_proofs s = concat_outcomes (map (tail_request_at s L ?F) [0..<?nl])"
    by (simp add: trigger_tail_proofs_def Let_def n ar L)
  also have "[0..<?nl] = 0 # [Suc 0..<Suc m]" unfolding m by (rule upt_conv_Cons) simp
  also have "concat_outcomes (map (tail_request_at s L ?F) (0 # [Suc 0..<Suc m])) = tail_request_at s L ?F 0"
    using z [of ?F] by (cases "tail_request_at s L ?F 0") (simp_all del: upt_Suc)
  finally show ?thesis
    using tail_request_0 [OF ok st known, of ?F, folded L_def, folded q_def] none by simp
qed

section \<open>Simulation\<close>

lemma item_stored_cong:
  assumes "ps_app_proofs s = ps_app_proofs t" "ps_leaf_proofs s = ps_leaf_proofs t"
    "ps_internal_proofs s = ps_internal_proofs t" "ps_leaf_arity s = ps_leaf_arity t"
  shows "item_stored s l i = item_stored t l i"
proof -
  consider "l = 0" | "l = Suc 0" | k where "l = Suc (Suc k)" by (metis not0_implies_Suc)
  then show ?thesis using assms by cases simp_all
qed

lemma state_ok_frame [simp]:
  "state_ok c (s\<lparr>ps_last_updated := t\<rparr>) = state_ok c s"
  "state_ok c (s\<lparr>ps_late_result_notice_emitted := v\<rparr>) = state_ok c s"
  "state_ok c (record_completion t s) = state_ok c s"
  "state_ok c (s\<lparr>ps_app_prove_started_at := x, ps_app_prove_ended_at := y\<rparr>) = state_ok c s"
  "state_ok c (s\<lparr>ps_leaf_prove_started_at := x, ps_leaf_prove_ended_at := y\<rparr>) = state_ok c s"
  "state_ok c (s\<lparr>ps_internal_prove_started_at := x, ps_internal_prove_ended_at := y\<rparr>) = state_ok c s"
  "state_ok c (s\<lparr>ps_deferral_final_merkle_path_bytes := p, ps_deferral_depth0_merkle_proofs_bytes := q\<rparr>)
     = state_ok c s"
  by (simp_all add: state_ok_def slots_ok_def proof_state_wf_def record_completion_def)

lemma item_stored_frame [simp]:
  "item_stored (s\<lparr>ps_last_updated := t\<rparr>) l i = item_stored s l i"
  "item_stored (s\<lparr>ps_late_result_notice_emitted := v\<rparr>) l i = item_stored s l i"
  "item_stored (record_completion t s) l i = item_stored s l i"
  "item_stored (s\<lparr>ps_app_prove_started_at := x, ps_app_prove_ended_at := y\<rparr>) l i = item_stored s l i"
  "item_stored (s\<lparr>ps_leaf_prove_started_at := x, ps_leaf_prove_ended_at := y\<rparr>) l i = item_stored s l i"
  "item_stored (s\<lparr>ps_internal_prove_started_at := x, ps_internal_prove_ended_at := y\<rparr>) l i = item_stored s l i"
  by (rule item_stored_cong; simp add: record_completion_def)+

lemma record_completion_core [simp]:
  "ps_context (record_completion t s) = ps_context s"
  "ps_num_segments (record_completion t s) = ps_num_segments s"
  "ps_evm_proof (record_completion t s) = ps_evm_proof s"
  by (simp_all add: record_completion_def)

text \<open>The proof stored for an item; and a request whose payload is drawn from the stored proofs of the children, or, for
  the EVM step, from the final internal proof.\<close>

definition item_payload :: "proof_state \<Rightarrow> nat \<Rightarrow> nat \<Rightarrow> bytes" where
  "item_payload s l x =
     (if l = 0 then the (aps_proof (the (map_of (ps_app_proofs s) x))) else child_payload s (l - 1) x)"

fun drawn :: "tree_plan \<Rightarrow> proof_state \<Rightarrow> general_prove_request \<Rightarrow> bool" where
  "drawn c s (LeafProveReq r) =
     (\<exists>j < level_count c 1. lpr_segment_start r = first_segment c 1 j \<and>
        (\<forall>x \<in> set (children c 0 j). item_stored s 0 x) \<and>
        lpr_app_proofs r = map (item_payload s 0) (children c 0 j))"
| "drawn c s (InternalProveReq r) =
     (let l = Suc (ipr_layer_idx r) in
      \<exists>j < level_count c (Suc l). ipr_segment_start r = first_segment c (Suc l) j \<and>
        (\<forall>x \<in> set (children c l j). item_stored s l x) \<and>
        ipr_child_proofs r = map (item_payload s l) (children c l j))"
| "drawn c s (EvmProveReq r) =
     (\<exists>st. map_of (ps_internal_proofs s) \<lparr>ipi_layer_idx = final_layer c, ipi_idx = 0\<rparr> = Some st \<and> ips_ready_for_evm st \<and>
        epr_internal_proof_bytes r = the (ips_proof st) \<and>
        epr_deferral_merkle_proofs_bytes r = ips_deferral_merkle_proofs_bytes st)"

text \<open>What a handler call that stores item \<open>(l, i)\<close> does to the concrete state.\<close>

definition stores ::
  "tree_plan \<Rightarrow> proof_state \<Rightarrow> nat \<Rightarrow> nat \<Rightarrow> proof_state \<Rightarrow> general_prove_request list \<Rightarrow> bool" where
  "stores c s l i s1 reqs \<longleftrightarrow>
     state_ok c s1 \<and> ps_context s1 = ps_context s \<and> ps_num_segments s1 = ps_num_segments s \<and>
     ps_evm_proof s1 = ps_evm_proof s \<and>
     (\<forall>m x. item_stored s1 m x \<longleftrightarrow> item_stored s m x \<or> (m, x) = (l, i)) \<and>
     concat (map (request_items c) reqs) =
       (if \<not> item_stored s l i \<and> l < top_level c \<and>
           (\<forall>x \<in> set (scan c s1 l (i div fan_in c l)). item_stored s1 l x)
        then [(Suc l, i div fan_in c l)] else []) \<and>
     (\<forall>r \<in> set reqs. request_ok c r \<and> request_context r = ps_context s \<and> drawn c s1 r) \<and>
     length (filter is_evm_request reqs) =
       (if pc_proof_type (ps_context s) = Evm \<and> l = top_level c \<and> \<not> item_stored s l i then 1 else 0)"

lemma slots_ok_app:
  "slots_ok c s \<Longrightarrow> i < tp_segments c \<Longrightarrow>
   slots_ok c (s\<lparr>ps_app_proofs := AList.update i st (ps_app_proofs s)\<rparr>)"
  unfolding slots_ok_def by auto

lemma request_ok_leaf:
  "j < level_count c (Suc 0) \<Longrightarrow> request_ok c (leaf_request c s j)"
  by (auto simp: leaf_request_def)

lemma request_items_leaf [simp]:
  "plan_ok c \<Longrightarrow> request_items c (leaf_request c s j) = [(Suc 0, j)]"
  by (simp add: leaf_request_def leaf_idx_first_segment)

lemma leaf_request_misc [simp]:
  "\<not> is_evm_request (leaf_request c s j)" "request_context (leaf_request c s j) = ps_context s"
  by (simp_all add: leaf_request_def is_evm_request_def)

lemma request_ok_internal:
  "j < level_count c (Suc (Suc k)) \<Longrightarrow> k \<le> final_layer c \<Longrightarrow> request_ok c (internal_request c s k j)"
  by (auto simp: internal_request_def simp del: level_count.simps)

lemma request_items_internal [simp]:
  "plan_ok c \<Longrightarrow> request_items c (internal_request c s k j) = [(Suc (Suc k), j)]"
  by (simp add: internal_request_def internal_idx_first_segment)

lemma internal_request_misc [simp]:
  "\<not> is_evm_request (internal_request c s k j)"
  "request_context (internal_request c s k j) = ps_context s"
  by (simp_all add: internal_request_def is_evm_request_def)

lemma drawn_leaf:
  "j < level_count c (Suc 0) \<Longrightarrow> \<forall>x \<in> set (children c 0 j). item_stored s 0 x \<Longrightarrow> drawn c s (leaf_request c s j)"
  by (auto simp: leaf_request_def item_payload_def simp del: level_count.simps item_stored.simps)

lemma drawn_internal:
  "j < level_count c (Suc (Suc k)) \<Longrightarrow> \<forall>x \<in> set (children c (Suc k) j). item_stored s (Suc k) x \<Longrightarrow>
     drawn c s (internal_request c s k j)"
  by (auto simp: internal_request_def item_payload_def simp del: level_count.simps item_stored.simps)

lemma top_level_gr: "1 < top_level c" "Suc 0 < top_level c" "0 < top_level c" "Suc (Suc 0) < top_level c"
  using final_layer_pos [of c] by (simp_all add: top_level_def)

lemma app_result_stores:
  assumes ok: "plan_ok c" and st: "state_ok c s"
    and res: "aps_proof e \<noteq> None" "aps_segment_idx e < tp_segments c"
  shows "\<exists>s1 reqs. handle_app_result now e s = (s1, Ok reqs) \<and> stores c s 0 (aps_segment_idx e) s1 reqs"
proof -
  let ?i = "aps_segment_idx e"
  define s0 where "s0 = s\<lparr>ps_app_prove_started_at :=
      (case ps_app_prove_started_at s of None \<Rightarrow> Some now | Some t \<Rightarrow> Some t), ps_app_prove_ended_at := Some now\<rparr>"
  define s1 where "s1 = s0\<lparr>ps_app_proofs := AList.update ?i e (ps_app_proofs s0)\<rparr>"
  define s2 where "s2 = s1\<lparr>ps_deferral_final_merkle_path_bytes :=
        keep_first (ps_deferral_final_merkle_path_bytes s1) (aps_final_merkle_path_bytes e),
      ps_deferral_depth0_merkle_proofs_bytes :=
        keep_first (ps_deferral_depth0_merkle_proofs_bytes s1) (aps_deferral_merkle_proofs_bytes e)\<rparr>"
  obtain pr where pr: "aps_proof e = Some pr" using res(1) by blast
  have inb: "\<not> (case ps_num_segments s0 of Some n \<Rightarrow> ?i \<ge> n | None \<Rightarrow> False)"
    using st res by (auto simp: s0_def state_ok_def split: option.splits)
  have "handle_app_result now e s =
      (if map_of (ps_app_proofs s0) ?i \<noteq> None then (s1, Ok []) else (s2, Ok (request_leaf_batch s2 ?i)))"
    using pr inb by (simp add: handle_app_result_def Let_def s0_def [symmetric] s1_def [symmetric]
        s2_def [symmetric])
  then have run: "handle_app_result now e s =
      (if map_of (ps_app_proofs s) ?i \<noteq> None then (s1, Ok []) else (s2, Ok (request_leaf_batch s2 ?i)))"
    by (simp add: s0_def)
  have st0: "state_ok c s0" using st by (simp add: s0_def)
  have st1: "state_ok c s1" using st0 res
    by (auto simp: s1_def state_ok_def proof_state_wf_def slots_ok_app)
  have st2: "state_ok c s2" using st1 by (simp add: s2_def)
  have it: "item_stored s1 m x \<longleftrightarrow> item_stored s m x \<or> (m, x) = (0, ?i)" for m x
  proof (cases m)
    case (Suc k)
    then show ?thesis by (cases k) (simp_all add: s1_def s0_def)
  qed (simp add: s1_def s0_def)
  have it2: "item_stored s2 m x = item_stored s1 m x" for m x
    by (rule item_stored_cong) (simp_all add: s2_def)
  have fr: "ps_context s1 = ps_context s" "ps_num_segments s1 = ps_num_segments s"
    "ps_evm_proof s1 = ps_evm_proof s" "ps_context s2 = ps_context s"
    "ps_num_segments s2 = ps_num_segments s" "ps_evm_proof s2 = ps_evm_proof s"
    by (simp_all add: s2_def s1_def s0_def)
  have par: "?i div tp_leaf_arity c < level_count c (Suc 0)"
    using child_parent(1) [OF ok, of ?i 0] res(2) by (simp add: fan_in_def)
  show ?thesis
  proof (cases "map_of (ps_app_proofs s) ?i = None")
    case True
    have dr: "drawn c s2 (leaf_request c s2 (?i div tp_leaf_arity c))"
      if "\<forall>x \<in> set (scan c s2 0 (?i div tp_leaf_arity c)). item_stored s2 0 x"
      using that scan_complete(2) [OF ok st2 that] by (intro drawn_leaf [OF par]) simp
    have "\<not> item_stored s 0 ?i" using True by simp
    then have "stores c s 0 ?i s2 (request_leaf_batch s2 ?i)"
      unfolding stores_def request_leaf_batch_eq [OF ok st2 res(2)]
      using st2 fr it it2 top_level_gr [of c] ok request_ok_leaf [OF par] dr
      by (simp add: fan_in_def del: level_count.simps item_stored.simps)
    then show ?thesis using run True by auto
  next
    case False
    then have "stores c s 0 ?i s1 []" using st1 fr it top_level_gr [of c] by (simp add: stores_def)
    then show ?thesis using run False by auto
  qed
qed

lemma slots_ok_leaf:
  "slots_ok c s \<Longrightarrow> i < level_count c (Suc 0) \<Longrightarrow> lps_segment_end st = last_segment c (Suc 0) i \<Longrightarrow>
   slots_ok c (s\<lparr>ps_leaf_proofs := AList.update (first_segment c (Suc 0) i) st (ps_leaf_proofs s)\<rparr>)"
  unfolding slots_ok_def by auto

lemma slots_ok_internal:
  "slots_ok c s \<Longrightarrow> k \<le> final_layer c \<Longrightarrow> i < level_count c (Suc (Suc k)) \<Longrightarrow>
   ips_segment_start st = first_segment c (Suc (Suc k)) i \<Longrightarrow>
   ips_segment_end st = last_segment c (Suc (Suc k)) i \<Longrightarrow>
   slots_ok c (s\<lparr>ps_internal_proofs :=
     AList.update \<lparr>ipi_layer_idx = k, ipi_idx = i\<rparr> st (ps_internal_proofs s)\<rparr>)"
  unfolding slots_ok_def by (auto simp del: level_count.simps)

lemma leaf_result_stores:
  assumes ok: "plan_ok c" and st: "state_ok c s" and i: "i < level_count c (Suc 0)"
    and res: "lps_proof e \<noteq> None" "lps_segment_start e = first_segment c (Suc 0) i"
      "lps_segment_end e = last_segment c (Suc 0) i"
  shows "\<exists>s1 reqs. handle_leaf_result now e s = (s1, Ok reqs) \<and> stores c s (Suc 0) i s1 reqs"
proof -
  let ?f = "first_segment c (Suc 0) i"
  define s0 where "s0 = s\<lparr>ps_leaf_prove_started_at :=
      (case ps_leaf_prove_started_at s of None \<Rightarrow> Some now | Some t \<Rightarrow> Some t), ps_leaf_prove_ended_at := Some now\<rparr>"
  define s1 where "s1 = s0\<lparr>ps_leaf_proofs := AList.update ?f e (ps_leaf_proofs s0)\<rparr>"
  obtain pr where pr: "lps_proof e = Some pr" using res(1) by blast
  have inb: "\<not> (case ps_num_segments s0 of Some n \<Rightarrow> ?f \<ge> n \<or> last_segment c (Suc 0) i \<ge> n | None \<Rightarrow> False)"
    using st first_segment_less [OF ok i] last_segment_less [OF ok, of "Suc 0" i]
    by (auto simp: s0_def state_ok_def split: option.splits)
  have "handle_leaf_result now e s =
      (if map_of (ps_leaf_proofs s0) ?f \<noteq> None then (s1, Ok []) else (s1, request_leaf_group s1 ?f))"
    using pr inb by (simp add: handle_leaf_result_def Let_def s0_def [symmetric] s1_def [symmetric] res)
  moreover have la: "ps_leaf_arity s = tp_leaf_arity c" "?f = i * tp_leaf_arity c"
    using st by (simp_all add: state_ok_def first_segment_def level_span_leaf del: level_span.simps)
  ultimately have run: "handle_leaf_result now e s =
      (if item_stored s (Suc 0) i then (s1, Ok []) else (s1, request_leaf_group s1 ?f))"
    by (simp add: s0_def)
  have st0: "state_ok c s0" using st by (simp add: s0_def)
  have st1: "state_ok c s1" using st0 res(1)
    by (auto simp: s1_def state_ok_def proof_state_wf_def slots_ok_leaf [OF _ i res(3)])
  have it: "item_stored s1 m x \<longleftrightarrow> item_stored s m x \<or> (m, x) = (Suc 0, i)" for m x
  proof -
    consider "m = 0" | "m = Suc 0" | k where "m = Suc (Suc k)" by (metis not0_implies_Suc)
    then show ?thesis
      using la plan_okD(2) [OF ok] by cases (simp_all add: s1_def s0_def)
  qed
  have fr: "ps_context s1 = ps_context s" "ps_num_segments s1 = ps_num_segments s"
    "ps_evm_proof s1 = ps_evm_proof s"
    by (simp_all add: s1_def s0_def)
  have par: "i div tp_internal_arity c < level_count c (Suc (Suc 0))"
    using child_parent(1) [OF ok i] by (simp add: fan_in_def)
  show ?thesis
  proof (cases "item_stored s (Suc 0) i")
    case False
    let ?reqs = "if \<forall>x \<in> set (scan c s1 (Suc 0) (i div tp_internal_arity c)). item_stored s1 (Suc 0) x
        then [internal_request c s1 0 (i div tp_internal_arity c)] else []"
    have dr: "drawn c s1 (internal_request c s1 0 (i div tp_internal_arity c))"
      if "\<forall>x \<in> set (scan c s1 (Suc 0) (i div tp_internal_arity c)). item_stored s1 (Suc 0) x"
      using that scan_complete(2) [OF ok st1 that] by (intro drawn_internal [OF par]) simp
    have "stores c s (Suc 0) i s1 ?reqs"
      unfolding stores_def
      using False st1 fr it top_level_gr [of c] ok request_ok_internal [OF par] dr
      by (simp add: fan_in_def del: level_count.simps item_stored.simps)
    then show ?thesis using run False request_leaf_group_eq [OF ok st1 i] by auto
  next
    case True
    then have "stores c s (Suc 0) i s1 []" using st1 fr it top_level_gr [of c]
      by (simp add: stores_def del: item_stored.simps)
    then show ?thesis using run True by auto
  qed
qed

lemma internal_result_stores:
  assumes ok: "plan_ok c" and st: "state_ok c s" and known: "ps_num_segments s \<noteq> None"
    and i: "i < level_count c (Suc (Suc k))" and k: "k \<le> final_layer c"
    and res: "ips_proof e \<noteq> None" "ips_layer_idx e = k"
      "ips_segment_start e = first_segment c (Suc (Suc k)) i"
      "ips_segment_end e = last_segment c (Suc (Suc k)) i"
      "k = final_layer c \<Longrightarrow> pc_proof_type (ps_context s) = Evm \<Longrightarrow> ips_ready_for_evm e"
  shows "\<exists>s1 reqs. handle_internal_result now e s = (s1, Ok reqs) \<and> stores c s (Suc (Suc k)) i s1 reqs"
proof -
  let ?l = "Suc (Suc k)" and ?key = "\<lparr>ipi_layer_idx = k, ipi_idx = i\<rparr>"
  define s0 where "s0 = s\<lparr>ps_internal_prove_started_at :=
      (case ps_internal_prove_started_at s of None \<Rightarrow> Some now | Some t \<Rightarrow> Some t),
      ps_internal_prove_ended_at := Some now\<rparr>"
  define s1 where "s1 = s0\<lparr>ps_internal_proofs := AList.update ?key e (ps_internal_proofs s0)\<rparr>"
  obtain pr where pr: "ips_proof e = Some pr" using res(1) by blast
  have ar: "ps_leaf_arity s0 = tp_leaf_arity c" "ps_internal_arity s0 = tp_internal_arity c"
    using st by (simp_all add: s0_def state_ok_def)
  have inb: "\<not> (case ps_num_segments s0 of
      Some n \<Rightarrow> ips_segment_start e \<ge> n \<or> ips_segment_end e \<ge> n | None \<Rightarrow> False)"
    unfolding res using st first_segment_less [OF ok i] last_segment_less [OF ok, of ?l i]
    by (auto simp: s0_def state_ok_def split: option.splits)
  have idx: "segment_start_to_internal_idx_with_batch (ips_segment_start e) (ips_layer_idx e)
      (ps_leaf_arity s0) (ps_internal_arity s0) = i"
    unfolding res ar by (rule internal_idx_first_segment [OF ok])
  have "handle_internal_result now e s =
      (if map_of (ps_internal_proofs s0) ?key \<noteq> None then (s1, Ok []) else (s1, internal_follow_up s1 e i))"
    using pr inb idx
    by (simp add: handle_internal_result_def Let_def s0_def [symmetric] res(2) s1_def [symmetric])
  then have run: "handle_internal_result now e s =
      (if item_stored s ?l i then (s1, Ok []) else (s1, internal_follow_up s1 e i))"
    by (simp add: s0_def)
  have st0: "state_ok c s0" using st by (simp add: s0_def)
  have st1: "state_ok c s1" using st0 res(1)
    by (auto simp: s1_def state_ok_def proof_state_wf_def slots_ok_internal [OF _ k i res(3,4)])
  have it: "item_stored s1 m x \<longleftrightarrow> item_stored s m x \<or> (m, x) = (?l, i)" for m x
  proof -
    consider "m = 0" | "m = Suc 0" | j where "m = Suc (Suc j)" by (metis not0_implies_Suc)
    then show ?thesis by cases (auto simp: s1_def s0_def)
  qed
  have fr: "ps_context s1 = ps_context s" "ps_num_segments s1 = ps_num_segments s"
    "ps_evm_proof s1 = ps_evm_proof s" "map_of (ps_internal_proofs s1) ?key = Some e"
    by (simp_all add: s1_def s0_def)
  have kn1: "ps_num_segments s1 \<noteq> None" using known fr by simp
  note eq = internal_follow_up_eq [OF ok st1 kn1 res(2) k i fr(4)]
  have sc: "scan c s1 ?l j = children c ?l j" for j using kn1 by (auto simp: scan_def)
  show ?thesis
  proof (cases "item_stored s ?l i")
    case True
    then have "stores c s ?l i s1 []" using st1 fr it by (simp add: stores_def del: item_stored.simps)
    then show ?thesis using run True by auto
  next
    case False
    show ?thesis
    proof (cases "k = final_layer c")
      case True
      let ?reqs = "if pc_proof_type (ps_context s) = Evm then [build_evm_prove_request s1 e] else []"
      have i0: "i = 0" using i True level_count_top [OF ok] by (simp add: top_level_def)
      have "stores c s ?l i s1 ?reqs"
        unfolding stores_def using False True st1 fr it i0 pr res(5)
        by (simp add: top_level_def build_evm_prove_request_def is_evm_request_def
            del: item_stored.simps)
      moreover have "internal_follow_up s1 e i = Ok ?reqs"
        using eq True res(5) fr by simp
      ultimately show ?thesis using run False by auto
    next
      case nf: False
      then have k1: "Suc k \<le> final_layer c" using k by simp
      have par: "i div tp_internal_arity c < level_count c (Suc ?l)"
        using child_parent(1) [OF ok i] by (simp add: fan_in_def)
      let ?reqs = "if \<forall>x \<in> set (children c ?l (i div tp_internal_arity c)). item_stored s1 ?l x
          then [internal_request c s1 (Suc k) (i div tp_internal_arity c)] else []"
      have "stores c s ?l i s1 ?reqs"
        unfolding stores_def using False nf k1 st1 fr it ok request_ok_internal [OF par k1] drawn_internal [OF par]
        by (simp add: fan_in_def sc top_level_def del: item_stored.simps level_count.simps)
      then show ?thesis using run False eq nf by auto
    qed
  qed
qed

section \<open>Runs implement the abstract tree\<close>

abbreviation job_of :: "proof_state \<Rightarrow> general_prove_request list \<Rightarrow> job" where
  "job_of s R \<equiv> \<lparr>jb_state = s, jb_requests = R\<rparr>"

lemma abs_job_frame [simp]:
  "abs_job c (job_of (s\<lparr>ps_last_updated := t\<rparr>) R) = abs_job c (job_of s R)"
  "abs_job c (job_of (s\<lparr>ps_late_result_notice_emitted := v\<rparr>) R) = abs_job c (job_of s R)"
  "abs_job c (job_of (record_completion t s) R) = abs_job c (job_of s R)"
  by (simp_all add: abs_job_def)

lemma job_inv_frame [simp]:
  "job_inv c (job_of (s\<lparr>ps_last_updated := t\<rparr>) R) = job_inv c (job_of s R)"
  "job_inv c (job_of (s\<lparr>ps_late_result_notice_emitted := v\<rparr>) R) = job_inv c (job_of s R)"
  "job_inv c (job_of (record_completion t s) R) = job_inv c (job_of s R)"
  by (simp_all add: job_inv_def)

lemma stores_abs:
  assumes ok: "plan_ok c" and st: "stores c s l i s1 reqs"
  shows "abs_job c (job_of s1 (R @ reqs)) = store c l i (abs_job c (job_of s R))"
proof -
  have st1: "state_ok c s1" and ns: "ps_num_segments s1 = ps_num_segments s"
    and it: "\<And>m x. item_stored s1 m x \<longleftrightarrow> item_stored s m x \<or> (m, x) = (l, i)"
    and em: "concat (map (request_items c) reqs) =
       (if \<not> item_stored s l i \<and> l < top_level c \<and>
           (\<forall>x \<in> set (scan c s1 l (i div fan_in c l)). item_stored s1 l x)
        then [(Suc l, i div fan_in c l)] else [])"
    using st by (simp_all add: stores_def)
  have set1: "{(m, x). item_stored s1 m x} = insert (l, i) {(m, x). item_stored s m x}"
    using it by auto
  show ?thesis
  proof (cases "item_stored s l i")
    case True
    then have "insert (l, i) {(m, x). item_stored s m x} = {(m, x). item_stored s m x}" by auto
    then show ?thesis using True em ns set1 by (simp add: abs_job_def store_def)
  next
    case False
    have A': "(abs_job c (job_of s R))\<lparr>ta_stored := insert (l, i) (ta_stored (abs_job c (job_of s R)))\<rparr>
        = abs_job c (job_of s1 R)"
      using ns set1 by (simp add: abs_job_def)
    have gc: "group_complete c (abs_job c (job_of s1 R)) l j \<longleftrightarrow>
        (\<forall>x \<in> set (scan c s1 l j). item_stored s1 l x)" for j
      using group_complete_scan [OF ok, of "job_of s1 R"] st1 by simp
    have "store c l i (abs_job c (job_of s R)) =
        (abs_job c (job_of s1 R))\<lparr>ta_emitted := ta_emitted (abs_job c (job_of s R)) @
          concat (map (request_items c) reqs)\<rparr>"
      using False unfolding store_def Let_def A' gc em by (simp add: abs_job_def)
    then show ?thesis by (simp add: abs_job_def)
  qed
qed

lemma stores_job_inv:
  assumes ok: "plan_ok c" and inv: "job_inv c (job_of s R)" and st: "stores c s l i s1 reqs"
    and i: "i < level_count c l" "l \<le> top_level c"
    and req: "l = 0 \<or> (l, i) \<in> set (ta_emitted (abs_job c (job_of s R)))"
    and kn: "2 \<le> l \<longrightarrow> ps_num_segments s \<noteq> None"
  shows "job_inv c (job_of s1 (R @ reqs))"
proof -
  have kn': "2 \<le> l \<longrightarrow> ta_known (abs_job c (job_of s R))" using kn by (simp add: abs_job_def)
  have "tree_inv c (abs_job c (job_of s1 (R @ reqs)))"
    unfolding stores_abs [OF ok st]
    using inv i req kn' by (intro tree_inv_store [OF ok]) (simp_all add: job_inv_def)
  moreover have "item_stored s1 (top_level c) 0 \<longleftrightarrow> item_stored s (top_level c) 0 \<or> l = top_level c"
    using st i level_count_top [OF ok] by (auto simp: stores_def)
  moreover have "l = top_level c \<Longrightarrow> i = 0" using i level_count_top [OF ok] by auto
  ultimately show ?thesis
    using inv st unfolding job_inv_def stores_def by auto
qed

lemma e2_result_learns:
  assumes ok: "plan_ok c" and inv: "job_inv c (job_of s R)" and n: "e2_num_segments e = tp_segments c"
  shows "\<exists>s1 reqs. handle_execute_e2_result b e s = (s1, Ok reqs) \<and>
    abs_job c (job_of s1 (R @ reqs)) = learn c (abs_job c (job_of s R)) \<and>
    job_inv c (job_of s1 (R @ reqs)) \<and> (\<forall>r \<in> set reqs. drawn c s1 r)"
proof (cases "ps_num_segments s")
  case (Some m)
  have wf: "proof_state_wf s" using inv by (simp add: job_inv_def state_ok_def)
  then have "handle_execute_e2_result b e s = (s, Ok [])"
    using Some by (auto simp: handle_execute_e2_result_def proof_state_wf_def)
  moreover have "learn c (abs_job c (job_of s R)) = abs_job c (job_of s R)"
    using Some by (simp add: learn_def abs_job_def)
  ultimately show ?thesis using inv by simp
next
  case None
  let ?q0 = "tp_segments c div tp_leaf_arity c"
  let ?q1 = "level_count c (Suc 0) div tp_internal_arity c"
  let ?P = "\<lambda>l. 0 < level_count c l mod fan_in c l \<and>
     (\<forall>i \<in> set (children c l (level_count c l div fan_in c l)). item_stored s l i)"
  define s1 where "s1 = s\<lparr>ps_num_segments := Some (e2_num_segments e),
      ps_num_instructions := Some (count_instructions b e), ps_execute_e2_state := Some e\<rparr>"
  have st: "state_ok c s" and ti: "tree_inv c (abs_job c (job_of s R))"
    using inv by (simp_all add: job_inv_def)
  have e2: "ps_execute_e2_state s = None" using st None by (simp add: state_ok_def proof_state_wf_def)
  have st1: "state_ok c s1" using st n plan_okD(1) [OF ok]
    by (simp add: s1_def state_ok_def proof_state_wf_def slots_ok_def)
  have it: "item_stored s1 m x = item_stored s m x" for m x
    by (rule item_stored_cong) (simp_all add: s1_def)
  have kn: "ps_num_segments s1 \<noteq> None" "ps_num_segments s1 = Some (tp_segments c)"
    using n by (simp_all add: s1_def)
  have none: "\<not> item_stored s (Suc (Suc k)) x" for k x
  proof
    assume "item_stored s (Suc (Suc k)) x"
    then have "(Suc (Suc k), x) \<in> ta_stored (abs_job c (job_of s R))" by (simp add: abs_job_def)
    then show False using tree_inv_storedD [OF ti] None by (fastforce simp: abs_job_def)
  qed
  have notail: "\<not> item_stored s (Suc 0) ?q0" if "0 < tp_segments c mod tp_leaf_arity c"
  proof
    assume "item_stored s (Suc 0) ?q0"
    then have "(Suc 0, ?q0) \<in> ta_stored (abs_job c (job_of s R))" by (simp add: abs_job_def)
    then have "(Suc 0, ?q0) \<in> set (ta_emitted (abs_job c (job_of s R)))"
      using tree_inv_storedD [OF ti] by blast
    then have "group_complete c (abs_job c (job_of s R)) 0 ?q0"
      using tree_inv_emitted_iff [OF ti] by blast
    then show False using None last_group_partial(2) [OF ok, of 0] that
      by (simp add: group_complete_def abs_job_def fan_in_def)
  qed
  define reqs where "reqs = (if ?P 0 then [leaf_request c s1 ?q0] else []) @
    (if ?P (Suc 0) then [internal_request c s1 0 ?q1] else [])"
  have flush: "flush_pending_leaf_batches s1 = (if ?P 0 then [leaf_request c s1 ?q0] else [])"
    using flush_eq [OF ok st1 kn(1)] notail by (auto simp: it fan_in_def simp del: item_stored.simps)
  have trig: "trigger_tail_proofs s1 = Ok (if ?P (Suc 0) then [internal_request c s1 0 ?q1] else [])"
    using trigger_eq [OF ok st1 kn(1)] none by (simp add: it fan_in_def del: item_stored.simps)
  have ne: "e2_num_segments e \<noteq> 0" using n plan_okD(1) [OF ok] by simp
  have "handle_execute_e2_result b e s =
      (s1, case trigger_tail_proofs s1 of Ok tail \<Rightarrow> Ok (flush_pending_leaf_batches s1 @ tail) | x \<Rightarrow> x)"
    using e2 ne by (simp add: handle_execute_e2_result_def Let_def s1_def [symmetric])
  then have run: "handle_execute_e2_result b e s = (s1, Ok reqs)"
    unfolding flush trig reqs_def by simp
  have P2: "\<not> ?P l" if "2 \<le> l" for l
  proof -
    obtain k where k: "l = Suc (Suc k)" using \<open>2 \<le> l\<close> by (metis add_2_eq_Suc le_Suc_ex)
    show ?thesis
      using children_nonempty(1) [OF ok last_group_partial(1) [OF ok]] none unfolding k by blast
  qed
  have "[0..<top_level c] = [0, Suc 0] @ [2..<top_level c]"
    using top_level_gr [of c] by (simp add: upt_conv_Cons numeral_2_eq_2)
  then have fil: "filter ?P [0..<top_level c] = filter ?P [0, Suc 0]"
    using P2 by (auto simp: filter_empty_conv simp del: upt_Suc)
  have "concat (map (request_items c) reqs) =
      map (\<lambda>l. (Suc l, level_count c l div fan_in c l)) (filter ?P [0..<top_level c])"
    unfolding fil using ok by (simp add: reqs_def fan_in_def del: level_count.simps(2))
  then have abs: "abs_job c (job_of s1 (R @ reqs)) = learn c (abs_job c (job_of s R))"
    using None kn by (simp add: abs_job_def learn_def it del: item_stored.simps)
  have good: "request_ok c r \<and> request_context r = ps_context s \<and> \<not> is_evm_request r \<and> drawn c s1 r"
    if rr: "r \<in> set reqs" for r
  proof -
    have ctx: "ps_context s1 = ps_context s" by (simp add: s1_def)
    consider "r = leaf_request c s1 ?q0" "?P 0" | "r = internal_request c s1 0 ?q1" "?P (Suc 0)"
      using rr by (auto simp: reqs_def split: if_splits)
    then show ?thesis
    proof cases
      case 1
      moreover have par: "?q0 < level_count c (Suc 0)"
        using 1(2) last_group_partial(1) [OF ok, of 0] by (simp add: fan_in_def)
      moreover have "drawn c s1 (leaf_request c s1 ?q0)"
        using 1(2) by (intro drawn_leaf [OF par]) (simp add: it fan_in_def del: item_stored.simps)
      ultimately show ?thesis using request_ok_leaf [of ?q0 c s1] ctx by simp
    next
      case 2
      moreover have par: "?q1 < level_count c (Suc (Suc 0))"
        using 2(2) last_group_partial(1) [OF ok, of "Suc 0"] by (simp add: fan_in_def del: level_count.simps)
      moreover have "drawn c s1 (internal_request c s1 0 ?q1)"
        using 2(2) by (intro drawn_internal [OF par]) (simp add: it fan_in_def del: item_stored.simps level_count.simps)
      ultimately show ?thesis using request_ok_internal [OF par, of s1] ctx by simp
    qed
  qed
  then have "filter is_evm_request reqs = []" and dr: "\<forall>r \<in> set reqs. drawn c s1 r" by (simp_all add: filter_empty_conv)
  moreover have "ps_context s1 = ps_context s" "ps_evm_proof s1 = ps_evm_proof s" by (simp_all add: s1_def)
  ultimately have "job_inv c (job_of s1 (R @ reqs))"
    using inv st1 good it tree_inv_learn [OF ok ti] unfolding job_inv_def abs by auto
  then show ?thesis using run abs dr by blast
qed

text \<open>One delivery on an unsealed proof runs one of the handlers and then records the completion.\<close>

definition dispatch :: "build \<Rightarrow> clock \<Rightarrow> proof_result \<Rightarrow> proof_state \<Rightarrow> handler_result" where
  "dispatch b ck res s =
     (case res of
        ExecuteE2Res _ st \<Rightarrow> handle_execute_e2_result b st s
      | AppRes _ st \<Rightarrow> handle_app_result (ck_handled ck) st s
      | LeafRes _ st \<Rightarrow> handle_leaf_result (ck_handled ck) st s
      | InternalRes _ st \<Rightarrow> handle_internal_result (ck_handled ck) st s
      | EvmRes _ st \<Rightarrow> handle_halo2_result st s
      | ErrorRes r \<Rightarrow> (handle_error_result r s, Ok []))"

lemma deliver_sealed:
  "is_sealed_for_results s \<Longrightarrow>
   deliver b ck env (job_of s R) = job_of (s\<lparr>ps_late_result_notice_emitted := True\<rparr>) R"
  by (simp add: deliver_def sealed_outcome)

lemma deliver_unsealed:
  assumes "\<not> is_sealed_for_results s"
    and "\<And>ctx st. me_message env = ExecuteE2Res ctx st \<Longrightarrow> e2_cost st \<le> ps_cost_limit s"
    and "dispatch b ck (me_message env) (s\<lparr>ps_last_updated := ck_received ck\<rparr>) = (s1, Ok reqs)"
  shows "deliver b ck env (job_of s R) = job_of (record_completion (ck_completed ck) s1) (R @ reqs)"
  using assms
  by (cases "me_message env")
     (auto simp: deliver_def dispatch_def handle_proof_result_with_envelope_outcome_def
       handle_proof_result_def Let_def)

lemma emitted_item:
  "req \<in> set R \<Longrightarrow> set (request_items c req) \<subseteq> set (ta_emitted (abs_job c (job_of s R)))"
  by (auto simp: abs_job_def)

text \<open>The requests of a delivery follow the earlier ones and are drawn from its state.\<close>

definition draws :: "tree_plan \<Rightarrow> general_prove_request list \<Rightarrow> job \<Rightarrow> bool" where
  "draws c R J \<longleftrightarrow> (\<exists>reqs. jb_requests J = R @ reqs \<and> (\<forall>r \<in> set reqs. drawn c (jb_state J) r))"

lemma drawn_record [simp]: "drawn c (record_completion t s) r = drawn c s r"
proof -
  have "item_payload (record_completion t s) l x = item_payload s l x" for l x
    by (simp add: item_payload_def child_payload_def record_completion_def)
  then have "item_payload (record_completion t s) = item_payload s" by (intro ext)
  moreover have "ps_internal_proofs (record_completion t s) = ps_internal_proofs s" by (simp add: record_completion_def)
  ultimately show ?thesis by (cases r) (simp_all add: Let_def del: item_stored.simps level_count.simps)
qed

lemma draws_none [simp]: "draws c R (job_of s R)"
  by (simp add: draws_def)

lemma draws_new: "\<forall>r \<in> set reqs. drawn c s r \<Longrightarrow> draws c R (job_of s (R @ reqs))"
  by (simp add: draws_def)

lemma draws_record [simp]: "draws c R (job_of (record_completion t s) Q) = draws c R (job_of s Q)"
  by (simp add: draws_def)

lemma stores_draws: "stores c s l i s1 reqs \<Longrightarrow> draws c R (job_of s1 (R @ reqs))"
  by (rule draws_new) (simp add: stores_def)

lemma deliver_input_inv:
  assumes ok: "plan_ok c" and inv: "job_inv c (job_of s R)" and inp: "job_input c s (me_message env)"
  shows "job_inv c (deliver b ck env (job_of s R)) \<and> draws c R (deliver b ck env (job_of s R))"
proof (cases "is_sealed_for_results s")
  case True
  then show ?thesis using inv by (simp add: deliver_sealed)
next
  case False
  let ?s = "s\<lparr>ps_last_updated := ck_received ck\<rparr>"
  have inv': "job_inv c (job_of ?s R)" using inv by simp
  then have st: "state_ok c ?s" by (simp add: job_inv_def)
  note dl = deliver_unsealed [OF False, of env b ck _ _ R]
  show ?thesis
  proof (cases "me_message env")
    case (ExecuteE2Res ctx e)
    then obtain s1 reqs where h: "handle_execute_e2_result b e ?s = (s1, Ok reqs)"
      "job_inv c (job_of s1 (R @ reqs))" "draws c R (job_of s1 (R @ reqs))"
      using e2_result_learns [OF ok inv', of e b] inp draws_new by auto
    then show ?thesis using dl [of s1 reqs] ExecuteE2Res inp by (simp add: dispatch_def)
  next
    case (AppRes ctx e)
    then obtain s1 reqs where h: "handle_app_result (ck_handled ck) e ?s = (s1, Ok reqs)"
      "stores c ?s 0 (aps_segment_idx e) s1 reqs"
      using app_result_stores [OF ok st, of e "ck_handled ck"] inp by auto
    have "job_inv c (job_of s1 (R @ reqs))"
      using stores_job_inv [OF ok inv' h(2)] inp AppRes by simp
    then show ?thesis using dl [of s1 reqs] AppRes h(1) stores_draws [OF h(2)] by (simp add: dispatch_def)
  qed (use inp in simp_all)
qed

text \<open>What the answer to a request changes: its item, or the EVM proof.\<close>

definition answer_effect :: "tree_plan \<Rightarrow> general_prove_request \<Rightarrow> proof_state \<Rightarrow> proof_state \<Rightarrow> bool" where
  "answer_effect c req s s' \<longleftrightarrow>
     ps_num_segments s' = ps_num_segments s \<and>
     (\<forall>m x. item_stored s' m x \<longleftrightarrow> item_stored s m x \<or> (m, x) \<in> set (request_items c req)) \<and>
     (ps_evm_proof s' = None \<longleftrightarrow> ps_evm_proof s = None \<and> \<not> is_evm_request req)"

lemma answer_effect_frame [simp]:
  "answer_effect c req (s\<lparr>ps_last_updated := t\<rparr>) s' = answer_effect c req s s'"
  "answer_effect c req s (record_completion t s') = answer_effect c req s s'"
  by (simp_all add: answer_effect_def)

lemma stores_effect:
  "stores c s l i s1 reqs \<Longrightarrow> request_items c req = [(l, i)] \<Longrightarrow> \<not> is_evm_request req \<Longrightarrow> answer_effect c req s s1"
  by (simp add: stores_def answer_effect_def)

lemma evm_result_inv:
  assumes inv: "job_inv c (job_of s R)" and req: "EvmProveReq r \<in> set R" and e: "eps_proof e \<noteq> None"
  shows "\<exists>s1. handle_halo2_result e s = (s1, Ok []) \<and> job_inv c (job_of s1 R) \<and> answer_effect c (EvmProveReq r) s s1"
proof -
  have ev: "is_evm_request (EvmProveReq r)" by (simp add: is_evm_request_def)
  then have "filter is_evm_request R \<noteq> []" using req by (auto simp: filter_empty_conv)
  then have ty: "pc_proof_type (ps_context s) = Evm"
    using inv by (auto simp: job_inv_def split: if_splits)
  show ?thesis
  proof (cases "ps_evm_proof s")
    case None
    let ?s1 = "s\<lparr>ps_evm_proof := Some e\<rparr>"
    have "handle_halo2_result e s = (?s1, Ok [])" using ty e None by (auto simp: handle_halo2_result_def)
    moreover have it: "item_stored ?s1 m x = item_stored s m x" for m x
      by (rule item_stored_cong) simp_all
    moreover have "state_ok c ?s1" using inv e
      by (auto simp: job_inv_def state_ok_def proof_state_wf_def slots_ok_def)
    moreover have "abs_job c (job_of ?s1 R) = abs_job c (job_of s R)" by (simp add: abs_job_def it)
    moreover have "answer_effect c (EvmProveReq r) s ?s1" using ev by (simp add: answer_effect_def it)
    ultimately show ?thesis using inv req ev by (auto simp: job_inv_def)
  next
    case (Some x)
    then have "handle_halo2_result e s = (s, Ok [])" using ty e by (auto simp: handle_halo2_result_def)
    moreover have "answer_effect c (EvmProveReq r) s s" using Some by (simp add: answer_effect_def)
    ultimately show ?thesis using inv by blast
  qed
qed

lemma deliver_answer:
  assumes ok: "plan_ok c" and inv: "job_inv c (job_of s R)" and req: "req \<in> set R"
    and ans: "answers req (me_message env)"
    and kn: "is_internal_result (me_message env) \<longrightarrow> ps_num_segments s \<noteq> None"
  shows "job_inv c (deliver b ck env (job_of s R)) \<and> draws c R (deliver b ck env (job_of s R)) \<and>
    (\<not> is_sealed_for_results s \<longrightarrow> answer_effect c req s (jb_state (deliver b ck env (job_of s R))))"
proof (cases "is_sealed_for_results s")
  case True
  then show ?thesis using inv by (simp add: deliver_sealed)
next
  case False
  let ?s = "s\<lparr>ps_last_updated := ck_received ck\<rparr>"
  have inv': "job_inv c (job_of ?s R)" using inv by simp
  then have st: "state_ok c ?s" by (simp add: job_inv_def)
  have rok: "request_ok c req" and ctx: "request_context req = ps_context s"
    using inv req by (auto simp: job_inv_def)
  note em = emitted_item [OF req, of c ?s]
  note dl = deliver_unsealed [OF False, of env b ck _ _ R]
  show ?thesis
  proof (cases req)
    case (LeafProveReq r)
    then obtain cx e where m: "me_message env = LeafRes cx e" and e: "lps_proof e \<noteq> None"
        "lps_segment_start e = lpr_segment_start r" "lps_segment_end e = lpr_segment_end r"
      using ans by (cases "me_message env") auto
    obtain j where j: "j < level_count c (Suc 0)" "lpr_segment_start r = first_segment c (Suc 0) j"
        "lpr_segment_end r = last_segment c (Suc 0) j"
      using rok LeafProveReq by auto
    obtain s1 reqs where h: "handle_leaf_result (ck_handled ck) e ?s = (s1, Ok reqs)"
        "stores c ?s (Suc 0) j s1 reqs"
      using leaf_result_stores [OF ok st j(1) e(1), of "ck_handled ck"] e j by auto
    have "(Suc 0, j) \<in> set (ta_emitted (abs_job c (job_of ?s R)))"
      using em LeafProveReq j leaf_idx_first_segment [OF ok] by simp
    then have "job_inv c (job_of s1 (R @ reqs))"
      using top_level_gr [of c] by (intro stores_job_inv [OF ok inv' h(2) j(1)]) simp_all
    moreover have "answer_effect c req ?s s1"
      using LeafProveReq j(2) leaf_idx_first_segment [OF ok]
      by (intro stores_effect [OF h(2)]) (simp_all add: is_evm_request_def)
    ultimately show ?thesis using dl [of s1 reqs] m h(1) stores_draws [OF h(2)] by (simp add: dispatch_def)
  next
    case (InternalProveReq r)
    then obtain cx e where m: "me_message env = InternalRes cx e" and e: "ips_proof e \<noteq> None"
        "ips_layer_idx e = ipr_layer_idx r" "ips_segment_start e = ipr_segment_start r"
        "ips_segment_end e = ipr_segment_end r"
        "ips_ready_for_evm e \<or> \<not> (ipr_is_final_proof r \<and> pc_proof_type (ipr_context r) = Evm)"
      using ans by (cases "me_message env") auto
    let ?k = "ipr_layer_idx r"
    obtain j where j: "j < level_count c (Suc (Suc ?k))" "?k \<le> final_layer c"
        "ipr_segment_start r = first_segment c (Suc (Suc ?k)) j"
        "ipr_segment_end r = last_segment c (Suc (Suc ?k)) j"
        "ipr_is_final_proof r = (?k = final_layer c)"
      using rok InternalProveReq by auto
    have kn': "ps_num_segments ?s \<noteq> None" using kn m by simp
    have rdy: "?k = final_layer c \<Longrightarrow> pc_proof_type (ps_context ?s) = Evm \<Longrightarrow> ips_ready_for_evm e"
      using e(5) j(5) ctx InternalProveReq by simp
    obtain s1 reqs where h: "handle_internal_result (ck_handled ck) e ?s = (s1, Ok reqs)"
        "stores c ?s (Suc (Suc ?k)) j s1 reqs"
      using internal_result_stores [OF ok st kn' j(1,2) e(1,2) _ _ rdy, of "ck_handled ck"] e(3,4) j(3,4)
      by auto
    have "(Suc (Suc ?k), j) \<in> set (ta_emitted (abs_job c (job_of ?s R)))"
      using em InternalProveReq j internal_idx_first_segment [OF ok] by simp
    then have "job_inv c (job_of s1 (R @ reqs))"
      using j(2) kn' by (intro stores_job_inv [OF ok inv' h(2) j(1)]) (simp_all add: top_level_def)
    moreover have "answer_effect c req ?s s1"
      using InternalProveReq j(3) internal_idx_first_segment [OF ok]
      by (intro stores_effect [OF h(2)]) (simp_all add: is_evm_request_def)
    ultimately show ?thesis using dl [of s1 reqs] m h(1) stores_draws [OF h(2)] by (simp add: dispatch_def)
  next
    case (EvmProveReq r)
    then obtain cx e where m: "me_message env = EvmRes cx e" and e: "eps_proof e \<noteq> None"
      using ans by (cases "me_message env") auto
    obtain s1 where h: "handle_halo2_result e ?s = (s1, Ok [])" "job_inv c (job_of s1 R)" "answer_effect c req ?s s1"
      using evm_result_inv [OF inv' _ e] req EvmProveReq by blast
    then show ?thesis using dl [of s1 "[]"] m by (simp add: dispatch_def)
  qed
qed

lemma job_run_inv:
  assumes ok: "plan_ok c" and run: "job_run c b J"
  shows "job_inv c J"
  using run
proof induction
  case (start s)
  have it: "\<not> item_stored s m x" for m x
  proof -
    consider "m = 0" | "m = Suc 0" | k where "m = Suc (Suc k)" by (metis not0_implies_Suc)
    then show ?thesis using start by cases (simp_all add: fresh_state_def)
  qed
  then have "abs_job c (job_of s []) = tree_start"
    using start by (simp add: abs_job_def tree_start_def fresh_state_def)
  then show ?case using start it tree_inv_start [OF ok]
    by (simp add: job_inv_def state_ok_def fresh_state_def slots_ok_def proof_state_wf_def)
next
  case (input J env ck)
  then show ?case by (cases J) (auto intro: deliver_input_inv [OF ok, THEN conjunct1])
next
  case (answer J req env ck)
  then show ?case by (cases J) (auto intro: deliver_answer [OF ok, THEN conjunct1])
qed

section \<open>Consequences\<close>

fun request_key :: "general_prove_request \<Rightarrow> step \<times> nat \<times> nat" where
  "request_key (LeafProveReq r) = (LeafProve, 0, lpr_segment_start r)"
| "request_key (InternalProveReq r) = (InternalProve, ipr_layer_idx r, ipr_segment_start r)"
| "request_key (EvmProveReq r) = (EvmProve, 0, 0)"

fun request_answered :: "proof_state \<Rightarrow> general_prove_request \<Rightarrow> bool" where
  "request_answered s (LeafProveReq r) = (map_of (ps_leaf_proofs s) (lpr_segment_start r) \<noteq> None)"
| "request_answered s (InternalProveReq r) =
     (map_of (ps_internal_proofs s)
        \<lparr>ipi_layer_idx = ipr_layer_idx r,
         ipi_idx = segment_start_to_internal_idx_with_batch (ipr_segment_start r) (ipr_layer_idx r)
           (ps_leaf_arity s) (ps_internal_arity s)\<rparr> \<noteq> None)"
| "request_answered s (EvmProveReq r) = (ps_evm_proof s \<noteq> None)"

lemma distinct_request_keys:
  "distinct (concat (map (request_items c) R)) \<Longrightarrow> length (filter is_evm_request R) \<le> 1 \<Longrightarrow>
   distinct (map request_key R)"
proof (induction R)
  case (Cons r R)
  have "request_key r \<noteq> request_key q" if q: "q \<in> set R" for q
  proof
    assume eq: "request_key r = request_key q"
    show False
    proof (cases "is_evm_request r")
      case True
      then have "is_evm_request q" using eq by (cases r; cases q) (simp_all add: is_evm_request_def)
      then have "filter is_evm_request R \<noteq> []" using q by (auto simp: filter_empty_conv)
      then show False using True Cons.prems(2) by simp
    next
      case False
      then have "request_items c r = request_items c q" "request_items c r \<noteq> []"
        using eq by (cases r; cases q; simp add: is_evm_request_def)+
      moreover have "set (request_items c q) \<subseteq> set (concat (map (request_items c) R))" using q by auto
      ultimately show False using Cons.prems(1)
        by (metis concat.simps(2) distinct_append inf.absorb_iff1 list.simps(9) set_empty)
    qed
  qed
  moreover have "distinct (map request_key R)"
    using Cons.IH Cons.prems by (auto split: if_splits)
  ultimately show ?case by auto
qed simp

lemma answered_item:
  assumes ok: "plan_ok c" and inv: "job_inv c J" and r: "r \<in> set (jb_requests J)"
    and ans: "request_answered (jb_state J) r"
  shows "set (request_items c r) \<subseteq> ta_stored (abs_job c J)"
proof -
  have rok: "request_ok c r" and ar: "ps_leaf_arity (jb_state J) = tp_leaf_arity c"
      "ps_internal_arity (jb_state J) = tp_internal_arity c"
    using inv r by (auto simp: job_inv_def state_ok_def)
  show ?thesis
  proof (cases r)
    case (LeafProveReq q)
    then obtain j where "lpr_segment_start q = first_segment c (Suc 0) j" using rok by auto
    then show ?thesis using LeafProveReq ans ok ar
      by (simp add: abs_job_def first_segment_def level_span_leaf del: level_span.simps)
  qed (use ans ar in \<open>simp_all add: abs_job_def\<close>)
qed

text \<open>The situation in which nothing is left to be delivered.\<close>

definition all_answered :: "tree_plan \<Rightarrow> job \<Rightarrow> bool" where
  "all_answered c J \<longleftrightarrow>
     ps_num_segments (jb_state J) \<noteq> None \<and>
     (\<forall>i < tp_segments c. map_of (ps_app_proofs (jb_state J)) i \<noteq> None) \<and>
     (\<forall>r \<in> set (jb_requests J). request_answered (jb_state J) r)"

lemma all_answered_abs:
  assumes "plan_ok c" "job_inv c J" "all_answered c J"
  shows "ta_known (abs_job c J)" "\<forall>i < tp_segments c. (0, i) \<in> ta_stored (abs_job c J)"
    "set (ta_emitted (abs_job c J)) \<subseteq> ta_stored (abs_job c J)"
proof -
  show "ta_known (abs_job c J)" "\<forall>i < tp_segments c. (0, i) \<in> ta_stored (abs_job c J)"
    using assms(3) by (simp_all add: all_answered_def abs_job_def)
  have "set (request_items c r) \<subseteq> ta_stored (abs_job c J)" if "r \<in> set (jb_requests J)" for r
    using answered_item [OF assms(1,2) that] assms(3) that by (simp add: all_answered_def)
  then show "set (ta_emitted (abs_job c J)) \<subseteq> ta_stored (abs_job c J)"
    by (auto simp: abs_job_def)
qed

lemma final_slot_iff:
  assumes "state_ok c s" "ps_num_segments s \<noteq> None"
  shows "final_internal_proof_present s \<longleftrightarrow> item_stored s (top_level c) 0"
proof -
  have "effective_final_layer s (tp_segments c) = final_layer c"
    using assms(1) by (simp add: effective_final_layer_def final_layer_def Let_def state_ok_def)
  moreover have "ps_num_segments s = Some (tp_segments c)" using assms by (simp add: state_ok_def)
  ultimately show ?thesis by (simp add: final_internal_proof_present_def top_level_def)
qed

lemma node_count_at:
  assumes ok: "plan_ok c" and k: "k \<le> final_layer c"
  shows "max (num_proofs_at_internal_layer_for_leaf_count (level_count c (Suc 0)) k (tp_internal_arity c)) 1
    = level_count c (Suc (Suc k))"
proof -
  let ?L = "level_count c (Suc 0)" and ?a = "tp_internal_arity c"
  have L: "0 < ?L" using ok by simp
  have one: "level_count c (Suc (Suc k)) = 1" if "?L \<le> ?a ^ Suc k"
  proof -
    have "div_ceil ?L (?a ^ Suc k) \<le> 1" using that ok by (simp add: div_ceil_le_iff)
    moreover have "0 < div_ceil ?L (?a ^ Suc k)" using L ok by simp
    ultimately show ?thesis unfolding level_count_internal [OF ok] by linarith
  qed
  show ?thesis
  proof (cases "?L \<noteq> 1 \<and> k < num_internal_layers ?L ?a")
    case True
    have "num_proofs_at_internal_layer_for_leaf_count ?L k ?a = level_count c (Suc (Suc k))"
      using True L plan_okD(3) [OF ok]
      by (simp add: num_proofs_at_eq level_count_internal [OF ok] del: level_count.simps)
    then show ?thesis using level_count_pos [OF ok, of "Suc (Suc k)"] by (simp only: max_def) simp
  next
    case out: False
    have "?L \<le> ?a ^ Suc k"
    proof (cases "?L = 1")
      case False
      with out have "num_internal_layers ?L ?a \<le> k" by simp
      moreover have "?L \<le> ?a ^ num_internal_layers ?L ?a"
        using False L by (intro num_internal_layers_spec(1) plan_okD(3) ok) simp
      moreover have "?a ^ num_internal_layers ?L ?a \<le> ?a ^ Suc k"
        using calculation(1) plan_okD(4) [OF ok] by (intro power_increasing) (simp, linarith)
      ultimately show ?thesis by linarith
    next
      case True
      then show ?thesis using plan_okD(4) [OF ok] by (metis Suc_leI One_nat_def one_le_power)
    qed
    then show ?thesis using one out L plan_okD(3) [OF ok]
      by (auto simp: num_proofs_at_eq simp del: level_count.simps)
  qed
qed

definition is_internal_request :: "general_prove_request \<Rightarrow> bool" where
  "is_internal_request r \<longleftrightarrow> step_of_request r = InternalProve"

lemma internal_requests_emitted:
  "length (filter is_internal_request R) =
     length (filter (\<lambda>(l, j). 2 \<le> l) (concat (map (request_items c) R)))"
proof (induction R)
  case (Cons r R)
  then show ?case by (cases r) (simp_all add: is_internal_request_def)
qed simp

lemma internal_request_count:
  assumes ok: "plan_ok c" and inv: "job_inv c J" and all: "all_answered c J"
  shows "length (filter is_internal_request (jb_requests J)) =
    (\<Sum>k \<le> final_layer c. level_count c (Suc (Suc k)))"
proof -
  let ?E = "ta_emitted (abs_job c J)" and ?P = "\<lambda>(l, j). 2 \<le> (l :: nat)"
  have ti: "tree_inv c (abs_job c J)" using inv by (simp add: job_inv_def)
  have E: "?E = concat (map (request_items c) (jb_requests J))" by (simp add: abs_job_def)
  have sE: "set ?E = (SIGMA l : {1..top_level c}. {..<level_count c l})"
    using tree_emitted_all [OF ok ti all_answered_abs [OF ok inv all]] .
  have "set (filter ?P ?E) = (SIGMA l : {2..top_level c}. {..<level_count c l})"
    unfolding set_filter sE by auto
  moreover have "length (filter ?P ?E) = card (set (filter ?P ?E))"
    by (rule distinct_card [OF distinct_filter [OF tree_inv_distinct [OF ti]], symmetric])
  ultimately have "length (filter ?P ?E) = card (SIGMA l : {2..top_level c}. {..<level_count c l})"
    by simp
  also have "\<dots> = (\<Sum>l = 2..top_level c. level_count c l)"
    by (subst card_SigmaI) simp_all
  also have "\<dots> = (\<Sum>k \<le> final_layer c. level_count c (Suc (Suc k)))"
    using sum.shift_bounds_cl_nat_ivl [of "level_count c" 0 2 "final_layer c"]
    by (simp only: top_level_def atLeast0AtMost numeral_2_eq_2 add_Suc_right add_0_right add_0)
  finally show ?thesis using internal_requests_emitted E by metis
qed

lemma deferral_node_index:
  assumes ok: "plan_ok c" and st: "state_ok c s" and kn: "ps_num_segments s \<noteq> None"
    and d: "build_deferral_tail_dispatch s k = Some d"
  shows "ilm_internal_node_idx (dtd_layer_metadata d) =
    word_of_nat ((\<Sum>k \<le> final_layer c. level_count c (Suc (Suc k))) - 1)"
proof -
  let ?L = "level_count c (Suc 0)" and ?a = "tp_internal_arity c"
  have ar: "ps_leaf_arity s = tp_leaf_arity c" "ps_internal_arity s = ?a"
    "ps_num_segments s = Some (tp_segments c)"
    using st kn by (auto simp: state_ok_def)
  have L: "div_ceil (tp_segments c) (tp_leaf_arity c) = ?L" by (simp add: fan_in_def)
  have F: "max (num_internal_layers ?L ?a) 2 - 1 = final_layer c"
    by (simp add: final_layer_def level_count_leaf [symmetric] del: level_count.simps)
  let ?g = "\<lambda>layer. max (num_proofs_at_internal_layer_for_leaf_count ?L layer ?a) 1"
  have "sum_list (map ?g [0..<Suc (final_layer c)]) = (\<Sum>k \<leftarrow> [0..<Suc (final_layer c)]. level_count c (Suc (Suc k)))"
    by (intro arg_cong [of _ _ sum_list] map_cong refl node_count_at [OF ok]) (simp only: set_upt, simp)
  also have "\<dots> = (\<Sum>k \<le> final_layer c. level_count c (Suc (Suc k)))"
    by (simp only: interv_sum_list_conv_sum_set_nat set_upt lessThan_Suc_atMost [symmetric] atLeast0LessThan)
  finally have sum: "sum_list (map ?g [0..<Suc (final_layer c)]) =
      (\<Sum>k \<le> final_layer c. level_count c (Suc (Suc k)))" .
  show ?thesis
    using d unfolding build_deferral_tail_dispatch_def Let_def ar option.case L F sum
    by (auto split: if_splits)
qed

text \<open>An executable test that a list of results can be delivered in order.\<close>

fun stream_ok :: "tree_plan \<Rightarrow> build \<Rightarrow> clock \<Rightarrow> proof_result list \<Rightarrow> job \<Rightarrow> bool" where
  "stream_ok c b ck [] J = True"
| "stream_ok c b ck (r # rs) J =
     ((job_input c (jb_state J) r \<or>
       (list_ex (\<lambda>req. answers req r) (jb_requests J) \<and>
        (is_internal_result r \<longrightarrow> ps_num_segments (jb_state J) \<noteq> None))) \<and>
      stream_ok c b ck rs (deliver b ck (demo_envelope r) J))"

fun run_stream :: "build \<Rightarrow> clock \<Rightarrow> proof_result list \<Rightarrow> job \<Rightarrow> job" where
  "run_stream b ck [] J = J"
| "run_stream b ck (r # rs) J = run_stream b ck rs (deliver b ck (demo_envelope r) J)"

lemma job_run_stream: "job_run c b J \<Longrightarrow> stream_ok c b ck rs J \<Longrightarrow> job_run c b (run_stream b ck rs J)"
proof (induction rs arbitrary: J)
  case (Cons r rs)
  have m: "me_message (demo_envelope r) = r" by (simp add: demo_envelope_def)
  have "job_run c b (deliver b ck (demo_envelope r) J)"
    using Cons.prems job_run.input [of c b J "demo_envelope r" ck]
      job_run.answer [of c b J _ "demo_envelope r" ck]
    by (auto simp: m list_ex_iff)
  then show ?case using Cons by simp
qed simp

text \<open>One segment, leaf fan-in one, internal fan-in two, the app proof before the execution result.\<close>

definition demo_plan :: tree_plan where
  "demo_plan = \<lparr>tp_segments = 1, tp_leaf_arity = 1, tp_internal_arity = 2\<rparr>"

definition demo_results :: "proof_result list" where
  "demo_results = [demo_app 0, demo_e2 1, demo_leaf 0 0, demo_internal 0 0 0, demo_internal 1 0 0]"

definition demo_job :: job where
  "demo_job = run_stream Mock_Provers demo_clock demo_results (job_of (demo_state Stark 1 2) [])"

lemma plan_ok_demo: "plan_ok demo_plan"
  by (simp add: plan_ok_def demo_plan_def)

lemma demo_stream_ok: "stream_ok demo_plan Mock_Provers demo_clock demo_results (job_of (demo_state Stark 1 2) [])"
  by code_simp

lemma job_run_demo: "job_run demo_plan Mock_Provers demo_job"
  unfolding demo_job_def
  by (rule job_run_stream [OF job_run.start demo_stream_ok])
     (simp add: fresh_state_def demo_state_def proof_state_new_def demo_plan_def)

lemma demo_all_answered: "all_answered demo_plan demo_job"
  by code_simp

lemma job_run_distinct_keys:
  assumes "plan_ok c" "job_run c b J"
  shows "distinct (map request_key (jb_requests J))"
proof -
  have inv: "job_inv c J" using assms by (rule job_run_inv)
  then have "distinct (concat (map (request_items c) (jb_requests J)))"
    using tree_inv_distinct [of c "abs_job c J"] by (simp add: job_inv_def abs_job_def)
  then show ?thesis using inv by (intro distinct_request_keys) (auto simp: job_inv_def)
qed

lemma all_answered_ready:
  assumes "plan_ok c" "job_inv c J" "all_answered c J"
  shows "is_ready_for_finalization (jb_state J)"
proof -
  note inv = assms(2)
  have st: "state_ok c (jb_state J)" and ti: "tree_inv c (abs_job c J)"
    and kn: "ps_num_segments (jb_state J) \<noteq> None"
    using inv assms(3) by (simp_all add: job_inv_def all_answered_def)
  have "(top_level c, 0) \<in> ta_stored (abs_job c J)"
    using tree_progress [OF assms(1) ti all_answered_abs [OF assms(1) inv assms(3)]] .
  then have top: "item_stored (jb_state J) (top_level c) 0" by (simp add: abs_job_def)
  show ?thesis
  proof (cases "pc_proof_type (ps_context (jb_state J))")
    case Stark
    then show ?thesis using top final_slot_iff [OF st kn] by (simp add: is_ready_for_finalization_def)
  next
    case Evm
    then have "filter is_evm_request (jb_requests J) \<noteq> []"
      using top inv by (auto simp: job_inv_def)
    then obtain r where r: "r \<in> set (jb_requests J)" "is_evm_request r" by (auto simp: filter_empty_conv)
    obtain q where "r = EvmProveReq q" using r(2) by (cases r) (simp_all add: is_evm_request_def)
    moreover have "request_answered (jb_state J) r" using assms(3) r(1) by (simp add: all_answered_def)
    ultimately obtain e where "ps_evm_proof (jb_state J) = Some e" by auto
    moreover from this have "eps_proof e \<noteq> None" using st by (simp add: state_ok_def proof_state_wf_def)
    ultimately show ?thesis using Evm by (simp add: is_ready_for_finalization_def)
  qed
qed

section \<open>Properties\<close>







text \<open>The node index sent with the deferral tail: it is the number of internal requests of the
  finished job minus one, that is, the index of its last internal node, in 32 bits.\<close>

theorem deferral_node_index_counts_requests:
  assumes "plan_ok c" "job_run c b J" "all_answered c J"
    and "build_deferral_tail_dispatch (jb_state J) k = Some d"
  shows "ilm_internal_node_idx (dtd_layer_metadata d) =
    word_of_nat (length (filter is_internal_request (jb_requests J)) - 1)"
proof -
  have inv: "job_inv c J" using assms(1,2) by (rule job_run_inv)
  have "state_ok c (jb_state J)" "ps_num_segments (jb_state J) \<noteq> None"
    using inv assms(3) by (simp_all add: job_inv_def all_answered_def)
  then show ?thesis
    using deferral_node_index [OF assms(1) _ _ assms(4)] internal_request_count [OF assms(1) inv assms(3)]
    by simp
qed

definition demo_deferral_job :: job where
  "demo_deferral_job = run_stream Mock_Provers demo_clock demo_results
     (job_of ((demo_state Stark 1 2)\<lparr>ps_deferral_circuit_count := 1\<rparr>) [])"

theorem deferral_node_index_counts_requests_witness:
  "map_option (\<lambda>d. ilm_internal_node_idx (dtd_layer_metadata d))
     (build_deferral_tail_dispatch (jb_state demo_deferral_job) 1) = Some 1"
proof -
  have ok: "stream_ok demo_plan Mock_Provers demo_clock demo_results
      (job_of ((demo_state Stark 1 2)\<lparr>ps_deferral_circuit_count := 1\<rparr>) [])" by code_simp
  have run: "job_run demo_plan Mock_Provers demo_deferral_job"
    unfolding demo_deferral_job_def
    by (rule job_run_stream [OF job_run.start ok])
       (simp add: fresh_state_def demo_state_def proof_state_new_def demo_plan_def)
  have all: "all_answered demo_plan demo_deferral_job" by code_simp
  have len: "length (filter is_internal_request (jb_requests demo_deferral_job)) = 2" by code_simp
  have "build_deferral_tail_dispatch (jb_state demo_deferral_job) 1 \<noteq> None" by code_simp
  then obtain d where "build_deferral_tail_dispatch (jb_state demo_deferral_job) 1 = Some d" by blast
  then show ?thesis using deferral_node_index_counts_requests [OF plan_ok_demo run all] len by simp
qed

text \<open>C40. What the order restriction is for: two segments, leaf fan-in one, internal fan-in two. When the
  execution result arrives after the layer-0 internal proof, every result has been delivered and
  every request answered, but the wrap layer is never requested and the job is not ready: it can only
  time out.\<close>

definition late_e2_job :: job where
  "late_e2_job = run_stream Mock_Provers demo_clock
     [demo_app 0, demo_app 1, demo_leaf 0 0, demo_leaf 1 1, demo_internal 0 0 1, demo_e2 2]
     (job_of (demo_state Stark 1 2) [])"


end
