(* ===== verification/Payload_Flow.thy ===== *)
theory Payload_Flow
  imports Job_Run
begin

text \<open>
  Where the proofs a request carries come from. A run of \<open>Job_Run\<close> is recorded together with the
  results that were delivered in it; every slot of the proof state then holds a delivered result of
  its own index, whatever was duplicated or overwritten, and every request carries, in the order of
  the children of its node, one delivered proof for each of them. This is what makes the recursion
  sound: a leaf or internal prover never aggregates the proof of another segment range.
\<close>

section \<open>Recorded runs\<close>

inductive fed_run :: "tree_plan \<Rightarrow> build \<Rightarrow> proof_result list \<Rightarrow> job \<Rightarrow> bool" for c b where
  start: "fresh_state c s \<Longrightarrow> fed_run c b [] (job_of s [])"
| input: "fed_run c b rs J \<Longrightarrow> job_input c (jb_state J) (me_message env) \<Longrightarrow>
    fed_run c b (rs @ [me_message env]) (deliver b ck env J)"
| answer: "fed_run c b rs J \<Longrightarrow> req \<in> set (jb_requests J) \<Longrightarrow> answers req (me_message env) \<Longrightarrow>
    (is_internal_result (me_message env) \<longrightarrow> ps_num_segments (jb_state J) \<noteq> None) \<Longrightarrow>
    fed_run c b (rs @ [me_message env]) (deliver b ck env J)"

lemma fed_run_job_run: "fed_run c b rs J \<Longrightarrow> job_run c b J"
  by (induction rule: fed_run.induct) (blast intro: job_run.intros)+

lemma job_run_fed_run: "job_run c b J \<Longrightarrow> \<exists>rs. fed_run c b rs J"
  by (induction rule: job_run.induct) (blast intro: fed_run.intros)+

lemma fed_run_stream:
  "fed_run c b qs J \<Longrightarrow> stream_ok c b ck rs J \<Longrightarrow> fed_run c b (qs @ rs) (run_stream b ck rs J)"
proof (induction rs arbitrary: qs J)
  case (Cons r rs)
  have m: "me_message (demo_envelope r) = r" by (simp add: demo_envelope_def)
  have "fed_run c b (qs @ [r]) (deliver b ck (demo_envelope r) J)"
    using Cons.prems fed_run.input [of c b qs J "demo_envelope r" ck]
      fed_run.answer [of c b qs J _ "demo_envelope r" ck]
    by (auto simp: m list_ex_iff)
  from Cons.IH [OF this] Cons.prems(2) show ?case by simp
qed simp

section \<open>The results and the nodes of the tree\<close>

text \<open>The node a delivered result belongs to, and the proof it carries.\<close>

fun result_item :: "tree_plan \<Rightarrow> proof_result \<Rightarrow> (nat \<times> nat) option" where
  "result_item c (AppRes _ st) = Some (0, aps_segment_idx st)"
| "result_item c (LeafRes _ st) = Some (1, lps_segment_start st div tp_leaf_arity c)"
| "result_item c (InternalRes _ st) =
     Some (Suc (Suc (ips_layer_idx st)),
       segment_start_to_internal_idx_with_batch (ips_segment_start st) (ips_layer_idx st) (tp_leaf_arity c)
         (tp_internal_arity c))"
| "result_item c _ = None"

fun result_proof :: "proof_result \<Rightarrow> bytes option" where
  "result_proof (AppRes _ st) = aps_proof st"
| "result_proof (LeafRes _ st) = lps_proof st"
| "result_proof (InternalRes _ st) = ips_proof st"
| "result_proof _ = None"

definition delivered_for :: "tree_plan \<Rightarrow> proof_result list \<Rightarrow> nat \<Rightarrow> nat \<Rightarrow> bytes \<Rightarrow> bool" where
  "delivered_for c rs l x p \<longleftrightarrow> (\<exists>r \<in> set rs. result_item c r = Some (l, x) \<and> result_proof r = Some p)"

text \<open>A request carries the delivered proofs of exactly the children of its node; the EVM request carries
  the proof and the deferral proofs of a delivered final internal result.\<close>

fun carries :: "tree_plan \<Rightarrow> proof_result list \<Rightarrow> general_prove_request \<Rightarrow> bool" where
  "carries c rs (LeafProveReq r) =
     (\<exists>j < level_count c 1. request_items c (LeafProveReq r) = [(1, j)] \<and>
        list_all2 (delivered_for c rs 0) (children c 0 j) (lpr_app_proofs r))"
| "carries c rs (InternalProveReq r) =
     (let l = Suc (ipr_layer_idx r) in
      \<exists>j < level_count c (Suc l). request_items c (InternalProveReq r) = [(Suc l, j)] \<and>
        list_all2 (delivered_for c rs l) (children c l j) (ipr_child_proofs r))"
| "carries c rs (EvmProveReq r) =
     (\<exists>cx st. InternalRes cx st \<in> set rs \<and> result_item c (InternalRes cx st) = Some (top_level c, 0) \<and>
        ips_ready_for_evm st \<and> ips_proof st = Some (epr_internal_proof_bytes r) \<and>
        epr_deferral_merkle_proofs_bytes r = ips_deferral_merkle_proofs_bytes st)"

lemma delivered_for_mono: "delivered_for c rs l x p \<Longrightarrow> delivered_for c (rs @ qs) l x p"
  by (auto simp: delivered_for_def)

lemma carries_mono: "carries c rs r \<Longrightarrow> carries c (rs @ qs) r"
proof (cases r)
  case (EvmProveReq e)
  then show "carries c rs r \<Longrightarrow> carries c (rs @ qs) r" by auto
qed (auto simp: Let_def simp del: level_count.simps elim!: list_all2_mono intro!: delivered_for_mono)

section \<open>The slots hold delivered results\<close>

definition internal_slot :: "tree_plan \<Rightarrow> internal_proof_state \<Rightarrow> internal_proof_index" where
  "internal_slot c st =
     \<lparr>ipi_layer_idx = ips_layer_idx st,
      ipi_idx = segment_start_to_internal_idx_with_batch (ips_segment_start st) (ips_layer_idx st)
        (tp_leaf_arity c) (tp_internal_arity c)\<rparr>"

definition slots_delivered :: "tree_plan \<Rightarrow> proof_result list \<Rightarrow> proof_state \<Rightarrow> bool" where
  "slots_delivered c rs s \<longleftrightarrow>
     (\<forall>i st. map_of (ps_app_proofs s) i = Some st \<longrightarrow> aps_segment_idx st = i \<and> (\<exists>cx. AppRes cx st \<in> set rs)) \<and>
     (\<forall>i st. map_of (ps_leaf_proofs s) i = Some st \<longrightarrow> lps_segment_start st = i \<and> (\<exists>cx. LeafRes cx st \<in> set rs)) \<and>
     (\<forall>k st. map_of (ps_internal_proofs s) k = Some st \<longrightarrow>
        internal_slot c st = k \<and> (\<exists>cx. InternalRes cx st \<in> set rs))"

text \<open>A handler leaves the three maps alone or updates one of them with the result it was given.\<close>

definition slots_from :: "tree_plan \<Rightarrow> proof_result \<Rightarrow> proof_state \<Rightarrow> proof_state \<Rightarrow> bool" where
  "slots_from c m s s' \<longleftrightarrow>
     (ps_app_proofs s' = ps_app_proofs s \<or>
      (\<exists>cx st. m = AppRes cx st \<and> ps_app_proofs s' = AList.update (aps_segment_idx st) st (ps_app_proofs s))) \<and>
     (ps_leaf_proofs s' = ps_leaf_proofs s \<or>
      (\<exists>cx st. m = LeafRes cx st \<and> ps_leaf_proofs s' = AList.update (lps_segment_start st) st (ps_leaf_proofs s))) \<and>
     (ps_internal_proofs s' = ps_internal_proofs s \<or>
      (\<exists>cx st. m = InternalRes cx st \<and> ps_internal_proofs s' = AList.update (internal_slot c st) st (ps_internal_proofs s)))"

lemma updated_slots:
  assumes "\<forall>k v. map_of m k = Some v \<longrightarrow> P k v" "m' = m \<or> (\<exists>k v. Q k v \<and> m' = AList.update k v m)"
    and "\<And>k v. P k v \<Longrightarrow> R k v" "\<And>k v. Q k v \<Longrightarrow> R k v"
  shows "\<forall>k v. map_of m' k = Some v \<longrightarrow> R k v"
  using assms by (auto simp: update_conv' split: if_splits)

lemma slots_delivered_step:
  assumes sl: "slots_delivered c rs s" and fr: "slots_from c m s s'"
  shows "slots_delivered c (rs @ [m]) s'"
  unfolding slots_delivered_def
proof (intro conjI)
  show "\<forall>i st. map_of (ps_app_proofs s') i = Some st \<longrightarrow>
      aps_segment_idx st = i \<and> (\<exists>cx. AppRes cx st \<in> set (rs @ [m]))"
    by (rule updated_slots [where Q = "\<lambda>k v. aps_segment_idx v = k \<and> (\<exists>cx. m = AppRes cx v)" and
          P = "\<lambda>i st. aps_segment_idx st = i \<and> (\<exists>cx. AppRes cx st \<in> set rs)" and m = "ps_app_proofs s"])
      (use sl fr in \<open>auto simp: slots_delivered_def slots_from_def\<close>)
  show "\<forall>i st. map_of (ps_leaf_proofs s') i = Some st \<longrightarrow>
      lps_segment_start st = i \<and> (\<exists>cx. LeafRes cx st \<in> set (rs @ [m]))"
    by (rule updated_slots [where Q = "\<lambda>k v. lps_segment_start v = k \<and> (\<exists>cx. m = LeafRes cx v)" and
          P = "\<lambda>i st. lps_segment_start st = i \<and> (\<exists>cx. LeafRes cx st \<in> set rs)" and m = "ps_leaf_proofs s"])
      (use sl fr in \<open>auto simp: slots_delivered_def slots_from_def\<close>)
  show "\<forall>k st. map_of (ps_internal_proofs s') k = Some st \<longrightarrow>
      internal_slot c st = k \<and> (\<exists>cx. InternalRes cx st \<in> set (rs @ [m]))"
    by (rule updated_slots [where Q = "\<lambda>k v. internal_slot c v = k \<and> (\<exists>cx. m = InternalRes cx v)" and
          P = "\<lambda>k st. internal_slot c st = k \<and> (\<exists>cx. InternalRes cx st \<in> set rs)" and m = "ps_internal_proofs s"])
      (use sl fr in \<open>auto simp: slots_delivered_def slots_from_def\<close>)
qed

lemma slots_from_frame [simp]:
  "slots_from c m s (record_completion t s') = slots_from c m s s'"
  "slots_from c m s (notify_completion s') = slots_from c m s s'"
  "slots_from c m (s\<lparr>ps_last_updated := u\<rparr>) s' = slots_from c m s s'"
  "slots_from c m s s"
  by (simp_all add: slots_from_def record_completion_def notify_completion_def)

lemma app_result_slots: "slots_from c (AppRes cx st) s (fst (handle_app_result t st s))"
  by (auto simp: handle_app_result_def slots_from_def fail_with_def notify_completion_def Let_def)

lemma leaf_result_slots: "slots_from c (LeafRes cx st) s (fst (handle_leaf_result t st s))"
  by (auto simp: handle_leaf_result_def slots_from_def fail_with_def notify_completion_def Let_def)

lemma internal_result_slots:
  assumes "ps_leaf_arity s = tp_leaf_arity c" "ps_internal_arity s = tp_internal_arity c"
  shows "slots_from c (InternalRes cx st) s (fst (handle_internal_result t st s))"
  using assms
  by (auto simp: handle_internal_result_def slots_from_def fail_with_def notify_completion_def internal_slot_def Let_def)

lemma other_result_slots:
  "slots_from c m s (fst (handle_execute_e2_result b e s))"
  "slots_from c m s (fst (handle_halo2_result h s))"
  "slots_from c m s (handle_error_result r s)"
  "slots_from c m s (fst (fail_with msg s))"
  by (simp_all add: handle_execute_e2_result_def handle_halo2_result_def handle_error_result_def
      slots_from_def fail_with_def notify_completion_def Let_def)

lemma deliver_slots:
  assumes "ps_leaf_arity (jb_state J) = tp_leaf_arity c" "ps_internal_arity (jb_state J) = tp_internal_arity c"
  shows "slots_from c (me_message env) (jb_state J) (jb_state (deliver b ck env J))"
proof (cases "is_sealed_for_results (jb_state J)")
  case True
  then show ?thesis by (simp add: deliver_def sealed_outcome slots_from_def)
next
  case False
  let ?s = "(jb_state J)\<lparr>ps_last_updated := ck_received ck\<rparr>" and ?m = "me_message env"
  let ?h = "handle_proof_result b ck ?m ?s"
  have "jb_state (deliver b ck env J) = fst ?h"
    using False by (simp add: deliver_def handle_proof_result_with_envelope_outcome_def split: prod.split outcome.split)
  moreover have "slots_from c ?m ?s (fst ?h)"
  proof (cases "is_sealed_for_results ?s")
    case False
    have ar: "ps_leaf_arity ?s = tp_leaf_arity c" "ps_internal_arity ?s = tp_internal_arity c" using assms by simp_all
    have slots: "handle_app_result t e1 ?s = (s1, r) \<Longrightarrow> slots_from c (AppRes cx e1) (jb_state J) s1"
      "handle_leaf_result t e2 ?s = (s1, r) \<Longrightarrow> slots_from c (LeafRes cx e2) (jb_state J) s1"
      "handle_internal_result t e3 ?s = (s1, r) \<Longrightarrow> slots_from c (InternalRes cx e3) (jb_state J) s1"
      "handle_execute_e2_result b' e4 ?s = (s1, r) \<Longrightarrow> slots_from c m (jb_state J) s1"
      "handle_halo2_result h ?s = (s1, r) \<Longrightarrow> slots_from c m (jb_state J) s1"
      for e1 e2 e3 e4 h b' t cx m s1 r
      using app_result_slots [of c cx e1 ?s t] leaf_result_slots [of c cx e2 ?s t]
        internal_result_slots [OF ar, of cx e3 t] other_result_slots(1) [of c m ?s b' e4] other_result_slots(2) [of c m ?s h]
      by simp_all
    have other: "slots_from c m (jb_state J) (handle_error_result r ?s)" "slots_from c m (jb_state J) (fst (fail_with msg ?s))"
      for m r msg
      using other_result_slots(3,4) [of c m ?s] by simp_all
    show ?thesis
      using False other
      by (cases ?m) (auto simp: handle_proof_result_def Let_def split: prod.splits outcome.splits intro: slots)
  qed (simp add: handle_proof_result_def)
  ultimately show ?thesis by simp
qed

section \<open>From the slots to the requests\<close>

lemma stored_payload_delivered:
  assumes ok: "plan_ok c" and st: "state_ok c s" and sl: "slots_delivered c rs s" and it: "item_stored s l x"
  shows "delivered_for c rs l x (item_payload s l x)"
proof -
  have wf: "hm_all (\<lambda>st. aps_proof st \<noteq> None) (ps_app_proofs s)" "hm_all (\<lambda>st. lps_proof st \<noteq> None) (ps_leaf_proofs s)"
      "hm_all (\<lambda>st. ips_proof st \<noteq> None) (ps_internal_proofs s)"
    and la: "ps_leaf_arity s = tp_leaf_arity c" "0 < tp_leaf_arity c"
    using st ok by (simp_all add: state_ok_def proof_state_wf_def)
  consider "l = 0" | "l = Suc 0" | k where "l = Suc (Suc k)" by (metis not0_implies_Suc)
  then show ?thesis
  proof cases
    case 1
    with it obtain e where e: "map_of (ps_app_proofs s) x = Some e" by auto
    moreover obtain cx where "AppRes cx e \<in> set rs" "aps_segment_idx e = x"
      using sl e unfolding slots_delivered_def by blast
    moreover obtain p where "aps_proof e = Some p" using hm_all_get [OF wf(1) e] by auto
    ultimately show ?thesis using 1 by (auto simp: delivered_for_def item_payload_def intro!: bexI [of _ "AppRes cx e"])
  next
    case 2
    with it obtain e where e: "map_of (ps_leaf_proofs s) (x * ps_leaf_arity s) = Some e" by auto
    moreover obtain cx where "LeafRes cx e \<in> set rs" "lps_segment_start e = x * ps_leaf_arity s"
      using sl e unfolding slots_delivered_def by blast
    moreover obtain p where "lps_proof e = Some p" using hm_all_get [OF wf(2) e] by auto
    ultimately show ?thesis
      using 2 la by (auto simp: delivered_for_def item_payload_def child_payload_def intro!: bexI [of _ "LeafRes cx e"])
  next
    case 3
    let ?k = "\<lparr>ipi_layer_idx = k, ipi_idx = x\<rparr>"
    from 3 it obtain e where e: "map_of (ps_internal_proofs s) ?k = Some e" by auto
    moreover obtain cx where "InternalRes cx e \<in> set rs" "internal_slot c e = ?k"
      using sl e unfolding slots_delivered_def by blast
    moreover obtain p where "ips_proof e = Some p" using hm_all_get [OF wf(3) e] by auto
    ultimately show ?thesis
      using 3 by (auto simp: delivered_for_def item_payload_def child_payload_def internal_slot_def
          intro!: bexI [of _ "InternalRes cx e"])
  qed
qed

lemma drawn_carries:
  assumes ok: "plan_ok c" and st: "state_ok c s" and sl: "slots_delivered c rs s" and d: "drawn c s r"
  shows "carries c rs r"
proof -
  have all: "list_all2 (delivered_for c rs l) xs (map (item_payload s l) xs)"
    if "\<forall>x \<in> set xs. item_stored s l x" for l xs
    using stored_payload_delivered [OF ok st sl] that
    by (simp add: list_all2_map2 list_all2_same del: item_stored.simps)
  show ?thesis
  proof (cases r)
    case (LeafProveReq q)
    with d obtain j where "j < level_count c (Suc 0)" "lpr_segment_start q = first_segment c (Suc 0) j"
        "\<forall>x \<in> set (children c 0 j). item_stored s 0 x" "lpr_app_proofs q = map (item_payload s 0) (children c 0 j)"
      by (auto simp del: item_stored.simps level_count.simps)
    then show ?thesis
      using LeafProveReq all leaf_idx_first_segment [OF ok]
      by (auto simp del: item_stored.simps level_count.simps intro!: exI [of _ j])
  next
    case (InternalProveReq q)
    let ?l = "Suc (ipr_layer_idx q)"
    from InternalProveReq d obtain j where "j < level_count c (Suc ?l)"
        "ipr_segment_start q = first_segment c (Suc ?l) j"
        "\<forall>x \<in> set (children c ?l j). item_stored s ?l x" "ipr_child_proofs q = map (item_payload s ?l) (children c ?l j)"
      by (auto simp: Let_def simp del: item_stored.simps level_count.simps)
    then show ?thesis
      using InternalProveReq all internal_idx_first_segment [OF ok]
      by (auto simp: Let_def simp del: item_stored.simps level_count.simps intro!: exI [of _ j])
  next
    case (EvmProveReq q)
    let ?k = "\<lparr>ipi_layer_idx = final_layer c, ipi_idx = 0\<rparr>"
    from EvmProveReq d obtain e where e: "map_of (ps_internal_proofs s) ?k = Some e" "ips_ready_for_evm e"
        "epr_internal_proof_bytes q = the (ips_proof e)"
        "epr_deferral_merkle_proofs_bytes q = ips_deferral_merkle_proofs_bytes e"
      by auto
    moreover obtain cx where "InternalRes cx e \<in> set rs" "internal_slot c e = ?k"
      using sl e(1) unfolding slots_delivered_def by blast
    moreover have "ips_proof e \<noteq> None"
      using st e(1) by (auto simp: state_ok_def proof_state_wf_def dest: hm_all_get)
    ultimately show ?thesis
      using EvmProveReq by (auto simp: internal_slot_def top_level_def)
  qed
qed

lemma deliver_carries:
  assumes ok: "plan_ok c" and inv: "job_inv c J" and sl: "slots_delivered c rs (jb_state J)"
    and car: "\<forall>r \<in> set (jb_requests J). carries c rs r"
    and d: "job_inv c (deliver b ck env J)" "draws c (jb_requests J) (deliver b ck env J)"
  defines "J' \<equiv> deliver b ck env J"
  shows "slots_delivered c (rs @ [me_message env]) (jb_state J') \<and>
    (\<forall>r \<in> set (jb_requests J'). carries c (rs @ [me_message env]) r)"
proof -
  have sl': "slots_delivered c (rs @ [me_message env]) (jb_state J')"
    unfolding J'_def using inv
    by (intro slots_delivered_step [OF sl] deliver_slots) (simp_all add: job_inv_def state_ok_def)
  obtain reqs where "jb_requests J' = jb_requests J @ reqs" "\<forall>r \<in> set reqs. drawn c (jb_state J') r"
    using d(2) by (auto simp: draws_def J'_def)
  moreover have "state_ok c (jb_state J')" using d(1) by (simp add: job_inv_def J'_def)
  ultimately show ?thesis using sl' car drawn_carries [OF ok _ sl'] carries_mono by auto
qed

lemma fed_run_inv:
  assumes ok: "plan_ok c" and run: "fed_run c b rs J"
  shows "job_inv c J \<and> slots_delivered c rs (jb_state J) \<and> (\<forall>r \<in> set (jb_requests J). carries c rs r)"
  using run
proof induction
  case (start s)
  then show ?case using job_run_inv [OF ok job_run.start [OF start]]
    by (simp add: fresh_state_def slots_delivered_def)
next
  case (input rs J env ck)
  have "job_inv c (deliver b ck env J) \<and> draws c (jb_requests J) (deliver b ck env J)"
    using input by (cases J) (auto intro!: deliver_input_inv [OF ok])
  then show ?case using deliver_carries [OF ok, of J rs b ck env] input by blast
next
  case (answer rs J req env ck)
  have "job_inv c (deliver b ck env J) \<and> draws c (jb_requests J) (deliver b ck env J)"
    using deliver_answer [OF ok, of "jb_state J" "jb_requests J" req env b ck] answer by (cases J) simp
  then show ?case using deliver_carries [OF ok, of J rs b ck env] answer by blast
qed

section \<open>Property\<close>


lemma demo_recorded_run: "fed_run demo_plan Mock_Provers demo_results demo_job"
proof -
  have "fed_run demo_plan Mock_Provers [] (job_of (demo_state Stark 1 2) [])"
    by (rule fed_run.start) (simp add: fresh_state_def demo_state_def proof_state_new_def demo_plan_def)
  from fed_run_stream [OF this demo_stream_ok] show ?thesis by (simp add: demo_job_def)
qed


end
