(* ===== verification/Worker_Staging.thy ===== *)
theory Worker_Staging
  imports Pool_Dispatch
begin

text \<open>
  The inputs staged on a worker and its health endpoints, \<open>edge-worker/src/handlers.rs\<close>: the uploads into
  \<open>/dev/shm\<close>, their removal by the handlers and by the janitor, and the readiness check. The directory is
  a map from entry names to directories of files; every call of the file system is counted, and the
  environment decides for each call whether it fails (a failed write may leave bytes behind, a failed
  removal some files) and what time it is. \<open>bincode\<close> is a parameter.
\<close>

section \<open>The file system\<close>

record io_error =
  ie_raw_os_error :: "nat option"
  ie_not_found :: bool
  ie_message :: string

definition not_found :: io_error where
  "not_found = \<lparr>ie_raw_os_error = Some 2, ie_not_found = True, ie_message = ''No such file or directory (os error 2)''\<rparr>"

definition not_a_directory :: io_error where
  "not_a_directory = \<lparr>ie_raw_os_error = Some 20, ie_not_found = False, ie_message = ''Not a directory (os error 20)''\<rparr>"

definition is_no_space_error :: "io_error \<Rightarrow> bool" where
  "is_no_space_error e \<longleftrightarrow> ie_raw_os_error e = Some 28"

datatype shm_op =
  Op_Create_Dir string | Op_Write string string | Op_Rename string string string
| Op_Remove_Dir string | Op_Read_Dir | Op_Metadata string | Op_Modified string

record staged_dir =
  sd_modified :: instant
  sd_files :: "(string, bytes) hmap"

datatype shm_entry = Shm_Dir staged_dir | Shm_Other

record shm =
  fs_entries :: "(string, shm_entry) hmap"
  fs_calls :: nat

record shm_env =
  se_fault :: "nat \<Rightarrow> shm_op \<Rightarrow> io_error option"
  se_now :: "nat \<Rightarrow> instant"
  se_junk :: "nat \<Rightarrow> bytes option"
  se_survives :: "nat \<Rightarrow> string \<Rightarrow> bool"

definition tick :: "shm \<Rightarrow> shm" where
  "tick st = st\<lparr>fs_calls := Suc (fs_calls st)\<rparr>"

definition put_entry :: "string \<Rightarrow> shm_entry \<Rightarrow> shm \<Rightarrow> shm" where
  "put_entry name e st = st\<lparr>fs_entries := AList.update name e (fs_entries st)\<rparr>"

text \<open>Creating a file changes the modification time of its directory, overwriting one does not.\<close>

definition put_file :: "instant \<Rightarrow> string \<Rightarrow> bytes \<Rightarrow> staged_dir \<Rightarrow> staged_dir" where
  "put_file now file content d =
     d\<lparr>sd_files := AList.update file content (sd_files d),
       sd_modified := (if map_of (sd_files d) file = None then now else sd_modified d)\<rparr>"

definition shm_create_dir_all :: "shm_env \<Rightarrow> string \<Rightarrow> shm \<Rightarrow> shm \<times> (io_error + unit)" where
  "shm_create_dir_all env name st =
     (case se_fault env (fs_calls st) (Op_Create_Dir name) of
        Some e \<Rightarrow> (tick st, Inl e)
      | None \<Rightarrow>
          (case map_of (fs_entries st) name of
             None \<Rightarrow> (put_entry name (Shm_Dir \<lparr>sd_modified = se_now env (fs_calls st), sd_files = []\<rparr>) (tick st), Inr ())
           | Some (Shm_Dir d) \<Rightarrow> (tick st, Inr ())
           | Some Shm_Other \<Rightarrow> (tick st, Inl not_a_directory)))"

definition shm_write :: "shm_env \<Rightarrow> string \<Rightarrow> string \<Rightarrow> bytes \<Rightarrow> shm \<Rightarrow> shm \<times> (io_error + unit)" where
  "shm_write env name file content st =
     (let now = se_now env (fs_calls st) in
      case map_of (fs_entries st) name of
        Some (Shm_Dir d) \<Rightarrow>
          (case se_fault env (fs_calls st) (Op_Write name file) of
             None \<Rightarrow> (put_entry name (Shm_Dir (put_file now file content d)) (tick st), Inr ())
           | Some e \<Rightarrow>
               (case se_junk env (fs_calls st) of
                  None \<Rightarrow> (tick st, Inl e)
                | Some junk \<Rightarrow> (put_entry name (Shm_Dir (put_file now file junk d)) (tick st), Inl e)))
      | Some Shm_Other \<Rightarrow> (tick st, Inl not_a_directory)
      | None \<Rightarrow> (tick st, Inl not_found))"

definition shm_rename :: "shm_env \<Rightarrow> string \<Rightarrow> string \<Rightarrow> string \<Rightarrow> shm \<Rightarrow> shm \<times> (io_error + unit)" where
  "shm_rename env name src dst st =
     (case se_fault env (fs_calls st) (Op_Rename name src dst) of
        Some e \<Rightarrow> (tick st, Inl e)
      | None \<Rightarrow>
          (case map_of (fs_entries st) name of
             Some (Shm_Dir d) \<Rightarrow>
               (case map_of (sd_files d) src of
                  None \<Rightarrow> (tick st, Inl not_found)
                | Some content \<Rightarrow>
                    (put_entry name (Shm_Dir (d\<lparr>sd_files := AList.update dst content (AList.delete src (sd_files d)),
                       sd_modified := se_now env (fs_calls st)\<rparr>)) (tick st), Inr ()))
           | Some Shm_Other \<Rightarrow> (tick st, Inl not_a_directory)
           | None \<Rightarrow> (tick st, Inl not_found)))"

definition shm_remove_dir_all :: "shm_env \<Rightarrow> string \<Rightarrow> shm \<Rightarrow> shm \<times> (io_error + unit)" where
  "shm_remove_dir_all env name st =
     (case map_of (fs_entries st) name of
        Some (Shm_Dir d) \<Rightarrow>
          (case se_fault env (fs_calls st) (Op_Remove_Dir name) of
             None \<Rightarrow> ((tick st)\<lparr>fs_entries := AList.delete name (fs_entries st)\<rparr>, Inr ())
           | Some e \<Rightarrow>
               (put_entry name (Shm_Dir (d\<lparr>sd_files := filter (\<lambda>(f, _). se_survives env (fs_calls st) f) (sd_files d)\<rparr>))
                  (tick st), Inl e))
      | Some Shm_Other \<Rightarrow> (tick st, Inl not_a_directory)
      | None \<Rightarrow> (tick st, Inl not_found))"

section \<open>Paths\<close>

definition uploaded_input_root :: string where
  "uploaded_input_root = ''/dev/shm''"

definition max_worker_proof_uuid_len :: nat where
  "max_worker_proof_uuid_len = 256"

definition stale_uploaded_input_ttl :: int where
  "stale_uploaded_input_ttl = 600 * 1000000000"

definition validate_uploaded_proof_uuid :: "string \<Rightarrow> string option" where
  "validate_uploaded_proof_uuid proof_uuid =
     (if proof_uuid = [] then Some ''must not be empty''
      else if length proof_uuid > max_worker_proof_uuid_len then Some ''too long''
      else if \<not> list_all (\<lambda>c. is_ascii_alphanumeric c \<or> c = CHR ''_'' \<or> c = CHR ''-'') proof_uuid
      then Some ''contains invalid characters''
      else None)"

text \<open>The entry of a proof's directory, and the paths of the files in it.\<close>

definition uploaded_input_work_dir :: "string \<Rightarrow> string" where
  "uploaded_input_work_dir proof_uuid = ''edge_'' @ proof_uuid"

definition shm_path :: "string \<Rightarrow> string \<Rightarrow> string" where
  "shm_path name file = uploaded_input_root @ ''/'' @ name @ ''/'' @ file"

definition deferral_state_filename :: "nat \<Rightarrow> string" where
  "deferral_state_filename circuit_idx = ''deferral_state_'' @ show_nat circuit_idx @ ''.bin''"

definition deferral_input_filename :: "nat \<Rightarrow> string" where
  "deferral_input_filename circuit_idx = ''deferral_input_'' @ show_nat circuit_idx @ ''.bin''"

definition staged_input_path :: "string \<Rightarrow> string" where
  "staged_input_path proof_uuid = shm_path (uploaded_input_work_dir proof_uuid) ''input.bin''"

definition staged_deferral_state_path :: "string \<Rightarrow> nat \<Rightarrow> string" where
  "staged_deferral_state_path proof_uuid circuit_idx =
     shm_path (uploaded_input_work_dir proof_uuid) (deferral_state_filename circuit_idx)"

definition staged_deferral_input_path :: "string \<Rightarrow> nat \<Rightarrow> string" where
  "staged_deferral_input_path proof_uuid circuit_idx =
     shm_path (uploaded_input_work_dir proof_uuid) (deferral_input_filename circuit_idx)"

definition uploaded_input_proof_uuid_from_path :: "string \<Rightarrow> string option" where
  "uploaded_input_proof_uuid_from_path name = strip_prefix ''edge_'' name"

text \<open>Path resolution: the entry and the file that a path under the root names.\<close>

definition resolve_path :: "string \<Rightarrow> (string \<times> string) option" where
  "resolve_path path =
     (case strip_prefix (uploaded_input_root @ ''/'') path of
        None \<Rightarrow> None
      | Some rest \<Rightarrow>
          (case dropWhile (\<lambda>c. c \<noteq> CHR ''/'') rest of
             [] \<Rightarrow> None
           | c # file \<Rightarrow> Some (takeWhile (\<lambda>c. c \<noteq> CHR ''/'') rest, file)))"

definition shm_lookup :: "string \<Rightarrow> string \<Rightarrow> shm \<Rightarrow> bytes option" where
  "shm_lookup name file st =
     (case map_of (fs_entries st) name of Some (Shm_Dir d) \<Rightarrow> map_of (sd_files d) file | _ \<Rightarrow> None)"

definition shm_read :: "shm \<Rightarrow> string \<Rightarrow> bytes option" where
  "shm_read st path = (case resolve_path path of None \<Rightarrow> None | Some (name, file) \<Rightarrow> shm_lookup name file st)"

section \<open>State\<close>

record worker_info =
  wi_prover_id :: nat
  wi_num_provers :: nat
  wi_max_app_provers :: nat
  wi_default_segment_memory :: "nat option"
  wi_worker_role :: worker_role

text \<open>The file system and the set of the proofs whose inputs are in use.\<close>

record staging =
  stg_fs :: shm
  stg_active :: "string list"

type_synonym worker_response = "nat \<times> string"

section \<open>Removal\<close>

definition cleanup_uploaded_input_dir :: "shm_env \<Rightarrow> string \<Rightarrow> staging \<Rightarrow> staging" where
  "cleanup_uploaded_input_dir env proof_uuid st =
     st\<lparr>stg_active := removeAll proof_uuid (stg_active st),
       stg_fs := fst (shm_remove_dir_all env (uploaded_input_work_dir proof_uuid) (stg_fs st))\<rparr>"

text \<open>One entry of the scan. \<open>active\<close> is the membership in the set of active proofs at the time of the
  two checks, which other handlers change meanwhile; a failed call skips the entry. A clock that runs
  backwards gives the age zero.\<close>

definition cleanup_stale_entry ::
  "shm_env \<Rightarrow> (nat \<Rightarrow> string \<Rightarrow> bool) \<Rightarrow> int \<Rightarrow> string \<Rightarrow> shm \<times> nat \<Rightarrow> shm \<times> nat" where
  "cleanup_stale_entry env active stale_after name acc =
     (let (st, removed) = acc in
      case uploaded_input_proof_uuid_from_path name of
        None \<Rightarrow> (st, removed)
      | Some proof_uuid \<Rightarrow>
          if active (fs_calls st) proof_uuid then (st, removed)
          else let st1 = tick st in
            (case map_of (fs_entries st) name of
               Some (Shm_Dir d) \<Rightarrow>
                 if se_fault env (fs_calls st) (Op_Metadata name) \<noteq> None then (st1, removed)
                 else if se_fault env (fs_calls st1) (Op_Modified name) \<noteq> None then (tick st1, removed)
                 else let st2 = tick st1; age = max 0 (se_now env (fs_calls st2) - sd_modified d) in
                   if age < stale_after then (st2, removed)
                   else if active (fs_calls st2) proof_uuid then (st2, removed)
                   else (case shm_remove_dir_all env name st2 of
                           (st3, Inr _) \<Rightarrow> (st3, Suc removed)
                         | (st3, Inl _) \<Rightarrow> (st3, removed))
             | _ \<Rightarrow> (st1, removed)))"

definition cleanup_stale_uploaded_inputs ::
  "shm_env \<Rightarrow> (nat \<Rightarrow> string \<Rightarrow> bool) \<Rightarrow> int \<Rightarrow> shm \<Rightarrow> shm \<times> nat" where
  "cleanup_stale_uploaded_inputs env active stale_after st =
     (if se_fault env (fs_calls st) Op_Read_Dir \<noteq> None then (tick st, 0)
      else fold (cleanup_stale_entry env active stale_after) (map fst (fs_entries st)) (tick st, 0))"

text \<open>The set as the handler sees it when no other handler runs.\<close>

definition active_now :: "staging \<Rightarrow> nat \<Rightarrow> string \<Rightarrow> bool" where
  "active_now st n proof_uuid \<longleftrightarrow> proof_uuid \<in> set (stg_active st)"

text \<open>One round of \<open>uploaded_input_janitor_task\<close>.\<close>

definition janitor_round :: "shm_env \<Rightarrow> staging \<Rightarrow> staging" where
  "janitor_round env st =
     st\<lparr>stg_fs := fst (cleanup_stale_uploaded_inputs env (active_now st) stale_uploaded_input_ttl (stg_fs st))\<rparr>"

section \<open>Uploads\<close>

datatype uploaded_input_format = BincodeStdin | CompactBytes

definition prepare_uploaded_input_bytes ::
  "(bytes \<Rightarrow> bytes outcome) \<Rightarrow> uploaded_input_format \<Rightarrow> bytes \<Rightarrow> bytes outcome" where
  "prepare_uploaded_input_bytes serialize_stdin format input_data =
     (case format of BincodeStdin \<Rightarrow> Ok input_data | CompactBytes \<Rightarrow> serialize_stdin input_data)"

text \<open>Write a file of a proof's directory through a temporary name.\<close>

definition write_deferral_artifact_file ::
  "shm_env \<Rightarrow> string \<Rightarrow> string \<Rightarrow> bytes \<Rightarrow> shm \<Rightarrow> shm \<times> (io_error + unit)" where
  "write_deferral_artifact_file env work_dir filename data st =
     (case shm_create_dir_all env work_dir st of
        (st1, Inl e) \<Rightarrow> (st1, Inl e)
      | (st1, Inr _) \<Rightarrow>
          (case shm_write env work_dir (filename @ ''.tmp'') data st1 of
             (st2, Inl e) \<Rightarrow> (st2, Inl e)
           | (st2, Inr _) \<Rightarrow> shm_rename env work_dir (filename @ ''.tmp'') filename st2))"

definition write_uploaded_input_file ::
  "shm_env \<Rightarrow> string \<Rightarrow> bytes \<Rightarrow> shm \<Rightarrow> shm \<times> (io_error + unit)" where
  "write_uploaded_input_file env proof_uuid data st =
     (case shm_create_dir_all env (uploaded_input_work_dir proof_uuid) st of
        (st1, Inl e) \<Rightarrow> (st1, Inl e)
      | (st1, Inr _) \<Rightarrow>
          (case shm_write env (uploaded_input_work_dir proof_uuid) ''input.bin.tmp'' data st1 of
             (st2, Inl e) \<Rightarrow> (st2, Inl e)
           | (st2, Inr _) \<Rightarrow> shm_rename env (uploaded_input_work_dir proof_uuid) ''input.bin.tmp'' ''input.bin'' st2))"

text \<open>Retry once after a full disk, when the stale inputs have been reclaimed.\<close>

definition with_no_space_retry ::
  "shm_env \<Rightarrow> (shm \<Rightarrow> shm \<times> (io_error + unit)) \<Rightarrow> staging \<Rightarrow> staging \<times> (io_error + unit)" where
  "with_no_space_retry env write st =
     (case write (stg_fs st) of
        (fs1, Inr u) \<Rightarrow> (st\<lparr>stg_fs := fs1\<rparr>, Inr u)
      | (fs1, Inl e) \<Rightarrow>
          if is_no_space_error e
          then (let fs2 = fst (cleanup_stale_uploaded_inputs env (active_now st) stale_uploaded_input_ttl fs1);
                    (fs3, r) = write fs2 in (st\<lparr>stg_fs := fs3\<rparr>, r))
          else (st\<lparr>stg_fs := fs1\<rparr>, Inl e))"

definition write_deferral_with_no_space_retry ::
  "shm_env \<Rightarrow> string \<Rightarrow> string \<Rightarrow> bytes \<Rightarrow> staging \<Rightarrow> staging \<times> (io_error + unit)" where
  "write_deferral_with_no_space_retry env work_dir filename data st =
     with_no_space_retry env (write_deferral_artifact_file env work_dir filename data) st"

definition handle_upload_input ::
  "shm_env \<Rightarrow> (bytes \<Rightarrow> bytes outcome) \<Rightarrow> string \<Rightarrow> bytes \<Rightarrow> uploaded_input_format \<Rightarrow> staging \<Rightarrow>
     staging \<times> worker_response" where
  "handle_upload_input env serialize_stdin proof_uuid body format st =
     (case validate_uploaded_proof_uuid proof_uuid of
        Some reason \<Rightarrow> (st, (400, ''Invalid proof_uuid: '' @ reason))
      | None \<Rightarrow>
          (case prepare_uploaded_input_bytes serialize_stdin format body of
             Err e \<Rightarrow> (st, (400, ''Invalid input: '' @ e))
           | Panic p \<Rightarrow> (st, (500, p))
           | Ok serialized_input \<Rightarrow>
               (case with_no_space_retry env (write_uploaded_input_file env proof_uuid serialized_input) st of
                  (st1, Inr _) \<Rightarrow> (st1, (200, ''Input file received''))
                | (st1, Inl e) \<Rightarrow> (st1, (500, ''Failed to write input: '' @ ie_message e)))))"

datatype deferral_artifact_kind = Kind_State | Kind_Input

fun deferral_kind_label :: "deferral_artifact_kind \<Rightarrow> string" where
  "deferral_kind_label Kind_State = ''upload_deferral_state''"
| "deferral_kind_label Kind_Input = ''upload_deferral_input''"

fun deferral_kind_filename :: "deferral_artifact_kind \<Rightarrow> nat \<Rightarrow> string" where
  "deferral_kind_filename Kind_State i = deferral_state_filename i"
| "deferral_kind_filename Kind_Input i = deferral_input_filename i"

definition loaded_deferral_circuit_count ::
  "('k \<Rightarrow> nat) \<Rightarrow> ('k, 'd, 'x) artifact_store option \<Rightarrow> nat" where
  "loaded_deferral_circuit_count num_circuits store =
     (case Option.bind store st_edge_artifacts of
        None \<Rightarrow> 0
      | Some edge \<Rightarrow>
          (case art_deferral edge of None \<Rightarrow> 0 | Some deferral \<Rightarrow> num_circuits (cpk_app_pk (da_cached_pk deferral))))"

fun write_deferral_artifacts ::
  "shm_env \<Rightarrow> deferral_artifact_kind \<Rightarrow> string \<Rightarrow> nat \<Rightarrow> bytes list \<Rightarrow> staging \<Rightarrow> staging \<times> (io_error + unit)" where
  "write_deferral_artifacts env kind work_dir idx [] st = (st, Inr ())"
| "write_deferral_artifacts env kind work_dir idx (data # rest) st =
     (case write_deferral_with_no_space_retry env work_dir (deferral_kind_filename kind idx) data st of
        (st1, Inl e) \<Rightarrow> (st1, Inl e)
      | (st1, Inr _) \<Rightarrow> write_deferral_artifacts env kind work_dir (Suc idx) rest st1)"

definition handle_upload_deferral_bundle ::
  "shm_env \<Rightarrow> (bytes \<Rightarrow> string + bytes list) \<Rightarrow> nat \<Rightarrow> string \<Rightarrow> bytes \<Rightarrow> deferral_artifact_kind \<Rightarrow> staging \<Rightarrow>
     staging \<times> worker_response" where
  "handle_upload_deferral_bundle env decode_bundle expected proof_uuid body kind st =
     (case validate_uploaded_proof_uuid proof_uuid of
        Some reason \<Rightarrow> (st, (400, ''Invalid proof_uuid: '' @ reason))
      | None \<Rightarrow>
          (case decode_bundle body of
             Inl e \<Rightarrow> (st, (400, deferral_kind_label kind @ '': malformed bundle (expected bincode Vec<Vec<u8>>): '' @ e))
           | Inr artifacts \<Rightarrow>
               if length artifacts \<noteq> expected
               then (st, (400, deferral_kind_label kind @ '': got '' @ show_nat (length artifacts) @
                 '' artifact(s) but the loaded deferral keyset expects '' @ show_nat expected))
               else (case write_deferral_artifacts env kind (uploaded_input_work_dir proof_uuid) 0 artifacts st of
                       (st1, Inl e) \<Rightarrow> (st1, (500, ''Failed to write deferral artifact: '' @ ie_message e))
                     | (st1, Inr _) \<Rightarrow> (st1, (200, ''Deferral artifacts received'')))))"

section \<open>Health and readiness\<close>

record health_response =
  hr_status :: string
  hr_app_workers_busy :: nat
  hr_leaf_workers_busy :: nat
  hr_internal_workers_busy :: nat
  hr_app_jobs_total :: nat
  hr_app_swaps_total :: nat

definition worker_healthz :: "pool_flags \<Rightarrow> pool_shared \<Rightarrow> health_response" where
  "worker_healthz flags sh =
     \<lparr>hr_status = ''ok'', hr_app_workers_busy = busy_count flags Job_Sharded_App,
      hr_leaf_workers_busy = busy_count flags Job_Leaf, hr_internal_workers_busy = busy_count flags Job_Internal,
      hr_app_jobs_total = sh_app_jobs_total sh, hr_app_swaps_total = sh_app_swaps_total sh\<rparr>"

datatype readiness = Worker_Ready | ArtifactsNotLoaded | EvmArtifactsNotLoaded | ProversInitializing

definition evaluate_readiness :: "worker_role \<Rightarrow> bool \<Rightarrow> bool \<Rightarrow> bool \<Rightarrow> readiness" where
  "evaluate_readiness role artifacts_ready provers_ready evm_artifacts_ready =
     (if \<not> artifacts_ready then ArtifactsNotLoaded
      else if role = EvmDedicated \<and> \<not> evm_artifacts_ready then EvmArtifactsNotLoaded
      else if \<not> provers_ready then ProversInitializing
      else Worker_Ready)"

definition worker_readyz ::
  "worker_role \<Rightarrow> ('k, 'd, 'x) artifact_store option \<Rightarrow> pool_flags \<Rightarrow> worker_response" where
  "worker_readyz role store flags =
     (let artifacts_ready = (case store of Some s \<Rightarrow> store_is_ready s | None \<Rightarrow> False);
          provers_ready = all_provers_initialized flags;
          evm_artifacts_ready = (case Option.bind store st_edge_artifacts of
            Some a \<Rightarrow> art_evm a \<noteq> None | None \<Rightarrow> False);
          progress = (\<lambda>kind. show_nat (initialized_count flags kind) @ ''/'' @ show_nat (configured_count flags kind))
      in case evaluate_readiness role artifacts_ready provers_ready evm_artifacts_ready of
           Worker_Ready \<Rightarrow> (200, ''Worker is ready'')
         | ArtifactsNotLoaded \<Rightarrow> (503, ''Artifacts not loaded'')
         | EvmArtifactsNotLoaded \<Rightarrow> (503, ''EVM artifacts (halo2 key) not loaded'')
         | ProversInitializing \<Rightarrow> (503, ''Provers initializing: app='' @ progress Job_Sharded_App @ '', leaf='' @
             progress Job_Leaf @ '', internal='' @ progress Job_Internal))"

end
