(* ===== verification/Worker_Client.thy ===== *)
theory Worker_Client
  imports Worker_Staging
begin

text \<open>
  The HTTP client of the worker, \<open>edge-worker/src/result_client.rs\<close>, and the start of the server,
  \<open>edge-worker/src/server.rs\<close>. The outbox lists what was posted to the manager, in order; the network, the
  answers of the manager and the codecs are parameters.
\<close>

section \<open>Result client\<close>

record result_client =
  rc_manager_url :: string
  rc_worker_id :: nat

text \<open>\<open>str::trim_end_matches('/')\<close>.\<close>

definition trim_end_slashes :: "string \<Rightarrow> string" where
  "trim_end_slashes s = rev (dropWhile (\<lambda>c. c = CHR ''/'') (rev s))"

definition result_client_new :: "string \<Rightarrow> nat \<Rightarrow> result_client" where
  "result_client_new manager_url worker_id =
     \<lparr>rc_manager_url = trim_end_slashes manager_url, rc_worker_id = worker_id\<rparr>"

text \<open>What the client posts, and the network: an error, or the status and the body of the answer to the
  \<open>n\<close>-th request. \<open>nt_status\<close> renders a status, \<open>nt_envelope\<close> gives the time stamp and the identifier of the
  \<open>n\<close>-th envelope, \<open>nt_json_worker_id\<close> is \<open>body["worker_id"].as_u64()\<close>.\<close>

datatype posted = Post_Result string result_payload | Post_Register string register_worker_request

record network =
  nt_serialize :: "result_payload \<Rightarrow> string + bytes"
  nt_answer :: "nat \<Rightarrow> posted \<Rightarrow> string + nat \<times> string"
  nt_status :: "nat \<Rightarrow> string"
  nt_envelope :: "nat \<Rightarrow> nat \<times> string"
  nt_json_worker_id :: "string \<Rightarrow> string + nat option"

type_synonym outbox = "posted list"

definition is_success :: "nat \<Rightarrow> bool" where
  "is_success status \<longleftrightarrow> 200 \<le> status \<and> status < 300"

definition with_metadata :: "network \<Rightarrow> outbox \<Rightarrow> 'm \<Rightarrow> 'm message_envelope" where
  "with_metadata net ob m =
     \<lparr>me_timestamp = fst (nt_envelope net (length ob)), me_message_id = snd (nt_envelope net (length ob)), me_message = m\<rparr>"

text \<open>A payload that cannot be encoded is not posted.\<close>

definition post_payload ::
  "network \<Rightarrow> result_client \<Rightarrow> string \<Rightarrow> result_payload \<Rightarrow> outbox \<Rightarrow> outbox \<times> unit outcome" where
  "post_payload net client what payload ob =
     (case nt_serialize net payload of
        Inl e \<Rightarrow> (ob, Err e)
      | Inr body \<Rightarrow>
          (let p = Post_Result (rc_manager_url client @ ''/proof_result'') payload in
           case nt_answer net (length ob) p of
             Inl e \<Rightarrow> (ob @ [p], Err e)
           | Inr (status, text) \<Rightarrow>
               (ob @ [p],
                if is_success status then Ok ()
                else Err (''Failed to submit '' @ what @ '': status='' @ nt_status net status @ '', body='' @ text))))"

definition submit_single_result ::
  "network \<Rightarrow> result_client \<Rightarrow> string \<Rightarrow> proof_result \<Rightarrow> outbox \<Rightarrow> outbox \<times> unit outcome" where
  "submit_single_result net client proof_uuid result ob =
     post_payload net client ''result''
       \<lparr>rp_worker_id = rc_worker_id client, rp_proof_uuid = proof_uuid, rp_result = with_metadata net ob result\<rparr> ob"

fun submit_results ::
  "network \<Rightarrow> result_client \<Rightarrow> string \<Rightarrow> proof_result list \<Rightarrow> outbox \<Rightarrow> outbox \<times> unit outcome" where
  "submit_results net client proof_uuid [] ob = (ob, Ok ())"
| "submit_results net client proof_uuid (result # results) ob =
     (case submit_single_result net client proof_uuid result ob of
        (ob1, Ok _) \<Rightarrow> submit_results net client proof_uuid results ob1
      | (ob1, Err e) \<Rightarrow> (ob1, Err e)
      | (ob1, Panic p) \<Rightarrow> (ob1, Panic p))"

definition error_result_for :: "string \<Rightarrow> string \<Rightarrow> proof_result" where
  "error_result_for proof_uuid error_msg =
     ErrorRes \<lparr>er_context = proof_context_new proof_uuid \<lparr>pr_name = [], pr_version = 0\<rparr> [],
       er_step = ''unknown'', er_error = error_msg\<rparr>"

definition submit_error ::
  "network \<Rightarrow> result_client \<Rightarrow> string \<Rightarrow> string \<Rightarrow> outbox \<Rightarrow> outbox \<times> unit outcome" where
  "submit_error net client proof_uuid error_msg ob =
     post_payload net client ''error''
       \<lparr>rp_worker_id = rc_worker_id client, rp_proof_uuid = proof_uuid,
        rp_result = with_metadata net ob (error_result_for proof_uuid error_msg)\<rparr> ob"

text \<open>The streaming sender of an app job: a failed submission is logged and the stream goes on.\<close>

fun stream_results ::
  "network \<Rightarrow> result_client \<Rightarrow> string \<Rightarrow> proof_result list \<Rightarrow> outbox \<Rightarrow> outbox" where
  "stream_results net client proof_uuid [] ob = ob"
| "stream_results net client proof_uuid (result # results) ob =
     stream_results net client proof_uuid results (fst (submit_single_result net client proof_uuid result ob))"

definition register_worker_call ::
  "network \<Rightarrow> result_client \<Rightarrow> register_worker_request \<Rightarrow> outbox \<Rightarrow> outbox \<times> nat outcome" where
  "register_worker_call net client payload ob =
     (let p = Post_Register (rc_manager_url client @ ''/register_worker'') payload in
      case nt_answer net (length ob) p of
        Inl e \<Rightarrow> (ob @ [p], Err e)
      | Inr (status, text) \<Rightarrow>
          (ob @ [p],
           if is_success status
           then (case nt_json_worker_id net text of
                   Inl e \<Rightarrow> Err e
                 | Inr None \<Rightarrow> Err ''Missing worker_id in registration response''
                 | Inr (Some worker_id) \<Rightarrow> Ok worker_id)
           else Err (''Failed to register: status='' @ nt_status net status @ '', body='' @ text)))"

text \<open>\<open>registration_task\<close> over \<open>n\<close> ticks: errors are logged.\<close>

fun registration_task ::
  "network \<Rightarrow> result_client \<Rightarrow> register_worker_request \<Rightarrow> nat \<Rightarrow> outbox \<Rightarrow> outbox" where
  "registration_task net client payload 0 ob = ob"
| "registration_task net client payload (Suc n) ob =
     registration_task net client payload n (fst (register_worker_call net client payload ob))"

section \<open>Server start\<close>

text \<open>The registration request of a worker.\<close>

definition registration_request :: "worker_config \<Rightarrow> program_ref list \<Rightarrow> register_worker_request" where
  "registration_request config programs =
     \<lparr>rwr_worker_url = effective_worker_url config, rwr_worker_id = ws_prover_id (wc_worker config),
      rwr_max_app_provers = wp_max_app_provers (wc_provers config),
      rwr_max_leaf_provers = wp_max_leaf_provers (wc_provers config),
      rwr_max_internal_provers = wp_max_internal_provers (wc_provers config),
      rwr_loaded_programs = programs, rwr_worker_role = ws_worker_role (wc_worker config)\<rparr>"

text \<open>The instances of every program, built in parallel: the first error in the order of the loadout.\<close>

fun build_instances ::
  "(program_ref \<Rightarrow> 'x option) \<Rightarrow> (program_ref \<Rightarrow> 'x \<Rightarrow> 'n outcome) \<Rightarrow> program_ref list \<Rightarrow>
     (program_ref, 'n) hmap outcome" where
  "build_instances vmexe new_instances [] = Ok []"
| "build_instances vmexe new_instances (p # ps) =
     bind_outcome (ok_or (vmexe p) (''vmexe for '' @ program_display p @ '' missing from artifact store'')) (\<lambda>exe.
     bind_outcome (new_instances p exe) (\<lambda>inst.
     bind_outcome (build_instances vmexe new_instances ps) (\<lambda>m. Ok ((p, inst) # m))))"

definition build_app_worker_context ::
  "('k, 'd, 'x) artifact_store option \<Rightarrow> (program_ref \<Rightarrow> 'x \<Rightarrow> 'n outcome) \<Rightarrow> (program_ref \<Rightarrow> 'n \<Rightarrow> 'g outcome) \<Rightarrow>
     program_ref list \<Rightarrow> ('g, 'n) app_worker_context outcome" where
  "build_app_worker_context cell new_instances build_gpu programs =
     bind_outcome (ok_or cell ''ArtifactStore not initialized before app worker context build'') (\<lambda>store.
     bind_outcome (ok_or (st_edge_artifacts store) ''Edge artifacts not loaded'') (\<lambda>edge.
     bind_outcome (build_instances (\<lambda>p. store_vmexe p store) new_instances programs) (\<lambda>m.
       Ok \<lparr>aw_execution_instances = m, aw_build_gpu_prover = build_gpu\<rparr>)))"

record ('k, 'd, 'x, 'g, 'n) started_worker =
  sw_store :: "('k, 'd, 'x) artifact_store option"
  sw_app_ctx :: "('g, 'n) app_worker_context option"
  sw_pool_size :: "job_type \<Rightarrow> nat"
  sw_client :: result_client
  sw_info :: worker_info

text \<open>\<open>run_server\<close> up to the listener: the loadout, the registration and its check, the artifacts, the app
  context of a role that proves STARKs, the pool.\<close>

definition run_server ::
  "network \<Rightarrow> ('k, 'd, 'x) artifact_files \<Rightarrow> (program_ref \<Rightarrow> 'x \<Rightarrow> 'n outcome) \<Rightarrow> (program_ref \<Rightarrow> 'n \<Rightarrow> 'g outcome) \<Rightarrow>
     program_ref list outcome \<Rightarrow> worker_config \<Rightarrow> outbox \<Rightarrow> outbox \<times> ('k, 'd, 'x, 'g, 'n) started_worker outcome" where
  "run_server net files new_instances build_gpu loadout config ob =
     (case loadout of
        Err e \<Rightarrow> (ob, Err (''Failed to parse EDGE_PROGRAMS: '' @ e))
      | Panic p \<Rightarrow> (ob, Panic p)
      | Ok programs \<Rightarrow>
          (let prover_id = ws_prover_id (wc_worker config); role = ws_worker_role (wc_worker config);
               client = result_client_new (ws_manager_url (wc_worker config)) prover_id;
               (ob1, r) = register_worker_call net client (registration_request config programs) ob in
           (ob1,
            bind_outcome r (\<lambda>worker_id.
              if worker_id \<noteq> prover_id
              then Err (''manager returned worker_id '' @ show_nat worker_id @ '' but config prover_id is '' @ show_nat prover_id)
              else (let (cell, init) = artifact_store_init files (wc_artifacts config) programs None in
                bind_outcome init (\<lambda>_.
                bind_outcome
                  (if runs_stark_proving role
                   then bind_outcome (build_app_worker_context cell new_instances build_gpu programs) (\<lambda>c. Ok (Some c))
                   else Ok None) (\<lambda>app_ctx.
                Ok \<lparr>sw_store = cell, sw_app_ctx = app_ctx,
                    sw_pool_size = pool_size (wc_provers config) role (app_ctx \<noteq> None), sw_client = client,
                    sw_info = \<lparr>wi_prover_id = prover_id, wi_num_provers = ws_num_provers (wc_worker config),
                      wi_max_app_provers = wp_max_app_provers (wc_provers config),
                      wi_default_segment_memory = wp_default_segment_memory (wc_provers config),
                      wi_worker_role = role\<rparr>\<rparr>)))))))"

section \<open>Lemmas\<close>

text \<open>The results a worker has posted for a proof.\<close>

fun posted_result :: "posted \<Rightarrow> (string \<times> proof_result) option" where
  "posted_result (Post_Result url p) = Some (rp_proof_uuid p, me_message (rp_result p))"
| "posted_result (Post_Register url r) = None"

lemma post_payload_outbox:
  "post_payload net client what payload ob = (ob', r) \<Longrightarrow>
     ob' = ob \<or> ob' = ob @ [Post_Result (rc_manager_url client @ ''/proof_result'') payload]"
  by (auto simp: post_payload_def Let_def split: sum.splits prod.splits)

end
