(* ===== verification/Worker_Steps.thy ===== *)
theory Worker_Steps
  imports Worker_Client Deferral_Merkle
begin

text \<open>
  The proving handlers of the worker, \<open>edge-worker/src/handlers.rs\<close>. A handler answers the manager at once
  and spawns a task; the task is a value here (\<open>recursion_task\<close>, \<open>kickoff\<close>), run by a function of its own, so that its
  steps can be ordered freely against those of other requests. A submission to the prover pool is a
  function from the job to its answer (\<open>Pool_Dispatch\<close> is its model). The deferral SDK is the parameter
  \<open>merge_backend\<close>.
\<close>

section \<open>The deferral tail merge\<close>

text \<open>The SDK calls of the merge. \<open>'f\<close> is a decoded deferral input, \<open>'h\<close> the hook proofs, \<open>'j\<close> the collapsed
  deferral proof; \<open>mb_depth\<close> reads the depth from the public values of a proof, if it has enough of them
  (otherwise \<open>mb_num_airs\<close> is reported).\<close>

record ('p, 'u, 'm, 'k, 'd, 'x, 'f, 'h, 'j, 'n) merge_backend =
  mb_decode_input :: "bytes \<Rightarrow> string + 'f"
  mb_decode_path :: "bytes \<Rightarrow> string + 'n list"
  mb_encode_merkle :: "'n deferral_merkle_proofs \<Rightarrow> string + bytes"
  mb_num_circuits :: "'k \<Rightarrow> nat"
  mb_dimensions :: "'k \<Rightarrow> memory_dimensions"
  mb_sdk :: "('k, 'd) cached_proving_key \<Rightarrow> string + unit"
  mb_prover :: "'x \<Rightarrow> string + unit"
  mb_has_deferral_prover :: bool
  mb_prove_circuits :: "'f list \<Rightarrow> string + 'h"
  mb_prove_def :: "'h \<Rightarrow> string + 'j \<times> nat"
  mb_prove_mixed :: "('p, 'u, 'm) vm_stark_proof \<Rightarrow> 'j \<Rightarrow> internal_layer_metadata_wire \<Rightarrow> nat \<Rightarrow>
     string + ('p, 'u, 'm) vm_stark_proof \<times> internal_layer_metadata_wire"
  mb_wrap :: "('p, 'u, 'm) vm_stark_proof \<Rightarrow> internal_layer_metadata_wire \<Rightarrow>
     string + ('p, 'u, 'm) vm_stark_proof \<times> internal_layer_metadata_wire"
  mb_depth :: "'p \<Rightarrow> nat option"
  mb_num_airs :: "'p \<Rightarrow> nat"
  mb_def_pvs_air_id :: nat
  mb_merkle :: "('x, 'm, 'n) merkle_world"

definition from_sum_with :: "(string \<Rightarrow> string) \<Rightarrow> string + 'a \<Rightarrow> 'a outcome" where
  "from_sum_with f r = (case r of Inl e \<Rightarrow> Err (f e) | Inr x \<Rightarrow> Ok x)"

fun read_deferral_inputs ::
  "(bytes \<Rightarrow> string + 'f) \<Rightarrow> (string \<Rightarrow> string + bytes) \<Rightarrow> string \<Rightarrow> nat list \<Rightarrow> 'f list outcome" where
  "read_deferral_inputs decode read proof_uuid [] = Ok []"
| "read_deferral_inputs decode read proof_uuid (idx # rest) =
     (let input_path = staged_deferral_input_path proof_uuid idx in
      bind_outcome (from_sum_with (\<lambda>e. ''Failed to read deferral input for circuit '' @ show_nat idx @ '' at '' @
        input_path @ '': '' @ e @ '' (the manager pushes it just-in-time before the final internal prove)'') (read input_path)) (\<lambda>b.
      bind_outcome (from_sum_with (\<lambda>e. ''Failed to deserialize DeferralInput for circuit '' @ show_nat idx @ '' at '' @
        input_path @ '': '' @ e) (decode b)) (\<lambda>input.
      bind_outcome (read_deferral_inputs decode read proof_uuid rest) (\<lambda>inputs. Ok (input # inputs)))))"

text \<open>The tail merge after its inputs are in memory and their directory is gone.\<close>

definition merge_inputs ::
  "('p, 'u, 'm, 'k, 'd, 'x, 'f, 'h, 'j, 'n) merge_backend \<Rightarrow> ('k, 'd, 'x) artifact_store \<Rightarrow> ('k, 'd) deferral_artifacts \<Rightarrow>
     string \<Rightarrow> proof_context \<Rightarrow> ('p, 'u) typed_proof \<Rightarrow> deferral_tail_dispatch \<Rightarrow> 'f list \<Rightarrow>
     (('p, 'u) typed_proof \<times> 'n deferral_merkle_proofs) outcome" where
  "merge_inputs mb store da proof_uuid context final_internal_proof tail def_inputs =
     (let label = ''EVM prove['' @ proof_uuid @ '']: '';
          path_bytes = dtd_final_merkle_path_bytes tail;
          app_pk = cpk_app_pk (da_cached_pk da) in
      bind_outcome (ok_or (store_vmexe (pc_program context) store)
        (''vmexe for '' @ program_display (pc_program context) @ '' not loaded on this worker'')) (\<lambda>exe.
      bind_outcome (from_sum_with (\<lambda>e. ''Sdk::from_deferral_cached_proving_key failed: '' @ e) (mb_sdk mb (da_cached_pk da))) (\<lambda>_.
      bind_outcome (from_sum_with (\<lambda>e. ''Sdk::prover failed: '' @ e) (mb_prover mb exe)) (\<lambda>_.
      bind_outcome (guard_err (\<not> mb_has_deferral_prover mb) ''Reconstructed deferral SDK has no deferral prover'') (\<lambda>_.
      bind_outcome (ok_or (tp_user_public_values final_internal_proof)
        (''EVM prove: final internal proof for '' @ proof_uuid @
         '' has no user_public_values; cannot reconstruct VmStarkProof for deferral merge'')) (\<lambda>user_pvs_proof.
      bind_outcome (guard_err (path_bytes = [])
        (label @ ''deferral tail dispatch is missing final_merkle_path_bytes; the terminal AppProof never carried the (DEFERRAL_AS,0) path.'')) (\<lambda>_.
      bind_outcome (from_sum_with (\<lambda>e. label @ ''failed to decode final-side deferral path bytes ('' @
        show_nat (length path_bytes) @ '' bytes) from DeferralTailDispatch: '' @ e) (mb_decode_path mb path_bytes)) (\<lambda>final_path.
      let initial_path = extract_deferral_auth_path (mb_dimensions mb app_pk) (build_initial_memory_tree (mb_merkle mb) exe);
          stark_proof = \<lparr>vs_inner = tp_proof final_internal_proof, vs_user_pvs_proof = user_pvs_proof, vs_deferral_merkle_proofs = None\<rparr> in
      bind_outcome (from_sum_with (\<lambda>e. ''multi_deferral_circuit_prover.prove failed: '' @ e) (mb_prove_circuits mb def_inputs)) (\<lambda>hooks.
      bind_outcome (from_sum_with (\<lambda>e. ''agg_prover.prove_def failed: '' @ e) (mb_prove_def mb hooks)) (\<lambda>(def_proof, irl).
      bind_outcome (from_sum_with (\<lambda>e. ''agg_prover.prove_mixed failed: '' @ e)
        (mb_prove_mixed mb stark_proof def_proof (dtd_layer_metadata tail) irl)) (\<lambda>(mixed, metadata).
      bind_outcome (from_sum_with (\<lambda>e. ''agg_prover.wrap_proof failed: '' @ e) (mb_wrap mb mixed metadata)) (\<lambda>(wrapped, metadata').
      bind_outcome (ok_or (mb_depth mb (vs_inner wrapped))
        (label @ ''merged proof has only '' @ show_nat (mb_num_airs mb (vs_inner wrapped)) @
         '' public-value AIRs but DeferralPvs lives at DEF_PVS_AIR_ID='' @ show_nat (mb_def_pvs_air_id mb) @
         ''; deferral keyset mismatch?'')) (\<lambda>depth.
      bind_outcome (finalize_deferral_path (mk_zero (mb_merkle mb)) final_path depth) (\<lambda>final_merkle_proof.
      bind_outcome (finalize_deferral_path (mk_zero (mb_merkle mb)) initial_path depth) (\<lambda>initial_merkle_proof.
        Ok (\<lparr>tp_proof = vs_inner wrapped, tp_user_public_values = Some (vs_user_pvs_proof wrapped)\<rparr>,
            \<lparr>dmp_initial_merkle_proof = initial_merkle_proof, dmp_final_merkle_proof = final_merkle_proof\<rparr>))))))))))))))))"

text \<open>\<open>run_deferral_tail_merge\<close>: the artifacts, the staged inputs (whose directory it then removes), the merge.\<close>

definition run_deferral_tail_merge ::
  "('p, 'u, 'm, 'k, 'd, 'x, 'f, 'h, 'j, 'n) merge_backend \<Rightarrow> ('k, 'd, 'x) artifact_store option \<Rightarrow> shm_env \<Rightarrow>
     (string \<Rightarrow> string + bytes) \<Rightarrow> string \<Rightarrow> proof_context \<Rightarrow> ('p, 'u) typed_proof \<Rightarrow> deferral_tail_dispatch \<Rightarrow> shm \<Rightarrow>
     shm \<times> (('p, 'u) typed_proof \<times> 'n deferral_merkle_proofs) outcome" where
  "run_deferral_tail_merge mb cell env read proof_uuid context final_internal_proof tail fs =
     (case cell of
        None \<Rightarrow> (fs, Err ''Artifact store not initialized'')
      | Some store \<Rightarrow>
          (case st_edge_artifacts store of
             None \<Rightarrow> (fs, Err ''Edge artifacts not loaded'')
           | Some edge \<Rightarrow>
               (case art_deferral edge of
                  None \<Rightarrow> (fs, Err ''Tail deferral merge requested but this worker is not a deferral deployment (enable_deferral not set).'')
                | Some da \<Rightarrow>
                    (case read_deferral_inputs (mb_decode_input mb) read proof_uuid
                       [0..<mb_num_circuits mb (cpk_app_pk (da_cached_pk da))] of
                       Err e \<Rightarrow> (fs, Err e)
                     | Panic p \<Rightarrow> (fs, Panic p)
                     | Ok def_inputs \<Rightarrow>
                         (fst (shm_remove_dir_all env (uploaded_input_work_dir proof_uuid) fs),
                          merge_inputs mb store da proof_uuid context final_internal_proof tail def_inputs)))))"

section \<open>The environment of a worker\<close>

text \<open>The artifacts, the codecs, the availability of the pools, their answers to submissions, and the file
  system as the merge sees it.\<close>

record ('p, 'u, 'm, 'k, 'd, 'x, 'f, 'h, 'j, 'n, 'r, 'e) worker_env =
  we_store :: "('k, 'd, 'x) artifact_store option"
  we_backend :: "('p, 'u, 'k, 'd, 'n deferral_merkle_proofs, 'r, 'e) backend"
  we_merge :: "('p, 'u, 'm, 'k, 'd, 'x, 'f, 'h, 'j, 'n) merge_backend"
  we_decode_merkle :: "bytes \<Rightarrow> string + 'n deferral_merkle_proofs"
  we_decode_request :: "bytes \<Rightarrow> string + general_prove_request message_envelope"
  we_available :: "job_type \<Rightarrow> bool"
  we_submit_app :: "sharded_app_prover_job \<Rightarrow> prover_result outcome"
  we_submit_leaf :: "('p, 'u) leaf_prover_job \<Rightarrow> prover_result outcome"
  we_submit_internal :: "('p, 'u) internal_prover_job \<Rightarrow> prover_result outcome"
  we_submit_root :: "('p, 'u, 'n deferral_merkle_proofs) root_prover_job \<Rightarrow> root_proof_state outcome"
  we_submit_halo2 :: "'r halo2_prover_job \<Rightarrow> prover_result outcome"
  we_network :: network
  we_client :: result_client
  we_shm :: shm_env
  we_read :: "shm \<Rightarrow> string \<Rightarrow> string + bytes"
  we_serialize_stdin :: "bytes \<Rightarrow> bytes outcome"
  we_decode_bundle :: "bytes \<Rightarrow> string + bytes list"

text \<open>The state that the tasks share: what was posted, and the staged inputs.\<close>

record worker_state =
  wk_outbox :: outbox
  wk_staging :: staging

definition post_results ::
  "('p, 'u, 'm, 'k, 'd, 'x, 'f, 'h, 'j, 'n, 'r, 'e) worker_env \<Rightarrow> string \<Rightarrow> proof_result list \<Rightarrow> worker_state \<Rightarrow> worker_state" where
  "post_results env proof_uuid results st =
     st\<lparr>wk_outbox := fst (submit_results (we_network env) (we_client env) proof_uuid results (wk_outbox st))\<rparr>"

definition post_error ::
  "('p, 'u, 'm, 'k, 'd, 'x, 'f, 'h, 'j, 'n, 'r, 'e) worker_env \<Rightarrow> string \<Rightarrow> string \<Rightarrow> worker_state \<Rightarrow> worker_state" where
  "post_error env proof_uuid msg st =
     st\<lparr>wk_outbox := fst (submit_error (we_network env) (we_client env) proof_uuid msg (wk_outbox st))\<rparr>"

definition find_internal :: "proof_result list \<Rightarrow> (proof_context \<times> internal_proof_state) option" where
  "find_internal results = find_map (\<lambda>r. case r of InternalRes c s \<Rightarrow> Some (c, s) | _ \<Rightarrow> None) results"

text \<open>Decode, merge and encode: the closure of both merge drivers. \<open>label\<close> is the prefix of its errors, and
  \<open>relabel\<close> what the driver does to the merge's own errors.\<close>

definition merge_and_encode ::
  "('p, 'u, 'm, 'k, 'd, 'x, 'f, 'h, 'j, 'n, 'r, 'e) worker_env \<Rightarrow> string \<Rightarrow> (string \<Rightarrow> string) \<Rightarrow> string \<Rightarrow> proof_context \<Rightarrow>
     bytes \<Rightarrow> deferral_tail_dispatch \<Rightarrow> worker_state \<Rightarrow> worker_state \<times> (bytes \<times> bytes) outcome" where
  "merge_and_encode env label relabel proof_uuid context internal_bytes tail st =
     (case map_err (\<lambda>e. label @ '': failed to decode final internal proof for '' @ proof_uuid @ '': '' @ e)
         (bk_decode_proof (we_backend env) internal_bytes) of
        Err e \<Rightarrow> (st, Err e)
      | Panic p \<Rightarrow> (st, Panic p)
      | Ok final_internal_proof \<Rightarrow>
          (case run_deferral_tail_merge (we_merge env) (we_store env) (we_shm env) (we_read env (stg_fs (wk_staging st)))
             proof_uuid context final_internal_proof tail (stg_fs (wk_staging st)) of
             (fs, r) \<Rightarrow>
               (st\<lparr>wk_staging := (wk_staging st)\<lparr>stg_fs := fs\<rparr>\<rparr>,
                bind_outcome (map_err relabel r) (\<lambda>(merged, merkle_proofs).
                bind_outcome (map_err (\<lambda>e. label @ '': failed to encode merged proof for '' @ proof_uuid @ '': '' @ e)
                  (bk_encode_proof (we_backend env) merged)) (\<lambda>merged_bytes.
                bind_outcome (from_sum_with (\<lambda>e. label @ '': failed to encode merkle proofs for '' @ proof_uuid @ '': '' @ e)
                  (mb_encode_merkle (we_merge env) merkle_proofs)) (\<lambda>merkle_bytes.
                  Ok (merged_bytes, merkle_bytes)))))))"

text \<open>A panic of the blocking task is a join error.\<close>

definition join_task :: "(string \<Rightarrow> string) \<Rightarrow> 'a outcome \<Rightarrow> 'a outcome" where
  "join_task f r = (case r of Panic p \<Rightarrow> Err (f p) | _ \<Rightarrow> r)"

section \<open>The EVM preparation and the STARK completion\<close>

definition evm_prep ::
  "('p, 'u, 'm, 'k, 'd, 'x, 'f, 'h, 'j, 'n, 'r, 'e) worker_env \<Rightarrow> string \<Rightarrow> proof_context \<Rightarrow> bytes option \<Rightarrow>
     deferral_tail_dispatch option \<Rightarrow> bytes option \<Rightarrow> worker_state \<Rightarrow> worker_state \<times> (bytes \<times> bytes option) outcome" where
  "evm_prep env proof_uuid context internal_bytes deferral_tail depth0_merkle_bytes st =
     (case internal_bytes of
        None \<Rightarrow> (st, Err (''evm prep: final internal proof for '' @ proof_uuid @ '' has no proof bytes''))
      | Some b \<Rightarrow>
          (case deferral_tail of
             Some tail \<Rightarrow>
               (case merge_and_encode env ''evm prep'' (\<lambda>e. ''evm prep: deferral tail merge failed for '' @ proof_uuid @ '': '' @ e)
                   proof_uuid context b tail st of
                  (st1, r) \<Rightarrow> (st1, bind_outcome r (\<lambda>(merged_bytes, merkle_bytes). Ok (merged_bytes, Some merkle_bytes))))
           | None \<Rightarrow> (st, Ok (b, depth0_merkle_bytes))))"

definition drive_evm_prep_and_post ::
  "('p, 'u, 'm, 'k, 'd, 'x, 'f, 'h, 'j, 'n, 'r, 'e) worker_env \<Rightarrow> string \<Rightarrow> proof_context \<Rightarrow> proof_result list \<Rightarrow>
     deferral_tail_dispatch option \<Rightarrow> bytes option \<Rightarrow> worker_state \<Rightarrow> worker_state" where
  "drive_evm_prep_and_post env proof_uuid context results deferral_tail depth0_merkle_bytes st =
     (case find_internal results of
        None \<Rightarrow> post_error env proof_uuid (''evm prep: expected an Internal result for '' @ proof_uuid @ '', found none'') st
      | Some (c, s) \<Rightarrow>
          (case evm_prep env proof_uuid context (ips_proof s) deferral_tail depth0_merkle_bytes st of
             (st1, r) \<Rightarrow>
               (case join_task (\<lambda>e. ''evm prep: tail-merge task failed for '' @ proof_uuid @ '': '' @ e) r of
                  Ok (finished_proof_bytes, merkle_bytes) \<Rightarrow>
                    post_results env proof_uuid
                      [InternalRes c (s\<lparr>ips_proof := Some finished_proof_bytes,
                         ips_deferral_merkle_proofs_bytes := merkle_bytes, ips_ready_for_evm := True\<rparr>)] st1
                | Err msg \<Rightarrow> post_error env proof_uuid msg st1
                | Panic p \<Rightarrow> st1)))"

definition drive_stark_deferral_merge_and_post ::
  "('p, 'u, 'm, 'k, 'd, 'x, 'f, 'h, 'j, 'n, 'r, 'e) worker_env \<Rightarrow> string \<Rightarrow> proof_context \<Rightarrow> proof_result list \<Rightarrow>
     deferral_tail_dispatch option \<Rightarrow> worker_state \<Rightarrow> worker_state" where
  "drive_stark_deferral_merge_and_post env proof_uuid context results deferral_tail st =
     (case find_internal results of
        None \<Rightarrow> post_error env proof_uuid (''stark deferral merge: expected an Internal result for '' @ proof_uuid @ '', found none'') st
      | Some (c, s) \<Rightarrow>
          (case deferral_tail of
             None \<Rightarrow> post_error env proof_uuid (''stark deferral merge: missing deferral tail dispatch for '' @ proof_uuid) st
           | Some tail \<Rightarrow>
               (case (case ips_proof s of
                        None \<Rightarrow> (st, Err (''stark deferral merge: final internal proof for '' @ proof_uuid @ '' has no proof bytes''))
                      | Some b \<Rightarrow> merge_and_encode env ''stark deferral merge'' (\<lambda>e. e) proof_uuid context b tail st) of
                  (st1, r) \<Rightarrow>
                    (case join_task (\<lambda>e. ''stark deferral merge: tail-merge task failed for '' @ proof_uuid @ '': '' @ e) r of
                       Ok (merged_proof_bytes, merkle_bytes) \<Rightarrow>
                         post_results env proof_uuid
                           [InternalRes c (s\<lparr>ips_proof := Some merged_proof_bytes,
                              ips_deferral_merkle_proofs_bytes := Some merkle_bytes\<rparr>)] st1
                     | Err e \<Rightarrow> post_error env proof_uuid (''stark deferral merge failed for '' @ proof_uuid @ '': '' @ e) st1
                     | Panic p \<Rightarrow> st1))))"

section \<open>The EVM step\<close>

definition prefix_keys :: "string \<Rightarrow> (string, f64_bits) hmap \<Rightarrow> (string, f64_bits) hmap" where
  "prefix_keys p m = map (\<lambda>(k, v). (p @ k, v)) m"

definition run_evm_prove ::
  "('p, 'u, 'm, 'k, 'd, 'x, 'f, 'h, 'j, 'n, 'r, 'e) worker_env \<Rightarrow> string \<Rightarrow> proof_context \<Rightarrow> ('p, 'u) typed_proof \<Rightarrow>
     'n deferral_merkle_proofs option \<Rightarrow> bool \<Rightarrow> proof_result outcome" where
  "run_evm_prove env proof_uuid context final_internal_proof deferral_merkle_proofs proof_has_deferral =
     (let evm_ready = (case Option.bind (we_store env) st_edge_artifacts of Some a \<Rightarrow> art_evm a \<noteq> None | None \<Rightarrow> False) in
      bind_outcome (guard_err (\<not> evm_ready) (''EVM prove requested but worker has no EVM artifacts (evm-prove build without halo2_pk_path); aborting proof '' @
        proof_uuid)) (\<lambda>_.
      bind_outcome (map_err (\<lambda>e. ''Root prove failed for '' @ proof_uuid @ '': '' @ e)
        (we_submit_root env \<lparr>rj_context = context, rj_final_internal_proof = final_internal_proof,
           rj_deferral_merkle_proofs = deferral_merkle_proofs, rj_proof_has_deferral = proof_has_deferral\<rparr>)) (\<lambda>root_state.
      bind_outcome (ok_or (rps_proof root_state) (''EVM prove: root result for '' @ proof_uuid @ '' has no proof bytes'')) (\<lambda>root_proof_bytes.
      bind_outcome (map_err (\<lambda>e. ''EVM prove: failed to decode root proof for '' @ proof_uuid @ '': '' @ e)
        (bk_decode_root (we_backend env) root_proof_bytes)) (\<lambda>root_proof.
      bind_outcome
        (case we_submit_halo2 env \<lparr>hj_context = context, hj_root_proof = root_proof\<rparr> of
           Ok (ProverSuccess r) \<Rightarrow>
             ok_or (find_map (\<lambda>res. case res of EvmRes c s \<Rightarrow> Some (c, s) | _ \<Rightarrow> None) r)
               (''EVM prove: halo2 stage for '' @ proof_uuid @ '' produced no Evm proof'')
         | Ok (ProverError e) \<Rightarrow> Err (''Halo2 prove failed for '' @ proof_uuid @ '': '' @ e)
         | Err e \<Rightarrow> Err (''Failed to submit halo2 job for '' @ proof_uuid @ '': '' @ e)
         | Panic p \<Rightarrow> Panic p) (\<lambda>(c, s).
      Ok (EvmRes c (s\<lparr>eps_root_prove_time_ms := rps_prove_time_ms root_state,
        eps_sub_metrics := prefix_keys ''halo2_'' (eps_sub_metrics s) @ prefix_keys ''root_'' (rps_sub_metrics root_state)\<rparr>))))))))"

definition decode_evm_request ::
  "('p, 'u, 'm, 'k, 'd, 'x, 'f, 'h, 'j, 'n, 'r, 'e) worker_env \<Rightarrow> evm_prove_request \<Rightarrow>
     (('p, 'u) typed_proof \<times> 'n deferral_merkle_proofs option) outcome" where
  "decode_evm_request env req =
     (let proof_uuid = pc_proof_uuid (epr_context req) in
      bind_outcome (map_err (\<lambda>e. ''EvmProve: failed to decode handed-off internal proof for '' @ proof_uuid @ '': '' @ e)
        (bk_decode_proof (we_backend env) (epr_internal_proof_bytes req))) (\<lambda>p.
      bind_outcome
        (case epr_deferral_merkle_proofs_bytes req of
           None \<Rightarrow> Ok None
         | Some b \<Rightarrow> bind_outcome (from_sum_with (\<lambda>e. ''EvmProve: failed to decode deferral merkle proofs for '' @ proof_uuid @
             '': '' @ e) (we_decode_merkle env b)) (\<lambda>m. Ok (Some m))) (\<lambda>m.
      Ok (p, m))))"

definition drive_evm_prove_from_request ::
  "('p, 'u, 'm, 'k, 'd, 'x, 'f, 'h, 'j, 'n, 'r, 'e) worker_env \<Rightarrow> evm_prove_request \<Rightarrow> worker_state \<Rightarrow> worker_state" where
  "drive_evm_prove_from_request env req st =
     (let proof_uuid = pc_proof_uuid (epr_context req) in
      case bind_outcome (decode_evm_request env req) (\<lambda>(p, m).
             run_evm_prove env proof_uuid (epr_context req) p m (epr_proof_has_deferral req)) of
        Ok evm_result \<Rightarrow> post_results env proof_uuid [evm_result] st
      | Err msg \<Rightarrow> post_error env proof_uuid msg st
      | Panic p \<Rightarrow> st)"

end
