(* ===== verification/Worker_Handlers.thy ===== *)
theory Worker_Handlers
  imports Worker_Steps
begin

text \<open>
  The two work endpoints of the worker, \<open>edge-worker/src/handlers.rs\<close>: \<open>handle_recursion_prove\<close> and the
  sharded app prove. Each answers a status to the manager and leaves a task behind.
\<close>

section \<open>Recursion prove\<close>

datatype ('p, 'u) recursion_task =
  Leaf_Task string "('p, 'u) leaf_prover_job"
| Internal_Task string "('p, 'u) internal_prover_job" "deferral_tail_dispatch option" "bytes option"
| Evm_Task evm_prove_request

text \<open>\<open>collect::<Result<Vec<_>>>\<close>: the first error.\<close>

fun collect_outcomes :: "('a \<Rightarrow> 'b outcome) \<Rightarrow> 'a list \<Rightarrow> 'b list outcome" where
  "collect_outcomes f [] = Ok []"
| "collect_outcomes f (x # xs) =
     bind_outcome (f x) (\<lambda>y. bind_outcome (collect_outcomes f xs) (\<lambda>ys. Ok (y # ys)))"

definition accept_leaf ::
  "('p, 'u, 'm, 'k, 'd, 'x, 'f, 'h, 'j, 'n, 'r, 'e) worker_env \<Rightarrow> leaf_prove_request \<Rightarrow>
     worker_response \<times> ('p, 'u) recursion_task option" where
  "accept_leaf env req =
     (if \<not> we_available env Job_Leaf then ((503, ''No available leaf workers''), None)
      else case collect_outcomes (bk_decode_proof (we_backend env)) (lpr_app_proofs req) of
        Ok app_proofs \<Rightarrow>
          ((200, ''Work completed''),
           Some (Leaf_Task (pc_proof_uuid (lpr_context req))
             \<lparr>lj_context = lpr_context req, lj_app_proofs = app_proofs, lj_segment_start = lpr_segment_start req,
              lj_segment_end = lpr_segment_end req\<rparr>))
      | Err e \<Rightarrow> ((400, ''Invalid app proofs: '' @ e), None)
      | Panic p \<Rightarrow> ((500, p), None))"

definition accept_internal ::
  "('p, 'u, 'm, 'k, 'd, 'x, 'f, 'h, 'j, 'n, 'r, 'e) worker_env \<Rightarrow> internal_prove_request \<Rightarrow>
     worker_response \<times> ('p, 'u) recursion_task option" where
  "accept_internal env req =
     (if \<not> we_available env Job_Internal then ((503, ''No available internal workers''), None)
      else case collect_outcomes (bk_decode_proof (we_backend env)) (ipr_child_proofs req) of
        Ok child_proofs \<Rightarrow>
          ((200, ''Work completed''),
           Some (Internal_Task (pc_proof_uuid (ipr_context req))
             \<lparr>ij_context = ipr_context req, ij_child_proofs = child_proofs, ij_layer_idx = ipr_layer_idx req,
              ij_segment_start = ipr_segment_start req, ij_segment_end = ipr_segment_end req,
              ij_is_final_proof = ipr_is_final_proof req, ij_proof_has_deferral = (ipr_deferral_tail req \<noteq> None)\<rparr>
             (ipr_deferral_tail req) (ipr_deferral_merkle_proofs_bytes req)))
      | Err e \<Rightarrow> ((400, ''Invalid child proofs: '' @ e), None)
      | Panic p \<Rightarrow> ((500, p), None))"

definition handle_recursion_prove ::
  "('p, 'u, 'm, 'k, 'd, 'x, 'f, 'h, 'j, 'n, 'r, 'e) worker_env \<Rightarrow> bytes \<Rightarrow>
     worker_response \<times> ('p, 'u) recursion_task option" where
  "handle_recursion_prove env body =
     (case we_decode_request env body of
        Inl e \<Rightarrow> ((400, ''Failed to deserialize work envelope: '' @ e), None)
      | Inr envelope \<Rightarrow>
          (case me_message envelope of
             LeafProveReq req \<Rightarrow> accept_leaf env req
           | InternalProveReq req \<Rightarrow> accept_internal env req
           | EvmProveReq req \<Rightarrow> ((200, ''Work completed''), Some (Evm_Task req))))"

definition run_leaf_task ::
  "('p, 'u, 'm, 'k, 'd, 'x, 'f, 'h, 'j, 'n, 'r, 'e) worker_env \<Rightarrow> string \<Rightarrow> ('p, 'u) leaf_prover_job \<Rightarrow>
     worker_state \<Rightarrow> worker_state" where
  "run_leaf_task env proof_uuid job st =
     (case we_submit_leaf env job of
        Ok (ProverSuccess results) \<Rightarrow> post_results env proof_uuid results st
      | Ok (ProverError e) \<Rightarrow> post_error env proof_uuid e st
      | Err e \<Rightarrow> post_error env proof_uuid e st
      | Panic p \<Rightarrow> st)"

definition run_internal_task ::
  "('p, 'u, 'm, 'k, 'd, 'x, 'f, 'h, 'j, 'n, 'r, 'e) worker_env \<Rightarrow> string \<Rightarrow> ('p, 'u) internal_prover_job \<Rightarrow>
     deferral_tail_dispatch option \<Rightarrow> bytes option \<Rightarrow> worker_state \<Rightarrow> worker_state" where
  "run_internal_task env proof_uuid job deferral_tail depth0_merkle_bytes st =
     (case we_submit_internal env job of
        Ok (ProverSuccess results) \<Rightarrow>
          (let ctx = ij_context job;
               stark_deferral_final = (ij_is_final_proof job \<and> pc_proof_type ctx = Stark \<and> deferral_tail \<noteq> None);
               evm_handoff = (ij_is_final_proof job \<and> pc_proof_type ctx = Evm)
           in if stark_deferral_final
              then drive_stark_deferral_merge_and_post env proof_uuid ctx results deferral_tail st
              else if evm_handoff
              then drive_evm_prep_and_post env proof_uuid ctx results deferral_tail depth0_merkle_bytes st
              else post_results env proof_uuid results st)
      | Ok (ProverError e) \<Rightarrow> post_error env proof_uuid e st
      | Err e \<Rightarrow> post_error env proof_uuid e st
      | Panic p \<Rightarrow> st)"

fun run_recursion_task ::
  "('p, 'u, 'm, 'k, 'd, 'x, 'f, 'h, 'j, 'n, 'r, 'e) worker_env \<Rightarrow> ('p, 'u) recursion_task \<Rightarrow> worker_state \<Rightarrow> worker_state" where
  "run_recursion_task env (Leaf_Task proof_uuid job) st = run_leaf_task env proof_uuid job st"
| "run_recursion_task env (Internal_Task proof_uuid job tail depth0) st =
     run_internal_task env proof_uuid job tail depth0 st"
| "run_recursion_task env (Evm_Task req) st = drive_evm_prove_from_request env req st"

section \<open>Sharded app prove\<close>

text \<open>The progress of a kickoff: the wait for its files (until a deadline of 30 seconds), the admission, then
  the spawned task, which submits the job, reports an error, waits for the streamed results and removes the
  inputs. \<open>App_Replied\<close> has answered without a task.\<close>

datatype app_kickoff =
  App_Received
| App_Waiting "string list"
| App_Admission
| App_Replied worker_response
| App_Spawned sharded_app_prover_job
| App_Streaming string "prover_result outcome" "proof_result list"
| App_Finished

definition kickoff_paths :: "sharded_app_prove_request \<Rightarrow> string list" where
  "kickoff_paths req =
     map (staged_deferral_state_path (sar_proof_uuid req)) [0..<sar_num_deferral_circuits req]"

definition kickoff_job :: "worker_info \<Rightarrow> sharded_app_prove_request \<Rightarrow> sharded_app_prover_job" where
  "kickoff_job info req =
     \<lparr>sj_context = proof_context_new (sar_proof_uuid req) (sar_program req) [],
      sj_num_provers = sar_num_provers req, sj_prover_id = sar_prover_id req,
      sj_input_path = staged_input_path (sar_proof_uuid req),
      sj_segment_memory = (case sar_segment_memory req of Some m \<Rightarrow> Some m | None \<Rightarrow> wi_default_segment_memory info),
      sj_max_app_provers = wi_max_app_provers info, sj_result_tx = True,
      sj_deferral_state_paths = kickoff_paths req\<rparr>"

definition stop_kickoff ::
  "('p, 'u, 'm, 'k, 'd, 'x, 'f, 'h, 'j, 'n, 'r, 'e) worker_env \<Rightarrow> string \<Rightarrow> worker_state \<Rightarrow> worker_state" where
  "stop_kickoff env proof_uuid st =
     st\<lparr>wk_staging := cleanup_uploaded_input_dir (we_shm env) proof_uuid (wk_staging st)\<rparr>"

text \<open>One step of a kickoff. \<open>timed_out\<close> is whether its deadline has passed, \<open>streamed\<close> the results that
  the sender task posts: those before the error of the job at the step \<open>App_Spawned\<close>, the others at the last
  step. An accepted kickoff has answered 200. A job whose submission panics ends its task.\<close>

definition app_kickoff_step ::
  "('p, 'u, 'm, 'k, 'd, 'x, 'f, 'h, 'j, 'n, 'r, 'e) worker_env \<Rightarrow> worker_info \<Rightarrow> sharded_app_prove_request \<Rightarrow> bool \<Rightarrow>
     proof_result list \<Rightarrow> worker_state \<times> app_kickoff \<Rightarrow> (worker_state \<times> app_kickoff) option" where
  "app_kickoff_step env info req timed_out streamed acc =
     (let (st, k) = acc; proof_uuid = sar_proof_uuid req in
      case k of
        App_Received \<Rightarrow>
          (case validate_uploaded_proof_uuid proof_uuid of
             Some reason \<Rightarrow> Some (st, App_Replied (400, ''Invalid proof_uuid: '' @ reason))
           | None \<Rightarrow>
               Some (st\<lparr>wk_staging := (wk_staging st)\<lparr>stg_active := List.insert proof_uuid (stg_active (wk_staging st))\<rparr>\<rparr>,
                     App_Waiting (staged_input_path proof_uuid # kickoff_paths req)))
      | App_Waiting [] \<Rightarrow> Some (st, App_Admission)
      | App_Waiting (path # paths) \<Rightarrow>
          (if shm_read (stg_fs (wk_staging st)) path \<noteq> None then Some (st, App_Waiting paths)
           else if timed_out
           then Some (stop_kickoff env proof_uuid st,
                      App_Replied (408, ''Timeout waiting for input file: '' @ path))
           else Some (st, App_Waiting (path # paths)))
      | App_Admission \<Rightarrow>
          (if we_available env Job_Sharded_App then Some (st, App_Spawned (kickoff_job info req))
           else Some (stop_kickoff env proof_uuid st, App_Replied (503, ''No available app workers'')))
      | App_Replied r \<Rightarrow> None
      | App_Spawned job \<Rightarrow> Some (st, App_Streaming proof_uuid (we_submit_app env job) streamed)
      | App_Streaming u r rs \<Rightarrow>
          (let stream = (\<lambda>results s. s\<lparr>wk_outbox := stream_results (we_network env) (we_client env) u results (wk_outbox s)\<rparr>);
               st1 = stream rs st
           in case r of
             Ok (ProverSuccess results) \<Rightarrow> Some (stop_kickoff env u (stream streamed st1), App_Finished)
           | Ok (ProverError e) \<Rightarrow> Some (stop_kickoff env u (stream streamed (post_error env u e st1)), App_Finished)
           | Err e \<Rightarrow> Some (stop_kickoff env u (stream streamed (post_error env u e st1)), App_Finished)
           | Panic p \<Rightarrow> Some (stream streamed st1, App_Finished))
      | App_Finished \<Rightarrow> None)"

text \<open>Kickoffs, uploads and the janitor, interleaved. A kickoff is named by its position.\<close>

datatype worker_event =
  Wev_Kickoff sharded_app_prove_request
| Wev_Step nat bool "proof_result list"
| Wev_Upload string bytes uploaded_input_format
| Wev_Deferral string bytes deferral_artifact_kind
| Wev_Janitor

fun worker_event_step ::
  "('p, 'u, 'm, 'k, 'd, 'x, 'f, 'h, 'j, 'n, 'r, 'e) worker_env \<Rightarrow> worker_info \<Rightarrow> worker_event \<Rightarrow>
     worker_state \<times> (sharded_app_prove_request \<times> app_kickoff) list \<Rightarrow>
     (worker_state \<times> (sharded_app_prove_request \<times> app_kickoff) list) option" where
  "worker_event_step env info (Wev_Kickoff req) (st, ks) = Some (st, ks @ [(req, App_Received)])"
| "worker_event_step env info (Wev_Step i timed_out streamed) (st, ks) =
     (if i < length ks
      then map_option (\<lambda>(st', k'). (st', ks[i := (fst (ks ! i), k')]))
             (app_kickoff_step env info (fst (ks ! i)) timed_out streamed (st, snd (ks ! i)))
      else None)"
| "worker_event_step env info (Wev_Upload u b fmt) (st, ks) =
     Some (st\<lparr>wk_staging := fst (handle_upload_input (we_shm env) (we_serialize_stdin env) u b fmt (wk_staging st))\<rparr>, ks)"
| "worker_event_step env info (Wev_Deferral u b kind) (st, ks) =
     Some (st\<lparr>wk_staging := fst (handle_upload_deferral_bundle (we_shm env) (we_decode_bundle env)
       (loaded_deferral_circuit_count (mb_num_circuits (we_merge env)) (we_store env)) u b kind (wk_staging st))\<rparr>, ks)"
| "worker_event_step env info Wev_Janitor (st, ks) =
     Some (st\<lparr>wk_staging := janitor_round (we_shm env) (wk_staging st)\<rparr>, ks)"

fun worker_event_run ::
  "('p, 'u, 'm, 'k, 'd, 'x, 'f, 'h, 'j, 'n, 'r, 'e) worker_env \<Rightarrow> worker_info \<Rightarrow> worker_event list \<Rightarrow>
     worker_state \<times> (sharded_app_prove_request \<times> app_kickoff) list \<Rightarrow>
     (worker_state \<times> (sharded_app_prove_request \<times> app_kickoff) list) option" where
  "worker_event_run env info [] s = Some s"
| "worker_event_run env info (ev # evs) s =
     (case worker_event_step env info ev s of None \<Rightarrow> None | Some s' \<Rightarrow> worker_event_run env info evs s')"

end
