(* ===== verification/Worker_Inputs.thy ===== *)
theory Worker_Inputs
  imports Worker_Handlers
begin

text \<open>
  Properties of the staged inputs: paths, the round trip of an upload, what the janitor removes, and that
  the inputs of a proof are in place as long as its app job needs them.
\<close>

section \<open>Paths\<close>

lemma work_dir_inj [simp]: "uploaded_input_work_dir u = uploaded_input_work_dir v \<longleftrightarrow> u = v"
  by (simp add: uploaded_input_work_dir_def)

lemma work_dir_uuid [simp]: "uploaded_input_proof_uuid_from_path (uploaded_input_work_dir u) = Some u"
  by (simp add: uploaded_input_proof_uuid_from_path_def uploaded_input_work_dir_def strip_prefix_def)

lemma strip_prefix_Some: "strip_prefix p s = Some u \<Longrightarrow> s = p @ u"
  by (auto simp: strip_prefix_def split: if_splits) (metis append_take_drop_id)

lemma work_dir_of_uuid: "uploaded_input_proof_uuid_from_path name = Some u \<Longrightarrow> name = uploaded_input_work_dir u"
  unfolding uploaded_input_proof_uuid_from_path_def uploaded_input_work_dir_def by (rule strip_prefix_Some)

lemma valid_uuid_chars:
  "validate_uploaded_proof_uuid u = None \<Longrightarrow> list_all (\<lambda>c. is_ascii_alphanumeric c \<or> c = CHR ''_'' \<or> c = CHR ''-'') u"
  by (simp add: validate_uploaded_proof_uuid_def split: if_splits)

lemma valid_uuid_no_slash: "validate_uploaded_proof_uuid u = None \<Longrightarrow> CHR ''/'' \<notin> set (uploaded_input_work_dir u)"
  using valid_uuid_chars [of u]
  by (auto simp: uploaded_input_work_dir_def list_all_iff is_ascii_alphanumeric_def)

lemma resolve_shm_path:
  assumes "CHR ''/'' \<notin> set name"
  shows "resolve_path (shm_path name file) = Some (name, file)"
proof -
  have a: "strip_prefix (uploaded_input_root @ ''/'') (shm_path name file) = Some (name @ ''/'' @ file)"
    by (simp add: strip_prefix_def shm_path_def uploaded_input_root_def)
  have b: "dropWhile (\<lambda>c. c \<noteq> CHR ''/'') (name @ ''/'' @ file) = ''/'' @ file"
    using assms by (subst dropWhile_append2) auto
  have c: "takeWhile (\<lambda>c. c \<noteq> CHR ''/'') (name @ ''/'' @ file) = name"
    using assms by (subst takeWhile_append2) auto
  show ?thesis using a b c by (simp add: resolve_path_def)
qed

lemma shm_read_path:
  "CHR ''/'' \<notin> set name \<Longrightarrow> shm_read st (shm_path name file) = shm_lookup name file st"
  by (simp add: shm_read_def resolve_shm_path)

section \<open>Writes\<close>

lemma tick_simps [simp]: "fs_entries (tick st) = fs_entries st" "shm_lookup n f (tick st) = shm_lookup n f st"
  by (simp_all add: tick_def shm_lookup_def)

lemma put_entry_entries [simp]: "fs_entries (put_entry n e st) = AList.update n e (fs_entries st)"
  by (simp add: put_entry_def)

lemma lookup_put_dir [simp]:
  "shm_lookup n f (put_entry m (Shm_Dir d) st) = (if n = m then map_of (sd_files d) f else shm_lookup n f st)"
  by (simp add: shm_lookup_def)

lemma put_file_files [simp]: "map_of (sd_files (put_file now g c d)) f = (if f = g then Some c else map_of (sd_files d) f)"
  by (simp add: put_file_def)

lemma lookup_dir: "map_of (fs_entries st) n = Some (Shm_Dir d) \<Longrightarrow> shm_lookup n f st = map_of (sd_files d) f"
  by (simp add: shm_lookup_def)

lemma lookup_none: "map_of (fs_entries st) n = None \<Longrightarrow> shm_lookup n f st = None"
  by (simp add: shm_lookup_def)

lemma create_dir_lookup:
  "shm_create_dir_all env m st = (st', r) \<Longrightarrow> shm_lookup n f st' = shm_lookup n f st"
  by (auto simp: shm_create_dir_all_def lookup_none split: option.splits shm_entry.splits)

lemma write_lookup:
  "shm_write env m g c st = (st', r) \<Longrightarrow> n \<noteq> m \<or> f \<noteq> g \<Longrightarrow> shm_lookup n f st' = shm_lookup n f st"
  by (auto simp: shm_write_def Let_def lookup_dir split: option.splits shm_entry.splits)

lemma write_done: "shm_write env m g c st = (st', Inr u) \<Longrightarrow> shm_lookup m g st' = Some c"
  by (auto simp: shm_write_def Let_def split: option.splits shm_entry.splits)

lemma rename_lookup:
  "shm_rename env m src dst st = (st', r) \<Longrightarrow> src \<noteq> dst \<Longrightarrow> n \<noteq> m \<or> f \<noteq> src \<Longrightarrow>
     shm_lookup n f st' = (if n = m \<and> f = dst \<and> r = Inr () then shm_lookup m src st else shm_lookup n f st)"
  by (auto simp: shm_rename_def lookup_dir split: option.splits shm_entry.splits)

text \<open>A write through a temporary name is atomic for the final name.\<close>

lemma artifact_write_lookup:
  assumes "write_deferral_artifact_file env m g c st = (st', r)"
  shows "n \<noteq> m \<or> f \<noteq> g @ ''.tmp'' \<Longrightarrow> f \<noteq> g \<or> n \<noteq> m \<Longrightarrow> shm_lookup n f st' = shm_lookup n f st"
    and "shm_lookup m g st' = (if r = Inr () then Some c else shm_lookup m g st)"
proof -
  obtain st1 r1 where 1: "shm_create_dir_all env m st = (st1, r1)" by fastforce
  obtain st2 r2 where 2: "shm_write env m (g @ ''.tmp'') c st1 = (st2, r2)" by fastforce
  obtain st3 r3 where 3: "shm_rename env m (g @ ''.tmp'') g st2 = (st3, r3)" by fastforce
  note l = create_dir_lookup [OF 1] write_lookup [OF 2] rename_lookup [OF 3]
  show "shm_lookup n f st' = shm_lookup n f st" if "n \<noteq> m \<or> f \<noteq> g @ ''.tmp''" "f \<noteq> g \<or> n \<noteq> m"
    using assms that l 1 2 3 by (auto simp: write_deferral_artifact_file_def split: sum.splits)
  show "shm_lookup m g st' = (if r = Inr () then Some c else shm_lookup m g st)"
    using assms l 1 2 3 write_done [of env m "g @ ''.tmp''" c st1 st2]
    by (auto simp: write_deferral_artifact_file_def split: sum.splits)
qed

lemma uploaded_input_is_artifact:
  "write_uploaded_input_file env u data = write_deferral_artifact_file env (uploaded_input_work_dir u) ''input.bin'' data"
  by (rule ext) (simp add: write_uploaded_input_file_def write_deferral_artifact_file_def split: prod.split sum.split)

section \<open>Removal\<close>

lemma remove_dir_entries:
  "shm_remove_dir_all env m st = (st', r) \<Longrightarrow> n \<noteq> m \<Longrightarrow> map_of (fs_entries st') n = map_of (fs_entries st) n"
  by (auto simp: shm_remove_dir_all_def split: option.splits shm_entry.splits)

text \<open>What the scan may remove: the directory of a proof that is inactive at some moment of the scan, and
  whose age has then reached the limit.\<close>

definition reapable ::
  "shm_env \<Rightarrow> (nat \<Rightarrow> string \<Rightarrow> bool) \<Rightarrow> int \<Rightarrow> string \<Rightarrow> shm_entry option \<Rightarrow> bool" where
  "reapable env active stale_after name e \<longleftrightarrow>
     (\<exists>u d n. name = uploaded_input_work_dir u \<and> e = Some (Shm_Dir d) \<and> \<not> active n u \<and>
        stale_after \<le> max 0 (se_now env n - sd_modified d))"

lemma reapableI:
  "map_of (fs_entries st) (uploaded_input_work_dir u) = Some (Shm_Dir d) \<Longrightarrow> \<not> active n u \<Longrightarrow>
     \<not> max 0 (se_now env n - sd_modified d) < stale_after \<Longrightarrow>
     reapable env active stale_after (uploaded_input_work_dir u) (map_of (fs_entries st) (uploaded_input_work_dir u))"
  by (auto simp: reapable_def not_less)

lemma cleanup_entry_spares:
  assumes "cleanup_stale_entry env active stale_after name (st, k) = (st', k')"
  shows "n \<noteq> name \<Longrightarrow> map_of (fs_entries st') n = map_of (fs_entries st) n"
    and "map_of (fs_entries st') name = map_of (fs_entries st) name \<or>
      reapable env active stale_after name (map_of (fs_entries st) name)"
proof -
  show "map_of (fs_entries st') n = map_of (fs_entries st) n" if "n \<noteq> name"
    using assms that
    by (auto simp: cleanup_stale_entry_def Let_def dest: remove_dir_entries
        split: option.splits if_splits shm_entry.splits sum.splits prod.splits)
  show "map_of (fs_entries st') name = map_of (fs_entries st) name \<or>
      reapable env active stale_after name (map_of (fs_entries st) name)"
  proof (cases "map_of (fs_entries st') name = map_of (fs_entries st) name")
    case False
    obtain u where u: "name = uploaded_input_work_dir u"
      using assms False work_dir_of_uuid
      by (auto simp: cleanup_stale_entry_def Let_def split: option.splits)
    obtain d where d: "map_of (fs_entries st) name = Some (Shm_Dir d)"
      using assms False by (auto simp: cleanup_stale_entry_def Let_def u split: option.splits if_splits shm_entry.splits)
    have "\<not> active (fs_calls (tick (tick st))) u \<and>
        \<not> max 0 (se_now env (fs_calls (tick (tick st))) - sd_modified d) < stale_after"
      using assms False d by (auto simp: cleanup_stale_entry_def Let_def u split: if_splits)
    then show ?thesis unfolding u by (intro disjI2 reapableI [OF d [unfolded u]]) auto
  qed simp
qed

lemma cleanup_fold_spares:
  assumes "fold (cleanup_stale_entry env active stale_after) names (st, k) = (st', k')" "distinct names"
  shows "map_of (fs_entries st') n = map_of (fs_entries st) n \<or>
    n \<in> set names \<and> reapable env active stale_after n (map_of (fs_entries st) n)"
  using assms
proof (induction names arbitrary: st k)
  case (Cons name names)
  obtain st1 k1 where e: "cleanup_stale_entry env active stale_after name (st, k) = (st1, k1)" by fastforce
  have "map_of (fs_entries st') n = map_of (fs_entries st1) n \<or>
      n \<in> set names \<and> reapable env active stale_after n (map_of (fs_entries st1) n)"
    using Cons e by simp
  then show ?case using cleanup_entry_spares [OF e] Cons.prems(2) by (cases "n = name") auto
qed simp

lemma cleanup_spares:
  assumes "hm_wf (fs_entries st)"
  shows "map_of (fs_entries (fst (cleanup_stale_uploaded_inputs env active stale_after st))) n = map_of (fs_entries st) n \<or>
    reapable env active stale_after n (map_of (fs_entries st) n)"
proof -
  obtain st' k' where f: "fold (cleanup_stale_entry env active stale_after) (map fst (fs_entries st)) (tick st, 0) = (st', k')"
    by fastforce
  have "distinct (map fst (fs_entries st))" using assms by (simp add: hm_wf_def)
  from cleanup_fold_spares [OF f this, of n] f show ?thesis
    by (auto simp: cleanup_stale_uploaded_inputs_def)
qed


text \<open>No removal changes a file: it stays or it is gone.\<close>

definition shrinks :: "shm \<Rightarrow> shm \<Rightarrow> bool" where
  "shrinks st st' \<longleftrightarrow> (\<forall>n f. shm_lookup n f st' = shm_lookup n f st \<or> shm_lookup n f st' = None)"

lemma shrinks_refl [simp]: "shrinks st st"
  by (simp add: shrinks_def)

lemma shrinks_tick [simp]: "shrinks st (tick st')  = shrinks st st'" "shrinks (tick st) st' = shrinks st st'"
  by (simp_all add: shrinks_def)

lemma shrinks_trans: "shrinks a b \<Longrightarrow> shrinks b c \<Longrightarrow> shrinks a c"
  unfolding shrinks_def by metis

lemma map_of_filter_keys: "map_of (filter (\<lambda>(k, _). P k) m) k = (if P k then map_of m k else None)"
  by (induction m) auto

lemma remove_dir_shrinks: "shm_remove_dir_all env m st = (st', r) \<Longrightarrow> shrinks st st'"
  by (auto simp: shm_remove_dir_all_def shrinks_def shm_lookup_def map_of_filter_keys
      split: option.splits shm_entry.splits if_splits)

lemma cleanup_entry_shrinks: "cleanup_stale_entry env active stale_after name (st, k) = (st', k') \<Longrightarrow> shrinks st st'"
  by (auto simp: cleanup_stale_entry_def Let_def dest: remove_dir_shrinks
      split: option.splits if_splits shm_entry.splits sum.splits prod.splits)

lemma cleanup_fold_shrinks:
  "fold (cleanup_stale_entry env active stale_after) names (st, k) = (st', k') \<Longrightarrow> shrinks st st'"
proof (induction names arbitrary: st k)
  case (Cons name names)
  obtain st1 k1 where e: "cleanup_stale_entry env active stale_after name (st, k) = (st1, k1)" by fastforce
  then show ?case using Cons shrinks_trans cleanup_entry_shrinks [OF e] by fastforce
qed simp

lemma cleanup_shrinks: "shrinks st (fst (cleanup_stale_uploaded_inputs env active stale_after st))"
proof -
  obtain st' k' where f: "fold (cleanup_stale_entry env active stale_after) (map fst (fs_entries st)) (tick st, 0) = (st', k')"
    by fastforce
  show ?thesis using cleanup_fold_shrinks [OF f] f by (simp add: cleanup_stale_uploaded_inputs_def)
qed

section \<open>Uploads\<close>

text \<open>A file after a write with a retry: on success it has the new content, on failure the old or none.\<close>

lemma with_retry_lookup:
  assumes "with_no_space_retry env (write_deferral_artifact_file env m g c) st = (st', r)"
  shows "if r = Inr () then shm_lookup m g (stg_fs st') = Some c
    else shm_lookup m g (stg_fs st') \<in> {shm_lookup m g (stg_fs st), None}"
    and "stg_active st' = stg_active st"
proof -
  obtain fs1 r1 where 1: "write_deferral_artifact_file env m g c (stg_fs st) = (fs1, r1)" by fastforce
  define fs2 where "fs2 = fst (cleanup_stale_uploaded_inputs env (active_now st) stale_uploaded_input_ttl fs1)"
  obtain fs3 r3 where 3: "write_deferral_artifact_file env m g c fs2 = (fs3, r3)" by fastforce
  have "shm_lookup m g fs2 \<in> {shm_lookup m g fs1, None}"
    using cleanup_shrinks [of fs1] by (auto simp: fs2_def shrinks_def)
  note l = this artifact_write_lookup(2) [OF 1] artifact_write_lookup(2) [OF 3]
  show "if r = Inr () then shm_lookup m g (stg_fs st') = Some c
    else shm_lookup m g (stg_fs st') \<in> {shm_lookup m g (stg_fs st), None}"
    using assms l 1 3 by (auto simp: with_no_space_retry_def fs2_def [symmetric] split: sum.splits if_splits)
  show "stg_active st' = stg_active st"
    using assms 1 3 by (auto simp: with_no_space_retry_def fs2_def [symmetric] split: sum.splits if_splits)
qed


text \<open>A worker with an empty \<open>/dev/shm\<close>, no faults and a clock that shows a second.\<close>

definition calm_shm :: shm_env where
  "calm_shm = \<lparr>se_fault = (\<lambda>n op. None), se_now = (\<lambda>n. 1000000000), se_junk = (\<lambda>n. None), se_survives = (\<lambda>n f. True)\<rparr>"

definition empty_staging :: staging where
  "empty_staging = \<lparr>stg_fs = \<lparr>fs_entries = [], fs_calls = 0\<rparr>, stg_active = []\<rparr>"



section \<open>The janitor\<close>

text \<open>Nothing fails, the clock stands still and nothing else runs.\<close>

definition calm_gone :: "(string \<Rightarrow> bool) \<Rightarrow> instant \<Rightarrow> int \<Rightarrow> (string, shm_entry) hmap \<Rightarrow> string \<Rightarrow> bool" where
  "calm_gone act now stale_after m name \<longleftrightarrow>
     (\<exists>u d. name = uploaded_input_work_dir u \<and> map_of m name = Some (Shm_Dir d) \<and> \<not> act u \<and>
        stale_after \<le> max 0 (now - sd_modified d))"

lemma calm_gone_cong: "map_of m name = map_of m' name \<Longrightarrow> calm_gone act now t m name = calm_gone act now t m' name"
  by (simp add: calm_gone_def)

lemma calm_entry:
  assumes "se_fault env = (\<lambda>n op. None)" "se_now env = (\<lambda>n. now)" "active = (\<lambda>n. act)"
    "cleanup_stale_entry env active stale_after name (st, k) = (st', k')"
  shows "if calm_gone act now stale_after (fs_entries st) name
     then map_of (fs_entries st') name = None \<and> k' = Suc k
     else map_of (fs_entries st') name = map_of (fs_entries st) name \<and> k' = k"
proof (cases "uploaded_input_proof_uuid_from_path name")
  case None
  then have "name \<noteq> uploaded_input_work_dir u" for u by auto
  then show ?thesis using assms(4) None by (auto simp: cleanup_stale_entry_def calm_gone_def)
next
  case (Some u)
  note n = work_dir_of_uuid [OF Some]
  show ?thesis
    using assms(4) unfolding n assms(3) calm_gone_def
    by (auto simp: cleanup_stale_entry_def Let_def assms(1,2) shm_remove_dir_all_def
        split: option.splits if_splits shm_entry.splits)
qed

lemma calm_fold:
  assumes "se_fault env = (\<lambda>n op. None)" "se_now env = (\<lambda>n. now)" "active = (\<lambda>n. act)"
    "fold (cleanup_stale_entry env active stale_after) names (st, k) = (st', k')" "distinct names"
  shows "(\<forall>n. map_of (fs_entries st') n =
      (if n \<in> set names \<and> calm_gone act now stale_after (fs_entries st) n then None else map_of (fs_entries st) n)) \<and>
    k' = k + length (filter (calm_gone act now stale_after (fs_entries st)) names)"
  using assms(4,5)
proof (induction names arbitrary: st k)
  case (Cons name names)
  let ?g = "\<lambda>st. calm_gone act now stale_after (fs_entries st)"
  obtain st1 k1 where e: "cleanup_stale_entry env active stale_after name (st, k) = (st1, k1)" by fastforce
  have same: "map_of (fs_entries st1) n = map_of (fs_entries st) n" if "n \<noteq> name" for n
    using cleanup_entry_spares(1) [OF e that] .
  have gs: "?g st1 n = ?g st n" if "n \<noteq> name" for n by (rule calm_gone_cong) (rule same [OF that])
  have first: "if ?g st name then map_of (fs_entries st1) name = None \<and> k1 = Suc k
      else map_of (fs_entries st1) name = map_of (fs_entries st) name \<and> k1 = k"
    using calm_entry [OF assms(1-3) e] .
  have f: "filter (?g st1) names = filter (?g st) names"
  proof (rule filter_cong [OF refl])
    show "?g st1 x = ?g st x" if "x \<in> set names" for x using that Cons.prems(2) by (intro gs) auto
  qed
  have "(\<forall>n. map_of (fs_entries st') n = (if n \<in> set names \<and> ?g st1 n then None else map_of (fs_entries st1) n)) \<and>
      k' = k1 + length (filter (?g st1) names)"
    using Cons.IH [of st1 k1] Cons.prems e by simp
  then have ih: "map_of (fs_entries st') n = (if n \<in> set names \<and> ?g st1 n then None else map_of (fs_entries st1) n)"
    and k': "k' = k1 + length (filter (?g st) names)" for n
    unfolding f by blast+
  have "map_of (fs_entries st') n =
      (if n \<in> set (name # names) \<and> ?g st n then None else map_of (fs_entries st) n)" for n
  proof (cases "n = name")
    case True
    then show ?thesis using ih [of n] first Cons.prems(2) by auto
  next
    case False
    then show ?thesis using ih [of n] gs [OF False] same [OF False] by simp
  qed
  then show ?case using first k' by auto
qed simp

text \<open>The janitor: whatever calls fail and whatever becomes active during the scan, an entry changes only if it is
  the directory of a proof that was inactive when checked and has by then been unmodified for the time to live; no
  file is ever altered. When nothing fails and nothing else runs, exactly those directories are removed, and
  counted. Other entries of \<open>/dev/shm\<close> are never touched.\<close>

theorem janitor_removes_only_stale:
  assumes "hm_wf (fs_entries st)"
  shows "(\<forall>n. map_of (fs_entries (fst (cleanup_stale_uploaded_inputs env active stale_after st))) n =
        map_of (fs_entries st) n \<or> reapable env active stale_after n (map_of (fs_entries st) n)) \<and>
    shrinks st (fst (cleanup_stale_uploaded_inputs env active stale_after st)) \<and>
    (se_fault env = (\<lambda>n op. None) \<and> se_now env = (\<lambda>n. now) \<and> active = (\<lambda>n. act) \<longrightarrow>
      (\<forall>n. map_of (fs_entries (fst (cleanup_stale_uploaded_inputs env active stale_after st))) n =
        (if reapable env active stale_after n (map_of (fs_entries st) n) then None else map_of (fs_entries st) n)) \<and>
      snd (cleanup_stale_uploaded_inputs env active stale_after st) =
        length (filter (\<lambda>n. reapable env active stale_after n (map_of (fs_entries st) n)) (map fst (fs_entries st))))"
proof (intro conjI impI)
  show "\<forall>n. map_of (fs_entries (fst (cleanup_stale_uploaded_inputs env active stale_after st))) n =
        map_of (fs_entries st) n \<or> reapable env active stale_after n (map_of (fs_entries st) n)"
    using cleanup_spares [OF assms] by blast
  show "shrinks st (fst (cleanup_stale_uploaded_inputs env active stale_after st))"
    by (rule cleanup_shrinks)
next
  assume calm: "se_fault env = (\<lambda>n op. None) \<and> se_now env = (\<lambda>n. now) \<and> active = (\<lambda>n. act)"
  let ?g = "calm_gone act now stale_after (fs_entries st)"
  have gr: "reapable env active stale_after n (map_of (fs_entries st) n) = ?g n" for n
    using calm by (auto simp: reapable_def calm_gone_def)
  obtain st' k' where f: "fold (cleanup_stale_entry env active stale_after) (map fst (fs_entries st)) (tick st, 0) = (st', k')"
    by fastforce
  have d: "distinct (map fst (fs_entries st))" using assms by (simp add: hm_wf_def)
  have r: "(\<forall>n. map_of (fs_entries st') n = (if n \<in> set (map fst (fs_entries st)) \<and> ?g n then None
        else map_of (fs_entries st) n)) \<and> k' = length (filter ?g (map fst (fs_entries st)))"
    using calm_fold [OF _ _ _ f d, of now act] calm by simp
  have in_dom: "?g n \<Longrightarrow> n \<in> set (map fst (fs_entries st))" for n
    by (auto simp: calm_gone_def) (metis fst_conv image_eqI map_of_SomeD)
  show "\<forall>n. map_of (fs_entries (fst (cleanup_stale_uploaded_inputs env active stale_after st))) n =
        (if reapable env active stale_after n (map_of (fs_entries st) n) then None else map_of (fs_entries st) n)"
    using r f calm in_dom unfolding gr by (auto simp: cleanup_stale_uploaded_inputs_def)
  show "snd (cleanup_stale_uploaded_inputs env active stale_after st) =
        length (filter (\<lambda>n. reapable env active stale_after n (map_of (fs_entries st) n)) (map fst (fs_entries st)))"
    using r f calm unfolding gr by (simp add: cleanup_stale_uploaded_inputs_def)
qed


theorem janitor_removes_only_stale_witness:
  "map fst (fs_entries (fst (cleanup_stale_uploaded_inputs calm_shm (\<lambda>n u. u = ''p2'') 600
     \<lparr>fs_entries = [(''edge_p1'', Shm_Dir \<lparr>sd_modified = 0, sd_files = []\<rparr>), (''edge_p2'', Shm_Dir \<lparr>sd_modified = 0, sd_files = []\<rparr>),
        (''other'', Shm_Dir \<lparr>sd_modified = 0, sd_files = []\<rparr>), (''edge_p3'', Shm_Dir \<lparr>sd_modified = 999999999, sd_files = []\<rparr>)],
      fs_calls = 0\<rparr>))) = [''edge_p2'', ''other'', ''edge_p3''] \<and>
   map_of (fs_entries (fst (cleanup_stale_uploaded_inputs calm_shm (\<lambda>n u. False) 600
     \<lparr>fs_entries = [(''other'', Shm_Dir \<lparr>sd_modified = 0, sd_files = []\<rparr>)], fs_calls = 0\<rparr>))) ''other'' \<noteq> None"
proof
  show "map fst (fs_entries (fst (cleanup_stale_uploaded_inputs calm_shm (\<lambda>n u. u = ''p2'') 600
     \<lparr>fs_entries = [(''edge_p1'', Shm_Dir \<lparr>sd_modified = 0, sd_files = []\<rparr>), (''edge_p2'', Shm_Dir \<lparr>sd_modified = 0, sd_files = []\<rparr>),
        (''other'', Shm_Dir \<lparr>sd_modified = 0, sd_files = []\<rparr>), (''edge_p3'', Shm_Dir \<lparr>sd_modified = 999999999, sd_files = []\<rparr>)],
      fs_calls = 0\<rparr>))) = [''edge_p2'', ''other'', ''edge_p3'']"
    by code_simp
next
  let ?st = "\<lparr>fs_entries = [(''other'', Shm_Dir \<lparr>sd_modified = 0, sd_files = []\<rparr>)], fs_calls = 0\<rparr>"
  have "hm_wf (fs_entries ?st)" by (simp add: hm_wf_def)
  note t = janitor_removes_only_stale [OF this, of calm_shm "\<lambda>n u. False" 600, THEN conjunct1, rule_format, of "''other''"]
  have "\<not> reapable calm_shm (\<lambda>n u. False) 600 ''other'' e" for e
    by (auto simp: reapable_def uploaded_input_work_dir_def)
  then show "map_of (fs_entries (fst (cleanup_stale_uploaded_inputs calm_shm (\<lambda>n u. False) 600 ?st))) ''other'' \<noteq> None"
    using t by simp
qed

section \<open>Inputs in use\<close>

text \<open>The files a kickoff needs, and that they are there.\<close>

definition required_paths :: "sharded_app_prove_request \<Rightarrow> string list" where
  "required_paths req = staged_input_path (sar_proof_uuid req) # kickoff_paths req"

definition kickoff_inv :: "worker_state \<Rightarrow> sharded_app_prove_request \<Rightarrow> app_kickoff \<Rightarrow> bool" where
  "kickoff_inv st req k \<longleftrightarrow>
     (let u = sar_proof_uuid req; active = (u \<in> set (stg_active (wk_staging st)));
          there = (\<lambda>p. shm_read (stg_fs (wk_staging st)) p \<noteq> None)
      in case k of
           App_Waiting ps \<Rightarrow> validate_uploaded_proof_uuid u = None \<and> active \<and> set ps \<subseteq> set (required_paths req) \<and>
             (\<forall>p \<in> set (required_paths req) - set ps. there p)
         | App_Admission \<Rightarrow> validate_uploaded_proof_uuid u = None \<and> active \<and> (\<forall>p \<in> set (required_paths req). there p)
         | App_Spawned job \<Rightarrow> validate_uploaded_proof_uuid u = None \<and> active \<and> (\<forall>p \<in> set (required_paths req). there p)
         | App_Streaming v r rs \<Rightarrow> v = u \<and> validate_uploaded_proof_uuid u = None \<and> active \<and>
             (\<forall>p \<in> set (required_paths req). there p)
         | _ \<Rightarrow> True)"

text \<open>A step that leaves the active mark of a proof and keeps its files.\<close>

definition keeps_inputs :: "string \<Rightarrow> worker_state \<Rightarrow> worker_state \<Rightarrow> bool" where
  "keeps_inputs u st st' \<longleftrightarrow>
     (u \<in> set (stg_active (wk_staging st)) \<longrightarrow> u \<in> set (stg_active (wk_staging st')) \<and>
        (\<forall>f. f \<noteq> [] \<longrightarrow> last f = CHR ''n'' \<longrightarrow>
           shm_lookup (uploaded_input_work_dir u) f (stg_fs (wk_staging st)) \<noteq> None \<longrightarrow>
           shm_lookup (uploaded_input_work_dir u) f (stg_fs (wk_staging st')) \<noteq> None))"

lemma required_path_file:
  assumes "p \<in> set (required_paths req)"
  obtains f where "p = shm_path (uploaded_input_work_dir (sar_proof_uuid req)) f" "f \<noteq> []" "last f = CHR ''n''"
  using assms
  by (auto simp: required_paths_def kickoff_paths_def staged_input_path_def staged_deferral_state_path_def
      deferral_state_filename_def)

lemma kickoff_inv_keeps:
  assumes "kickoff_inv st req k" "keeps_inputs (sar_proof_uuid req) st st'"
  shows "kickoff_inv st' req k"
proof -
  have there: "shm_read (stg_fs (wk_staging st')) p \<noteq> None"
    if v: "validate_uploaded_proof_uuid (sar_proof_uuid req) = None" and p: "p \<in> set (required_paths req)"
      and a: "(sar_proof_uuid req) \<in> set (stg_active (wk_staging st))" "shm_read (stg_fs (wk_staging st)) p \<noteq> None" for p
  proof -
    obtain f where f: "p = shm_path (uploaded_input_work_dir (sar_proof_uuid req)) f" "f \<noteq> []" "last f = CHR ''n''"
      using required_path_file [OF p] .
    have "shm_read fs p = shm_lookup (uploaded_input_work_dir (sar_proof_uuid req)) f fs" for fs
      using f(1) valid_uuid_no_slash [OF v] by (simp add: shm_read_path)
    then show ?thesis using f(2,3) a assms(2) by (auto simp: keeps_inputs_def)
  qed
  have act: "(sar_proof_uuid req) \<in> set (stg_active (wk_staging st)) \<Longrightarrow>
      (sar_proof_uuid req) \<in> set (stg_active (wk_staging st'))"
    using assms(2) by (simp add: keeps_inputs_def)
  show ?thesis
    using assms(1) there act unfolding kickoff_inv_def Let_def
    by (cases k) (auto simp del: not_None_eq)
qed

lemma artifact_write_keeps:
  assumes "write_deferral_artifact_file env m g c st = (st', r)" "last f = CHR ''n''" "shm_lookup n f st \<noteq> None"
  shows "shm_lookup n f st' \<noteq> None"
proof (cases "n = m \<and> f = g")
  case True
  then show ?thesis using artifact_write_lookup(2) [OF assms(1)] assms(3) by auto
next
  case False
  have "f \<noteq> g @ ''.tmp''" using assms(2) by auto
  then show ?thesis using artifact_write_lookup(1) [OF assms(1), of n f] assms(3) False by auto
qed

lemma cleanup_keeps_active:
  assumes "hm_wf (fs_entries st)" "\<And>n. active n u"
  shows "shm_lookup (uploaded_input_work_dir u) f (fst (cleanup_stale_uploaded_inputs env active t st)) =
    shm_lookup (uploaded_input_work_dir u) f st"
proof -
  have "\<not> reapable env active t (uploaded_input_work_dir u) e" for e
    using assms(2) by (auto simp: reapable_def)
  then have "map_of (fs_entries (fst (cleanup_stale_uploaded_inputs env active t st))) (uploaded_input_work_dir u) =
      map_of (fs_entries st) (uploaded_input_work_dir u)"
    using cleanup_spares [OF assms(1)] by blast
  then show ?thesis by (simp add: shm_lookup_def)
qed


text \<open>The map of entries stays well formed.\<close>

lemma shm_ops_wf [simp]:
  "hm_wf (fs_entries st) \<Longrightarrow> hm_wf (fs_entries (fst (shm_create_dir_all env m st)))"
  "hm_wf (fs_entries st) \<Longrightarrow> hm_wf (fs_entries (fst (shm_write env m g c st)))"
  "hm_wf (fs_entries st) \<Longrightarrow> hm_wf (fs_entries (fst (shm_rename env m src dst st)))"
  "hm_wf (fs_entries st) \<Longrightarrow> hm_wf (fs_entries (fst (shm_remove_dir_all env m st)))"
  by (auto simp: shm_create_dir_all_def shm_write_def shm_rename_def shm_remove_dir_all_def Let_def
      split: option.splits shm_entry.splits)

lemma artifact_write_wf [simp]:
  assumes "hm_wf (fs_entries st)"
  shows "hm_wf (fs_entries (fst (write_deferral_artifact_file env m g c st)))"
proof -
  obtain st1 r1 where 1: "shm_create_dir_all env m st = (st1, r1)" by fastforce
  obtain st2 r2 where 2: "shm_write env m (g @ ''.tmp'') c st1 = (st2, r2)" by fastforce
  obtain st3 r3 where 3: "shm_rename env m (g @ ''.tmp'') g st2 = (st3, r3)" by fastforce
  have "hm_wf (fs_entries st1)" using shm_ops_wf(1) [OF assms, of env m] 1 by simp
  moreover from this have "hm_wf (fs_entries st2)" using shm_ops_wf(2) [of st1 env m "g @ ''.tmp''" c] 2 by simp
  moreover from this have "hm_wf (fs_entries st3)" using shm_ops_wf(3) [of st2 env m "g @ ''.tmp''" g] 3 by simp
  ultimately show ?thesis using 1 2 3 by (simp add: write_deferral_artifact_file_def split: sum.split)
qed

lemma remove_dir_wf: "shm_remove_dir_all env m st = (st', r) \<Longrightarrow> hm_wf (fs_entries st) \<Longrightarrow> hm_wf (fs_entries st')"
  using shm_ops_wf(4) [of st env m] by simp

lemma cleanup_entry_wf:
  "cleanup_stale_entry env active t name (st, k) = (st', k') \<Longrightarrow> hm_wf (fs_entries st) \<Longrightarrow> hm_wf (fs_entries st')"
  by (auto simp: cleanup_stale_entry_def Let_def dest: remove_dir_wf
      split: option.splits if_splits shm_entry.splits sum.splits prod.splits)

lemma cleanup_wf [simp]:
  assumes "hm_wf (fs_entries st)"
  shows "hm_wf (fs_entries (fst (cleanup_stale_uploaded_inputs env active t st)))"
proof -
  have "hm_wf (fs_entries st) \<Longrightarrow> hm_wf (fs_entries (fst (fold (cleanup_stale_entry env active t) names (st, k))))" for names st k
  proof (induction names arbitrary: st k)
    case (Cons name names)
    obtain st1 k1 where e: "cleanup_stale_entry env active t name (st, k) = (st1, k1)" by fastforce
    then show ?case using Cons.IH [of st1 k1] cleanup_entry_wf [OF e Cons.prems] by simp
  qed simp
  then show ?thesis using assms by (simp add: cleanup_stale_uploaded_inputs_def)
qed

text \<open>The inputs of an active proof survive every write.\<close>

definition keeps_files :: "string \<Rightarrow> staging \<Rightarrow> staging \<Rightarrow> bool" where
  "keeps_files u st st' \<longleftrightarrow> stg_active st' = stg_active st \<and>
     (hm_wf (fs_entries (stg_fs st)) \<longrightarrow> hm_wf (fs_entries (stg_fs st')) \<and>
       (u \<in> set (stg_active st) \<longrightarrow>
         (\<forall>f. last f = CHR ''n'' \<longrightarrow> shm_lookup (uploaded_input_work_dir u) f (stg_fs st) \<noteq> None \<longrightarrow>
           shm_lookup (uploaded_input_work_dir u) f (stg_fs st') \<noteq> None)))"

lemma keeps_files_refl [simp]: "keeps_files u st st"
  by (simp add: keeps_files_def)

lemma keeps_files_trans: "keeps_files u a b \<Longrightarrow> keeps_files u b c \<Longrightarrow> keeps_files u a c"
  by (simp add: keeps_files_def)

lemma keeps_files_write: "keeps_files u st (st\<lparr>stg_fs := fst (write_deferral_artifact_file env m g c (stg_fs st))\<rparr>)"
proof -
  obtain fs r where w: "write_deferral_artifact_file env m g c (stg_fs st) = (fs, r)" by fastforce
  show ?thesis using artifact_write_keeps [OF w] artifact_write_wf [of "stg_fs st" env m g c] w
    by (auto simp: keeps_files_def simp del: artifact_write_wf)
qed

lemma keeps_files_cleanup:
  "keeps_files u st (st\<lparr>stg_fs := fst (cleanup_stale_uploaded_inputs env (active_now st') t (stg_fs st))\<rparr>)"
  if "stg_active st' = stg_active st"
  using that by (auto simp: keeps_files_def cleanup_keeps_active active_now_def)

lemma keeps_files_retry: "keeps_files u st (fst (with_no_space_retry env (write_deferral_artifact_file env m g c) st))"
proof -
  obtain fs1 r1 where 1: "write_deferral_artifact_file env m g c (stg_fs st) = (fs1, r1)" by fastforce
  define st1 where "st1 = st\<lparr>stg_fs := fs1\<rparr>"
  define st2 where "st2 = st1\<lparr>stg_fs := fst (cleanup_stale_uploaded_inputs env (active_now st) stale_uploaded_input_ttl fs1)\<rparr>"
  define st3 where "st3 = st2\<lparr>stg_fs := fst (write_deferral_artifact_file env m g c (stg_fs st2))\<rparr>"
  have a: "keeps_files u st st1" using keeps_files_write [of u st env m g c] 1 by (simp add: st1_def)
  moreover have "keeps_files u st1 st2"
    unfolding st2_def using keeps_files_cleanup [of st st1 u env stale_uploaded_input_ttl] by (simp add: st1_def)
  moreover have "keeps_files u st2 st3" unfolding st3_def by (rule keeps_files_write)
  ultimately have b: "keeps_files u st st3" by (metis keeps_files_trans)
  have "fst (with_no_space_retry env (write_deferral_artifact_file env m g c) st) \<in> {st1, st3}"
    using 1 by (auto simp: with_no_space_retry_def st1_def st2_def st3_def Let_def split: sum.splits prod.splits)
  then show ?thesis using a b by auto
qed

lemma keeps_files_upload: "keeps_files u st (fst (handle_upload_input env ser v body fmt st))"
proof -
  have "fst (handle_upload_input env ser v body fmt st) = st \<or>
      (\<exists>c. fst (handle_upload_input env ser v body fmt st) =
        fst (with_no_space_retry env (write_deferral_artifact_file env (uploaded_input_work_dir v) ''input.bin'' c) st))"
    by (auto simp: handle_upload_input_def uploaded_input_is_artifact split: option.split outcome.split prod.split sum.split)
      (metis fst_conv)+
  then show ?thesis using keeps_files_retry by (metis keeps_files_refl)
qed

lemma keeps_files_artifacts: "keeps_files u st (fst (write_deferral_artifacts env kind m i cs st))"
proof (induction cs arbitrary: i st)
  case (Cons c cs)
  obtain st1 r where w: "write_deferral_with_no_space_retry env m (deferral_kind_filename kind i) c st = (st1, r)" by fastforce
  have "keeps_files u st st1"
    using keeps_files_retry [of u st env m "deferral_kind_filename kind i" c] w
    by (simp add: write_deferral_with_no_space_retry_def)
  then show ?case using Cons.IH [of st1 "Suc i"] w keeps_files_trans by (auto split: sum.split)
qed simp

lemma keeps_files_bundle: "keeps_files u st (fst (handle_upload_deferral_bundle env dec expected v body kind st))"
proof -
  have "fst (handle_upload_deferral_bundle env dec expected v body kind st) = st \<or>
      (\<exists>cs. fst (handle_upload_deferral_bundle env dec expected v body kind st) =
        fst (write_deferral_artifacts env kind (uploaded_input_work_dir v) 0 cs st))"
    by (auto simp: handle_upload_deferral_bundle_def split: option.split prod.split sum.split)
      (metis fst_conv)+
  then show ?thesis using keeps_files_artifacts by (metis keeps_files_refl)
qed


text \<open>The steps of a kickoff.\<close>

definition fs_wf :: "worker_state \<Rightarrow> bool" where
  "fs_wf st \<longleftrightarrow> hm_wf (fs_entries (stg_fs (wk_staging st)))"

lemma keeps_inputs_files:
  "fs_wf st \<Longrightarrow> keeps_files u (wk_staging st) (wk_staging st') \<Longrightarrow> keeps_inputs u st st'"
  by (simp add: fs_wf_def keeps_inputs_def keeps_files_def)

lemma stop_kickoff_keeps:
  assumes "u \<noteq> v"
  shows "keeps_inputs u st (stop_kickoff env v st)"
proof -
  let ?fs = "stg_fs (wk_staging st)"
  have "map_of (fs_entries (fst (shm_remove_dir_all (we_shm env) (uploaded_input_work_dir v) ?fs))) (uploaded_input_work_dir u) =
      map_of (fs_entries ?fs) (uploaded_input_work_dir u)"
    by (rule remove_dir_entries [where r = "snd (shm_remove_dir_all (we_shm env) (uploaded_input_work_dir v) ?fs)"])
      (use assms in auto)
  then have "shm_lookup (uploaded_input_work_dir u) f (fst (shm_remove_dir_all (we_shm env) (uploaded_input_work_dir v) ?fs)) =
      shm_lookup (uploaded_input_work_dir u) f ?fs" for f
    by (simp add: shm_lookup_def)
  then show ?thesis using assms
    by (simp add: keeps_inputs_def stop_kickoff_def cleanup_uploaded_input_dir_def)
qed

lemma stop_kickoff_wf: "fs_wf st \<Longrightarrow> fs_wf (stop_kickoff env v st)"
  by (simp add: fs_wf_def stop_kickoff_def cleanup_uploaded_input_dir_def)

lemma keeps_inputs_outbox [simp]:
  "keeps_inputs u st (st'\<lparr>wk_outbox := ob\<rparr>) = keeps_inputs u st st'"
  "keeps_inputs u (st\<lparr>wk_outbox := ob\<rparr>) st' = keeps_inputs u st st'"
  "keeps_inputs u (post_error env v e st) st' = keeps_inputs u st st'"
  "keeps_inputs u st (post_error env v e st') = keeps_inputs u st st'"
  by (simp_all add: keeps_inputs_def post_error_def)

lemma fs_wf_outbox [simp]: "fs_wf (st\<lparr>wk_outbox := ob\<rparr>) = fs_wf st" "fs_wf (post_error env v e st) = fs_wf st"
  by (simp_all add: fs_wf_def post_error_def)

lemma keeps_inputs_refl [simp]: "keeps_inputs u st st"
  by (simp add: keeps_inputs_def)

lemma keeps_inputs_stop:
  "u \<noteq> v \<Longrightarrow> st' = stop_kickoff env v st1 \<Longrightarrow> keeps_inputs u st st1 \<Longrightarrow> keeps_inputs u st st'"
  using stop_kickoff_keeps [of u v st1 env] by (auto simp: keeps_inputs_def)

lemma kickoff_step_frame:
  assumes "app_kickoff_step env info req timed_out streamed (st, k) = Some (st', k')" "kickoff_inv st req k"
  shows "fs_wf st \<Longrightarrow> fs_wf st'" "u \<noteq> sar_proof_uuid req \<Longrightarrow> keeps_inputs u st st'"
proof -
  show "fs_wf st'" if "fs_wf st"
    using assms that
    by (cases k) (auto simp: app_kickoff_step_def Let_def stop_kickoff_wf fs_wf_def [of "wk_staging_update _ _"] fs_wf_def [symmetric]
        split: option.splits list.splits if_splits outcome.splits prover_result.splits)
  show "keeps_inputs u st st'" if "u \<noteq> sar_proof_uuid req"
    using assms that
    by (cases k) (auto simp: app_kickoff_step_def Let_def kickoff_inv_def keeps_inputs_def [of u st "wk_staging_update _ _"]
        split: option.splits list.splits if_splits outcome.splits prover_result.splits
        intro!: keeps_inputs_stop [OF _ refl])
qed

lemma kickoff_step_inv:
  assumes s: "app_kickoff_step env info req timed_out streamed (st, k) = Some (st', k')" and inv: "kickoff_inv st req k"
  shows "kickoff_inv st' req k'"
proof (cases k)
  case App_Received
  then show ?thesis using s
    by (auto simp: app_kickoff_step_def Let_def kickoff_inv_def required_paths_def split: option.splits)
next
  case (App_Waiting ps)
  show ?thesis
  proof (cases ps)
    case Nil
    then show ?thesis using s inv App_Waiting by (auto simp: app_kickoff_step_def Let_def kickoff_inv_def)
  next
    case (Cons path rest)
    have all: "shm_read (stg_fs (wk_staging st)) p \<noteq> None"
      if "shm_read (stg_fs (wk_staging st)) path \<noteq> None" "p \<in> set (required_paths req) - set rest" for p
      using inv App_Waiting Cons that by (cases "p = path") (auto simp: kickoff_inv_def Let_def)
    show ?thesis using s inv App_Waiting Cons all
      by (auto simp: app_kickoff_step_def Let_def kickoff_inv_def simp del: not_None_eq split: if_splits)
  qed
next
  case App_Admission
  then show ?thesis using s inv
    by (auto simp: app_kickoff_step_def Let_def kickoff_inv_def split: if_splits)
next
  case (App_Spawned job)
  then show ?thesis using s inv by (auto simp: app_kickoff_step_def Let_def kickoff_inv_def)
next
  case (App_Streaming u r rs)
  then have "k' = App_Finished" using s
    by (auto simp: app_kickoff_step_def Let_def split: outcome.splits prover_result.splits)
  then show ?thesis by (simp add: kickoff_inv_def)
qed (use s in \<open>simp_all add: app_kickoff_step_def Let_def\<close>)


section \<open>Every interleaving\<close>

fun event_uuids :: "worker_event list \<Rightarrow> string list" where
  "event_uuids [] = []"
| "event_uuids (Wev_Kickoff req # evs) = sar_proof_uuid req # event_uuids evs"
| "event_uuids (_ # evs) = event_uuids evs"

definition worker_events_inv :: "worker_state \<times> (sharded_app_prove_request \<times> app_kickoff) list \<Rightarrow> bool" where
  "worker_events_inv s \<longleftrightarrow> fs_wf (fst s) \<and> distinct (map (sar_proof_uuid \<circ> fst) (snd s)) \<and>
     (\<forall>(req, k) \<in> set (snd s). kickoff_inv (fst s) req k)"

text \<open>What the uploads, the bundles and the janitor have in common: they leave the set of active proofs alone and
  keep the files of its members. Any such operation may come between the steps of the kickoffs.\<close>

locale staging_operation =
  fixes run_op :: "staging \<Rightarrow> staging"
  assumes keeps: "keeps_files u st (run_op st)"
begin

lemma keeps_wf: "fs_wf st \<Longrightarrow> fs_wf (st\<lparr>wk_staging := run_op (wk_staging st)\<rparr>)"
  using keeps [of _ "wk_staging st"] by (simp add: fs_wf_def keeps_files_def)

lemma keeps_kickoff:
  assumes "fs_wf st" "kickoff_inv st req k"
  shows "kickoff_inv (st\<lparr>wk_staging := run_op (wk_staging st)\<rparr>) req k"
proof -
  have "keeps_inputs (sar_proof_uuid req) st (st\<lparr>wk_staging := run_op (wk_staging st)\<rparr>)"
    by (rule keeps_inputs_files [OF assms(1)]) (simp add: keeps)
  then show ?thesis using kickoff_inv_keeps assms(2) by blast
qed

lemma keeps_events_inv:
  "worker_events_inv (st, ks) \<Longrightarrow> worker_events_inv (st\<lparr>wk_staging := run_op (wk_staging st)\<rparr>, ks)"
  by (auto simp: worker_events_inv_def keeps_wf intro: keeps_kickoff)

end

interpretation upload: staging_operation "\<lambda>st. fst (handle_upload_input env ser v body fmt st)" for env ser v body fmt
  by unfold_locales (rule keeps_files_upload)

interpretation deferrals: staging_operation "\<lambda>st. fst (handle_upload_deferral_bundle env dec expected v body kind st)"
  for env dec expected v body kind
  by unfold_locales (rule keeps_files_bundle)

interpretation janitor: staging_operation "janitor_round env" for env
  by unfold_locales (simp add: janitor_round_def keeps_files_cleanup)

lemma kickoff_event_inv:
  assumes inv: "worker_events_inv (st, ks)" and i: "i < length ks"
    and s: "app_kickoff_step env info (fst (ks ! i)) timed_out streamed (st, snd (ks ! i)) = Some (st', k')"
  shows "worker_events_inv (st', ks[i := (fst (ks ! i), k')])"
proof -
  let ?ks = "ks[i := (fst (ks ! i), k')]"
  have ki: "kickoff_inv st (fst (ks ! i)) (snd (ks ! i))"
    using inv i by (auto simp: worker_events_inv_def split_beta)
  have u: "map (sar_proof_uuid \<circ> fst) ?ks = map (sar_proof_uuid \<circ> fst) ks"
    using i by (simp add: map_update list_update_same_conv)
  have "kickoff_inv st' (fst (?ks ! j)) (snd (?ks ! j))" if j: "j < length ?ks" for j
  proof (cases "j = i")
    case True
    then show ?thesis using i kickoff_step_inv [OF s ki] by simp
  next
    case False
    have "sar_proof_uuid (fst (ks ! j)) \<noteq> sar_proof_uuid (fst (ks ! i))"
      using inv i j False by (auto simp: worker_events_inv_def distinct_conv_nth)
    then have "keeps_inputs (sar_proof_uuid (fst (ks ! j))) st st'"
      by (rule kickoff_step_frame(2) [OF s ki])
    moreover have "kickoff_inv st (fst (ks ! j)) (snd (ks ! j))"
      using inv j by (auto simp: worker_events_inv_def split_beta)
    ultimately show ?thesis using kickoff_inv_keeps False by simp
  qed
  then have "\<forall>x \<in> set ?ks. kickoff_inv st' (fst x) (snd x)" by (metis in_set_conv_nth)
  then show ?thesis using inv u kickoff_step_frame(1) [OF s ki]
    by (simp add: worker_events_inv_def split_beta)
qed

lemma worker_event_inv:
  assumes inv: "worker_events_inv (st, ks)" and s: "worker_event_step env info ev (st, ks) = Some (st', ks')"
    and d: "distinct (map (sar_proof_uuid \<circ> fst) ks @ event_uuids [ev])"
  shows "worker_events_inv (st', ks') \<and>
    map (sar_proof_uuid \<circ> fst) ks' = map (sar_proof_uuid \<circ> fst) ks @ event_uuids [ev]"
proof (cases ev)
  case (Wev_Kickoff req)
  then show ?thesis using inv s d by (auto simp: worker_events_inv_def kickoff_inv_def)
next
  case (Wev_Step i timed_out streamed)
  then obtain k' where i: "i < length ks" and ks': "ks' = ks[i := (fst (ks ! i), k')]"
    and st: "app_kickoff_step env info (fst (ks ! i)) timed_out streamed (st, snd (ks ! i)) = Some (st', k')"
    using s by (auto split: if_splits)
  have "map (sar_proof_uuid \<circ> fst) ks' = map (sar_proof_uuid \<circ> fst) ks"
    using i by (simp add: ks' map_update list_update_same_conv)
  then show ?thesis using kickoff_event_inv [OF inv i st] Wev_Step ks' by simp
next
  case (Wev_Upload u b fmt)
  then show ?thesis using s upload.keeps_events_inv [OF inv] by auto
next
  case (Wev_Deferral u b kind)
  then show ?thesis using s deferrals.keeps_events_inv [OF inv] by auto
next
  case Wev_Janitor
  then show ?thesis using s janitor.keeps_events_inv [OF inv] by auto
qed

lemma worker_run_inv:
  "worker_event_run env info evs s = Some s' \<Longrightarrow> worker_events_inv s \<Longrightarrow>
     distinct (map (sar_proof_uuid \<circ> fst) (snd s) @ event_uuids evs) \<Longrightarrow> worker_events_inv s'"
proof (induction evs arbitrary: s)
  case (Cons ev evs)
  obtain st ks where s: "s = (st, ks)" by (cases s)
  obtain st1 ks1 where e: "worker_event_step env info ev (st, ks) = Some (st1, ks1)"
    using Cons.prems(1) s by (auto split: option.splits)
  have app: "event_uuids (ev # evs) = event_uuids [ev] @ event_uuids evs" by (cases ev) simp_all
  have d: "distinct (map (sar_proof_uuid \<circ> fst) ks @ event_uuids [ev])"
    using Cons.prems(3) unfolding s app by (auto simp: comp_def)
  have inv: "worker_events_inv (st, ks)" using Cons.prems(2) s by simp
  note i = worker_event_inv [OF inv e d]
  have d1: "distinct (map (sar_proof_uuid \<circ> fst) ks1 @ event_uuids evs)"
    using Cons.prems(3) unfolding s app snd_conv conjunct2 [OF i] append_assoc .
  show ?case
  proof (rule Cons.IH)
    show "worker_event_run env info evs (st1, ks1) = Some s'" using Cons.prems(1) e s by simp
    show "worker_events_inv (st1, ks1)" using i by simp
    show "distinct (map (sar_proof_uuid \<circ> fst) (snd (st1, ks1)) @ event_uuids evs)"
      unfolding snd_conv by (rule d1)
  qed
qed simp



text \<open>A small worker: proofs and keys are numbers, nothing fails, the manager accepts everything.\<close>

definition demo_backend :: "(nat, nat, nat, nat, nat deferral_merkle_proofs, nat, nat) backend" where
  "demo_backend =
     \<lparr>bk_encode_proof = (\<lambda>p. Ok [of_nat (tp_proof p)]),
      bk_decode_proof = (\<lambda>b. if b = [] then Err ''empty'' else Ok \<lparr>tp_proof = unat (hd b), tp_user_public_values = Some 0\<rparr>),
      bk_encode_root = (\<lambda>r. Ok [of_nat r]), bk_decode_root = (\<lambda>b. Ok (unat (hd b))), bk_encode_evm = (\<lambda>e. Ok [of_nat e]),
      bk_max_children_leaf = 4, bk_max_children_internal = 4, bk_get_vk = (\<lambda>k. k), bk_app_vk = (\<lambda>k. k),
      bk_self_vk_commit = (\<lambda>i. Some 0), bk_agg_prove_no_def = (\<lambda>i ps c. Ok (sum_list ps)),
      bk_agg_prove = (\<lambda>i ps c t. Ok (sum_list ps)), bk_root_prove = (\<lambda>r p n f. Ok (vs_inner p)),
      bk_prove_for_evm = (\<lambda>h r. Ok r), bk_f64_add = (+)\<rparr>"

definition demo_merge :: "(nat, nat, nat, nat, nat, string, bytes, nat, nat, nat) merge_backend" where
  "demo_merge =
     \<lparr>mb_decode_input = Inr, mb_decode_path = (\<lambda>b. Inr (map unat b)), mb_encode_merkle = (\<lambda>m. Inr [1]),
      mb_num_circuits = (\<lambda>k. 1), mb_dimensions = (\<lambda>k. \<lparr>md_overall_height = 1, md_deferral_index = 0\<rparr>),
      mb_sdk = (\<lambda>k. Inr ()), mb_prover = (\<lambda>x. Inr ()), mb_has_deferral_prover = True,
      mb_prove_circuits = (\<lambda>i. Inr (length i)), mb_prove_def = (\<lambda>h. Inr (h, 1)),
      mb_prove_mixed = (\<lambda>p j m n. Inr (p, m)), mb_wrap = (\<lambda>p m. Inr (p, m)), mb_depth = (\<lambda>p. Some 0), mb_num_airs = (\<lambda>p. 8),
      mb_def_pvs_air_id = 7, mb_merkle = \<lparr>mk_tree = (\<lambda>m k. k), mk_initial_memory = (\<lambda>x. 0), mk_zero = 0\<rparr>\<rparr>"

definition demo_network :: network where
  "demo_network = \<lparr>nt_serialize = (\<lambda>p. Inr []), nt_answer = (\<lambda>n p. Inr (200, [])), nt_status = show_nat,
     nt_envelope = (\<lambda>n. (n, show_nat n)), nt_json_worker_id = (\<lambda>s. Inr (Some 0))\<rparr>"

definition demo_worker_env ::
  "(nat, nat, nat, nat, nat, string, bytes, nat, nat, nat, nat, nat) worker_env" where
  "demo_worker_env =
     \<lparr>we_store = None, we_backend = demo_backend, we_merge = demo_merge, we_decode_merkle = (\<lambda>b. Inl ''none''),
      we_decode_request = (\<lambda>b. Inl ''none''), we_available = (\<lambda>k. True), we_submit_app = (\<lambda>j. Ok (ProverSuccess [])),
      we_submit_leaf = (\<lambda>j. Ok (ProverSuccess [])), we_submit_internal = (\<lambda>j. Ok (ProverSuccess [])),
      we_submit_root = (\<lambda>j. Err ''none''), we_submit_halo2 = (\<lambda>j. Ok (ProverSuccess [])), we_network = demo_network,
      we_client = result_client_new ''http://manager/'' 0, we_shm = calm_shm,
      we_read = (\<lambda>fs p. case shm_read fs p of Some b \<Rightarrow> Inr b | None \<Rightarrow> Inl ''not found''),
      we_serialize_stdin = Ok, we_decode_bundle = (\<lambda>b. Inr [b])\<rparr>"

definition demo_info :: worker_info where
  "demo_info = \<lparr>wi_prover_id = 0, wi_num_provers = 1, wi_max_app_provers = 1, wi_default_segment_memory = None,
     wi_worker_role = Full\<rparr>"

definition demo_kickoff :: sharded_app_prove_request where
  "demo_kickoff = \<lparr>sar_proof_uuid = ''p1'', sar_program = \<lparr>pr_name = ''fib'', pr_version = 1\<rparr>, sar_prover_id = 0,
     sar_num_provers = 1, sar_segment_memory = None, sar_num_deferral_circuits = 0\<rparr>"

definition demo_worker_state :: worker_state where
  "demo_worker_state = \<lparr>wk_outbox = [], wk_staging = empty_staging\<rparr>"

definition demo_worker_events :: "worker_event list" where
  "demo_worker_events = [Wev_Kickoff demo_kickoff, Wev_Step 0 False [], Wev_Step 0 False [], Wev_Upload ''p1'' [5] BincodeStdin,
     Wev_Janitor, Wev_Step 0 False [], Wev_Step 0 False [], Wev_Step 0 False []]"


end
