(* ===== verification/Webhook_Lifecycle.thy ===== *)
theory Webhook_Lifecycle
  imports Manager_Config
begin

text \<open>
  The lifecycle webhook of \<open>edge-manager/src/lifecycle.rs\<close> and the model of an HTTP call shared with
  the manager's handlers: the peer's answer is a status (its code and rendering) with a body, or a
  transport error. A JSON event is a value of \<open>lifecycle_event\<close>.
\<close>

datatype http_reply =
  Replied nat string string
| Transport_Error string

fun is_success :: "http_reply \<Rightarrow> bool" where
  "is_success (Replied code _ _) = (200 \<le> code \<and> code < 300)"
| "is_success (Transport_Error _) = False"

datatype lifecycle_event =
  Event_Queued string "(string, string) hmap"
| Event_Proving string "(string, string) hmap"
| Event_Completed string "(string, string) hmap" "nat option" "nat option" "string option"

definition lifecycle_max_attempts :: nat where
  "lifecycle_max_attempts = 3"

record lifecycle_reporter =
  lr_webhook_url :: string
  lr_timeout_ms :: nat

definition reporter_from_config :: "lifecycle_config \<Rightarrow> lifecycle_reporter option" where
  "reporter_from_config config =
     (case lc_webhook_url config of
        None \<Rightarrow> None
      | Some raw \<Rightarrow>
          (let url = trim raw
           in if url = [] then None
              else Some \<lparr>lr_webhook_url = url, lr_timeout_ms = lc_timeout_ms config\<rparr>))"

text \<open>A 5xx or 429 answer and a transport error are retried.\<close>

fun retriable :: "http_reply \<Rightarrow> bool" where
  "retriable (Replied code _ _) = (500 \<le> code \<and> code < 600 \<or> code = 429)"
| "retriable (Transport_Error _) = True"

fun delivery_error :: "string \<Rightarrow> http_reply \<Rightarrow> string" where
  "delivery_error url (Replied _ status body) = ''HTTP '' @ status @ '' from '' @ url @ '': '' @ body"
| "delivery_error url (Transport_Error e) = e"

text \<open>The loop over the attempts that are left, with the error of the last one; the answer to an
  attempt is the parameter \<open>answer\<close>. The result is paired with the number of requests made.\<close>

fun post_attempts :: "string \<Rightarrow> (nat \<Rightarrow> http_reply) \<Rightarrow> nat list \<Rightarrow> string option \<Rightarrow> nat \<times> unit outcome" where
  "post_attempts url answer [] last_err =
     (0, Err (case last_err of Some e \<Rightarrow> e | None \<Rightarrow> ''lifecycle webhook failed without captured error''))"
| "post_attempts url answer (attempt # rest) last_err =
     (let r = answer attempt
      in if is_success r then (1, Ok ())
         else if \<not> retriable r \<or> attempt = lifecycle_max_attempts then (1, Err (delivery_error url r))
         else (let (n, res) = post_attempts url answer rest (Some (delivery_error url r)) in (Suc n, res)))"

definition post_with_retry :: "string \<Rightarrow> (nat \<Rightarrow> http_reply) \<Rightarrow> nat \<times> unit outcome" where
  "post_with_retry url answer = post_attempts url answer [1..<Suc lifecycle_max_attempts] None"

text \<open>Delivery makes at most three requests, stops at the first answer that is final, and succeeds
  exactly when that answer is a success.\<close>

lemma post_with_retry_exact:
  "post_with_retry url answer =
     (let final = (\<lambda>r. is_success r \<or> \<not> retriable r);
          k = (if final (answer 1) then 1 else if final (answer 2) then 2 else 3)
      in (k, if is_success (answer k) then Ok () else Err (delivery_error url (answer k))))"
proof -
  have upt: "[1..<Suc lifecycle_max_attempts] = [1, 2, 3]"
    by (simp add: lifecycle_max_attempts_def upt_rec)
  show ?thesis unfolding post_with_retry_def upt
    by (simp add: lifecycle_max_attempts_def Let_def)
qed

end
