(* ===== verification/Manager_App.thy ===== *)
theory Manager_App
  imports Result_Handler Proof_Persistence Webhook_Lifecycle Edge_Scheduler
begin

text \<open>
  The HTTP handlers of the manager, \<open>edge-manager/src/handlers.rs\<close>: the shared state, uploads,
  admission and start of a proof, results, finalization, cancellation, the watchdog, and dispatch with
  retries. A handler is a function of the state; \<open>start_proof\<close>, which awaits the network between its
  locked sections, is a composition of phases, so that other handlers can be put between them. Work
  that a handler spawns is returned to the caller, which runs \<open>send_work_with_retry\<close> on it.

  Everything outside the program is a parameter in the record \<open>world\<close>: the answer of a URL to the
  \<open>k\<close>-th attempt of a retry loop, disk faults, codecs and the metrics report. Every request sent is
  appended to \<open>as_outbox\<close>. JSON bodies are values of \<open>json\<close> or of the record they serialize.
\<close>

section \<open>State\<close>

record staged_inputs =
  si_main :: "bytes option"
  si_deferral_states :: "(nat, bytes) hmap"
  si_deferral_inputs :: "(nat, bytes) hmap"
  si_staged_at :: "instant option"

definition staged_default :: staged_inputs where
  "staged_default = \<lparr>si_main = None, si_deferral_states = [], si_deferral_inputs = [], si_staged_at = None\<rparr>"

text \<open>What goes over the wire to a worker.\<close>

datatype wire =
  Wire_Get
| Wire_Bytes bytes
| Wire_Bundle "bytes list"
| Wire_Kickoff sharded_app_prove_request
| Wire_Work "general_prove_request message_envelope"

record app_state =
  as_config :: manager_config
  as_worker_registry :: worker_registry
  as_state_store :: edge_state_store
  as_proof_states :: "(string, proof_state) hmap"
  as_lifecycle_reporter :: "lifecycle_reporter option"
  as_programs :: "program_ref list"
  as_staged_inputs :: "(string, staged_inputs) hmap"
  as_artifacts_path :: string
  as_disk :: disk
  as_events :: "lifecycle_event list"
  as_outbox :: "(string \<times> wire) list"

definition app_new :: "manager_config \<Rightarrow> program_ref list \<Rightarrow> disk \<Rightarrow> app_state" where
  "app_new config programs d =
     \<lparr>as_config = config,
      as_worker_registry = registry_new (sc_num_workers (mc_server config)) (mc_provers config),
      as_state_store = store_new (pv_max_leaf_provers (mc_provers config)),
      as_proof_states = [],
      as_lifecycle_reporter = reporter_from_config (mc_lifecycle config),
      as_programs = programs,
      as_staged_inputs = [],
      as_artifacts_path = (case sc_artifacts_path (mc_server config) of
         Some p \<Rightarrow> p | None \<Rightarrow> ''/data/artifacts''),
      as_disk = d, as_events = [], as_outbox = []\<rparr>"

record world =
  wo_answer :: "string \<Rightarrow> nat \<Rightarrow> http_reply"
  wo_faults :: io_faults
  wo_build :: build
  wo_codec :: "stark_codec option"
  wo_zstd_encode :: "bytes \<Rightarrow> string + bytes"
  wo_zstd_decode :: "bytes \<Rightarrow> string + bytes"
  wo_snapshot :: "leaf_failure_snapshot \<Rightarrow> string + bytes"
  wo_report :: "proof_state \<Rightarrow> bytes"
  wo_metadata :: "nat \<Rightarrow> nat \<times> string"

text \<open>Responses.\<close>

datatype json =
  Json_Str string | Json_Num nat | Json_Programs "program_ref list" | Json_Obj "(string \<times> json) list"

record edge_ready_response =
  rd_ready :: bool
  rd_num_workers :: nat
  rd_expected_num_workers :: nat
  rd_workers :: "(nat \<times> registered_worker) list"
  rd_message :: "string option"

datatype body =
  Text_Body string
| Json_Body json
| Bytes_Body bytes
| Loadout_Body "program_ref list"
| Workers_Body registry_status
| Ready_Body edge_ready_response
| State_Body lightweight_proof_state
| Debug_Body proof_debug_state

type_synonym response = "nat \<times> body"

definition json_error :: "nat \<Rightarrow> string \<Rightarrow> response" where
  "json_error code e = (code, Json_Body (Json_Obj [(''error'', Json_Str e)]))"

definition json_error_uuid :: "nat \<Rightarrow> string \<Rightarrow> string \<Rightarrow> response" where
  "json_error_uuid code e uuid =
     (code, Json_Body (Json_Obj [(''error'', Json_Str e), (''proof_uuid'', Json_Str uuid)]))"

text \<open>One HTTP request to a worker, attempt \<open>k\<close> of its loop.\<close>

definition http_send :: "world \<Rightarrow> string \<Rightarrow> wire \<Rightarrow> nat \<Rightarrow> app_state \<Rightarrow> app_state \<times> http_reply" where
  "http_send wo url message k st = (st\<lparr>as_outbox := as_outbox st @ [(url, message)]\<rparr>, wo_answer wo url k)"

definition report_event :: "lifecycle_event \<Rightarrow> app_state \<Rightarrow> app_state" where
  "report_event e st =
     (case as_lifecycle_reporter st of None \<Rightarrow> st | Some _ \<Rightarrow> st\<lparr>as_events := as_events st @ [e]\<rparr>)"

definition update_proof :: "string \<Rightarrow> (proof_state \<Rightarrow> proof_state) \<Rightarrow> app_state \<Rightarrow> app_state" where
  "update_proof uuid f st =
     (case map_of (as_proof_states st) uuid of
        None \<Rightarrow> st
      | Some ps \<Rightarrow> st\<lparr>as_proof_states := AList.update uuid (f ps) (as_proof_states st)\<rparr>)"

definition drop_scheduler :: "string \<Rightarrow> app_state \<Rightarrow> app_state" where
  "drop_scheduler uuid st = st\<lparr>as_state_store := remove_proof uuid (as_state_store st)\<rparr>"

definition drop_staged :: "string \<Rightarrow> app_state \<Rightarrow> app_state" where
  "drop_staged uuid st = st\<lparr>as_staged_inputs := AList.delete uuid (as_staged_inputs st)\<rparr>"

section \<open>Uploads and downloads\<close>

definition max_proof_uuid_len :: nat where
  "max_proof_uuid_len = 128"

definition validate_manager_proof_uuid :: "string \<Rightarrow> string option" where
  "validate_manager_proof_uuid proof_uuid =
     (if proof_uuid = [] then Some ''must not be empty''
      else if length proof_uuid > max_proof_uuid_len then Some ''too long''
      else if \<not> list_all (\<lambda>c. is_ascii_alphanumeric c \<or> c = CHR ''_'' \<or> c = CHR ''-'') proof_uuid
      then Some ''contains invalid characters''
      else None)"

text \<open>The multipart stream as the extractor hands it out, up to its end.\<close>

datatype multipart_event =
  Field string "string + bytes"
| Malformed string

definition stage_part :: "string \<Rightarrow> bytes \<Rightarrow> staged_inputs \<Rightarrow> response + staged_inputs" where
  "stage_part name content staged =
     (if name = ''input'' then Inr (staged\<lparr>si_main := Some content\<rparr>)
      else case strip_prefix ''deferral_state_'' name of
        Some idx \<Rightarrow>
          (case parse_usize idx of
             Some i \<Rightarrow> Inr (staged\<lparr>si_deferral_states := AList.update i content (si_deferral_states staged)\<rparr>)
           | None \<Rightarrow> Inl (400, Text_Body (''Invalid multipart part name `'' @ name @
               ''` (expected deferral_state_<idx>)'')))
      | None \<Rightarrow>
          (case strip_prefix ''deferral_input_'' name of
             Some idx \<Rightarrow>
               (case parse_usize idx of
                  Some i \<Rightarrow> Inr (staged\<lparr>si_deferral_inputs := AList.update i content (si_deferral_inputs staged)\<rparr>)
                | None \<Rightarrow> Inl (400, Text_Body (''Invalid multipart part name `'' @ name @
                    ''` (expected deferral_input_<idx>)'')))
           | None \<Rightarrow> Inl (400, Text_Body (''Unexpected multipart part `'' @ name @ ''`''))))"

fun stage_parts :: "multipart_event list \<Rightarrow> staged_inputs \<Rightarrow> response + staged_inputs" where
  "stage_parts [] staged = Inr staged"
| "stage_parts (Malformed e # rest) staged = Inl (400, Text_Body (''Malformed multipart body: '' @ e))"
| "stage_parts (Field name (Inl e) # rest) staged =
     Inl (400, Text_Body (''Failed to read multipart part `'' @ name @ ''`: '' @ e))"
| "stage_parts (Field name (Inr content) # rest) staged =
     (case stage_part name content staged of
        Inl r \<Rightarrow> Inl r
      | Inr staged' \<Rightarrow> stage_parts rest staged')"

definition upload_input :: "instant \<Rightarrow> string \<Rightarrow> multipart_event list \<Rightarrow> app_state \<Rightarrow> app_state \<times> response" where
  "upload_input now proof_uuid parts st =
     (case validate_manager_proof_uuid proof_uuid of
        Some reason \<Rightarrow> (st, (400, Text_Body (''Invalid proof_uuid: '' @ reason)))
      | None \<Rightarrow>
          (case stage_parts parts staged_default of
             Inl r \<Rightarrow> (st, r)
           | Inr staged \<Rightarrow>
               (st\<lparr>as_staged_inputs :=
                  AList.update proof_uuid (staged\<lparr>si_staged_at := Some now\<rparr>) (as_staged_inputs st)\<rparr>,
                (200, Text_Body ''Input staged''))))"

definition vk_rel_path :: "string \<Rightarrow> string option" where
  "vk_rel_path name =
     (if name = [] \<or> contains_str ''..'' name \<or>
         \<not> list_all (\<lambda>c. is_ascii_alphanumeric c \<or> c = CHR ''.'' \<or> c = CHR ''_'' \<or> c = CHR ''-'') name
      then None
      else Some (''vk/'' @ name @ ''.app_vm_vk.bin''))"

text \<open>Reading a file: a fault, or its content when it exists.\<close>

datatype file_read = File_Bytes bytes | File_Not_Found | File_Error string

definition read_file :: "io_faults \<Rightarrow> string \<Rightarrow> disk \<Rightarrow> file_read" where
  "read_file faults path d =
     (case faults (Read_File path) of
        Some (e, _) \<Rightarrow> File_Error e
      | None \<Rightarrow> (case map_of d path of Some b \<Rightarrow> File_Bytes b | None \<Rightarrow> File_Not_Found))"

definition download_vk :: "world \<Rightarrow> string \<Rightarrow> app_state \<Rightarrow> response" where
  "download_vk wo name st =
     (case vk_rel_path name of
        None \<Rightarrow> json_error 400 ''invalid program name''
      | Some rel \<Rightarrow>
          (case read_file (wo_faults wo) (path_join (as_artifacts_path st) rel) (as_disk st) of
             File_Bytes b \<Rightarrow> (200, Bytes_Body b)
           | File_Not_Found \<Rightarrow> json_error 404
               (''no verifying key for program '' @ quote @ name @ quote @ '' on this deployment'')
           | File_Error e \<Rightarrow> json_error 500 ''failed to read verifying key''))"

definition path_exists :: "io_faults \<Rightarrow> string \<Rightarrow> disk \<Rightarrow> bool outcome" where
  "path_exists faults path d =
     (case faults (Path_Exists path) of Some (e, _) \<Rightarrow> Err e | None \<Rightarrow> Ok (map_of d path \<noteq> None))"

definition download_proof :: "world \<Rightarrow> string \<Rightarrow> app_state \<Rightarrow> response" where
  "download_proof wo proof_uuid st =
     (case validate_manager_proof_uuid proof_uuid of
        Some reason \<Rightarrow> (400, Text_Body (''Invalid proof_uuid: '' @ reason))
      | None \<Rightarrow>
          (case pf_persist_final_proofs_dir (mc_proof (as_config st)) of
             None \<Rightarrow> (404, Text_Body ''proof persistence is disabled'')
           | Some dir \<Rightarrow>
               (let stark_path = path_join dir (proof_uuid @ ''.proof.bin'');
                    evm_path = path_join dir (proof_uuid @ ''.evm.bin'')
                in case bind_outcome (path_exists (wo_faults wo) stark_path (as_disk st)) (\<lambda>a.
                        bind_outcome (path_exists (wo_faults wo) evm_path (as_disk st)) (\<lambda>b. Ok (a, b))) of
                     Err e \<Rightarrow> (500, Text_Body (''inspect persisted proof: '' @ e))
                   | Panic p \<Rightarrow> (500, Text_Body p)
                   | Ok (False, False) \<Rightarrow> (404, Text_Body ''proof not found'')
                   | Ok (True, True) \<Rightarrow> (500, Text_Body ''multiple persisted proof artifacts found'')
                   | Ok (stark_exists, _) \<Rightarrow>
                       (case read_file (wo_faults wo) (if stark_exists then stark_path else evm_path) (as_disk st) of
                          File_Error e \<Rightarrow> (500, Text_Body (''read persisted proof: '' @ e))
                        | File_Not_Found \<Rightarrow> (500, Text_Body ''read persisted proof: No such file or directory'')
                        | File_Bytes b \<Rightarrow>
                            (case (if pf_compress_persisted_final_proofs (mc_proof (as_config st))
                                   then wo_zstd_decode wo b else Inr b) of
                               Inr content \<Rightarrow> (200, Bytes_Body content)
                             | Inl e \<Rightarrow> (500, Text_Body (''read persisted proof: '' @ e)))))))"

section \<open>Workers\<close>

definition healthz :: response where
  "healthz = (200, Json_Body (Json_Obj [(''status'', Json_Str ''healthy'')]))"

definition register_worker ::
  "instant \<Rightarrow> register_worker_request \<Rightarrow> app_state \<Rightarrow> app_state \<times> response" where
  "register_worker now req st =
     (if set (rwr_loaded_programs req) \<noteq> set (as_programs st) then
        (st, (400, Json_Body (Json_Obj
           [(''error'', Json_Str ''program_set_mismatch''),
            (''message'', Json_Str ''Worker loaded_programs does not match manager EDGE_PROGRAMS''),
            (''expected'', Json_Programs (as_programs st)),
            (''actual'', Json_Programs (rwr_loaded_programs req))])))
      else
        (let provers = \<lparr>pv_max_app_provers = rwr_max_app_provers req,
               pv_max_leaf_provers = rwr_max_leaf_provers req,
               pv_max_internal_provers = rwr_max_internal_provers req\<rparr>;
             (reg, r) = Worker_Registry.register now (rwr_worker_url req) (rwr_worker_id req) provers (rwr_worker_role req)
                          (as_worker_registry st);
             st' = st\<lparr>as_worker_registry := reg\<rparr>
         in case r of
              Ok worker_id \<Rightarrow> (st', (200, Json_Body (Json_Obj
                [(''status'', Json_Str ''ok''), (''worker_id'', Json_Num worker_id)])))
            | Err e \<Rightarrow> (st', json_error 400 e)
            | Panic p \<Rightarrow> (st', json_error 400 p)))"

definition get_loadout :: "app_state \<Rightarrow> response" where
  "get_loadout st = (200, Loadout_Body (as_programs st))"

definition list_workers :: "app_state \<Rightarrow> response" where
  "list_workers st = (200, Workers_Body (get_status (as_worker_registry st)))"

text \<open>The health loop of one worker: attempt \<open>k\<close>, with \<open>left\<close> further attempts allowed.\<close>

fun probe_attempts ::
  "world \<Rightarrow> nat \<Rightarrow> registered_worker \<Rightarrow> nat \<Rightarrow> nat \<Rightarrow> app_state \<Rightarrow> app_state \<times> string option" where
  "probe_attempts wo worker_id worker k left st =
     (let (st1, reply) = http_send wo (rw_worker_url worker @ ''/readyz'') Wire_Get k st in
      if is_success reply then (st1, None)
      else case left of
        0 \<Rightarrow> (st1, Some (case reply of
               Replied _ status _ \<Rightarrow> ''Worker '' @ show_nat worker_id @ '' at '' @ rw_worker_url worker @
                 '' not ready: '' @ status
             | Transport_Error e \<Rightarrow> ''Worker '' @ show_nat worker_id @ '' not reachable at '' @
                 rw_worker_url worker @ '': '' @ e))
      | Suc left' \<Rightarrow> probe_attempts wo worker_id worker (Suc k) left' st1)"

fun probe_worker_health ::
  "world \<Rightarrow> nat \<Rightarrow> (nat \<times> registered_worker) list \<Rightarrow> app_state \<Rightarrow> app_state \<times> string option" where
  "probe_worker_health wo max_retries [] st = (st, None)"
| "probe_worker_health wo max_retries ((worker_id, worker) # ws) st =
     (case probe_attempts wo worker_id worker 0 (max_retries - 1) st of
        (st1, Some e) \<Rightarrow> (st1, Some e)
      | (st1, None) \<Rightarrow> probe_worker_health wo max_retries ws st1)"

definition get_ready_workers ::
  "world \<Rightarrow> nat \<Rightarrow> app_state \<Rightarrow> app_state \<times> (nat \<times> registered_worker) list outcome" where
  "get_ready_workers wo max_retries st =
     (case ready_workers (as_worker_registry st) of
        Ok workers \<Rightarrow>
          (case probe_worker_health wo max_retries workers st of
             (st1, None) \<Rightarrow> (st1, Ok workers)
           | (st1, Some e) \<Rightarrow> (st1, Err e))
      | Err e \<Rightarrow> (st, Err e)
      | Panic p \<Rightarrow> (st, Panic p))"

definition readyz_handler :: "world \<Rightarrow> app_state \<Rightarrow> app_state \<times> response" where
  "readyz_handler wo st =
     (let expected = wr_expected_num_workers (as_worker_registry st) in
      case get_ready_workers wo 1 st of
        (st1, Ok workers) \<Rightarrow>
          (st1, (200, Ready_Body \<lparr>rd_ready = True, rd_num_workers = length workers,
             rd_expected_num_workers = expected, rd_workers = workers, rd_message = None\<rparr>))
      | (st1, Err e) \<Rightarrow>
          (let status = get_status (as_worker_registry st1) in
           (st1, (503, Ready_Body \<lparr>rd_ready = False, rd_num_workers = rs_num_workers status,
              rd_expected_num_workers = expected, rd_workers = rs_workers status, rd_message = Some e\<rparr>)))
      | (st1, Panic p) \<Rightarrow> (st1, json_error 500 p))"

end
