(* ===== verification/Worker_Manager.thy ===== *)
theory Worker_Manager
  imports Worker_Inputs Job_Run Manager_App
begin

text \<open>
  The two ends of the wire: what the manager emits passes the checks of the worker that receives it, and
  what the worker posts back is reported for the right proof and is never refused by the result handler.
\<close>

section \<open>Posts\<close>

text \<open>The posts a task added, as the identifier and the result of each.\<close>

definition new_posts :: "worker_state \<Rightarrow> worker_state \<Rightarrow> (string \<times> proof_result) list" where
  "new_posts st st' = List.map_filter posted_result (drop (length (wk_outbox st)) (wk_outbox st'))"

lemma post_payload_cases:
  obtains "fst (post_payload net client what p ob) = ob" "\<exists>e. nt_serialize net p = Inl e"
  | "fst (post_payload net client what p ob) = ob @ [Post_Result (rc_manager_url client @ ''/proof_result'') p]"
  by (cases "nt_serialize net p") (auto simp: post_payload_def Let_def split: sum.splits prod.splits)

definition encodes_all :: "network \<Rightarrow> bool" where
  "encodes_all net \<longleftrightarrow> (\<forall>p. \<exists>b. nt_serialize net p = Inr b)"

lemma post_error_new:
  "new_posts st (post_error env u e st) \<in> {[], [(u, error_result_for u e)]} \<and>
     (encodes_all (we_network env) \<longrightarrow> new_posts st (post_error env u e st) \<noteq> [])"
proof -
  let ?p = "\<lparr>rp_worker_id = rc_worker_id (we_client env), rp_proof_uuid = u,
        rp_result = with_metadata (we_network env) (wk_outbox st) (error_result_for u e)\<rparr>"
  show ?thesis
  proof (cases rule: post_payload_cases [of "we_network env" "we_client env" "''error''" ?p "wk_outbox st"])
    case 1
    then have "\<not> encodes_all (we_network env)" by (auto simp: encodes_all_def) (metis sum.simps(4))
    then show ?thesis using 1 by (simp add: new_posts_def post_error_def submit_error_def List.map_filter_simps)
  next
    case 2
    then show ?thesis
      by (simp add: new_posts_def post_error_def submit_error_def with_metadata_def List.map_filter_simps)
  qed
qed

text \<open>The results of a job are posted in order up to the first that is not taken.\<close>

lemma post_results_new:
  "\<exists>k. new_posts st (post_results env u rs st) = map (Pair u) (take k rs) \<and>
     (encodes_all (we_network env) \<longrightarrow> rs \<noteq> [] \<longrightarrow> 0 < k)"
proof -
  have "\<exists>k posts. fst (submit_results (we_network env) (we_client env) u rs ob) = ob @ posts \<and>
      List.map_filter posted_result posts = map (Pair u) (take k rs) \<and>
      (encodes_all (we_network env) \<longrightarrow> rs \<noteq> [] \<longrightarrow> 0 < k)" for ob
  proof (induction rs arbitrary: ob)
    case Nil
    show ?case by (intro exI [of _ 0] exI [of _ "[]"]) (simp add: List.map_filter_simps)
  next
    case (Cons r rs)
    let ?p = "\<lparr>rp_worker_id = rc_worker_id (we_client env), rp_proof_uuid = u, rp_result = with_metadata (we_network env) ob r\<rparr>"
    let ?q = "Post_Result (rc_manager_url (we_client env) @ ''/proof_result'') ?p"
    obtain ob1 q where s: "submit_single_result (we_network env) (we_client env) u r ob = (ob1, q)" by fastforce
    consider (none) "ob1 = ob" "\<exists>e. nt_serialize (we_network env) ?p = Inl e" "q \<noteq> Ok ()" | (one) "ob1 = ob @ [?q]"
      using s by (cases "nt_serialize (we_network env) ?p")
        (auto simp: submit_single_result_def post_payload_def Let_def split: sum.splits prod.splits)
    then show ?case
    proof cases
      case none
      then have e: "fst (submit_results (we_network env) (we_client env) u (r # rs) ob) = ob"
        using s by (cases q) auto
      have ns: "\<not> encodes_all (we_network env)"
        using none(2) by (auto simp: encodes_all_def) (metis sum.simps(4))
      show ?thesis unfolding e
        by (intro exI [of _ 0] exI [of _ "[]"]) (use ns in \<open>simp add: List.map_filter_simps\<close>)
    next
      case one
      show ?thesis
      proof (cases "q = Ok ()")
        case True
        obtain k posts where ih: "fst (submit_results (we_network env) (we_client env) u rs ob1) = ob1 @ posts"
            "List.map_filter posted_result posts = map (Pair u) (take k rs)"
          using Cons.IH [of ob1] by blast
        then show ?thesis using s one True
          by (intro exI [of _ "Suc k"] exI [of _ "?q # posts"])
            (simp add: List.map_filter_simps with_metadata_def)
      next
        case False
        then have "fst (submit_results (we_network env) (we_client env) u (r # rs) ob) = ob @ [?q]"
          using s one by (cases q) auto
        then show ?thesis
          by (intro exI [of _ 1] exI [of _ "[?q]"]) (simp add: List.map_filter_simps with_metadata_def)
      qed
    qed
  qed
  from this [of "wk_outbox st"] show ?thesis
    by (auto simp: new_posts_def post_results_def)
qed


lemma post_one_new:
  "new_posts st (post_results env u [r] st) \<in> {[], [(u, r)]} \<and>
     (encodes_all (we_network env) \<longrightarrow> new_posts st (post_results env u [r] st) \<noteq> [])"
proof -
  obtain k where "new_posts st (post_results env u [r] st) = map (Pair u) (take k [r])"
      "encodes_all (we_network env) \<longrightarrow> 0 < k"
    using post_results_new [of st env u "[r]"] by auto
  then show ?thesis by (cases k) auto
qed

lemma post_error_results: "(v, x) \<in> set (new_posts st (post_error env u e st)) \<Longrightarrow> v = u \<and> x = error_result_for u e"
  using post_error_new [of st env u e] by auto

lemma post_results_results: "(v, x) \<in> set (new_posts st (post_results env u rs st)) \<Longrightarrow> v = u \<and> x \<in> set rs"
  using post_results_new [of st env u rs] by (auto dest: in_set_takeD)

text \<open>The merge does not post.\<close>

lemma merge_and_encode_outbox: "merge_and_encode env l f u c b t st = (st1, r) \<Longrightarrow> wk_outbox st1 = wk_outbox st"
  by (auto simp: merge_and_encode_def split: outcome.splits prod.splits)

lemma evm_prep_outbox: "evm_prep env u c b t d st = (st1, r) \<Longrightarrow> wk_outbox st1 = wk_outbox st"
  by (auto simp: evm_prep_def split: option.splits prod.splits dest: merge_and_encode_outbox)

lemma new_posts_cong: "wk_outbox st1 = wk_outbox st \<Longrightarrow> new_posts st st' = new_posts st1 st'"
  by (simp add: new_posts_def)

lemma new_posts_same [simp]: "wk_outbox st' = wk_outbox st \<Longrightarrow> new_posts st st' = []"
  by (simp add: new_posts_def List.map_filter_simps)

section \<open>The EVM handoff\<close>

definition evm_post_ok :: "string \<Rightarrow> string \<times> proof_result \<Rightarrow> bool" where
  "evm_post_ok u p \<longleftrightarrow> fst p = u \<and>
     (case snd p of InternalRes c s \<Rightarrow> ips_ready_for_evm s | ErrorRes e \<Rightarrow> True | _ \<Rightarrow> False)"

lemma post_error_ok:
  assumes "p \<in> set (new_posts st (post_error env u e st))"
  shows "evm_post_ok u p"
proof -
  obtain v x where p: "p = (v, x)" by (cases p)
  show ?thesis using post_error_results [OF assms [unfolded p]] by (simp add: p evm_post_ok_def error_result_for_def)
qed

lemma post_ready_ok:
  assumes "p \<in> set (new_posts st (post_results env u [InternalRes c s] st))" "ips_ready_for_evm s"
  shows "evm_post_ok u p"
proof -
  obtain v x where p: "p = (v, x)" by (cases p)
  show ?thesis using post_results_results [OF assms(1) [unfolded p]] assms(2) by (simp add: p evm_post_ok_def)
qed

lemma drive_evm_prep_posts: "\<forall>p \<in> set (new_posts st (drive_evm_prep_and_post env u ctx rs tail d st)). evm_post_ok u p"
proof -
  show ?thesis
  proof (cases "find_internal rs")
    case None
    then show ?thesis by (auto simp: drive_evm_prep_and_post_def intro: post_error_ok)
  next
    case (Some cs)
    obtain c s where cs: "cs = (c, s)" by (cases cs)
    obtain st1 r where e: "evm_prep env u ctx (ips_proof s) tail d st = (st1, r)" by fastforce
    note np = new_posts_cong [OF evm_prep_outbox [OF e]]
    show ?thesis
      using Some cs e
      by (cases r) (auto simp: drive_evm_prep_and_post_def join_task_def np evm_prep_outbox [OF e]
        intro: post_error_ok elim: post_ready_ok)
  qed
qed

lemma run_internal_task_evm:
  assumes "ij_is_final_proof job" "pc_proof_type (ij_context job) = Evm"
  shows "\<forall>p \<in> set (new_posts st (run_internal_task env u job tail d st)). evm_post_ok u p"
  using assms drive_evm_prep_posts [of st env u]
  by (auto simp: run_internal_task_def Let_def intro: post_error_ok split: outcome.splits prover_result.splits)


text \<open>What a request that is taken becomes.\<close>

lemma accept_internal_task:
  assumes "accept_internal env req = (resp, Some task)"
  shows "\<exists>job. task = Internal_Task (pc_proof_uuid (ipr_context req)) job (ipr_deferral_tail req) (ipr_deferral_merkle_proofs_bytes req) \<and>
    ij_is_final_proof job = ipr_is_final_proof req \<and> ij_context job = ipr_context req"
  using assms by (cases "collect_outcomes (bk_decode_proof (we_backend env)) (ipr_child_proofs req)")
    (auto simp: accept_internal_def split: if_splits)

lemma evm_result_taken:
  "evm_post_ok u (v, result) \<Longrightarrow> \<not> (case result of InternalRes c s \<Rightarrow> \<not> ips_ready_for_evm s | _ \<Rightarrow> False)"
  by (cases result) (simp_all add: evm_post_ok_def)

text \<open>The handoff of an EVM proof: whatever the worker posts for the final internal request of an EVM job,
  with or without a deferral tail, is an error report or an internal proof that is ready for the EVM step, carries
  the identifier of the request, and is handled by the manager without an error in every well-formed state.
  So the one result that the result handler refuses, a raw final internal proof of an EVM job, is never sent.\<close>

theorem final_evm_handoff_accepted:
  assumes "accept_internal env req = (resp, Some task)" "ipr_is_final_proof req" "pc_proof_type (ipr_context req) = Evm"
    and "(u, result) \<in> set (new_posts st (run_recursion_task env task st))"
    and "proof_state_wf s" "0 < ps_leaf_arity s" "2 \<le> ps_internal_arity s"
  shows "u = pc_proof_uuid (ipr_context req) \<and> is_ok (snd (handle_proof_result b ck result s))"
proof -
  let ?u = "pc_proof_uuid (ipr_context req)"
  obtain job where t: "task = Internal_Task ?u job (ipr_deferral_tail req) (ipr_deferral_merkle_proofs_bytes req)"
      "ij_is_final_proof job" "pc_proof_type (ij_context job) = Evm"
    using accept_internal_task [OF assms(1)] assms(2,3) by metis
  have "(u, result) \<in> set (new_posts st (run_internal_task env ?u job (ipr_deferral_tail req) (ipr_deferral_merkle_proofs_bytes req) st))"
    using assms(4) unfolding t(1) run_recursion_task.simps .
  then have ok: "evm_post_ok ?u (u, result)" using run_internal_task_evm [OF t(2,3)] by blast
  obtain s' r where h: "handle_proof_result b ck result s = (s', r)" by fastforce
  have "is_ok r"
    using evm_result_taken [OF ok] handle_proof_result_total [OF assms(5-7) h] by (cases r) simp_all
  then show ?thesis using ok h by (simp add: evm_post_ok_def)
qed

definition demo_evm_context :: proof_context where
  "demo_evm_context = (proof_context_new ''p1'' \<lparr>pr_name = ''fib'', pr_version = 1\<rparr> [])\<lparr>pc_proof_type := Evm\<rparr>"

definition demo_internal_request :: internal_prove_request where
  "demo_internal_request = \<lparr>ipr_context = demo_evm_context, ipr_child_proofs = [[3], [4]], ipr_layer_idx = 1,
     ipr_segment_start = 0, ipr_segment_end = 1, ipr_is_final_proof = True, ipr_deferral_tail = None,
     ipr_deferral_merkle_proofs_bytes = None\<rparr>"

text \<open>The small worker with an internal prover behind its pool.\<close>

definition demo_stop_watch :: "nat \<Rightarrow> measured" where
  "demo_stop_watch n = \<lparr>ms_elapsed = n, ms_timings = []\<rparr>"

definition demo_inner :: "(nat, nat) inner_prover" where
  "demo_inner = \<lparr>in_child_vk = 0, in_pk = 0, in_circuit = Internal_Recursive, in_def_hook_cached_commit = None\<rparr>"

definition demo_proving_env ::
  "(nat, nat, nat, nat, nat, string, bytes, nat, nat, nat, nat, nat) worker_env" where
  "demo_proving_env = demo_worker_env\<lparr>we_submit_internal := (\<lambda>j. Ok (handle_panic_result (prove_internal demo_backend demo_stop_watch j
     \<lparr>ii_internal_for_leaf_prover = demo_inner, ii_internal_recursive_prover = demo_inner\<rparr>)))\<rparr>"

definition demo_final_task :: "(nat, nat) recursion_task" where
  "demo_final_task = the (snd (accept_internal demo_proving_env demo_internal_request))"

lemma demo_accepts: "accept_internal demo_proving_env demo_internal_request = ((200, ''Work completed''), Some demo_final_task)"
  by code_simp

theorem final_evm_handoff_accepted_witness:
  "\<exists>result. new_posts demo_worker_state (run_recursion_task demo_proving_env demo_final_task demo_worker_state) = [(''p1'', result)] \<and>
     is_ok (snd (handle_proof_result Mock_Provers demo_clock result (demo_state Evm 2 2)))"
proof -
  let ?posts = "new_posts demo_worker_state (run_recursion_task demo_proving_env demo_final_task demo_worker_state)"
  have "map fst ?posts = [''p1'']" by code_simp
  then obtain result where p: "?posts = [(''p1'', result)]" by auto
  have "ipr_is_final_proof demo_internal_request" "pc_proof_type (ipr_context demo_internal_request) = Evm"
    by (simp_all add: demo_internal_request_def demo_evm_context_def)
  note t = final_evm_handoff_accepted [OF demo_accepts this, of "''p1''" result demo_worker_state "demo_state Evm 2 2"
      Mock_Provers demo_clock]
  have "proof_state_wf (demo_state Evm 2 2)" "0 < ps_leaf_arity (demo_state Evm 2 2)" "2 \<le> ps_internal_arity (demo_state Evm 2 2)"
    by simp_all
  then show ?thesis using t p by auto
qed

section \<open>Every accepted request is reported\<close>

definition never_panics :: "('a \<Rightarrow> 'b outcome) \<Rightarrow> bool" where
  "never_panics f \<longleftrightarrow> (\<forall>x p. f x \<noteq> Panic p)"

definition success_has_results :: "('a \<Rightarrow> prover_result outcome) \<Rightarrow> bool" where
  "success_has_results f \<longleftrightarrow> (\<forall>x rs. f x = Ok (ProverSuccess rs) \<longrightarrow> rs \<noteq> [])"

text \<open>The payloads can be encoded, the submissions and the codecs return, and a success has a result (as the
  provers' successes have).\<close>

definition dependable_env :: "('p, 'u, 'm, 'k, 'd, 'x, 'f, 'h, 'j, 'n, 'r, 'e) worker_env \<Rightarrow> bool" where
  "dependable_env env \<longleftrightarrow> encodes_all (we_network env) \<and> never_panics (we_submit_leaf env) \<and>
     never_panics (we_submit_internal env) \<and> never_panics (we_submit_root env) \<and> never_panics (we_submit_halo2 env) \<and>
     never_panics (bk_decode_proof (we_backend env)) \<and> never_panics (bk_decode_root (we_backend env)) \<and>
     success_has_results (we_submit_leaf env) \<and> success_has_results (we_submit_internal env)"

fun task_uuid :: "('p, 'u) recursion_task \<Rightarrow> string" where
  "task_uuid (Leaf_Task u job) = u"
| "task_uuid (Internal_Task u job tail d) = u"
| "task_uuid (Evm_Task req) = pc_proof_uuid (epr_context req)"

definition reports :: "string \<Rightarrow> worker_state \<Rightarrow> worker_state \<Rightarrow> bool" where
  "reports u st st' \<longleftrightarrow> new_posts st st' \<noteq> [] \<and> (\<forall>p \<in> set (new_posts st st'). fst p = u)"

lemma post_error_reports: "encodes_all (we_network env) \<Longrightarrow> reports u st (post_error env u e st)"
  using post_error_new [of st env u e] by (auto simp: reports_def)

lemma post_results_reports: "encodes_all (we_network env) \<Longrightarrow> rs \<noteq> [] \<Longrightarrow> reports u st (post_results env u rs st)"
  using post_results_new [of st env u rs] by (auto simp: reports_def dest: in_set_takeD)

lemma reports_cong: "wk_outbox st1 = wk_outbox st \<Longrightarrow> reports u st st' = reports u st1 st'"
  by (simp add: reports_def new_posts_def)

lemmas reports_intros = post_error_reports post_results_reports

lemma drive_evm_prep_reports:
  assumes "encodes_all (we_network env)"
  shows "reports u st (drive_evm_prep_and_post env u ctx rs tail d st)"
proof (cases "find_internal rs")
  case (Some cs)
  obtain c s where cs: "cs = (c, s)" by (cases cs)
  obtain st1 r where e: "evm_prep env u ctx (ips_proof s) tail d st = (st1, r)" by fastforce
  show ?thesis using Some cs e assms
    by (cases r) (auto simp: drive_evm_prep_and_post_def join_task_def reports_cong [OF evm_prep_outbox [OF e]]
      intro!: reports_intros)
qed (use assms in \<open>auto simp: drive_evm_prep_and_post_def intro!: reports_intros\<close>)

lemma drive_stark_merge_reports:
  assumes "encodes_all (we_network env)"
  shows "reports u st (drive_stark_deferral_merge_and_post env u ctx rs (Some tail) st)"
proof (cases "find_internal rs")
  case (Some cs)
  obtain c s where cs: "cs = (c, s)" by (cases cs)
  show ?thesis
  proof (cases "ips_proof s")
    case None
    then show ?thesis using Some cs assms
      by (auto simp: drive_stark_deferral_merge_and_post_def join_task_def intro!: reports_intros)
  next
    case (Some b)
    obtain st1 r where e: "merge_and_encode env ''stark deferral merge'' (\<lambda>e. e) u ctx b tail st = (st1, r)" by fastforce
    show ?thesis using \<open>find_internal rs = Some cs\<close> Some cs e assms
      by (cases r) (auto simp: drive_stark_deferral_merge_and_post_def join_task_def reports_cong [OF merge_and_encode_outbox [OF e]]
        intro!: reports_intros)
  qed
qed (use assms in \<open>auto simp: drive_stark_deferral_merge_and_post_def intro!: reports_intros\<close>)

lemma from_sum_with_no_panic [simp]: "from_sum_with f r \<noteq> Panic p"
  by (simp add: from_sum_with_def split: sum.split)

lemma bind_outcome_Panic_iff: "bind_outcome r f = Panic p \<longleftrightarrow> r = Panic p \<or> (\<exists>x. r = Ok x \<and> f x = Panic p)"
  by (cases r) auto

lemma map_err_Panic [simp]: "map_err f r = Panic p \<longleftrightarrow> r = Panic p"
  by (cases r) (simp_all add: map_err_def)

lemma plumbing_no_panic [simp]: "ok_or x e \<noteq> Panic p" "guard_err b e \<noteq> Panic p"
  by (simp_all add: ok_or_def guard_err_def split: option.split)

lemma evm_no_panic:
  assumes "dependable_env env"
  shows "bind_outcome (decode_evm_request env req) (\<lambda>(x, m). run_evm_prove env u c x m h) \<noteq> Panic q"
  using assms
  by (auto simp: dependable_env_def never_panics_def decode_evm_request_def run_evm_prove_def bind_outcome_Panic_iff Let_def
      split: option.splits outcome.splits prover_result.splits prod.splits)

lemma task_reports:
  assumes d: "dependable_env env"
  shows "reports (task_uuid task) st (run_recursion_task env task st)"
proof -
  have e: "encodes_all (we_network env)" using d by (simp add: dependable_env_def)
  show ?thesis
  proof (cases task)
    case (Leaf_Task u job)
    then show ?thesis using d e
      by (auto simp: dependable_env_def never_panics_def success_has_results_def run_leaf_task_def
          split: outcome.splits prover_result.splits intro!: reports_intros)
  next
    case (Internal_Task u job tail dep)
    then show ?thesis using d e drive_evm_prep_reports [OF e] drive_stark_merge_reports [OF e]
      by (auto simp: dependable_env_def never_panics_def success_has_results_def run_internal_task_def Let_def
          split: outcome.splits prover_result.splits intro!: reports_intros)
  next
    case (Evm_Task req)
    then show ?thesis using e evm_no_panic [OF d]
      by (auto simp: drive_evm_prove_from_request_def Let_def split: outcome.split intro!: reports_intros)
  qed
qed

end
