(* ===== verification/Worker_Contract.thy ===== *)
theory Worker_Contract
  imports Worker_Manager
begin

text \<open>
  The contract between the manager and the workers: what a worker with its provers posts for a request either
  answers it or is an error report for it. \<open>proving_worker\<close> states the contract; under it the runs of a job in
  which the workers do the answering are runs of \<open>Job_Run\<close>, up to a failure that a worker has reported. The worker
  of \<open>Worker_Handlers\<close>, with the pools of \<open>Prover_Pool\<close>, keeps it.
\<close>

section \<open>A worker with its pools\<close>

text \<open>What a submission to a pool comes to (\<open>Pool_Properties\<close>): an error of the pool, or the result of a run of
  the job by a worker thread. \<open>pick\<close> tells which: the name of the thread, its instance, the shared state.\<close>

definition pool_answer ::
  "('w, 'i, 'j, 'o) worker_kind \<Rightarrow> ('j \<Rightarrow> string + string \<times> 'i \<times> 'w) \<Rightarrow> 'j \<Rightarrow> 'o outcome" where
  "pool_answer kind pick j =
     (case pick j of
        Inl e \<Rightarrow> Err e
      | Inr (name, inst, w) \<Rightarrow> Ok (snd (snd (run_result kind name inst j (wk_enter kind name j w)))))"

record ('p, 'u, 'k, 'd, 'm, 'r) pool_picks =
  pp_leaf :: "('p, 'u) leaf_prover_job \<Rightarrow> string + string \<times> ('k, 'd) inner_prover \<times> pool_shared"
  pp_internal :: "('p, 'u) internal_prover_job \<Rightarrow> string + string \<times> ('k, 'd) internal_prover_instance \<times> pool_shared"
  pp_root :: "('p, 'u, 'm) root_prover_job \<Rightarrow> string + string \<times> ('k, 'd) root_prover_instance \<times> pool_shared"
  pp_halo2 :: "'r halo2_prover_job \<Rightarrow> string + string \<times> 'k halo2_prover_instance \<times> pool_shared"

definition with_prover_pool ::
  "(nat \<Rightarrow> measured) \<Rightarrow> ('p, 'u, 'k, 'd, 'n deferral_merkle_proofs, 'r) pool_picks \<Rightarrow>
     ('p, 'u, 'm, 'k, 'd, 'x, 'f, 'h, 'j, 'n, 'r, 'e) worker_env \<Rightarrow>
     ('p, 'u, 'm, 'k, 'd, 'x, 'f, 'h, 'j, 'n, 'r, 'e) worker_env" where
  "with_prover_pool clk picks env =
     env\<lparr>we_submit_leaf := pool_answer (leaf_kind (we_backend env) clk (we_store env)) (pp_leaf picks),
         we_submit_internal := pool_answer (internal_kind (we_backend env) clk (we_store env)) (pp_internal picks),
         we_submit_root := (\<lambda>j. bind_outcome
           (pool_answer (root_kind (we_backend env) clk (we_store env)) (pp_root picks) j) (\<lambda>r. r)),
         we_submit_halo2 := pool_answer (halo2_kind (we_backend env) clk (we_store env)) (pp_halo2 picks)\<rparr>"

lemma with_prover_pool_simps [simp]:
  "we_network (with_prover_pool clk picks env) = we_network env"
  "we_backend (with_prover_pool clk picks env) = we_backend env"
  "we_available (with_prover_pool clk picks env) = we_available env"
  "we_decode_request (with_prover_pool clk picks env) = we_decode_request env"
  by (simp_all add: with_prover_pool_def)

lemma with_prover_pool_submits:
  "we_submit_leaf (with_prover_pool clk picks env) = pool_answer (leaf_kind (we_backend env) clk (we_store env)) (pp_leaf picks)"
  "we_submit_internal (with_prover_pool clk picks env) =
     pool_answer (internal_kind (we_backend env) clk (we_store env)) (pp_internal picks)"
  "we_submit_root (with_prover_pool clk picks env) = (\<lambda>j. bind_outcome
     (pool_answer (root_kind (we_backend env) clk (we_store env)) (pp_root picks) j) (\<lambda>r. r))"
  "we_submit_halo2 (with_prover_pool clk picks env) =
     pool_answer (halo2_kind (we_backend env) clk (we_store env)) (pp_halo2 picks)"
  by (simp_all add: with_prover_pool_def)

section \<open>What the provers return\<close>

lemma as_prover_result_Success [simp]: "as_prover_result w r = Ok (ProverSuccess rs) \<longleftrightarrow> r = Ok rs"
  by (cases r) simp_all

lemma handle_panic_Success: "handle_panic_result r = ProverSuccess rs \<Longrightarrow> r = Ok (ProverSuccess rs)"
  by (cases r) (simp_all add: handle_panic_result_def panic_to_prover_result_def)

text \<open>A success of a pool is a success of its prover: panics and pool errors are not.\<close>

lemma run_result_Success:
  assumes "wk_on_panic kind = panic_to_prover_result" "wk_run kind name inst j w = (w', inst', q)"
    and "snd (snd (run_result kind name inst j w)) = ProverSuccess rs"
  shows "q = Ok (ProverSuccess rs)"
  using assms by (cases q) (simp_all add: run_result_def panic_to_prover_result_def)

lemma leaf_pool_success:
  assumes "pool_answer (leaf_kind bk clk cell) pick j = Ok (ProverSuccess rs)"
  shows "\<exists>inst. prove_leaf bk clk j inst = Ok (ProverSuccess rs)"
proof -
  let ?k = "leaf_kind bk clk cell"
  obtain name inst w where p: "pick j = Inr (name, inst, w)"
      "snd (snd (run_result ?k name inst j (wk_enter ?k name j w))) = ProverSuccess rs"
    using assms by (auto simp: pool_answer_def split: sum.splits prod.splits)
  obtain w' inst' q where q: "wk_run ?k name inst j (wk_enter ?k name j w) = (w', inst', q)" by (metis prod_cases3)
  have "q = Ok (ProverSuccess rs)" using run_result_Success [OF _ q p(2)] by (simp add: leaf_kind_def)
  then have "handle_panic_result (prove_leaf bk clk j inst) = ProverSuccess rs"
    using q by (auto simp: leaf_kind_def leaf_run_def Let_def split: prover_result.splits)
  then show ?thesis using handle_panic_Success by blast
qed

lemma internal_pool_success:
  assumes "pool_answer (internal_kind bk clk cell) pick j = Ok (ProverSuccess rs)"
  shows "\<exists>inst. prove_internal bk clk j inst = Ok (ProverSuccess rs)"
proof -
  let ?k = "internal_kind bk clk cell"
  obtain name inst w where p: "pick j = Inr (name, inst, w)"
      "snd (snd (run_result ?k name inst j (wk_enter ?k name j w))) = ProverSuccess rs"
    using assms by (auto simp: pool_answer_def split: sum.splits prod.splits)
  show ?thesis using run_result_Success [OF _ _ p(2)] by (auto simp: internal_kind_def)
qed

lemma halo2_pool_success:
  assumes "pool_answer (halo2_kind bk clk cell) pick j = Ok (ProverSuccess rs)"
  shows "\<exists>inst. prove_halo2 bk clk j inst = Ok (ProverSuccess rs)"
proof -
  let ?k = "halo2_kind bk clk cell"
  obtain name inst w where p: "pick j = Inr (name, inst, w)"
      "snd (snd (run_result ?k name inst j (wk_enter ?k name j w))) = ProverSuccess rs"
    using assms by (auto simp: pool_answer_def split: sum.splits prod.splits)
  show ?thesis using run_result_Success [OF _ _ p(2)] by (auto simp: halo2_kind_def)
qed

lemma prove_leaf_success:
  "prove_leaf bk clk j inst = Ok (ProverSuccess rs) \<Longrightarrow>
     \<exists>st. rs = [LeafRes (lj_context j) st] \<and> lps_proof st \<noteq> None \<and>
       lps_segment_start st = lj_segment_start j \<and> lps_segment_end st = lj_segment_end j"
  by (auto simp: prove_leaf_def prove_leaf_impl_def bind_outcome_Ok_iff Let_def)

text \<open>The fields of an internal result that the manager looks at.\<close>

definition internal_fits :: "nat \<Rightarrow> nat \<Rightarrow> nat \<Rightarrow> internal_proof_state \<Rightarrow> bool" where
  "internal_fits layer s e st \<longleftrightarrow> ips_proof st \<noteq> None \<and> ips_layer_idx st = layer \<and>
     ips_segment_start st = s \<and> ips_segment_end st = e"

lemma prove_internal_success:
  "prove_internal bk clk j inst = Ok (ProverSuccess rs) \<Longrightarrow>
     \<exists>st. rs = [InternalRes (ij_context j) st] \<and>
       internal_fits (ij_layer_idx j) (ij_segment_start j) (ij_segment_end j) st"
  by (auto simp: prove_internal_def prove_internal_impl_def bind_outcome_Ok_iff Let_def internal_fits_def)

lemma prove_halo2_success:
  "prove_halo2 bk clk j inst = Ok (ProverSuccess rs) \<Longrightarrow>
     \<exists>st. rs = [EvmRes (hj_context j) st] \<and> eps_proof st \<noteq> None"
  by (auto simp: prove_halo2_def prove_halo2_impl_def bind_outcome_Ok_iff)

section \<open>What the tasks post\<close>

text \<open>A result that is an error report, or an answer.\<close>

definition fits_request :: "general_prove_request \<Rightarrow> string \<times> proof_result \<Rightarrow> bool" where
  "fits_request req p \<longleftrightarrow> fst p = pc_proof_uuid (request_context req) \<and>
     (answers req (snd p) \<or> (\<exists>e. snd p = ErrorRes e))"

lemma post_error_fits:
  "p \<in> set (new_posts st (post_error env (pc_proof_uuid (request_context req)) e st)) \<Longrightarrow> fits_request req p"
  using post_error_results [of "fst p" "snd p" st env _ e] by (auto simp: fits_request_def error_result_for_def)

lemma post_results_fits:
  "p \<in> set (new_posts st (post_results env (pc_proof_uuid (request_context req)) rs st)) \<Longrightarrow>
     \<forall>r \<in> set rs. answers req r \<Longrightarrow> fits_request req p"
  using post_results_results [of "fst p" "snd p" st env _ rs] by (auto simp: fits_request_def)

lemma drive_evm_fits:
  assumes "p \<in> set (new_posts st (drive_evm_prep_and_post env (pc_proof_uuid (request_context req)) ctx [InternalRes c s] tail d st))"
    and "\<And>b m. answers req (InternalRes c (s\<lparr>ips_proof := Some b, ips_deferral_merkle_proofs_bytes := m, ips_ready_for_evm := True\<rparr>))"
  shows "fits_request req p"
proof -
  obtain st1 r where e: "evm_prep env (pc_proof_uuid (request_context req)) ctx (ips_proof s) tail d st = (st1, r)" by fastforce
  note np = new_posts_cong [OF evm_prep_outbox [OF e]]
  show ?thesis using assms(1) e
    by (cases r) (auto simp: find_internal_def drive_evm_prep_and_post_def join_task_def np
        intro: post_error_fits elim!: post_results_fits intro!: assms(2))
qed

lemma drive_stark_fits:
  assumes "p \<in> set (new_posts st (drive_stark_deferral_merge_and_post env (pc_proof_uuid (request_context req)) ctx [InternalRes c s] (Some tail) st))"
    and "\<And>b m. answers req (InternalRes c (s\<lparr>ips_proof := Some b, ips_deferral_merkle_proofs_bytes := Some m\<rparr>))"
  shows "fits_request req p"
proof (cases "ips_proof s")
  case None
  then show ?thesis using assms(1)
    by (auto simp: find_internal_def drive_stark_deferral_merge_and_post_def join_task_def intro: post_error_fits)
next
  case (Some b)
  obtain st1 r where e: "merge_and_encode env ''stark deferral merge'' (\<lambda>e. e) (pc_proof_uuid (request_context req)) ctx b tail st = (st1, r)"
    by fastforce
  note np = new_posts_cong [OF merge_and_encode_outbox [OF e]]
  show ?thesis using assms(1) Some e
    by (cases r) (auto simp: find_internal_def drive_stark_deferral_merge_and_post_def join_task_def np
        intro: post_error_fits elim!: post_results_fits intro!: assms(2))
qed

text \<open>The middle of \<open>handle_recursion_prove\<close>: the task of a decoded request; and what it posts.\<close>

fun request_task ::
  "('p, 'u, 'm, 'k, 'd, 'x, 'f, 'h, 'j, 'n, 'r, 'e) worker_env \<Rightarrow> general_prove_request \<Rightarrow>
     worker_response \<times> ('p, 'u) recursion_task option" where
  "request_task env (LeafProveReq req) = accept_leaf env req"
| "request_task env (InternalProveReq req) = accept_internal env req"
| "request_task env (EvmProveReq req) = ((200, ''Work completed''), Some (Evm_Task req))"

lemma handle_recursion_prove_task:
  "we_decode_request env body = Inr envelope \<Longrightarrow>
     handle_recursion_prove env body = request_task env (me_message envelope)"
  by (cases "me_message envelope") (simp_all add: handle_recursion_prove_def)

definition request_posts ::
  "('p, 'u, 'm, 'k, 'd, 'x, 'f, 'h, 'j, 'n, 'r, 'e) worker_env \<Rightarrow> worker_state \<Rightarrow> general_prove_request \<Rightarrow>
     (string \<times> proof_result) list" where
  "request_posts env st req =
     (case snd (request_task env req) of
        None \<Rightarrow> []
      | Some task \<Rightarrow> new_posts st (run_recursion_task env task st))"

lemma leaf_posts_fit:
  assumes "p \<in> set (request_posts (with_prover_pool clk picks env) st (LeafProveReq req))"
  shows "fits_request (LeafProveReq req) p"
proof -
  let ?env = "with_prover_pool clk picks env"
  let ?u = "pc_proof_uuid (lpr_context req)"
  obtain aps where a: "collect_outcomes (bk_decode_proof (we_backend env)) (lpr_app_proofs req) = Ok aps"
    using assms by (cases "collect_outcomes (bk_decode_proof (we_backend env)) (lpr_app_proofs req)")
      (auto simp: request_posts_def accept_leaf_def split: if_splits)
  define job where "job = \<lparr>lj_context = lpr_context req, lj_app_proofs = aps, lj_segment_start = lpr_segment_start req,
    lj_segment_end = lpr_segment_end req\<rparr>"
  have p: "p \<in> set (new_posts st (run_leaf_task ?env ?u job st))"
    using assms a by (auto simp: request_posts_def accept_leaf_def job_def split: if_splits)
  have ctx: "?u = pc_proof_uuid (request_context (LeafProveReq req))" by simp
  have "\<forall>r \<in> set rs. answers (LeafProveReq req) r" if s: "we_submit_leaf ?env job = Ok (ProverSuccess rs)" for rs
  proof -
    obtain inst where "prove_leaf (we_backend env) clk job inst = Ok (ProverSuccess rs)"
      using s leaf_pool_success by (fastforce simp: with_prover_pool_def)
    from prove_leaf_success [OF this] show ?thesis by (auto simp: job_def)
  qed
  then show ?thesis using p unfolding ctx
    by (auto simp: run_leaf_task_def split: outcome.splits prover_result.splits
        intro: post_error_fits post_results_fits simp del: request_context.simps)
qed

text \<open>An EVM proof is the one of the halo2 prover, with the timings of both steps.\<close>

definition find_evm :: "proof_result list \<Rightarrow> (proof_context \<times> evm_proof_state) option" where
  "find_evm rs = find_map (\<lambda>res. case res of EvmRes c s \<Rightarrow> Some (c, s) | _ \<Rightarrow> None) rs"

lemma halo2_step_Ok:
  "(case q of
      Ok (ProverSuccess r) \<Rightarrow> ok_or (find_evm r) e1
    | Ok (ProverError e) \<Rightarrow> Err (e2 e) | Err e \<Rightarrow> Err (e3 e) | Panic p \<Rightarrow> Panic p) = Ok y \<longleftrightarrow>
     (\<exists>rs. q = Ok (ProverSuccess rs) \<and> find_evm rs = Some y)"
  by (simp add: ok_or_def split: outcome.split prover_result.split option.split)

lemma run_evm_prove_Ok:
  assumes "run_evm_prove env u c p m d = Ok x"
  shows "\<exists>job rs c' s. we_submit_halo2 env job = Ok (ProverSuccess rs) \<and> find_evm rs = Some (c', s) \<and>
     (\<exists>t y. x = EvmRes c' (s\<lparr>eps_root_prove_time_ms := t, eps_sub_metrics := y\<rparr>))"
  using assms unfolding run_evm_prove_def Let_def find_evm_def [symmetric] bind_outcome_Ok_iff halo2_step_Ok
  by (auto split: prod.splits) blast

lemma evm_posts_fit:
  assumes "p \<in> set (request_posts (with_prover_pool clk picks env) st (EvmProveReq req))"
  shows "fits_request (EvmProveReq req) p"
proof -
  let ?env = "with_prover_pool clk picks env"
  let ?u = "pc_proof_uuid (epr_context req)"
  have ctx: "?u = pc_proof_uuid (request_context (EvmProveReq req))" by simp
  have h: "\<exists>c s. x = EvmRes c s \<and> eps_proof s \<noteq> None"
    if run: "run_evm_prove ?env u c p0 m d = Ok x" for u c p0 m d x
  proof -
    obtain job rs c' s where s: "we_submit_halo2 ?env job = Ok (ProverSuccess rs)" "find_evm rs = Some (c', s)"
        "\<exists>t y. x = EvmRes c' (s\<lparr>eps_root_prove_time_ms := t, eps_sub_metrics := y\<rparr>)"
      using run_evm_prove_Ok [OF run] by blast
    obtain inst where "prove_halo2 (we_backend env) clk job inst = Ok (ProverSuccess rs)"
      using s(1) halo2_pool_success by (fastforce simp: with_prover_pool_def)
    from prove_halo2_success [OF this] show ?thesis using s(2,3) by (auto simp: find_evm_def)
  qed
  show ?thesis using assms unfolding request_posts_def
    by (auto simp: drive_evm_prove_from_request_def Let_def bind_outcome_Ok_iff ctx
        split: outcome.splits simp del: request_context.simps dest!: h
        intro: post_error_fits elim!: post_results_fits)
qed

lemma internal_posts_fit:
  assumes "p \<in> set (request_posts (with_prover_pool clk picks env) st (InternalProveReq req))"
  shows "fits_request (InternalProveReq req) p"
proof -
  let ?env = "with_prover_pool clk picks env" and ?req = "InternalProveReq req"
  let ?u = "pc_proof_uuid (ipr_context req)"
  let ?tail = "ipr_deferral_tail req" and ?dep = "ipr_deferral_merkle_proofs_bytes req"
  obtain cps where a: "collect_outcomes (bk_decode_proof (we_backend env)) (ipr_child_proofs req) = Ok cps"
    using assms by (cases "collect_outcomes (bk_decode_proof (we_backend env)) (ipr_child_proofs req)")
      (auto simp: request_posts_def accept_internal_def split: if_splits)
  define job where "job = \<lparr>ij_context = ipr_context req, ij_child_proofs = cps, ij_layer_idx = ipr_layer_idx req,
    ij_segment_start = ipr_segment_start req, ij_segment_end = ipr_segment_end req,
    ij_is_final_proof = ipr_is_final_proof req, ij_proof_has_deferral = (?tail \<noteq> None)\<rparr>"
  have p: "p \<in> set (new_posts st (run_internal_task ?env ?u job ?tail ?dep st))"
    using assms a by (auto simp: request_posts_def accept_internal_def job_def split: if_splits)
  have ctx: "?u = pc_proof_uuid (request_context ?req)" by simp
  show ?thesis
  proof (cases "we_submit_internal ?env job")
    case (Ok res)
    show ?thesis
    proof (cases res)
      case (ProverError e)
      then show ?thesis using p Ok unfolding ctx by (auto simp: run_internal_task_def intro: post_error_fits)
    next
      case (ProverSuccess rs)
      obtain inst where "prove_internal (we_backend env) clk job inst = Ok (ProverSuccess rs)"
        using Ok ProverSuccess internal_pool_success by (fastforce simp: with_prover_pool_def)
      from prove_internal_success [OF this] obtain s where rs: "rs = [InternalRes (ipr_context req) s]"
          and s: "internal_fits (ipr_layer_idx req) (ipr_segment_start req) (ipr_segment_end req) s"
        by (auto simp: job_def)
      note p' = p [unfolded run_internal_task_def Ok ProverSuccess rs, simplified, unfolded Let_def]
      consider (stark) tl where "ipr_is_final_proof req" "pc_proof_type (ipr_context req) = Stark" "?tail = Some tl"
        | (evm) "ipr_is_final_proof req" "pc_proof_type (ipr_context req) = Evm"
        | (plain) "\<not> (ipr_is_final_proof req \<and> pc_proof_type (ipr_context req) = Evm)"
            "\<not> (ipr_is_final_proof req \<and> pc_proof_type (ipr_context req) = Stark \<and> ?tail \<noteq> None)"
        by (cases "pc_proof_type (ipr_context req)"; cases ?tail) auto
      then show ?thesis
      proof cases
        case stark
        show ?thesis
          by (rule drive_stark_fits [where tail = tl and ctx = "ipr_context req" and c = "ipr_context req" and s = s])
            (use p' stark s in \<open>auto simp: job_def internal_fits_def\<close>)
      next
        case evm
        show ?thesis
          by (rule drive_evm_fits [where tail = "?tail" and d = "?dep" and ctx = "ipr_context req" and c = "ipr_context req" and s = s])
            (use p' evm s in \<open>auto simp: job_def internal_fits_def\<close>)
      next
        case plain
        show ?thesis
          by (rule post_results_fits [where rs = "[InternalRes (ipr_context req) s]"])
            (use p' plain s in \<open>auto simp: job_def internal_fits_def split: if_splits\<close>)
      qed
    qed
  qed (use p in \<open>auto simp: run_internal_task_def ctx simp del: request_context.simps intro: post_error_fits\<close>)
qed

lemma request_posts_fit:
  "p \<in> set (request_posts (with_prover_pool clk picks env) st req) \<Longrightarrow> fits_request req p"
  by (cases req) (auto intro: leaf_posts_fit internal_posts_fit evm_posts_fit)

section \<open>The contract\<close>

text \<open>\<open>posts w r\<close> is what the workers, in the condition \<open>w\<close>, post for the request \<open>r\<close>. A served run is a run of a
  job in which requests are answered by what is posted for them, in any order and any number of times. As in
  \<open>Job_Run\<close>, the execution result precedes the first internal proof.\<close>

inductive served_run ::
  "('w \<Rightarrow> general_prove_request \<Rightarrow> (string \<times> proof_result) list) \<Rightarrow> tree_plan \<Rightarrow> build \<Rightarrow> job \<Rightarrow> bool"
  for posts c b where
  served_start: "fresh_state c s \<Longrightarrow> served_run posts c b \<lparr>jb_state = s, jb_requests = []\<rparr>"
| served_input: "served_run posts c b J \<Longrightarrow> job_input c (jb_state J) (me_message env) \<Longrightarrow>
    served_run posts c b (deliver b ck env J)"
| served_post: "served_run posts c b J \<Longrightarrow> req \<in> set (jb_requests J) \<Longrightarrow> (u, me_message env) \<in> set (posts w req) \<Longrightarrow>
    is_internal_result (me_message env) \<longrightarrow> ps_num_segments (jb_state J) \<noteq> None \<Longrightarrow>
    served_run posts c b (deliver b ck env J)"

text \<open>A sealed job takes nothing, whatever is delivered, and an error report fails an unsealed one.\<close>

definition has_failed :: "job \<Rightarrow> bool" where
  "has_failed J \<longleftrightarrow> (\<exists>m. ps_status (jb_state J) = Failing m)"

lemma deliver_to_sealed:
  assumes "is_sealed_for_results (jb_state J)"
  shows "deliver b ck env J = J\<lparr>jb_state := (jb_state J)\<lparr>ps_late_result_notice_emitted := True\<rparr>\<rparr>"
  using assms by (simp add: deliver_def handle_proof_result_with_envelope_outcome_def)

lemma deliver_error:
  assumes "\<not> is_sealed_for_results (jb_state J)" "me_message env = ErrorRes e"
  shows "has_failed (deliver b ck env J) \<and> jb_requests (deliver b ck env J) = jb_requests J"
proof -
  have "\<not> is_sealed_for_results ((jb_state J)\<lparr>ps_last_updated := ck_received ck\<rparr>)"
    using assms(1) by simp
  then show ?thesis using assms
    by (simp add: has_failed_def deliver_def handle_proof_result_with_envelope_outcome_def handle_proof_result_def Let_def
        handle_error_result_def record_completion_def notify_completion_def)
qed

lemma failed_sealed: "has_failed J \<Longrightarrow> is_sealed_for_results (jb_state J)"
  by (auto simp: has_failed_def is_sealed_for_results_def)

lemma deliver_failed:
  "has_failed J \<Longrightarrow> has_failed (deliver b ck env J) \<and> jb_requests (deliver b ck env J) = jb_requests J"
  by (simp add: deliver_to_sealed failed_sealed) (simp add: has_failed_def)

definition some_app_proof :: "proof_result message_envelope" where
  "some_app_proof = \<lparr>me_timestamp = 0, me_message_id = [], me_message =
     AppRes (proof_context_new [] \<lparr>pr_name = [], pr_version = 0\<rparr> []) \<lparr>aps_proof = Some [], aps_segment_idx = 0, aps_prove_time_ms = 0,
       aps_fastfwd_time_ms = 0, aps_stark_prove_time_ms = 0, aps_sub_metrics = [], aps_final_merkle_path_bytes = None,
       aps_deferral_merkle_proofs_bytes = None\<rparr>\<rparr>"

lemma run_deliver_to_sealed:
  assumes "plan_ok c" "job_run c b J" "is_sealed_for_results (jb_state J)"
  shows "job_run c b (deliver b ck env J)"
proof -
  have "0 < tp_segments c" using assms(1) by simp
  then have "job_run c b (deliver b ck some_app_proof J)"
    by (intro job_run.input [OF assms(2)]) (simp add: some_app_proof_def)
  then show ?thesis by (simp add: deliver_to_sealed [OF assms(3)])
qed

text \<open>A run, or a run that has failed since: its requests are those of a run.\<close>

definition run_or_failed :: "tree_plan \<Rightarrow> build \<Rightarrow> job \<Rightarrow> bool" where
  "run_or_failed c b J \<longleftrightarrow>
     job_run c b J \<or> has_failed J \<and> (\<exists>J0. job_run c b J0 \<and> jb_requests J = jb_requests J0)"

locale proving_worker =
  fixes posts :: "'w \<Rightarrow> general_prove_request \<Rightarrow> (string \<times> proof_result) list"
  assumes posts_fit: "p \<in> set (posts w req) \<Longrightarrow> fits_request req p"
begin

lemma posts_addressed: "(u, x) \<in> set (posts w req) \<Longrightarrow> u = pc_proof_uuid (request_context req)"
  using posts_fit [of "(u, x)"] by (simp add: fits_request_def)

lemma posts_answer: "(u, x) \<in> set (posts w req) \<Longrightarrow> answers req x \<or> (\<exists>e. x = ErrorRes e)"
  using posts_fit [of "(u, x)"] by (simp add: fits_request_def)

lemma served_step:
  assumes "plan_ok c" "run_or_failed c b J" "req \<in> set (jb_requests J)" "(u, me_message env) \<in> set (posts w req)"
    and "is_internal_result (me_message env) \<longrightarrow> ps_num_segments (jb_state J) \<noteq> None"
  shows "run_or_failed c b (deliver b ck env J)"
proof (cases "has_failed J")
  case True
  then show ?thesis using assms(1,2) deliver_failed failed_sealed run_deliver_to_sealed
    by (auto simp: run_or_failed_def)
next
  case False
  then have run: "job_run c b J" using assms(2) by (simp add: run_or_failed_def)
  from posts_answer [OF assms(4)] show ?thesis
  proof
    assume "answers req (me_message env)"
    then show ?thesis using job_run.answer [OF run assms(3) _ assms(5)] by (simp add: run_or_failed_def)
  next
    assume e: "\<exists>e. me_message env = ErrorRes e"
    show ?thesis
    proof (cases "is_sealed_for_results (jb_state J)")
      case True
      then show ?thesis using run_deliver_to_sealed [OF assms(1) run] by (simp add: run_or_failed_def)
    next
      case False
      then show ?thesis using e deliver_error run by (auto simp: run_or_failed_def)
    qed
  qed
qed

lemma served_runs:
  assumes "plan_ok c" "served_run posts c b J"
  shows "run_or_failed c b J"
  using assms(2)
proof (induction rule: served_run.induct)
  case (served_start s)
  then show ?case by (simp add: run_or_failed_def job_run.start)
next
  case (served_input J env ck)
  show ?case
  proof (cases "has_failed J")
    case True
    then show ?thesis using assms(1) served_input.IH deliver_failed failed_sealed run_deliver_to_sealed
      by (auto simp: run_or_failed_def)
  next
    case False
    then show ?thesis using served_input.IH job_run.input served_input.hyps(2) by (simp add: run_or_failed_def)
  qed
next
  case (served_post J req u env w ck)
  then show ?case using assms(1) by (blast intro: served_step)
qed

end

text \<open>The condition of the workers: the readings of their clocks, the threads that their pools pick, their
  environment and their state.\<close>

fun pooled_posts ::
  "(nat \<Rightarrow> measured) \<times> ('p, 'u, 'k, 'd, 'n deferral_merkle_proofs, 'r) pool_picks \<times>
     ('p, 'u, 'm, 'k, 'd, 'x, 'f, 'h, 'j, 'n, 'r, 'e) worker_env \<times> worker_state \<Rightarrow>
     general_prove_request \<Rightarrow> (string \<times> proof_result) list" where
  "pooled_posts (clk, picks, env, st) req = request_posts (with_prover_pool clk picks env) st req"

interpretation pooled: proving_worker pooled_posts
  by unfold_locales (auto intro: request_posts_fit)

section \<open>Pools do not lose a task\<close>

lemma run_result_ok_panic [simp]: "pool_answer kind pick j \<noteq> Panic p"
  by (simp add: pool_answer_def split: sum.split)

lemma root_answer_no_panic [simp]: "pool_answer (root_kind bk clk cell) pick j \<noteq> Ok (Panic p)"
  by (auto simp: pool_answer_def root_kind_def run_result_def catch_unwind_def panic_to_root_result_def
      split: sum.splits outcome.splits)

definition codecs_return :: "('p, 'u, 'm, 'k, 'd, 'x, 'f, 'h, 'j, 'n, 'r, 'e) worker_env \<Rightarrow> bool" where
  "codecs_return env \<longleftrightarrow> encodes_all (we_network env) \<and>
     never_panics (bk_decode_proof (we_backend env)) \<and> never_panics (bk_decode_root (we_backend env))"

lemma pooled_dependable:
  assumes "codecs_return env"
  shows "dependable_env (with_prover_pool clk picks env)"
proof -
  let ?env = "with_prover_pool clk picks env"
  have "rs \<noteq> []" if "we_submit_leaf ?env j = Ok (ProverSuccess rs)" for j rs
    using leaf_pool_success [OF that [unfolded with_prover_pool_submits]] prove_leaf_success by blast
  moreover have "rs \<noteq> []" if "we_submit_internal ?env i = Ok (ProverSuccess rs)" for i rs
    using internal_pool_success [OF that [unfolded with_prover_pool_submits]] prove_internal_success by blast
  moreover have "we_submit_root ?env k \<noteq> Panic p" "we_submit_leaf ?env j \<noteq> Panic p"
    "we_submit_internal ?env i \<noteq> Panic p" "we_submit_halo2 ?env h \<noteq> Panic p" for i j k h p
    by (simp_all add: with_prover_pool_submits bind_outcome_Panic_iff)
  ultimately show ?thesis using assms
    unfolding dependable_env_def codecs_return_def never_panics_def success_has_results_def by simp
qed

lemma request_task_uuid:
  "request_task env req = (resp, Some task) \<Longrightarrow> task_uuid task = pc_proof_uuid (request_context req)"
  by (cases req) (auto simp: accept_leaf_def accept_internal_def split: if_splits outcome.splits)

lemma request_task_status: "request_task env req = ((status, msg), t) \<Longrightarrow> status = 200 \<longleftrightarrow> t \<noteq> None"
  by (cases req) (auto simp: accept_leaf_def accept_internal_def split: if_splits outcome.splits)

section \<open>What the manager emits is accepted\<close>

text \<open>The checks that a prover makes of its job before it proves.\<close>

fun job_checked :: "('p, 'u, 'k, 'd, 'm, 'r, 'e) backend \<Rightarrow> ('p, 'u) recursion_task \<Rightarrow> bool" where
  "job_checked bk (Leaf_Task u job) = (validate_leaf_job bk job = Ok ())"
| "job_checked bk (Internal_Task u job tail d) =
     (validate_internal_job bk job = Ok () \<and> (ij_is_final_proof job \<longrightarrow> 1 \<le> ij_layer_idx job))"
| "job_checked bk (Evm_Task req) = True"

lemma collect_outcomes_ok:
  "\<forall>x \<in> set xs. is_ok (f x) \<Longrightarrow> \<exists>ys. collect_outcomes f xs = Ok ys \<and> length ys = length xs"
proof (induction xs)
  case (Cons x xs)
  obtain ys where "collect_outcomes f xs = Ok ys" "length ys = length xs" using Cons by auto
  then show ?case using Cons.prems by (cases "f x") auto
qed simp

lemma group_segments:
  assumes ok: "plan_ok c" and j: "j < level_count c (Suc l)"
  shows "first_segment c (Suc l) j \<le> last_segment c (Suc l) j"
    and "length (children c 0 j) = last_segment c (Suc 0) j - first_segment c (Suc 0) j + 1 \<or> l \<noteq> 0"
    and "0 < length (children c l j)" "length (children c l j) \<le> fan_in c l"
proof -
  have "j * level_span c (Suc l) < tp_segments c"
    using j level_span_pos [OF ok, of "Suc l"] unfolding level_count_span [OF ok]
    by (simp add: less_div_ceil_iff del: level_span.simps)
  moreover have "j * level_span c (Suc l) < Suc j * level_span c (Suc l)"
    using level_span_pos [OF ok, of "Suc l"] by (simp del: level_span.simps)
  ultimately have lt: "j * level_span c (Suc l) < min (Suc j * level_span c (Suc l)) (tp_segments c)" by simp
  then show "first_segment c (Suc l) j \<le> last_segment c (Suc l) j"
    unfolding first_segment_def last_segment_def by linarith
  show "0 < length (children c l j)" using children_nonempty(2) [OF ok j] by simp
  show "length (children c l j) \<le> fan_in c l" by (simp add: children_def)
  show "length (children c 0 j) = last_segment c (Suc 0) j - first_segment c (Suc 0) j + 1 \<or> l \<noteq> 0"
  proof (cases l)
    case 0
    define m where "m = min (Suc j * tp_leaf_arity c) (tp_segments c)"
    have "j * tp_leaf_arity c < m" using lt unfolding 0 level_span_leaf m_def .
    then have "m - j * tp_leaf_arity c = m - 1 - j * tp_leaf_arity c + 1" by linarith
    then show ?thesis
      unfolding first_segment_def last_segment_def level_span_leaf m_def [symmetric]
      by (simp add: children_def fan_in_def m_def)
  qed simp
qed

lemma leaf_request_checked:
  assumes ok: "plan_ok c" and r: "request_ok c (LeafProveReq q)"
    and limit: "tp_leaf_arity c \<le> bk_max_children_leaf (we_backend env)"
    and env: "we_available env Job_Leaf" "\<forall>b \<in> set (lpr_app_proofs q). is_ok (bk_decode_proof (we_backend env) b)"
  shows "\<exists>task. request_task env (LeafProveReq q) = ((200, ''Work completed''), Some task) \<and>
     job_checked (we_backend env) task"
proof -
  obtain j where j: "j < level_count c (Suc 0)" and q: "lpr_segment_start q = first_segment c (Suc 0) j"
      "lpr_segment_end q = last_segment c (Suc 0) j" "length (lpr_app_proofs q) = length (children c 0 j)"
    using r by auto
  obtain ps where ps: "collect_outcomes (bk_decode_proof (we_backend env)) (lpr_app_proofs q) = Ok ps"
      "length ps = length (children c 0 j)"
    using collect_outcomes_ok [OF env(2)] q(3) by metis
  have n: "ps \<noteq> []" "length ps \<le> bk_max_children_leaf (we_backend env)"
    "length ps = lpr_segment_end q - lpr_segment_start q + 1" "lpr_segment_start q \<le> lpr_segment_end q"
    using group_segments [OF ok j] ps(2) limit q by (auto simp: fan_in_def)
  show ?thesis using ps(1) env(1) n
    by (simp add: accept_leaf_def validate_leaf_job_def Let_def guard_err_def)
qed

lemma internal_request_checked:
  assumes ok: "plan_ok c" and r: "request_ok c (InternalProveReq q)"
    and limit: "tp_internal_arity c \<le> bk_max_children_internal (we_backend env)"
    and env: "we_available env Job_Internal" "\<forall>b \<in> set (ipr_child_proofs q). is_ok (bk_decode_proof (we_backend env) b)"
  shows "\<exists>task. request_task env (InternalProveReq q) = ((200, ''Work completed''), Some task) \<and>
     job_checked (we_backend env) task"
proof -
  let ?l = "Suc (ipr_layer_idx q)"
  obtain j where j: "j < level_count c (Suc ?l)" and q: "ipr_segment_start q = first_segment c (Suc ?l) j"
      "ipr_segment_end q = last_segment c (Suc ?l) j" "length (ipr_child_proofs q) = length (children c ?l j)"
    using r by auto
  obtain ps where ps: "collect_outcomes (bk_decode_proof (we_backend env)) (ipr_child_proofs q) = Ok ps"
      "length ps = length (children c ?l j)"
    using collect_outcomes_ok [OF env(2)] q(3) by metis
  have n: "ps \<noteq> []" "length ps \<le> bk_max_children_internal (we_backend env)"
    "ipr_segment_start q \<le> ipr_segment_end q"
    using group_segments [OF ok j] ps(2) limit q by (auto simp: fan_in_def)
  have "ipr_is_final_proof q \<longleftrightarrow> ipr_layer_idx q = final_layer c" using r unfolding request_ok.simps by blast
  then have "ipr_is_final_proof q \<longrightarrow> 1 \<le> ipr_layer_idx q" using final_layer_pos [of c] by simp
  then show ?thesis using ps(1) env(1) n
    by (simp add: accept_internal_def validate_internal_job_def Let_def guard_err_def)
qed

fun request_proofs :: "general_prove_request \<Rightarrow> bytes list" where
  "request_proofs (LeafProveReq r) = lpr_app_proofs r"
| "request_proofs (InternalProveReq r) = ipr_child_proofs r"
| "request_proofs (EvmProveReq r) = []"

section \<open>Properties\<close>

text \<open>C16. Requests pass the checks of the worker: in every run of a job, each request that the manager emits is
  accepted with status 200 by a worker that has a free prover and can decode its proofs, and the prover's own
  checks of the job hold: children, in the number of its segment range and below the limit of its circuit, a
  proper range, and a final proof above layer 0. The arities configured at the manager must not exceed the
  limits of the circuits.\<close>

theorem manager_requests_pass_worker_checks:
  assumes "plan_ok c" "job_run c b J" "r \<in> set (jb_requests J)"
    and "tp_leaf_arity c \<le> bk_max_children_leaf (we_backend env)"
    and "tp_internal_arity c \<le> bk_max_children_internal (we_backend env)"
    and "\<forall>k. we_available env k" "\<forall>p \<in> set (request_proofs r). is_ok (bk_decode_proof (we_backend env) p)"
  shows "\<exists>task. request_task env r = ((200, ''Work completed''), Some task) \<and> job_checked (we_backend env) task"
proof -
  have r: "request_ok c r" using job_run_inv [OF assms(1,2)] assms(3) by (simp add: job_inv_def)
  show ?thesis
  proof (cases r)
    case (LeafProveReq q)
    show ?thesis unfolding LeafProveReq
      by (rule leaf_request_checked [OF assms(1) _ assms(4)]) (use r assms(6,7) LeafProveReq in auto)
  next
    case (InternalProveReq q)
    show ?thesis unfolding InternalProveReq
      by (rule internal_request_checked [OF assms(1) _ assms(5)]) (use r assms(6,7) InternalProveReq in auto)
  qed simp
qed

theorem manager_requests_pass_worker_checks_witness:
  "\<exists>task. request_task demo_worker_env (hd (jb_requests demo_job)) = ((200, ''Work completed''), Some task) \<and>
     job_checked (we_backend demo_worker_env) task"
proof (rule manager_requests_pass_worker_checks [OF plan_ok_demo job_run_demo])
  have "jb_requests demo_job \<noteq> []" by code_simp
  then show "hd (jb_requests demo_job) \<in> set (jb_requests demo_job)" by simp
  show "\<forall>p \<in> set (request_proofs (hd (jb_requests demo_job))). is_ok (bk_decode_proof (we_backend demo_worker_env) p)"
    by code_simp
qed (simp_all add: demo_plan_def demo_worker_env_def demo_backend_def)

text \<open>C5. Answers fit: whatever a worker with the provers of its pools posts for a request, whichever threads run
  it and however they fail, carries the identifier of the request's proof and is an error report or an answer
  to that request: the right step, layer and segment range, a payload, and for the last request of an EVM job a
  proof that is ready for the EVM step.\<close>

theorem posts_answer_their_request:
  assumes "we_decode_request env body = Inr envelope"
    and "handle_recursion_prove (with_prover_pool clk picks env) body = (resp, Some task)"
    and "(u, x) \<in> set (new_posts st (run_recursion_task (with_prover_pool clk picks env) task st))"
  shows "u = pc_proof_uuid (request_context (me_message envelope)) \<and>
    (answers (me_message envelope) x \<or> (\<exists>e. x = ErrorRes e))"
proof -
  let ?env = "with_prover_pool clk picks env"
  have "request_task ?env (me_message envelope) = (resp, Some task)"
    using handle_recursion_prove_task [of ?env body envelope] assms(1,2) by simp
  then have "(u, x) \<in> set (pooled_posts (clk, picks, env, st) (me_message envelope))"
    using assms(3) by (simp add: request_posts_def)
  then show ?thesis using pooled.posts_addressed pooled.posts_answer by blast
qed

definition demo_picks :: "(nat, nat, nat, nat, nat deferral_merkle_proofs, nat) pool_picks" where
  "demo_picks =
     \<lparr>pp_leaf = (\<lambda>j. Inr (''leaf-prover-0'', demo_inner, \<lparr>sh_app_jobs_total = 0, sh_app_swaps_total = 0, sh_active_leaf_jobs = []\<rparr>)),
      pp_internal = (\<lambda>j. Inr (''internal-prover-0'',
        \<lparr>ii_internal_for_leaf_prover = demo_inner, ii_internal_recursive_prover = demo_inner\<rparr>,
        \<lparr>sh_app_jobs_total = 0, sh_app_swaps_total = 0, sh_active_leaf_jobs = []\<rparr>)),
      pp_root = (\<lambda>j. Inl ''none''), pp_halo2 = (\<lambda>j. Inl ''none'')\<rparr>"

definition demo_requests_env ::
  "(nat, nat, nat, nat, nat, string, bytes, nat, nat, nat, nat, nat) worker_env" where
  "demo_requests_env = demo_worker_env\<lparr>we_decode_request := (\<lambda>b. Inr
     \<lparr>me_timestamp = 0, me_message_id = [], me_message = InternalProveReq demo_internal_request\<rparr>)\<rparr>"

definition demo_pooled_env ::
  "(nat, nat, nat, nat, nat, string, bytes, nat, nat, nat, nat, nat) worker_env" where
  "demo_pooled_env = with_prover_pool demo_stop_watch demo_picks demo_requests_env"

definition demo_pooled_task :: "(nat, nat) recursion_task" where
  "demo_pooled_task = the (snd (handle_recursion_prove demo_pooled_env []))"

lemma demo_pooled_accepts: "handle_recursion_prove demo_pooled_env [] = ((200, ''Work completed''), Some demo_pooled_task)"
  by code_simp

lemma demo_decodes:
  "we_decode_request demo_requests_env [] = Inr \<lparr>me_timestamp = 0, me_message_id = [], me_message = InternalProveReq demo_internal_request\<rparr>"
  by (simp add: demo_requests_env_def)

theorem posts_answer_their_request_witness:
  "\<exists>x. new_posts demo_worker_state (run_recursion_task demo_pooled_env demo_pooled_task demo_worker_state) = [(''p1'', x)] \<and>
     (answers (InternalProveReq demo_internal_request) x \<or> (\<exists>e. x = ErrorRes e))"
proof -
  let ?posts = "new_posts demo_worker_state (run_recursion_task demo_pooled_env demo_pooled_task demo_worker_state)"
  have "map fst ?posts = [''p1'']" by code_simp
  then obtain x where p: "?posts = [(''p1'', x)]" by auto
  then show ?thesis
    using posts_answer_their_request [OF demo_decodes demo_pooled_accepts [unfolded demo_pooled_env_def],
        of "''p1''" x demo_worker_state] by (simp add: demo_pooled_env_def)
qed

text \<open>C10. Accepted work is reported: a request to prove is answered with status 200 exactly when a task is left
  behind; the task of an accepted request posts at least one result, whatever the pools do (an error, a panic, an
  exhausted retry), and all of them for the proof of the request. Only an encoder that fails or a codec that
  panics could keep it silent.\<close>

theorem accepted_work_is_reported:
  assumes "codecs_return env" "we_decode_request env body = Inr envelope"
    and "handle_recursion_prove (with_prover_pool clk picks env) body = ((status, msg), t)"
  shows "(status = 200 \<longleftrightarrow> t \<noteq> None) \<and>
    (\<forall>task. t = Some task \<longrightarrow> reports (pc_proof_uuid (request_context (me_message envelope))) st
       (run_recursion_task (with_prover_pool clk picks env) task st))"
proof -
  have t: "request_task (with_prover_pool clk picks env) (me_message envelope) = ((status, msg), t)"
    using handle_recursion_prove_task [of "with_prover_pool clk picks env" body envelope] assms(2,3) by simp
  have "reports (pc_proof_uuid (request_context (me_message envelope))) st
       (run_recursion_task (with_prover_pool clk picks env) task st)" if "t = Some task" for task
    using task_reports [OF pooled_dependable [OF assms(1)], where task = task and st = st]
      request_task_uuid [OF t [unfolded that]] by simp
  then show ?thesis using request_task_status [OF t] by simp
qed

theorem accepted_work_is_reported_witness:
  "reports ''p1'' demo_worker_state (run_recursion_task demo_pooled_env demo_pooled_task demo_worker_state)"
proof -
  have "codecs_return demo_requests_env"
    by (auto simp: codecs_return_def encodes_all_def never_panics_def demo_requests_env_def demo_worker_env_def
        demo_network_def demo_backend_def)
  from accepted_work_is_reported [OF this demo_decodes demo_pooled_accepts [unfolded demo_pooled_env_def], of demo_worker_state]
  show ?thesis by (simp add: demo_pooled_env_def demo_internal_request_def demo_evm_context_def proof_context_new_def)
qed


text \<open>A job of one segment: its inputs arrive, and the small worker serves the leaf request.\<close>

type_synonym demo_condition =
  "(nat \<Rightarrow> measured) \<times> (nat, nat, nat, nat, nat deferral_merkle_proofs, nat) pool_picks \<times>
     (nat, nat, nat, nat, nat, string, bytes, nat, nat, nat, nat, nat) worker_env \<times> worker_state"

definition demo_fed_job :: job where
  "demo_fed_job = deliver Mock_Provers demo_clock (demo_envelope (demo_e2 1))
     (deliver Mock_Provers demo_clock (demo_envelope (demo_app 0)) \<lparr>jb_state = demo_state Stark 1 2, jb_requests = []\<rparr>)"

definition demo_posts :: "general_prove_request \<Rightarrow> (string \<times> proof_result) list" where
  "demo_posts = pooled_posts (demo_stop_watch, demo_picks, demo_requests_env, demo_worker_state)"

definition demo_served_job :: job where
  "demo_served_job = deliver Mock_Provers demo_clock
     (demo_envelope (snd (hd (demo_posts (hd (jb_requests demo_fed_job)))))) demo_fed_job"

lemma demo_fed_served: "served_run pooled_posts demo_plan Mock_Provers demo_fed_job"
proof -
  let ?J = "\<lparr>jb_state = demo_state Stark 1 2, jb_requests = []\<rparr>"
  have "fresh_state demo_plan (demo_state Stark 1 2)"
    by (simp add: fresh_state_def demo_state_def proof_state_new_def demo_plan_def)
  then have "served_run pooled_posts demo_plan Mock_Provers ?J" by (rule served_start)
  moreover have "job_input demo_plan (jb_state ?J) (me_message (demo_envelope (demo_app 0)))" by code_simp
  ultimately have "served_run pooled_posts demo_plan Mock_Provers
      (deliver Mock_Provers demo_clock (demo_envelope (demo_app 0)) ?J)" by (rule served_input)
  moreover have "job_input demo_plan (jb_state (deliver Mock_Provers demo_clock (demo_envelope (demo_app 0)) ?J))
      (me_message (demo_envelope (demo_e2 1)))" by code_simp
  ultimately show ?thesis unfolding demo_fed_job_def by (rule served_input)
qed

lemma demo_served:
  "served_run (pooled_posts :: demo_condition \<Rightarrow> _) demo_plan Mock_Provers demo_served_job"
  unfolding demo_served_job_def
proof (rule served_post [OF demo_fed_served])
  let ?req = "hd (jb_requests demo_fed_job)"
  have "jb_requests demo_fed_job \<noteq> []" by code_simp
  then show "?req \<in> set (jb_requests demo_fed_job)" by simp
  have p: "map fst (demo_posts ?req) = [''p1'']" by code_simp
  then have "hd (demo_posts ?req) \<in> set (demo_posts ?req)" by (cases "demo_posts ?req") auto
  then show "(fst (hd (demo_posts ?req)), me_message (demo_envelope (snd (hd (demo_posts ?req)))))
      \<in> set (pooled_posts (demo_stop_watch, demo_picks, demo_requests_env, demo_worker_state) ?req)"
    by (simp add: demo_envelope_def demo_posts_def del: pooled_posts.simps)
  show "is_internal_result (me_message (demo_envelope (snd (hd (demo_posts ?req))))) \<longrightarrow>
      ps_num_segments (jb_state demo_fed_job) \<noteq> None" by code_simp
qed


end
