(* ===== verification/Service_Progress.thy ===== *)
theory Service_Progress
  imports Worker_Contract
begin

text \<open>
  Progress of a served job: the contract of \<open>Worker_Contract\<close> says that workers answer rightly or report an error;
  \<open>answering_worker\<close> adds that able workers do answer. Under it a job whose inputs have arrived cannot get stuck, and it
  is finished after at most as many answers as its tree has nodes, whatever the order of service. Workers whose
  backend, codecs, pools and network do not fail are able.
\<close>

section \<open>What is left to do\<close>

definition inputs_delivered :: "tree_plan \<Rightarrow> job \<Rightarrow> bool" where
  "inputs_delivered c J \<longleftrightarrow> ps_num_segments (jb_state J) \<noteq> None \<and>
     (\<forall>i < tp_segments c. map_of (ps_app_proofs (jb_state J)) i \<noteq> None)"

definition tree_nodes :: "tree_plan \<Rightarrow> (nat \<times> nat) set" where
  "tree_nodes c = (SIGMA l : {1..top_level c}. {..<level_count c l})"

definition open_nodes :: "tree_plan \<Rightarrow> job \<Rightarrow> (nat \<times> nat) set" where
  "open_nodes c J = {(l, i) \<in> tree_nodes c. \<not> item_stored (jb_state J) l i}"

definition work_left :: "tree_plan \<Rightarrow> job \<Rightarrow> nat" where
  "work_left c J = card (open_nodes c J) + (if ps_evm_proof (jb_state J) = None then 1 else 0)"

lemma finite_open_nodes [simp]: "finite (open_nodes c J)"
proof -
  have "finite (tree_nodes c)" unfolding tree_nodes_def by (intro finite_SigmaI) simp_all
  then show ?thesis unfolding open_nodes_def by (rule rev_finite_subset) auto
qed

lemma card_tree_nodes: "card (tree_nodes c) = (\<Sum>l = 1..top_level c. level_count c l)"
  unfolding tree_nodes_def by (subst card_SigmaI) simp_all

lemma work_left_le: "work_left c J \<le> (\<Sum>l = 1..top_level c. level_count c l) + 1"
proof -
  have "finite (tree_nodes c)" unfolding tree_nodes_def by (intro finite_SigmaI) simp_all
  then have "card (open_nodes c J) \<le> card (tree_nodes c)" by (rule card_mono) (auto simp: open_nodes_def)
  then show ?thesis unfolding work_left_def card_tree_nodes by (cases "ps_evm_proof (jb_state J)") simp_all
qed

text \<open>A request that has not been answered asks for an open node, or for the EVM proof.\<close>

lemma unanswered_request:
  assumes ok: "plan_ok c" and inv: "job_inv c J" and r: "r \<in> set (jb_requests J)"
    and un: "\<not> request_answered (jb_state J) r"
  shows "(\<exists>n \<in> open_nodes c J. request_items c r = [n]) \<and> \<not> is_evm_request r \<or>
    is_evm_request r \<and> request_items c r = [] \<and> ps_evm_proof (jb_state J) = None"
proof -
  have rok: "request_ok c r" and ar: "ps_leaf_arity (jb_state J) = tp_leaf_arity c"
      "ps_internal_arity (jb_state J) = tp_internal_arity c"
    using inv r by (auto simp: job_inv_def state_ok_def)
  show ?thesis
  proof (cases r)
    case (LeafProveReq q)
    then obtain j where j: "j < level_count c (Suc 0)" "lpr_segment_start q = first_segment c (Suc 0) j"
      using rok by auto
    then have "map_of (ps_leaf_proofs (jb_state J)) (j * tp_leaf_arity c) = None"
      using un LeafProveReq by (simp add: first_segment_def level_span_leaf del: level_span.simps)
    then have "(Suc 0, j) \<in> open_nodes c J" using j(1) ar top_level_gr [of c] by (simp add: open_nodes_def tree_nodes_def)
    then show ?thesis using LeafProveReq j leaf_idx_first_segment [OF ok] by (simp add: is_evm_request_def)
  next
    case (InternalProveReq q)
    let ?k = "ipr_layer_idx q"
    obtain j where j: "j < level_count c (Suc (Suc ?k))" "?k \<le> final_layer c"
        "ipr_segment_start q = first_segment c (Suc (Suc ?k)) j"
      using rok InternalProveReq by auto
    have idx: "segment_start_to_internal_idx_with_batch (ipr_segment_start q) ?k (tp_leaf_arity c) (tp_internal_arity c) = j"
      using j(3) internal_idx_first_segment [OF ok] by simp
    then have "map_of (ps_internal_proofs (jb_state J)) \<lparr>ipi_layer_idx = ?k, ipi_idx = j\<rparr> = None"
      using un InternalProveReq ar by simp
    then have "(Suc (Suc ?k), j) \<in> open_nodes c J"
      using j(1,2) by (simp add: open_nodes_def tree_nodes_def top_level_def del: level_count.simps)
    then show ?thesis using InternalProveReq idx by (simp add: is_evm_request_def del: level_count.simps)
  next
    case (EvmProveReq q)
    then show ?thesis using un by (simp add: is_evm_request_def)
  qed
qed

lemma answer_reduces:
  assumes ok: "plan_ok c" and inv: "job_inv c J" and r: "r \<in> set (jb_requests J)"
    and un: "\<not> request_answered (jb_state J) r" and eff: "answer_effect c r (jb_state J) (jb_state J')"
  shows "work_left c J' < work_left c J"
proof -
  have it: "item_stored (jb_state J') m x \<longleftrightarrow> item_stored (jb_state J) m x \<or> (m, x) \<in> set (request_items c r)" for m x
    using eff by (simp add: answer_effect_def)
  have evm: "ps_evm_proof (jb_state J') = None \<longleftrightarrow> ps_evm_proof (jb_state J) = None \<and> \<not> is_evm_request r"
    using eff by (simp add: answer_effect_def)
  have nodes: "open_nodes c J' = open_nodes c J - set (request_items c r)"
    by (auto simp: open_nodes_def it)
  from unanswered_request [OF ok inv r un] show ?thesis
  proof
    assume "(\<exists>n \<in> open_nodes c J. request_items c r = [n]) \<and> \<not> is_evm_request r"
    then obtain n where n: "n \<in> open_nodes c J" "request_items c r = [n]" "\<not> is_evm_request r" by blast
    have "open_nodes c J' = open_nodes c J - {n}" by (simp add: nodes n(2))
    then have "card (open_nodes c J') < card (open_nodes c J)"
      using card_Diff1_less [OF finite_open_nodes n(1)] by simp
    then show ?thesis using evm n(3) by (simp add: work_left_def)
  next
    assume e: "is_evm_request r \<and> request_items c r = [] \<and> ps_evm_proof (jb_state J) = None"
    then have "card (open_nodes c J') = card (open_nodes c J)" by (simp add: nodes)
    then show ?thesis using e evm by (auto simp: work_left_def)
  qed
qed

section \<open>Service\<close>

text \<open>One step of service: an unsealed job gets an answer that a worker has posted for a request still open.\<close>

inductive serve_step ::
  "('w \<Rightarrow> general_prove_request \<Rightarrow> (string \<times> proof_result) list) \<Rightarrow> build \<Rightarrow> job \<Rightarrow> job \<Rightarrow> bool"
  for posts b where
  serve: "\<not> is_sealed_for_results (jb_state J) \<Longrightarrow> req \<in> set (jb_requests J) \<Longrightarrow>
    \<not> request_answered (jb_state J) req \<Longrightarrow> (u, me_message env) \<in> set (posts w req) \<Longrightarrow> answers req (me_message env) \<Longrightarrow>
    serve_step posts b J (deliver b ck env J)"

inductive_cases serve_stepE: "serve_step posts b J J'"

definition serving :: "tree_plan \<Rightarrow> build \<Rightarrow> job \<Rightarrow> bool" where
  "serving c b J \<longleftrightarrow> job_run c b J \<and> inputs_delivered c J"

lemma serve_step_run:
  assumes ok: "plan_ok c" and J: "serving c b J" and step: "serve_step posts b J J'"
  shows "serving c b J'" "work_left c J' < work_left c J"
proof -
  have inv: "job_inv c J" and known: "ps_num_segments (jb_state J) \<noteq> None"
    using J job_run_inv [OF ok] by (auto simp: serving_def inputs_delivered_def)
  obtain req u env w ck where s: "J' = deliver b ck env J" "\<not> is_sealed_for_results (jb_state J)"
    "req \<in> set (jb_requests J)" "\<not> request_answered (jb_state J) req" "answers req (me_message env)"
    using step by (auto elim: serve_stepE)
  have run: "job_run c b J'" using J known s by (auto simp: serving_def intro: job_run.answer)
  have eff: "answer_effect c req (jb_state J) (jb_state J')"
    using deliver_answer [OF ok, of "jb_state J" "jb_requests J" req env b ck] inv s known by (cases J) simp
  then have "inputs_delivered c J'"
    using J unfolding serving_def inputs_delivered_def answer_effect_def
    by (metis item_stored.simps(1))
  then show "serving c b J'" using run by (simp add: serving_def)
  show "work_left c J' < work_left c J" by (rule answer_reduces [OF ok inv s(3,4) eff])
qed

lemma serve_steps_bounded:
  assumes ok: "plan_ok c"
  shows "serving c b J0 \<Longrightarrow> (serve_step posts b ^^ n) J0 J \<Longrightarrow> serving c b J \<and> n + work_left c J \<le> work_left c J0"
proof (induction n arbitrary: J)
  case (Suc n)
  then obtain J1 where J1: "(serve_step posts b ^^ n) J0 J1" "serve_step posts b J1 J" by auto
  then have "serving c b J1" "n + work_left c J1 \<le> work_left c J0" using Suc by auto
  with serve_step_run [OF ok _ J1(2)] show ?case by fastforce
qed simp

text \<open>A job with nothing left to serve is ready: \<open>all_answered\<close> of \<open>Job_Run\<close>.\<close>

lemma served_out_ready:
  assumes ok: "plan_ok c" and J: "serving c b J"
    and out: "is_sealed_for_results (jb_state J) \<or> (\<forall>r \<in> set (jb_requests J). request_answered (jb_state J) r)"
  shows "is_ready_for_finalization (jb_state J)"
  using out
proof
  assume "is_sealed_for_results (jb_state J)"
  then show ?thesis using J job_run_inv [OF ok]
    by (auto simp: is_sealed_for_results_def serving_def job_inv_def state_ok_def)
next
  assume "\<forall>r \<in> set (jb_requests J). request_answered (jb_state J) r"
  then have "all_answered c J" using J by (simp add: all_answered_def serving_def inputs_delivered_def)
  then show ?thesis using all_answered_ready [OF ok] job_run_inv [OF ok] J by (auto simp: serving_def)
qed

section \<open>Able workers\<close>

text \<open>A worker that is able to serve a request well formed for the plan \<open>c\<close> posts an answer to it.\<close>

locale answering_worker = proving_worker posts
  for posts :: "'w \<Rightarrow> general_prove_request \<Rightarrow> (string \<times> proof_result) list" +
  fixes c :: tree_plan and able :: "'w \<Rightarrow> general_prove_request \<Rightarrow> bool"
  assumes able_answers: "request_ok c req \<Longrightarrow> able w req \<Longrightarrow> \<exists>u x. (u, x) \<in> set (posts w req) \<and> answers req x"
begin

lemma can_serve:
  assumes ok: "plan_ok c" and J: "serving c b J"
    and able: "\<And>req. req \<in> set (jb_requests J) \<Longrightarrow> \<exists>w. able w req"
  shows "is_ready_for_finalization (jb_state J) \<or> (\<exists>J'. serve_step posts b J J')"
proof (cases "is_sealed_for_results (jb_state J) \<or> (\<forall>r \<in> set (jb_requests J). request_answered (jb_state J) r)")
  case True
  then show ?thesis using served_out_ready [OF ok J] by blast
next
  case False
  then obtain req where req: "req \<in> set (jb_requests J)" "\<not> request_answered (jb_state J) req"
    "\<not> is_sealed_for_results (jb_state J)" by blast
  obtain w where w: "able w req" using able [OF req(1)] by blast
  have "request_ok c req" using J req(1) job_run_inv [OF ok] by (auto simp: serving_def job_inv_def)
  then obtain u x where x: "(u, x) \<in> set (posts w req)" "answers req x" using able_answers w by blast
  let ?env = "\<lparr>me_timestamp = 0, me_message_id = [], me_message = x\<rparr>"
  have "serve_step posts b J (deliver b ck ?env J)" for ck
    by (rule serve [OF req(3,1,2)]) (use x in auto)
  then show ?thesis by blast
qed

lemma service_finishes:
  assumes ok: "plan_ok c" and J: "serving c b J0" and steps: "(serve_step posts b ^^ n) J0 J"
    and able: "\<And>req. req \<in> set (jb_requests J) \<Longrightarrow> \<exists>w. able w req"
  shows "n \<le> (\<Sum>l = 1..top_level c. level_count c l) + 1 \<and>
    (is_ready_for_finalization (jb_state J) \<or> (\<exists>J'. serve_step posts b J J'))"
proof -
  have "serving c b J" "n + work_left c J \<le> work_left c J0" using serve_steps_bounded [OF ok J steps] by simp_all
  then show ?thesis using can_serve [OF ok _ able] work_left_le [of c J0] by (meson add_leD1 le_trans)
qed

end

section \<open>The workers of the model are able\<close>

text \<open>A backend whose provers and encoders do not fail.\<close>

definition backend_proves :: "('p, 'u, 'k, 'd, 'm, 'r, 'e) backend \<Rightarrow> bool" where
  "backend_proves bk \<longleftrightarrow>
     (\<forall>p ps k. is_ok (bk_agg_prove_no_def bk p ps k)) \<and> (\<forall>x. is_ok (bk_encode_proof bk x)) \<and>
     (\<forall>i p n f. is_ok (bk_root_prove bk i p n f)) \<and>
     (\<forall>r. \<exists>b r'. bk_encode_root bk r = Ok b \<and> bk_decode_root bk b = Ok r') \<and>
     (\<forall>i r. is_ok (bk_prove_for_evm bk i r)) \<and> (\<forall>e. is_ok (bk_encode_evm bk e))"

definition picks_a_thread :: "('j \<Rightarrow> string + 'x) \<Rightarrow> bool" where
  "picks_a_thread pick \<longleftrightarrow> (\<forall>j. \<exists>x. pick j = Inr x)"

text \<open>What a request needs beside the provers: its payloads decode; the tail of a deferral proof can be merged; and an
  EVM step finds the EVM keys and the user public values in the proof that was handed over.\<close>

fun payload_served ::
  "('p, 'u, 'm, 'k, 'd, 'x, 'f, 'h, 'j, 'n, 'r, 'e) worker_env \<Rightarrow> worker_state \<Rightarrow> general_prove_request \<Rightarrow> bool" where
  "payload_served env st (LeafProveReq r) = True"
| "payload_served env st (InternalProveReq r) =
     (\<forall>label relabel tail b. ipr_deferral_tail r = Some tail \<longrightarrow>
        (\<exists>st' m k. merge_and_encode env label relabel (pc_proof_uuid (ipr_context r)) (ipr_context r) b tail st = (st', Ok (m, k))))"
| "payload_served env st (EvmProveReq r) =
     ((\<exists>a. Option.bind (we_store env) st_edge_artifacts = Some a \<and> art_evm a \<noteq> None) \<and>
      (\<exists>p m. decode_evm_request env r = Ok (p, m) \<and> tp_user_public_values p \<noteq> None))"

type_synonym ('p, 'u, 'm, 'k, 'd, 'x, 'f, 'h, 'j, 'n, 'r, 'e) worker_condition =
  "(nat \<Rightarrow> measured) \<times> ('p, 'u, 'k, 'd, 'n deferral_merkle_proofs, 'r) pool_picks \<times>
     ('p, 'u, 'm, 'k, 'd, 'x, 'f, 'h, 'j, 'n, 'r, 'e) worker_env \<times> worker_state"

fun able_worker ::
  "tree_plan \<Rightarrow> ('p, 'u, 'm, 'k, 'd, 'x, 'f, 'h, 'j, 'n, 'r, 'e) worker_condition \<Rightarrow> general_prove_request \<Rightarrow> bool" where
  "able_worker c (clk, picks, env, st) req \<longleftrightarrow>
     plan_ok c \<and> tp_leaf_arity c \<le> bk_max_children_leaf (we_backend env) \<and>
     tp_internal_arity c \<le> bk_max_children_internal (we_backend env) \<and>
     backend_proves (we_backend env) \<and> encodes_all (we_network env) \<and> (\<forall>k. we_available env k) \<and>
     picks_a_thread (pp_leaf picks) \<and> picks_a_thread (pp_internal picks) \<and>
     picks_a_thread (pp_root picks) \<and> picks_a_thread (pp_halo2 picks) \<and>
     (\<forall>p \<in> set (request_proofs req). is_ok (bk_decode_proof (we_backend env) p)) \<and>
     payload_served (with_prover_pool clk picks env) st req"

lemma is_ok_Ex: "is_ok r \<longleftrightarrow> (\<exists>x. r = Ok x)"
  by (cases r) simp_all

lemma backend_provesD:
  assumes "backend_proves bk"
  shows "\<exists>q. bk_agg_prove_no_def bk p ps k = Ok q" "\<exists>b. bk_encode_proof bk x = Ok b" "\<exists>r. bk_root_prove bk i v n f = Ok r"
    "\<exists>b r'. bk_encode_root bk r = Ok b \<and> bk_decode_root bk b = Ok r'" "\<exists>e. bk_prove_for_evm bk h r = Ok e"
    "\<exists>b. bk_encode_evm bk e = Ok b"
  using assms by (simp_all add: backend_proves_def is_ok_Ex)

lemma picksE:
  assumes "picks_a_thread pick"
  obtains name inst w where "pick j = Inr (name, inst, w)"
  using assms unfolding picks_a_thread_def by (metis prod_cases3)

lemma posts_one: "encodes_all (we_network env) \<Longrightarrow> new_posts st (post_results env u [r] st) = [(u, r)]"
  using post_one_new [of st env u r] by auto

section \<open>Leaf requests\<close>

lemma prove_leaf_ok:
  assumes "backend_proves bk" "validate_leaf_job bk j = Ok ()"
  shows "\<exists>rs. prove_leaf bk clk j inst = Ok (ProverSuccess rs)"
proof -
  obtain q where q: "bk_agg_prove_no_def bk inst (map tp_proof (lj_app_proofs j)) Child_App = Ok q"
    using backend_provesD(1) [OF assms(1)] by blast
  obtain b where "bk_encode_proof bk \<lparr>tp_proof = q,
      tp_user_public_values = Option.bind (last_option (lj_app_proofs j)) tp_user_public_values\<rparr> = Ok b"
    using backend_provesD(2) [OF assms(1)] by blast
  then show ?thesis by (simp add: prove_leaf_def prove_leaf_impl_def assms(2) q Let_def)
qed

lemma leaf_pool_ok:
  assumes "picks_a_thread pick" "backend_proves bk" "validate_leaf_job bk j = Ok ()"
  shows "\<exists>inst rs. pool_answer (leaf_kind bk clk cell) pick j = Ok (ProverSuccess rs) \<and>
    prove_leaf bk clk j inst = Ok (ProverSuccess rs)"
proof -
  obtain name inst w where p: "pick j = Inr (name, inst, w)" using assms(1) by (rule picksE)
  obtain rs where r: "prove_leaf bk clk j inst = Ok (ProverSuccess rs)" using prove_leaf_ok [OF assms(2,3)] by blast
  have "pool_answer (leaf_kind bk clk cell) pick j = Ok (ProverSuccess rs)"
    by (simp add: pool_answer_def p run_result_def leaf_kind_def leaf_run_def handle_panic_result_def r)
  then show ?thesis using r by blast
qed

lemma able_leaf:
  assumes req: "request_ok c (LeafProveReq q)" and able: "able_worker c (clk, picks, env, st) (LeafProveReq q)"
  shows "\<exists>u x. (u, x) \<in> set (pooled_posts (clk, picks, env, st) (LeafProveReq q)) \<and> answers (LeafProveReq q) x"
proof -
  let ?env = "with_prover_pool clk picks env"
  have a: "plan_ok c" "tp_leaf_arity c \<le> bk_max_children_leaf (we_backend ?env)" "we_available ?env Job_Leaf"
    "\<forall>b \<in> set (lpr_app_proofs q). is_ok (bk_decode_proof (we_backend ?env) b)"
    "backend_proves (we_backend env)" "encodes_all (we_network ?env)" "picks_a_thread (pp_leaf picks)"
    using able by simp_all
  obtain task where t: "request_task ?env (LeafProveReq q) = ((200, ''Work completed''), Some task)"
    "job_checked (we_backend ?env) task"
    using leaf_request_checked [OF a(1) req a(2-4)] by blast
  obtain u job where job: "task = Leaf_Task u job" "lj_context job = lpr_context q"
    "lj_segment_start job = lpr_segment_start q" "lj_segment_end job = lpr_segment_end q"
    using t(1) by (auto simp: accept_leaf_def split: if_splits outcome.splits)
  have "validate_leaf_job (we_backend env) job = Ok ()" using t(2) job(1) by simp
  then obtain inst rs where rs: "we_submit_leaf ?env job = Ok (ProverSuccess rs)"
    "prove_leaf (we_backend env) clk job inst = Ok (ProverSuccess rs)"
    using leaf_pool_ok [OF a(7,5)] unfolding with_prover_pool_submits by blast
  obtain s where s: "rs = [LeafRes (lj_context job) s]" "lps_proof s \<noteq> None"
    "lps_segment_start s = lj_segment_start job" "lps_segment_end s = lj_segment_end job"
    using prove_leaf_success [OF rs(2)] by blast
  have "request_posts ?env st (LeafProveReq q) = [(u, LeafRes (lj_context job) s)]"
    by (simp only: request_posts_def t(1) snd_conv option.case job(1) run_recursion_task.simps run_leaf_task_def rs(1)
        outcome.case prover_result.case s(1) posts_one [OF a(6)])
  then show ?thesis using s job by simp
qed

section \<open>Internal requests\<close>

lemma final_wrap_ok:
  assumes "backend_proves bk" "ij_is_final_proof j \<longrightarrow> 1 \<le> ij_layer_idx j"
  shows "\<exists>q w. final_wrap bk j p inst = Ok (q, w)"
proof -
  obtain q where "bk_agg_prove_no_def bk (ii_internal_recursive_prover inst) [p] Child_Recursive_Self = Ok q"
    using backend_provesD(1) [OF assms(1)] by blast
  then show ?thesis using assms(2) by (auto simp: final_wrap_def Let_def)
qed

lemma prove_internal_ok:
  assumes "backend_proves bk" "validate_internal_job bk j = Ok ()" "ij_is_final_proof j \<longrightarrow> 1 \<le> ij_layer_idx j"
  shows "\<exists>rs. prove_internal bk clk j inst = Ok (ProverSuccess rs)"
proof -
  obtain p where p: "internal_aggregate bk (ij_layer_idx j) (map tp_proof (ij_child_proofs j)) inst = Ok p"
    using backend_provesD(1) [OF assms(1)] unfolding internal_aggregate_def by metis
  obtain q w where q: "final_wrap bk j p inst = Ok (q, w)" using final_wrap_ok [OF assms(1,3)] by blast
  obtain b where "bk_encode_proof bk \<lparr>tp_proof = q,
      tp_user_public_values = find_map tp_user_public_values (rev (ij_child_proofs j))\<rparr> = Ok b"
    using backend_provesD(2) [OF assms(1)] by blast
  then show ?thesis by (simp add: prove_internal_def prove_internal_impl_def assms(2) p q Let_def)
qed

lemma internal_pool_ok:
  assumes "picks_a_thread pick" "backend_proves bk" "validate_internal_job bk j = Ok ()" "ij_is_final_proof j \<longrightarrow> 1 \<le> ij_layer_idx j"
  shows "\<exists>inst rs. pool_answer (internal_kind bk clk cell) pick j = Ok (ProverSuccess rs) \<and>
    prove_internal bk clk j inst = Ok (ProverSuccess rs)"
proof -
  obtain name inst w where p: "pick j = Inr (name, inst, w)" using assms(1) by (rule picksE)
  obtain rs where r: "prove_internal bk clk j inst = Ok (ProverSuccess rs)" using prove_internal_ok [OF assms(2-4)] by blast
  have "pool_answer (internal_kind bk clk cell) pick j = Ok (ProverSuccess rs)"
    by (simp add: pool_answer_def p run_result_def internal_kind_def r)
  then show ?thesis using r by blast
qed

text \<open>The two completions of a final proof post it, with other bytes.\<close>

lemma evm_prep_posts:
  assumes net: "encodes_all (we_network env)" and b: "ips_proof s = Some b"
    and merge: "\<And>tail. dtl = Some tail \<Longrightarrow> \<exists>st' m k. merge_and_encode env ''evm prep''
      (\<lambda>e. ''evm prep: deferral tail merge failed for '' @ u @ '': '' @ e) u ctx b tail st = (st', Ok (m, k))"
  shows "\<exists>m k. new_posts st (drive_evm_prep_and_post env u ctx [InternalRes c s] dtl d st) =
    [(u, InternalRes c (s\<lparr>ips_proof := Some m, ips_deferral_merkle_proofs_bytes := k, ips_ready_for_evm := True\<rparr>))]"
proof -
  obtain st1 m k where e: "evm_prep env u ctx (ips_proof s) dtl d st = (st1, Ok (m, k))"
  proof (cases dtl)
    case None
    then show ?thesis using that by (simp add: evm_prep_def b)
  next
    case (Some tail)
    obtain st' m k where "merge_and_encode env ''evm prep''
      (\<lambda>e. ''evm prep: deferral tail merge failed for '' @ u @ '': '' @ e) u ctx b tail st = (st', Ok (m, k))"
      using merge [OF Some] by blast
    then show ?thesis using that Some by (simp add: evm_prep_def b)
  qed
  have "drive_evm_prep_and_post env u ctx [InternalRes c s] dtl d st = post_results env u
      [InternalRes c (s\<lparr>ips_proof := Some m, ips_deferral_merkle_proofs_bytes := k, ips_ready_for_evm := True\<rparr>)] st1"
    by (simp add: drive_evm_prep_and_post_def find_internal_def e join_task_def)
  then show ?thesis using posts_one [OF net] new_posts_cong [OF evm_prep_outbox [OF e]] by metis
qed

lemma stark_merge_posts:
  assumes net: "encodes_all (we_network env)" and b: "ips_proof s = Some b"
    and merge: "\<exists>st' m k. merge_and_encode env ''stark deferral merge'' (\<lambda>e. e) u ctx b tail st = (st', Ok (m, k))"
  shows "\<exists>m k. new_posts st (drive_stark_deferral_merge_and_post env u ctx [InternalRes c s] (Some tail) st) =
    [(u, InternalRes c (s\<lparr>ips_proof := Some m, ips_deferral_merkle_proofs_bytes := Some k\<rparr>))]"
proof -
  obtain st1 m k where e: "merge_and_encode env ''stark deferral merge'' (\<lambda>e. e) u ctx b tail st = (st1, Ok (m, k))"
    using merge by blast
  have "drive_stark_deferral_merge_and_post env u ctx [InternalRes c s] (Some tail) st = post_results env u
      [InternalRes c (s\<lparr>ips_proof := Some m, ips_deferral_merkle_proofs_bytes := Some k\<rparr>)] st1"
    by (simp add: drive_stark_deferral_merge_and_post_def find_internal_def b e join_task_def)
  then show ?thesis using posts_one [OF net] new_posts_cong [OF merge_and_encode_outbox [OF e]] by metis
qed

lemma able_internal:
  assumes req: "request_ok c (InternalProveReq q)" and able: "able_worker c (clk, picks, env, st) (InternalProveReq q)"
  shows "\<exists>u x. (u, x) \<in> set (pooled_posts (clk, picks, env, st) (InternalProveReq q)) \<and> answers (InternalProveReq q) x"
proof -
  let ?env = "with_prover_pool clk picks env" and ?tl = "ipr_deferral_tail q" and ?ctx = "ipr_context q"
  let ?u = "pc_proof_uuid ?ctx"
  have a: "plan_ok c" "tp_internal_arity c \<le> bk_max_children_internal (we_backend ?env)" "we_available ?env Job_Internal"
    "\<forall>b \<in> set (ipr_child_proofs q). is_ok (bk_decode_proof (we_backend ?env) b)"
    "backend_proves (we_backend env)" "encodes_all (we_network ?env)" "picks_a_thread (pp_internal picks)"
    and merge: "\<And>label relabel tail b. ?tl = Some tail \<Longrightarrow> \<exists>st' m k. merge_and_encode ?env label relabel ?u ?ctx b tail st = (st', Ok (m, k))"
    using able by simp_all
  obtain task where t: "request_task ?env (InternalProveReq q) = ((200, ''Work completed''), Some task)"
    "job_checked (we_backend ?env) task"
    using internal_request_checked [OF a(1) req a(2-4)] by blast
  obtain job where job: "task = Internal_Task ?u job ?tl (ipr_deferral_merkle_proofs_bytes q)" "ij_context job = ?ctx"
    "ij_layer_idx job = ipr_layer_idx q" "ij_is_final_proof job = ipr_is_final_proof q"
    "ij_segment_start job = ipr_segment_start q" "ij_segment_end job = ipr_segment_end q"
    using t(1) by (auto simp: accept_internal_def split: if_splits outcome.splits)
  have "validate_internal_job (we_backend env) job = Ok ()" "ij_is_final_proof job \<longrightarrow> 1 \<le> ij_layer_idx job"
    using t(2) job(1) by simp_all
  then obtain inst rs where rs: "we_submit_internal ?env job = Ok (ProverSuccess rs)"
    "prove_internal (we_backend env) clk job inst = Ok (ProverSuccess rs)"
    using internal_pool_ok [OF a(7,5)] unfolding with_prover_pool_submits by blast
  obtain s where s: "rs = [InternalRes ?ctx s]"
    and fits: "internal_fits (ipr_layer_idx q) (ipr_segment_start q) (ipr_segment_end q) s"
    using prove_internal_success [OF rs(2)] job by auto
  obtain b where b: "ips_proof s = Some b" using fits by (auto simp: internal_fits_def)
  let ?stark = "ipr_is_final_proof q \<and> pc_proof_type ?ctx = Stark \<and> ?tl \<noteq> None"
  let ?evm = "ipr_is_final_proof q \<and> pc_proof_type ?ctx = Evm"
  have posts: "request_posts ?env st (InternalProveReq q) = new_posts st
      (if ?stark then drive_stark_deferral_merge_and_post ?env ?u ?ctx [InternalRes ?ctx s] ?tl st
       else if ?evm then drive_evm_prep_and_post ?env ?u ?ctx [InternalRes ?ctx s] ?tl (ipr_deferral_merkle_proofs_bytes q) st
       else post_results ?env ?u [InternalRes ?ctx s] st)"
    by (simp only: request_posts_def t(1) snd_conv option.case job(1) run_recursion_task.simps run_internal_task_def rs(1)
        outcome.case prover_result.case s job(2,4) Let_def)
  consider (stark) tail where "?stark" "?tl = Some tail" | (evm) "?evm" "\<not> ?stark" | (plain) "\<not> ?stark" "\<not> ?evm"
    by (cases ?tl) auto
  then show ?thesis
  proof cases
    case stark
    obtain m k where "new_posts st (drive_stark_deferral_merge_and_post ?env ?u ?ctx [InternalRes ?ctx s] (Some tail) st) =
        [(?u, InternalRes ?ctx (s\<lparr>ips_proof := Some m, ips_deferral_merkle_proofs_bytes := Some k\<rparr>))]"
      using stark_merge_posts [OF a(6) b merge [OF stark(2)]] by blast
    then have "request_posts ?env st (InternalProveReq q) =
        [(?u, InternalRes ?ctx (s\<lparr>ips_proof := Some m, ips_deferral_merkle_proofs_bytes := Some k\<rparr>))]"
      using posts stark by simp
    then show ?thesis using fits stark by (simp add: internal_fits_def)
  next
    case evm
    obtain m k where "new_posts st (drive_evm_prep_and_post ?env ?u ?ctx [InternalRes ?ctx s] ?tl (ipr_deferral_merkle_proofs_bytes q) st) =
        [(?u, InternalRes ?ctx (s\<lparr>ips_proof := Some m, ips_deferral_merkle_proofs_bytes := k, ips_ready_for_evm := True\<rparr>))]"
      using evm_prep_posts [OF a(6) b merge] by blast
    then have "request_posts ?env st (InternalProveReq q) =
        [(?u, InternalRes ?ctx (s\<lparr>ips_proof := Some m, ips_deferral_merkle_proofs_bytes := k, ips_ready_for_evm := True\<rparr>))]"
      using posts evm by simp
    then show ?thesis using fits evm by (simp add: internal_fits_def)
  next
    case plain
    have "request_posts ?env st (InternalProveReq q) = [(?u, InternalRes ?ctx s)]"
      unfolding posts if_not_P [OF plain(1)] if_not_P [OF plain(2)] by (rule posts_one [OF a(6)])
    then show ?thesis using fits plain by (simp add: internal_fits_def)
  qed
qed

section \<open>EVM requests\<close>

lemma root_pool_ok:
  assumes "picks_a_thread pick" "backend_proves bk" "tp_user_public_values (rj_final_internal_proof j) \<noteq> None"
  shows "\<exists>s b r. bind_outcome (pool_answer (root_kind bk clk cell) pick j) (\<lambda>r. r) = Ok s \<and> rps_proof s = Some b \<and>
    bk_decode_root bk b = Ok r"
proof -
  obtain name inst w where p: "pick j = Inr (name, inst, w)" using assms(1) by (rule picksE)
  obtain u where u: "tp_user_public_values (rj_final_internal_proof j) = Some u" using assms(3) by blast
  obtain r where r: "bk_root_prove bk (ri_root_prover inst)
         \<lparr>vs_inner = tp_proof (rj_final_internal_proof j), vs_user_pvs_proof = u,
          vs_deferral_merkle_proofs = rj_deferral_merkle_proofs j\<rparr> max_root_tracegen_retries
         (wrap_vm_stark_proof bk (ri_internal_recursive_prover inst) (rj_proof_has_deferral j)) = Ok r"
    using backend_provesD(3) [OF assms(2)] by blast
  obtain b r' where b: "bk_encode_root bk r = Ok b" "bk_decode_root bk b = Ok r'"
    using backend_provesD(4) [OF assms(2)] by blast
  have "prove_root bk clk j inst = Ok \<lparr>rps_proof = Some b, rps_prove_time_ms = ms_elapsed (clk 0), rps_sub_metrics = ms_timings (clk 0)\<rparr>"
    by (simp add: prove_root_def u r b(1))
  then show ?thesis using b(2) by (simp add: pool_answer_def p run_result_def root_kind_def catch_unwind_def)
qed

lemma halo2_pool_ok:
  assumes "picks_a_thread pick" "backend_proves bk"
  shows "\<exists>s. pool_answer (halo2_kind bk clk cell) pick j = Ok (ProverSuccess [EvmRes (hj_context j) s]) \<and> eps_proof s \<noteq> None"
proof -
  obtain name inst w where p: "pick j = Inr (name, inst, w)" using assms(1) by (rule picksE)
  obtain e b where e: "bk_prove_for_evm bk inst (hj_root_proof j) = Ok e" "bk_encode_evm bk e = Ok b"
    using backend_provesD(5,6) [OF assms(2)] by metis
  show ?thesis by (simp add: pool_answer_def p run_result_def halo2_kind_def prove_halo2_def prove_halo2_impl_def e)
qed

lemma able_evm:
  assumes able: "able_worker c (clk, picks, env, st) (EvmProveReq q)"
  shows "\<exists>u x. (u, x) \<in> set (pooled_posts (clk, picks, env, st) (EvmProveReq q)) \<and> answers (EvmProveReq q) x"
proof -
  let ?env = "with_prover_pool clk picks env" and ?u = "pc_proof_uuid (epr_context q)"
  have a: "backend_proves (we_backend env)" "encodes_all (we_network ?env)" "picks_a_thread (pp_root picks)"
    "picks_a_thread (pp_halo2 picks)" "payload_served ?env st (EvmProveReq q)"
    using able by simp_all
  obtain art p m where art: "Option.bind (we_store ?env) st_edge_artifacts = Some art" "art_evm art \<noteq> None"
    and dec: "decode_evm_request ?env q = Ok (p, m)" "tp_user_public_values p \<noteq> None"
    using a(5) by auto
  let ?job = "\<lparr>rj_context = epr_context q, rj_final_internal_proof = p, rj_deferral_merkle_proofs = m,
      rj_proof_has_deferral = epr_proof_has_deferral q\<rparr>"
  have "\<exists>s b r. we_submit_root ?env ?job = Ok s \<and> rps_proof s = Some b \<and> bk_decode_root (we_backend env) b = Ok r"
    unfolding with_prover_pool_submits by (rule root_pool_ok [OF a(3,1)]) (use dec(2) in simp)
  then obtain s b r where root: "we_submit_root ?env ?job = Ok s" "rps_proof s = Some b"
    "bk_decode_root (we_backend env) b = Ok r" by blast
  let ?hjob = "\<lparr>hj_context = epr_context q, hj_root_proof = r\<rparr>"
  have "\<exists>h. we_submit_halo2 ?env ?hjob = Ok (ProverSuccess [EvmRes (hj_context ?hjob) h]) \<and> eps_proof h \<noteq> None"
    unfolding with_prover_pool_submits by (rule halo2_pool_ok [OF a(4,1)])
  then obtain h where h: "we_submit_halo2 ?env ?hjob = Ok (ProverSuccess [EvmRes (epr_context q) h])" "eps_proof h \<noteq> None"
    by auto
  obtain x where x: "run_evm_prove ?env ?u (epr_context q) p m (epr_proof_has_deferral q) = Ok (EvmRes (epr_context q) x)"
    "eps_proof x \<noteq> None"
    using art root h by (simp add: run_evm_prove_def Let_def)
  have "request_posts ?env st (EvmProveReq q) = [(?u, EvmRes (epr_context q) x)]"
    using posts_one [OF a(2)] by (simp add: request_posts_def drive_evm_prove_from_request_def Let_def dec(1) x(1))
  then show ?thesis using x(2) by simp
qed

lemma able_worker_answers:
  assumes "request_ok c req" "able_worker c w req"
  shows "\<exists>u x. (u, x) \<in> set (pooled_posts w req) \<and> answers req x"
proof (cases w)
  case (fields clk picks env st)
  show ?thesis
  proof (cases req)
    case (LeafProveReq q)
    then show ?thesis using able_leaf assms unfolding fields by blast
  next
    case (InternalProveReq q)
    then show ?thesis using able_internal assms unfolding fields by blast
  next
    case (EvmProveReq q)
    then show ?thesis using able_evm assms unfolding fields by blast
  qed
qed

interpretation pooled_able: answering_worker pooled_posts c "able_worker c" for c
  by unfold_locales (rule able_worker_answers)

section \<open>Properties\<close>


text \<open>The small worker with threads in every pool serves the job of one segment.\<close>

definition demo_idle :: pool_shared where
  "demo_idle = \<lparr>sh_app_jobs_total = 0, sh_app_swaps_total = 0, sh_active_leaf_jobs = []\<rparr>"

definition demo_live_picks :: "(nat, nat, nat, nat, nat deferral_merkle_proofs, nat) pool_picks" where
  "demo_live_picks = demo_picks
     \<lparr>pp_root := (\<lambda>j. Inr (''root-prover-0'', \<lparr>ri_root_prover = \<lparr>sr_internal_recursive_vk = 0, sr_internal_recursive_vk_commit = 0,
         sr_root_pk = 0, sr_app_pk = 0, sr_def_hook_commit = None\<rparr>, ri_internal_recursive_prover = demo_inner\<rparr>, demo_idle)),
      pp_halo2 := (\<lambda>j. Inr (''halo2-prover-0'', \<lparr>hi_params_dir = [], hi_halo2_pk = 0\<rparr>, demo_idle))\<rparr>"

definition demo_condition :: demo_condition where
  "demo_condition = (demo_stop_watch, demo_live_picks, demo_requests_env, demo_worker_state)"

lemma demo_backend_proves: "backend_proves demo_backend"
  by (simp add: backend_proves_def demo_backend_def)

lemma demo_able:
  assumes "req \<in> set (jb_requests demo_served_job)"
  shows "able_worker demo_plan demo_condition req"
proof -
  have "list_all (\<lambda>req. list_all (\<lambda>p. is_ok (bk_decode_proof demo_backend p)) (request_proofs req) \<and>
      (case req of LeafProveReq r \<Rightarrow> True | InternalProveReq r \<Rightarrow> ipr_deferral_tail r = None | EvmProveReq r \<Rightarrow> False))
    (jb_requests demo_served_job)" by code_simp
  then have r: "\<forall>p \<in> set (request_proofs req). is_ok (bk_decode_proof demo_backend p)"
    "case req of LeafProveReq r \<Rightarrow> True | InternalProveReq r \<Rightarrow> ipr_deferral_tail r = None | EvmProveReq r \<Rightarrow> False"
    using assms by (auto simp: list_all_iff)
  have "payload_served (with_prover_pool demo_stop_watch demo_live_picks demo_requests_env) demo_worker_state req"
    using r(2) by (cases req) simp_all
  moreover have "plan_ok demo_plan \<and> tp_leaf_arity demo_plan \<le> bk_max_children_leaf demo_backend \<and>
      tp_internal_arity demo_plan \<le> bk_max_children_internal demo_backend"
    using plan_ok_demo by (simp add: demo_plan_def demo_backend_def)
  ultimately show ?thesis using r(1) demo_backend_proves
    by (simp add: demo_condition_def demo_requests_env_def demo_worker_env_def encodes_all_def demo_network_def
        picks_a_thread_def demo_live_picks_def demo_picks_def)
qed

lemma demo_fed_not_failed: "\<not> has_failed demo_fed_job"
proof -
  have "ps_status (jb_state demo_fed_job) = InProgress" by code_simp
  then show ?thesis by (simp add: has_failed_def)
qed

lemma demo_fed_run: "job_run demo_plan Mock_Provers demo_fed_job"
  using pooled.served_runs [OF plan_ok_demo demo_fed_served] demo_fed_not_failed by (simp add: run_or_failed_def)


end
