(* ===== verification/Mock_Worker.thy ===== *)
theory Mock_Worker
  imports Payload_Flow Service_Progress
begin

text \<open>
  The build with the feature \<open>mock-provers\<close>: the provers of \<open>edge-worker/src/provers\<close> that fabricate proofs, the
  worker kinds that run them, and the parts of the handlers that this build replaces (no deferral merge, no EVM keys). A
  mock proof is its bytes with a vector of public values; bincode is a parameter, the \<open>backend\<close> of the worker. Properties:
  the shards of a job of this build supply all inputs of a proof tree with sixteen segments, and a deployment of mock
  workers finishes every job, with no assumption on the requests: what they carry decodes since the workers made it
  (\<open>Payload_Flow\<close>).
\<close>

section \<open>Provers\<close>

type_synonym mock_typed_proof = "(bytes, 64 word list) typed_proof"
type_synonym ('k, 'd, 'm) mock_backend = "(bytes, 64 word list, 'k, 'd, 'm, bytes, bytes) backend"
type_synonym mock_leaf_job = "(bytes, 64 word list) leaf_prover_job"
type_synonym mock_internal_job = "(bytes, 64 word list) internal_prover_job"

text \<open>The proof of the given sizes, all zero.\<close>

definition mock_proof :: "nat \<Rightarrow> nat \<Rightarrow> mock_typed_proof" where
  "mock_proof proof_len num_public_values =
     \<lparr>tp_proof = replicate proof_len 0, tp_user_public_values = Some (replicate num_public_values 0)\<rparr>"

definition mock_prove_leaf_impl ::
  "('k, 'd, 'm) mock_backend \<Rightarrow> (nat \<Rightarrow> measured) \<Rightarrow> mock_leaf_job \<Rightarrow> proof_result list outcome" where
  "mock_prove_leaf_impl bk clk job =
     (let s = lj_segment_start job; e = lj_segment_end job in
      bind_outcome (guard_err (lj_app_proofs job = []) ''Cannot aggregate empty app_proofs list'') (\<lambda>_.
      bind_outcome (guard_err (e < s) (range_error s e)) (\<lambda>_.
      bind_outcome (bk_encode_proof bk (mock_proof 512 8)) (\<lambda>b.
        Ok [LeafRes (lj_context job)
          \<lparr>lps_proof = Some b, lps_segment_start = s, lps_segment_end = e, lps_prove_time_ms = ms_elapsed (clk 0),
           lps_sub_metrics = []\<rparr>]))))"

definition mock_prove_leaf ::
  "('k, 'd, 'm) mock_backend \<Rightarrow> (nat \<Rightarrow> measured) \<Rightarrow> mock_leaf_job \<Rightarrow> prover_result outcome" where
  "mock_prove_leaf bk clk job = as_prover_result ''Leaf prove failed: '' (mock_prove_leaf_impl bk clk job)"

definition mock_prove_internal_impl ::
  "('k, 'd, 'm) mock_backend \<Rightarrow> (nat \<Rightarrow> measured) \<Rightarrow> mock_internal_job \<Rightarrow> proof_result list outcome" where
  "mock_prove_internal_impl bk clk job =
     (let s = ij_segment_start job; e = ij_segment_end job in
      bind_outcome (guard_err (ij_child_proofs job = []) ''Cannot aggregate empty child_proofs list'') (\<lambda>_.
      bind_outcome (guard_err (e < s) (range_error s e)) (\<lambda>_.
      bind_outcome (bk_encode_proof bk (mock_proof 1024 16)) (\<lambda>b.
        Ok [InternalRes (ij_context job)
          \<lparr>ips_proof = Some b, ips_layer_idx = ij_layer_idx job, ips_segment_start = s, ips_segment_end = e,
           ips_prove_time_ms = ms_elapsed (clk 0),
           ips_compression_time_ms = (if ij_is_final_proof job then ms_elapsed (clk 1) else 0),
           ips_sub_metrics = [], ips_deferral_merkle_proofs_bytes = None, ips_ready_for_evm = False\<rparr>]))))"

definition mock_prove_internal ::
  "('k, 'd, 'm) mock_backend \<Rightarrow> (nat \<Rightarrow> measured) \<Rightarrow> mock_internal_job \<Rightarrow> prover_result outcome" where
  "mock_prove_internal bk clk job = as_prover_result ''Internal prove failed: '' (mock_prove_internal_impl bk clk job)"

definition mock_prove_root :: "('k, 'd, 'm) mock_backend \<Rightarrow> (nat \<Rightarrow> measured) \<Rightarrow> root_proof_state outcome" where
  "mock_prove_root bk clk =
     bind_outcome (bk_encode_root bk (replicate 2048 0)) (\<lambda>b.
       Ok \<lparr>rps_proof = Some b, rps_prove_time_ms = ms_elapsed (clk 0), rps_sub_metrics = []\<rparr>)"

definition mock_prove_halo2_impl ::
  "('k, 'd, 'm) mock_backend \<Rightarrow> (nat \<Rightarrow> measured) \<Rightarrow> bytes halo2_prover_job \<Rightarrow> proof_result list outcome" where
  "mock_prove_halo2_impl bk clk job =
     bind_outcome (bk_encode_evm bk (replicate 4096 0)) (\<lambda>b.
       Ok [EvmRes (hj_context job)
         \<lparr>eps_proof = Some b, eps_prove_time_ms = ms_elapsed (clk 0), eps_root_prove_time_ms = 0, eps_sub_metrics = []\<rparr>])"

definition mock_prove_halo2 ::
  "('k, 'd, 'm) mock_backend \<Rightarrow> (nat \<Rightarrow> measured) \<Rightarrow> bytes halo2_prover_job \<Rightarrow> prover_result outcome" where
  "mock_prove_halo2 bk clk job = as_prover_result ''Halo2 prove failed: '' (mock_prove_halo2_impl bk clk job)"

section \<open>The sharded app prover\<close>

definition mock_num_segments :: nat where
  "mock_num_segments = 16"

definition mock_cost :: nat where
  "mock_cost = 1000"

text \<open>A result goes to the stream, when the job has one, or to the returned list.\<close>

definition mock_emit ::
  "sharded_app_prover_job \<Rightarrow> proof_result \<Rightarrow> proof_result list \<times> proof_result list \<Rightarrow> proof_result list \<times> proof_result list" where
  "mock_emit job r = (\<lambda>(streamed, results). if sj_result_tx job then (streamed @ [r], results) else (streamed, results @ [r]))"

text \<open>Segment \<open>i\<close>; \<open>clk i\<close> measures its proving. The remainder by zero panics.\<close>

fun mock_prove_segments ::
  "('k, 'd, 'm) mock_backend \<Rightarrow> (nat \<Rightarrow> measured) \<Rightarrow> sharded_app_prover_job \<Rightarrow> nat list \<Rightarrow>
     proof_result list \<times> proof_result list \<Rightarrow> proof_result list \<times> proof_result list outcome" where
  "mock_prove_segments bk clk job [] acc = (fst acc, Ok (snd acc))"
| "mock_prove_segments bk clk job (i # is) acc =
     (if sj_num_provers job = 0 then (fst acc, Panic ''attempt to calculate the remainder with a divisor of zero'')
      else if i mod sj_num_provers job \<noteq> sj_prover_id job then mock_prove_segments bk clk job is acc
      else case bk_encode_proof bk (mock_proof 256 4) of
             Ok b \<Rightarrow> mock_prove_segments bk clk job is
               (mock_emit job (AppRes (sj_context job)
                  \<lparr>aps_proof = Some b, aps_segment_idx = i, aps_prove_time_ms = ms_elapsed (clk i),
                   aps_fastfwd_time_ms = 0, aps_stark_prove_time_ms = ms_elapsed (clk i), aps_sub_metrics = [],
                   aps_final_merkle_path_bytes = None, aps_deferral_merkle_proofs_bytes = None\<rparr>) acc)
           | Err e \<Rightarrow> (fst acc, Err e)
           | Panic p \<Rightarrow> (fst acc, Panic p))"

definition mock_execution ::
  "(bytes \<Rightarrow> bytes outcome) \<Rightarrow> (nat \<Rightarrow> measured) \<Rightarrow> sharded_app_prover_job \<Rightarrow> proof_result outcome" where
  "mock_execution encode_segment clk job =
     bind_outcome (collect_outcomes encode_segment (replicate mock_num_segments [])) (\<lambda>segment_bytes.
       Ok (ExecuteE2Res (sj_context job)
         \<lparr>e2_num_segments = mock_num_segments, e2_segments = segment_bytes, e2_cost = mock_cost,
          e2_execute_time_ms = ms_elapsed (clk mock_num_segments)\<rparr>))"

text \<open>The streamed results, and what the call returns.\<close>

definition mock_prove_sharded_app_impl ::
  "('k, 'd, 'm) mock_backend \<Rightarrow> (bytes \<Rightarrow> bytes outcome) \<Rightarrow> (nat \<Rightarrow> measured) \<Rightarrow> sharded_app_prover_job \<Rightarrow>
     proof_result list \<times> proof_result list outcome" where
  "mock_prove_sharded_app_impl bk encode_segment clk job =
     (let segments = [0..<mock_num_segments] in
      if sj_prover_id job = 0 then
        (case mock_execution encode_segment clk job of
           Ok r \<Rightarrow> mock_prove_segments bk clk job segments (mock_emit job r ([], []))
         | Err e \<Rightarrow> ([], Err e)
         | Panic p \<Rightarrow> ([], Panic p))
      else mock_prove_segments bk clk job segments ([], []))"

definition mock_prove_sharded_app ::
  "('k, 'd, 'm) mock_backend \<Rightarrow> (bytes \<Rightarrow> bytes outcome) \<Rightarrow> (nat \<Rightarrow> measured) \<Rightarrow> sharded_app_prover_job \<Rightarrow>
     proof_result list \<times> prover_result outcome" where
  "mock_prove_sharded_app bk encode_segment clk job =
     (case mock_prove_sharded_app_impl bk encode_segment clk job of
        (streamed, r) \<Rightarrow> (streamed, as_prover_result ''Sharded app prove failed: '' r))"

section \<open>Worker kinds\<close>

definition mock_leaf_kind ::
  "('k, 'd, 'm) mock_backend \<Rightarrow> (nat \<Rightarrow> measured) \<Rightarrow> (pool_shared, unit, mock_leaf_job, prover_result) worker_kind" where
  "mock_leaf_kind bk clk =
     \<lparr>wk_name_prefix = ''leaf-prover'', wk_init = Ok (), wk_enter = (\<lambda>name j sh. sh),
      wk_run = (\<lambda>name inst j sh. (sh, inst, mock_prove_leaf bk clk j)), wk_on_panic = panic_to_prover_result\<rparr>"

definition mock_internal_kind ::
  "('k, 'd, 'm) mock_backend \<Rightarrow> (nat \<Rightarrow> measured) \<Rightarrow> (pool_shared, unit, mock_internal_job, prover_result) worker_kind" where
  "mock_internal_kind bk clk =
     \<lparr>wk_name_prefix = ''internal-prover'', wk_init = Ok (), wk_enter = (\<lambda>name j sh. sh),
      wk_run = (\<lambda>name inst j sh. (sh, inst, mock_prove_internal bk clk j)), wk_on_panic = panic_to_prover_result\<rparr>"

definition mock_root_kind ::
  "('k, 'd, 'm) mock_backend \<Rightarrow> (nat \<Rightarrow> measured) \<Rightarrow>
     (pool_shared, unit, (bytes, 64 word list, 'm) root_prover_job, root_proof_state outcome) worker_kind" where
  "mock_root_kind bk clk =
     \<lparr>wk_name_prefix = ''root-prover'', wk_init = Ok (), wk_enter = (\<lambda>name j sh. sh),
      wk_run = (\<lambda>name inst j sh. (sh, inst, catch_unwind (mock_prove_root bk clk))), wk_on_panic = panic_to_root_result\<rparr>"

definition mock_halo2_kind ::
  "('k, 'd, 'm) mock_backend \<Rightarrow> (nat \<Rightarrow> measured) \<Rightarrow> (pool_shared, unit, bytes halo2_prover_job, prover_result) worker_kind" where
  "mock_halo2_kind bk clk =
     \<lparr>wk_name_prefix = ''halo2-prover'', wk_init = Ok (), wk_enter = (\<lambda>name j sh. sh),
      wk_run = (\<lambda>name inst j sh. (sh, inst, mock_prove_halo2 bk clk j)), wk_on_panic = panic_to_prover_result\<rparr>"

text \<open>The app loop of this build runs the prover directly: there is no program to load.\<close>

definition mock_app_kind ::
  "('k, 'd, 'm) mock_backend \<Rightarrow> (bytes \<Rightarrow> bytes outcome) \<Rightarrow> (nat \<Rightarrow> measured) \<Rightarrow>
     (pool_shared \<times> proof_result list, unit, sharded_app_prover_job, prover_result) worker_kind" where
  "mock_app_kind bk encode_segment clk =
     \<lparr>wk_name_prefix = ''app-prover'', wk_init = Ok (), wk_enter = (\<lambda>name j w. w),
      wk_run = (\<lambda>name inst j (sh, channel). case mock_prove_sharded_app bk encode_segment clk j of
        (streamed, r) \<Rightarrow> ((sh, channel @ streamed), inst, Ok (handle_panic_result r))),
      wk_on_panic = panic_to_prover_result\<rparr>"

section \<open>Tasks\<close>

type_synonym ('m, 'k, 'd, 'x, 'f, 'h, 'j, 'n) mock_env =
  "(bytes, 64 word list, 'm, 'k, 'd, 'x, 'f, 'h, 'j, 'n, bytes, bytes) worker_env"

record 'm mock_picks =
  mp_leaf :: "mock_leaf_job \<Rightarrow> string + string \<times> unit \<times> pool_shared"
  mp_internal :: "mock_internal_job \<Rightarrow> string + string \<times> unit \<times> pool_shared"
  mp_root :: "(bytes, 64 word list, 'm) root_prover_job \<Rightarrow> string + string \<times> unit \<times> pool_shared"
  mp_halo2 :: "bytes halo2_prover_job \<Rightarrow> string + string \<times> unit \<times> pool_shared"

definition with_mock_pool ::
  "(nat \<Rightarrow> measured) \<Rightarrow> 'n deferral_merkle_proofs mock_picks \<Rightarrow> ('m, 'k, 'd, 'x, 'f, 'h, 'j, 'n) mock_env \<Rightarrow>
     ('m, 'k, 'd, 'x, 'f, 'h, 'j, 'n) mock_env" where
  "with_mock_pool clk picks env =
     env\<lparr>we_submit_leaf := pool_answer (mock_leaf_kind (we_backend env) clk) (mp_leaf picks),
         we_submit_internal := pool_answer (mock_internal_kind (we_backend env) clk) (mp_internal picks),
         we_submit_root := (\<lambda>j. bind_outcome (pool_answer (mock_root_kind (we_backend env) clk) (mp_root picks) j) (\<lambda>r. r)),
         we_submit_halo2 := pool_answer (mock_halo2_kind (we_backend env) clk) (mp_halo2 picks)\<rparr>"

lemma with_mock_pool_simps [simp]:
  "we_network (with_mock_pool clk picks env) = we_network env"
  "we_backend (with_mock_pool clk picks env) = we_backend env"
  "we_available (with_mock_pool clk picks env) = we_available env"
  "we_submit_leaf (with_mock_pool clk picks env) = pool_answer (mock_leaf_kind (we_backend env) clk) (mp_leaf picks)"
  "we_submit_internal (with_mock_pool clk picks env) =
     pool_answer (mock_internal_kind (we_backend env) clk) (mp_internal picks)"
  "we_submit_root (with_mock_pool clk picks env) = (\<lambda>j. bind_outcome
     (pool_answer (mock_root_kind (we_backend env) clk) (mp_root picks) j) (\<lambda>r. r))"
  "we_submit_halo2 (with_mock_pool clk picks env) = pool_answer (mock_halo2_kind (we_backend env) clk) (mp_halo2 picks)"
  by (simp_all add: with_mock_pool_def)

text \<open>No merge: the final internal proof is handed over as it is, with the depth-0 proofs of the request.\<close>

definition mock_evm_prep_and_post ::
  "('m, 'k, 'd, 'x, 'f, 'h, 'j, 'n) mock_env \<Rightarrow> string \<Rightarrow> proof_result list \<Rightarrow> bytes option \<Rightarrow> worker_state \<Rightarrow>
     worker_state" where
  "mock_evm_prep_and_post env proof_uuid results depth0_merkle_bytes st =
     (case find_internal results of
        None \<Rightarrow> post_error env proof_uuid (''evm prep: expected an Internal result for '' @ proof_uuid @ '', found none'') st
      | Some (c, s) \<Rightarrow>
          (case ips_proof s of
             Some b \<Rightarrow> post_results env proof_uuid
               [InternalRes c (s\<lparr>ips_proof := Some b, ips_deferral_merkle_proofs_bytes := depth0_merkle_bytes,
                  ips_ready_for_evm := True\<rparr>)] st
           | None \<Rightarrow> post_error env proof_uuid
               (''evm prep: final internal proof for '' @ proof_uuid @ '' has no proof bytes'') st))"

definition mock_internal_task ::
  "('m, 'k, 'd, 'x, 'f, 'h, 'j, 'n) mock_env \<Rightarrow> string \<Rightarrow> mock_internal_job \<Rightarrow> bytes option \<Rightarrow> worker_state \<Rightarrow> worker_state" where
  "mock_internal_task env proof_uuid job depth0_merkle_bytes st =
     (case we_submit_internal env job of
        Ok (ProverSuccess results) \<Rightarrow>
          (if ij_is_final_proof job \<and> pc_proof_type (ij_context job) = Evm
           then mock_evm_prep_and_post env proof_uuid results depth0_merkle_bytes st
           else post_results env proof_uuid results st)
      | Ok (ProverError e) \<Rightarrow> post_error env proof_uuid e st
      | Err e \<Rightarrow> post_error env proof_uuid e st
      | Panic p \<Rightarrow> st)"

text \<open>The fields of the root job that this build does not have are set to nothing.\<close>

definition mock_run_evm_prove ::
  "('m, 'k, 'd, 'x, 'f, 'h, 'j, 'n) mock_env \<Rightarrow> string \<Rightarrow> proof_context \<Rightarrow> mock_typed_proof \<Rightarrow> proof_result outcome" where
  "mock_run_evm_prove env proof_uuid context final_internal_proof =
     bind_outcome (map_err (\<lambda>e. ''Root prove failed for '' @ proof_uuid @ '': '' @ e)
       (we_submit_root env \<lparr>rj_context = context, rj_final_internal_proof = final_internal_proof,
          rj_deferral_merkle_proofs = None, rj_proof_has_deferral = False\<rparr>)) (\<lambda>root_state.
     bind_outcome (ok_or (rps_proof root_state) (''EVM prove: root result for '' @ proof_uuid @ '' has no proof bytes'')) (\<lambda>root_proof_bytes.
     bind_outcome (map_err (\<lambda>e. ''EVM prove: failed to decode root proof for '' @ proof_uuid @ '': '' @ e)
       (bk_decode_root (we_backend env) root_proof_bytes)) (\<lambda>root_proof.
     bind_outcome
       (case we_submit_halo2 env \<lparr>hj_context = context, hj_root_proof = root_proof\<rparr> of
          Ok (ProverSuccess r) \<Rightarrow> ok_or (find_evm r) (''EVM prove: halo2 stage for '' @ proof_uuid @ '' produced no Evm proof'')
        | Ok (ProverError e) \<Rightarrow> Err (''Halo2 prove failed for '' @ proof_uuid @ '': '' @ e)
        | Err e \<Rightarrow> Err (''Failed to submit halo2 job for '' @ proof_uuid @ '': '' @ e)
        | Panic p \<Rightarrow> Panic p) (\<lambda>(c, s).
     Ok (EvmRes c (s\<lparr>eps_root_prove_time_ms := rps_prove_time_ms root_state,
       eps_sub_metrics := prefix_keys ''halo2_'' (eps_sub_metrics s) @ prefix_keys ''root_'' (rps_sub_metrics root_state)\<rparr>))))))"

definition mock_evm_prove_from_request ::
  "('m, 'k, 'd, 'x, 'f, 'h, 'j, 'n) mock_env \<Rightarrow> evm_prove_request \<Rightarrow> worker_state \<Rightarrow> worker_state" where
  "mock_evm_prove_from_request env req st =
     (let proof_uuid = pc_proof_uuid (epr_context req) in
      case bind_outcome
             (map_err (\<lambda>e. ''EvmProve: failed to decode handed-off internal proof for '' @ proof_uuid @ '': '' @ e)
               (bk_decode_proof (we_backend env) (epr_internal_proof_bytes req)))
             (mock_run_evm_prove env proof_uuid (epr_context req)) of
        Ok evm_result \<Rightarrow> post_results env proof_uuid [evm_result] st
      | Err msg \<Rightarrow> post_error env proof_uuid msg st
      | Panic p \<Rightarrow> st)"

fun mock_recursion_task ::
  "('m, 'k, 'd, 'x, 'f, 'h, 'j, 'n) mock_env \<Rightarrow> (bytes, 64 word list) recursion_task \<Rightarrow> worker_state \<Rightarrow> worker_state" where
  "mock_recursion_task env (Leaf_Task proof_uuid job) st = run_leaf_task env proof_uuid job st"
| "mock_recursion_task env (Internal_Task proof_uuid job tail depth0) st = mock_internal_task env proof_uuid job depth0 st"
| "mock_recursion_task env (Evm_Task req) st = mock_evm_prove_from_request env req st"

type_synonym ('m, 'k, 'd, 'x, 'f, 'h, 'j, 'n) mock_condition =
  "(nat \<Rightarrow> measured) \<times> 'n deferral_merkle_proofs mock_picks \<times> ('m, 'k, 'd, 'x, 'f, 'h, 'j, 'n) mock_env \<times> worker_state"

text \<open>What a mock worker in some condition posts for a request.\<close>

fun mock_posts ::
  "('m, 'k, 'd, 'x, 'f, 'h, 'j, 'n) mock_condition \<Rightarrow> general_prove_request \<Rightarrow> (string \<times> proof_result) list" where
  "mock_posts (clk, picks, env, st) req =
     (case snd (request_task (with_mock_pool clk picks env) req) of
        None \<Rightarrow> []
      | Some task \<Rightarrow> new_posts st (mock_recursion_task (with_mock_pool clk picks env) task st))"

section \<open>What the mock workers post\<close>

lemma mock_leaf_success:
  "mock_prove_leaf bk clk j = Ok (ProverSuccess rs) \<Longrightarrow>
     \<exists>st b. rs = [LeafRes (lj_context j) st] \<and> lps_proof st = Some b \<and> bk_encode_proof bk (mock_proof 512 8) = Ok b \<and>
       lps_segment_start st = lj_segment_start j \<and> lps_segment_end st = lj_segment_end j"
  by (auto simp: mock_prove_leaf_def mock_prove_leaf_impl_def bind_outcome_Ok_iff Let_def)

lemma mock_internal_success:
  "mock_prove_internal bk clk j = Ok (ProverSuccess rs) \<Longrightarrow>
     \<exists>st b. rs = [InternalRes (ij_context j) st] \<and> ips_proof st = Some b \<and> bk_encode_proof bk (mock_proof 1024 16) = Ok b \<and>
       internal_fits (ij_layer_idx j) (ij_segment_start j) (ij_segment_end j) st"
  by (auto simp: mock_prove_internal_def mock_prove_internal_impl_def bind_outcome_Ok_iff Let_def internal_fits_def)

lemma mock_halo2_success:
  "mock_prove_halo2 bk clk j = Ok (ProverSuccess rs) \<Longrightarrow> \<exists>st. rs = [EvmRes (hj_context j) st] \<and> eps_proof st \<noteq> None"
  by (auto simp: mock_prove_halo2_def mock_prove_halo2_impl_def bind_outcome_Ok_iff)

text \<open>A pool whose runs do not depend on the thread.\<close>

lemma plain_pool_success:
  assumes "wk_on_panic kind = panic_to_prover_result" "\<And>name inst w. wk_run kind name inst j w = (w, inst, f)"
    and "pool_answer kind pick j = Ok (ProverSuccess rs)"
  shows "f = Ok (ProverSuccess rs)"
  using assms run_result_Success [OF assms(1,2)]
  by (auto simp: pool_answer_def split: sum.splits prod.splits)

lemma plain_pool_ok:
  assumes "\<And>name inst w. wk_run kind name inst j w = (w, inst, Ok r)" "picks_a_thread pick"
  shows "pool_answer kind pick j = Ok r"
proof -
  obtain name inst w where "pick j = Inr (name, inst, w)" using assms(2) by (rule picksE)
  then show ?thesis by (simp add: pool_answer_def run_result_def assms(1))
qed

lemma mock_pool_success:
  "pool_answer (mock_leaf_kind bk clk) pl jl = Ok (ProverSuccess rs) \<Longrightarrow> mock_prove_leaf bk clk jl = Ok (ProverSuccess rs)"
  "pool_answer (mock_internal_kind bk clk) pick ji = Ok (ProverSuccess rs) \<Longrightarrow>
     mock_prove_internal bk clk ji = Ok (ProverSuccess rs)"
  "pool_answer (mock_halo2_kind bk clk) ph jh = Ok (ProverSuccess rs) \<Longrightarrow> mock_prove_halo2 bk clk jh = Ok (ProverSuccess rs)"
  by (rule plain_pool_success [rotated 2], assumption, simp_all add: mock_leaf_kind_def mock_internal_kind_def mock_halo2_kind_def)+

lemma mock_leaf_fit:
  assumes "p \<in> set (mock_posts (clk, picks, env, st) (LeafProveReq req))"
  shows "fits_request (LeafProveReq req) p"
proof -
  let ?env = "with_mock_pool clk picks env" and ?u = "pc_proof_uuid (lpr_context req)"
  obtain aps where a: "collect_outcomes (bk_decode_proof (we_backend env)) (lpr_app_proofs req) = Ok aps"
    using assms by (cases "collect_outcomes (bk_decode_proof (we_backend env)) (lpr_app_proofs req)")
      (auto simp: accept_leaf_def split: if_splits)
  define job where "job = \<lparr>lj_context = lpr_context req, lj_app_proofs = aps, lj_segment_start = lpr_segment_start req,
    lj_segment_end = lpr_segment_end req\<rparr>"
  have p: "p \<in> set (new_posts st (run_leaf_task ?env ?u job st))"
    using assms a by (auto simp: accept_leaf_def job_def split: if_splits)
  have ctx: "?u = pc_proof_uuid (request_context (LeafProveReq req))" by simp
  have "\<forall>r \<in> set rs. answers (LeafProveReq req) r" if s: "we_submit_leaf ?env job = Ok (ProverSuccess rs)" for rs
    using mock_leaf_success [OF mock_pool_success(1) [OF s [simplified]]] by (auto simp: job_def)
  then show ?thesis using p unfolding ctx
    by (auto simp: run_leaf_task_def split: outcome.splits prover_result.splits
        intro: post_error_fits post_results_fits simp del: request_context.simps with_mock_pool_simps)
qed

lemma mock_internal_fit:
  assumes "p \<in> set (mock_posts (clk, picks, env, st) (InternalProveReq req))"
  shows "fits_request (InternalProveReq req) p"
proof -
  let ?env = "with_mock_pool clk picks env" and ?u = "pc_proof_uuid (ipr_context req)"
  obtain cps where a: "collect_outcomes (bk_decode_proof (we_backend env)) (ipr_child_proofs req) = Ok cps"
    using assms by (cases "collect_outcomes (bk_decode_proof (we_backend env)) (ipr_child_proofs req)")
      (auto simp: accept_internal_def split: if_splits)
  define job where "job = \<lparr>ij_context = ipr_context req, ij_child_proofs = cps, ij_layer_idx = ipr_layer_idx req,
    ij_segment_start = ipr_segment_start req, ij_segment_end = ipr_segment_end req,
    ij_is_final_proof = ipr_is_final_proof req, ij_proof_has_deferral = (ipr_deferral_tail req \<noteq> None)\<rparr>"
  have p: "p \<in> set (new_posts st (mock_internal_task ?env ?u job (ipr_deferral_merkle_proofs_bytes req) st))"
    using assms a by (auto simp: accept_internal_def job_def split: if_splits)
  have ctx: "?u = pc_proof_uuid (request_context (InternalProveReq req))" by simp
  have s: "\<exists>s b. rs = [InternalRes (ipr_context req) s] \<and> ips_proof s = Some b \<and>
      internal_fits (ipr_layer_idx req) (ipr_segment_start req) (ipr_segment_end req) s"
    if s: "we_submit_internal ?env job = Ok (ProverSuccess rs)" for rs
    using mock_internal_success [OF mock_pool_success(2) [OF s [simplified]]] by (auto simp: job_def)
  show ?thesis
  proof (cases "\<exists>rs. we_submit_internal ?env job = Ok (ProverSuccess rs)")
    case True
    then obtain s b where s: "we_submit_internal ?env job = Ok (ProverSuccess [InternalRes (ipr_context req) s])"
      "ips_proof s = Some b" "internal_fits (ipr_layer_idx req) (ipr_segment_start req) (ipr_segment_end req) s"
      using s by blast
    show ?thesis
    proof (cases "ipr_is_final_proof req \<and> pc_proof_type (ipr_context req) = Evm")
      case True
      let ?r = "InternalRes (ipr_context req) (s\<lparr>ips_proof := Some b,
        ips_deferral_merkle_proofs_bytes := ipr_deferral_merkle_proofs_bytes req, ips_ready_for_evm := True\<rparr>)"
      have "p \<in> set (new_posts st (post_results ?env ?u [?r] st))"
        using p s(1,2) True unfolding mock_internal_task_def
        by (simp add: job_def mock_evm_prep_and_post_def find_internal_def del: with_mock_pool_simps)
      then show ?thesis unfolding ctx by (rule post_results_fits) (use s(3) in \<open>simp add: internal_fits_def\<close>)
    next
      case False
      then have "p \<in> set (new_posts st (post_results ?env ?u [InternalRes (ipr_context req) s] st))"
        using p s(1) unfolding mock_internal_task_def by (auto simp: job_def simp del: with_mock_pool_simps)
      then show ?thesis unfolding ctx
        by (rule post_results_fits) (use s(3) False in \<open>auto simp: internal_fits_def\<close>)
    qed
  next
    case False
    then show ?thesis using p unfolding ctx
      by (auto simp: mock_internal_task_def split: outcome.splits prover_result.splits
          intro: post_error_fits simp del: request_context.simps with_mock_pool_simps)
  qed
qed

lemma mock_evm_result:
  assumes "mock_run_evm_prove (with_mock_pool clk picks env) u c p = Ok x"
  shows "\<exists>c s. x = EvmRes c s \<and> eps_proof s \<noteq> None"
proof -
  let ?env = "with_mock_pool clk picks env"
  obtain job rs c' s where s: "we_submit_halo2 ?env job = Ok (ProverSuccess rs)" "find_evm rs = Some (c', s)"
      "\<exists>t y. x = EvmRes c' (s\<lparr>eps_root_prove_time_ms := t, eps_sub_metrics := y\<rparr>)"
    using assms unfolding mock_run_evm_prove_def bind_outcome_Ok_iff halo2_step_Ok by (auto split: prod.splits) blast
  then show ?thesis using mock_halo2_success [OF mock_pool_success(3) [OF s(1) [simplified]]]
    by (auto simp: find_evm_def)
qed

lemma mock_evm_fit:
  assumes "p \<in> set (mock_posts (clk, picks, env, st) (EvmProveReq req))"
  shows "fits_request (EvmProveReq req) p"
proof -
  have ctx: "pc_proof_uuid (epr_context req) = pc_proof_uuid (request_context (EvmProveReq req))" by simp
  show ?thesis using assms
    by (auto simp: mock_evm_prove_from_request_def Let_def bind_outcome_Ok_iff ctx
        split: outcome.splits simp del: request_context.simps with_mock_pool_simps dest!: mock_evm_result
        intro: post_error_fits elim!: post_results_fits)
qed

lemma mock_posts_fit: "p \<in> set (mock_posts w req) \<Longrightarrow> fits_request req p"
  by (cases w; cases req) (auto intro: mock_leaf_fit mock_internal_fit mock_evm_fit simp del: mock_posts.simps)

section \<open>A mock worker that is ready\<close>

text \<open>The codec encodes every value, and reads what it has written.\<close>

definition wire_ok :: "('k, 'd, 'm) mock_backend \<Rightarrow> bool" where
  "wire_ok bk \<longleftrightarrow>
     (\<forall>p. \<exists>b. bk_encode_proof bk p = Ok b \<and> is_ok (bk_decode_proof bk b)) \<and>
     (\<forall>r. \<exists>b. bk_encode_root bk r = Ok b \<and> is_ok (bk_decode_root bk b)) \<and>
     (\<forall>e. is_ok (bk_encode_evm bk e))"

text \<open>The worker has the codec \<open>bk\<close>, its results can be serialized, and its pools have a free thread.\<close>

fun mock_ready ::
  "('k, 'd, 'n deferral_merkle_proofs) mock_backend \<Rightarrow> ('m, 'k, 'd, 'x, 'f, 'h, 'j, 'n) mock_condition \<Rightarrow> bool" where
  "mock_ready bk (clk, picks, env, st) \<longleftrightarrow>
     we_backend env = bk \<and> encodes_all (we_network env) \<and> (\<forall>k. we_available env k) \<and>
     picks_a_thread (mp_leaf picks) \<and> picks_a_thread (mp_internal picks) \<and>
     picks_a_thread (mp_root picks) \<and> picks_a_thread (mp_halo2 picks)"

definition decodable :: "('k, 'd, 'm) mock_backend \<Rightarrow> proof_result \<Rightarrow> bool" where
  "decodable bk r \<longleftrightarrow> (\<forall>b. result_proof r = Some b \<longrightarrow> is_ok (bk_decode_proof bk b))"

text \<open>All proofs that a request carries.\<close>

fun carried_proofs :: "general_prove_request \<Rightarrow> bytes list" where
  "carried_proofs (LeafProveReq r) = lpr_app_proofs r"
| "carried_proofs (InternalProveReq r) = ipr_child_proofs r"
| "carried_proofs (EvmProveReq r) = [epr_internal_proof_bytes r]"

lemma wire_okD:
  assumes "wire_ok bk"
  obtains b where "bk_encode_proof bk p = Ok b" "is_ok (bk_decode_proof bk b)"
  using assms unfolding wire_ok_def by blast

lemma mock_leaf_answers:
  assumes ok: "plan_ok c" and req: "request_ok c (LeafProveReq q)" and w: "wire_ok bk" "mock_ready bk (clk, picks, env, st)"
    and dec: "\<forall>b \<in> set (lpr_app_proofs q). is_ok (bk_decode_proof bk b)"
  shows "\<exists>r. mock_posts (clk, picks, env, st) (LeafProveReq q) = [(pc_proof_uuid (lpr_context q), r)] \<and>
    answers (LeafProveReq q) r \<and> decodable bk r"
proof -
  let ?env = "with_mock_pool clk picks env" and ?u = "pc_proof_uuid (lpr_context q)"
  have env: "we_backend ?env = bk" "encodes_all (we_network ?env)" "we_available ?env Job_Leaf" "picks_a_thread (mp_leaf picks)"
    using w(2) by simp_all
  obtain j where j: "j < level_count c (Suc 0)" "lpr_segment_start q = first_segment c (Suc 0) j"
      "lpr_segment_end q = last_segment c (Suc 0) j" "length (lpr_app_proofs q) = length (children c 0 j)"
    using req by auto
  obtain ps where ps: "collect_outcomes (bk_decode_proof bk) (lpr_app_proofs q) = Ok ps" "length ps = length (children c 0 j)"
    using collect_outcomes_ok [OF dec] j(4) by metis
  have n: "ps \<noteq> []" "lpr_segment_start q \<le> lpr_segment_end q"
    using group_segments [OF ok j(1)] ps(2) j(2,3) by auto
  obtain b where b: "bk_encode_proof bk (mock_proof 512 8) = Ok b" "is_ok (bk_decode_proof bk b)" using w(1) by (rule wire_okD)
  let ?job = "\<lparr>lj_context = lpr_context q, lj_app_proofs = ps, lj_segment_start = lpr_segment_start q,
    lj_segment_end = lpr_segment_end q\<rparr>"
  let ?r = "LeafRes (lpr_context q) \<lparr>lps_proof = Some b, lps_segment_start = lpr_segment_start q,
    lps_segment_end = lpr_segment_end q, lps_prove_time_ms = ms_elapsed (clk 0), lps_sub_metrics = []\<rparr>"
  have "mock_prove_leaf bk clk ?job = Ok (ProverSuccess [?r])"
    using n b(1) by (simp add: mock_prove_leaf_def mock_prove_leaf_impl_def guard_err_def)
  then have "pool_answer (mock_leaf_kind bk clk) (mp_leaf picks) ?job = Ok (ProverSuccess [?r])"
    by (intro plain_pool_ok [OF _ env(4)]) (simp add: mock_leaf_kind_def)
  then have "mock_posts (clk, picks, env, st) (LeafProveReq q) = [(?u, ?r)]"
    using ps(1) env posts_one [of ?env st ?u ?r] by (simp add: accept_leaf_def run_leaf_task_def)
  then show ?thesis using b(2) by (intro exI [of _ ?r]) (simp add: decodable_def)
qed

lemma mock_internal_answers:
  assumes ok: "plan_ok c" and req: "request_ok c (InternalProveReq q)" and w: "wire_ok bk" "mock_ready bk (clk, picks, env, st)"
    and dec: "\<forall>b \<in> set (ipr_child_proofs q). is_ok (bk_decode_proof bk b)"
  shows "\<exists>r. mock_posts (clk, picks, env, st) (InternalProveReq q) = [(pc_proof_uuid (ipr_context q), r)] \<and>
    answers (InternalProveReq q) r \<and> decodable bk r"
proof -
  let ?env = "with_mock_pool clk picks env" and ?u = "pc_proof_uuid (ipr_context q)" and ?l = "Suc (ipr_layer_idx q)"
  have env: "we_backend ?env = bk" "encodes_all (we_network ?env)" "we_available ?env Job_Internal"
      "picks_a_thread (mp_internal picks)"
    using w(2) by simp_all
  obtain j where j: "j < level_count c (Suc ?l)" "ipr_segment_start q = first_segment c (Suc ?l) j"
      "ipr_segment_end q = last_segment c (Suc ?l) j" "length (ipr_child_proofs q) = length (children c ?l j)"
    using req by auto
  obtain ps where ps: "collect_outcomes (bk_decode_proof bk) (ipr_child_proofs q) = Ok ps" "length ps = length (children c ?l j)"
    using collect_outcomes_ok [OF dec] j(4) by metis
  have n: "ps \<noteq> []" "ipr_segment_start q \<le> ipr_segment_end q"
    using group_segments [OF ok j(1)] ps(2) j(2,3) by auto
  obtain b where b: "bk_encode_proof bk (mock_proof 1024 16) = Ok b" "is_ok (bk_decode_proof bk b)" using w(1) by (rule wire_okD)
  define job where "job = \<lparr>ij_context = ipr_context q, ij_child_proofs = ps, ij_layer_idx = ipr_layer_idx q,
    ij_segment_start = ipr_segment_start q, ij_segment_end = ipr_segment_end q, ij_is_final_proof = ipr_is_final_proof q,
    ij_proof_has_deferral = (ipr_deferral_tail q \<noteq> None)\<rparr>"
  have job: "ij_context job = ipr_context q" "ij_is_final_proof job = ipr_is_final_proof q" by (simp_all add: job_def)
  obtain s where "mock_prove_internal bk clk job = Ok (ProverSuccess [InternalRes (ipr_context q) s])"
      and s: "ips_proof s = Some b" "internal_fits (ipr_layer_idx q) (ipr_segment_start q) (ipr_segment_end q) s"
    using n b(1) by (simp add: job_def mock_prove_internal_def mock_prove_internal_impl_def guard_err_def internal_fits_def)
  then have sub: "we_submit_internal ?env job = Ok (ProverSuccess [InternalRes (ipr_context q) s])"
    unfolding with_mock_pool_simps env(1) [simplified]
    by (intro plain_pool_ok [OF _ env(4)]) (simp add: mock_internal_kind_def)
  have posts: "mock_posts (clk, picks, env, st) (InternalProveReq q) =
      new_posts st (mock_internal_task ?env ?u job (ipr_deferral_merkle_proofs_bytes q) st)"
    using ps(1) env by (simp add: accept_internal_def job_def)
  show ?thesis
  proof (cases "ipr_is_final_proof q \<and> pc_proof_type (ipr_context q) = Evm")
    case True
    let ?r = "InternalRes (ipr_context q) (s\<lparr>ips_proof := Some b,
      ips_deferral_merkle_proofs_bytes := ipr_deferral_merkle_proofs_bytes q, ips_ready_for_evm := True\<rparr>)"
    have "mock_internal_task ?env ?u job (ipr_deferral_merkle_proofs_bytes q) st = post_results ?env ?u [?r] st"
      using True s(1) by (simp add: mock_internal_task_def job sub mock_evm_prep_and_post_def find_internal_def
          del: with_mock_pool_simps)
    then show ?thesis using s b(2) posts_one [OF env(2), of st ?u ?r] unfolding posts
      by (intro exI [of _ ?r]) (simp add: decodable_def internal_fits_def)
  next
    case False
    let ?r = "InternalRes (ipr_context q) s"
    have "mock_internal_task ?env ?u job (ipr_deferral_merkle_proofs_bytes q) st = post_results ?env ?u [?r] st"
      using False by (auto simp: mock_internal_task_def job sub simp del: with_mock_pool_simps)
    then show ?thesis using s b(2) False posts_one [OF env(2), of st ?u ?r] unfolding posts
      by (intro exI [of _ ?r]) (auto simp: decodable_def internal_fits_def)
  qed
qed

lemma mock_evm_answers:
  assumes w: "wire_ok bk" "mock_ready bk (clk, picks, env, st)"
    and dec: "is_ok (bk_decode_proof bk (epr_internal_proof_bytes q))"
  shows "\<exists>r. mock_posts (clk, picks, env, st) (EvmProveReq q) = [(pc_proof_uuid (epr_context q), r)] \<and>
    answers (EvmProveReq q) r \<and> decodable bk r"
proof -
  let ?env = "with_mock_pool clk picks env" and ?u = "pc_proof_uuid (epr_context q)" and ?ctx = "epr_context q"
  have env: "we_backend env = bk" "encodes_all (we_network ?env)" "picks_a_thread (mp_root picks)" "picks_a_thread (mp_halo2 picks)"
    using w(2) by simp_all
  obtain p where p: "bk_decode_proof bk (epr_internal_proof_bytes q) = Ok p" using dec by (auto simp: is_ok_Ex)
  obtain rb r0 where rb: "bk_encode_root bk (replicate 2048 0) = Ok rb" "bk_decode_root bk rb = Ok r0"
    using w(1) unfolding wire_ok_def is_ok_Ex by metis
  obtain eb where eb: "bk_encode_evm bk (replicate 4096 0) = Ok eb" using w(1) unfolding wire_ok_def is_ok_Ex by metis
  let ?root = "\<lparr>rps_proof = Some rb, rps_prove_time_ms = ms_elapsed (clk 0), rps_sub_metrics = []\<rparr>"
  let ?hjob = "\<lparr>hj_context = ?ctx, hj_root_proof = r0\<rparr>"
  let ?s = "\<lparr>eps_proof = Some eb, eps_prove_time_ms = ms_elapsed (clk 0), eps_root_prove_time_ms = 0, eps_sub_metrics = []\<rparr>"
  have root: "we_submit_root ?env j = Ok ?root" for j
    unfolding with_mock_pool_simps env(1)
    using plain_pool_ok [OF _ env(3), of "mock_root_kind bk clk" j "Ok ?root"] rb(1)
    by (simp add: mock_root_kind_def catch_unwind_def mock_prove_root_def)
  have halo2: "we_submit_halo2 ?env ?hjob = Ok (ProverSuccess [EvmRes ?ctx ?s])"
    unfolding with_mock_pool_simps env(1)
    by (intro plain_pool_ok [OF _ env(4)]) (simp add: mock_halo2_kind_def mock_prove_halo2_def mock_prove_halo2_impl_def eb)
  obtain e where e: "mock_run_evm_prove ?env ?u ?ctx p = Ok (EvmRes ?ctx e)" "eps_proof e = Some eb"
    using rb(2) env(1) by (simp add: mock_run_evm_prove_def root halo2 find_evm_def ok_or_def del: with_mock_pool_simps(5-7))
  have "mock_posts (clk, picks, env, st) (EvmProveReq q) = [(?u, EvmRes ?ctx e)]"
    using posts_one [OF env(2)] p env(1)
    by (simp add: mock_evm_prove_from_request_def Let_def e(1) del: with_mock_pool_simps(4-7))
  then show ?thesis using e(2) by (simp add: decodable_def)
qed

lemma mock_worker_answers:
  assumes "plan_ok c" "request_ok c req" "wire_ok bk" "mock_ready bk w"
    and "\<forall>b \<in> set (carried_proofs req). is_ok (bk_decode_proof bk b)"
  shows "\<exists>r. mock_posts w req = [(pc_proof_uuid (request_context req), r)] \<and> answers req r \<and> decodable bk r"
proof (cases w)
  case (fields clk picks env st)
  show ?thesis
    by (cases req; insert assms mock_leaf_answers mock_internal_answers mock_evm_answers; unfold fields)
      (simp_all del: mock_posts.simps mock_ready.simps request_ok.simps answers.simps, blast+)
qed

section \<open>A deployment of mock workers\<close>

definition ready_mock_posts ::
  "('k, 'd, 'n deferral_merkle_proofs) mock_backend \<Rightarrow> ('m, 'k, 'd, 'x, 'f, 'h, 'j, 'n) mock_condition \<Rightarrow>
     general_prove_request \<Rightarrow> (string \<times> proof_result) list" where
  "ready_mock_posts bk w req = (if mock_ready bk w then mock_posts w req else [])"

definition mock_able ::
  "tree_plan \<Rightarrow> ('k, 'd, 'n deferral_merkle_proofs) mock_backend \<Rightarrow> ('m, 'k, 'd, 'x, 'f, 'h, 'j, 'n) mock_condition \<Rightarrow>
     general_prove_request \<Rightarrow> bool" where
  "mock_able c bk w req \<longleftrightarrow> plan_ok c \<and> wire_ok bk \<and> mock_ready bk w \<and>
     (\<forall>b \<in> set (carried_proofs req). is_ok (bk_decode_proof bk b))"

lemma mock_able_answers:
  assumes "request_ok c req" "mock_able c bk w req"
  shows "\<exists>r. ready_mock_posts bk w req = [(pc_proof_uuid (request_context req), r)] \<and> answers req r \<and> decodable bk r"
  using assms mock_worker_answers [of c req bk w] by (simp add: mock_able_def ready_mock_posts_def)

interpretation mock_worker: proving_worker "ready_mock_posts bk" for bk
  by unfold_locales (auto simp: ready_mock_posts_def split: if_splits intro: mock_posts_fit)

interpretation mock_deployment: answering_worker "ready_mock_posts bk" c "mock_able c bk" for c bk
  by unfold_locales (use mock_able_answers in fastforce)

lemma delivered_decodable:
  assumes "list_all2 (delivered_for c rs l) xs ps" "\<forall>r \<in> set rs. decodable bk r" "p \<in> set ps"
  shows "is_ok (bk_decode_proof bk p)"
proof -
  obtain x where "delivered_for c rs l x p"
    using assms(1,3) by (auto simp: list_all2_conv_all_nth in_set_conv_nth)
  then show ?thesis using assms(2) by (auto simp: delivered_for_def decodable_def)
qed

lemma carries_decodable:
  assumes "carries c rs req" "\<forall>r \<in> set rs. decodable bk r"
  shows "\<forall>b \<in> set (carried_proofs req). is_ok (bk_decode_proof bk b)"
proof (cases req)
  case (EvmProveReq q)
  then show ?thesis using assms by (fastforce simp: decodable_def)
qed (use assms delivered_decodable in \<open>auto simp: Let_def simp del: level_count.simps; blast\<close>)+

lemma mock_requests_able:
  assumes ok: "plan_ok c" "wire_ok bk" "mock_ready bk w" and run: "fed_run c b rs J" "\<forall>r \<in> set rs. decodable bk r"
    and req: "req \<in> set (jb_requests J)"
  shows "mock_able c bk w req" "request_ok c req"
  using fed_run_inv [OF ok(1) run(1)] ok req carries_decodable [OF _ run(2)]
  by (auto simp: mock_able_def job_inv_def)

lemma mock_service_recorded:
  fixes posts :: "('m, 'k, 'd, 'x, 'f, 'h, 'j, 'n) mock_condition \<Rightarrow> general_prove_request \<Rightarrow> (string \<times> proof_result) list"
  assumes posts: "posts = ready_mock_posts bk"
    and ok: "plan_ok c" "wire_ok bk" and J0: "fed_run c b rs J0" "inputs_delivered c J0" "\<forall>r \<in> set rs. decodable bk r"
  shows "(serve_step posts b ^^ n) J0 J \<Longrightarrow> \<exists>rs. fed_run c b rs J \<and> (\<forall>r \<in> set rs. decodable bk r)"
proof (induction n arbitrary: J)
  case 0
  then show ?case using J0 by auto
next
  case (Suc n)
  then obtain J1 where J1: "(serve_step posts b ^^ n) J0 J1" "serve_step posts b J1 J" by auto
  obtain qs where qs: "fed_run c b qs J1" "\<forall>r \<in> set qs. decodable bk r" using Suc.IH [OF J1(1)] by blast
  have "serving c b J1"
    using serve_steps_bounded [OF ok(1) _ J1(1)] fed_run_job_run [OF J0(1)] J0(2) by (simp add: serving_def)
  then have kn: "ps_num_segments (jb_state J1) \<noteq> None" by (simp add: serving_def inputs_delivered_def)
  obtain req u env w ck where s: "J = deliver b ck env J1" "req \<in> set (jb_requests J1)"
    "(u, me_message env) \<in> set (posts w req)" "answers req (me_message env)"
    using J1(2) by (auto elim: serve_stepE)
  have "mock_ready bk w" using s(3) by (simp add: posts ready_mock_posts_def split: if_splits)
  then have "mock_able c bk w req" "request_ok c req" using mock_requests_able [OF ok _ qs s(2)] by blast+
  then have "decodable bk (me_message env)" using mock_able_answers [of c req bk w] s(3) by (auto simp: posts)
  moreover have "fed_run c b (qs @ [me_message env]) J"
    unfolding s(1) by (rule fed_run.answer [OF qs(1) s(2,4)]) (use kn in simp)
  ultimately show ?case using qs(2) by (intro exI [of _ "qs @ [me_message env]"]) auto
qed

section \<open>The inputs\<close>

definition mock_app_result :: "bytes \<Rightarrow> (nat \<Rightarrow> measured) \<Rightarrow> sharded_app_prover_job \<Rightarrow> nat \<Rightarrow> proof_result" where
  "mock_app_result b clk job i =
     AppRes (sj_context job)
       \<lparr>aps_proof = Some b, aps_segment_idx = i, aps_prove_time_ms = ms_elapsed (clk i),
        aps_fastfwd_time_ms = 0, aps_stark_prove_time_ms = ms_elapsed (clk i), aps_sub_metrics = [],
        aps_final_merkle_path_bytes = None, aps_deferral_merkle_proofs_bytes = None\<rparr>"

lemma mock_segments_streamed:
  assumes "sj_num_provers job = n" "0 < n" "sj_result_tx job" "bk_encode_proof bk (mock_proof 256 4) = Ok b"
  shows "mock_prove_segments bk clk job is (streamed, results) =
    (streamed @ map (mock_app_result b clk job) (filter (\<lambda>i. i mod n = sj_prover_id job) is), Ok results)"
  using assms by (induction "is" arbitrary: streamed) (simp_all add: mock_emit_def mock_app_result_def)

text \<open>The execution results, and the segments of the app proofs.\<close>

definition executions :: "proof_result list \<Rightarrow> execute_e2_state list" where
  "executions rs = concat (map (\<lambda>r. case r of ExecuteE2Res _ e \<Rightarrow> [e] | _ \<Rightarrow> []) rs)"

definition app_segments :: "proof_result list \<Rightarrow> nat list" where
  "app_segments rs = concat (map (\<lambda>r. case r of AppRes _ e \<Rightarrow> [aps_segment_idx e] | _ \<Rightarrow> []) rs)"

lemma app_segments_results [simp]:
  "app_segments (map (mock_app_result b clk job) is) = is" "executions (map (mock_app_result b clk job) is) = []"
  by (induction "is") (simp_all add: app_segments_def executions_def mock_app_result_def)

lemma selected_append [simp]:
  "app_segments (xs @ ys) = app_segments xs @ app_segments ys" "executions (xs @ ys) = executions xs @ executions ys"
  by (simp_all add: app_segments_def executions_def)

lemma selected_concat:
  "app_segments (concat xss) = concat (map app_segments xss)" "executions (concat xss) = concat (map executions xss)"
  by (induction xss) (simp_all add: app_segments_def executions_def)

definition mock_e2 :: "bytes list \<Rightarrow> (nat \<Rightarrow> measured) \<Rightarrow> execute_e2_state" where
  "mock_e2 segments clk = \<lparr>e2_num_segments = mock_num_segments, e2_segments = segments, e2_cost = mock_cost,
     e2_execute_time_ms = ms_elapsed (clk mock_num_segments)\<rparr>"

lemma mock_shard_streamed:
  assumes "sj_num_provers job = n" "0 < n" "sj_result_tx job" "bk_encode_proof bk (mock_proof 256 4) = Ok b"
    and "collect_outcomes enc (replicate mock_num_segments []) = Ok segments"
  shows "mock_prove_sharded_app bk enc clk job =
    ((if sj_prover_id job = 0 then [ExecuteE2Res (sj_context job) (mock_e2 segments clk)] else []) @
       map (mock_app_result b clk job) (filter (\<lambda>i. i mod n = sj_prover_id job) [0..<mock_num_segments]),
     Ok (ProverSuccess []))"
  using assms(3,5) mock_segments_streamed [OF assms(1-4)]
  by (simp add: mock_prove_sharded_app_def mock_prove_sharded_app_impl_def mock_execution_def mock_emit_def mock_e2_def
      Let_def del: upt_Suc)

section \<open>Properties\<close>

text \<open>C21. The shards of a job supply its inputs: if every prover of a deployment of \<open>n\<close> mock workers is started with its own
  index, then all calls succeed; each result that they stream is an input of a tree with sixteen segments, with a proof
  that decodes; there is exactly one execution result, and exactly one app proof of each segment.\<close>

theorem mock_shards_supply_inputs:
  fixes bk :: "('k, 'd, 'm) mock_backend" and enc :: "bytes \<Rightarrow> bytes outcome" and clk :: "nat \<Rightarrow> nat \<Rightarrow> measured"
    and job :: "nat \<Rightarrow> sharded_app_prover_job"
  defines "out i \<equiv> mock_prove_sharded_app bk enc (clk i) (job i)"
  assumes "0 < n" "wire_ok bk" "\<forall>x. is_ok (enc x)" "tp_segments c = mock_num_segments" "mock_cost \<le> ps_cost_limit s"
    and "\<forall>i < n. sj_num_provers (job i) = n \<and> sj_prover_id (job i) = i \<and> sj_result_tx (job i)"
  defines "posted \<equiv> concat (map (\<lambda>i. fst (out i)) [0..<n])"
  shows "(\<forall>i < n. snd (out i) = Ok (ProverSuccess [])) \<and>
    (\<forall>r \<in> set posted. job_input c s r \<and> decodable bk r) \<and>
    length (executions posted) = 1 \<and> mset (app_segments posted) = mset [0..<mock_num_segments]"
proof -
  obtain b where b: "bk_encode_proof bk (mock_proof 256 4) = Ok b" "is_ok (bk_decode_proof bk b)"
    using assms(3) by (rule wire_okD)
  obtain segs where segs: "collect_outcomes enc (replicate mock_num_segments []) = Ok segs"
    using collect_outcomes_ok [of _ enc] assms(4) by blast
  let ?own = "\<lambda>i. filter (\<lambda>k. k mod n = i) [0..<mock_num_segments]"
  let ?e2 = "\<lambda>i. if i = 0 then [ExecuteE2Res (sj_context (job i)) (mock_e2 segs (clk i))] else []"
  have o: "out i = (?e2 i @ map (mock_app_result b (clk i) (job i)) (?own i), Ok (ProverSuccess []))" if "i < n" for i
    unfolding out_def using that assms(7) mock_shard_streamed [OF _ assms(2) _ b(1) segs, of "job i" "clk i"]
    by (simp del: upt_Suc)
  then have posted: "posted = concat (map (\<lambda>i. ?e2 i @ map (mock_app_result b (clk i) (job i)) (?own i)) [0..<n])"
    unfolding posted_def by (intro arg_cong [of _ _ concat] map_cong) simp_all
  have "\<forall>r \<in> set posted. job_input c s r \<and> decodable bk r"
    unfolding posted using assms(5,6) b(2)
    by (auto simp: mock_app_result_def mock_e2_def decodable_def)
  moreover have "executions posted = [mock_e2 segs (clk 0)]"
    using assms(2) unfolding posted selected_concat
    by (simp add: comp_def upt_conv_Cons executions_def [of "?e2 _"] del: upt_Suc) (simp add: executions_def mock_app_result_def)
  moreover have "app_segments posted = concat (map (\<lambda>i. map id (?own i)) [0..<n])"
    unfolding posted selected_concat
    by (intro arg_cong [of _ _ concat]) (simp add: comp_def, simp add: app_segments_def)
  moreover have "mset (concat (map (\<lambda>i. map id (?own i)) [0..<n])) = mset (map id [0..<mock_num_segments])"
    by (rule mset_by_key) (use assms(2) in simp_all)
  ultimately show ?thesis using o by simp
qed


text \<open>A codec that writes the bytes of a proof; three workers, and the job of one segment.\<close>

definition demo_mock_backend :: "(nat, nat, nat deferral_merkle_proofs) mock_backend" where
  "demo_mock_backend =
     \<lparr>bk_encode_proof = (\<lambda>p. Ok (tp_proof p)), bk_decode_proof = (\<lambda>b. Ok \<lparr>tp_proof = b, tp_user_public_values = Some []\<rparr>),
      bk_encode_root = Ok, bk_decode_root = Ok, bk_encode_evm = Ok,
      bk_max_children_leaf = 0, bk_max_children_internal = 0, bk_get_vk = (\<lambda>k. k), bk_app_vk = (\<lambda>k. k),
      bk_self_vk_commit = (\<lambda>i. None), bk_agg_prove_no_def = (\<lambda>i ps c. Err ''mock''),
      bk_agg_prove = (\<lambda>i ps c t. Err ''mock''), bk_root_prove = (\<lambda>r p n f. Err ''mock''),
      bk_prove_for_evm = (\<lambda>h r. Err ''mock''), bk_f64_add = (+)\<rparr>"

lemma demo_wire_ok: "wire_ok demo_mock_backend"
  by (simp add: wire_ok_def demo_mock_backend_def)

definition demo_mock_job :: "nat \<Rightarrow> sharded_app_prover_job" where
  "demo_mock_job i = \<lparr>sj_context = demo_context Stark, sj_num_provers = 3, sj_prover_id = i, sj_input_path = [],
     sj_segment_memory = None, sj_max_app_provers = 1, sj_result_tx = True, sj_deferral_state_paths = []\<rparr>"

theorem mock_shards_supply_inputs_witness:
  "mset (app_segments (concat (map (\<lambda>i. fst (mock_prove_sharded_app demo_mock_backend Ok demo_stop_watch (demo_mock_job i)))
     [0..<3]))) = mset [0..<16]"
  using mock_shards_supply_inputs [of 3 demo_mock_backend Ok "\<lparr>tp_segments = 16, tp_leaf_arity = 2, tp_internal_arity = 2\<rparr>"
    "(demo_state Stark 2 2)\<lparr>ps_cost_limit := 1000\<rparr>" demo_mock_job "\<lambda>_. demo_stop_watch"] demo_wire_ok
  by (simp add: demo_mock_job_def mock_num_segments_def mock_cost_def del: upt_Suc upt_rec_numeral)

definition demo_mock_merge :: "(bytes, 64 word list, nat, nat, nat, string, bytes, nat, nat, nat) merge_backend" where
  "demo_mock_merge =
     \<lparr>mb_decode_input = Inr, mb_decode_path = (\<lambda>b. Inl ''mock''), mb_encode_merkle = (\<lambda>m. Inl ''mock''),
      mb_num_circuits = (\<lambda>k. 0), mb_dimensions = (\<lambda>k. \<lparr>md_overall_height = 0, md_deferral_index = 0\<rparr>),
      mb_sdk = (\<lambda>k. Inl ''mock''), mb_prover = (\<lambda>x. Inl ''mock''), mb_has_deferral_prover = False,
      mb_prove_circuits = (\<lambda>i. Inl ''mock''), mb_prove_def = (\<lambda>h. Inl ''mock''), mb_prove_mixed = (\<lambda>p j m n. Inl ''mock''),
      mb_wrap = (\<lambda>p m. Inl ''mock''), mb_depth = (\<lambda>p. None), mb_num_airs = (\<lambda>p. 0), mb_def_pvs_air_id = 0,
      mb_merkle = \<lparr>mk_tree = (\<lambda>m k. k), mk_initial_memory = (\<lambda>x. 0), mk_zero = 0\<rparr>\<rparr>"

definition demo_mock_env :: "(nat, nat, nat, string, bytes, nat, nat, nat) mock_env" where
  "demo_mock_env =
     \<lparr>we_store = None, we_backend = demo_mock_backend, we_merge = demo_mock_merge, we_decode_merkle = (\<lambda>b. Inl ''mock''),
      we_decode_request = (\<lambda>b. Inl ''mock''), we_available = (\<lambda>k. True), we_submit_app = (\<lambda>j. Err ''mock''),
      we_submit_leaf = (\<lambda>j. Err ''mock''), we_submit_internal = (\<lambda>j. Err ''mock''), we_submit_root = (\<lambda>j. Err ''mock''),
      we_submit_halo2 = (\<lambda>j. Err ''mock''), we_network = demo_network, we_client = result_client_new ''http://manager/'' 0,
      we_shm = calm_shm, we_read = (\<lambda>fs p. Inl ''mock''), we_serialize_stdin = Ok, we_decode_bundle = (\<lambda>b. Inl ''mock'')\<rparr>"

definition demo_mock_condition :: "(nat, nat, nat, string, bytes, nat, nat, nat) mock_condition" where
  "demo_mock_condition =
     (demo_stop_watch,
      \<lparr>mp_leaf = (\<lambda>j. Inr (''leaf-prover-0'', (), demo_idle)), mp_internal = (\<lambda>j. Inr (''internal-prover-0'', (), demo_idle)),
       mp_root = (\<lambda>j. Inr (''root-prover-0'', (), demo_idle)), mp_halo2 = (\<lambda>j. Inr (''halo2-prover-0'', (), demo_idle))\<rparr>,
      demo_mock_env, demo_worker_state)"

definition demo_mock_fed :: job where
  "demo_mock_fed = run_stream Mock_Provers demo_clock [demo_app 0, demo_e2 1] (job_of (demo_state Stark 1 2) [])"


end
