(* ===== verification/Proof_Codec.thy ===== *)
theory Proof_Codec
  imports Manager_App Worker_Artifacts
begin

text \<open>
  The typed access to proofs outside the proving pipeline: the wire form of an EVM proof, \<open>proof/src/lib.rs\<close>, and
  the loading of a persisted final proof with the verifying-key cache of the command line verifier,
  \<open>edge-worker/src/stark_verify.rs\<close> and \<open>bin/verify_edge_final_proof.rs\<close>. \<open>bincode\<close>, \<open>zstd\<close>, the OpenVM codec, the SDK
  and its \<open>CommitBytes\<close> are parameters.
\<close>

section \<open>The wire form of an EVM proof\<close>

definition babybear_modulus_pow8_be :: bytes where
  "babybear_modulus_pow8_be =
     [0x00, 0x98, 0xc2, 0x9b, 0x8b, 0x2f, 0x1b, 0x6f, 0x4c, 0x0a, 0x66, 0x71, 0x44, 0x70, 0xa4, 0x03,
      0x61, 0x2c, 0x60, 0x05, 0xc4, 0x90, 0x00, 0x06, 0x27, 0x00, 0x00, 0x03, 0xc0, 0x00, 0x00, 0x01]"

text \<open>\<open>'c\<close> is \<open>CommitBytes\<close>.\<close>

record 'c evm_proof =
  ep_version :: string
  ep_app_exe_commit :: 'c
  ep_app_vm_commit :: 'c
  ep_user_public_values :: bytes
  ep_accumulator :: bytes
  ep_proof :: bytes

record evm_proof_wire =
  epw_version :: string
  epw_app_exe_commit :: bytes
  epw_app_vm_commit :: bytes
  epw_user_public_values :: bytes
  epw_accumulator :: bytes
  epw_proof :: bytes

text \<open>\<open>CommitBytes::new\<close>, which asserts, and \<open>as_slice\<close>; \<open>bincode\<close> on the wire form.\<close>

record 'c evm_codec =
  ec_commit_new :: "bytes \<Rightarrow> 'c outcome"
  ec_as_slice :: "'c \<Rightarrow> bytes"
  ec_serialize :: "evm_proof_wire \<Rightarrow> string + bytes"
  ec_deserialize :: "bytes \<Rightarrow> string + evm_proof_wire"

text \<open>\<open>Ord\<close> of byte arrays.\<close>

fun bytes_less :: "bytes \<Rightarrow> bytes \<Rightarrow> bool" where
  "bytes_less [] [] = False"
| "bytes_less [] (y # ys) = True"
| "bytes_less (x # xs) [] = False"
| "bytes_less (x # xs) (y # ys) = (x < y \<or> x = y \<and> bytes_less xs ys)"

definition hex_digit :: "nat \<Rightarrow> char" where
  "hex_digit n = (if n < 10 then char_of (48 + n) else char_of (87 + n))"

definition hex_byte :: "8 word \<Rightarrow> string" where
  "hex_byte b = [hex_digit (unat b div 16), hex_digit (unat b mod 16)]"

definition commit_bytes :: "'c evm_codec \<Rightarrow> bytes \<Rightarrow> string \<Rightarrow> 'c outcome" where
  "commit_bytes ec b field =
     (if length b \<noteq> 32 then Err (field @ '' must be 32 bytes, got '' @ show_nat (length b))
      else if \<not> bytes_less b babybear_modulus_pow8_be
      then Err (field @ '' (0x'' @ concat (map hex_byte b) @ '') is not a canonical CommitBytes (>= p^8)'')
      else ec_commit_new ec b)"

definition evm_proof_to_wire :: "'c evm_codec \<Rightarrow> 'c evm_proof \<Rightarrow> evm_proof_wire" where
  "evm_proof_to_wire ec p =
     \<lparr>epw_version = ep_version p, epw_app_exe_commit = ec_as_slice ec (ep_app_exe_commit p),
      epw_app_vm_commit = ec_as_slice ec (ep_app_vm_commit p), epw_user_public_values = ep_user_public_values p,
      epw_accumulator = ep_accumulator p, epw_proof = ep_proof p\<rparr>"

definition evm_proof_from_wire :: "'c evm_codec \<Rightarrow> evm_proof_wire \<Rightarrow> 'c evm_proof outcome" where
  "evm_proof_from_wire ec wire =
     bind_outcome (commit_bytes ec (epw_app_exe_commit wire) ''app_exe_commit'') (\<lambda>exe.
     bind_outcome (commit_bytes ec (epw_app_vm_commit wire) ''app_vm_commit'') (\<lambda>vm.
       Ok \<lparr>ep_version = epw_version wire, ep_app_exe_commit = exe, ep_app_vm_commit = vm,
           ep_user_public_values = epw_user_public_values wire, ep_accumulator = epw_accumulator wire,
           ep_proof = epw_proof wire\<rparr>))"

definition encode_evm_proof :: "'c evm_codec \<Rightarrow> 'c evm_proof \<Rightarrow> bytes outcome" where
  "encode_evm_proof ec p =
     (case ec_serialize ec (evm_proof_to_wire ec p) of
        Inl e \<Rightarrow> Err ''failed to bincode-encode wire payload''
      | Inr b \<Rightarrow> Ok b)"

definition decode_evm_proof :: "'c evm_codec \<Rightarrow> bytes \<Rightarrow> 'c evm_proof outcome" where
  "decode_evm_proof ec b =
     (case ec_deserialize ec b of
        Inl e \<Rightarrow> Err ''failed to bincode-decode wire payload''
      | Inr wire \<Rightarrow> evm_proof_from_wire ec wire)"

section \<open>Loading a persisted proof\<close>

text \<open>\<open>fs::read\<close>.\<close>

definition fs_read :: "io_faults \<Rightarrow> string \<Rightarrow> disk \<Rightarrow> bytes outcome" where
  "fs_read faults path d =
     (case read_file faults path d of
        File_Bytes b \<Rightarrow> Ok b
      | File_Not_Found \<Rightarrow> Err ''No such file or directory (os error 2)''
      | File_Error e \<Rightarrow> Err e)"

definition zstd_frame_magic :: bytes where
  "zstd_frame_magic = [0x28, 0xB5, 0x2F, 0xFD]"

definition decode_persisted_final_proof_bytes :: "(bytes \<Rightarrow> string + bytes) \<Rightarrow> string \<Rightarrow> bytes \<Rightarrow> bytes outcome" where
  "decode_persisted_final_proof_bytes zstd_decode path proof_bytes =
     (if take 4 proof_bytes = zstd_frame_magic then
        (case zstd_decode proof_bytes of
           Inl e \<Rightarrow> Err (''Failed to zstd-decompress persisted Edge final proof '' @ path)
         | Inr b \<Rightarrow> Ok b)
      else Ok proof_bytes)"

definition load_final_proof ::
  "io_faults \<Rightarrow> (bytes \<Rightarrow> string + bytes) \<Rightarrow> (bytes \<Rightarrow> string + 'p) \<Rightarrow> string \<Rightarrow> disk \<Rightarrow> 'p outcome" where
  "load_final_proof faults zstd_decode vm_decode path d =
     bind_outcome (map_err (\<lambda>e. ''Failed to read final proof '' @ path) (fs_read faults path d)) (\<lambda>b.
     bind_outcome (decode_persisted_final_proof_bytes zstd_decode path b) (\<lambda>b.
       case vm_decode b of
         Inl e \<Rightarrow> Err (''Failed to decode Edge final proof (VmStarkProof) '' @ path)
       | Inr p \<Rightarrow> Ok p))"

text \<open>The key files, in \<open>bincode\<close>.\<close>

record 'v vk_codec =
  vc_serialize :: "'v \<Rightarrow> string + bytes"
  vc_deserialize :: "bytes \<Rightarrow> string + 'v"

definition parent_dir :: "string \<Rightarrow> string option" where
  "parent_dir path =
     (if path = [] \<or> path = ''/'' then None
      else Some (let p = rev (dropWhile (\<lambda>c. c \<noteq> CHR ''/'') (rev path)) in
                 if p = [] \<or> p = ''/'' then p else butlast p))"

definition write_vm_vk_bincode :: "io_faults \<Rightarrow> 'v vk_codec \<Rightarrow> string \<Rightarrow> 'v \<Rightarrow> disk \<Rightarrow> disk \<times> unit outcome" where
  "write_vm_vk_bincode faults vc path vk d =
     (case (case parent_dir path of
              None \<Rightarrow> Ok ()
            | Some parent \<Rightarrow> map_err (\<lambda>e. ''Failed to create '' @ parent) (create_dir_all faults parent)) of
        Ok _ \<Rightarrow>
          (case vc_serialize vc vk of
             Inl e \<Rightarrow> (d, Err ''Failed to bincode-serialize the vk'')
           | Inr b \<Rightarrow>
               (case write_file faults path b d of
                  (d1, r) \<Rightarrow> (d1, map_err (\<lambda>e. ''Failed to write VM verifying key '' @ path) r)))
      | e \<Rightarrow> (d, e))"

definition read_vm_vk_bincode :: "io_faults \<Rightarrow> 'v vk_codec \<Rightarrow> string \<Rightarrow> disk \<Rightarrow> 'v outcome" where
  "read_vm_vk_bincode faults vc path d =
     bind_outcome (map_err (\<lambda>e. ''Failed to read '' @ path) (fs_read faults path d)) (\<lambda>b.
       case vc_deserialize vc b of
         Inl e \<Rightarrow> Err (''Failed to bincode-decode VM verifying key '' @ path)
       | Inr vk \<Rightarrow> Ok vk)"

record verify_args =
  va_proof :: string
  va_artifacts_path :: string
  va_program_name :: string
  va_program_version :: nat
  va_vm_vk :: "string option"
  va_deferral :: bool

text \<open>The SDK of the tool: the standard one, the one rebuilt from a deferral key, and the key bundle that an SDK
  gives for an executable (its prover may fail to build).\<close>

record ('k, 'd, 'x, 's, 'v) verify_sdk =
  vs_create_edge_sdk :: "'s outcome"
  vs_from_deferral_cached_pk :: "('k, 'd) cached_proving_key \<Rightarrow> 's outcome"
  vs_vm_vk :: "'s \<Rightarrow> 'x \<Rightarrow> 'v outcome"

definition build_vm_vk ::
  "('k, 'd, 'x) artifact_files \<Rightarrow> ('k, 'd, 'x, 's, 'v) verify_sdk \<Rightarrow> verify_args \<Rightarrow> 'v outcome" where
  "build_vm_vk files vsdk args =
     (let program = \<lparr>pr_name = va_program_name args, pr_version = va_program_version args\<rparr> in
      bind_outcome (map_err (\<lambda>e. ''Failed to load Edge artifacts'')
        (load_from_disk files (va_artifacts_path args) [program] None (va_deferral args))) (\<lambda>artifacts.
      bind_outcome (ok_or (map_of (art_programs artifacts) program) (''vmexe missing for '' @ program_display program)) (\<lambda>exe.
      bind_outcome
        (if va_deferral args then
           bind_outcome (ok_or (art_deferral artifacts) (''--deferral set but no deferral cached_pk under '' @
             va_artifacts_path args @ ''/deferral/cached_pk'')) (\<lambda>deferral.
           map_err (\<lambda>e. ''Sdk::from_deferral_cached_proving_key failed'') (vs_from_deferral_cached_pk vsdk (da_cached_pk deferral)))
         else vs_create_edge_sdk vsdk) (\<lambda>sdk.
      map_err (\<lambda>e. ''Failed to construct Edge prover for baseline generation'') (vs_vm_vk vsdk sdk exe)))))"

text \<open>\<open>Path::exists\<close> is false when the call fails.\<close>

definition load_or_create_vm_vk ::
  "io_faults \<Rightarrow> 'v vk_codec \<Rightarrow> ('k, 'd, 'x) artifact_files \<Rightarrow> ('k, 'd, 'x, 's, 'v) verify_sdk \<Rightarrow> verify_args \<Rightarrow>
     disk \<Rightarrow> disk \<times> 'v outcome" where
  "load_or_create_vm_vk faults vc files vsdk args d =
     (case va_vm_vk args of
        None \<Rightarrow> (d, build_vm_vk files vsdk args)
      | Some path \<Rightarrow>
          if path_exists faults path d = Ok True then (d, read_vm_vk_bincode faults vc path d)
          else (case build_vm_vk files vsdk args of
                  Err e \<Rightarrow> (d, Err e)
                | Panic p \<Rightarrow> (d, Panic p)
                | Ok vk \<Rightarrow>
                    (case write_vm_vk_bincode faults vc path vk d of
                       (d1, r) \<Rightarrow> (d1, bind_outcome r (\<lambda>_. Ok vk)))))"

definition verify_final_proof ::
  "io_faults \<Rightarrow> 'v vk_codec \<Rightarrow> (bytes \<Rightarrow> string + bytes) \<Rightarrow> (bytes \<Rightarrow> string + 'p) \<Rightarrow> ('v \<Rightarrow> 'p \<Rightarrow> string + unit) \<Rightarrow>
     ('k, 'd, 'x) artifact_files \<Rightarrow> ('k, 'd, 'x, 's, 'v) verify_sdk \<Rightarrow> verify_args \<Rightarrow> disk \<Rightarrow> disk \<times> unit outcome" where
  "verify_final_proof faults vc zstd_decode vm_decode verify files vsdk args d =
     (case load_final_proof faults zstd_decode vm_decode (va_proof args) d of
        Err e \<Rightarrow> (d, Err e)
      | Panic p \<Rightarrow> (d, Panic p)
      | Ok p \<Rightarrow>
          (case load_or_create_vm_vk faults vc files vsdk args d of
             (d1, r) \<Rightarrow>
               (d1, bind_outcome r (\<lambda>vk. case verify vk p of
                  Inl e \<Rightarrow> Err ''OpenVM STARK verification failed'' | Inr _ \<Rightarrow> Ok ()))))"

section \<open>Canonical commitments\<close>

text \<open>The integer that a big-endian byte string denotes.\<close>

fun be_value :: "bytes \<Rightarrow> nat" where
  "be_value [] = 0"
| "be_value (x # xs) = unat x * 256 ^ length xs + be_value xs"

definition babybear_modulus :: nat where
  "babybear_modulus = 15 * 2 ^ 27 + 1"

definition canonical_commit :: "bytes \<Rightarrow> bool" where
  "canonical_commit b \<longleftrightarrow> length b = 32 \<and> be_value b < babybear_modulus ^ 8"

lemma be_value_less: "be_value xs < 256 ^ length xs"
proof (induction xs)
  case (Cons x xs)
  have "unat x < 2 ^ LENGTH(8)" by (rule unsigned_less)
  then have "unat x < 256" by simp
  then have "Suc (unat x) * 256 ^ length xs \<le> 256 * 256 ^ length xs" by (intro mult_le_mono1) simp
  then show ?case using Cons.IH unfolding be_value.simps length_Cons power_Suc mult_Suc by linarith
qed simp

text \<open>The order of byte arrays is the order of the integers.\<close>

lemma bytes_less_value: "length xs = length ys \<Longrightarrow> bytes_less xs ys \<longleftrightarrow> be_value xs < be_value ys"
proof (induction xs ys rule: bytes_less.induct)
  case (4 x xs y ys)
  let ?b = "256 ^ length ys :: nat"
  have len: "length xs = length ys" using "4.prems" by simp
  have v: "be_value xs < ?b" "be_value ys < ?b" using be_value_less [of xs] be_value_less [of ys] len by simp_all
  consider "unat x < unat y" | "x = y" | "unat y < unat x"
    by (metis linorder_neqE_nat word_unat_eq_iff)
  then show ?case
  proof cases
    case 1
    then have "Suc (unat x) * ?b \<le> unat y * ?b" by (intro mult_le_mono1) simp
    then show ?thesis using v 1 len by (simp add: word_less_nat_alt)
  next
    case 2
    then show ?thesis using 4 len by simp
  next
    case 3
    then have "Suc (unat y) * ?b \<le> unat x * ?b" by (intro mult_le_mono1) simp
    then show ?thesis using v 3 len by (auto simp: word_less_nat_alt)
  qed
qed simp_all

lemma modulus_pow8_value: "be_value babybear_modulus_pow8_be = babybear_modulus ^ 8"
  by (simp add: babybear_modulus_pow8_be_def babybear_modulus_def)

lemma commit_bytes_cases:
  assumes "\<forall>b. canonical_commit b \<longrightarrow> (\<exists>c. ec_commit_new ec b = Ok c \<and> ec_as_slice ec c = b)"
  shows "if canonical_commit b then \<exists>c. commit_bytes ec b field = Ok c \<and> ec_as_slice ec c = b
    else \<exists>e. commit_bytes ec b field = Err e"
proof -
  have "length babybear_modulus_pow8_be = 32" by (simp add: babybear_modulus_pow8_be_def)
  then have "length b = 32 \<Longrightarrow> bytes_less b babybear_modulus_pow8_be \<longleftrightarrow> be_value b < babybear_modulus ^ 8"
    by (simp add: bytes_less_value modulus_pow8_value)
  then show ?thesis using assms by (auto simp: commit_bytes_def canonical_commit_def)
qed

section \<open>Persisted proofs\<close>

lemma stark_payload_Ok:
  assumes "stark_payload (Some cd) s st b = Ok payload"
  shows "\<exists>i u m. cd_decode_proof cd b = Inr (i, Some u) \<and> cd_encode cd i u m = Inr payload"
proof (cases "cd_decode_proof cd b")
  case (Inr iu)
  obtain i uo where iu: "iu = (i, uo)" by (cases iu)
  have e: "(case r of Inl e \<Rightarrow> Err (f e) | Inr b \<Rightarrow> Ok b) = Ok p \<longleftrightarrow> r = Inr p" for r :: "string + bytes" and f p
    by (cases r) simp_all
  show ?thesis using assms Inr iu
    by (cases uo) (auto simp: stark_payload_def from_sum_def bind_outcome_Ok_iff Let_def e)
qed (use assms in \<open>simp add: stark_payload_def from_sum_def\<close>)

lemma final_proof_payload_stark:
  assumes "final_proof_payload codec s = Ok (Some (payload, suffix))" "pc_proof_type (ps_context s) = Stark"
  shows "\<exists>st b. final_internal_state s = Some st \<and> ips_proof st = Some b \<and> stark_payload codec s st b = Ok payload"
  using assms by (auto simp: final_proof_payload_def bind_outcome_Ok_iff split: if_splits option.splits)

lemma persist_final_proof_success:
  assumes "persist_final_proof_to_disk faults codec zstd_encode dir compress s d = (s', d', Ok (Some path))"
    and "ps_persisted_final_proof_path s = None"
  shows "\<exists>payload suffix content q. final_proof_payload codec s = Ok (Some (payload, suffix)) \<and>
    (if compress then zstd_encode payload else Inr payload) = Inr content \<and>
    path = final_proof_path dir (pc_proof_uuid (ps_context s)) suffix \<and>
    write_then_rename faults (final_proof_temp_path dir (pc_proof_uuid (ps_context s)) suffix) path content d = (d', Ok q)"
proof -
  note run = assms(1) [unfolded persist_final_proof_to_disk_def assms(2) option.case]
  show ?thesis
  proof (cases "final_proof_payload codec s")
    case (Ok x)
    show ?thesis
    proof (cases x)
      case (Some ps)
      obtain payload suffix where ps: "ps = (payload, suffix)" by (cases ps)
      show ?thesis using run unfolding Ok Some ps
        by (auto simp: Let_def split: outcome.splits sum.splits prod.splits)
    qed (use run Ok in simp)
  qed (use run in simp_all)
qed

text \<open>A key bundle that was built and cached is read back, whatever the artifacts have become.\<close>

lemma cached_vm_vk:
  assumes "load_or_create_vm_vk (\<lambda>op. None) vc files vsdk args d = (d1, Ok vk)" "va_vm_vk args = Some path"
    and "map_of d path = None" "\<forall>v b. vc_serialize vc v = Inr b \<longrightarrow> vc_deserialize vc b = Inr v"
  shows "load_or_create_vm_vk (\<lambda>op. None) vc files' vsdk' args d1 = (d1, Ok vk)"
proof -
  obtain b where "d1 = AList.update path b d" "vc_serialize vc vk = Inr b"
    using assms(1-3)
    by (auto simp: load_or_create_vm_vk_def path_exists_def write_vm_vk_bincode_def create_dir_all_def write_file_def map_err_def
        split: outcome.splits option.splits sum.splits)
  then show ?thesis using assms(2,4)
    by (simp add: load_or_create_vm_vk_def path_exists_def read_vm_vk_bincode_def fs_read_def read_file_def update_conv map_err_def)
qed

section \<open>Properties\<close>

text \<open>C37. Decoding an EVM proof accepts exactly the canonical commitments: both must be 32 bytes that denote, read as
  a big-endian integer, a value below the eighth power of the BabyBear modulus; an accepted proof has the wire
  form it came from, every other is an error, and the assertion of \<open>CommitBytes::new\<close>, which holds on canonical
  bytes, is never run into.\<close>

theorem evm_decode_accepts_canonical:
  assumes "\<forall>b. canonical_commit b \<longrightarrow> (\<exists>c. ec_commit_new ec b = Ok c \<and> ec_as_slice ec c = b)"
    and "ec_deserialize ec b = Inr wire"
  shows "case decode_evm_proof ec b of
      Ok p \<Rightarrow> canonical_commit (epw_app_exe_commit wire) \<and> canonical_commit (epw_app_vm_commit wire) \<and>
        evm_proof_to_wire ec p = wire
    | Err e \<Rightarrow> \<not> (canonical_commit (epw_app_exe_commit wire) \<and> canonical_commit (epw_app_vm_commit wire))
    | Panic p \<Rightarrow> False"
  using commit_bytes_cases [OF assms(1), of "epw_app_exe_commit wire" "''app_exe_commit''"]
    commit_bytes_cases [OF assms(1), of "epw_app_vm_commit wire" "''app_vm_commit''"]
  by (auto simp: decode_evm_proof_def assms(2) evm_proof_from_wire_def evm_proof_to_wire_def split: if_splits)

text \<open>A library that keeps the bytes of a commitment. The last canonical value is one below the modulus constant.\<close>

definition plain_wire :: "bytes \<Rightarrow> evm_proof_wire" where
  "plain_wire b = \<lparr>epw_version = ''v2.0'', epw_app_exe_commit = b, epw_app_vm_commit = replicate 32 0,
     epw_user_public_values = [], epw_accumulator = [], epw_proof = []\<rparr>"

definition plain_evm_codec :: "bytes evm_codec" where
  "plain_evm_codec =
     \<lparr>ec_commit_new = (\<lambda>b. if bytes_less b babybear_modulus_pow8_be then Ok b else Panic ''not canonical''), ec_as_slice = (\<lambda>c. c),
      ec_serialize = (\<lambda>w. Inr (epw_app_exe_commit w)), ec_deserialize = (\<lambda>b. Inr (plain_wire b))\<rparr>"

definition largest_commit :: bytes where
  "largest_commit = butlast babybear_modulus_pow8_be @ [0x00]"

theorem evm_decode_accepts_canonical_witness:
  "canonical_commit largest_commit \<and> is_ok (decode_evm_proof plain_evm_codec largest_commit) \<and>
     \<not> is_ok (decode_evm_proof plain_evm_codec babybear_modulus_pow8_be)"
proof -
  have len: "length babybear_modulus_pow8_be = 32" by (simp add: babybear_modulus_pow8_be_def)
  have law: "\<forall>b. canonical_commit b \<longrightarrow> (\<exists>c. ec_commit_new plain_evm_codec b = Ok c \<and> ec_as_slice plain_evm_codec c = b)"
    using len by (auto simp: canonical_commit_def plain_evm_codec_def bytes_less_value modulus_pow8_value)
  have d: "ec_deserialize plain_evm_codec b = Inr (plain_wire b)" for b by (simp add: plain_evm_codec_def)
  have run: "is_ok (decode_evm_proof plain_evm_codec largest_commit)"
    "\<not> is_ok (decode_evm_proof plain_evm_codec babybear_modulus_pow8_be)" by code_simp+
  from evm_decode_accepts_canonical [OF law d, of largest_commit] run show ?thesis
    by (cases "decode_evm_proof plain_evm_codec largest_commit") (simp_all add: plain_wire_def)
qed


definition sample_stark_state :: proof_state where
  "sample_stark_state =
     (proof_state_new (proof_context_new ''p1'' \<lparr>pr_name = ''fib'', pr_version = 1\<rparr> []) 1000 2 4 2 300 0)
     \<lparr>ps_num_segments := Some 1, ps_internal_proofs := [(\<lparr>ipi_layer_idx = 1, ipi_idx = 0\<rparr>,
        \<lparr>ips_proof = Some [5], ips_layer_idx = 1, ips_segment_start = 0, ips_segment_end = 0, ips_prove_time_ms = 0,
         ips_compression_time_ms = 0, ips_sub_metrics = [], ips_deferral_merkle_proofs_bytes = None,
         ips_ready_for_evm = False\<rparr>)]\<rparr>"

definition sample_codec :: stark_codec where
  "sample_codec =
     \<lparr>cd_decode_proof = (\<lambda>b. Inr (b, Some [9])), cd_decode_merkle = Inr,
      cd_encode = (\<lambda>i u m. if u = [9] \<and> m = None then Inr (0 # i) else Inl ''unsupported'')\<rparr>"

definition sample_decode :: "bytes \<Rightarrow> string + bytes \<times> bytes \<times> bytes option" where
  "sample_decode b = Inr (tl b, [9], None)"

definition sample_zstd :: "bytes \<Rightarrow> string + bytes" where
  "sample_zstd x = Inr (zstd_frame_magic @ x)"


end
