(* ===== verification/Openvm_Config.thy ===== *)
theory Openvm_Config
  imports Manager_Config Proof_Codec
begin

text \<open>
  The VM configuration of the generation tools, \<open>edge-worker/src/openvm_config.rs\<close>, and the input and output of
  these tools: a computation that reads and writes the disk and may fail. The SDK (its configuration values, parameter
  sets, builders) is the parameter \<open>vm_builder\<close>; of \<open>std\<close> the UTF-8 check of \<open>fs::read_to_string\<close> is modelled.
\<close>

section \<open>Computations on the disk\<close>

type_synonym 'a io = "disk \<Rightarrow> disk \<times> 'a outcome"

definition lift_io :: "'a outcome \<Rightarrow> 'a io" where
  "lift_io r d = (d, r)"

text \<open>The \<open>?\<close> operator between two calls.\<close>

definition bind_io :: "'a io \<Rightarrow> ('a \<Rightarrow> 'b io) \<Rightarrow> 'b io" where
  "bind_io m f d = (case m d of (d1, Ok x) \<Rightarrow> f x d1 | (d1, Err e) \<Rightarrow> (d1, Err e) | (d1, Panic p) \<Rightarrow> (d1, Panic p))"

definition context_io :: "(string \<Rightarrow> string) \<Rightarrow> 'a io \<Rightarrow> 'a io" where
  "context_io f m d = (case m d of (d1, r) \<Rightarrow> (d1, map_err f r))"

text \<open>A call that only reads.\<close>

definition read_io :: "(disk \<Rightarrow> 'a outcome) \<Rightarrow> 'a io" where
  "read_io g d = (d, g d)"

lemma bind_io_Ok [simp]:
  "bind_io m f d = (d', Ok y) \<longleftrightarrow> (\<exists>d1 x. m d = (d1, Ok x) \<and> f x d1 = (d', Ok y))"
  by (auto simp: bind_io_def split: prod.splits outcome.splits)

lemma context_io_Ok [simp]: "context_io f m d = (d', Ok y) \<longleftrightarrow> m d = (d', Ok y)"
  by (auto simp: context_io_def map_err_eq_Ok split: prod.splits)

lemma lift_io_eq [simp]: "lift_io r d = (d', r') \<longleftrightarrow> d' = d \<and> r = r'"
  by (auto simp: lift_io_def)

lemma read_io_eq [simp]: "read_io g d = (d', r') \<longleftrightarrow> d' = d \<and> g d = r'"
  by (auto simp: read_io_def)

section \<open>UTF-8\<close>

text \<open>What may follow a lead byte: the ranges of the bytes still to come; \<open>None\<close> for a byte that starts nothing.\<close>

definition utf8_lead :: "8 word \<Rightarrow> (8 word \<times> 8 word) list option" where
  "utf8_lead b =
     (let tail = (0x80, 0xBF) in
      if b < 0x80 then Some []
      else if 0xC2 \<le> b \<and> b \<le> 0xDF then Some [tail]
      else if b = 0xE0 then Some [(0xA0, 0xBF), tail]
      else if b = 0xED then Some [(0x80, 0x9F), tail]
      else if 0xE1 \<le> b \<and> b \<le> 0xEF then Some [tail, tail]
      else if b = 0xF0 then Some [(0x90, 0xBF), tail, tail]
      else if 0xF1 \<le> b \<and> b \<le> 0xF3 then Some [tail, tail, tail]
      else if b = 0xF4 then Some [(0x80, 0x8F), tail, tail]
      else None)"

fun utf8_step :: "(8 word \<times> 8 word) list option \<Rightarrow> 8 word \<Rightarrow> (8 word \<times> 8 word) list option" where
  "utf8_step None b = None"
| "utf8_step (Some []) b = utf8_lead b"
| "utf8_step (Some ((lo, hi) # rs)) b = (if lo \<le> b \<and> b \<le> hi then Some rs else None)"

definition utf8_valid :: "bytes \<Rightarrow> bool" where
  "utf8_valid bs \<longleftrightarrow> foldl utf8_step (Some []) bs = Some []"

text \<open>\<open>fs::read_to_string\<close>; a \<open>String\<close> is the list of its bytes.\<close>

definition fs_read_to_string :: "io_faults \<Rightarrow> string \<Rightarrow> disk \<Rightarrow> string outcome" where
  "fs_read_to_string faults path d =
     bind_outcome (fs_read faults path d) (\<lambda>b.
       if utf8_valid b then Ok (map (\<lambda>w. char_of (unat w)) b) else Err ''stream did not contain valid UTF-8'')"

section \<open>The configuration\<close>

definition vm_max_constraint_degree :: nat where
  "vm_max_constraint_degree = 3"

definition vm_num_public_values :: nat where
  "vm_num_public_values = 32"

text \<open>The SDK: \<open>'c\<close> is \<open>SdkVmConfig\<close>, \<open>'p\<close> \<open>SystemParams\<close>, \<open>'q\<close> \<open>AggregationSystemParams\<close>, \<open>'m\<close> \<open>MemoryDimensions\<close>, \<open>'g\<close>
  the deferral configuration, \<open>'h\<close> \<open>DeferralAggProver\<close> and \<open>'s\<close> \<open>Sdk\<close>. A builder call takes the configuration, the
  two parameter sets, the directory of the KZG files and the deferral prover.\<close>

record ('c, 'p, 'q, 'm, 'g, 'h, 's) vm_builder =
  vb_standard :: 'c
  vb_from_toml :: "string \<Rightarrow> string + 'c"
  vb_with_max_constraint_degree :: "nat \<Rightarrow> 'c \<Rightarrow> 'c"
  vb_with_public_values :: "nat \<Rightarrow> 'c \<Rightarrow> 'c"
  vb_memory_dimensions :: "'c \<Rightarrow> 'm"
  vb_num_public_values :: "'c \<Rightarrow> nat"
  vb_set_deferral :: "'g \<Rightarrow> 'c \<Rightarrow> 'c"
  vb_set_deferral_cells :: "nat \<Rightarrow> 'c \<Rightarrow> 'c"
  vb_apply_optimizations :: "'c \<Rightarrow> 'c"
  vb_max_app_log_stacked_height :: nat
  vb_default_app_l_skip :: nat
  vb_default_deferral_cells :: nat
  vb_app_params :: "nat \<Rightarrow> 'p"
  vb_set_skip_and_stack :: "nat \<Rightarrow> nat \<Rightarrow> 'p \<Rightarrow> 'p"
  vb_leaf_params :: 'p
  vb_internal_params :: 'p
  vb_hook_params :: 'p
  vb_agg_params :: "'p \<Rightarrow> 'p \<Rightarrow> 'q"
  vb_verify_stark :: "'q \<Rightarrow> 'p \<Rightarrow> 'm \<Rightarrow> nat \<Rightarrow> 'h"
  vb_make_verify_stark_config :: "'h \<Rightarrow> 'g"
  vb_sdk_new :: "'c \<Rightarrow> 'p \<Rightarrow> 'q \<Rightarrow> string + 's"
  vb_build :: "'c \<Rightarrow> 'p \<Rightarrow> 'q \<Rightarrow> string option \<Rightarrow> 'h option \<Rightarrow> string + 's"

text \<open>\<open>var\<close> is the value of \<open>EDGE_OPENVM_CONFIG\<close>.\<close>

definition edge_vm_config ::
  "('c, 'p, 'q, 'm, 'g, 'h, 's) vm_builder \<Rightarrow> io_faults \<Rightarrow> string option \<Rightarrow> disk \<Rightarrow> 'c outcome" where
  "edge_vm_config vb faults var d =
     bind_outcome
       (case var of
          None \<Rightarrow> Ok (vb_standard vb)
        | Some path \<Rightarrow>
            if trim path = [] then Ok (vb_standard vb)
            else (case fs_read_to_string faults path d of
                    Err e \<Rightarrow> Panic (''Failed to read EDGE_OPENVM_CONFIG ('' @ path @ ''): '' @ e)
                  | Panic p \<Rightarrow> Panic p
                  | Ok toml \<Rightarrow>
                      (case vb_from_toml vb toml of
                         Inl e \<Rightarrow> Panic (''Failed to parse EDGE_OPENVM_CONFIG ('' @ path @ '') as openvm.toml: '' @ e)
                       | Inr config \<Rightarrow> Ok config)))
       (\<lambda>config. Ok (vb_with_public_values vb vm_num_public_values
                      (vb_with_max_constraint_degree vb vm_max_constraint_degree config)))"

definition edge_app_and_agg_params :: "('c, 'p, 'q, 'm, 'g, 'h, 's) vm_builder \<Rightarrow> 'p \<times> 'q" where
  "edge_app_and_agg_params vb =
     (vb_set_skip_and_stack vb (vb_default_app_l_skip vb)
        (vb_max_app_log_stacked_height vb - vb_default_app_l_skip vb)
        (vb_app_params vb (vb_max_app_log_stacked_height vb)),
      vb_agg_params vb (vb_leaf_params vb) (vb_internal_params vb))"

definition wrap_sum :: "string \<Rightarrow> string + 'a \<Rightarrow> 'a outcome" where
  "wrap_sum msg r = (case r of Inl e \<Rightarrow> Err msg | Inr x \<Rightarrow> Ok x)"

definition create_edge_sdk ::
  "('c, 'p, 'q, 'm, 'g, 'h, 's) vm_builder \<Rightarrow> io_faults \<Rightarrow> string option \<Rightarrow> disk \<Rightarrow> 's outcome" where
  "create_edge_sdk vb faults var d =
     (case edge_app_and_agg_params vb of
        (app_params, agg_params) \<Rightarrow>
          bind_outcome (edge_vm_config vb faults var d) (\<lambda>config.
            wrap_sum ''Failed to create axiom-edge SDK config'' (vb_sdk_new vb config app_params agg_params)))"

definition create_edge_sdk_for_halo2 ::
  "('c, 'p, 'q, 'm, 'g, 'h, 's) vm_builder \<Rightarrow> io_faults \<Rightarrow> string option \<Rightarrow> string \<Rightarrow> disk \<Rightarrow> 's outcome" where
  "create_edge_sdk_for_halo2 vb faults var kzg_params_dir d =
     (case edge_app_and_agg_params vb of
        (app_params, agg_params) \<Rightarrow>
          bind_outcome (edge_vm_config vb faults var d) (\<lambda>config.
            wrap_sum ''Failed to create axiom-edge SDK (evm-prove) with halo2 params reader''
              (vb_build vb config app_params agg_params (Some kzg_params_dir) None)))"

text \<open>The directory is passed on in an \<open>evm-prove\<close> build only.\<close>

definition create_edge_sdk_with_deferral_impl ::
  "('c, 'p, 'q, 'm, 'g, 'h, 's) vm_builder \<Rightarrow> bool \<Rightarrow> io_faults \<Rightarrow> string option \<Rightarrow> string option \<Rightarrow> disk \<Rightarrow> 's outcome" where
  "create_edge_sdk_with_deferral_impl vb evm_prove faults var kzg_params_dir d =
     (case edge_app_and_agg_params vb of
        (app_params, agg_params) \<Rightarrow>
          bind_outcome (edge_vm_config vb faults var d) (\<lambda>config.
            let deferral_agg_prover = vb_verify_stark vb agg_params (vb_hook_params vb)
                  (vb_memory_dimensions vb config) (vb_num_public_values vb config);
                deferred = vb_set_deferral vb (vb_make_verify_stark_config vb deferral_agg_prover) config;
                restored = vb_set_deferral_cells vb (vb_default_deferral_cells vb) deferred
            in wrap_sum ''Failed to create deferral-enabled axiom-edge SDK''
                 (vb_build vb (vb_apply_optimizations vb restored) app_params agg_params
                    (if evm_prove then kzg_params_dir else None) (Some deferral_agg_prover))))"

definition create_edge_sdk_with_deferral ::
  "('c, 'p, 'q, 'm, 'g, 'h, 's) vm_builder \<Rightarrow> bool \<Rightarrow> io_faults \<Rightarrow> string option \<Rightarrow> disk \<Rightarrow> 's outcome" where
  "create_edge_sdk_with_deferral vb evm_prove faults var =
     create_edge_sdk_with_deferral_impl vb evm_prove faults var None"

definition create_edge_sdk_with_deferral_for_halo2 ::
  "('c, 'p, 'q, 'm, 'g, 'h, 's) vm_builder \<Rightarrow> bool \<Rightarrow> io_faults \<Rightarrow> string option \<Rightarrow> string \<Rightarrow> disk \<Rightarrow> 's outcome" where
  "create_edge_sdk_with_deferral_for_halo2 vb evm_prove faults var kzg_params_dir =
     create_edge_sdk_with_deferral_impl vb evm_prove faults var (Some kzg_params_dir)"

section \<open>Lemmas\<close>

lemma wrap_sum_Ok [simp]: "wrap_sum msg r = Ok x \<longleftrightarrow> r = Inr x"
  by (cases r) (simp_all add: wrap_sum_def)

lemma edge_vm_config_Ok:
  "edge_vm_config vb faults var d = Ok config \<Longrightarrow>
     \<exists>base. config = vb_with_public_values vb vm_num_public_values
                       (vb_with_max_constraint_degree vb vm_max_constraint_degree base)"
  by (auto simp: edge_vm_config_def bind_outcome_Ok_iff)

end
