(* ===== verification/Key_Generation.thy ===== *)
theory Key_Generation
  imports Openvm_Config
begin

text \<open>
  The tools that generate what a deployment loads: \<open>edge-worker/src/bin/keygen.rs\<close>, \<open>bin/halo2_keygen.rs\<close>,
  \<open>bin/generate_edge_vm_vk.rs\<close> with \<open>stark_verify.rs\<close>, and the transpiler of \<open>bin/convert_fixtures.rs\<close>. The SDK and
  its object files are parameters. What they write is what the worker's \<open>load_from_disk\<close> and the manager's
  \<open>download_vk\<close> read. Progress output is omitted.
\<close>

section \<open>The SDK\<close>

text \<open>The keys of an SDK are generated when they are first asked for, so the calls that generate them return the SDK
  with the key materialised. \<open>sk_halo2_degrees\<close> reads the two values of \<open>k\<close> out of a halo2 key;
  \<open>sk_normalize\<close> is the \<open>bitcode\<close> round trip of an executable.\<close>

record ('s, 'k, 'd, 'x, 'v, 'b, 'r) sdk_calls =
  sk_app_keygen :: "'s \<Rightarrow> 's \<times> 'k"
  sk_agg_pk :: "'s \<Rightarrow> 's \<times> 'k agg_proving_key"
  sk_root_pk :: "'s \<Rightarrow> 's \<times> 'k"
  sk_halo2_pk :: "'s \<Rightarrow> 's \<times> 'k"
  sk_halo2_degrees :: "'k \<Rightarrow> nat \<times> nat"
  sk_cached_proving_key :: "'s \<Rightarrow> ('k, 'd) cached_proving_key outcome"
  sk_from_deferral_cached_pk :: "('k, 'd) cached_proving_key \<Rightarrow> string + 's"
  sk_def_hook_cached_commit :: "'s \<Rightarrow> 'd option"
  sk_def_hook_commit :: "'s \<Rightarrow> 'd option"
  sk_convert_to_exe :: "'s \<Rightarrow> bytes \<Rightarrow> string + 'x"
  sk_normalize :: "'x \<Rightarrow> string + 'x"
  sk_prover :: "'s \<Rightarrow> 'x \<Rightarrow> string + 'r"
  sk_generate_baseline :: "'r \<Rightarrow> 'b"
  sk_vm_vk :: "'s \<Rightarrow> 'b \<Rightarrow> 'v"

text \<open>\<open>sdk_v2::fs\<close>: a write may leave its own path in any state when it fails.\<close>

record ('k, 'd, 'x) object_files =
  of_write_key :: "string \<Rightarrow> 'k \<Rightarrow> unit io"
  of_read_key :: "string \<Rightarrow> disk \<Rightarrow> 'k outcome"
  of_write_agg_key :: "string \<Rightarrow> 'k agg_proving_key \<Rightarrow> unit io"
  of_read_agg_key :: "string \<Rightarrow> disk \<Rightarrow> 'k agg_proving_key outcome"
  of_write_cached_key :: "string \<Rightarrow> ('k, 'd) cached_proving_key \<Rightarrow> unit io"
  of_read_cached_key :: "string \<Rightarrow> disk \<Rightarrow> ('k, 'd) cached_proving_key outcome"
  of_write_exe :: "string \<Rightarrow> 'x \<Rightarrow> unit io"
  of_read_exe :: "string \<Rightarrow> disk \<Rightarrow> 'x outcome"

text \<open>A tool runs with the faults of its disk, in a build with or without \<open>evm-prove\<close>, with the SDK constructors of
  \<open>Openvm_Config\<close>.\<close>

record ('s, 'k, 'd, 'x, 'v, 'b, 'r) tool_env =
  te_faults :: io_faults
  te_evm_prove :: bool
  te_is_dir :: "string \<Rightarrow> bool"
  te_sdk :: "('s, 'k, 'd, 'x, 'v, 'b, 'r) sdk_calls"
  te_files :: "('k, 'd, 'x) object_files"
  te_vk_codec :: "'v vk_codec"
  te_create_sdk :: "disk \<Rightarrow> 's outcome"
  te_create_sdk_for_halo2 :: "string \<Rightarrow> disk \<Rightarrow> 's outcome"
  te_create_sdk_with_deferral :: "disk \<Rightarrow> 's outcome"
  te_create_sdk_with_deferral_for_halo2 :: "string \<Rightarrow> disk \<Rightarrow> 's outcome"

definition with_edge_sdks ::
  "('c, 'p, 'q, 'm, 'g, 'h, 's) vm_builder \<Rightarrow> string option \<Rightarrow> ('s, 'k, 'd, 'x, 'v, 'b, 'r) tool_env \<Rightarrow>
     ('s, 'k, 'd, 'x, 'v, 'b, 'r) tool_env" where
  "with_edge_sdks vb var env = env
     \<lparr>te_create_sdk := create_edge_sdk vb (te_faults env) var,
      te_create_sdk_for_halo2 := create_edge_sdk_for_halo2 vb (te_faults env) var,
      te_create_sdk_with_deferral := create_edge_sdk_with_deferral vb (te_evm_prove env) (te_faults env) var,
      te_create_sdk_with_deferral_for_halo2 :=
        create_edge_sdk_with_deferral_for_halo2 vb (te_evm_prove env) (te_faults env) var\<rparr>"

section \<open>\<open>keygen\<close>\<close>

record keygen_args =
  ka_output_dir :: string
  ka_with_deferral :: bool

definition deferral_keygen ::
  "('s, 'k, 'd, 'x, 'v, 'b, 'r) tool_env \<Rightarrow> string \<Rightarrow> unit io" where
  "deferral_keygen env output_dir =
     (let deferral_dir = path_join output_dir ''deferral'';
          cached_pk_path = path_join deferral_dir ''cached_pk'' in
      bind_io (lift_io (create_dir_all (te_faults env) deferral_dir)) (\<lambda>_.
      bind_io (read_io (te_create_sdk_with_deferral env)) (\<lambda>sdk.
        let sdk = fst (sk_app_keygen (te_sdk env) sdk);
            sdk = fst (sk_agg_pk (te_sdk env) sdk);
            sdk = (if te_evm_prove env then fst (sk_root_pk (te_sdk env) sdk) else sdk) in
        bind_io (lift_io (sk_cached_proving_key (te_sdk env) sdk)) (\<lambda>cached_pk.
          of_write_cached_key (te_files env) cached_pk_path cached_pk))))"

definition keygen_main ::
  "('s, 'k, 'd, 'x, 'v, 'b, 'r) tool_env \<Rightarrow> keygen_args \<Rightarrow> unit io" where
  "keygen_main env args =
     bind_io (lift_io (create_dir_all (te_faults env) (ka_output_dir args))) (\<lambda>_.
     let app_pk_path = path_join (ka_output_dir args) ''app_pk'';
         agg_pk_path = path_join (ka_output_dir args) ''agg_stark_pk'' in
     bind_io (read_io (te_create_sdk env)) (\<lambda>sdk.
     let (sdk, app_pk) = sk_app_keygen (te_sdk env) sdk in
     bind_io (of_write_key (te_files env) app_pk_path app_pk) (\<lambda>_.
     let (sdk, agg_pk) = sk_agg_pk (te_sdk env) sdk in
     bind_io (of_write_agg_key (te_files env) agg_pk_path agg_pk) (\<lambda>_.
     bind_io
       (if te_evm_prove env then
          (let root_pk_path = path_join (ka_output_dir args) ''root_pk'';
               (sdk, root_pk) = sk_root_pk (te_sdk env) sdk in
           of_write_key (te_files env) root_pk_path root_pk)
        else lift_io (Ok ())) (\<lambda>_.
     if ka_with_deferral args then deferral_keygen env (ka_output_dir args) else lift_io (Ok ()))))))"

section \<open>\<open>halo2_keygen\<close>\<close>

record halo2_keygen_args =
  ha_kzg_params_dir :: string
  ha_output_dir :: string
  ha_with_deferral :: bool

definition srs_name :: "nat \<Rightarrow> string" where
  "srs_name k = ''kzg_bn254_'' @ show_nat k @ ''.srs''"

text \<open>\<open>fs::copy\<close> reads the source and writes the destination.\<close>

definition copy_srs :: "io_faults \<Rightarrow> string \<Rightarrow> string \<Rightarrow> nat \<Rightarrow> string io" where
  "copy_srs faults kzg_params_dir output_dir k =
     (let src = path_join kzg_params_dir (srs_name k); dst = path_join output_dir (srs_name k) in
      if dst = src then lift_io (Ok dst)
      else context_io (\<lambda>e. ''failed to copy '' @ src @ '' -> '' @ dst)
        (bind_io (read_io (fs_read faults src)) (\<lambda>b. bind_io (write_file faults dst b) (\<lambda>_. lift_io (Ok dst)))))"

definition copy_srs_files :: "io_faults \<Rightarrow> string \<Rightarrow> string \<Rightarrow> nat \<times> nat \<Rightarrow> unit io" where
  "copy_srs_files faults kzg_params_dir output_dir ks =
     (let (verifier_k, wrapper_k) = ks in
      bind_io (copy_srs faults kzg_params_dir output_dir verifier_k) (\<lambda>verifier_srs_path.
      bind_io (if wrapper_k = verifier_k then lift_io (Ok verifier_srs_path)
               else copy_srs faults kzg_params_dir output_dir wrapper_k) (\<lambda>_. lift_io (Ok ()))))"

definition halo2_keygen_main ::
  "('s, 'k, 'd, 'x, 'v, 'b, 'r) tool_env \<Rightarrow> halo2_keygen_args \<Rightarrow> unit io" where
  "halo2_keygen_main env args =
     (if \<not> te_is_dir env (ha_kzg_params_dir args)
      then lift_io (Err (''--kzg-params-dir '' @ ha_kzg_params_dir args @ '' does not exist or is not a directory''))
      else
        bind_io (lift_io (create_dir_all (te_faults env) (ha_output_dir args))) (\<lambda>_.
        bind_io (read_io (if ha_with_deferral args
                          then te_create_sdk_with_deferral_for_halo2 env (ha_kzg_params_dir args)
                          else te_create_sdk_for_halo2 env (ha_kzg_params_dir args))) (\<lambda>sdk.
        let (sdk, halo2_pk) = sk_halo2_pk (te_sdk env) sdk;
            halo2_pk_path = path_join (ha_output_dir args) ''halo2_pk'' in
        bind_io (of_write_key (te_files env) halo2_pk_path halo2_pk) (\<lambda>_.
          copy_srs_files (te_faults env) (ha_kzg_params_dir args) (ha_output_dir args)
            (sk_halo2_degrees (te_sdk env) halo2_pk)))))"

section \<open>The transpiler\<close>

definition deferral_sdk_from_file ::
  "('s, 'k, 'd, 'x, 'v, 'b, 'r) tool_env \<Rightarrow> string \<Rightarrow> disk \<Rightarrow> 's outcome" where
  "deferral_sdk_from_file env pk_path d =
     bind_outcome (map_err (\<lambda>e. ''Failed to read deferral cached_pk: '' @ pk_path)
       (of_read_cached_key (te_files env) pk_path d)) (\<lambda>cached_pk.
     case sk_from_deferral_cached_pk (te_sdk env) cached_pk of
       Inl e \<Rightarrow> Err (''Failed to reconstruct deferral SDK from cached_pk: '' @ e)
     | Inr sdk \<Rightarrow> Ok sdk)"

text \<open>A build without \<open>evm-prove\<close> ignores the file and rebuilds the configuration.\<close>

definition transpiler_sdk ::
  "('s, 'k, 'd, 'x, 'v, 'b, 'r) tool_env \<Rightarrow> string option \<Rightarrow> disk \<Rightarrow> 's outcome" where
  "transpiler_sdk env deferral_cached_pk d =
     (case deferral_cached_pk of
        Some pk_path \<Rightarrow>
          if te_evm_prove env then deferral_sdk_from_file env pk_path d else te_create_sdk_with_deferral env d
      | None \<Rightarrow> te_create_sdk env d)"

definition convert_elf_to_vmexe ::
  "('s, 'k, 'd, 'x, 'v, 'b, 'r) tool_env \<Rightarrow> string \<Rightarrow> string \<Rightarrow> string option \<Rightarrow> unit io" where
  "convert_elf_to_vmexe env elf_path output_path deferral_cached_pk =
     bind_io (context_io (\<lambda>e. ''Failed to read ELF file: '' @ elf_path)
       (read_io (fs_read (te_faults env) elf_path))) (\<lambda>elf_bytes.
     bind_io (read_io (transpiler_sdk env deferral_cached_pk)) (\<lambda>sdk.
     bind_io (lift_io (wrap_sum
         (if deferral_cached_pk = None then ''Failed to convert ELF to VmExe''
          else ''Failed to convert ELF to VmExe (deferral config)'')
         (sk_convert_to_exe (te_sdk env) sdk elf_bytes))) (\<lambda>exe.
     context_io (\<lambda>e. ''Failed to write VmExe to: '' @ output_path)
       (of_write_exe (te_files env) output_path exe))))"

section \<open>\<open>generate_edge_vm_vk\<close>\<close>

definition build_vm_vk_from_elf_with_sdk ::
  "('s, 'k, 'd, 'x, 'v, 'b, 'r) tool_env \<Rightarrow> 's \<Rightarrow> string \<Rightarrow> disk \<Rightarrow> 'v outcome" where
  "build_vm_vk_from_elf_with_sdk env sdk elf_path d =
     bind_outcome (map_err (\<lambda>e. ''Failed to read ELF file '' @ elf_path) (fs_read (te_faults env) elf_path d)) (\<lambda>elf_bytes.
     bind_outcome (wrap_sum (''Failed to convert ELF '' @ elf_path @ '' to VmExe'')
       (sk_convert_to_exe (te_sdk env) sdk elf_bytes)) (\<lambda>exe.
     bind_outcome (wrap_sum ''Failed to bitcode-serialize VmExe while building VM verifying key''
       (sk_normalize (te_sdk env) exe)) (\<lambda>exe.
     bind_outcome (wrap_sum ''Failed to construct Edge prover for baseline generation''
       (sk_prover (te_sdk env) sdk exe)) (\<lambda>prover.
       Ok (sk_vm_vk (te_sdk env) sdk (sk_generate_baseline (te_sdk env) prover))))))"

definition build_vm_vk_from_elf ::
  "('s, 'k, 'd, 'x, 'v, 'b, 'r) tool_env \<Rightarrow> string \<Rightarrow> disk \<Rightarrow> 'v outcome" where
  "build_vm_vk_from_elf env elf_path d =
     bind_outcome (te_create_sdk env d) (\<lambda>sdk. build_vm_vk_from_elf_with_sdk env sdk elf_path d)"

record vk_args =
  ga_elf :: string
  ga_output :: string
  ga_deferral_cached_pk :: "string option"

definition vk_sdk ::
  "('s, 'k, 'd, 'x, 'v, 'b, 'r) tool_env \<Rightarrow> string option \<Rightarrow> disk \<Rightarrow> 's outcome" where
  "vk_sdk env deferral_cached_pk d =
     (case deferral_cached_pk of
        None \<Rightarrow> te_create_sdk env d
      | Some pk_path \<Rightarrow> deferral_sdk_from_file env pk_path d)"

definition generate_vm_vk_main ::
  "('s, 'k, 'd, 'x, 'v, 'b, 'r) tool_env \<Rightarrow> vk_args \<Rightarrow> unit io" where
  "generate_vm_vk_main env args =
     bind_io (read_io (vk_sdk env (ga_deferral_cached_pk args))) (\<lambda>sdk.
     bind_io (read_io (build_vm_vk_from_elf_with_sdk env sdk (ga_elf args))) (\<lambda>vk.
       write_vm_vk_bincode (te_faults env) (te_vk_codec env) (ga_output args) vk))"

end
