(* ===== verification/Manager_Proofs.thy ===== *)
theory Manager_Proofs
  imports Manager_App
begin

text \<open>
  The life of a proof in the manager's handlers: finalization, the drain of failing proofs, the
  watchdog and eviction, dispatch of work with retries, \<open>start_proof\<close> in its phases, results and
  cancellation.
\<close>

section \<open>The end of a proof\<close>

definition abort_proof_with_failure :: "string \<Rightarrow> string \<Rightarrow> app_state \<Rightarrow> app_state \<times> response" where
  "abort_proof_with_failure proof_uuid error_msg st =
     (let st1 = update_proof proof_uuid (\<lambda>s. s\<lparr>ps_status := Failed error_msg\<rparr>) st;
          st2 = drop_staged proof_uuid (drop_scheduler proof_uuid st1)
      in (st2, json_error_uuid 500 error_msg proof_uuid))"

record completed_proof_meta =
  cm_labels :: "(string, string) hmap"
  cm_proving_time_ms :: "nat option"
  cm_proving_cycles :: "nat option"

text \<open>The status that the persistence of the final proof leads to.\<close>

definition conclude_proof ::
  "world \<Rightarrow> instant \<Rightarrow> proof_config \<Rightarrow> proof_state \<Rightarrow> disk \<Rightarrow> proof_state \<times> disk \<times> string option" where
  "conclude_proof wo now config s d =
     (if ps_status s = InProgress \<and> is_ready_for_finalization s then
        (let (s1, d1, r) =
               (case pf_persist_final_proofs_dir config of
                  Some dir \<Rightarrow>
                    (case persist_final_proof_to_disk (wo_faults wo) (wo_codec wo) (wo_zstd_encode wo) dir
                            (pf_compress_persisted_final_proofs config) s d of
                       (s', d', Ok None) \<Rightarrow>
                         (s', d', Err ''proof ready for finalization without a payload to persist'')
                     | other \<Rightarrow> other)
                | None \<Rightarrow> (s, d, Ok None));
             s2 = (case r of
                     Ok _ \<Rightarrow> s1\<lparr>ps_status := Completed\<rparr>
                   | Err e \<Rightarrow> s1\<lparr>ps_status := Failed (''persist final proof: '' @ e)\<rparr>
                   | Panic e \<Rightarrow> s1\<lparr>ps_status := Failed (''persist final proof: '' @ e)\<rparr>)
         in (notify_completion (s2\<lparr>ps_last_updated := now\<rparr>), d1, case r of Ok p \<Rightarrow> p | _ \<Rightarrow> None))
      else (s, d, None))"

text \<open>The metrics report; its failures are only logged.\<close>

definition write_report :: "world \<Rightarrow> string \<Rightarrow> string \<Rightarrow> proof_state \<Rightarrow> disk \<Rightarrow> disk" where
  "write_report wo metrics_dir proof_uuid s d =
     (case create_dir_all (wo_faults wo) metrics_dir of
        Ok _ \<Rightarrow> fst (write_file (wo_faults wo) (path_join metrics_dir (proof_uuid @ ''.md'')) (wo_report wo s) d)
      | _ \<Rightarrow> d)"

text \<open>The section of \<open>finalize_proof\<close> under the proof's lock.\<close>

definition finalize_locked ::
  "world \<Rightarrow> instant \<Rightarrow> manager_config \<Rightarrow> string \<Rightarrow> proof_state \<Rightarrow> disk \<Rightarrow>
   proof_state \<times> disk \<times> string option \<times> completed_proof_meta option" where
  "finalize_locked wo now config proof_uuid s d =
     (let (s1, d1) =
            (case pf_persist_leaf_failure_app_proofs_dir (mc_proof config) of
               None \<Rightarrow> (s, d)
             | Some dir \<Rightarrow>
                 (case persist_leaf_failure_app_proofs_to_disk (wo_faults wo) (wo_snapshot wo) now dir s d of
                    (s', d', _) \<Rightarrow> (s', d')));
          (s2, d2, persisted_proof_path) = conclude_proof wo now (mc_proof config) s1 d1;
          completed_meta = (if ps_status s2 = Completed
            then Some \<lparr>cm_labels = pc_labels (ps_context s2), cm_proving_time_ms = ps_e2e_latency_ms s2,
                       cm_proving_cycles = ps_num_instructions s2\<rparr>
            else None);
          d3 = write_report wo (mt_output_dir (mc_metrics config)) proof_uuid s2 d2
      in (compact_completed_state s2, d3, persisted_proof_path, completed_meta))"

definition finalize_proof :: "world \<Rightarrow> instant \<Rightarrow> string \<Rightarrow> app_state \<Rightarrow> app_state" where
  "finalize_proof wo now proof_uuid st =
     (let st1 = drop_staged proof_uuid st;
          st2 = (case map_of (as_proof_states st1) proof_uuid of
                   None \<Rightarrow> st1
                 | Some s \<Rightarrow>
                     (let (s', d', path, meta) =
                            finalize_locked wo now (as_config st1) proof_uuid s (as_disk st1);
                          st' = st1\<lparr>as_proof_states := AList.update proof_uuid s' (as_proof_states st1),
                                    as_disk := d'\<rparr>
                      in case meta of
                           None \<Rightarrow> st'
                         | Some m \<Rightarrow> report_event (Event_Completed proof_uuid (cm_labels m)
                             (cm_proving_time_ms m) (cm_proving_cycles m) path) st'))
      in drop_scheduler proof_uuid st2)"

definition seconds :: "int \<Rightarrow> int" where
  "seconds n = n * 1000000000"

definition failing_drain_ttl :: int where
  "failing_drain_ttl = seconds 60"

definition is_failing :: "proof_state \<Rightarrow> bool" where
  "is_failing s \<longleftrightarrow> (case ps_status s of Failing _ \<Rightarrow> True | _ \<Rightarrow> False)"

definition try_finalize_failing_proof :: "world \<Rightarrow> instant \<Rightarrow> string \<Rightarrow> app_state \<Rightarrow> app_state" where
  "try_finalize_failing_proof wo now proof_uuid st =
     (case map_of (as_proof_states st) proof_uuid of
        None \<Rightarrow> st
      | Some s \<Rightarrow>
          (if \<not> is_failing s then st
           else (let ttl_expired = now - ps_last_updated s > failing_drain_ttl;
                     drained = is_fully_drained proof_uuid (as_state_store st)
                 in if \<not> drained \<and> \<not> ttl_expired then st
                    else finalize_proof wo now proof_uuid
                           (update_proof proof_uuid transition_failing_to_failed st))))"

section \<open>The watchdog and eviction\<close>

definition orphaned_staged_input_ttl_secs :: int where
  "orphaned_staged_input_ttl_secs = 300"

text \<open>One candidate of the scan. The proof's state is the one its candidate entry points to; an entry
  that was evicted in between is no longer in the map and is left alone here.\<close>

definition timeout_candidate :: "world \<Rightarrow> instant \<Rightarrow> string \<Rightarrow> app_state \<Rightarrow> app_state" where
  "timeout_candidate wo now uuid st =
     (let st1 = try_finalize_failing_proof wo now uuid st in
      case map_of (as_proof_states st1) uuid of
        None \<Rightarrow> st1
      | Some s \<Rightarrow>
          (if \<not> is_timed_out s now then st1
           else try_finalize_failing_proof wo now uuid (update_proof uuid mark_timed_out st1)))"

definition reclaim_orphans :: "instant \<Rightarrow> app_state \<Rightarrow> app_state" where
  "reclaim_orphans now st =
     (let cutoff = now - seconds orphaned_staged_input_ttl_secs;
          orphans = map fst (filter (\<lambda>(uuid, si). map_of (as_proof_states st) uuid = None \<and>
            (case si_staged_at si of Some t \<Rightarrow> t < cutoff | None \<Rightarrow> False)) (as_staged_inputs st))
      in fold drop_staged orphans st)"

definition scan_and_timeout_proofs :: "world \<Rightarrow> instant \<Rightarrow> app_state \<Rightarrow> app_state" where
  "scan_and_timeout_proofs wo now st =
     reclaim_orphans now (fold (timeout_candidate wo now) (map fst (as_proof_states st)) st)"

definition evict_stale_proofs :: "instant \<Rightarrow> app_state \<Rightarrow> app_state" where
  "evict_stale_proofs now st =
     (let to_evict = map fst (filter (\<lambda>(_, s). should_evict s now) (as_proof_states st))
      in st\<lparr>as_proof_states := fold AList.delete to_evict (as_proof_states st)\<rparr>)"

section \<open>Dispatch\<close>

text \<open>\<open>bincode::serialize\<close> of an envelope does not fail on these types; the request carries it.\<close>

definition send_work_to_worker :: "world \<Rightarrow> nat \<Rightarrow> assigned_work \<Rightarrow> app_state \<Rightarrow> app_state \<times> bool" where
  "send_work_to_worker wo k work st =
     (let (st1, reply) = http_send wo (aw_worker_url work @ ''/recursion_prove'')
            (Wire_Work (aw_envelope work)) k st
      in (st1, is_success reply))"

definition is_deferral_tail_work :: "assigned_work \<Rightarrow> bool" where
  "is_deferral_tail_work work \<longleftrightarrow>
     (case me_message (aw_envelope work) of InternalProveReq req \<Rightarrow> ipr_deferral_tail req \<noteq> None | _ \<Rightarrow> False)"

definition push_deferral_inputs_jit :: "world \<Rightarrow> nat \<Rightarrow> assigned_work \<Rightarrow> app_state \<Rightarrow> app_state \<times> bool option" where
  "push_deferral_inputs_jit wo k work st =
     (if \<not> is_deferral_tail_work work then (st, None)
      else case map_of (as_staged_inputs st) (aw_proof_uuid work) of
        None \<Rightarrow> (st, Some True)
      | Some entry \<Rightarrow>
          (let bundle = map snd (sort_by_id (si_deferral_inputs entry));
               (st1, reply) = http_send wo (aw_worker_url work @ ''/upload_deferral_input/'' @ aw_proof_uuid work)
                  (Wire_Bundle bundle) k st
           in (st1, Some (is_success reply))))"

text \<open>The end of the retry budget: the worker's slot is released and the proof fails.\<close>

definition give_up_dispatch :: "world \<Rightarrow> instant \<Rightarrow> nat \<Rightarrow> assigned_work \<Rightarrow> app_state \<Rightarrow> app_state" where
  "give_up_dispatch wo now max_retries work st =
     (let reason = ''Failed to dispatch '' @ step_as_str (aw_step work) @ '' to worker '' @
            show_nat (aw_worker_id work) @ '' after '' @ show_nat max_retries @ '' retries'';
          st1 = st\<lparr>as_state_store := release_worker (aw_proof_uuid work) (aw_worker_id work) (as_state_store st)\<rparr>;
          st2 = update_proof (aw_proof_uuid work)
                  (\<lambda>s. if ps_status s = InProgress then notify_completion (s\<lparr>ps_status := Failing reason\<rparr>) else s) st1
      in try_finalize_failing_proof wo now (aw_proof_uuid work) st2)"

fun send_attempts ::
  "world \<Rightarrow> instant \<Rightarrow> nat \<Rightarrow> assigned_work \<Rightarrow> nat \<Rightarrow> nat \<Rightarrow> app_state \<Rightarrow> app_state" where
  "send_attempts wo now max_retries work k left st =
     (let (st1, push) = push_deferral_inputs_jit wo k work st;
          push_ok = (push \<noteq> Some False);
          (st2, sent) = (if push_ok then send_work_to_worker wo k work st1 else (st1, False))
      in if sent then (if push = Some True then drop_staged (aw_proof_uuid work) st2 else st2)
         else case left of
           0 \<Rightarrow> give_up_dispatch wo now max_retries work st2
         | Suc left' \<Rightarrow> send_attempts wo now max_retries work (Suc k) left' st2)"

definition send_work_with_retry ::
  "world \<Rightarrow> instant \<Rightarrow> nat \<Rightarrow> assigned_work \<Rightarrow> app_state \<Rightarrow> app_state" where
  "send_work_with_retry wo now max_retries work st =
     send_attempts wo now max_retries work 0 (max_retries - 1) st"

text \<open>The upload of the input and of a deferral bundle to one worker: at most five attempts.\<close>

definition upload_max_retries :: nat where
  "upload_max_retries = 5"

fun upload_attempts ::
  "world \<Rightarrow> string \<Rightarrow> wire \<Rightarrow> nat \<Rightarrow> nat \<Rightarrow> nat \<Rightarrow> app_state \<Rightarrow> app_state \<times> string option" where
  "upload_attempts wo url message wid k left st =
     (let (st1, reply) = http_send wo url message k st in
      if is_success reply then (st1, None)
      else case left of
        0 \<Rightarrow> (st1, Some (''Upload to worker '' @ show_nat wid @ '' failed: '' @
               (case reply of Replied _ status _ \<Rightarrow> status | Transport_Error e \<Rightarrow> e)))
      | Suc left' \<Rightarrow> upload_attempts wo url message wid (Suc k) left' st1)"

fun upload_to_all ::
  "world \<Rightarrow> string \<Rightarrow> wire \<Rightarrow> (nat \<times> registered_worker) list \<Rightarrow> app_state \<Rightarrow> app_state \<times> string list" where
  "upload_to_all wo path message [] st = (st, [])"
| "upload_to_all wo path message ((wid, worker) # ws) st =
     (let (st1, failure) = upload_attempts wo (rw_worker_url worker @ path) message wid 0
            (upload_max_retries - 1) st;
          (st2, failures) = upload_to_all wo path message ws st1
      in (st2, (case failure of Some e \<Rightarrow> [e] | None \<Rightarrow> []) @ failures))"

definition fanout_deferral_bundle ::
  "world \<Rightarrow> (nat \<times> registered_worker) list \<Rightarrow> string \<Rightarrow> string \<Rightarrow> bytes list \<Rightarrow> app_state \<Rightarrow>
   app_state \<times> string list" where
  "fanout_deferral_bundle wo workers proof_uuid endpoint bundle st =
     upload_to_all wo (endpoint @ ''/'' @ proof_uuid) (Wire_Bundle bundle) workers st"


section \<open>Starting a proof\<close>

definition resolve_program :: "start_proof_request \<Rightarrow> app_state \<Rightarrow> response + program_ref" where
  "resolve_program req st =
     (case spr_program req of
        Some p \<Rightarrow>
          (if p \<notin> set (as_programs st) then
             Inl (409, Json_Body (Json_Obj
               [(''error'', Json_Str ''program_not_in_loadout''),
                (''message'', Json_Str (''Program '' @ program_display p @ '' is not in the current loadout'')),
                (''current_loadout'', Json_Programs (as_programs st))]))
           else Inr p)
      | None \<Rightarrow>
          (case as_programs st of
             [only_program] \<Rightarrow> Inr only_program
           | _ \<Rightarrow> Inl (400, Json_Body (Json_Obj
               [(''error'', Json_Str ''program_required''),
                (''message'', Json_Str (''Multiple programs loaded; specify `program: {name, version}` '' @
                   ''in the request'')),
                (''current_loadout'', Json_Programs (as_programs st))]))))"

definition json_conflict :: "string \<Rightarrow> string \<Rightarrow> response" where
  "json_conflict e m = (409, Json_Body (Json_Obj [(''error'', Json_Str e), (''message'', Json_Str m)]))"

definition u64_max :: nat where
  "u64_max = 2 ^ 64 - 1"

text \<open>The section under the admission gate.\<close>

definition admit_proof ::
  "instant \<Rightarrow> start_proof_request \<Rightarrow> program_ref \<Rightarrow> (nat \<times> registered_worker) list \<Rightarrow> app_state \<Rightarrow>
   app_state \<times> response option" where
  "admit_proof now req program workers st =
     (let uuid = spr_proof_uuid req; config = mc_proof (as_config st) in
      if has_any_proofs (as_state_store st) then
        (st, Some (json_conflict ''deployment_busy'' ''Another proof is already running''))
      else if map_of (as_proof_states st) uuid \<noteq> None then
        (st, Some (json_conflict ''proof_already_exists'' ''Proof already exists''))
      else
        (let num_provers = length (app_eligible_workers workers);
             ctx = (proof_context_new uuid program (spr_labels req))\<lparr>pc_proof_type := spr_proof_type req\<rparr>;
             timeout_secs = (case spr_timeout_secs req of Some t \<Rightarrow> t | None \<Rightarrow> pf_timeout_secs config);
             s = proof_state_new ctx u64_max num_provers (pf_leaf_arity config) (pf_internal_arity config)
                   timeout_secs now;
             leaf_pack_threshold = (case spr_leaf_pack_threshold req of
               Some t \<Rightarrow> t | None \<Rightarrow> pf_leaf_pack_threshold config)
         in (st\<lparr>as_proof_states := AList.update uuid s (as_proof_states st),
                as_state_store := init_proof uuid workers leaf_pack_threshold (as_state_store st)\<rparr>, None)))"

definition deferral_complete :: "staged_inputs \<Rightarrow> bool" where
  "deferral_complete staged \<longleftrightarrow>
     (let n = length (si_deferral_states staged) in
      list_all (\<lambda>i. map_of (si_deferral_states staged) i \<noteq> None \<and> map_of (si_deferral_inputs staged) i \<noteq> None)
        [0..<n] \<and> length (si_deferral_inputs staged) = n)"

text \<open>The input transport: the staged bytes are taken, checked and uploaded; \<open>Inr\<close> is the number of
  deferral circuits with the inputs to retain.\<close>

definition upload_failed :: "string \<Rightarrow> string list \<Rightarrow> app_state \<Rightarrow> app_state \<times> response" where
  "upload_failed proof_uuid failures st =
     (let error_msg = ''Failed to upload input to workers: '' @ join_with ''; '' failures;
          st1 = update_proof proof_uuid (\<lambda>s. s\<lparr>ps_status := Failed error_msg\<rparr>) st
      in (drop_scheduler proof_uuid st1, json_error_uuid 500 error_msg proof_uuid))"

definition stage_proof_inputs ::
  "world \<Rightarrow> start_proof_request \<Rightarrow> (nat \<times> registered_worker) list \<Rightarrow> app_state \<Rightarrow>
   app_state \<times> (response + nat \<times> staged_inputs)" where
  "stage_proof_inputs wo req workers st =
     (let uuid = spr_proof_uuid req;
          staged = (case map_of (as_staged_inputs st) uuid of Some si \<Rightarrow> si | None \<Rightarrow> staged_default);
          st1 = drop_staged uuid st;
          n = length (si_deferral_states staged);
          abort = (\<lambda>msg. let (st', r) = abort_proof_with_failure uuid msg st1 in (st', Inl r))
      in if \<not> deferral_complete staged then
           abort (''incomplete deferral upload for proof '' @ uuid @
             '': need one DeferralState and one DeferralInput per circuit at contiguous indices 0..N '' @
             ''(got state idx '' @ debug_nats (map fst (sort_by_id (si_deferral_states staged))) @
             '', input idx '' @ debug_nats (map fst (sort_by_id (si_deferral_inputs staged))) @ '')'')
         else if spr_input_already_uploaded req \<and> n > 0 then
           abort (''input_already_uploaded=true is incompatible with deferral: stage the deferral '' @
             ''artifacts (and the input) on the manager instead'')
         else if \<not> spr_input_already_uploaded req \<and> si_main staged = None then
           abort (''no input staged for proof '' @ uuid @ '': POST the bincode StdIn to /upload_input/'' @ uuid @
             '' before /start_proof (or set input_already_uploaded=true to pre-upload directly to workers)'')
         else
           (let (st2, failures) =
                  (case (if spr_input_already_uploaded req then None else si_main staged) of
                     Some content \<Rightarrow> upload_to_all wo (''/upload_input/'' @ uuid) (Wire_Bytes content) workers st1
                   | None \<Rightarrow> (st1, []))
            in if failures \<noteq> [] then (let (st', r) = upload_failed uuid failures st2 in (st', Inl r))
               else if n = 0 then (st2, Inr (n, staged))
               else
                 (let (st3, failures) = fanout_deferral_bundle wo workers uuid ''/upload_deferral_state''
                        (map (\<lambda>i. case map_of (si_deferral_states staged) i of Some b \<Rightarrow> b | None \<Rightarrow> []) [0..<n])
                        st2
                  in if failures \<noteq> [] then
                       (let (st', r) = abort_proof_with_failure uuid
                              (''Failed to fan out deferral states: '' @ join_with ''; '' failures) st3
                        in (st', Inl r))
                     else (st3, Inr (n, staged)))))"

text \<open>The kickoff of the app-eligible workers: the ids of the workers whose dispatch failed, with the
  messages.\<close>

fun kickoff_workers ::
  "world \<Rightarrow> (nat \<Rightarrow> sharded_app_prove_request) \<Rightarrow> (nat \<times> registered_worker) list \<Rightarrow> app_state \<Rightarrow>
   app_state \<times> (nat \<times> string) list" where
  "kickoff_workers wo request [] st = (st, [])"
| "kickoff_workers wo request ((wid, worker) # ws) st =
     (let (st1, reply) = http_send wo (rw_worker_url worker @ ''/sharded_app_prove'') (Wire_Kickoff (request wid)) 0 st;
          (st2, failures) = kickoff_workers wo request ws st1
      in (st2, (if is_success reply then []
                else [(wid, case reply of
                   Replied _ status b \<Rightarrow> ''Worker '' @ show_nat wid @ '' returned '' @ status @ '': '' @ b
                 | Transport_Error e \<Rightarrow> ''Failed to send work to worker '' @ show_nat wid @ '': '' @ e)])
               @ failures))"

definition kickoff_proof ::
  "world \<Rightarrow> instant \<Rightarrow> start_proof_request \<Rightarrow> program_ref \<Rightarrow> (nat \<times> registered_worker) list \<Rightarrow> nat \<Rightarrow>
   staged_inputs \<Rightarrow> app_state \<Rightarrow> app_state \<times> response" where
  "kickoff_proof wo now req program workers n staged st =
     (let uuid = spr_proof_uuid req;
          app_workers = app_eligible_workers workers;
          num_provers = length app_workers;
          st1 = (if n > 0
                 then (update_proof uuid (\<lambda>s. s\<lparr>ps_deferral_circuit_count := n\<rparr>) st)
                   \<lparr>as_staged_inputs := AList.update uuid
                      (staged_default\<lparr>si_deferral_inputs := si_deferral_inputs staged\<rparr>) (as_staged_inputs st)\<rparr>
                 else st);
          st2 = report_event (Event_Proving uuid (spr_labels req)) st1;
          st3 = update_proof uuid (\<lambda>s. s\<lparr>ps_proving_started_at := Some now\<rparr>) st2;
          request = (\<lambda>wid. \<lparr>sar_proof_uuid = uuid, sar_program = program, sar_prover_id = wid,
            sar_num_provers = num_provers, sar_segment_memory = spr_segment_memory req,
            sar_num_deferral_circuits = n\<rparr>);
          (st4, failures) = kickoff_workers wo request app_workers st3
      in if failures \<noteq> [] then
           (let error_msg = show_nat (length failures) @ '' of '' @ show_nat num_provers @
                  '' workers failed to accept work: '' @ join_with ''; '' (map snd failures);
                st5 = update_proof uuid (mark_failing error_msg) st4;
                st6 = fold (\<lambda>wid st. st\<lparr>as_state_store := release_worker uuid wid (as_state_store st)\<rparr>)
                        (map fst failures) st5
            in (try_finalize_failing_proof wo now uuid st6, json_error_uuid 500 error_msg uuid))
         else (st4, (200, Json_Body (Json_Obj [(''proof_uuid'', Json_Str uuid), (''status'', Json_Str ''started''),
                 (''num_workers'', Json_Num num_provers)]))))"

definition start_proof :: "world \<Rightarrow> instant \<Rightarrow> start_proof_request \<Rightarrow> app_state \<Rightarrow> app_state \<times> response" where
  "start_proof wo now req st =
     (case validate_manager_proof_uuid (spr_proof_uuid req) of
        Some reason \<Rightarrow> (st, json_error 400 (''Invalid proof_uuid: '' @ reason))
      | None \<Rightarrow>
          (case resolve_program req st of
             Inl r \<Rightarrow> (st, r)
           | Inr program \<Rightarrow>
               (case get_ready_workers wo 60 st of
                  (st1, Err e) \<Rightarrow> (st1, json_error 503 e)
                | (st1, Panic p) \<Rightarrow> (st1, json_error 500 p)
                | (st1, Ok workers) \<Rightarrow>
                    (case admit_proof now req program workers st1 of
                       (st2, Some r) \<Rightarrow> (st2, r)
                     | (st2, None) \<Rightarrow>
                         (let st3 = report_event (Event_Queued (spr_proof_uuid req) (spr_labels req)) st2 in
                          case stage_proof_inputs wo req workers st3 of
                            (st4, Inl r) \<Rightarrow> (st4, r)
                          | (st4, Inr (n, staged)) \<Rightarrow> kickoff_proof wo now req program workers n staged st4)))))"

section \<open>Results\<close>

fun enqueue_follow_ups ::
  "string \<Rightarrow> general_prove_request message_envelope list \<Rightarrow> edge_state_store \<Rightarrow>
   edge_state_store \<times> assigned_work list" where
  "enqueue_follow_ups uuid [] store = (store, [])"
| "enqueue_follow_ups uuid (env # envs) store =
     (let (store1, r) = enqueue_or_assign uuid env (step_of_request (me_message env)) store;
          (store2, ws) = enqueue_follow_ups uuid envs store1
      in (store2, (case r of Ok (Some w) \<Rightarrow> [w] | _ \<Rightarrow> []) @ ws))"

definition with_metadata :: "world \<Rightarrow> nat \<Rightarrow> general_prove_request \<Rightarrow> general_prove_request message_envelope" where
  "with_metadata wo i request =
     (let (timestamp, message_id) = wo_metadata wo i
      in \<lparr>me_timestamp = timestamp, me_message_id = message_id, me_message = request\<rparr>)"

definition json_ok :: response where
  "json_ok = (200, Json_Body (Json_Obj [(''status'', Json_Str ''ok'')]))"

text \<open>After a late result: the drain accounting of a failing proof.\<close>

definition late_result ::
  "world \<Rightarrow> instant \<Rightarrow> result_payload \<Rightarrow> proof_status \<Rightarrow> app_state \<Rightarrow> app_state" where
  "late_result wo now payload status st =
     (let uuid = rp_proof_uuid payload;
          st1 = (case status of
                   Failing _ \<Rightarrow>
                     try_finalize_failing_proof wo now uuid
                       (st\<lparr>as_state_store := fst (worker_drained uuid (rp_worker_id payload)
                             (me_message (rp_result payload)) (as_state_store st))\<rparr>)
                 | _ \<Rightarrow> st)
      in evict_stale_proofs now st1)"

text \<open>After a processed result: the segment count, the worker's slot, the end of the proof, eviction,
  and the follow-up requests. The list is the work handed to dispatch tasks.\<close>

definition processed_result ::
  "world \<Rightarrow> instant \<Rightarrow> result_payload \<Rightarrow> general_prove_request list \<Rightarrow> bool \<Rightarrow> app_state \<Rightarrow>
   app_state \<times> assigned_work list" where
  "processed_result wo now payload requests sealed_for_results st =
     (let uuid = rp_proof_uuid payload;
          result = me_message (rp_result payload);
          (store1, works1) =
            (case result of
               ExecuteE2Res _ e2 \<Rightarrow>
                 (case set_num_segments uuid (e2_num_segments e2) (as_state_store st) of
                    (store', Ok ws) \<Rightarrow> (store', ws) | (store', _) \<Rightarrow> (store', []))
             | _ \<Rightarrow> (as_state_store st, []));
          (store2, works2) =
            (if \<not> sealed_for_results then
               (case worker_completed uuid (rp_worker_id payload) result store1 of
                  (store', Ok (Some w)) \<Rightarrow> (store', [w]) | (store', _) \<Rightarrow> (store', []))
             else (store1, []));
          st1 = st\<lparr>as_state_store := store2\<rparr>;
          st2 = (if sealed_for_results \<and>
                    \<not> (case map_of (as_proof_states st1) uuid of Some s \<Rightarrow> is_failing s | None \<Rightarrow> False)
                 then finalize_proof wo now uuid st1 else st1);
          st3 = evict_stale_proofs now (try_finalize_failing_proof wo now uuid st2);
          envelopes = map (\<lambda>(i, r). with_metadata wo i r) (enumerate 0 requests);
          (store4, works4) = enqueue_follow_ups uuid envelopes (as_state_store st3)
      in (st3\<lparr>as_state_store := store4\<rparr>, works1 @ works2 @ works4))"

definition proof_result_handler ::
  "world \<Rightarrow> clock \<Rightarrow> instant \<Rightarrow> string + result_payload \<Rightarrow> app_state \<Rightarrow>
   app_state \<times> response \<times> assigned_work list" where
  "proof_result_handler wo ck now decoded st =
     (case decoded of
        Inl e \<Rightarrow> (st, json_error 400 ''Invalid bincode payload'', [])
      | Inr payload \<Rightarrow>
          (let uuid = rp_proof_uuid payload; result = me_message (rp_result payload) in
           if pc_proof_uuid (result_context result) \<noteq> uuid then
             (st, json_error 400 ''proof_uuid mismatch between payload and result context'', [])
           else case map_of (as_proof_states st) uuid of
             None \<Rightarrow> (st, json_error 404 ''Proof not found'', [])
           | Some s \<Rightarrow>
               (let (s', r) = handle_proof_result_with_envelope_outcome (wo_build wo) ck (rp_result payload) s;
                    st1 = st\<lparr>as_proof_states := AList.update uuid s' (as_proof_states st)\<rparr>
                in case r of
                     Err e \<Rightarrow> (st1, json_error 500 e, [])
                   | Panic e \<Rightarrow> (st1, json_error 500 e, [])
                   | Ok (Late _ status) \<Rightarrow> (late_result wo now payload status st1, json_ok, [])
                   | Ok (Processed requests sealed) \<Rightarrow>
                       (let (st2, works) = processed_result wo now payload requests sealed st1
                        in (st2, json_ok, works)))))"

section \<open>Queries and cancellation\<close>

definition proof_state_handler :: "string \<Rightarrow> app_state \<Rightarrow> response" where
  "proof_state_handler uuid st =
     (case map_of (as_proof_states st) uuid of
        Some s \<Rightarrow> (200, State_Body (to_lightweight_state s))
      | None \<Rightarrow> json_error 404 ''Proof not found'')"

definition proof_debug :: "string \<Rightarrow> app_state \<Rightarrow> response" where
  "proof_debug uuid st =
     (case proof_debug_state_of uuid (as_state_store st) of
        Ok (Some d) \<Rightarrow> (200, Debug_Body d)
      | Ok None \<Rightarrow> json_error 404 ''Proof not found''
      | Err e \<Rightarrow> json_error 500 e
      | Panic e \<Rightarrow> json_error 500 e)"

definition cancel_proof :: "string \<Rightarrow> app_state \<Rightarrow> app_state \<times> response" where
  "cancel_proof uuid st =
     (case validate_manager_proof_uuid uuid of
        Some reason \<Rightarrow> (st, json_error 400 (''Invalid proof_uuid: '' @ reason))
      | None \<Rightarrow>
          (let st1 = update_proof uuid
                 (\<lambda>s. if ps_status s = InProgress \<and> \<not> is_ready_for_finalization s
                      then notify_completion (s\<lparr>ps_status := Canceled\<rparr>) else s) st
           in (drop_staged uuid (drop_scheduler uuid st1),
               (200, Json_Body (Json_Obj [(''status'', Json_Str ''canceled'')])))))"

end
