(* ===== verification/Manager_Invariant.thy ===== *)
theory Manager_Invariant
  imports Manager_Proofs
begin

text \<open>
  The manager as a whole: its events are the handlers, with \<open>start_proof\<close> split into the phases between
  which other handlers can run. The invariant of every run: at most one proof has scheduler state, and
  a proof that has it is live, that is, still accepts results or is draining.
\<close>

datatype manager_event =
  Ev_Upload instant string "multipart_event list"
| Ev_Register instant register_worker_request
| Ev_Probe world nat
| Ev_Admit instant start_proof_request program_ref "(nat \<times> registered_worker) list"
| Ev_Stage world start_proof_request "(nat \<times> registered_worker) list"
| Ev_Kickoff world instant start_proof_request program_ref "(nat \<times> registered_worker) list" nat staged_inputs
| Ev_Result world clock instant "string + result_payload"
| Ev_Dispatch world instant nat assigned_work
| Ev_Tick world instant
| Ev_Cancel string

fun manager_step :: "manager_event \<Rightarrow> app_state \<Rightarrow> app_state" where
  "manager_step (Ev_Upload now uuid parts) st = fst (upload_input now uuid parts st)"
| "manager_step (Ev_Register now req) st = fst (register_worker now req st)"
| "manager_step (Ev_Probe wo retries) st = fst (get_ready_workers wo retries st)"
| "manager_step (Ev_Admit now req program workers) st = fst (admit_proof now req program workers st)"
| "manager_step (Ev_Stage wo req workers) st = fst (stage_proof_inputs wo req workers st)"
| "manager_step (Ev_Kickoff wo now req program workers n staged) st =
     fst (kickoff_proof wo now req program workers n staged st)"
| "manager_step (Ev_Result wo ck now payload) st = fst (proof_result_handler wo ck now payload st)"
| "manager_step (Ev_Dispatch wo now retries work) st = send_work_with_retry wo now retries work st"
| "manager_step (Ev_Tick wo now) st = scan_and_timeout_proofs wo now st"
| "manager_step (Ev_Cancel uuid) st = fst (cancel_proof uuid st)"

definition manager_run :: "manager_event list \<Rightarrow> app_state \<Rightarrow> app_state" where
  "manager_run evs st = fold manager_step evs st"

definition slots :: "app_state \<Rightarrow> string list" where
  "slots st = map fst (ess_proofs (as_state_store st))"

section \<open>Scheduler slots\<close>

lemma keys_update_known: "map_of m k = Some v \<Longrightarrow> map fst (AList.update k w m) = map fst m"
  by (induction m) auto

lemma keys_on_proof [simp]: "map fst (ess_proofs (fst (on_proof u d f store))) = map fst (ess_proofs store)"
  by (auto simp: on_proof_def case_prod_unfold Let_def keys_update_known split: option.split)

lemma keys_store_ops [simp]:
  "map fst (ess_proofs (fst (set_num_segments u n store))) = map fst (ess_proofs store)"
  "map fst (ess_proofs (fst (enqueue_or_assign u env stp store))) = map fst (ess_proofs store)"
  "map fst (ess_proofs (fst (worker_completed u w res store))) = map fst (ess_proofs store)"
  "map fst (ess_proofs (fst (worker_drained u w res store))) = map fst (ess_proofs store)"
  "map fst (ess_proofs (release_worker u w store)) = map fst (ess_proofs store)"
  by (simp_all add: set_num_segments_def enqueue_or_assign_def worker_completed_def worker_drained_def
      release_worker_def)

lemma keys_enqueue_follow_ups [simp]:
  "map fst (ess_proofs (fst (enqueue_follow_ups u envs store))) = map fst (ess_proofs store)"
  by (induction envs arbitrary: store) (simp_all add: case_prod_unfold Let_def)

lemma keys_delete: "map fst (AList.delete k m) = filter (\<lambda>x. x \<noteq> k) (map fst m)"
  by (induction m) auto

lemma slots_drop_scheduler [simp]: "slots (drop_scheduler u st) = filter (\<lambda>x. x \<noteq> u) (slots st)"
  by (simp add: slots_def drop_scheduler_def remove_proof_def keys_delete)

section \<open>What the handlers leave alone\<close>

text \<open>Most of a handler's work touches neither the proofs nor the scheduler.\<close>

definition same_core :: "app_state \<Rightarrow> app_state \<Rightarrow> bool" where
  "same_core st' st \<longleftrightarrow> as_config st' = as_config st \<and> as_proof_states st' = as_proof_states st \<and>
     as_state_store st' = as_state_store st"

lemma same_core_refl [simp, intro]: "same_core st st"
  by (simp add: same_core_def)

lemma same_core_trans [trans]: "same_core a b \<Longrightarrow> same_core b c \<Longrightarrow> same_core a c"
  by (simp add: same_core_def)

lemma same_core_fields:
  "same_core st' st \<Longrightarrow> as_config st' = as_config st"
  "same_core st' st \<Longrightarrow> as_proof_states st' = as_proof_states st"
  "same_core st' st \<Longrightarrow> as_state_store st' = as_state_store st"
  "same_core st' st \<Longrightarrow> slots st' = slots st"
  by (simp_all add: same_core_def slots_def)

lemma same_core_basic [simp]:
  "same_core (drop_staged u st) st" "same_core (report_event e st) st" "same_core (fst (http_send wo url m k st)) st"
  "same_core (st\<lparr>as_staged_inputs := x\<rparr>) st" "same_core (st\<lparr>as_disk := d\<rparr>) st"
  "same_core (st\<lparr>as_worker_registry := r\<rparr>) st"
  by (simp_all add: same_core_def drop_staged_def report_event_def http_send_def split: option.split)

declare probe_attempts.simps [simp del] upload_attempts.simps [simp del] send_attempts.simps [simp del]

lemma same_core_probe_attempts [simp]: "same_core (fst (probe_attempts wo wid w k left st)) st"
proof (induction left arbitrary: k st)
  case 0
  then show ?case by (subst probe_attempts.simps) (simp add: case_prod_unfold Let_def)
next
  case (Suc left)
  show ?case
    by (subst probe_attempts.simps)
      (auto simp: case_prod_unfold Let_def intro: same_core_trans [OF Suc.IH same_core_basic(3)])
qed

lemma same_core_probe [simp]: "same_core (fst (probe_worker_health wo retries ws st)) st"
proof (induction ws arbitrary: st)
  case (Cons w ws)
  obtain wid worker where w: "w = (wid, worker)" by fastforce
  obtain st1 r where p: "probe_attempts wo wid worker 0 (retries - Suc 0) st = (st1, r)" by fastforce
  have "same_core st1 st" using same_core_probe_attempts p by (metis fst_conv)
  then show ?case by (cases r) (auto simp: w p intro: same_core_trans [OF Cons.IH])
qed simp

lemma same_core_ready [simp]: "same_core (fst (get_ready_workers wo retries st)) st"
proof (cases "ready_workers (as_worker_registry st)")
  case (Ok ws)
  obtain st1 r where p: "probe_worker_health wo retries ws st = (st1, r)" by fastforce
  have "same_core st1 st" using same_core_probe [of wo retries ws st] by (simp add: p)
  then show ?thesis using Ok by (cases r) (simp_all add: get_ready_workers_def p)
qed (simp_all add: get_ready_workers_def)

lemma same_core_upload_attempts [simp]: "same_core (fst (upload_attempts wo url m wid k left st)) st"
proof (induction left arbitrary: k st)
  case 0
  then show ?case by (subst upload_attempts.simps) (simp add: case_prod_unfold Let_def)
next
  case (Suc left)
  show ?case
    by (subst upload_attempts.simps)
      (auto simp: case_prod_unfold Let_def intro: same_core_trans [OF Suc.IH same_core_basic(3)])
qed

lemma same_core_upload_to_all [simp]: "same_core (fst (upload_to_all wo path m ws st)) st"
proof (induction ws arbitrary: st)
  case (Cons w ws)
  then show ?case
    by (cases w) (auto simp: case_prod_unfold Let_def intro: same_core_trans [OF Cons.IH same_core_upload_attempts])
qed simp

lemma same_core_kickoff [simp]: "same_core (fst (kickoff_workers wo request ws st)) st"
proof (induction ws arbitrary: st)
  case (Cons w ws)
  then show ?case
    by (cases w) (auto simp: case_prod_unfold Let_def intro: same_core_trans [OF Cons.IH same_core_basic(3)])
qed simp

lemma same_core_send [simp]:
  "same_core (fst (send_work_to_worker wo k work st)) st"
  "same_core (fst (push_deferral_inputs_jit wo k work st)) st"
  by (auto simp: send_work_to_worker_def push_deferral_inputs_jit_def case_prod_unfold Let_def split: option.split)

lemma same_core_upload_input [simp]: "same_core (fst (upload_input now uuid parts st)) st"
  by (auto simp: upload_input_def split: option.split sum.split)

lemma same_core_register [simp]: "same_core (fst (register_worker now req st)) st"
  by (auto simp: register_worker_def case_prod_unfold Let_def split: outcome.split)

section \<open>The invariant\<close>

definition live :: "proof_state \<Rightarrow> bool" where
  "live s \<longleftrightarrow> \<not> is_sealed_for_results s \<or> is_failing s"

text \<open>What a proof needs in order to go on.\<close>

definition proof_ok :: "proof_state \<Rightarrow> bool" where
  "proof_ok s \<longleftrightarrow> is_sealed_for_results s \<or>
     proof_state_wf s \<and> 1 \<le> ps_leaf_arity s \<and> 2 \<le> ps_internal_arity s"

definition manager_inv :: "app_state \<Rightarrow> bool" where
  "manager_inv st \<longleftrightarrow>
     1 \<le> pf_leaf_arity (mc_proof (as_config st)) \<and> 2 \<le> pf_internal_arity (mc_proof (as_config st)) \<and>
     hm_wf (as_proof_states st) \<and> length (slots st) \<le> 1 \<and>
     (\<forall>u s. map_of (as_proof_states st) u = Some s \<longrightarrow> proof_ok s) \<and>
     (\<forall>u \<in> set (slots st). \<exists>s. map_of (as_proof_states st) u = Some s \<and> live s)"

lemma manager_inv_same_core: "same_core st' st \<Longrightarrow> manager_inv st' \<longleftrightarrow> manager_inv st"
  by (simp add: manager_inv_def same_core_fields)

text \<open>Changing one proof, or the scheduler's entries without adding one.\<close>

lemma manager_inv_change:
  assumes inv: "manager_inv st" and cfg: "as_config st' = as_config st" and wf: "hm_wf (as_proof_states st')"
    and states: "\<And>v. map_of (as_proof_states st') v = (if v = u then Some s' else map_of (as_proof_states st) v)"
    and ok: "proof_ok s'"
    and sl: "slots st' = slots st \<and> (u \<in> set (slots st) \<longrightarrow> live s') \<or> slots st' = filter (\<lambda>x. x \<noteq> u) (slots st)"
  shows "manager_inv st'"
proof -
  have "length (slots st') \<le> length (slots st)" using sl by (auto intro: order_trans [OF length_filter_le])
  then show ?thesis
    using inv ok sl wf unfolding manager_inv_def cfg states by (auto split: if_splits)
qed

lemma manager_inv_update:
  assumes inv: "manager_inv st" and cfg: "as_config st' = as_config st"
    and states: "as_proof_states st' = AList.update u s' (as_proof_states st)" and ok: "proof_ok s'"
    and sl: "slots st' = slots st \<and> (u \<in> set (slots st) \<longrightarrow> live s') \<or> slots st' = filter (\<lambda>x. x \<noteq> u) (slots st)"
  shows "manager_inv st'"
  by (rule manager_inv_change [OF inv cfg _ _ ok sl])
    (use inv in \<open>simp_all add: states manager_inv_def\<close>)

lemma manager_inv_slots:
  assumes "manager_inv st" "as_config st' = as_config st" "as_proof_states st' = as_proof_states st"
    "slots st' = slots st \<or> slots st' = filter (\<lambda>x. x \<noteq> u) (slots st)"
  shows "manager_inv st'"
proof -
  have "length (slots st') \<le> length (slots st)" using assms(4) by (auto intro: order_trans [OF length_filter_le])
  then show ?thesis using assms unfolding manager_inv_def by auto
qed

lemma manager_inv_drop_scheduler: "manager_inv st \<Longrightarrow> manager_inv (drop_scheduler u st)"
  by (rule manager_inv_slots [of st _ u]) (simp_all add: drop_scheduler_def slots_def remove_proof_def keys_delete)

text \<open>An update of a proof through its lock.\<close>

lemma update_proof_fields [simp]:
  "as_config (update_proof u f st) = as_config st" "as_state_store (update_proof u f st) = as_state_store st"
  "slots (update_proof u f st) = slots st"
  "map_of (as_proof_states (update_proof u f st)) v =
     (if v = u then map_option f (map_of (as_proof_states st) v) else map_of (as_proof_states st) v)"
  by (auto simp: update_proof_def slots_def split: option.split)

lemma manager_inv_update_proof:
  assumes inv: "manager_inv st"
    and f: "\<And>s. map_of (as_proof_states st) u = Some s \<Longrightarrow> proof_ok s \<Longrightarrow> proof_ok (f s) \<and> (live s \<longrightarrow> live (f s))"
  shows "manager_inv (update_proof u f st)"
proof (cases "map_of (as_proof_states st) u")
  case None
  then show ?thesis using inv by (simp add: update_proof_def)
next
  case (Some s)
  have ok: "proof_ok s" using inv Some by (simp add: manager_inv_def)
  have "u \<in> set (slots st) \<Longrightarrow> live s" using inv Some by (auto simp: manager_inv_def)
  then show ?thesis
    using f [OF Some ok] Some by (intro manager_inv_update [OF inv, of _ u "f s"]) (auto simp: update_proof_def slots_def)
qed

text \<open>An update that may seal the proof, followed by the removal of its scheduler entry.\<close>

lemma manager_inv_update_drop:
  assumes inv: "manager_inv st" and f: "\<And>s. proof_ok s \<Longrightarrow> proof_ok (f s)"
  shows "manager_inv (drop_scheduler u (update_proof u f st))"
proof (cases "map_of (as_proof_states st) u")
  case None
  then show ?thesis using manager_inv_drop_scheduler [OF inv] by (simp add: update_proof_def)
next
  case (Some s)
  then have "proof_ok (f s)" using inv f by (simp add: manager_inv_def)
  then show ?thesis
    using Some by (intro manager_inv_update [OF inv, of _ u "f s"])
      (auto simp: update_proof_def slots_def drop_scheduler_def remove_proof_def keys_delete)
qed

lemma sealed_status: "ps_status s \<noteq> InProgress \<Longrightarrow> is_sealed_for_results s"
  by (simp add: is_sealed_for_results_def)

lemma manager_inv_release:
  "manager_inv st \<Longrightarrow> manager_inv (st\<lparr>as_state_store := release_worker u w (as_state_store st)\<rparr>)"
  by (erule manager_inv_slots [where u = u]) (simp_all add: slots_def)

lemma abort_inv: "manager_inv st \<Longrightarrow> manager_inv (fst (abort_proof_with_failure u m st))"
  using manager_inv_update_drop [of st "\<lambda>s. s\<lparr>ps_status := Failed m\<rparr>" u]
  by (simp add: abort_proof_with_failure_def Let_def manager_inv_same_core [OF same_core_basic(1)]
      proof_ok_def sealed_status)

lemma upload_failed_inv: "manager_inv st \<Longrightarrow> manager_inv (fst (upload_failed u fs st))"
  using manager_inv_update_drop [of st "\<lambda>s. s\<lparr>ps_status := Failed _\<rparr>" u]
  by (simp add: upload_failed_def Let_def proof_ok_def sealed_status)


section \<open>Finalization and draining\<close>

lemma persist_status [simp]:
  "persist_final_proof_to_disk faults codec z dir c s d = (s', d', r) \<Longrightarrow> ps_status s' = ps_status s"
  by (auto simp: persist_final_proof_to_disk_def Let_def
      split: option.splits outcome.splits prod.splits sum.splits if_splits)

lemma persist_leaf_failure_keeps:
  "persist_leaf_failure_app_proofs_to_disk faults ser now dir s d = (s', d', r) \<Longrightarrow>
   ps_status s' = ps_status s \<and> (ps_status s = InProgress \<longrightarrow> s' = s)"
  by (auto simp: persist_leaf_failure_app_proofs_to_disk_def Let_def should_persist_leaf_failure_app_proofs_def
      split: option.splits outcome.splits prod.splits sum.splits if_splits)

lemma compact_status [simp]: "ps_status (compact_completed_state s) = ps_status s"
  by (simp add: compact_completed_state_def)

lemma conclude_proof_cases:
  assumes "conclude_proof wo now config s d = (s', d', p)"
  shows "if ps_status s = InProgress \<and> is_ready_for_finalization s
    then (ps_status s' = Completed \<or> (\<exists>e. ps_status s' = Failed e)) else s' = s \<and> d' = d"
  using assms
  by (auto simp: conclude_proof_def Let_def notify_completion_def case_prod_unfold split: outcome.splits if_splits)

text \<open>Finalization leaves a proof as it is or out of progress.\<close>

lemma finalize_locked_status:
  assumes "finalize_locked wo now config u s d = (s', d', p, m)"
  shows "ps_status s' \<noteq> InProgress \<or> s' = s \<and> \<not> is_ready_for_finalization s"
proof -
  obtain s1 d1 where 1: "(case pf_persist_leaf_failure_app_proofs_dir (mc_proof config) of
      None \<Rightarrow> (s, d)
    | Some dir \<Rightarrow> (case persist_leaf_failure_app_proofs_to_disk (wo_faults wo) (wo_snapshot wo) now dir s d of
        (s', d', _) \<Rightarrow> (s', d'))) = (s1, d1)" by fastforce
  then have s1: "ps_status s1 = ps_status s \<and> (ps_status s = InProgress \<longrightarrow> s1 = s)"
    by (auto split: option.splits prod.splits dest!: persist_leaf_failure_keeps)
  obtain s2 d2 q where 2: "conclude_proof wo now (mc_proof config) s1 d1 = (s2, d2, q)"
    using prod_cases3 by blast
  have s': "s' = compact_completed_state s2"
    using assms 2 by (simp add: finalize_locked_def 1 Let_def)
  show ?thesis
    using conclude_proof_cases [OF 2] s1
    by (cases "ps_status s2") (auto simp: s' compact_completed_state_def split: if_splits)
qed

lemma finalize_locked_ok:
  "finalize_locked wo now config u s d = (s', d', p, m) \<Longrightarrow> proof_ok s \<Longrightarrow> proof_ok s'"
  using finalize_locked_status [of wo now config u s d s' d' p m] by (auto simp: proof_ok_def sealed_status)

lemma finalize_fields [simp]:
  "as_config (finalize_proof wo now u st) = as_config st"
  "slots (finalize_proof wo now u st) = filter (\<lambda>x. x \<noteq> u) (slots st)"
  "hm_wf (as_proof_states st) \<Longrightarrow> hm_wf (as_proof_states (finalize_proof wo now u st))"
  "map_of (as_proof_states (finalize_proof wo now u st)) v =
     (case map_of (as_proof_states st) u of
        None \<Rightarrow> map_of (as_proof_states st) v
      | Some s \<Rightarrow> (if v = u then Some (fst (finalize_locked wo now (as_config st) u s (as_disk st)))
                   else map_of (as_proof_states st) v))"
  by (auto simp: finalize_proof_def Let_def drop_staged_def drop_scheduler_def slots_def report_event_def
      remove_proof_def keys_delete case_prod_unfold split: option.split)

text \<open>Finalizing a proof that was just changed, from a state in which the invariant held before.\<close>

lemma finalize_changed_inv:
  assumes inv: "manager_inv st" and cfg: "as_config st1 = as_config st"
    and states: "as_proof_states st1 = AList.update u s (as_proof_states st)" and ok: "proof_ok s"
    and sl: "slots st1 = slots st"
  shows "manager_inv (finalize_proof wo now u st1)"
proof -
  obtain s' d' p m where fl: "finalize_locked wo now (as_config st1) u s (as_disk st1) = (s', d', p, m)"
    using prod_cases4 by blast
  have wf: "hm_wf (as_proof_states st)" using inv by (simp add: manager_inv_def)
  show ?thesis
    by (rule manager_inv_change [OF inv _ _ _ finalize_locked_ok [OF fl ok], of _ u])
      (simp_all add: cfg states sl wf fl [unfolded cfg])
qed

lemma finalize_frees [simp]: "u \<notin> set (slots (finalize_proof wo now u st))"
  by (simp add: finalize_proof_def Let_def)

lemma failing_status: "is_failing s \<Longrightarrow> is_sealed_for_results s"
  by (cases "ps_status s") (auto simp: is_failing_def is_sealed_for_results_def)

lemma transition_ok: "proof_ok s \<Longrightarrow> is_failing s \<Longrightarrow> proof_ok (transition_failing_to_failed s)"
  by (cases "ps_status s") (auto simp: is_failing_def transition_failing_to_failed_def proof_ok_def sealed_status)

text \<open>The draining proof is declared failed and finalized in one go.\<close>

lemma try_finalize_inv:
  assumes inv: "manager_inv st"
  shows "manager_inv (try_finalize_failing_proof wo now u st)"
proof (cases "map_of (as_proof_states st) u")
  case None
  then show ?thesis using inv by (simp add: try_finalize_failing_proof_def)
next
  case (Some s)
  show ?thesis
  proof (cases "is_failing s \<and> (is_fully_drained u (as_state_store st) \<or> now - ps_last_updated s > failing_drain_ttl)")
    case False
    then show ?thesis using inv Some by (auto simp: try_finalize_failing_proof_def Let_def)
  next
    case True
    let ?s = "transition_failing_to_failed s" and ?st = "update_proof u transition_failing_to_failed st"
    have ok: "proof_ok ?s" using transition_ok True inv Some by (auto simp: manager_inv_def)
    have "manager_inv (finalize_proof wo now u ?st)"
      by (rule finalize_changed_inv [OF inv _ _ ok]) (use Some in \<open>simp_all add: update_proof_def slots_def\<close>)
    then show ?thesis using Some True by (auto simp: try_finalize_failing_proof_def Let_def)
  qed
qed


section \<open>Every handler keeps the invariant\<close>

lemma timeout_ok: "proof_ok s \<Longrightarrow> proof_ok (mark_timed_out s) \<and> (live s \<longrightarrow> live (mark_timed_out s))"
  by (auto simp: mark_timed_out_def Let_def proof_ok_def live_def is_failing_def sealed_status notify_completion_def)

lemma mark_failing_ok: "proof_ok s \<Longrightarrow> proof_ok (mark_failing m s) \<and> (live s \<longrightarrow> live (mark_failing m s))"
  by (auto simp: mark_failing_def Let_def proof_ok_def live_def is_failing_def sealed_status notify_completion_def)

lemma timeout_candidate_inv: "manager_inv st \<Longrightarrow> manager_inv (timeout_candidate wo now u st)"
  using try_finalize_inv [of st wo now u] timeout_ok
  by (auto simp: timeout_candidate_def Let_def split: option.split intro!: try_finalize_inv manager_inv_update_proof)

lemma fold_keeps: "(\<And>x st. P st \<Longrightarrow> P (f x st)) \<Longrightarrow> P st \<Longrightarrow> P (fold f xs st)"
  by (induction xs arbitrary: st) auto

lemma scan_inv:
  assumes "manager_inv st"
  shows "manager_inv (scan_and_timeout_proofs wo now st)"
proof -
  have "manager_inv (fold (timeout_candidate wo now) us st)" for us
    by (rule fold_keeps [where P = manager_inv, OF timeout_candidate_inv assms])
  moreover have "manager_inv st' \<Longrightarrow> manager_inv (reclaim_orphans now st')" for st'
    unfolding reclaim_orphans_def Let_def
    by (rule fold_keeps [where P = manager_inv]) (simp_all add: manager_inv_same_core [OF same_core_basic(1)])
  ultimately show ?thesis by (simp add: scan_and_timeout_proofs_def)
qed

text \<open>Eviction drops a live proof only when it has made no progress for ten hours.\<close>

definition recent :: "instant \<Rightarrow> proof_state \<Rightarrow> bool" where
  "recent now s \<longleftrightarrow> (ps_status s = InProgress \<longrightarrow> now - ps_last_updated s \<le> hours 10)"

definition no_live_eviction :: "instant \<Rightarrow> app_state \<Rightarrow> bool" where
  "no_live_eviction now st \<longleftrightarrow> hm_all (recent now) (as_proof_states st)"

lemma map_of_fold_delete:
  "map_of (fold AList.delete ks m) k = (if k \<in> set ks then None else map_of m k)"
  by (induction ks arbitrary: m) auto

lemma evict_inv:
  assumes inv: "manager_inv st" and keep: "no_live_eviction now st"
  shows "manager_inv (evict_stale_proofs now st)"
proof -
  define E where "E = set (map fst (filter (\<lambda>(_, s). should_evict s now) (as_proof_states st)))"
  have kept: "u \<notin> E" if "map_of (as_proof_states st) u = Some s" "live s" for u s
  proof
    assume "u \<in> E"
    then obtain s' where "(u, s') \<in> set (as_proof_states st)" and ev: "should_evict s' now"
      by (auto simp: E_def)
    then have "map_of (as_proof_states st) u = Some s'" and m: "(u, s') \<in> set (as_proof_states st)"
      using inv by (auto simp: hm_wf_def manager_inv_def)
    then have "s' = s" using that(1) by simp
    then have "ps_status s = InProgress \<and> now - ps_last_updated s > hours 10"
      using ev that(2)
      by (cases "ps_status s")
        (auto simp: should_evict_def Let_def live_def is_failing_def is_sealed_for_results_def)
    moreover have "ps_status s = InProgress \<longrightarrow> now - ps_last_updated s \<le> hours 10"
      using keep m \<open>s' = s\<close> by (auto simp: no_live_eviction_def hm_all_def list_all_iff recent_def)
    ultimately show False by simp
  qed
  have wf: "hm_wf m \<Longrightarrow> hm_wf (fold AList.delete ks m)" for ks and m :: "(string, proof_state) hmap"
    by (induction ks arbitrary: m) auto
  have same: "hm_wf (as_proof_states (evict_stale_proofs now st))"
    using inv wf by (simp add: evict_stale_proofs_def Let_def manager_inv_def)
  have same': "as_config (evict_stale_proofs now st) = as_config st" "slots (evict_stale_proofs now st) = slots st"
    "map_of (as_proof_states (evict_stale_proofs now st)) u =
       (if u \<in> E then None else map_of (as_proof_states st) u)" for u
    by (simp_all add: evict_stale_proofs_def Let_def slots_def map_of_fold_delete E_def)
  show ?thesis
    using inv kept same unfolding manager_inv_def same' by (auto split: if_splits)
qed


lemma send_attempts_inv: "manager_inv st \<Longrightarrow> manager_inv (send_attempts wo now retries work k left st)"
proof (induction left arbitrary: k st)
  have giveup: "manager_inv (give_up_dispatch wo now retries work st')" if "manager_inv st'" for st'
  proof -
    let ?st1 = "st'\<lparr>as_state_store := release_worker (aw_proof_uuid work) (aw_worker_id work) (as_state_store st')\<rparr>"
    have "manager_inv ?st1" by (rule manager_inv_release [OF that])
    then show ?thesis unfolding give_up_dispatch_def Let_def
      by (intro try_finalize_inv manager_inv_update_proof)
        (auto simp: proof_ok_def live_def is_failing_def sealed_status notify_completion_def)
  qed
  have step: "manager_inv (fst (push_deferral_inputs_jit wo k work st'))"
    "manager_inv (fst (send_work_to_worker wo k work st'))" if "manager_inv st'" for k st'
    using that by (simp_all add: manager_inv_same_core [OF same_core_send(1)] manager_inv_same_core [OF same_core_send(2)])
  have staged: "manager_inv (drop_staged u st') = manager_inv st'" for u st'
    by (rule manager_inv_same_core) simp
  {
    case 0
    then show ?case
      by (subst send_attempts.simps) (auto simp: case_prod_unfold Let_def staged step intro: giveup)
  next
    case (Suc left)
    then show ?case
      by (subst send_attempts.simps) (auto simp: case_prod_unfold Let_def staged step)
  }
qed

lemma slots_update_store:
  "map fst (ess_proofs store) = slots st \<Longrightarrow> slots (st\<lparr>as_state_store := store\<rparr>) = slots st"
  by (simp add: slots_def)

lemma admit_inv:
  assumes inv: "manager_inv st"
  shows "manager_inv (fst (admit_proof now req program workers st))"
proof (cases "has_any_proofs (as_state_store st) \<or> map_of (as_proof_states st) (spr_proof_uuid req) \<noteq> None")
  case True
  then show ?thesis using inv by (auto simp: admit_proof_def Let_def)
next
  case False
  then have none: "ess_proofs (as_state_store st) = []" by (simp add: has_any_proofs_def)
  let ?cfg = "mc_proof (as_config st)"
  have ok: "proof_ok (proof_state_new ctx c w (pf_leaf_arity ?cfg) (pf_internal_arity ?cfg) t now) \<and>
      live (proof_state_new ctx c w (pf_leaf_arity ?cfg) (pf_internal_arity ?cfg) t now)" for ctx c w t
    using inv by (auto simp: proof_ok_def live_def manager_inv_def proof_state_new_def proof_state_wf_def
        is_sealed_for_results_def is_ready_for_finalization_def final_internal_proof_present_def split: proof_type.split)
  show ?thesis
    using False none ok inv
    by (simp add: admit_proof_def Let_def manager_inv_def slots_def init_proof_def)
qed

lemma stage_inv:
  assumes inv: "manager_inv st"
  shows "manager_inv (fst (stage_proof_inputs wo req workers st))"
proof -
  let ?u = "spr_proof_uuid req"
  have staged: "manager_inv (drop_staged u st') = manager_inv st'" for u st'
    by (rule manager_inv_same_core) simp
  have up: "manager_inv (fst (upload_to_all wo p m ws st'))" if "manager_inv st'" for p m ws st'
    using that manager_inv_same_core [OF same_core_upload_to_all] by simp
  show ?thesis
    using inv
    by (auto simp: stage_proof_inputs_def fanout_deferral_bundle_def case_prod_unfold Let_def staged up
        intro!: abort_inv upload_failed_inv split: option.splits)
qed

lemma frame_ok:
  "proof_ok (s\<lparr>ps_deferral_circuit_count := n\<rparr>) = proof_ok s" "live (s\<lparr>ps_deferral_circuit_count := n\<rparr>) = live s"
  "proof_ok (s\<lparr>ps_proving_started_at := t\<rparr>) = proof_ok s" "live (s\<lparr>ps_proving_started_at := t\<rparr>) = live s"
  "proof_ok (s\<lparr>ps_late_result_notice_emitted := b\<rparr>) = proof_ok s"
  "live (s\<lparr>ps_late_result_notice_emitted := b\<rparr>) = live s"
  by (simp_all add: proof_ok_def live_def is_sealed_for_results_def is_failing_def proof_state_wf_def)

lemma kickoff_inv:
  assumes inv: "manager_inv st"
  shows "manager_inv (fst (kickoff_proof wo now req program workers n staged st))"
proof -
  let ?u = "spr_proof_uuid req"
  define st1 where "st1 = (if n > 0
      then (update_proof ?u (\<lambda>s. s\<lparr>ps_deferral_circuit_count := n\<rparr>) st)
        \<lparr>as_staged_inputs := AList.update ?u
           (staged_default\<lparr>si_deferral_inputs := si_deferral_inputs staged\<rparr>) (as_staged_inputs st)\<rparr> else st)"
  define st3 where "st3 = update_proof ?u (\<lambda>s. s\<lparr>ps_proving_started_at := Some now\<rparr>)
      (report_event (Event_Proving ?u (spr_labels req)) st1)"
  have "manager_inv st1"
    unfolding st1_def
    using inv manager_inv_update_proof [OF inv, of ?u "\<lambda>s. s\<lparr>ps_deferral_circuit_count := n\<rparr>"]
    by (simp add: frame_ok manager_inv_same_core [OF same_core_basic(4)])
  then have "manager_inv (report_event (Event_Proving ?u (spr_labels req)) st1)"
    by (simp add: manager_inv_same_core [OF same_core_basic(2)])
  then have 3: "manager_inv st3" unfolding st3_def
    by (intro manager_inv_update_proof) (simp_all add: frame_ok)
  have 4: "manager_inv (fst (kickoff_workers wo r ws st3))" for r ws
    using 3 manager_inv_same_core [OF same_core_kickoff] by simp
  have rel: "manager_inv (fold (\<lambda>wid st. st\<lparr>as_state_store := release_worker ?u wid (as_state_store st)\<rparr>) ws st')"
    if "manager_inv st'" for ws st'
    by (rule fold_keeps [where P = manager_inv, OF _ that]) (rule manager_inv_release)
  show ?thesis
    unfolding kickoff_proof_def Let_def st1_def [symmetric] st3_def [symmetric]
    by (simp add: case_prod_unfold)
      (intro conjI impI try_finalize_inv rel manager_inv_update_proof 4, auto simp: mark_failing_ok 4)
qed

lemma cancel_inv: "manager_inv st \<Longrightarrow> manager_inv (fst (cancel_proof u st))"
  using manager_inv_update_drop [of st _ u]
  by (auto simp: cancel_proof_def Let_def manager_inv_same_core [OF same_core_basic(1)] proof_ok_def
      sealed_status notify_completion_def split: option.split)


section \<open>Results\<close>

text \<open>What a result does to an unsealed proof.\<close>

lemma handlers_keep_updated:
  "ps_last_updated (fst (fail_with m s)) = ps_last_updated s"
  "ps_last_updated (handle_error_result e s) = ps_last_updated s"
  "ps_last_updated (fst (handle_execute_e2_result b e2 s)) = ps_last_updated s"
  "ps_last_updated (fst (handle_app_result now a s)) = ps_last_updated s"
  "ps_last_updated (fst (handle_leaf_result now l s)) = ps_last_updated s"
  "ps_last_updated (fst (handle_internal_result now i s)) = ps_last_updated s"
  "ps_last_updated (fst (handle_halo2_result ev s)) = ps_last_updated s"
  by (auto simp: fail_with_def handle_error_result_def notify_completion_def handle_execute_e2_result_def
      handle_app_result_def handle_leaf_result_def handle_internal_result_def handle_halo2_result_def Let_def
      split: outcome.splits option.splits)

lemma record_completion_updated [simp]: "ps_last_updated (record_completion t s) = ps_last_updated s"
  by (simp add: record_completion_def)

lemma handle_result_updated: "ps_last_updated (fst (handle_proof_result b ck res s)) = ps_last_updated s"
proof -
  have "ps_last_updated (fst (case p of (s', r) \<Rightarrow> case r of Ok q \<Rightarrow> (record_completion t s', Ok q) | e \<Rightarrow> (s', e))) =
      ps_last_updated (fst p)" for p :: handler_result and t
    by (cases p; cases "snd p") auto
  then show ?thesis
    using handlers_keep_updated
    by (cases res) (simp_all add: handle_proof_result_def Let_def)
qed

text \<open>Only a final internal proof of an EVM job is refused with an error, and it leaves the job unsealed.\<close>

lemma internal_keeps_evm: "ps_evm_proof (fst (handle_internal_result now st s)) = ps_evm_proof s"
  by (auto simp: handle_internal_result_def fail_with_def notify_completion_def Let_def)

lemma handle_result_err_unsealed:
  assumes ns: "\<not> is_sealed_for_results s" and wf: "proof_state_wf s" "1 \<le> ps_leaf_arity s" "2 \<le> ps_internal_arity s"
    and run: "handle_proof_result b ck res s = (s', r)" and bad: "\<And>reqs. r \<noteq> Ok reqs"
  shows "\<not> is_sealed_for_results s'" "\<exists>e. r = Err e"
proof -
  have t: "proof_state_wf s' \<and> same_plan s' s \<and>
    (case r of Ok _ \<Rightarrow> True
     | Err _ \<Rightarrow> pc_proof_type (ps_context s) = Evm \<and>
         (case res of InternalRes _ st \<Rightarrow> \<not> ips_ready_for_evm st | _ \<Rightarrow> False)
     | Panic _ \<Rightarrow> False)"
    using handle_proof_result_total [OF wf(1) _ wf(3) run] wf(2) by simp
  then obtain e c st where r: "r = Err e" and evm: "pc_proof_type (ps_context s) = Evm" and res: "res = InternalRes c st"
    using bad by (cases r; cases res) auto
  show "\<exists>e. r = Err e" using r by blast
  obtain s1 q where h: "handle_internal_result (ck_handled ck) st s = (s1, q)" by fastforce
  have "s' = s1" using run ns h r by (cases q) (auto simp: handle_proof_result_def res Let_def)
  then have "ps_evm_proof s' = ps_evm_proof s" using internal_keeps_evm [of "ck_handled ck" st s] h by simp
  moreover have "failure_reason s res = None \<Longrightarrow> ps_status s' = InProgress" "failure_reason s res \<noteq> None \<Longrightarrow> r = Ok []"
    using handle_proof_result_failure [OF ns run] by (auto split: option.splits)
  then have "ps_status s' = InProgress" using r by (cases "failure_reason s res") auto
  moreover have "ps_context s' = ps_context s" using t by (simp add: same_plan_def)
  ultimately show "\<not> is_sealed_for_results s'" using ns evm
    by (auto simp: is_sealed_for_results_def is_ready_for_finalization_def)
qed

lemma outcome_cases:
  assumes ok: "proof_ok s"
    and run: "handle_proof_result_with_envelope_outcome b ck env s = (s', r)"
  obtains (late) "is_sealed_for_results s" "s' = s\<lparr>ps_late_result_notice_emitted := True\<rparr>"
      "r = Ok (Late (\<not> ps_late_result_notice_emitted s) (ps_status s))"
  | (processed) reqs where "\<not> is_sealed_for_results s" "r = Ok (Processed reqs (is_sealed_for_results s'))"
      "proof_ok s'" "ps_last_updated s' = ck_received ck" "ps_status s' = InProgress \<or> is_failing s'"
  | (refused) e where "\<not> is_sealed_for_results s" "r = Err e" "proof_ok s'" "\<not> is_sealed_for_results s'"
      "ps_last_updated s' = ck_received ck"
proof (cases "is_sealed_for_results s")
  case True
  then show ?thesis using run late by (simp add: sealed_outcome)
next
  case False
  let ?t = "s\<lparr>ps_last_updated := ck_received ck\<rparr>"
  have wf: "\<not> is_sealed_for_results ?t" "proof_state_wf ?t" "1 \<le> ps_leaf_arity ?t" "2 \<le> ps_internal_arity ?t"
    using ok False by (simp_all add: proof_ok_def)
  obtain t q where h: "handle_proof_result b ck (me_message env) ?t = (t, q)" by fastforce
  have s': "s' = t" and r: "r = (case q of Ok reqs \<Rightarrow> Ok (Processed reqs (is_sealed_for_results t))
      | Err e \<Rightarrow> Err e | Panic p \<Rightarrow> Panic p)"
    using run False h
    by (auto simp: handle_proof_result_with_envelope_outcome_def split: outcome.splits)
  have "proof_state_wf t \<and> same_plan t ?t"
    using handle_proof_result_total [OF wf(2) _ wf(4) h] wf(3) by simp
  then have ok': "proof_ok t" using wf by (simp add: proof_ok_def same_plan_def)
  have upd: "ps_last_updated t = ck_received ck" using handle_result_updated [of b ck "me_message env" ?t] h by simp
  show ?thesis
  proof (cases q)
    case (Ok reqs)
    have "ps_status t = InProgress \<or> is_failing t"
      using handle_proof_result_failure [OF wf(1) h] by (auto simp: is_failing_def split: option.splits)
    then show ?thesis using processed [of reqs] False r s' ok' upd Ok by simp
  next
    case (Err e)
    then show ?thesis using refused [of e] False r s' ok' upd handle_result_err_unsealed(1) [OF wf h] by simp
  next
    case (Panic p)
    then show ?thesis using handle_result_err_unsealed(2) [OF wf h] by simp
  qed
qed


text \<open>Finalization and draining do not make a proof evictable.\<close>

lemma recent_status [simp]: "ps_status s \<noteq> InProgress \<Longrightarrow> recent now s"
  by (simp add: recent_def)

lemma recent_finalize:
  assumes "no_live_eviction t st"
  shows "no_live_eviction t (finalize_proof wo now u st)"
proof (cases "map_of (as_proof_states st) u")
  case None
  then show ?thesis using assms
    by (simp add: no_live_eviction_def finalize_proof_def Let_def drop_staged_def drop_scheduler_def)
next
  case (Some s)
  obtain s' d' p m where fl: "finalize_locked wo now (as_config st) u s (as_disk st) = (s', d', p, m)"
    using prod_cases4 by blast
  have "recent t s" using assms Some by (auto simp: no_live_eviction_def dest: hm_all_get)
  then have "recent t s'" using finalize_locked_status [OF fl] by auto
  then show ?thesis using assms Some fl
    by (auto simp: no_live_eviction_def finalize_proof_def Let_def drop_staged_def drop_scheduler_def
        report_event_def split: option.split)
qed

lemma recent_try_finalize:
  assumes "no_live_eviction t st"
  shows "no_live_eviction t (try_finalize_failing_proof wo now u st)"
proof -
  have "no_live_eviction t (update_proof u transition_failing_to_failed st)"
    if "map_of (as_proof_states st) u = Some s" "is_failing s" for s
    using that assms
    by (auto simp: no_live_eviction_def update_proof_def is_failing_def transition_failing_to_failed_def recent_def
        split: proof_status.splits)
  then show ?thesis using assms
    by (auto simp: try_finalize_failing_proof_def Let_def intro!: recent_finalize split: option.split)
qed

section \<open>The result handler and runs\<close>

text \<open>The clock of an event, and no live proof idle for ten hours when it runs.\<close>

fun timely :: "manager_event \<Rightarrow> app_state \<Rightarrow> bool" where
  "timely (Ev_Result wo ck now payload) st \<longleftrightarrow> no_live_eviction now st \<and> now - ck_received ck \<le> hours 10"
| "timely _ st \<longleftrightarrow> True"

lemma late_result_inv:
  assumes inv: "manager_inv st" and recent: "no_live_eviction now st"
  shows "manager_inv (late_result wo now payload status st)"
proof -
  let ?st = "st\<lparr>as_state_store := fst (worker_drained (rp_proof_uuid payload) (rp_worker_id payload)
      (me_message (rp_result payload)) (as_state_store st))\<rparr>"
  have "manager_inv ?st" by (rule manager_inv_slots [OF inv]) (simp_all add: slots_def)
  moreover have "no_live_eviction now ?st" using recent by (simp add: no_live_eviction_def)
  ultimately show ?thesis using inv recent
    by (auto simp: late_result_def Let_def intro!: evict_inv try_finalize_inv recent_try_finalize
        split: proof_status.split)
qed

lemma processed_store_keys:
  "map fst (ess_proofs (fst (case result of
      ExecuteE2Res _ e2 \<Rightarrow>
        (case set_num_segments u (e2_num_segments e2) store of
           (store', Ok ws) \<Rightarrow> (store', ws) | (store', _) \<Rightarrow> (store', []))
    | _ \<Rightarrow> (store, [])))) = map fst (ess_proofs store)"
  using keys_store_ops(1) by (cases result) (auto simp: case_prod_unfold split: outcome.split)

lemma completed_store_keys:
  "map fst (ess_proofs (fst (case worker_completed u w result store of
      (store', Ok (Some x)) \<Rightarrow> (store', [x]) | (store', _) \<Rightarrow> (store', [])))) = map fst (ess_proofs store)"
  using keys_store_ops(3) by (auto simp: case_prod_unfold split: outcome.split option.split)


lemma processed_result_inv:
  assumes inv: "manager_inv st" and recent: "no_live_eviction now st"
    and s: "map_of (as_proof_states st) (rp_proof_uuid payload) = Some s0"
    and ok: "proof_ok s'" "recent now s'" and live: "is_sealed_for_results s' \<Longrightarrow> is_failing s' \<or> sealed"
    and sealed: "sealed = is_sealed_for_results s'"
  shows "manager_inv (fst (processed_result wo now payload reqs sealed
           (st\<lparr>as_proof_states := AList.update (rp_proof_uuid payload) s' (as_proof_states st)\<rparr>)))"
proof -
  let ?u = "rp_proof_uuid payload" and ?res = "me_message (rp_result payload)"
  let ?st1 = "st\<lparr>as_proof_states := AList.update ?u s' (as_proof_states st)\<rparr>"
  obtain store1 works1 where 1: "(case ?res of
      ExecuteE2Res _ e2 \<Rightarrow>
        (case set_num_segments ?u (e2_num_segments e2) (as_state_store ?st1) of
           (store', Ok ws) \<Rightarrow> (store', ws) | (store', _) \<Rightarrow> (store', []))
    | _ \<Rightarrow> (as_state_store ?st1, [])) = (store1, works1)" by fastforce
  have k1: "map fst (ess_proofs store1) = slots st"
    using processed_store_keys [where result = ?res and u = ?u and store = "as_state_store ?st1"] unfolding 1 by (simp add: slots_def)
  obtain store2 works2 where 2: "(if \<not> sealed then
      (case worker_completed ?u (rp_worker_id payload) ?res store1 of
         (store', Ok (Some w)) \<Rightarrow> (store', [w]) | (store', _) \<Rightarrow> (store', []))
    else (store1, [])) = (store2, works2)" by fastforce
  have k2: "map fst (ess_proofs store2) = slots st"
    using completed_store_keys [where u = ?u and w = "rp_worker_id payload" and result = ?res and store = store1] 2 k1 by (cases sealed) auto
  let ?stA = "?st1\<lparr>as_state_store := store2\<rparr>"
  have slA: "slots ?stA = slots st" using k2 by (simp add: slots_def)
  define st2 where "st2 = (if sealed \<and> \<not> (case map_of (as_proof_states ?stA) ?u of
      Some s \<Rightarrow> is_failing s | None \<Rightarrow> False) then finalize_proof wo now ?u ?stA else ?stA)"
  have recA: "no_live_eviction now ?stA" using recent ok(2) by (simp add: no_live_eviction_def)
  then have rec2: "no_live_eviction now st2" by (simp add: st2_def recent_finalize)
  have inv2: "manager_inv st2"
  proof (cases "sealed \<and> \<not> is_failing s'")
    case True
    then show ?thesis by (simp add: st2_def) (rule finalize_changed_inv [OF inv _ _ ok(1)], simp_all add: slA)
  next
    case False
    then have "live s'" using sealed by (auto simp: live_def)
    then have "manager_inv ?stA" by (intro manager_inv_update [OF inv _ _ ok(1), of _ ?u]) (simp_all add: slA)
    then show ?thesis using False by (auto simp: st2_def)
  qed
  let ?st3 = "evict_stale_proofs now (try_finalize_failing_proof wo now ?u st2)"
  have inv3: "manager_inv ?st3" by (intro evict_inv try_finalize_inv recent_try_finalize inv2 rec2)
  have "manager_inv (?st3\<lparr>as_state_store := fst (enqueue_follow_ups ?u envs (as_state_store ?st3))\<rparr>)" for envs
    by (rule manager_inv_slots [OF inv3]) (simp_all add: slots_def)
  then show ?thesis
    unfolding processed_result_def Let_def unfolding 1 prod.case unfolding 2 prod.case
    unfolding st2_def [symmetric] unfolding case_prod_unfold fst_conv .
qed

lemma proof_result_inv:
  assumes inv: "manager_inv st" and timely: "timely (Ev_Result wo ck now decoded) st"
  shows "manager_inv (fst (proof_result_handler wo ck now decoded st))"
proof (cases decoded)
  case (Inl e)
  then show ?thesis using inv by (simp add: proof_result_handler_def)
next
  case (Inr payload)
  let ?u = "rp_proof_uuid payload"
  show ?thesis
  proof (cases "pc_proof_uuid (result_context (me_message (rp_result payload))) = ?u \<and>
      map_of (as_proof_states st) ?u \<noteq> None")
    case False
    then show ?thesis using inv Inr by (auto simp: proof_result_handler_def Let_def split: option.split)
  next
    case True
    then obtain s where s: "map_of (as_proof_states st) ?u = Some s" by blast
    have ok: "proof_ok s" using inv s by (simp add: manager_inv_def)
    have live: "?u \<in> set (slots st) \<Longrightarrow> live s" using inv s by (auto simp: manager_inv_def)
    have recent: "no_live_eviction now st" "now - ck_received ck \<le> hours 10" using timely by simp_all
    obtain s' r where h: "handle_proof_result_with_envelope_outcome (wo_build wo) ck (rp_result payload) s = (s', r)"
      by fastforce
    let ?st1 = "st\<lparr>as_proof_states := AList.update ?u s' (as_proof_states st)\<rparr>"
    have sl: "slots ?st1 = slots st" by (simp add: slots_def)
    have run: "fst (proof_result_handler wo ck now decoded st) =
        fst (case r of
          Err e \<Rightarrow> (?st1, json_error 500 e, [])
        | Panic e \<Rightarrow> (?st1, json_error 500 e, [])
        | Ok (Late _ status) \<Rightarrow> (late_result wo now payload status ?st1, json_ok, [])
        | Ok (Processed requests sealed) \<Rightarrow>
            (let (st2, works) = processed_result wo now payload requests sealed ?st1 in (st2, json_ok, works)))"
      using True s h
      by (simp add: proof_result_handler_def Inr Let_def case_prod_unfold split: outcome.split envelope_outcome.split)
    from ok h show ?thesis
    proof (cases rule: outcome_cases)
      case late
      have "manager_inv ?st1"
        by (rule manager_inv_update [OF inv, of _ ?u s']) (use ok live sl late(2) in \<open>simp_all add: frame_ok\<close>)
      moreover have "recent now s'" using late(2) recent(1) s
        by (auto simp: no_live_eviction_def recent_def dest!: hm_all_get)
      then have "no_live_eviction now ?st1" using recent(1) by (simp add: no_live_eviction_def)
      ultimately show ?thesis unfolding run late(3) by (simp add: late_result_inv)
    next
      case (processed reqs)
      have "recent now s'" using processed(4) recent(2) by (simp add: recent_def)
      then show ?thesis
        unfolding run processed(2)
        using processed_result_inv [OF inv recent(1) s processed(3) _ _ refl, of wo reqs]
        by (simp add: case_prod_unfold Let_def)
    next
      case (refused e)
      have "manager_inv ?st1"
        by (rule manager_inv_update [OF inv, of _ ?u s']) (use refused sl in \<open>simp_all add: live_def\<close>)
      then show ?thesis unfolding run refused(2) by simp
    qed
  qed
qed

lemma manager_step_inv: "manager_inv st \<Longrightarrow> timely e st \<Longrightarrow> manager_inv (manager_step e st)"
proof (cases e)
  case (Ev_Result wo ck now p)
  then show "manager_inv st \<Longrightarrow> timely e st \<Longrightarrow> manager_inv (manager_step e st)" using proof_result_inv by simp
qed (simp_all add: admit_inv stage_inv kickoff_inv cancel_inv scan_inv send_work_with_retry_def send_attempts_inv
    manager_inv_same_core [OF same_core_upload_input] manager_inv_same_core [OF same_core_register]
    manager_inv_same_core [OF same_core_ready])

fun timely_run :: "manager_event list \<Rightarrow> app_state \<Rightarrow> bool" where
  "timely_run [] st \<longleftrightarrow> True"
| "timely_run (e # es) st \<longleftrightarrow> timely e st \<and> timely_run es (manager_step e st)"

lemma manager_run_inv: "manager_inv st \<Longrightarrow> timely_run es st \<Longrightarrow> manager_inv (manager_run es st)"
  by (induction es arbitrary: st) (simp_all add: manager_run_def manager_step_inv)

lemma app_new_inv:
  "1 \<le> pf_leaf_arity (mc_proof config) \<Longrightarrow> 2 \<le> pf_internal_arity (mc_proof config) \<Longrightarrow>
   manager_inv (app_new config programs d)"
  by (simp add: manager_inv_def app_new_def slots_def store_new_def)

end
