(* ===== verification/Manager_Properties.thy ===== *)
theory Manager_Properties
  imports Manager_Invariant
begin

text \<open>
  The properties of the manager as a whole: the single live proof, the watchdog's guarantee, the drain
  of failing proofs, cancellation during an upload, eviction, and the persistence of final proofs.
\<close>

section \<open>The watchdog\<close>

lemma try_finalize_other:
  "v \<noteq> u \<Longrightarrow> map_of (as_proof_states (try_finalize_failing_proof wo now v st)) u = map_of (as_proof_states st) u"
  "v \<noteq> u \<Longrightarrow> u \<in> set (slots (try_finalize_failing_proof wo now v st)) \<longleftrightarrow> u \<in> set (slots st)"
  by (auto simp: try_finalize_failing_proof_def Let_def split: option.splits)

lemma timeout_candidate_other:
  "v \<noteq> u \<Longrightarrow> map_of (as_proof_states (timeout_candidate wo now v st)) u = map_of (as_proof_states st) u"
  "v \<noteq> u \<Longrightarrow> u \<in> set (slots (timeout_candidate wo now v st)) \<longleftrightarrow> u \<in> set (slots st)"
  by (auto simp: timeout_candidate_def Let_def try_finalize_other split: option.splits)

lemma candidates_other:
  assumes "u \<notin> set us"
  shows "map_of (as_proof_states (fold (timeout_candidate wo now) us st)) u = map_of (as_proof_states st) u \<and>
    (u \<in> set (slots (fold (timeout_candidate wo now) us st)) \<longleftrightarrow> u \<in> set (slots st))"
  using assms
proof (induction us arbitrary: st)
  case (Cons v us)
  then have "v \<noteq> u" "u \<notin> set us" by auto
  then show ?case
    using Cons.IH [of "timeout_candidate wo now v st"] timeout_candidate_other [of v u wo now st] by simp
qed simp

text \<open>What one pass does to a proof depends on its own candidate only.\<close>

lemma candidates_own:
  assumes "u \<in> set us" "distinct us"
  obtains st' where
    "map_of (as_proof_states st') u = map_of (as_proof_states st) u" "u \<in> set (slots st') \<longleftrightarrow> u \<in> set (slots st)"
    "map_of (as_proof_states (fold (timeout_candidate wo now) us st)) u =
       map_of (as_proof_states (timeout_candidate wo now u st')) u"
    "u \<in> set (slots (fold (timeout_candidate wo now) us st)) \<longleftrightarrow> u \<in> set (slots (timeout_candidate wo now u st'))"
proof -
  obtain as bs where us: "us = as @ u # bs" using assms(1) by (meson split_list)
  then have "u \<notin> set as" "u \<notin> set bs" using assms(2) by auto
  then show thesis
    using that [of "fold (timeout_candidate wo now) as st"] candidates_other [of u as wo now st]
      candidates_other [of u bs wo now "timeout_candidate wo now u (fold (timeout_candidate wo now) as st)"]
    by (simp add: us)
qed

lemma slots_reclaim [simp]:
  "slots (reclaim_orphans now st) = slots st" "as_proof_states (reclaim_orphans now st) = as_proof_states st"
proof -
  have "same_core (fold drop_staged us st) st" for us
    by (induction us arbitrary: st) (auto intro: same_core_trans [OF _ same_core_basic(1)])
  then have "same_core (reclaim_orphans now st) st" by (simp add: reclaim_orphans_def Let_def)
  then show "slots (reclaim_orphans now st) = slots st" "as_proof_states (reclaim_orphans now st) = as_proof_states st"
    by (rule same_core_fields)+
qed

lemma candidate_expired:
  assumes s: "map_of (as_proof_states st) u = Some s" and "is_failing s" "now - ps_last_updated s > failing_drain_ttl"
  shows "u \<notin> set (slots (timeout_candidate wo now u st))"
proof -
  have "try_finalize_failing_proof wo now u st =
      finalize_proof wo now u (update_proof u transition_failing_to_failed st)"
    using assms by (simp add: try_finalize_failing_proof_def Let_def)
  moreover have "u \<notin> set (slots st') \<Longrightarrow> u \<notin> set (slots (try_finalize_failing_proof wo now u st'))" for st'
    by (auto simp: try_finalize_failing_proof_def Let_def split: option.split)
  ultimately show ?thesis by (auto simp: timeout_candidate_def Let_def split: option.split)
qed

lemma candidate_marked:
  assumes s: "map_of (as_proof_states st) u = Some s" and "is_failing s \<or> is_timed_out s now"
    and slot: "u \<in> set (slots (timeout_candidate wo now u st))"
  shows "\<exists>s'. map_of (as_proof_states (timeout_candidate wo now u st)) u = Some s' \<and> is_failing s' \<and>
    ps_last_updated s' = ps_last_updated s"
proof -
  have keep: "u \<in> set (slots (try_finalize_failing_proof wo now u st')) \<Longrightarrow>
      map_of (as_proof_states (try_finalize_failing_proof wo now u st')) u = map_of (as_proof_states st') u" for st'
    by (auto simp: try_finalize_failing_proof_def Let_def split: option.splits if_splits)
  have unsealed: "is_timed_out s now \<Longrightarrow> \<not> is_sealed_for_results s" by (auto simp: is_timed_out_def)
  show ?thesis
  proof (cases "is_failing s")
    case True
    then have nt: "\<not> is_timed_out s now" using unsealed failing_status by blast
    show ?thesis
    proof (cases "u \<in> set (slots (try_finalize_failing_proof wo now u st))")
      case True
      then show ?thesis using keep [OF True] s nt \<open>is_failing s\<close> by (simp add: timeout_candidate_def Let_def)
    next
      case False
      have "u \<notin> set (slots st') \<Longrightarrow> u \<notin> set (slots (try_finalize_failing_proof wo now u st'))" for st'
        by (auto simp: try_finalize_failing_proof_def Let_def split: option.split)
      then show ?thesis using False slot by (auto simp: timeout_candidate_def Let_def split: option.splits if_splits)
    qed
  next
    case False
    then have t: "is_timed_out s now" using assms(2) by blast
    have "try_finalize_failing_proof wo now u st = st" using s False by (simp add: try_finalize_failing_proof_def)
    then have c: "timeout_candidate wo now u st =
        try_finalize_failing_proof wo now u (update_proof u mark_timed_out st)"
      using s t by (simp add: timeout_candidate_def)
    have "is_failing (mark_timed_out s)" "ps_last_updated (mark_timed_out s) = ps_last_updated s"
      using unsealed [OF t] by (simp_all add: mark_timed_out_def Let_def is_failing_def notify_completion_def)
    then show ?thesis using keep slot s unfolding c by simp
  qed
qed

lemma candidates_slots: "u \<in> set (slots (fold (timeout_candidate wo now) us st)) \<Longrightarrow> u \<in> set (slots st)"
proof (induction us arbitrary: st)
  case (Cons v us)
  have sub: "u \<in> set (slots (try_finalize_failing_proof wo now v st')) \<Longrightarrow> u \<in> set (slots st')" for st'
    by (auto simp: try_finalize_failing_proof_def Let_def split: option.splits if_splits)
  have "u \<in> set (slots (timeout_candidate wo now v st)) \<Longrightarrow> u \<in> set (slots st)"
    by (auto simp: timeout_candidate_def Let_def dest!: sub split: option.splits if_splits)
  then show ?case using Cons by simp
qed simp

lemma scan_slots: "u \<in> set (slots (scan_and_timeout_proofs wo now st)) \<Longrightarrow> u \<in> set (slots st)"
  by (simp add: scan_and_timeout_proofs_def candidates_slots)

lemma slotted_proof:
  assumes "manager_inv st" "u \<in> set (slots st)"
  obtains s where "map_of (as_proof_states st) u = Some s" "live s" "u \<in> set (map fst (as_proof_states st))"
    "distinct (map fst (as_proof_states st))"
proof -
  obtain s where s: "map_of (as_proof_states st) u = Some s" "live s" using assms by (auto simp: manager_inv_def)
  then have "u \<in> set (map fst (as_proof_states st))" by (force dest: map_of_SomeD)
  then show thesis using that s assms(1) by (auto simp: manager_inv_def hm_wf_def)
qed

lemma two_scans_free:
  assumes inv: "manager_inv st"
    and late: "hm_all (\<lambda>s. is_sealed_for_results s \<or> is_timed_out s now1) (as_proof_states st)"
    and idle: "hm_all (\<lambda>s. now2 - ps_last_updated s > failing_drain_ttl) (as_proof_states st)"
  shows "slots (scan_and_timeout_proofs wo2 now2 (scan_and_timeout_proofs wo1 now1 st)) = []"
proof (rule ccontr)
  let ?st1 = "scan_and_timeout_proofs wo1 now1 st"
  assume "slots (scan_and_timeout_proofs wo2 now2 ?st1) \<noteq> []"
  then obtain u where u2: "u \<in> set (slots (scan_and_timeout_proofs wo2 now2 ?st1))" by (meson last_in_set)
  have u1: "u \<in> set (slots ?st1)" by (rule scan_slots [OF u2])
  obtain s where s: "map_of (as_proof_states st) u = Some s" "live s" and m: "u \<in> set (map fst (as_proof_states st))"
    "distinct (map fst (as_proof_states st))" by (rule slotted_proof [OF inv scan_slots [OF u1]])
  have "is_failing s \<or> is_timed_out s now1" using s late by (auto simp: live_def dest: hm_all_get)
  moreover have "now2 - ps_last_updated s > failing_drain_ttl" using s(1) idle by (auto dest: hm_all_get)
  moreover obtain sta where "map_of (as_proof_states sta) u = Some s"
    "map_of (as_proof_states ?st1) u = map_of (as_proof_states (timeout_candidate wo1 now1 u sta)) u"
    "u \<in> set (slots ?st1) \<longleftrightarrow> u \<in> set (slots (timeout_candidate wo1 now1 u sta))"
    by (rule candidates_own [OF m, of st wo1 now1]) (use s in \<open>simp add: scan_and_timeout_proofs_def\<close>)
  ultimately obtain s1 where s1: "map_of (as_proof_states ?st1) u = Some s1" "is_failing s1"
    "now2 - ps_last_updated s1 > failing_drain_ttl"
    using candidate_marked [of sta u s now1 wo1] u1 by auto
  have m1: "u \<in> set (map fst (as_proof_states ?st1))" "distinct (map fst (as_proof_states ?st1))"
    using slotted_proof [OF scan_inv [OF inv] u1] by blast+
  obtain stb where "map_of (as_proof_states stb) u = Some s1"
    "u \<in> set (slots (scan_and_timeout_proofs wo2 now2 ?st1)) \<longleftrightarrow> u \<in> set (slots (timeout_candidate wo2 now2 u stb))"
    by (rule candidates_own [OF m1, of ?st1 wo2 now2])
      (use s1 in \<open>simp add: scan_and_timeout_proofs_def [of wo2]\<close>)
  then show False using candidate_expired [OF _ s1(2,3)] u2 by blast
qed

section \<open>Eviction\<close>

lemma evict_lookup:
  assumes "hm_wf (as_proof_states st)"
  shows "map_of (as_proof_states (evict_stale_proofs now st)) u =
    (case map_of (as_proof_states st) u of
       None \<Rightarrow> None | Some s \<Rightarrow> if should_evict s now then None else Some s)"
proof -
  have key: "u \<in> set (map fst (filter (\<lambda>(_, s). should_evict s now) (as_proof_states st))) \<longleftrightarrow>
      (\<exists>s. map_of (as_proof_states st) u = Some s \<and> should_evict s now)"
    using assms by (force simp: hm_wf_def dest: map_of_SomeD)
  then show ?thesis
    unfolding evict_stale_proofs_def Let_def app_state.simps app_state.update_convs map_of_fold_delete
    by (auto simp: map_of_fold_delete split: option.split)
qed

lemma evict_fields [simp]:
  "as_state_store (evict_stale_proofs now st) = as_state_store st"
  "as_config (evict_stale_proofs now st) = as_config st"
  by (simp_all add: evict_stale_proofs_def Let_def)

section \<open>Example data\<close>

definition manager_config_example :: manager_config where
  "manager_config_example =
     \<lparr>mc_server = \<lparr>sc_listen_addr = ''0.0.0.0:80'', sc_num_workers = 2, sc_artifacts_path = None\<rparr>,
      mc_proof = proof_config_default\<lparr>pf_persist_final_proofs_dir := Some ''out''\<rparr>,
      mc_provers = demo_provers, mc_lifecycle = lifecycle_config_default,
      mc_telemetry = telemetry_config_default, mc_metrics = metrics_config_default\<rparr>"

definition fib :: program_ref where
  "fib = \<lparr>pr_name = ''fib'', pr_version = 1\<rparr>"

text \<open>A world in which every request succeeds, the disk has no faults, and nothing is compressed.\<close>

definition fair_world :: world where
  "fair_world = \<lparr>wo_answer = \<lambda>_ _. Replied 200 ''200 OK'' [], wo_faults = \<lambda>_. None, wo_build = Mock_Provers,
     wo_codec = None, wo_zstd_encode = Inr, wo_zstd_decode = Inr, wo_snapshot = \<lambda>_. Inr [],
     wo_report = \<lambda>_. [], wo_metadata = \<lambda>i. (0, show_nat i)\<rparr>"

definition fresh_app :: app_state where
  "fresh_app = app_new manager_config_example [fib] []"

definition start_request :: "string \<Rightarrow> start_proof_request" where
  "start_request u = \<lparr>spr_proof_uuid = u, spr_program = None, spr_labels = [], spr_proof_type = Stark,
     spr_input_already_uploaded = True, spr_segment_memory = None, spr_leaf_pack_threshold = None,
     spr_timeout_secs = None\<rparr>"

definition worker_request :: "nat \<Rightarrow> register_worker_request" where
  "worker_request i = \<lparr>rwr_worker_url = ''http://w'' @ show_nat i, rwr_worker_id = i, rwr_max_app_provers = 1,
     rwr_max_leaf_provers = 2, rwr_max_internal_provers = 1, rwr_loaded_programs = [fib], rwr_worker_role = Full\<rparr>"

definition example_stack :: "(nat \<times> registered_worker) list" where
  "example_stack = map (\<lambda>i. (i, \<lparr>rw_worker_url = ''http://w'' @ show_nat i, rw_last_seen = 1, rw_worker_role = Full\<rparr>)) [0, 1]"

text \<open>Two workers register and a proof is admitted and started.\<close>

definition example_events :: "manager_event list" where
  "example_events =
     [Ev_Register 1 (worker_request 0), Ev_Register 1 (worker_request 1),
      Ev_Admit 2 (start_request ''p1'') fib example_stack,
      Ev_Kickoff fair_world 3 (start_request ''p1'') fib example_stack 0 staged_default]"

lemma example_config: "1 \<le> pf_leaf_arity (mc_proof manager_config_example)" "2 \<le> pf_internal_arity (mc_proof manager_config_example)"
  by (simp_all add: manager_config_example_def proof_config_default_def config_defaults)

lemma example_timely: "timely_run example_events fresh_app"
  by (simp add: example_events_def)

lemma example_state:
  "slots (manager_run example_events fresh_app) = [''p1'']"
  "map_option ps_status (map_of (as_proof_states (manager_run example_events fresh_app)) ''p1'') = Some InProgress"
  by code_simp+

definition running :: app_state where
  "running = manager_run example_events fresh_app"

definition error_payload :: result_payload where
  "error_payload = \<lparr>rp_worker_id = 0, rp_proof_uuid = ''p1'', rp_result = demo_envelope
     (ErrorRes \<lparr>er_context = demo_context Stark, er_step = ''leaf_prove'', er_error = ''boom''\<rparr>)\<rparr>"

section \<open>Properties\<close>





text \<open>A reported error does not free its worker: when the first error of a running proof arrives, the proof
  is sealed by that very result, so neither the completion path nor the drain path accounts it. The
  scheduler's entry is unchanged, no work is dispatched, and while a worker is busy (the reporter
  still counts as busy) and the reading of the clock is within the drain's sixty seconds the proof
  stays failing and keeps the deployment.\<close>

theorem error_result_keeps_slot:
  assumes wf: "hm_wf (as_proof_states st)"
    and s: "map_of (as_proof_states st) (rp_proof_uuid payload) = Some s" "\<not> is_sealed_for_results s"
    and res: "me_message (rp_result payload) = ErrorRes e" "pc_proof_uuid (er_context e) = rp_proof_uuid payload"
    and es: "map_of (ess_proofs (as_state_store st)) (rp_proof_uuid payload) = Some es" "\<not> all_idle es"
    and clock: "now - ck_received ck \<le> failing_drain_ttl"
    and run: "proof_result_handler wo ck now (Inr payload) st = (st', resp, works)"
  shows "resp = json_ok \<and> works = [] \<and> as_state_store st' = as_state_store st \<and>
    (case map_of (as_proof_states st') (rp_proof_uuid payload) of Some s' \<Rightarrow> is_failing s' | None \<Rightarrow> False)"
proof -
  let ?u = "rp_proof_uuid payload"
  define s' where "s' = record_completion (ck_completed ck) (handle_error_result e (s\<lparr>ps_last_updated := ck_received ck\<rparr>))"
  have ns: "\<not> is_sealed_for_results (s\<lparr>ps_last_updated := ck_received ck\<rparr>)" using s(2) by simp
  have f: "is_failing s'" "ps_last_updated s' = ck_received ck"
    by (auto simp: s'_def record_completion_def handle_error_result_def notify_completion_def is_failing_def)
  then have sealed: "is_sealed_for_results s'" by (intro failing_status)
  have h: "handle_proof_result_with_envelope_outcome (wo_build wo) ck (rp_result payload) s = (s', Ok (Processed [] True))"
    using s(2) ns sealed
    by (simp add: handle_proof_result_with_envelope_outcome_def handle_proof_result_def res(1) s'_def Let_def)
  define st1 where "st1 = st\<lparr>as_proof_states := AList.update ?u s' (as_proof_states st)\<rparr>"
  have p: "map_of (as_proof_states st1) ?u = Some s'" by (simp add: st1_def)
  have t: "try_finalize_failing_proof wo now ?u st1 = st1"
    using f clock es p by (simp add: try_finalize_failing_proof_def is_fully_drained_def st1_def)
  have q: "processed_result wo now payload [] True st1 = (evict_stale_proofs now st1, [])"
    using p f t by (simp add: processed_result_def res(1) Let_def enumerate_eq_zip)
  have "st' = evict_stale_proofs now st1 \<and> resp = json_ok \<and> works = []"
    using run s(1) res h q by (simp add: proof_result_handler_def Let_def st1_def)
  moreover have "\<not> should_evict s' now" using f by (simp add: should_evict_def is_failing_def split: proof_status.splits)
  moreover have "hm_wf (as_proof_states st1)" using wf by (simp add: st1_def)
  ultimately show ?thesis using p f evict_lookup [of st1 now ?u] by (simp add: st1_def)
qed

theorem error_result_keeps_slot_witness:
  "as_state_store (fst (proof_result_handler fair_world demo_clock 5 (Inr error_payload) running)) = as_state_store running"
proof -
  let ?r = "proof_result_handler fair_world demo_clock 5 (Inr error_payload) running"
  define s where "s = the (map_of (as_proof_states running) ''p1'')"
  define es where "es = the (map_of (ess_proofs (as_state_store running)) ''p1'')"
  have "map_of (as_proof_states running) ''p1'' \<noteq> None" "map_of (ess_proofs (as_state_store running)) ''p1'' \<noteq> None"
    by code_simp+
  then have l: "map_of (as_proof_states running) ''p1'' = Some s" "map_of (ess_proofs (as_state_store running)) ''p1'' = Some es"
    unfolding s_def es_def by auto
  have u: "rp_proof_uuid error_payload = ''p1''"
    "me_message (rp_result error_payload) = ErrorRes \<lparr>er_context = demo_context Stark, er_step = ''leaf_prove'', er_error = ''boom''\<rparr>"
    by (simp_all add: error_payload_def demo_envelope_def)
  have "\<not> is_sealed_for_results s" "\<not> all_idle es" "hm_wf (as_proof_states running)"
    unfolding s_def es_def by code_simp+
  then have "snd (snd ?r) = [] \<and> as_state_store (fst ?r) = as_state_store running"
    using error_result_keeps_slot [of running error_payload s _ es 5 demo_clock fair_world "fst ?r" "fst (snd ?r)" "snd (snd ?r)"]
    by (simp add: u l demo_context_def demo_clock_def failing_drain_ttl_def seconds_def)
  then show ?thesis by simp
qed

lemma finalize_persists:
  assumes wo: "wo_faults wo = (\<lambda>_. None)" and u: "u = pc_proof_uuid (ps_context s)"
    and s: "ps_status s = InProgress" "ps_persisted_final_proof_path s = None"
    and dir: "pf_persist_final_proofs_dir (mc_proof config) = Some dir"
    and payload: "final_proof_payload (wo_codec wo) s = Ok (Some (b, suffix))"
    and content: "(if pf_compress_persisted_final_proofs (mc_proof config) then wo_zstd_encode wo b else Inr b) = Inr c"
  shows "ps_status (fst (finalize_locked wo now config u s d)) = Completed"
    "fst (snd (finalize_locked wo now config u s d)) =
       AList.update (path_join (mt_output_dir (mc_metrics config)) (u @ ''.md''))
         (wo_report wo (notify_completion (s\<lparr>ps_persisted_final_proof_path := Some (final_proof_path dir u suffix),
             ps_status := Completed, ps_last_updated := now\<rparr>)))
         (AList.update (final_proof_path dir u suffix) c (AList.delete (final_proof_temp_path dir u suffix)
           (AList.update (final_proof_temp_path dir u suffix) c d)))"
proof -
  have ready: "is_ready_for_finalization s" using payload by (auto simp: final_proof_payload_def split: if_splits)
  have leaf: "persist_leaf_failure_app_proofs_to_disk f ser now dir' s d = (s, d, Ok None)" for f ser dir'
    using s by (simp add: persist_leaf_failure_app_proofs_to_disk_def should_persist_leaf_failure_app_proofs_def)
  have "write_then_rename (\<lambda>_. None) temp path c d =
      (AList.update path c (AList.delete temp (AList.update temp c d)), Ok ())" for temp path
    by (simp add: write_then_rename_def write_file_def rename_file_def)
  then have p: "persist_final_proof_to_disk (\<lambda>_. None) (wo_codec wo) (wo_zstd_encode wo) dir
      (pf_compress_persisted_final_proofs (mc_proof config)) s d =
      (s\<lparr>ps_persisted_final_proof_path := Some (final_proof_path dir u suffix)\<rparr>,
       AList.update (final_proof_path dir u suffix) c (AList.delete (final_proof_temp_path dir u suffix)
         (AList.update (final_proof_temp_path dir u suffix) c d)), Ok (Some (final_proof_path dir u suffix)))"
    using content
    by (simp only: persist_final_proof_to_disk_def s payload option.case outcome.case prod.case create_dir_all_def
        Let_def sum.case u)
  show "ps_status (fst (finalize_locked wo now config u s d)) = Completed"
    "fst (snd (finalize_locked wo now config u s d)) =
       AList.update (path_join (mt_output_dir (mc_metrics config)) (u @ ''.md''))
         (wo_report wo (notify_completion (s\<lparr>ps_persisted_final_proof_path := Some (final_proof_path dir u suffix),
             ps_status := Completed, ps_last_updated := now\<rparr>)))
         (AList.update (final_proof_path dir u suffix) c (AList.delete (final_proof_temp_path dir u suffix)
           (AList.update (final_proof_temp_path dir u suffix) c d)))"
    using s ready dir leaf p
    by (simp_all add: finalize_locked_def conclude_proof_def wo Let_def notify_completion_def write_report_def
        create_dir_all_def write_file_def split: option.split)
qed

text \<open>The names of the two artifacts and of the report.\<close>

lemma validated_uuid_head: "validate_manager_proof_uuid u = None \<Longrightarrow> u \<noteq> [] \<and> hd u \<noteq> CHR ''/''"
  by (cases u) (auto simp: validate_manager_proof_uuid_def is_ascii_alphanumeric_def Let_def split: if_splits)

lemma path_join_inj:
  assumes "a \<noteq> []" "b \<noteq> []" "hd a \<noteq> CHR ''/''" "hd b \<noteq> CHR ''/''"
  shows "path_join dir a = path_join dir b \<longleftrightarrow> a = b"
  using assms by (simp add: path_join_def)

lemma report_path_differs:
  assumes "suffix \<in> {''proof.bin'', ''evm.bin''}"
  shows "path_join mdir (u @ ''.md'') \<noteq> final_proof_path dir v suffix"
proof
  assume "path_join mdir (u @ ''.md'') = final_proof_path dir v suffix"
  from arg_cong [OF this, of last] have "CHR ''d'' = CHR ''n''"
    unfolding last_of_paths(2) [OF assms] by (simp add: last_path_join)
  then show False by simp
qed

lemma other_artifact:
  assumes "validate_manager_proof_uuid u = None"
  shows "final_proof_path dir u ''proof.bin'' \<noteq> final_proof_path dir u ''evm.bin''"
  using validated_uuid_head [OF assms] by (simp add: final_proof_path_def path_join_inj)

text \<open>The proof a client downloads is the proof that was made: when a running proof whose final artifact
  is present is finalized with persistence on, the file system has no faults and compression round
  trips on this artifact, the download of its identifier answers 200 with exactly the payload.\<close>

theorem download_after_finalize:
  assumes "wo_faults wo = (\<lambda>_. None)" "u = pc_proof_uuid (ps_context s)" "validate_manager_proof_uuid u = None"
    and s: "map_of (as_proof_states st) u = Some s" "ps_status s = InProgress" "ps_persisted_final_proof_path s = None"
    and dir: "pf_persist_final_proofs_dir (mc_proof (as_config st)) = Some dir"
    and payload: "final_proof_payload (wo_codec wo) s = Ok (Some (b, suffix))"
    and zstd: "pf_compress_persisted_final_proofs (mc_proof (as_config st)) \<Longrightarrow>
      \<exists>c. wo_zstd_encode wo b = Inr c \<and> wo_zstd_decode wo c = Inr b"
    and fresh: "map_of (as_disk st) (final_proof_path dir u ''proof.bin'') = None"
      "map_of (as_disk st) (final_proof_path dir u ''evm.bin'') = None"
  shows "download_proof wo u (finalize_proof wo now u st) = (200, Bytes_Body b)"
proof -
  let ?cmp = "pf_compress_persisted_final_proofs (mc_proof (as_config st))"
  let ?st = "finalize_proof wo now u st"
  obtain c where c: "(if ?cmp then wo_zstd_encode wo b else Inr b) = Inr c"
    "(if ?cmp then wo_zstd_decode wo c else Inr c) = Inr b"
    using zstd by (cases ?cmp) auto
  have suffix: "suffix \<in> {''proof.bin'', ''evm.bin''}" by (rule final_proof_payload_suffix [OF payload])
  have disk: "as_disk ?st = fst (snd (finalize_locked wo now (as_config st) u s (as_disk st)))"
    using s(1) by (simp add: finalize_proof_def Let_def drop_staged_def drop_scheduler_def report_event_def
        case_prod_unfold split: option.split)
  have files: "map_of (as_disk ?st) (final_proof_path dir u t) =
      (if t = suffix then Some c else map_of (as_disk st) (final_proof_path dir u t))"
    if "t \<in> {''proof.bin'', ''evm.bin''}" for t
  proof -
    let ?p = "final_proof_path dir u"
    have "?p t \<noteq> final_proof_temp_path dir u suffix" "?p t \<noteq> path_join m (u @ ''.md'')" for m
      using temp_path_differs [OF that] report_path_differs [OF that] by metis+
    moreover have "t \<noteq> suffix \<Longrightarrow> ?p t \<noteq> ?p suffix"
      using that suffix other_artifact [OF assms(3), of dir] by (elim insertE) (simp_all add: eq_commute)
    ultimately show ?thesis
      unfolding disk finalize_persists(2) [OF assms(1,2) s(2,3) dir payload c(1)]
      by (cases "t = suffix") (simp_all add: update_conv' delete_conv')
  qed
  have names: "path_join dir (u @ ''.proof.bin'') = final_proof_path dir u ''proof.bin''"
    "path_join dir (u @ ''.evm.bin'') = final_proof_path dir u ''evm.bin''"
    by (simp_all add: final_proof_path_def)
  show ?thesis
    using suffix fresh c(2) files [of "''proof.bin''"] files [of "''evm.bin''"]
    by (auto simp: download_proof_def assms(1,3) dir names path_exists_def read_file_def Let_def)
qed

theorem download_after_finalize_witness:
  "download_proof fair_world ''p1'' (finalize_proof fair_world 9 ''p1''
     (fresh_app\<lparr>as_proof_states := [(''p1'', sample_evm_state)]\<rparr>)) = (200, Bytes_Body [7, 8])"
proof -
  have "final_proof_payload None sample_evm_state = Ok (Some ([7, 8], ''evm.bin''))"
    "pc_proof_uuid (ps_context sample_evm_state) = ''p1''" "validate_manager_proof_uuid ''p1'' = None"
    "ps_status sample_evm_state = InProgress" "ps_persisted_final_proof_path sample_evm_state = None" by code_simp+
  then show ?thesis
    by (intro download_after_finalize [where s = sample_evm_state and dir = "''out''" and suffix = "''evm.bin''"])
      (simp_all add: fair_world_def fresh_app_def app_new_def manager_config_example_def)
qed

section \<open>Cancellation and eviction\<close>

text \<open>Nothing but an upload, a cancellation, a finalization or a dispatch of the proof itself touches its
  staged inputs.\<close>

lemma staged_drop [simp]: "map_of (as_staged_inputs (drop_staged v st)) u = (if u = v then None else map_of (as_staged_inputs st) u)"
  by (simp add: drop_staged_def delete_conv')

lemma staged_finalize [simp]:
  "u \<noteq> v \<Longrightarrow> map_of (as_staged_inputs (finalize_proof wo now v st)) u = map_of (as_staged_inputs st) u"
  by (auto simp: finalize_proof_def Let_def drop_staged_def drop_scheduler_def report_event_def delete_conv'
      case_prod_unfold split: option.split)

lemma staged_update_proof [simp]: "as_staged_inputs (update_proof v f st) = as_staged_inputs st"
  by (simp add: update_proof_def split: option.split)

text \<open>A proof that is over, or no longer in the map.\<close>

definition settled :: "string \<Rightarrow> app_state \<Rightarrow> bool" where
  "settled u st \<longleftrightarrow>
     (case map_of (as_proof_states st) u of None \<Rightarrow> True | Some s \<Rightarrow> is_sealed_for_results s \<and> \<not> is_failing s)"

definition untouched :: "string \<Rightarrow> app_state \<Rightarrow> app_state \<Rightarrow> bool" where
  "untouched u st' st \<longleftrightarrow> map_of (as_proof_states st') u = map_of (as_proof_states st) u \<and>
     map_of (as_staged_inputs st') u = map_of (as_staged_inputs st) u"

lemma untouched_trans: "untouched u st2 st1 \<Longrightarrow> untouched u st1 st \<Longrightarrow> untouched u st2 st"
  by (simp add: untouched_def)

lemma untouched_settled: "untouched u st' st \<Longrightarrow> settled u st' = settled u st"
  by (simp add: untouched_def settled_def)

lemma settled_try_finalize:
  assumes "settled u st"
  shows "untouched u (try_finalize_failing_proof wo now v st) st"
proof (cases "v = u")
  case True
  then show ?thesis using assms
    by (simp add: untouched_def settled_def try_finalize_failing_proof_def split: option.split_asm)
next
  case False
  then show ?thesis
    by (auto simp: untouched_def try_finalize_other(1) try_finalize_failing_proof_def Let_def split: option.split)
qed

lemma settled_candidate:
  assumes st: "settled u st"
  shows "untouched u (timeout_candidate wo now v st) st"
proof -
  let ?t = "try_finalize_failing_proof wo now v st" and ?m = "update_proof v mark_timed_out"
  have t: "untouched u ?t st" by (rule settled_try_finalize [OF st])
  have m: "untouched u (?m ?t) st" "settled u (?m ?t)" if "v \<noteq> u"
    using that t st by (auto simp: untouched_def settled_def split: option.splits)
  have "\<not> is_timed_out s now" if "map_of (as_proof_states ?t) u = Some s" for s
  proof -
    have "map_of (as_proof_states st) u = Some s" using that t by (simp add: untouched_def)
    then show ?thesis using st by (simp add: settled_def is_timed_out_def)
  qed
  then show ?thesis using t m untouched_trans [OF settled_try_finalize m(1)]
    by (cases "v = u") (auto simp: timeout_candidate_def Let_def split: option.split)
qed

lemma settled_candidates: "settled u st \<Longrightarrow> untouched u (fold (timeout_candidate wo now) us st) st"
proof (induction us arbitrary: st)
  case (Cons v us)
  have v: "untouched u (timeout_candidate wo now v st) st" by (rule settled_candidate [OF Cons.prems])
  show ?case using untouched_trans [OF Cons.IH v] untouched_settled [OF v] Cons.prems by simp
qed (simp add: untouched_def)

text \<open>Retained inputs have no staging time, so the sweep for orphans never takes them.\<close>

definition retained :: "string \<Rightarrow> staged_inputs \<Rightarrow> app_state \<Rightarrow> bool" where
  "retained u e st \<longleftrightarrow> settled u st \<and> map_of (as_staged_inputs st) u = Some e \<and> hm_wf (as_staged_inputs st)"

lemma staged_wf:
  assumes "hm_wf (as_staged_inputs st)"
  shows "hm_wf (as_staged_inputs (fold (timeout_candidate wo now) us st))"
proof -
  let ?wf = "\<lambda>st. hm_wf (as_staged_inputs st)"
  have f: "?wf st \<Longrightarrow> ?wf (finalize_proof wo now v st)" for v st
    by (auto simp: finalize_proof_def Let_def drop_staged_def drop_scheduler_def report_event_def case_prod_unfold
        split: option.split)
  have t: "?wf st \<Longrightarrow> ?wf (try_finalize_failing_proof wo now v st)" for v st
    by (auto simp: try_finalize_failing_proof_def Let_def f split: option.split)
  have "?wf st \<Longrightarrow> ?wf (timeout_candidate wo now v st)" for v st
    by (auto simp: timeout_candidate_def Let_def t split: option.split)
  then show ?thesis using assms by (rule fold_keeps [where P = ?wf])
qed

lemma retained_scan:
  assumes "retained u e st" "si_staged_at e = None"
  shows "retained u e (scan_and_timeout_proofs wo now st)"
proof -
  let ?st = "fold (timeout_candidate wo now) (map fst (as_proof_states st)) st"
  have drop: "untouched u (fold drop_staged us st') st' \<and> (hm_wf (as_staged_inputs st') \<longrightarrow> hm_wf (as_staged_inputs (fold drop_staged us st')))"
    if "u \<notin> set us" for us st'
    using that
  proof (induction us arbitrary: st')
    case (Cons v us)
    then show ?case using Cons.IH [of "drop_staged v st'"]
      by (auto simp: untouched_def drop_staged_def delete_conv')
  qed (simp add: untouched_def)
  have k: "untouched u ?st st" "hm_wf (as_staged_inputs ?st)"
    using assms settled_candidates [of u st wo now] staged_wf by (simp_all add: retained_def)
  then have "map_of (as_staged_inputs ?st) u = Some e" using assms by (simp add: retained_def untouched_def)
  then have "(u, e') \<in> set (as_staged_inputs ?st) \<Longrightarrow> si_staged_at e' = None" for e'
    using k(2) assms(2) by (auto simp: hm_wf_def)
  then have "u \<notin> set (map fst (filter (\<lambda>(uuid, si). map_of (as_proof_states ?st) uuid = None \<and>
      (case si_staged_at si of Some t \<Rightarrow> t < c | None \<Rightarrow> False)) (as_staged_inputs ?st)))" for c
    by force
  from drop [OF this] k have "untouched u (reclaim_orphans now ?st) ?st" "hm_wf (as_staged_inputs (reclaim_orphans now ?st))"
    unfolding reclaim_orphans_def Let_def by blast+
  then have "untouched u (scan_and_timeout_proofs wo now st) st" "hm_wf (as_staged_inputs (scan_and_timeout_proofs wo now st))"
    using k unfolding scan_and_timeout_proofs_def by (blast intro: untouched_trans)+
  then show ?thesis
    using assms untouched_settled [of u "scan_and_timeout_proofs wo now st" st]
    unfolding retained_def untouched_def by (metis (no_types))
qed

lemma retained_evict: "retained u e st \<Longrightarrow> retained u e (evict_stale_proofs now st)"
  by (simp add: retained_def settled_def evict_stale_proofs_def Let_def map_of_fold_delete)

text \<open>A cancellation that lands while the inputs are uploaded is not noticed by the start that goes on:
  when the start of a deferral proof reaches the kickoff with the proof canceled and the workers
  reachable, the client is told 200, the workers get their work, and the retained deferral inputs,
  which carry no staging time, stay in the table through any number of ticks of the watchdog and
  evictions.\<close>

theorem canceled_start_leaks:
  assumes s: "map_of (as_proof_states st) (spr_proof_uuid req) = Some s" "ps_status s = Canceled"
    and wf: "hm_wf (as_staged_inputs st)"
    and "0 < n" and up: "\<And>url. is_success (wo_answer wo url 0)"
    and run: "kickoff_proof wo now req program workers n staged st = (st', code, body)"
  shows "code = 200 \<and> length (as_outbox st') = length (as_outbox st) + length (app_eligible_workers workers) \<and>
    (case map_of (as_proof_states st') (spr_proof_uuid req) of Some s' \<Rightarrow> ps_status s' = Canceled | None \<Rightarrow> False) \<and>
    map_of (as_staged_inputs (fold (\<lambda>(wo', t) x. evict_stale_proofs t (scan_and_timeout_proofs wo' t x)) ticks st'))
      (spr_proof_uuid req) = Some (staged_default\<lparr>si_deferral_inputs := si_deferral_inputs staged\<rparr>)"
proof -
  let ?u = "spr_proof_uuid req" and ?e = "staged_default\<lparr>si_deferral_inputs := si_deferral_inputs staged\<rparr>"
  have k: "snd (kickoff_workers wo r ws x) = [] \<and> as_staged_inputs (fst (kickoff_workers wo r ws x)) = as_staged_inputs x \<and>
      length (as_outbox (fst (kickoff_workers wo r ws x))) = length (as_outbox x) + length ws" for r ws x
    using up by (induction wo r ws x rule: kickoff_workers.induct) (auto simp: http_send_def case_prod_unfold Let_def)
  have o: "as_outbox (update_proof u f x) = as_outbox x" for u f x by (simp add: update_proof_def split: option.split)
  have e: "as_outbox (report_event ev x) = as_outbox x" "as_staged_inputs (report_event ev x) = as_staged_inputs x"
    "as_proof_states (report_event ev x) = as_proof_states x" for ev x
    by (simp_all add: report_event_def split: option.split)
  define s' where "s' = s\<lparr>ps_deferral_circuit_count := n, ps_proving_started_at := Some now\<rparr>"
  have s': "map_of (as_proof_states st') ?u = Some s'" and c: "code = 200"
    and staged: "as_staged_inputs st' = AList.update ?u ?e (as_staged_inputs st)"
    and out: "length (as_outbox st') = length (as_outbox st) + length (app_eligible_workers workers)"
    using run \<open>0 < n\<close> s(1) k same_core_fields(2) [OF same_core_kickoff]
    by (auto simp: kickoff_proof_def Let_def case_prod_unfold e o s'_def update_proof_fields(4))
  have "retained ?u ?e st'" using s' s(2) staged wf
    by (simp add: retained_def settled_def s'_def sealed_status is_failing_def)
  then have "retained ?u ?e (fold (\<lambda>(wo', t) x. evict_stale_proofs t (scan_and_timeout_proofs wo' t x)) ticks st')"
    by (rule fold_keeps [where P = "retained ?u ?e", rotated])
      (auto intro!: retained_evict retained_scan simp: staged_default_def)
  then show ?thesis using s' c out s(2) by (simp add: s'_def retained_def)
qed

definition canceled_example :: app_state where
  "canceled_example = manager_run
     [Ev_Admit 2 (start_request ''p1'') fib example_stack, Ev_Cancel ''p1''] fresh_app"

theorem canceled_start_leaks_witness:
  "fst (snd (kickoff_proof fair_world 3 (start_request ''p1'') fib example_stack 1
     (staged_default\<lparr>si_deferral_inputs := [(0, [1])]\<rparr>) canceled_example)) = 200"
proof -
  let ?st = canceled_example and ?staged = "staged_default\<lparr>si_deferral_inputs := [(0, [1])]\<rparr>"
  define s where "s = the (map_of (as_proof_states ?st) (spr_proof_uuid (start_request ''p1'')))"
  have "map_of (as_proof_states ?st) (spr_proof_uuid (start_request ''p1'')) \<noteq> None" by code_simp
  then have l: "map_of (as_proof_states ?st) (spr_proof_uuid (start_request ''p1'')) = Some s" by (auto simp: s_def)
  have c: "ps_status s = Canceled" "hm_wf (as_staged_inputs ?st)" unfolding s_def by code_simp+
  obtain st' code body where r: "kickoff_proof fair_world 3 (start_request ''p1'') fib example_stack 1 ?staged ?st = (st', code, body)"
    using prod_cases3 by blast
  have "code = 200"
    using canceled_start_leaks [OF l c _ _ r] by (simp add: fair_world_def)
  then show ?thesis using r by simp
qed

text \<open>Eviction can strand the deployment: a live proof that made no progress for more than ten hours (a
  start request may set a timeout that long) is dropped from the proof map by the result of another,
  settled proof, while its scheduler entry stays. From then on every admission is refused as busy, no
  tick of the watchdog frees the entry, and only a cancellation of the lost identifier does.\<close>

theorem eviction_strands_slot:
  assumes wf: "hm_wf (as_proof_states st)"
    and u: "map_of (as_proof_states st) u = Some s" "ps_status s = InProgress" "\<not> is_ready_for_finalization s"
      "hours 10 < now - ps_last_updated s" "u \<in> set (slots st)"
      "validate_manager_proof_uuid u = None"
    and v: "rp_proof_uuid payload \<noteq> u" "map_of (as_proof_states st) (rp_proof_uuid payload) = Some t"
      "is_sealed_for_results t" "\<not> is_failing t"
      "pc_proof_uuid (result_context (me_message (rp_result payload))) = rp_proof_uuid payload"
    and run: "proof_result_handler wo ck now (Inr payload) st = (st', resp, works)"
  shows "resp = json_ok \<and> map_of (as_proof_states st') u = None \<and>
    admit_proof now' req program workers (scan_and_timeout_proofs wo' now'' st') =
      (scan_and_timeout_proofs wo' now'' st',
       Some (json_conflict ''deployment_busy'' ''Another proof is already running'')) \<and>
    u \<notin> set (slots (fst (cancel_proof u st')))"
proof -
  let ?v = "rp_proof_uuid payload"
  define st1 where "st1 = st\<lparr>as_proof_states := AList.update ?v (t\<lparr>ps_late_result_notice_emitted := True\<rparr>) (as_proof_states st)\<rparr>"
  have l: "late_result wo now payload (ps_status t) st1 = evict_stale_proofs now st1"
    using v(4) by (auto simp: late_result_def is_failing_def Let_def split: proof_status.split)
  have st': "st' = evict_stale_proofs now st1" and r: "resp = json_ok"
    using run v by (auto simp: proof_result_handler_def handle_proof_result_with_envelope_outcome_def l [unfolded st1_def] st1_def)
  have "hm_wf (as_proof_states st1)" "map_of (as_proof_states st1) u = Some s" using wf u(1) v(1) by (simp_all add: st1_def)
  moreover have "should_evict s now" using u by (simp add: should_evict_def)
  ultimately have gone: "map_of (as_proof_states st') u = None" by (simp add: st' evict_lookup)
  have "u \<in> set (slots st')" using u(5) by (simp add: slots_def st' st1_def)
  then have "u \<in> set (slots (scan_and_timeout_proofs wo' now'' st'))"
    using candidates_other [of u "map fst (as_proof_states st')" wo' now'' st'] gone
    by (simp add: scan_and_timeout_proofs_def map_of_eq_None_iff)
  then have "has_any_proofs (as_state_store (scan_and_timeout_proofs wo' now'' st'))"
    by (auto simp: has_any_proofs_def slots_def)
  moreover have "u \<notin> set (slots (fst (cancel_proof u st')))"
    using u(6) by (simp add: cancel_proof_def Let_def same_core_fields(4) [OF same_core_basic(1)])
  ultimately show ?thesis using r gone by (simp add: admit_proof_def)
qed

definition idle_example :: app_state where
  "idle_example = manager_run
     [Ev_Admit 2 (start_request ''p1'') fib example_stack, Ev_Cancel ''p1'',
      Ev_Admit 3 ((start_request ''p2'')\<lparr>spr_timeout_secs := Some 100000\<rparr>) fib example_stack] fresh_app"

theorem eviction_strands_slot_witness:
  "fst (snd (proof_result_handler fair_world demo_clock (hours 11) (Inr error_payload) idle_example)) = json_ok"
proof -
  let ?r = "proof_result_handler fair_world demo_clock (hours 11) (Inr error_payload) idle_example"
  define s where "s = the (map_of (as_proof_states idle_example) ''p2'')"
  define t where "t = the (map_of (as_proof_states idle_example) (rp_proof_uuid error_payload))"
  have "map_of (as_proof_states idle_example) ''p2'' \<noteq> None"
    "map_of (as_proof_states idle_example) (rp_proof_uuid error_payload) \<noteq> None" by code_simp+
  then have l: "map_of (as_proof_states idle_example) ''p2'' = Some s"
    "map_of (as_proof_states idle_example) (rp_proof_uuid error_payload) = Some t" by (auto simp: s_def t_def)
  have "hm_wf (as_proof_states idle_example)" "ps_status s = InProgress" "\<not> is_ready_for_finalization s"
    "hours 10 < hours 11 - ps_last_updated s" "''p2'' \<in> set (slots idle_example)"
    "validate_manager_proof_uuid ''p2'' = None" "rp_proof_uuid error_payload \<noteq> ''p2''"
    "is_sealed_for_results t" "\<not> is_failing t"
    "pc_proof_uuid (result_context (me_message (rp_result error_payload))) = rp_proof_uuid error_payload"
    unfolding s_def t_def by code_simp+
  from eviction_strands_slot [OF this(1) l(1) this(2-7) l(2) this(8-10), of fair_world demo_clock "fst ?r" "fst (snd ?r)"
      "snd (snd ?r)"]
  show ?thesis by simp
qed

section \<open>Dispatch\<close>

lemma send_attempts_exhausted:
  assumes "\<And>url k. \<not> is_success (wo_answer wo url k)" "\<not> is_deferral_tail_work work"
  shows "send_attempts wo now m work k left st =
    give_up_dispatch wo now m work (st\<lparr>as_outbox := as_outbox st @
      replicate (Suc left) (aw_worker_url work @ ''/recursion_prove'', Wire_Work (aw_envelope work))\<rparr>)"
proof (induction left arbitrary: k st)
  case 0
  then show ?case using assms
    by (subst send_attempts.simps) (simp add: push_deferral_inputs_jit_def send_work_to_worker_def http_send_def)
next
  case (Suc left)
  show ?case using assms
    by (subst send_attempts.simps) (simp add: push_deferral_inputs_jit_def send_work_to_worker_def http_send_def Suc.IH)
qed

lemma outbox_frame [simp]:
  "as_outbox (update_proof u f st) = as_outbox st" "as_outbox (finalize_proof wo now u st) = as_outbox st"
  "as_outbox (try_finalize_failing_proof wo now u st) = as_outbox st"
proof -
  have u: "as_outbox (update_proof u f st) = as_outbox st" for f st by (simp add: update_proof_def split: option.split)
  have f: "as_outbox (finalize_proof wo now u st) = as_outbox st" for st
    by (simp add: finalize_proof_def Let_def drop_staged_def drop_scheduler_def report_event_def case_prod_unfold
        split: option.split)
  show "as_outbox (update_proof u f st) = as_outbox st" "as_outbox (finalize_proof wo now u st) = as_outbox st"
    "as_outbox (try_finalize_failing_proof wo now u st) = as_outbox st"
    by (simp_all add: u f try_finalize_failing_proof_def Let_def split: option.split)
qed

lemma try_finalize_stays_down:
  assumes "map_of (as_proof_states st) u = Some s" "is_failing s"
  shows "\<exists>s'. map_of (as_proof_states (try_finalize_failing_proof wo now u st)) u = Some s' \<and> ps_status s' \<noteq> InProgress"
proof -
  let ?s = "transition_failing_to_failed s"
  have f: "ps_status ?s \<noteq> InProgress" "ps_status s \<noteq> InProgress"
    using assms(2) by (auto simp: is_failing_def transition_failing_to_failed_def split: proof_status.splits)
  obtain s' d' p m where fl: "finalize_locked wo now (as_config st) u ?s (as_disk (update_proof u transition_failing_to_failed st)) = (s', d', p, m)"
    using prod_cases4 by blast
  have "ps_status s' \<noteq> InProgress" using finalize_locked_status [OF fl] f by auto
  then show ?thesis using assms f fl by (auto simp: try_finalize_failing_proof_def Let_def)
qed


definition example_work :: assigned_work where
  "example_work = \<lparr>aw_proof_uuid = ''p1'', aw_worker_id = 0, aw_worker_url = ''http://w0'',
     aw_envelope = \<lparr>me_timestamp = 0, me_message_id = ''0'', me_message = LeafProveReq
       \<lparr>lpr_context = demo_context Stark, lpr_app_proofs = [[1]], lpr_segment_start = 0, lpr_segment_end = 0\<rparr>\<rparr>,
     aw_step = LeafProve\<rparr>"


end
