(* ===== verification/Artifact_Export.thy ===== *)
theory Artifact_Export
  imports Key_Generation Manager_Properties
begin

text \<open>
  From the generation tools to a deployment: what \<open>keygen\<close>, \<open>convert_fixtures elf-to-vmexe\<close>, \<open>generate_edge_vm_vk\<close>
  and \<open>halo2-keygen\<close> write, run in the order of \<open>scripts/dev/start-provers.py\<close>, is what a worker loads and the manager
  serves. A tool is described by its footprint, the set of paths it may change; the footprints of the tools are told
  apart by the last character of the file name.
\<close>

section \<open>File names\<close>

definition file_of :: "string \<Rightarrow> string" where
  "file_of path = rev (takeWhile (\<lambda>c. c \<noteq> CHR ''/'') (rev path))"

lemma path_join_shape:
  assumes "f \<noteq> []" "CHR ''/'' \<notin> set f"
  shows "\<exists>pre. path_join a f = pre @ f \<and> (pre = [] \<or> last pre = CHR ''/'')"
proof -
  have "hd f \<noteq> CHR ''/''" using assms by (metis hd_in_set)
  then show ?thesis by (auto simp: path_join_def)
qed

lemma file_of_join [simp]:
  assumes "f \<noteq> []" "CHR ''/'' \<notin> set f"
  shows "file_of (path_join a f) = f"
proof -
  obtain pre where p: "path_join a f = pre @ f" "pre = [] \<or> last pre = CHR ''/''"
    using path_join_shape [OF assms] by blast
  have "takeWhile (\<lambda>c. c \<noteq> CHR ''/'') (rev f @ rev pre) = rev f @ takeWhile (\<lambda>c. c \<noteq> CHR ''/'') (rev pre)"
    using assms(2) by (intro takeWhile_append2) auto
  moreover have "takeWhile (\<lambda>c. c \<noteq> CHR ''/'') (rev pre) = []"
    using p(2) by (cases pre rule: rev_cases) auto
  ultimately show ?thesis by (simp add: file_of_def p(1))
qed

lemma path_join_plain:
  assumes "CHR ''/'' \<notin> set n" "n \<noteq> []" "f \<noteq> []" "CHR ''/'' \<notin> set f"
  shows "path_join (path_join a n) f = path_join a n @ ''/'' @ f"
proof -
  obtain pre where p: "path_join a n = pre @ n" using path_join_shape [OF assms(2,1)] by blast
  have "last (path_join a n) \<noteq> CHR ''/''" using assms(1,2) p by (metis last_appendR last_in_set)
  moreover have "hd f \<noteq> CHR ''/''" using assms(3,4) by (metis hd_in_set)
  ultimately show ?thesis using assms(2) p by (simp add: path_join_def)
qed

lemma show_nat_no_slash [simp]: "CHR ''/'' \<notin> set (show_nat n)"
proof
  assume "CHR ''/'' \<in> set (show_nat n)"
  then obtain d where "d < 10" "CHR ''/'' = digit_char d" using show_nat_chars by blast
  moreover have "digit_val (CHR ''/'') = None" by code_simp
  ultimately show False using digit_val_char [of d] by simp
qed

definition plain_name :: "program_ref \<Rightarrow> bool" where
  "plain_name p \<longleftrightarrow> pr_name p \<noteq> [] \<and> CHR ''/'' \<notin> set (pr_name p)"

lemma vmexe_path_inject:
  assumes "vmexe_path base p = vmexe_path base q" "plain_name p" "plain_name q"
  shows "p = q"
proof -
  let ?B = "path_join base ''programs''"
  have s: "vmexe_path base r = path_join (path_join ?B (pr_name r)) (show_nat (pr_version r)) @ ''/program.vmexe''"
    "path_join (path_join ?B (pr_name r)) (show_nat (pr_version r)) = path_join ?B (pr_name r) @ ''/'' @ show_nat (pr_version r)"
    if "plain_name r" for r
  proof -
    show "vmexe_path base r = path_join (path_join ?B (pr_name r)) (show_nat (pr_version r)) @ ''/program.vmexe''"
      unfolding vmexe_path_def by (subst path_join_plain) simp_all
    show "path_join (path_join ?B (pr_name r)) (show_nat (pr_version r)) = path_join ?B (pr_name r) @ ''/'' @ show_nat (pr_version r)"
      using that by (intro path_join_plain) (simp_all add: plain_name_def)
  qed
  have e: "path_join (path_join ?B (pr_name p)) (show_nat (pr_version p)) =
      path_join (path_join ?B (pr_name q)) (show_nat (pr_version q))"
    using assms s(1) by (metis append_same_eq)
  have v: "show_nat (pr_version p) = show_nat (pr_version q)"
    using arg_cong [OF e, of file_of] by simp
  have "path_join ?B (pr_name p) = path_join ?B (pr_name q)"
    using e [unfolded s(2) [OF assms(2)] s(2) [OF assms(3)]] v by simp
  from arg_cong [OF this, of file_of] have "pr_name p = pr_name q"
    using assms(2,3) by (simp add: plain_name_def)
  then show ?thesis using show_nat_inject [OF v] by (cases p; cases q) simp
qed

section \<open>Footprints\<close>

definition only_writes :: "(string \<Rightarrow> bool) \<Rightarrow> 'a io \<Rightarrow> bool" where
  "only_writes P m \<longleftrightarrow> (\<forall>d d' r. m d = (d', r) \<longrightarrow> (\<forall>q. \<not> P q \<longrightarrow> map_of d' q = map_of d q))"

named_theorems footprint \<open>footprints of computations on the disk\<close>

lemma only_writesD: "only_writes P m \<Longrightarrow> m d = (d', r) \<Longrightarrow> \<not> P q \<Longrightarrow> map_of d' q = map_of d q"
  by (auto simp: only_writes_def)

lemma only_writesI: "(\<And>d d' r q. m d = (d', r) \<Longrightarrow> \<not> P q \<Longrightarrow> map_of d' q = map_of d q) \<Longrightarrow> only_writes P m"
  by (simp add: only_writes_def)

lemma only_writes_lift [footprint]: "only_writes P (lift_io r)" "only_writes P (read_io g)"
  by (simp_all add: only_writes_def)

lemma only_writes_bind [footprint]:
  assumes "only_writes P m" "\<And>x. only_writes P (f x)"
  shows "only_writes P (bind_io m f)"
  unfolding only_writes_def
proof (intro allI impI)
  fix d d' r q assume run: "bind_io m f d = (d', r)" and q: "\<not> P q"
  obtain d1 r1 where m: "m d = (d1, r1)" by fastforce
  note k = only_writesD [OF assms(1) m q]
  show "map_of d' q = map_of d q"
    using run m k only_writesD [OF assms(2) _ q] by (cases r1) (auto simp: bind_io_def)
qed

lemma only_writes_context [footprint]: "only_writes P m \<Longrightarrow> only_writes P (context_io f m)"
  by (simp add: only_writes_def context_io_def split: prod.split)

lemma only_writes_if [footprint]: "(c \<Longrightarrow> only_writes P m) \<Longrightarrow> (\<not> c \<Longrightarrow> only_writes P m') \<Longrightarrow> only_writes P (if c then m else m')"
  by simp

lemma only_writes_write_file [footprint]: "P path \<Longrightarrow> only_writes P (write_file faults path b)"
  unfolding only_writes_def
proof (intro allI impI)
  fix d d' r q assume p: "P path" "write_file faults path b d = (d', r)" "\<not> P q"
  then have "q \<noteq> path" by auto
  with p(2) show "map_of d' q = map_of d q"
    by (cases "faults (Write_File path)") (auto simp: write_file_def split: option.splits)
qed

lemma only_writes_weaken:
  assumes "only_writes Q m" "\<And>q. Q q \<Longrightarrow> P q"
  shows "only_writes P m"
proof (rule only_writesI)
  fix d d' r q assume "m d = (d', r)" "\<not> P q"
  then show "map_of d' q = map_of d q" using assms(2) [of q] by (intro only_writesD [OF assms(1)]) auto
qed

text \<open>The documented behaviour of the object files: a finished write is read back, a write changes its own path only,
  and a read depends on its own path only.\<close>

definition object_file :: "(string \<Rightarrow> 'a \<Rightarrow> unit io) \<Rightarrow> (string \<Rightarrow> disk \<Rightarrow> 'a outcome) \<Rightarrow> bool" where
  "object_file put get \<longleftrightarrow>
     (\<forall>p x d d'. put p x d = (d', Ok ()) \<longrightarrow> get p d' = Ok x) \<and>
     (\<forall>p x. only_writes (\<lambda>q. q = p) (put p x)) \<and>
     (\<forall>p d d'. map_of d p = map_of d' p \<longrightarrow> get p d = get p d')"

definition faithful_files :: "('k, 'd, 'x) object_files \<Rightarrow> bool" where
  "faithful_files F \<longleftrightarrow>
     object_file (of_write_key F) (of_read_key F) \<and> object_file (of_write_agg_key F) (of_read_agg_key F) \<and>
     object_file (of_write_cached_key F) (of_read_cached_key F) \<and> object_file (of_write_exe F) (of_read_exe F)"

lemma object_file_read:
  assumes "object_file put get" "put p x d = (d', Ok ())"
  shows "get p d' = Ok x"
  using assms(1) [unfolded object_file_def, THEN conjunct1] assms(2) by blast

lemma object_file_writes:
  assumes "object_file put get" "P p"
  shows "only_writes P (put p x)"
proof (rule only_writes_weaken)
  show "only_writes (\<lambda>q. q = p) (put p x)" using assms(1) unfolding object_file_def by (elim conjE allE)
  show "\<And>q. q = p \<Longrightarrow> P q" using assms(2) by simp
qed

lemma object_file_kept:
  assumes "object_file put get" "only_writes P m" "m d = (d', r)" "\<not> P p"
  shows "get p d' = get p d"
  using assms(1) [unfolded object_file_def, THEN conjunct2, THEN conjunct2, rule_format] only_writesD [OF assms(2-4)] .

lemma faithfulD:
  assumes "faithful_files F"
  shows "object_file (of_write_key F) (of_read_key F)" "object_file (of_write_agg_key F) (of_read_agg_key F)"
    "object_file (of_write_cached_key F) (of_read_cached_key F)" "object_file (of_write_exe F) (of_read_exe F)"
  using assms by (simp_all add: faithful_files_def)

text \<open>The tools write files whose names end in a letter of their own.\<close>

definition name_ends :: "char \<Rightarrow> string \<Rightarrow> bool" where
  "name_ends c path \<longleftrightarrow> file_of path \<noteq> [] \<and> last (file_of path) = c"

lemma name_ends_join [simp]: "f \<noteq> [] \<Longrightarrow> CHR ''/'' \<notin> set f \<Longrightarrow> name_ends c (path_join a f) \<longleftrightarrow> last f = c"
  by (simp add: name_ends_def)

lemma name_ends_vmexe [simp]: "name_ends c (vmexe_path base p) \<longleftrightarrow> c = CHR ''e''"
  by (auto simp: vmexe_path_def)

section \<open>The tools\<close>

text \<open>The readers of a worker on a disk.\<close>

definition files_on :: "('s, 'k, 'd, 'x, 'v, 'b, 'r) tool_env \<Rightarrow> disk \<Rightarrow> ('k, 'd, 'x) artifact_files" where
  "files_on env d =
     \<lparr>af_key = (\<lambda>path. of_read_key (te_files env) path d), af_agg_key = (\<lambda>path. of_read_agg_key (te_files env) path d),
      af_cached_key = (\<lambda>path. of_read_cached_key (te_files env) path d), af_exe = (\<lambda>path. of_read_exe (te_files env) path d),
      af_rebuild_sdk = (\<lambda>pk. case sk_from_deferral_cached_pk (te_sdk env) pk of
         Inl e \<Rightarrow> Err e
       | Inr s \<Rightarrow> Ok \<lparr>sdk_def_hook_cached_commit = sk_def_hook_cached_commit (te_sdk env) s,
                      sdk_def_hook_commit = sk_def_hook_commit (te_sdk env) s\<rparr>)\<rparr>"

lemma files_on_simps [simp]:
  "af_key (files_on env d) path = of_read_key (te_files env) path d"
  "af_agg_key (files_on env d) path = of_read_agg_key (te_files env) path d"
  "af_cached_key (files_on env d) path = of_read_cached_key (te_files env) path d"
  "af_exe (files_on env d) path = of_read_exe (te_files env) path d"
  by (simp_all add: files_on_def)

text \<open>The deferral SDK when its keys have been generated.\<close>

definition deferral_materialised :: "('s, 'k, 'd, 'x, 'v, 'b, 'r) tool_env \<Rightarrow> 's \<Rightarrow> 's" where
  "deferral_materialised env sdk =
     (let sdk = fst (sk_agg_pk (te_sdk env) (fst (sk_app_keygen (te_sdk env) sdk))) in
      if te_evm_prove env then fst (sk_root_pk (te_sdk env) sdk) else sdk)"

definition deferral_path :: "string \<Rightarrow> string" where
  "deferral_path base = path_join (path_join base ''deferral'') ''cached_pk''"

lemma file_of_deferral [simp]: "file_of (deferral_path base) = ''cached_pk''"
  by (simp add: deferral_path_def)

lemma deferral_keygen_alt:
  "deferral_keygen env base =
     bind_io (lift_io (create_dir_all (te_faults env) (path_join base ''deferral''))) (\<lambda>_.
     bind_io (read_io (te_create_sdk_with_deferral env)) (\<lambda>sdk.
     bind_io (lift_io (sk_cached_proving_key (te_sdk env) (deferral_materialised env sdk)))
       (of_write_cached_key (te_files env) (deferral_path base))))"
  by (simp add: deferral_keygen_def deferral_materialised_def deferral_path_def Let_def)

lemma deferral_keygen_writes:
  "faithful_files (te_files env) \<Longrightarrow> only_writes (\<lambda>q. q = deferral_path base) (deferral_keygen env base)"
  unfolding deferral_keygen_alt by (intro footprint object_file_writes [OF faithfulD(3)]) simp_all

lemma keygen_writes:
  assumes "faithful_files (te_files env)"
  shows "only_writes (name_ends CHR ''k'') (keygen_main env args)"
proof -
  note W = object_file_writes [OF faithfulD(1) [OF assms]] object_file_writes [OF faithfulD(2) [OF assms]]
    only_writes_weaken [OF deferral_keygen_writes [OF assms]]
  show ?thesis unfolding keygen_main_def Let_def case_prod_unfold
    by (intro footprint W) (auto simp: name_ends_def)
qed

lemma convert_writes:
  assumes "faithful_files (te_files env)"
  shows "only_writes (\<lambda>q. q = out) (convert_elf_to_vmexe env elf out pk)"
  unfolding convert_elf_to_vmexe_def
  by (intro footprint object_file_writes [OF faithfulD(4) [OF assms]]) simp

lemma vk_writes: "only_writes (\<lambda>q. q = ga_output args) (generate_vm_vk_main env args)"
proof -
  have "only_writes (\<lambda>q. q = path) (write_vm_vk_bincode faults vc path vk)" for faults vc path vk
  proof (rule only_writesI)
    fix d d' r q assume r: "write_vm_vk_bincode faults vc path vk d = (d', r)" and "q \<noteq> path"
    then show "map_of d' q = map_of d q"
      using only_writesD [OF only_writes_write_file [of "\<lambda>q. q = path" path faults], of _ d _ _ q]
      by (auto simp: write_vm_vk_bincode_def split: outcome.splits sum.splits prod.splits)
  qed
  note W = this
  show ?thesis unfolding generate_vm_vk_main_def by (intro footprint W)
qed

lemma copy_srs_writes: "only_writes (name_ends CHR ''s'') (copy_srs faults kzg out k)"
  unfolding copy_srs_def Let_def by (intro footprint) (simp add: srs_name_def)

lemma copy_srs_files_writes: "only_writes (name_ends CHR ''s'') (copy_srs_files faults kzg out ks)"
  unfolding copy_srs_files_def Let_def case_prod_unfold by (intro footprint copy_srs_writes)

lemma halo2_writes:
  assumes "faithful_files (te_files env)"
  shows "only_writes (\<lambda>q. q = path_join (ha_output_dir args) ''halo2_pk'' \<or> name_ends CHR ''s'' q) (halo2_keygen_main env args)"
  unfolding halo2_keygen_main_def Let_def case_prod_unfold
  by (intro footprint object_file_writes [OF faithfulD(1) [OF assms]] only_writes_weaken [OF copy_srs_files_writes]) auto

section \<open>The keys\<close>

lemma kept_by:
  assumes "object_file put get" "only_writes P m" "m d = (d', r)" "\<not> P path" "get path d = Ok x"
  shows "get path d' = Ok x"
  using object_file_kept [OF assms(1-4)] assms(5) by simp

lemma deferral_keygen_results:
  assumes files: "faithful_files (te_files env)"
    and run: "deferral_keygen env base d = (d', Ok ())"
  shows "\<exists>sdk pk. te_create_sdk_with_deferral env d = Ok sdk \<and>
    sk_cached_proving_key (te_sdk env) (deferral_materialised env sdk) = Ok pk \<and>
    of_read_cached_key (te_files env) (deferral_path base) d' = Ok pk"
proof -
  from run obtain sdk pk where "te_create_sdk_with_deferral env d = Ok sdk"
    "sk_cached_proving_key (te_sdk env) (deferral_materialised env sdk) = Ok pk"
    "of_write_cached_key (te_files env) (deferral_path base) pk d = (d', Ok ())"
    unfolding deferral_keygen_alt by auto
  then show ?thesis using object_file_read [OF faithfulD(3) [OF files]] by blast
qed

text \<open>What \<open>keygen\<close> leaves behind.\<close>

definition keys_written ::
  "('s, 'k, 'd, 'x, 'v, 'b, 'r) tool_env \<Rightarrow> string \<Rightarrow> bool \<Rightarrow> 'k \<Rightarrow> 'k agg_proving_key \<Rightarrow> disk \<Rightarrow> bool" where
  "keys_written env base with_deferral app_pk agg_pk d \<longleftrightarrow>
     of_read_key (te_files env) (path_join base ''app_pk'') d = Ok app_pk \<and>
     of_read_agg_key (te_files env) (path_join base ''agg_stark_pk'') d = Ok agg_pk \<and>
     (te_evm_prove env \<longrightarrow> (\<exists>root_pk. of_read_key (te_files env) (path_join base ''root_pk'') d = Ok root_pk)) \<and>
     (with_deferral \<longrightarrow> (\<exists>d0 sdk pk. te_create_sdk_with_deferral env d0 = Ok sdk \<and>
        sk_cached_proving_key (te_sdk env) (deferral_materialised env sdk) = Ok pk \<and>
        of_read_cached_key (te_files env) (deferral_path base) d = Ok pk))"

lemma keygen_results:
  assumes files: "faithful_files (te_files env)"
    and run: "keygen_main env args d = (d', Ok ())"
  shows "\<exists>sdk. te_create_sdk env d = Ok sdk \<and>
    keys_written env (ka_output_dir args) (ka_with_deferral args) (snd (sk_app_keygen (te_sdk env) sdk))
      (snd (sk_agg_pk (te_sdk env) (fst (sk_app_keygen (te_sdk env) sdk)))) d'"
proof -
  let ?F = "te_files env" and ?b = "ka_output_dir args"
  let ?m4 = "if ka_with_deferral args then deferral_keygen env ?b else lift_io (Ok ())"
  from run obtain sdk d1 d2 d3 where
    sdk: "te_create_sdk env d = Ok sdk"
    and w1: "of_write_key ?F (path_join ?b ''app_pk'') (snd (sk_app_keygen (te_sdk env) sdk)) d = (d1, Ok ())"
    and w2: "of_write_agg_key ?F (path_join ?b ''agg_stark_pk'')
      (snd (sk_agg_pk (te_sdk env) (fst (sk_app_keygen (te_sdk env) sdk)))) d1 = (d2, Ok ())"
    and w3: "(if te_evm_prove env then of_write_key ?F (path_join ?b ''root_pk'')
        (snd (sk_root_pk (te_sdk env) (fst (sk_agg_pk (te_sdk env) (fst (sk_app_keygen (te_sdk env) sdk))))))
      else lift_io (Ok ())) d2 = (d3, Ok ())"
    and w4: "?m4 d3 = (d', Ok ())"
    unfolding keygen_main_def Let_def case_prod_unfold by auto
  note K = faithfulD [OF files]
  have f2: "only_writes (\<lambda>q. q = path_join ?b ''agg_stark_pk'') (of_write_agg_key ?F (path_join ?b ''agg_stark_pk'') x)" for x
    by (rule object_file_writes [OF K(2)]) simp
  have f3: "only_writes (\<lambda>q. file_of q = ''root_pk'') (if te_evm_prove env then of_write_key ?F (path_join ?b ''root_pk'') x
      else lift_io (Ok ()))" for x
    by (intro footprint object_file_writes [OF K(1)]) simp
  have f4: "only_writes (\<lambda>q. file_of q = ''cached_pk'') ?m4"
    by (intro footprint only_writes_weaken [OF deferral_keygen_writes [OF files]]) simp
  have ne: "path_join ?b ''app_pk'' \<noteq> path_join ?b ''agg_stark_pk''"
  proof
    assume e: "path_join ?b ''app_pk'' = path_join ?b ''agg_stark_pk''"
    have "file_of (path_join ?b ''app_pk'') = file_of (path_join ?b ''agg_stark_pk'')" by (simp only: e)
    then show False by simp
  qed
  have k2: "of_read_key ?F p d2 = of_read_key ?F p d1" if "p \<noteq> path_join ?b ''agg_stark_pk''" for p
    by (rule object_file_kept [where m = "of_write_agg_key ?F p' x" for p' x, OF K(1) f2 w2 that])
  have k3: "of_read_key ?F p d3 = of_read_key ?F p d2" "of_read_agg_key ?F p d3 = of_read_agg_key ?F p d2"
    if "file_of p \<noteq> ''root_pk''" for p
    by (rule object_file_kept [OF K(1) f3 w3 that], rule object_file_kept [OF K(2) f3 w3 that])
  have k4: "of_read_key ?F p d' = of_read_key ?F p d3" "of_read_agg_key ?F p d' = of_read_agg_key ?F p d3"
    if "file_of p \<noteq> ''cached_pk''" for p
    by (rule object_file_kept [where m = ?m4, OF K(1) f4 w4 that], rule object_file_kept [where m = ?m4, OF K(2) f4 w4 that])
  have "of_read_key ?F (path_join ?b ''app_pk'') d' = Ok (snd (sk_app_keygen (te_sdk env) sdk))"
    using object_file_read [OF K(1), OF w1] by (simp add: k2 k3 k4 ne)
  moreover have "of_read_agg_key ?F (path_join ?b ''agg_stark_pk'') d' =
      Ok (snd (sk_agg_pk (te_sdk env) (fst (sk_app_keygen (te_sdk env) sdk))))"
    using object_file_read [OF K(2), OF w2] by (simp add: k3 k4)
  moreover have "\<exists>root_pk. of_read_key ?F (path_join ?b ''root_pk'') d' = Ok root_pk" if "te_evm_prove env"
    using object_file_read [OF K(1), OF w3 [unfolded if_P [OF that]]] by (simp add: k4)
  moreover have "\<exists>d0 sdk pk. te_create_sdk_with_deferral env d0 = Ok sdk \<and>
        sk_cached_proving_key (te_sdk env) (deferral_materialised env sdk) = Ok pk \<and>
        of_read_cached_key ?F (deferral_path ?b) d' = Ok pk" if "ka_with_deferral args"
    using deferral_keygen_results [OF files w4 [unfolded if_P [OF that]]] by blast
  ultimately show ?thesis using sdk by (auto simp: keys_written_def)
qed

lemma keys_written_kept:
  assumes files: "faithful_files (te_files env)"
    and keys: "keys_written env base with_deferral app_pk agg_pk d"
    and foot: "only_writes P m" "\<And>q. P q \<Longrightarrow> file_of q \<notin> {''app_pk'', ''agg_stark_pk'', ''root_pk'', ''cached_pk''}"
    and run: "m d = (d', r)"
  shows "keys_written env base with_deferral app_pk agg_pk d'"
proof -
  note K = faithfulD [OF files]
  have untouched: "\<not> P q" if "file_of q \<in> {''app_pk'', ''agg_stark_pk'', ''root_pk'', ''cached_pk''}" for q
    using foot(2) that by blast
  have same: "of_read_key (te_files env) q d' = of_read_key (te_files env) q d"
    "of_read_agg_key (te_files env) q d' = of_read_agg_key (te_files env) q d"
    "of_read_cached_key (te_files env) q d' = of_read_cached_key (te_files env) q d"
    if "file_of q \<in> {''app_pk'', ''agg_stark_pk'', ''root_pk'', ''cached_pk''}" for q
    by (rule object_file_kept [where m = m, OF K(1) foot(1) run untouched [OF that]],
        rule object_file_kept [where m = m, OF K(2) foot(1) run untouched [OF that]],
        rule object_file_kept [where m = m, OF K(3) foot(1) run untouched [OF that]])
  show ?thesis using keys unfolding keys_written_def by (simp add: same)
qed

section \<open>The programs\<close>

text \<open>The loop of \<open>start-provers.py\<close> over the programs of the loadout, each with its ELF.\<close>

definition vk_path :: "string \<Rightarrow> string \<Rightarrow> string" where
  "vk_path base name = path_join (path_join base ''vk'') (name @ ''.app_vm_vk.bin'')"

fun generate_programs ::
  "('s, 'k, 'd, 'x, 'v, 'b, 'r) tool_env \<Rightarrow> string \<Rightarrow> bool \<Rightarrow> (program_ref \<times> string) list \<Rightarrow> unit io" where
  "generate_programs env base with_deferral [] = lift_io (Ok ())"
| "generate_programs env base with_deferral ((program, elf) # programs) =
     (let cached_pk = (if with_deferral then Some (deferral_path base) else None) in
      bind_io (convert_elf_to_vmexe env elf (vmexe_path base program) cached_pk) (\<lambda>_.
      bind_io (generate_vm_vk_main env
        \<lparr>ga_elf = elf, ga_output = vk_path base (pr_name program), ga_deferral_cached_pk = cached_pk\<rparr>) (\<lambda>_.
        generate_programs env base with_deferral programs)))"

text \<open>An executable, and a verifying key, that the tools made from an ELF at some moment of the run.\<close>

definition transpiled ::
  "('s, 'k, 'd, 'x, 'v, 'b, 'r) tool_env \<Rightarrow> string \<Rightarrow> bool \<Rightarrow> string \<Rightarrow> 'x \<Rightarrow> bool" where
  "transpiled env base with_deferral elf exe \<longleftrightarrow>
     (\<exists>d elf_bytes sdk. fs_read (te_faults env) elf d = Ok elf_bytes \<and>
        transpiler_sdk env (if with_deferral then Some (deferral_path base) else None) d = Ok sdk \<and>
        sk_convert_to_exe (te_sdk env) sdk elf_bytes = Inr exe)"

definition vk_built ::
  "('s, 'k, 'd, 'x, 'v, 'b, 'r) tool_env \<Rightarrow> string \<Rightarrow> bool \<Rightarrow> string \<Rightarrow> 'v \<Rightarrow> bool" where
  "vk_built env base with_deferral elf vk \<longleftrightarrow>
     (\<exists>d sdk. vk_sdk env (if with_deferral then Some (deferral_path base) else None) d = Ok sdk \<and>
        build_vm_vk_from_elf_with_sdk env sdk elf d = Ok vk)"

lemma convert_results:
  assumes "faithful_files (te_files env)"
    "convert_elf_to_vmexe env elf out (if with_deferral then Some (deferral_path base) else None) d = (d', Ok ())"
  shows "\<exists>exe. of_read_exe (te_files env) out d' = Ok exe \<and> transpiled env base with_deferral elf exe"
proof -
  from assms(2) obtain elf_bytes sdk exe where e: "fs_read (te_faults env) elf d = Ok elf_bytes"
    "transpiler_sdk env (if with_deferral then Some (deferral_path base) else None) d = Ok sdk"
    "sk_convert_to_exe (te_sdk env) sdk elf_bytes = Inr exe" "of_write_exe (te_files env) out exe d = (d', Ok ())"
    by (auto simp: convert_elf_to_vmexe_def)
  then show ?thesis using object_file_read [OF faithfulD(4) [OF assms(1)], OF e(4)]
    unfolding transpiled_def by blast
qed

lemma write_vk_Ok:
  assumes "write_vm_vk_bincode faults vc path vk d = (d', Ok ())"
  shows "\<exists>b. vc_serialize vc vk = Inr b \<and> map_of d' path = Some b"
  using assms
  by (auto simp: write_vm_vk_bincode_def write_file_def split: outcome.splits sum.splits prod.splits option.splits)

lemma vk_results:
  assumes "generate_vm_vk_main env
      \<lparr>ga_elf = elf, ga_output = out, ga_deferral_cached_pk = if with_deferral then Some (deferral_path base) else None\<rparr> d =
      (d', Ok ())"
  shows "\<exists>vk b. vc_serialize (te_vk_codec env) vk = Inr b \<and> map_of d' out = Some b \<and> vk_built env base with_deferral elf vk"
proof -
  from assms obtain sdk vk where
    e: "vk_sdk env (if with_deferral then Some (deferral_path base) else None) d = Ok sdk"
    "build_vm_vk_from_elf_with_sdk env sdk elf d = Ok vk"
    "write_vm_vk_bincode (te_faults env) (te_vk_codec env) out vk d = (d', Ok ())"
    by (auto simp: generate_vm_vk_main_def)
  then show ?thesis using write_vk_Ok [OF e(3)] unfolding vk_built_def by blast
qed

lemma name_ends_vk [simp]: "CHR ''/'' \<notin> set n \<Longrightarrow> name_ends c (vk_path base n) \<longleftrightarrow> c = CHR ''n''"
  by (auto simp: vk_path_def)

lemma programs_write:
  assumes "faithful_files (te_files env)" "\<forall>(p, elf) \<in> set ps. plain_name p"
  shows "only_writes (\<lambda>q. q \<in> vmexe_path base ` fst ` set ps \<or> q \<in> (\<lambda>(p, elf). vk_path base (pr_name p)) ` set ps)
    (generate_programs env base with_deferral ps)"
  using assms(2)
proof (induction ps)
  case (Cons pe ps)
  obtain p elf where pe: "pe = (p, elf)" by fastforce
  have ih: "only_writes (\<lambda>q. q \<in> vmexe_path base ` fst ` set ps \<or> q \<in> (\<lambda>(p, elf). vk_path base (pr_name p)) ` set ps)
      (generate_programs env base with_deferral ps)"
    using Cons by simp
  show ?case unfolding pe generate_programs.simps Let_def
    by (intro only_writes_bind only_writes_weaken [OF convert_writes [OF assms(1)]] only_writes_weaken [OF vk_writes]
        only_writes_weaken [OF ih]) auto
qed (simp add: footprint)

lemma programs_write_ends:
  assumes "faithful_files (te_files env)" "\<forall>(p, elf) \<in> set ps. plain_name p"
  shows "only_writes (\<lambda>q. name_ends CHR ''e'' q \<or> name_ends CHR ''n'' q) (generate_programs env base with_deferral ps)"
  by (rule only_writes_weaken [OF programs_write [OF assms]]) (use assms(2) in \<open>auto simp: plain_name_def\<close>)

lemma programs_results:
  assumes files: "faithful_files (te_files env)"
  shows "\<forall>(p, elf) \<in> set ps. plain_name p \<Longrightarrow> distinct (map fst ps) \<Longrightarrow>
    generate_programs env base with_deferral ps d = (d', Ok ()) \<Longrightarrow> (p, elf) \<in> set ps \<Longrightarrow>
    \<exists>exe. of_read_exe (te_files env) (vmexe_path base p) d' = Ok exe \<and> transpiled env base with_deferral elf exe"
proof (induction ps arbitrary: d)
  case (Cons pe ps)
  obtain p0 elf0 where pe: "pe = (p0, elf0)" by fastforce
  let ?pk = "if with_deferral then Some (deferral_path base) else None"
  from Cons.prems(3) obtain d1 d2 where
    c: "convert_elf_to_vmexe env elf0 (vmexe_path base p0) ?pk d = (d1, Ok ())"
    and v: "generate_vm_vk_main env \<lparr>ga_elf = elf0, ga_output = vk_path base (pr_name p0), ga_deferral_cached_pk = ?pk\<rparr> d1 = (d2, Ok ())"
    and r: "generate_programs env base with_deferral ps d2 = (d', Ok ())"
    by (auto simp: pe Let_def)
  have plain: "\<forall>(p, elf) \<in> set ps. plain_name p" "plain_name p0" using Cons.prems(1) pe by auto
  show ?case
  proof (cases "(p, elf) = (p0, elf0)")
    case True
    obtain exe where x: "of_read_exe (te_files env) (vmexe_path base p0) d1 = Ok exe" "transpiled env base with_deferral elf0 exe"
      using convert_results [OF files c] by blast
    have n1: "vmexe_path base p0 \<noteq> vk_path base (pr_name q)" if "plain_name q" for q
    proof
      assume "vmexe_path base p0 = vk_path base (pr_name q)"
      then have "name_ends CHR ''e'' (vk_path base (pr_name q))" by (metis name_ends_vmexe)
      then show False using that by (simp add: plain_name_def)
    qed
    have "vmexe_path base p0 \<notin> vmexe_path base ` fst ` set ps"
    proof
      assume "vmexe_path base p0 \<in> vmexe_path base ` fst ` set ps"
      then obtain q elf' where q: "(q, elf') \<in> set ps" "vmexe_path base p0 = vmexe_path base q" by auto
      then have "p0 = q" using vmexe_path_inject [OF q(2) plain(2)] plain(1) by auto
      moreover have "q \<in> fst ` set ps" using imageI [OF q(1), of fst] by simp
      ultimately show False using Cons.prems(2) pe by simp
    qed
    moreover have "vmexe_path base p0 \<notin> (\<lambda>(p, elf). vk_path base (pr_name p)) ` set ps"
    proof
      assume "vmexe_path base p0 \<in> (\<lambda>(p, elf). vk_path base (pr_name p)) ` set ps"
      then obtain q e where "(q, e) \<in> set ps" "vmexe_path base p0 = vk_path base (pr_name q)" by force
      then show False using n1 plain(1) by auto
    qed
    ultimately have kept: "\<not> (vmexe_path base p0 \<in> vmexe_path base ` fst ` set ps \<or>
        vmexe_path base p0 \<in> (\<lambda>(p, elf). vk_path base (pr_name p)) ` set ps)"
      by (simp only: simp_thms)
    let ?m = "generate_vm_vk_main env
        \<lparr>ga_elf = elf0, ga_output = vk_path base (pr_name p0), ga_deferral_cached_pk = ?pk\<rparr>"
    have "of_read_exe (te_files env) (vmexe_path base p0) d2 = Ok exe"
      by (rule kept_by [where m = ?m, OF faithfulD(4) [OF files] vk_writes v _ x(1)])
        (simp only: vk_args.simps n1 [OF plain(2)], simp)
    then have "of_read_exe (te_files env) (vmexe_path base p0) d' = Ok exe"
      by (rule kept_by [where m = "generate_programs env base with_deferral ps", OF faithfulD(4) [OF files]
            programs_write [OF files plain(1)] r kept])
    then show ?thesis using x(2) True by blast
  next
    case False
    then have "(p, elf) \<in> set ps" using Cons.prems(4) pe by auto
    with Cons.IH [OF plain(1) _ r] show ?thesis using Cons.prems(2) pe by simp
  qed
qed simp

lemma load_programs_total:
  "\<forall>p \<in> set ps. \<exists>x. af_exe files (vmexe_path base p) = Ok x \<Longrightarrow> \<exists>m. load_programs files base ps acc = Ok m"
  by (induction ps arbitrary: acc) auto

section \<open>A deployment\<close>

text \<open>The assumptions on the SDK: a deferral SDK comes back from its cached key with its two commitments, and the cached
  key of an SDK whose root key has been generated carries it.\<close>

definition deferral_keys_rebuild :: "('s, 'k, 'd, 'x, 'v, 'b, 'r) tool_env \<Rightarrow> bool" where
  "deferral_keys_rebuild env \<longleftrightarrow>
     (\<forall>d sdk pk. te_create_sdk_with_deferral env d = Ok sdk \<longrightarrow>
        sk_cached_proving_key (te_sdk env) (deferral_materialised env sdk) = Ok pk \<longrightarrow>
        (\<exists>sdk'. sk_from_deferral_cached_pk (te_sdk env) pk = Inr sdk' \<and>
           sk_def_hook_cached_commit (te_sdk env) sdk' \<noteq> None \<and> sk_def_hook_commit (te_sdk env) sdk' \<noteq> None)) \<and>
     (\<forall>sdk pk. sk_cached_proving_key (te_sdk env) (fst (sk_root_pk (te_sdk env) sdk)) = Ok pk \<longrightarrow> cpk_root_pk pk \<noteq> None)"

text \<open>The run of the tools: the keys, then the programs, then, for an EVM deployment, the halo2 key.\<close>

definition generate_deployment ::
  "('s, 'k, 'd, 'x, 'v, 'b, 'r) tool_env \<Rightarrow> string \<Rightarrow> bool \<Rightarrow> (program_ref \<times> string) list \<Rightarrow> (string \<times> string) option \<Rightarrow> unit io" where
  "generate_deployment env base with_deferral programs halo2 =
     bind_io (keygen_main env \<lparr>ka_output_dir = base, ka_with_deferral = with_deferral\<rparr>) (\<lambda>_.
     bind_io (generate_programs env base with_deferral programs) (\<lambda>_.
     case halo2 of
       None \<Rightarrow> lift_io (Ok ())
     | Some (kzg_params_dir, halo2_dir) \<Rightarrow>
         halo2_keygen_main env \<lparr>ha_kzg_params_dir = kzg_params_dir, ha_output_dir = halo2_dir, ha_with_deferral = with_deferral\<rparr>))"

lemma halo2_results:
  assumes files: "faithful_files (te_files env)"
    and run: "halo2_keygen_main env args d = (d', Ok ())"
  shows "\<exists>pk. of_read_key (te_files env) (path_join (ha_output_dir args) ''halo2_pk'') d' = Ok pk"
proof -
  let ?p = "path_join (ha_output_dir args) ''halo2_pk''" and ?F = "te_files env"
  let ?copy = "copy_srs_files (te_faults env) (ha_kzg_params_dir args) (ha_output_dir args)"
  from run obtain pk d1 where w: "of_write_key ?F ?p pk d = (d1, Ok ())"
    and c: "?copy (sk_halo2_degrees (te_sdk env) pk) d1 = (d', Ok ())"
    by (auto simp: halo2_keygen_main_def Let_def case_prod_unfold split: if_splits)
  note K = faithfulD(1) [OF files]
  have "of_read_key ?F ?p d' = Ok pk"
    by (rule kept_by [where m = "?copy (sk_halo2_degrees (te_sdk env) pk)", OF K copy_srs_files_writes c]) (simp, rule object_file_read [OF K, OF w])
  then show ?thesis ..
qed

text \<open>What the tools leave on the disk.\<close>

lemma deployment_results:
  assumes files: "faithful_files (te_files env)"
    and programs: "distinct (map fst programs)" "\<forall>(p, elf) \<in> set programs. plain_name p"
    and run: "generate_deployment env base with_deferral programs halo2 d = (d', Ok ())"
  obtains sdk agg where "te_create_sdk env d = Ok sdk"
    "keys_written env base with_deferral (snd (sk_app_keygen (te_sdk env) sdk)) agg d'"
    "\<And>p elf. (p, elf) \<in> set programs \<Longrightarrow>
      \<exists>exe. of_read_exe (te_files env) (vmexe_path base p) d' = Ok exe \<and> transpiled env base with_deferral elf exe"
    "\<And>kzg dir. halo2 = Some (kzg, dir) \<Longrightarrow> \<exists>pk. of_read_key (te_files env) (path_join dir ''halo2_pk'') d' = Ok pk"
proof -
  let ?m = "case halo2 of None \<Rightarrow> lift_io (Ok ()) | Some (kzg, dir) \<Rightarrow> halo2_keygen_main env
        \<lparr>ha_kzg_params_dir = kzg, ha_output_dir = dir, ha_with_deferral = with_deferral\<rparr>"
  obtain d1 d2 where
    k: "keygen_main env \<lparr>ka_output_dir = base, ka_with_deferral = with_deferral\<rparr> d = (d1, Ok ())"
    and g: "generate_programs env base with_deferral programs d1 = (d2, Ok ())"
    and h: "?m d2 = (d', Ok ())"
    using run by (auto simp: generate_deployment_def)
  have f: "only_writes (\<lambda>q. file_of q = ''halo2_pk'' \<or> name_ends CHR ''s'' q) ?m"
    by (cases halo2) (auto simp: footprint split: prod.splits intro: only_writes_weaken [OF halo2_writes [OF files]])
  obtain sdk agg where sdk: "te_create_sdk env d = Ok sdk"
    and w1: "keys_written env base with_deferral (snd (sk_app_keygen (te_sdk env) sdk)) agg d1"
    using keygen_results [OF files k] by auto
  have w2: "keys_written env base with_deferral (snd (sk_app_keygen (te_sdk env) sdk)) agg d2"
    by (rule keys_written_kept [OF files w1 programs_write_ends [OF files programs(2)] _ g]) (auto simp: name_ends_def)
  have w: "keys_written env base with_deferral (snd (sk_app_keygen (te_sdk env) sdk)) agg d'"
    by (rule keys_written_kept [where m = ?m, OF files w2 f _ h]) (auto simp: name_ends_def)
  have exe: "\<exists>exe. of_read_exe (te_files env) (vmexe_path base p) d' = Ok exe \<and> transpiled env base with_deferral elf exe"
    if pe: "(p, elf) \<in> set programs" for p elf
  proof -
    have "of_read_exe (te_files env) (vmexe_path base p) d' = of_read_exe (te_files env) (vmexe_path base p) d2"
      by (rule object_file_kept [where m = ?m, OF faithfulD(4) [OF files] f h]) (auto simp: vmexe_path_def)
    then show ?thesis using programs_results [OF files programs(2,1) g pe] by auto
  qed
  have halo2: "\<exists>pk. of_read_key (te_files env) (path_join dir ''halo2_pk'') d' = Ok pk" if "halo2 = Some (kzg, dir)" for kzg dir
    using halo2_results [OF files, of _ d2 d'] h that by fastforce
  show ?thesis by (rule that [OF sdk w exe halo2])
qed

text \<open>How the artifact store of a worker finds it.\<close>

lemma written_deferral_loads:
  assumes w: "keys_written env base with_deferral app_pk agg d"
    and rebuild: "with_deferral \<longrightarrow> deferral_keys_rebuild env"
  obtains dfr where "try_load_deferral (files_on env d) base with_deferral = Ok dfr"
    "\<And>x. te_evm_prove env \<Longrightarrow> dfr = Some x \<Longrightarrow> cpk_root_pk (da_cached_pk x) \<noteq> None"
proof (cases with_deferral)
  case True
  obtain d0 dsdk pk where p: "te_create_sdk_with_deferral env d0 = Ok dsdk"
    "sk_cached_proving_key (te_sdk env) (deferral_materialised env dsdk) = Ok pk"
    "of_read_cached_key (te_files env) (deferral_path base) d = Ok pk"
    using w True by (auto simp: keys_written_def)
  have rb: "deferral_keys_rebuild env" using rebuild True by simp
  obtain sdk' c1 c2 where r: "sk_from_deferral_cached_pk (te_sdk env) pk = Inr sdk'"
    "sk_def_hook_cached_commit (te_sdk env) sdk' = Some c1" "sk_def_hook_commit (te_sdk env) sdk' = Some c2"
    using rb p(1,2) unfolding deferral_keys_rebuild_def by blast
  have root: "cpk_root_pk pk \<noteq> None" if "te_evm_prove env"
    using p(2) that rb unfolding deferral_keys_rebuild_def deferral_materialised_def Let_def by simp
  have load: "try_load_deferral (files_on env d) base with_deferral =
      Ok (Some \<lparr>da_cached_pk = pk, da_def_hook_cached_commit = c1, da_def_hook_commit = c2\<rparr>)"
    using True p(3) by (simp add: try_load_deferral_def Let_def deferral_path_def [symmetric] files_on_def r)
  show ?thesis by (rule that [OF load]) (use root in auto)
next
  case False
  show ?thesis by (rule that [of None]) (simp_all add: try_load_deferral_def False)
qed

lemma written_evm_loads:
  assumes w: "keys_written env base with_deferral app_pk agg d"
    and dfr: "\<And>x. te_evm_prove env \<Longrightarrow> dfr = Some x \<Longrightarrow> cpk_root_pk (da_cached_pk x) \<noteq> None"
    and halo2: "\<And>kzg dir. halo2 = Some (kzg, dir) \<Longrightarrow> \<exists>pk. of_read_key (te_files env) (path_join dir ''halo2_pk'') d = Ok pk"
    and built: "halo2 \<noteq> None \<longrightarrow> te_evm_prove env"
  shows "try_load_evm (files_on env d) base (map_option snd halo2) dfr \<noteq> None \<longleftrightarrow> halo2 \<noteq> None"
proof (cases halo2)
  case None
  then show ?thesis by (simp add: try_load_evm_def)
next
  case (Some kd)
  obtain kzg dir where kd: "kd = (kzg, dir)" by fastforce
  have evm: "te_evm_prove env" using built Some by simp
  obtain hpk where hpk: "of_read_key (te_files env) (path_join dir ''halo2_pk'') d = Ok hpk"
    using halo2 Some kd by fastforce
  obtain rpk where rpk: "of_read_key (te_files env) (path_join base ''root_pk'') d = Ok rpk"
    using w evm by (auto simp: keys_written_def)
  have "try_load_evm (files_on env d) base (Some dir) dfr \<noteq> None"
    using dfr evm by (cases dfr) (auto simp: try_load_evm_def hpk rpk)
  then show ?thesis using Some kd by simp
qed


section \<open>The verifying keys\<close>

lemma vk_rel_path_join:
  assumes "vk_rel_path name = Some rel"
  shows "path_join base rel = vk_path base name" "CHR ''/'' \<notin> set name" "name \<noteq> []"
proof -
  have n: "name \<noteq> []" "list_all (\<lambda>c. is_ascii_alphanumeric c \<or> c = CHR ''.'' \<or> c = CHR ''_'' \<or> c = CHR ''-'') name"
    and rel: "rel = ''vk/'' @ name @ ''.app_vm_vk.bin''"
    using assms by (auto simp: vk_rel_path_def split: if_splits)
  then show slash: "CHR ''/'' \<notin> set name" "name \<noteq> []"
    by (auto simp: list_all_iff is_ascii_alphanumeric_def)
  have "vk_path base name = path_join base ''vk'' @ ''/'' @ (name @ ''.app_vm_vk.bin'')"
    unfolding vk_path_def using slash by (intro path_join_plain) simp_all
  also have "\<dots> = path_join base rel" by (simp add: rel path_join_def)
  finally show "path_join base rel = vk_path base name" ..
qed

lemma vk_path_inject:
  assumes "vk_path base m = vk_path base n" "CHR ''/'' \<notin> set m" "CHR ''/'' \<notin> set n"
  shows "m = n"
proof -
  have "file_of (vk_path base m) = file_of (vk_path base n)" by (simp only: assms(1))
  then show ?thesis using assms(2,3) by (simp add: vk_path_def)
qed

lemma programs_vks:
  assumes files: "faithful_files (te_files env)"
    and plain: "\<forall>(q, e) \<in> set (pre @ (p, elf) # post). plain_name q"
    and lst: "\<forall>(q, e) \<in> set post. pr_name q \<noteq> pr_name p"
    and run: "generate_programs env base with_deferral (pre @ (p, elf) # post) d = (d', Ok ())"
  shows "\<exists>vk b. vc_serialize (te_vk_codec env) vk = Inr b \<and> map_of d' (vk_path base (pr_name p)) = Some b \<and>
    vk_built env base with_deferral elf vk"
  using plain run
proof (induction pre arbitrary: d)
  case Nil
  let ?pk = "if with_deferral then Some (deferral_path base) else None" and ?v = "vk_path base (pr_name p)"
  from Nil.prems(2) obtain d1 d2 where
    v: "generate_vm_vk_main env \<lparr>ga_elf = elf, ga_output = ?v, ga_deferral_cached_pk = ?pk\<rparr> d1 = (d2, Ok ())"
    and r: "generate_programs env base with_deferral post d2 = (d', Ok ())"
    by (auto simp: Let_def)
  obtain vk b where vk: "vc_serialize (te_vk_codec env) vk = Inr b" "map_of d2 ?v = Some b" "vk_built env base with_deferral elf vk"
    using vk_results [OF v] by blast
  have pl: "\<forall>(q, e) \<in> set post. plain_name q" "plain_name p" using Nil.prems(1) by auto
  have slash: "CHR ''/'' \<notin> set (pr_name q)" if "plain_name q" for q using that by (simp add: plain_name_def)
  have "?v \<notin> vmexe_path base ` fst ` set post"
  proof
    assume "?v \<in> vmexe_path base ` fst ` set post"
    then obtain q where "?v = vmexe_path base q" by blast
    then have "name_ends CHR ''e'' ?v" by (metis name_ends_vmexe)
    then show False using slash [OF pl(2)] by simp
  qed
  moreover have "?v \<notin> (\<lambda>(q, e). vk_path base (pr_name q)) ` set post"
  proof
    assume "?v \<in> (\<lambda>(q, e). vk_path base (pr_name q)) ` set post"
    then obtain q e where q: "(q, e) \<in> set post" "?v = vk_path base (pr_name q)" by force
    then have "plain_name q" using pl(1) by auto
    then have "pr_name p = pr_name q" using vk_path_inject [OF q(2) slash [OF pl(2)] slash] by simp
    then show False using lst q(1) by auto
  qed
  ultimately have "\<not> (?v \<in> vmexe_path base ` fst ` set post \<or> ?v \<in> (\<lambda>(q, e). vk_path base (pr_name q)) ` set post)" by blast
  from only_writesD [OF programs_write [OF files pl(1)] r this] show ?case using vk by (intro exI conjI) simp_all
next
  case (Cons qe pre)
  obtain q e where qe: "qe = (q, e)" by fastforce
  from Cons.prems(2) obtain d2 where "generate_programs env base with_deferral (pre @ (p, elf) # post) d2 = (d', Ok ())"
    by (auto simp: qe Let_def)
  then show ?case using Cons by auto
qed

section \<open>A demonstration deployment\<close>

text \<open>An SDK is whether it is a deferral SDK and whether its root key has been generated; keys are bytes.\<close>

definition demo_builder :: "(unit, unit, unit, unit, unit, unit, bool \<times> bool) vm_builder" where
  "demo_builder =
     \<lparr>vb_standard = (), vb_from_toml = (\<lambda>_. Inr ()), vb_with_max_constraint_degree = (\<lambda>_ c. c),
      vb_with_public_values = (\<lambda>_ c. c), vb_memory_dimensions = (\<lambda>_. ()), vb_num_public_values = (\<lambda>_. 32),
      vb_set_deferral = (\<lambda>_ c. c), vb_set_deferral_cells = (\<lambda>_ c. c), vb_apply_optimizations = (\<lambda>c. c),
      vb_max_app_log_stacked_height = 24, vb_default_app_l_skip = 4, vb_default_deferral_cells = 16,
      vb_app_params = (\<lambda>_. ()), vb_set_skip_and_stack = (\<lambda>_ _ p. p), vb_leaf_params = (), vb_internal_params = (),
      vb_hook_params = (), vb_agg_params = (\<lambda>_ _. ()), vb_verify_stark = (\<lambda>_ _ _ _. ()),
      vb_make_verify_stark_config = (\<lambda>_. ()), vb_sdk_new = (\<lambda>_ _ _. Inr (False, False)),
      vb_build = (\<lambda>_ _ _ _ h. Inr (h \<noteq> None, False))\<rparr>"

definition demo_sdk_calls :: "(bool \<times> bool, 8 word, 8 word, bytes, bytes, bytes, bytes) sdk_calls" where
  "demo_sdk_calls =
     \<lparr>sk_app_keygen = (\<lambda>s. (s, 1)),
      sk_agg_pk = (\<lambda>s. (s, \<lparr>agg_leaf = 2, agg_internal_for_leaf = 3, agg_internal_recursive = 4\<rparr>)),
      sk_root_pk = (\<lambda>s. ((fst s, True), 5)), sk_halo2_pk = (\<lambda>s. (s, 6)), sk_halo2_degrees = (\<lambda>_. (20, 22)),
      sk_cached_proving_key = (\<lambda>s. Ok \<lparr>cpk_app_pk = 1,
        cpk_agg_pk = \<lparr>agg_leaf = 2, agg_internal_for_leaf = 3, agg_internal_recursive = 4\<rparr>,
        cpk_root_pk = if snd s then Some 5 else None\<rparr>),
      sk_from_deferral_cached_pk = (\<lambda>pk. Inr (True, cpk_root_pk pk \<noteq> None)),
      sk_def_hook_cached_commit = (\<lambda>s. if fst s then Some 7 else None),
      sk_def_hook_commit = (\<lambda>s. if fst s then Some 8 else None),
      sk_convert_to_exe = (\<lambda>_ b. Inr b), sk_normalize = Inr, sk_prover = (\<lambda>_ x. Inr x),
      sk_generate_baseline = (\<lambda>r. r), sk_vm_vk = (\<lambda>_ b. 9 # b)\<rparr>"

definition no_io_faults :: io_faults where
  "no_io_faults op = None"

definition put_coded :: "('a \<Rightarrow> bytes) \<Rightarrow> string \<Rightarrow> 'a \<Rightarrow> unit io" where
  "put_coded enc p x = write_file no_io_faults p (enc x)"

definition get_coded :: "(bytes \<Rightarrow> 'a outcome) \<Rightarrow> string \<Rightarrow> disk \<Rightarrow> 'a outcome" where
  "get_coded dec p d = bind_outcome (fs_read no_io_faults p d) dec"

lemma coded_object_file:
  assumes "\<And>x. dec (enc x) = Ok x"
  shows "object_file (put_coded enc) (get_coded dec)"
proof -
  have "get_coded dec p d' = Ok x" if "put_coded enc p x d = (d', Ok ())" for p x d d'
    using that assms
    by (auto simp: put_coded_def get_coded_def write_file_def fs_read_def read_file_def no_io_faults_def)
  moreover have "only_writes (\<lambda>q. q = p) (put_coded enc p x)" for p x
    unfolding put_coded_def by (intro footprint) simp
  moreover have "get_coded dec p d = get_coded dec p d'" if "map_of d p = map_of d' p" for p d d'
    unfolding get_coded_def fs_read_def read_file_def that ..
  ultimately show ?thesis unfolding object_file_def by (intro conjI allI impI)
qed

fun agg_bytes :: "8 word agg_proving_key \<Rightarrow> bytes" where
  "agg_bytes a = [agg_leaf a, agg_internal_for_leaf a, agg_internal_recursive a]"

fun agg_of_bytes :: "bytes \<Rightarrow> 8 word agg_proving_key outcome" where
  "agg_of_bytes [a, b, c] = Ok \<lparr>agg_leaf = a, agg_internal_for_leaf = b, agg_internal_recursive = c\<rparr>"
| "agg_of_bytes _ = Err ''bad key''"

fun cached_bytes :: "(8 word, 8 word) cached_proving_key \<Rightarrow> bytes" where
  "cached_bytes k = cpk_app_pk k # agg_bytes (cpk_agg_pk k) @ (case cpk_root_pk k of None \<Rightarrow> [] | Some r \<Rightarrow> [r])"

fun cached_of_bytes :: "bytes \<Rightarrow> (8 word, 8 word) cached_proving_key outcome" where
  "cached_of_bytes (p # a # b # c # r) = bind_outcome (agg_of_bytes [a, b, c]) (\<lambda>g.
     Ok \<lparr>cpk_app_pk = p, cpk_agg_pk = g, cpk_root_pk = (case r of [] \<Rightarrow> None | w # _ \<Rightarrow> Some w)\<rparr>)"
| "cached_of_bytes _ = Err ''bad key''"

fun key_of_bytes :: "bytes \<Rightarrow> 8 word outcome" where
  "key_of_bytes [w] = Ok w"
| "key_of_bytes _ = Err ''bad key''"

definition demo_object_files :: "(8 word, 8 word, bytes) object_files" where
  "demo_object_files =
     \<lparr>of_write_key = put_coded (\<lambda>w. [w]), of_read_key = get_coded key_of_bytes,
      of_write_agg_key = put_coded agg_bytes, of_read_agg_key = get_coded agg_of_bytes,
      of_write_cached_key = put_coded cached_bytes, of_read_cached_key = get_coded cached_of_bytes,
      of_write_exe = put_coded (\<lambda>b. b), of_read_exe = get_coded Ok\<rparr>"

definition demo_tool_env :: "(bool \<times> bool, 8 word, 8 word, bytes, bytes, bytes, bytes) tool_env" where
  "demo_tool_env = with_edge_sdks demo_builder None
     \<lparr>te_faults = no_io_faults, te_evm_prove = True, te_is_dir = (\<lambda>_. True), te_sdk = demo_sdk_calls,
      te_files = demo_object_files, te_vk_codec = \<lparr>vc_serialize = Inr, vc_deserialize = Inr\<rparr>,
      te_create_sdk = (\<lambda>_. Err []), te_create_sdk_for_halo2 = (\<lambda>_ _. Err []),
      te_create_sdk_with_deferral = (\<lambda>_. Err []), te_create_sdk_with_deferral_for_halo2 = (\<lambda>_ _. Err [])\<rparr>"

definition demo_programs :: "(program_ref \<times> string) list" where
  "demo_programs = [(\<lparr>pr_name = ''fib'', pr_version = 1\<rparr>, ''fib1.elf''), (\<lparr>pr_name = ''fib'', pr_version = 2\<rparr>, ''fib2.elf'')]"

definition demo_elf_disk :: disk where
  "demo_elf_disk = [(''fib1.elf'', [1]), (''fib2.elf'', [2]), (''kzg/kzg_bn254_20.srs'', [20]), (''kzg/kzg_bn254_22.srs'', [22])]"

definition demo_deployment :: disk where
  "demo_deployment = fst (generate_deployment demo_tool_env ''art'' True demo_programs (Some (''kzg'', ''h2'')) demo_elf_disk)"

lemma demo_files_faithful: "faithful_files (te_files demo_tool_env)"
proof -
  have "cached_of_bytes (cached_bytes k) = Ok k" for k by (cases "cpk_root_pk k") simp_all
  then show ?thesis
    by (auto simp: faithful_files_def demo_tool_env_def with_edge_sdks_def demo_object_files_def intro!: coded_object_file)
qed

lemma demo_rebuilds: "deferral_keys_rebuild demo_tool_env"
  by (auto simp: deferral_keys_rebuild_def deferral_materialised_def demo_tool_env_def with_edge_sdks_def demo_sdk_calls_def
      create_edge_sdk_with_deferral_def create_edge_sdk_with_deferral_impl_def demo_builder_def Let_def wrap_sum_def
      bind_outcome_Ok_iff split: prod.splits)

lemma demo_generates:
  "generate_deployment demo_tool_env ''art'' True demo_programs (Some (''kzg'', ''h2'')) demo_elf_disk = (demo_deployment, Ok ())"
  by code_simp

lemma demo_programs_plain: "distinct (map fst demo_programs)" "\<forall>(p, elf) \<in> set demo_programs. plain_name p"
  by code_simp+


text \<open>C31. The verifying key that the manager serves for a program is the one the tools built last for its name: after
  the tools have run over the loadout, \<open>GET /vk/{name}\<close> answers with the serialized key of the last program of that name,
  built from its ELF, and a client that decodes it with the codec of the writer gets this key. The file carries no
  version: of two versions of a program only the one listed last has its key served.\<close>

theorem served_vk_is_last_built:
  assumes files: "faithful_files (te_files env)"
    and programs: "programs = pre @ (p, elf) # post" "\<forall>(q, e) \<in> set programs. plain_name q"
    and lst: "\<forall>(q, e) \<in> set post. pr_name q \<noteq> pr_name p"
    and run: "generate_programs env base with_deferral programs d = (d', Ok ())"
    and served: "as_artifacts_path st = base" "as_disk st = d'" "vk_rel_path (pr_name p) = Some rel"
      "wo_faults wo (Read_File (path_join base rel)) = None"
    and codec: "\<And>vk b. vc_serialize (te_vk_codec env) vk = Inr b \<Longrightarrow> vc_deserialize (te_vk_codec env) b = Inr vk"
  shows "\<exists>vk b. download_vk wo (pr_name p) st = (200, Bytes_Body b) \<and>
    vc_deserialize (te_vk_codec env) b = Inr vk \<and> vk_built env base with_deferral elf vk"
proof -
  obtain vk b where "vc_serialize (te_vk_codec env) vk = Inr b" "map_of d' (vk_path base (pr_name p)) = Some b"
    "vk_built env base with_deferral elf vk"
    using programs_vks [OF files programs(2) [unfolded programs(1)] lst run [unfolded programs(1)]] by blast
  moreover have "download_vk wo (pr_name p) st = (200, Bytes_Body b)" if "map_of d' (vk_path base (pr_name p)) = Some b" for b
    using that served vk_rel_path_join(1) [OF served(3)] by (simp add: download_vk_def read_file_def)
  ultimately show ?thesis using codec by blast
qed

definition demo_vk_state :: app_state where
  "demo_vk_state = (app_new manager_config_example (map fst demo_programs) demo_deployment)\<lparr>as_artifacts_path := ''art''\<rparr>"

definition demo_vk_world :: world where
  "demo_vk_world = fair_world\<lparr>wo_faults := no_io_faults\<rparr>"

definition demo_keys_only :: disk where
  "demo_keys_only = fst (keygen_main demo_tool_env \<lparr>ka_output_dir = ''art'', ka_with_deferral = True\<rparr> demo_elf_disk)"

definition demo_vk_disk :: disk where
  "demo_vk_disk = fst (generate_programs demo_tool_env ''art'' True demo_programs demo_keys_only)"

theorem served_vk_is_last_built_witness:
  "\<exists>b. download_vk demo_vk_world ''fib'' (demo_vk_state\<lparr>as_disk := demo_vk_disk\<rparr>) = (200, Bytes_Body b) \<and>
     vk_built demo_tool_env ''art'' True ''fib2.elf'' b"
proof -
  let ?p = "\<lparr>pr_name = ''fib'', pr_version = 2\<rparr>" and ?st = "demo_vk_state\<lparr>as_disk := demo_vk_disk\<rparr>"
  have shape: "demo_programs = [(\<lparr>pr_name = ''fib'', pr_version = 1\<rparr>, ''fib1.elf'')] @ (?p, ''fib2.elf'') # []"
    by (simp add: demo_programs_def)
  have run: "generate_programs demo_tool_env ''art'' True demo_programs demo_keys_only = (demo_vk_disk, Ok ())"
    by code_simp
  have paths: "as_artifacts_path ?st = ''art''" "as_disk ?st = demo_vk_disk"
    by (simp_all add: demo_vk_state_def)
  have rel: "vk_rel_path (pr_name ?p) = Some ''vk/fib.app_vm_vk.bin''" by code_simp
  have quiet: "wo_faults demo_vk_world (Read_File (path_join ''art'' ''vk/fib.app_vm_vk.bin'')) = None"
    by (simp add: demo_vk_world_def no_io_faults_def)
  have codec: "vc_serialize (te_vk_codec demo_tool_env) vk = Inr b \<Longrightarrow> vc_deserialize (te_vk_codec demo_tool_env) b = Inr vk" for vk b
    by (simp add: demo_tool_env_def with_edge_sdks_def)
  from served_vk_is_last_built [OF demo_files_faithful shape demo_programs_plain(2) _ run paths rel quiet codec]
  obtain vk b where r: "download_vk demo_vk_world (pr_name ?p) ?st = (200, Bytes_Body b)"
    "vc_deserialize (te_vk_codec demo_tool_env) b = Inr vk" "vk_built demo_tool_env ''art'' True ''fib2.elf'' vk" by auto
  moreover have "b = vk" using r(2) by (simp add: demo_tool_env_def with_edge_sdks_def)
  ultimately show ?thesis by auto
qed

end
