(* ===== verification/Fixture_Convert.thy ===== *)
theory Fixture_Convert
  imports Key_Generation Worker_Staging
begin

text \<open>
  The fixture converter, \<open>edge-worker/src/bin/convert_fixtures.rs\<close>: the two encodings of a JSON input, the conversion of
  a directory, key generation next to an executable and the two self tests. The parsers of JSON and hexadecimal text,
  \<open>StdIn\<close> with its \<open>bincode\<close> form, and the provers of the self tests are parameters; the order of a directory listing is
  one too. Progress output is omitted. The property relates the two encodings through the upload handlers of the
  worker.
\<close>

section \<open>File names\<close>

text \<open>\<open>Path::file_name\<close> of a path without trailing slash, and \<open>file_stem\<close> and \<open>extension\<close>: the name is split at its
  last dot unless that dot is its first character.\<close>

definition file_name :: "string \<Rightarrow> string" where
  "file_name path = rev (takeWhile (\<lambda>c. c \<noteq> CHR ''/'') (rev path))"

definition split_file_at_dot :: "string \<Rightarrow> string \<times> string option" where
  "split_file_at_dot f =
     (let ext = rev (takeWhile (\<lambda>c. c \<noteq> CHR ''.'') (rev f)); stem = take (length f - length ext - 1) f in
      if f = ''..'' \<or> CHR ''.'' \<notin> set f \<or> stem = [] then (f, None) else (stem, Some ext))"

section \<open>JSON inputs\<close>

record ('j, 'i) fixture_formats =
  fx_json :: "string \<Rightarrow> string + 'j"
  fx_get :: "string \<Rightarrow> 'j \<Rightarrow> 'j option"
  fx_as_array :: "'j \<Rightarrow> 'j list option"
  fx_as_str :: "'j \<Rightarrow> string option"
  fx_hex_decode :: "string \<Rightarrow> string + bytes"
  fx_stdin_default :: 'i
  fx_write_bytes :: "bytes \<Rightarrow> 'i \<Rightarrow> 'i"
  fx_serialize :: "'i \<Rightarrow> string + bytes"
  fx_deserialize :: "bytes \<Rightarrow> string + 'i"

definition json_input_array ::
  "('j, 'i) fixture_formats \<Rightarrow> io_faults \<Rightarrow> string \<Rightarrow> disk \<Rightarrow> 'j list outcome" where
  "json_input_array fx faults json_path d =
     bind_outcome (map_err (\<lambda>e. ''Failed to read JSON file: '' @ json_path) (fs_read_to_string faults json_path d)) (\<lambda>json_str.
     bind_outcome (wrap_sum ''Failed to parse JSON'' (fx_json fx json_str)) (\<lambda>json.
     bind_outcome (ok_or (fx_get fx ''input'' json) ''JSON missing 'input' field'') (\<lambda>input.
       ok_or (fx_as_array fx input) '''input' field is not an array'')))"

text \<open>The version byte of the reth benchmark format.\<close>

definition strip_version_byte :: "bytes \<Rightarrow> bytes" where
  "strip_version_byte b = (if b \<noteq> [] \<and> hd b = 0x01 \<and> 1 < length b then tl b else b)"

definition element_bytes :: "('j, 'i) fixture_formats \<Rightarrow> nat \<Rightarrow> 'j \<Rightarrow> bytes outcome" where
  "element_bytes fx i item =
     bind_outcome (ok_or (fx_as_str fx item) (''Input element '' @ show_nat i @ '' is not a string'')) (\<lambda>hex_str.
     let hex_str = (case strip_prefix ''0x'' hex_str of Some s \<Rightarrow> s | None \<Rightarrow> hex_str) in
     bind_outcome (wrap_sum (''Failed to decode hex for element '' @ show_nat i) (fx_hex_decode fx hex_str)) (\<lambda>b.
       Ok (strip_version_byte b)))"

fun write_elements :: "('j, 'i) fixture_formats \<Rightarrow> nat \<Rightarrow> 'j list \<Rightarrow> 'i \<Rightarrow> 'i outcome" where
  "write_elements fx i [] stdin = Ok stdin"
| "write_elements fx i (item # items) stdin =
     bind_outcome (element_bytes fx i item) (\<lambda>b. write_elements fx (i + 1) items (fx_write_bytes fx b stdin))"

definition convert_json_to_stdin ::
  "('j, 'i) fixture_formats \<Rightarrow> io_faults \<Rightarrow> string \<Rightarrow> string \<Rightarrow> unit io" where
  "convert_json_to_stdin fx faults json_path output_path =
     bind_io (read_io (json_input_array fx faults json_path)) (\<lambda>input_array.
     bind_io (lift_io (write_elements fx 0 input_array (fx_stdin_default fx))) (\<lambda>stdin.
     bind_io (lift_io (wrap_sum ''Failed to serialize StdIn to bincode'' (fx_serialize fx stdin))) (\<lambda>bincode_bytes.
       context_io (\<lambda>e. ''Failed to write to: '' @ output_path) (write_file faults output_path bincode_bytes))))"

definition convert_json_to_compact ::
  "('j, 'i) fixture_formats \<Rightarrow> io_faults \<Rightarrow> string \<Rightarrow> string \<Rightarrow> unit io" where
  "convert_json_to_compact fx faults json_path output_path =
     bind_io (read_io (json_input_array fx faults json_path)) (\<lambda>input_array.
     if length input_array \<noteq> 1 then
       lift_io (Err (''compact conversion supports exactly one input element, found '' @ show_nat (length input_array) @
         '' (use json-to-stdin for multi-element inputs)''))
     else
       bind_io (lift_io (element_bytes fx 0 (input_array ! 0))) (\<lambda>data_bytes.
         context_io (\<lambda>e. ''Failed to write to: '' @ output_path) (write_file faults output_path data_bytes)))"

text \<open>The serializer that the worker applies to a compact upload: the \<open>CompactBytes\<close> branch of
  \<open>prepare_uploaded_input_bytes\<close>.\<close>

definition serialize_compact_stdin :: "('j, 'i) fixture_formats \<Rightarrow> bytes \<Rightarrow> bytes outcome" where
  "serialize_compact_stdin fx input_data =
     (case fx_serialize fx (fx_write_bytes fx input_data (fx_stdin_default fx)) of Inl e \<Rightarrow> Err e | Inr b \<Rightarrow> Ok b)"

section \<open>The other commands\<close>

text \<open>\<open>read_dir\<close>: the paths of the entries, with an error for an entry that cannot be read.\<close>

type_synonym dir_listing = "string \<Rightarrow> disk \<Rightarrow> string outcome list outcome"

definition convert_entry ::
  "('j, 'i) fixture_formats \<Rightarrow> io_faults \<Rightarrow> string \<Rightarrow> string \<Rightarrow> unit io" where
  "convert_entry fx faults output_dir path =
     (case split_file_at_dot (file_name path) of
        (stem, ext) \<Rightarrow>
          if ext = Some ''json'' then convert_json_to_stdin fx faults path (path_join output_dir (stem @ ''.bin''))
          else lift_io (Ok ()))"

fun convert_entries ::
  "('j, 'i) fixture_formats \<Rightarrow> io_faults \<Rightarrow> string \<Rightarrow> string outcome list \<Rightarrow> unit io" where
  "convert_entries fx faults output_dir [] = lift_io (Ok ())"
| "convert_entries fx faults output_dir (entry # entries) =
     bind_io (lift_io entry) (\<lambda>path. bind_io (convert_entry fx faults output_dir path) (\<lambda>_.
       convert_entries fx faults output_dir entries))"

definition exists_io :: "io_faults \<Rightarrow> string \<Rightarrow> bool io" where
  "exists_io faults path = read_io (\<lambda>d. Ok (path_exists faults path d = Ok True))"

definition convert_all ::
  "('s, 'k, 'd, 'x, 'v, 'b, 'r) tool_env \<Rightarrow> ('j, 'i) fixture_formats \<Rightarrow> dir_listing \<Rightarrow> string \<Rightarrow> string \<Rightarrow> unit io" where
  "convert_all env fx read_dir fixtures_dir output_dir =
     bind_io (lift_io (create_dir_all (te_faults env) output_dir)) (\<lambda>_.
     let elf_path = path_join fixtures_dir ''openvm-client-eth.elf'' in
     bind_io (exists_io (te_faults env) elf_path) (\<lambda>elf_exists.
     bind_io (if elf_exists then convert_elf_to_vmexe env elf_path (path_join output_dir ''program.vmexe'') None
              else lift_io (Ok ())) (\<lambda>_.
     bind_io (read_io (read_dir fixtures_dir)) (\<lambda>entries.
     bind_io (convert_entries fx (te_faults env) output_dir entries) (\<lambda>_.
     let json_path = path_join fixtures_dir ''24000481.json''; input_output = path_join output_dir ''input.bin'' in
     bind_io (exists_io (te_faults env) json_path) (\<lambda>json_exists.
     bind_io (if json_exists then exists_io (te_faults env) input_output else lift_io (Ok True)) (\<lambda>done_already.
     if done_already then lift_io (Ok ())
     else convert_json_to_stdin fx (te_faults env) json_path input_output)))))))"

definition fixture_keygen ::
  "('s, 'k, 'd, 'x, 'v, 'b, 'r) tool_env \<Rightarrow> string \<Rightarrow> string \<Rightarrow> unit io" where
  "fixture_keygen env elf_path output_dir =
     bind_io (lift_io (create_dir_all (te_faults env) output_dir)) (\<lambda>_.
     bind_io (context_io (\<lambda>e. ''Failed to read ELF file: '' @ elf_path) (read_io (fs_read (te_faults env) elf_path))) (\<lambda>elf_bytes.
     bind_io (read_io (te_create_sdk env)) (\<lambda>sdk.
     bind_io (lift_io (wrap_sum ''Failed to convert ELF to VmExe'' (sk_convert_to_exe (te_sdk env) sdk elf_bytes))) (\<lambda>exe.
     bind_io (context_io (\<lambda>e. ''Failed to write program.vmexe'')
       (of_write_exe (te_files env) (path_join output_dir ''program.vmexe'') exe)) (\<lambda>_.
     let (sdk, app_pk) = sk_app_keygen (te_sdk env) sdk in
     bind_io (context_io (\<lambda>e. ''Failed to write app_pk'')
       (of_write_key (te_files env) (path_join output_dir ''app_pk'') app_pk)) (\<lambda>_.
     let (sdk, agg_pk) = sk_agg_pk (te_sdk env) sdk in
     context_io (\<lambda>e. ''Failed to write agg_stark_pk'')
       (of_write_agg_key (te_files env) (path_join output_dir ''agg_stark_pk'') agg_pk)))))))"

text \<open>The provers of the self tests: \<open>'a\<close> is the application key, \<open>'g\<close> the aggregation prover, \<open>'t\<close> the STARK prover, \<open>'p\<close> a
  proof and \<open>'w\<close> the aggregation verifying key.\<close>

record ('s, 'k, 'x, 'i, 'b, 'a, 'g, 't, 'p, 'w) self_test =
  tt_prove :: "'s \<Rightarrow> 'x \<Rightarrow> 'i \<Rightarrow> string + 'p \<times> 'b"
  tt_agg_vk :: "'s \<Rightarrow> 'w"
  tt_verify_proof :: "'w \<Rightarrow> 'b \<Rightarrow> 'p \<Rightarrow> string + unit"
  tt_app_vk :: "'k \<Rightarrow> 'a"
  tt_agg_prover :: "'a \<Rightarrow> 'k agg_proving_key \<Rightarrow> 'g"
  tt_sdk_from_app_pk :: "'k \<Rightarrow> 's outcome"
  tt_stark_prover :: "'s \<Rightarrow> 'x \<Rightarrow> 'g \<Rightarrow> 't outcome"
  tt_stark_prove :: "'t \<Rightarrow> 'i \<Rightarrow> string + 'p"
  tt_generate_baseline :: "'t \<Rightarrow> 'b"

definition read_stdin :: "('j, 'i) fixture_formats \<Rightarrow> io_faults \<Rightarrow> string \<Rightarrow> 'i io" where
  "read_stdin fx faults input_path =
     bind_io (context_io (\<lambda>e. ''Failed to read input file: '' @ input_path) (read_io (fs_read faults input_path))) (\<lambda>b.
       lift_io (wrap_sum ''Failed to deserialize StdIn from bincode'' (fx_deserialize fx b)))"

definition test_pipeline ::
  "('s, 'k, 'd, 'x, 'v, 'b, 'r) tool_env \<Rightarrow> ('j, 'i) fixture_formats \<Rightarrow> ('s, 'k, 'x, 'i, 'b, 'a, 'g, 't, 'p, 'w) self_test \<Rightarrow>
     string \<Rightarrow> string \<Rightarrow> unit io" where
  "test_pipeline env fx tt elf_path input_path =
     bind_io (context_io (\<lambda>e. ''Failed to read ELF file: '' @ elf_path) (read_io (fs_read (te_faults env) elf_path))) (\<lambda>elf_bytes.
     bind_io (read_stdin fx (te_faults env) input_path) (\<lambda>stdin.
     bind_io (read_io (te_create_sdk env)) (\<lambda>sdk.
     bind_io (lift_io (wrap_sum ''Failed to convert ELF to VmExe'' (sk_convert_to_exe (te_sdk env) sdk elf_bytes))) (\<lambda>exe.
     bind_io (lift_io (wrap_sum ''SDK prove failed'' (tt_prove tt sdk exe stdin))) (\<lambda>(proof, baseline).
       lift_io (wrap_sum ''Proof verification failed'' (tt_verify_proof tt (tt_agg_vk tt sdk) baseline proof)))))))"

definition test_with_keys ::
  "('s, 'k, 'd, 'x, 'v, 'b, 'r) tool_env \<Rightarrow> ('j, 'i) fixture_formats \<Rightarrow> ('s, 'k, 'x, 'i, 'b, 'a, 'g, 't, 'p, 'w) self_test \<Rightarrow>
     string \<Rightarrow> string \<Rightarrow> unit io" where
  "test_with_keys env fx tt input_path artifacts_dir =
     bind_io (read_io (of_read_key (te_files env) (path_join artifacts_dir ''app_pk''))) (\<lambda>app_pk.
     bind_io (read_io (of_read_agg_key (te_files env) (path_join artifacts_dir ''agg_stark_pk''))) (\<lambda>agg_pk.
     bind_io (read_io (of_read_exe (te_files env) (path_join artifacts_dir ''program.vmexe''))) (\<lambda>exe.
     bind_io (read_stdin fx (te_faults env) input_path) (\<lambda>stdin.
     let agg_prover = tt_agg_prover tt (tt_app_vk tt app_pk) agg_pk in
     bind_io (lift_io (tt_sdk_from_app_pk tt app_pk)) (\<lambda>sdk.
     bind_io (lift_io (tt_stark_prover tt sdk exe agg_prover)) (\<lambda>stark_prover.
     bind_io (lift_io (wrap_sum ''Prove with loaded keys failed'' (tt_stark_prove tt stark_prover stdin))) (\<lambda>proof.
       lift_io (wrap_sum ''Proof verification failed''
         (tt_verify_proof tt (tt_agg_vk tt sdk) (tt_generate_baseline tt stark_prover) proof)))))))))"

datatype fixture_command =
  ElfToVmexe string string "string option"
| JsonToStdin string string
| JsonToCompact string string
| All_Fixtures string string
| Keygen string string
| TestPipeline string string
| TestWithKeys string string string

definition run_fixture_command ::
  "('s, 'k, 'd, 'x, 'v, 'b, 'r) tool_env \<Rightarrow> ('j, 'i) fixture_formats \<Rightarrow> ('s, 'k, 'x, 'i, 'b, 'a, 'g, 't, 'p, 'w) self_test \<Rightarrow>
     dir_listing \<Rightarrow> fixture_command \<Rightarrow> unit io" where
  "run_fixture_command env fx tt read_dir command =
     (case command of
        ElfToVmexe elf out deferral_cached_pk \<Rightarrow> convert_elf_to_vmexe env elf out deferral_cached_pk
      | JsonToStdin json out \<Rightarrow> convert_json_to_stdin fx (te_faults env) json out
      | JsonToCompact json out \<Rightarrow> convert_json_to_compact fx (te_faults env) json out
      | All_Fixtures fixtures_dir output_dir \<Rightarrow> convert_all env fx read_dir fixtures_dir output_dir
      | Keygen elf output_dir \<Rightarrow> fixture_keygen env elf output_dir
      | TestPipeline elf input \<Rightarrow> test_pipeline env fx tt elf input
      | TestWithKeys elf input artifacts_dir \<Rightarrow> test_with_keys env fx tt input artifacts_dir)"

section \<open>Lemmas\<close>

lemma write_file_quiet: "faults (Write_File path) = None \<Longrightarrow> write_file faults path b d = (AList.update path b d, Ok ())"
  by (simp add: write_file_def)

lemma write_file_Ok: "write_file faults path b d = (d', Ok ()) \<Longrightarrow> map_of d' path = Some b"
  by (auto simp: write_file_def split: option.splits)

lemma compact_upload:
  assumes "fx_serialize fx (fx_write_bytes fx raw (fx_stdin_default fx)) = Inr wrapped"
  shows "handle_upload_input env (serialize_compact_stdin fx) u raw CompactBytes st =
     handle_upload_input env (serialize_compact_stdin fx) u wrapped BincodeStdin st"
proof -
  have "prepare_uploaded_input_bytes (serialize_compact_stdin fx) CompactBytes raw =
      prepare_uploaded_input_bytes (serialize_compact_stdin fx) BincodeStdin wrapped"
    using assms by (simp add: prepare_uploaded_input_bytes_def serialize_compact_stdin_def)
  then show ?thesis by (simp only: handle_upload_input_def)
qed

section \<open>Properties\<close>

text \<open>C20. The two encodings of an input are equivalent for the worker: if \<open>json-to-stdin\<close> converts a JSON input, then, on a
  writable output path, \<open>json-to-compact\<close> succeeds exactly when the input has one element; the compact file, uploaded
  through \<open>/upload_input_compact\<close>, then gives the same response and the same staged files as the \<open>StdIn\<close> file uploaded
  through \<open>/upload_input\<close>, for every proof and every state of the worker's disk; and an input with another number of
  elements is refused without a write.\<close>

theorem compact_upload_equivalent:
  assumes stdin: "convert_json_to_stdin fx faults json_path stdin_path d = (d1, Ok ())"
    and elements: "json_input_array fx faults json_path d = Ok elements"
    and writable: "faults (Write_File compact_path) = None"
  shows "if length elements = 1 then
      (\<exists>d2 raw wrapped. convert_json_to_compact fx faults json_path compact_path d = (d2, Ok ()) \<and>
         map_of d2 compact_path = Some raw \<and> map_of d1 stdin_path = Some wrapped \<and>
         (\<forall>env u st. handle_upload_input env (serialize_compact_stdin fx) u raw CompactBytes st =
            handle_upload_input env (serialize_compact_stdin fx) u wrapped BincodeStdin st))
    else (\<exists>e. convert_json_to_compact fx faults json_path compact_path d = (d, Err e))"
proof (cases "length elements = 1")
  case True
  then obtain item where item: "elements = [item]" by (cases elements) auto
  obtain raw wrapped where raw: "element_bytes fx 0 item = Ok raw"
    and wrapped: "fx_serialize fx (fx_write_bytes fx raw (fx_stdin_default fx)) = Inr wrapped"
    and written: "write_file faults stdin_path wrapped d = (d1, Ok ())"
    using stdin by (auto simp: convert_json_to_stdin_def elements item bind_outcome_Ok_iff)
  have "convert_json_to_compact fx faults json_path compact_path d = (AList.update compact_path raw d, Ok ())"
    by (simp add: convert_json_to_compact_def bind_io_def read_io_def lift_io_def context_io_def elements item raw
        write_file_quiet [of faults, OF writable] map_err_def)
  moreover have "map_of (AList.update compact_path raw d) compact_path = Some raw" by simp
  ultimately show ?thesis
    unfolding if_P [OF True] using write_file_Ok [OF written] compact_upload [of fx, OF wrapped] by blast
next
  case False
  then show ?thesis
    by (simp add: convert_json_to_compact_def bind_io_def read_io_def lift_io_def elements)
qed

text \<open>A JSON file is the text of one hexadecimal string; a \<open>StdIn\<close> is its list of byte strings, written with a length in
  front of each.\<close>

definition demo_formats :: "(string, bytes list) fixture_formats" where
  "demo_formats =
     \<lparr>fx_json = Inr, fx_get = (\<lambda>k j. if k = ''input'' then Some j else None), fx_as_array = (\<lambda>j. Some [j]),
      fx_as_str = Some, fx_hex_decode = (\<lambda>s. Inr (map (\<lambda>c. word_of_nat (of_char c)) s)),
      fx_stdin_default = [], fx_write_bytes = (\<lambda>b i. i @ [b]),
      fx_serialize = (\<lambda>i. Inr (concat (map (\<lambda>b. word_of_nat (length b) # b) i))), fx_deserialize = (\<lambda>b. Inr [b])\<rparr>"

definition demo_json_disk :: disk where
  "demo_json_disk = [(''in.json'', [48, 120, 1, 65, 66])]"

theorem compact_upload_equivalent_witness:
  "\<exists>raw wrapped. raw \<noteq> wrapped \<and>
     convert_json_to_compact demo_formats (\<lambda>_. None) ''in.json'' ''in.raw'' demo_json_disk =
       (AList.update ''in.raw'' raw demo_json_disk, Ok ()) \<and>
     (\<forall>env u st. handle_upload_input env (serialize_compact_stdin demo_formats) u raw CompactBytes st =
        handle_upload_input env (serialize_compact_stdin demo_formats) u wrapped BincodeStdin st)"
proof -
  let ?d1 = "AList.update ''in.bin'' [2, 65, 66] demo_json_disk" and ?d2 = "AList.update ''in.raw'' [65, 66] demo_json_disk"
  have "convert_json_to_stdin demo_formats (\<lambda>_. None) ''in.json'' ''in.bin'' demo_json_disk = (?d1, Ok ())"
    and compact: "convert_json_to_compact demo_formats (\<lambda>_. None) ''in.json'' ''in.raw'' demo_json_disk = (?d2, Ok ())"
    and "json_input_array demo_formats (\<lambda>_. None) ''in.json'' demo_json_disk = Ok [map char_of [48, 120, 1, 65, 66 :: nat]]"
    by code_simp+
  from compact_upload_equivalent [OF this(1,3), of "''in.raw''"] compact
  have "\<forall>env u st. handle_upload_input env (serialize_compact_stdin demo_formats) u [65, 66] CompactBytes st =
      handle_upload_input env (serialize_compact_stdin demo_formats) u [2, 65, 66] BincodeStdin st"
    by auto
  with compact show ?thesis by (intro exI [of _ "[65, 66]"] exI [of _ "[2, 65, 66]"]) simp
qed

end
