(* ===== verification/Metrics_Report.thy ===== *)
theory Metrics_Report
  imports Manager_Proofs
begin

text \<open>
  The completion report and the completion gauges of a proof, \<open>edge-manager/src/proof_state/metrics_report.rs\<close>, and the
  recorder of \<open>otel_metrics.rs\<close> that takes the gauges. Numbers of type \<open>f64\<close> are bit patterns; their arithmetic and
  their decimal form are the fields of the record \<open>f64_ops\<close>. Properties: the report counts every proof in exactly one
  group and never panics, and no gauge of a proof overwrites another.
\<close>

section \<open>Numbers and names\<close>

record f64_ops =
  fl_of_nat :: "nat \<Rightarrow> f64_bits"
  fl_add :: "f64_bits \<Rightarrow> f64_bits \<Rightarrow> f64_bits"
  fl_sum :: "f64_bits list \<Rightarrow> f64_bits"
  fl_div :: "f64_bits \<Rightarrow> f64_bits \<Rightarrow> f64_bits"
  fl_neg :: "f64_bits \<Rightarrow> f64_bits"
  fl_max :: "f64_bits \<Rightarrow> f64_bits \<Rightarrow> f64_bits"
  fl_min :: "f64_bits \<Rightarrow> f64_bits \<Rightarrow> f64_bits"
  fl_less :: "f64_bits \<Rightarrow> f64_bits \<Rightarrow> bool"
  fl_as_u64 :: "f64_bits \<Rightarrow> nat"
  fl_fixed :: "nat \<Rightarrow> f64_bits \<Rightarrow> string"

definition f64_zero :: f64_bits where
  "f64_zero = 0"

definition f64_greatest :: f64_bits where
  "f64_greatest = 0x7FEFFFFFFFFFFFFF"

text \<open>The reversed digits with a comma before every third one but the first.\<close>

fun commas_from :: "nat \<Rightarrow> string \<Rightarrow> string" where
  "commas_from i [] = []"
| "commas_from i (c # cs) = (if 0 < i \<and> i mod 3 = 0 then [CHR '','', c] else [c]) @ commas_from (i + 1) cs"

definition format_with_commas :: "nat \<Rightarrow> string" where
  "format_with_commas n = rev (commas_from 0 (rev (show_nat n)))"

definition metric_char :: "char \<Rightarrow> bool" where
  "metric_char c \<longleftrightarrow> is_ascii_alphanumeric c \<or> c = CHR ''_'' \<or> c = CHR ''.'' \<or> c = CHR ''-'' \<or> c = CHR ''/''"

definition sanitize_metric_key :: "string \<Rightarrow> string" where
  "sanitize_metric_key key = map (\<lambda>c. if metric_char c then c else CHR ''_'') key"

text \<open>The widths of \<open>format!\<close>.\<close>

definition pad_left :: "nat \<Rightarrow> string \<Rightarrow> string" where
  "pad_left w s = replicate (w - length s) (CHR '' '') @ s"

definition pad_right :: "nat \<Rightarrow> string \<Rightarrow> string" where
  "pad_right w s = s @ replicate (w - length s) (CHR '' '')"

section \<open>Groups\<close>

record group_stats =
  gs_name :: string
  gs_total_proof_time_ms :: "nat list"
  gs_fastfwd_time_ms :: "nat list"
  gs_stark_prove_time_ms :: "nat list"
  gs_sub_metrics :: "(string, f64_bits list) hmap"

definition group_sum :: "group_stats \<Rightarrow> nat" where
  "group_sum g = sum_list (gs_total_proof_time_ms g)"

text \<open>\<open>iter().copied().max().unwrap_or(0)\<close> and \<open>min\<close>.\<close>

definition max_or_zero :: "nat list \<Rightarrow> nat" where
  "max_or_zero xs = (if xs = [] then 0 else Max (set xs))"

definition min_or_zero :: "nat list \<Rightarrow> nat" where
  "min_or_zero xs = (if xs = [] then 0 else Min (set xs))"

definition group_max :: "group_stats \<Rightarrow> nat" where
  "group_max g = max_or_zero (gs_total_proof_time_ms g)"

text \<open>\<open>entry(key).or_default().push(val)\<close>.\<close>

definition push_entry :: "'k \<Rightarrow> 'v \<Rightarrow> ('k, 'v list) hmap \<Rightarrow> ('k, 'v list) hmap" where
  "push_entry k v m = AList.update k ((case map_of m k of Some vs \<Rightarrow> vs | None \<Rightarrow> []) @ [v]) m"

definition push_metrics :: "(string, f64_bits) hmap \<Rightarrow> (string, f64_bits list) hmap \<Rightarrow> (string, f64_bits list) hmap" where
  "push_metrics sub_metrics m = foldl (\<lambda>m (key, val). push_entry key val m) m sub_metrics"

definition collect_metrics :: "(string, f64_bits) hmap list \<Rightarrow> (string, f64_bits list) hmap" where
  "collect_metrics sub_metrics = foldl (\<lambda>m s. push_metrics s m) [] sub_metrics"

definition app_group :: "proof_state \<Rightarrow> group_stats list" where
  "app_group s =
     (let states = map snd (ps_app_proofs s) in
      if ps_app_proofs s = [] then []
      else [\<lparr>gs_name = ''app_prove'', gs_total_proof_time_ms = map aps_prove_time_ms states,
             gs_fastfwd_time_ms = map aps_fastfwd_time_ms states, gs_stark_prove_time_ms = map aps_stark_prove_time_ms states,
             gs_sub_metrics = collect_metrics (map aps_sub_metrics states)\<rparr>])"

definition leaf_group :: "proof_state \<Rightarrow> group_stats list" where
  "leaf_group s =
     (let states = map snd (ps_leaf_proofs s) in
      if ps_leaf_proofs s = [] then []
      else [\<lparr>gs_name = ''leaf_prove'', gs_total_proof_time_ms = map lps_prove_time_ms states,
             gs_fastfwd_time_ms = [], gs_stark_prove_time_ms = [],
             gs_sub_metrics = collect_metrics (map lps_sub_metrics states)\<rparr>])"

text \<open>The two maps by layer.\<close>

definition add_to_layers ::
  "internal_proof_index \<times> internal_proof_state \<Rightarrow> (nat, nat list) hmap \<times> (nat, (string, f64_bits list) hmap) hmap \<Rightarrow>
     (nat, nat list) hmap \<times> (nat, (string, f64_bits list) hmap) hmap" where
  "add_to_layers = (\<lambda>(idx, state) (layers, layer_sub_metrics).
     (push_entry (ipi_layer_idx idx) (ips_prove_time_ms state) layers,
      AList.update (ipi_layer_idx idx)
        (push_metrics (ips_sub_metrics state)
          (case map_of layer_sub_metrics (ipi_layer_idx idx) of Some sm \<Rightarrow> sm | None \<Rightarrow> [])) layer_sub_metrics))"

fun layer_groups ::
  "nat list \<Rightarrow> (nat, nat list) hmap \<Rightarrow> (nat, (string, f64_bits list) hmap) hmap \<Rightarrow> group_stats list outcome" where
  "layer_groups [] layers layer_sub_metrics = Ok []"
| "layer_groups (layer_idx # layer_keys) layers layer_sub_metrics =
     (case map_of layers layer_idx of
        None \<Rightarrow> Panic ''called `Option::unwrap()` on a `None` value''
      | Some prove_ms \<Rightarrow>
          bind_outcome (layer_groups layer_keys (AList.delete layer_idx layers) (AList.delete layer_idx layer_sub_metrics)) (\<lambda>gs.
            Ok (\<lparr>gs_name = ''internal.'' @ show_nat layer_idx, gs_total_proof_time_ms = prove_ms,
                 gs_fastfwd_time_ms = [], gs_stark_prove_time_ms = [],
                 gs_sub_metrics = (case map_of layer_sub_metrics layer_idx of Some sm \<Rightarrow> sm | None \<Rightarrow> [])\<rparr> # gs)))"

definition internal_groups :: "proof_state \<Rightarrow> group_stats list outcome" where
  "internal_groups s =
     (case fold add_to_layers (ps_internal_proofs s) ([], []) of
        (layers, layer_sub_metrics) \<Rightarrow> layer_groups (sort (map fst layers)) layers layer_sub_metrics)"

definition report_groups :: "proof_state \<Rightarrow> group_stats list outcome" where
  "report_groups s = bind_outcome (internal_groups s) (\<lambda>gs. Ok (app_group s @ leaf_group s @ gs))"

definition compression_ms :: "proof_state \<Rightarrow> nat" where
  "compression_ms s = sum_list (map (ips_compression_time_ms \<circ> snd) (ps_internal_proofs s))"

section \<open>The report\<close>

definition newline :: string where
  "newline = [char_of (10 :: nat)]"

text \<open>A row of the tables: the cells between bars.\<close>

definition row :: "string list \<Rightarrow> string" where
  "row cells = ''|'' @ concat (map (\<lambda>c. '' '' @ c @ '' |'') cells) @ newline"

definition seconds :: "f64_ops \<Rightarrow> f64_bits \<Rightarrow> string" where
  "seconds fl ms = fl_fixed fl 2 (fl_div fl ms (fl_of_nat fl 1000))"

definition realized_time :: "f64_ops \<Rightarrow> nat \<Rightarrow> group_stats \<Rightarrow> f64_bits" where
  "realized_time fl n g = fl_div fl (fl_of_nat fl (group_sum g)) (fl_of_nat fl n)"

definition summary_table :: "f64_ops \<Rightarrow> nat \<Rightarrow> nat \<Rightarrow> group_stats list \<Rightarrow> string" where
  "summary_table fl num_workers compression groups =
     (let n = max num_workers 1;
          total_sum = sum_list (map group_sum groups) + compression;
          total_parallel = sum_list (map group_max groups) + compression;
          total_realized = fl_add fl (fl_sum fl (map (realized_time fl n) groups)) (fl_of_nat fl compression) in
      row [''Summary'', ''Total Time (s)'', ''Parallel Proof Time (s)'', ''Realized Time ('' @ show_nat n @ '' GPU) (s)''] @
      ''|:---|---:|---:|---:|'' @ newline @
      row [''Total'', seconds fl (fl_of_nat fl total_sum), seconds fl (fl_of_nat fl total_parallel), seconds fl total_realized] @
      concat (map (\<lambda>g. row [gs_name g, seconds fl (fl_of_nat fl (group_sum g)), seconds fl (fl_of_nat fl (group_max g)),
        seconds fl (realized_time fl n g)]) groups) @
      (if 0 < compression then
         row [''compression'', seconds fl (fl_of_nat fl compression), seconds fl (fl_of_nat fl compression),
           seconds fl (fl_of_nat fl compression)]
       else []) @ newline)"

text \<open>One metric of the detail table: average, sum, maximum, minimum.\<close>

definition detail_row :: "f64_ops \<Rightarrow> string \<Rightarrow> nat \<Rightarrow> nat list \<Rightarrow> string" where
  "detail_row fl title group_size values_ms =
     (let total_ms = sum_list values_ms;
          avg = (if 0 < group_size then fl_div fl (fl_of_nat fl total_ms) (fl_of_nat fl group_size) else f64_zero) in
      row [''`'' @ title @ ''`'', fl_fixed fl 0 avg, pad_left 7 (format_with_commas total_ms),
        pad_left 5 (show_nat (max_or_zero values_ms)), pad_left 5 (show_nat (min_or_zero values_ms))])"

text \<open>\<open>sort_by\<close>, descending in the sums; values that do not compare are equal.\<close>

fun insert_metric ::
  "f64_ops \<Rightarrow> string \<times> f64_bits list \<Rightarrow> (string \<times> f64_bits list) list \<Rightarrow> (string \<times> f64_bits list) list" where
  "insert_metric fl m [] = [m]"
| "insert_metric fl m (x # xs) =
     (if fl_less fl (fl_sum fl (snd m)) (fl_sum fl (snd x)) then x # insert_metric fl m xs else m # x # xs)"

definition sorted_metrics :: "f64_ops \<Rightarrow> (string, f64_bits list) hmap \<Rightarrow> (string \<times> f64_bits list) list" where
  "sorted_metrics fl m = foldr (insert_metric fl) m []"

definition metric_row :: "f64_ops \<Rightarrow> string \<times> f64_bits list \<Rightarrow> string" where
  "metric_row fl m =
     (case m of (metric_name, values) \<Rightarrow>
       let sm_sum = fl_sum fl values;
           sm_max = foldl (fl_max fl) f64_zero values;
           sm_min = foldl (fl_min fl) f64_greatest values;
           sm_avg = (if values \<noteq> [] then fl_div fl sm_sum (fl_of_nat fl (length values)) else f64_zero) in
       row [''`'' @ pad_right 25 metric_name @ ''`'', fl_fixed fl 0 sm_avg,
         pad_left 7 (format_with_commas (fl_as_u64 fl sm_sum)),
         pad_left 5 (show_nat (fl_as_u64 fl sm_max)), pad_left 5 (show_nat (fl_as_u64 fl sm_min))])"

definition group_table :: "f64_ops \<Rightarrow> group_stats \<Rightarrow> string" where
  "group_table fl g =
     (let group_size = length (gs_total_proof_time_ms g) in
      ''| '' @ gs_name g @ '' |||||'' @ newline @ ''|:---|---:|---:|---:|---:|'' @ newline @
      ''|metric|avg|sum|max|min|'' @ newline @
      detail_row fl ''total_proof_time_ms '' group_size (gs_total_proof_time_ms g) @
      (if gs_fastfwd_time_ms g \<noteq> [] then detail_row fl ''fastfwd_time_ms     '' group_size (gs_fastfwd_time_ms g) else []) @
      (if gs_stark_prove_time_ms g \<noteq> [] then detail_row fl ''stark_prove_time_ms '' group_size (gs_stark_prove_time_ms g)
       else []) @
      concat (map (metric_row fl) (sorted_metrics fl (gs_sub_metrics g))) @ newline)"

definition generate_metrics_report :: "f64_ops \<Rightarrow> proof_state \<Rightarrow> string outcome" where
  "generate_metrics_report fl s =
     bind_outcome (report_groups s) (\<lambda>groups.
       Ok (summary_table fl (ps_num_workers s) (compression_ms s) groups @ concat (map (group_table fl) groups)))"

section \<open>The gauges\<close>

record gauge =
  gu_name :: string
  gu_labels :: "(string \<times> string) list"
  gu_value :: f64_bits

definition core_labels :: "proof_state \<Rightarrow> (string \<times> string) list" where
  "core_labels s =
     [(''program_name'', pr_name (pc_program (ps_context s))),
      (''program_version'', show_nat (pr_version (pc_program (ps_context s)))),
      (''proof_uuid'', pc_proof_uuid (ps_context s))]"

definition proof_metric_labels :: "proof_state \<Rightarrow> (string \<times> string) list" where
  "proof_metric_labels s = core_labels s @ pc_labels (ps_context s)"

definition proof_gauge :: "f64_ops \<Rightarrow> proof_state \<Rightarrow> string \<Rightarrow> nat \<Rightarrow> gauge" where
  "proof_gauge fl s name v = \<lparr>gu_name = name, gu_labels = proof_metric_labels s, gu_value = fl_of_nat fl v\<rparr>"

definition sub_metric_gauges ::
  "string \<Rightarrow> (string \<times> string) list \<Rightarrow> (string, f64_bits) hmap \<Rightarrow> gauge list" where
  "sub_metric_gauges prefix labels sub_metrics =
     map (\<lambda>(key, val). \<lparr>gu_name = prefix @ sanitize_metric_key key, gu_labels = labels, gu_value = val\<rparr>) sub_metrics"

definition app_gauges :: "f64_ops \<Rightarrow> proof_state \<Rightarrow> nat \<times> app_proof_state \<Rightarrow> gauge list" where
  "app_gauges fl s = (\<lambda>(idx, app_state).
     let labels = core_labels s @ [(''segment_idx'', show_nat idx)];
         segment_gauge = (\<lambda>name v. \<lparr>gu_name = name, gu_labels = labels, gu_value = fl_of_nat fl v\<rparr>) in
     [segment_gauge ''edge_app_prove_time_ms'' (aps_prove_time_ms app_state),
      segment_gauge ''edge_segment_fastfwd_time_ms'' (aps_fastfwd_time_ms app_state),
      segment_gauge ''edge_segment_stark_prove_time_ms'' (aps_stark_prove_time_ms app_state)] @
     sub_metric_gauges ''edge_app_'' labels (aps_sub_metrics app_state))"

definition leaf_gauges :: "proof_state \<Rightarrow> nat \<times> leaf_proof_state \<Rightarrow> gauge list" where
  "leaf_gauges s = (\<lambda>(idx, leaf_state).
     sub_metric_gauges ''edge_leaf_'' (core_labels s @ [(''batch_idx'', show_nat idx)]) (lps_sub_metrics leaf_state))"

definition internal_gauges :: "proof_state \<Rightarrow> internal_proof_index \<times> internal_proof_state \<Rightarrow> gauge list" where
  "internal_gauges s = (\<lambda>(idx, internal_state).
     sub_metric_gauges ''edge_internal_''
       (core_labels s @ [(''layer_idx'', show_nat (ipi_layer_idx idx)), (''node_idx'', show_nat (ipi_idx idx))])
       (ips_sub_metrics internal_state))"

definition evm_gauges :: "f64_ops \<Rightarrow> proof_state \<Rightarrow> evm_proof_state \<Rightarrow> gauge list" where
  "evm_gauges fl s evm_state =
     [proof_gauge fl s ''edge_halo2_prove_time_ms'' (eps_prove_time_ms evm_state),
      proof_gauge fl s ''edge_root_prove_time_ms'' (eps_root_prove_time_ms evm_state),
      proof_gauge fl s ''edge_evm_total_prove_ms'' (eps_prove_time_ms evm_state + eps_root_prove_time_ms evm_state)] @
     sub_metric_gauges ''edge_evm_'' (core_labels s) (eps_sub_metrics evm_state)"

definition wallclock_ms :: "instant option \<Rightarrow> instant option \<Rightarrow> nat" where
  "wallclock_ms started ended =
     (case (started, ended) of (Some a, Some b) \<Rightarrow> nat (max (num_milliseconds (b - a)) 0) | _ \<Rightarrow> 0)"

definition status_value :: "f64_ops \<Rightarrow> proof_status \<Rightarrow> f64_bits" where
  "status_value fl status =
     (case status of Completed \<Rightarrow> fl_of_nat fl 1 | Failed _ \<Rightarrow> fl_neg fl (fl_of_nat fl 1) | _ \<Rightarrow> f64_zero)"

definition option_gauge :: "f64_ops \<Rightarrow> proof_state \<Rightarrow> string \<Rightarrow> nat option \<Rightarrow> gauge list" where
  "option_gauge fl s name v = (case v of Some ms \<Rightarrow> [proof_gauge fl s name ms] | None \<Rightarrow> [])"

definition emit_completion_metrics :: "f64_ops \<Rightarrow> proof_state \<Rightarrow> gauge list" where
  "emit_completion_metrics fl s =
     option_gauge fl s ''edge_e2e_latency_ms'' (ps_e2e_latency_ms s) @
     option_gauge fl s ''edge_proving_latency_ms'' (ps_proving_latency_ms s) @
     (case ps_execute_e2_state s of
        Some e2_state \<Rightarrow>
          [proof_gauge fl s ''edge_execute_time_ms'' (e2_execute_time_ms e2_state),
           proof_gauge fl s ''edge_num_segments'' (e2_num_segments e2_state),
           proof_gauge fl s ''edge_cost'' (e2_cost e2_state)]
      | None \<Rightarrow> []) @
     concat (map (app_gauges fl s) (ps_app_proofs s)) @
     [proof_gauge fl s ''edge_total_app_prove_ms'' (sum_list (map (aps_prove_time_ms \<circ> snd) (ps_app_proofs s)))] @
     concat (map (leaf_gauges s) (ps_leaf_proofs s)) @
     [proof_gauge fl s ''edge_total_leaf_prove_ms'' (sum_list (map (lps_prove_time_ms \<circ> snd) (ps_leaf_proofs s)))] @
     concat (map (internal_gauges s) (ps_internal_proofs s)) @
     [proof_gauge fl s ''edge_total_internal_prove_ms'' (sum_list (map (ips_prove_time_ms \<circ> snd) (ps_internal_proofs s))),
      proof_gauge fl s ''edge_compression_time_ms'' (compression_ms s)] @
     (case ps_evm_proof s of Some evm_state \<Rightarrow> evm_gauges fl s evm_state | None \<Rightarrow> []) @
     [proof_gauge fl s ''edge_app_prove_wallclock_ms'' (wallclock_ms (ps_app_prove_started_at s) (ps_app_prove_ended_at s)),
      proof_gauge fl s ''edge_leaf_prove_wallclock_ms'' (wallclock_ms (ps_leaf_prove_started_at s) (ps_leaf_prove_ended_at s)),
      proof_gauge fl s ''edge_internal_prove_wallclock_ms''
        (wallclock_ms (ps_internal_prove_started_at s) (ps_internal_prove_ended_at s)),
      \<lparr>gu_name = ''edge_proof_status'', gu_labels = proof_metric_labels s, gu_value = status_value fl (ps_status s)\<rparr>]"

text \<open>The recorder of \<open>otel_metrics.rs\<close>: an instrument is made for the name of the key, and a call records its value with
  the labels of the key. A gauge keeps the last value that was recorded with a name and labels.\<close>

datatype measurement =
  Counter_Add string "(string \<times> string) list" nat
| Gauge_Record string "(string \<times> string) list" f64_bits
| Histogram_Record string "(string \<times> string) list" f64_bits

datatype metric_call =
  Counter_Increment nat | Counter_Absolute nat
| Gauge_Increment f64_bits | Gauge_Decrement f64_bits | Gauge_Set f64_bits
| Histogram_Call f64_bits

definition otel_record :: "f64_ops \<Rightarrow> string \<Rightarrow> (string \<times> string) list \<Rightarrow> metric_call \<Rightarrow> measurement" where
  "otel_record fl name labels call =
     (case call of
        Counter_Increment v \<Rightarrow> Counter_Add name labels v
      | Counter_Absolute v \<Rightarrow> Gauge_Record name labels (fl_of_nat fl v)
      | Gauge_Increment v \<Rightarrow> Gauge_Record name labels v
      | Gauge_Decrement v \<Rightarrow> Gauge_Record name labels (fl_neg fl v)
      | Gauge_Set v \<Rightarrow> Gauge_Record name labels v
      | Histogram_Call v \<Rightarrow> Histogram_Record name labels v)"

fun exported_value ::
  "measurement \<Rightarrow> (string \<times> (string \<times> string) list, f64_bits) hmap \<Rightarrow> (string \<times> (string \<times> string) list, f64_bits) hmap" where
  "exported_value (Gauge_Record name labels v) m = AList.update (name, labels) v m"
| "exported_value _ m = m"

definition exported_gauges :: "f64_ops \<Rightarrow> gauge list \<Rightarrow> (string \<times> (string \<times> string) list, f64_bits) hmap" where
  "exported_gauges fl gs =
     fold (\<lambda>g. exported_value (otel_record fl (gu_name g) (gu_labels g) (Gauge_Set (gu_value g)))) gs []"

section \<open>Lemmas on the groups\<close>

lemma push_entry_get:
  "map_of (push_entry k v m) j = (if j = k then Some ((case map_of m k of Some vs \<Rightarrow> vs | None \<Rightarrow> []) @ [v]) else map_of m j)"
  by (simp add: push_entry_def)

lemma push_entry_wf: "hm_wf m \<Longrightarrow> hm_wf (push_entry k v m)"
  by (simp add: push_entry_def)

text \<open>A map that is filled by pushes holds, for each key, the values of its elements in their order.\<close>

lemma fold_push_get:
  "map_of (fold (\<lambda>x. push_entry (k x) (v x)) xs m) j =
     (case map_of m j of
        Some vs \<Rightarrow> Some (vs @ map v (filter (\<lambda>x. k x = j) xs))
      | None \<Rightarrow> (if filter (\<lambda>x. k x = j) xs = [] then None else Some (map v (filter (\<lambda>x. k x = j) xs))))"
  by (induction xs arbitrary: m) (auto simp: push_entry_get split: option.splits)

lemma fold_push_wf: "hm_wf m \<Longrightarrow> hm_wf (fold (\<lambda>x. push_entry (k x) (v x)) xs m)"
  by (induction xs arbitrary: m) (auto simp: push_entry_wf)

lemma fold_layers:
  "fst (fold add_to_layers xs (m, sm)) =
     fold (\<lambda>x. push_entry (ipi_layer_idx (fst x)) (ips_prove_time_ms (snd x))) xs m"
  by (induction xs arbitrary: m sm) (auto simp: add_to_layers_def split: prod.splits)

lemma layer_groups_Ok:
  assumes "distinct ks" "\<forall>k \<in> set ks. map_of layers k \<noteq> None"
  obtains gs where "layer_groups ks layers sm = Ok gs"
    "map gs_name gs = map (\<lambda>k. ''internal.'' @ show_nat k) ks"
    "map gs_total_proof_time_ms gs = map (the \<circ> map_of layers) ks"
proof -
  have "\<exists>gs. layer_groups ks layers sm = Ok gs \<and> map gs_name gs = map (\<lambda>k. ''internal.'' @ show_nat k) ks \<and>
      map gs_total_proof_time_ms gs = map (the \<circ> map_of layers) ks"
    using assms
  proof (induction ks arbitrary: layers sm)
    case (Cons k ks)
    have "\<forall>j \<in> set ks. map_of (AList.delete k layers) j \<noteq> None" using Cons.prems by auto
    with Cons.IH [of "AList.delete k layers" "AList.delete k sm"] Cons.prems(1) obtain gs where
      gs: "layer_groups ks (AList.delete k layers) (AList.delete k sm) = Ok gs"
      "map gs_name gs = map (\<lambda>k. ''internal.'' @ show_nat k) ks"
      "map gs_total_proof_time_ms gs = map (the \<circ> map_of (AList.delete k layers)) ks" by auto
    moreover have "map (the \<circ> map_of (AList.delete k layers)) ks = map (the \<circ> map_of layers) ks"
      using Cons.prems(1) by auto
    ultimately show ?case using Cons.prems(2) by auto
  qed simp
  then show ?thesis using that by blast
qed

definition layer_times :: "proof_state \<Rightarrow> nat \<Rightarrow> nat list" where
  "layer_times s k =
     map (\<lambda>x. ips_prove_time_ms (snd x)) (filter (\<lambda>x. ipi_layer_idx (fst x) = k) (ps_internal_proofs s))"

definition proved_layers :: "proof_state \<Rightarrow> nat list" where
  "proved_layers s = sorted_list_of_set (ipi_layer_idx ` fst ` set (ps_internal_proofs s))"

lemma internal_groups_Ok:
  obtains gs where "internal_groups s = Ok gs"
    "map gs_name gs = map (\<lambda>k. ''internal.'' @ show_nat k) (proved_layers s)"
    "map gs_total_proof_time_ms gs = map (layer_times s) (proved_layers s)"
proof -
  let ?xs = "ps_internal_proofs s" and ?k = "\<lambda>x :: internal_proof_index \<times> internal_proof_state. ipi_layer_idx (fst x)"
    and ?v = "\<lambda>x :: internal_proof_index \<times> internal_proof_state. ips_prove_time_ms (snd x)"
  let ?layers = "fold (\<lambda>x. push_entry (?k x) (?v x)) ?xs []"
  obtain sm where f: "fold add_to_layers ?xs ([], []) = (?layers, sm)"
    using fold_layers [of ?xs "[]" "[]"] by (cases "fold add_to_layers ?xs ([], [])") simp
  have layer: "map_of ?layers j = (if filter (\<lambda>x. ?k x = j) ?xs = [] then None else Some (map ?v (filter (\<lambda>x. ?k x = j) ?xs)))"
    for j by (simp add: fold_push_get)
  have ks: "set (map fst ?layers) = ipi_layer_idx ` fst ` set ?xs"
  proof (rule set_eqI)
    fix j
    have "j \<in> set (map fst ?layers) \<longleftrightarrow> map_of ?layers j \<noteq> None" by (simp add: map_of_eq_None_iff)
    also have "\<dots> \<longleftrightarrow> j \<in> ipi_layer_idx ` fst ` set ?xs" by (force simp: layer filter_empty_conv)
    finally show "j \<in> set (map fst ?layers) \<longleftrightarrow> j \<in> ipi_layer_idx ` fst ` set ?xs" .
  qed
  have d: "distinct (map fst ?layers)" using fold_push_wf [of "[]"] by (simp add: hm_wf_def)
  have srt: "sort (map fst ?layers) = sorted_list_of_set (ipi_layer_idx ` fst ` set ?xs)"
    using sorted_list_of_set_sort_remdups [of "map fst ?layers"] by (simp only: ks distinct_remdups_id [OF d])
  obtain gs where gs: "layer_groups (sort (map fst ?layers)) ?layers sm = Ok gs"
    "map gs_name gs = map (\<lambda>k. ''internal.'' @ show_nat k) (sort (map fst ?layers))"
    "map gs_total_proof_time_ms gs = map (the \<circ> map_of ?layers) (sort (map fst ?layers))"
    using layer_groups_Ok [of "sort (map fst ?layers)" ?layers sm] d by (auto simp: map_of_eq_None_iff)
  have "map (the \<circ> map_of ?layers) (sort (map fst ?layers)) =
      map (\<lambda>j. map ?v (filter (\<lambda>x. ?k x = j) ?xs)) (sort (map fst ?layers))"
  proof (rule map_cong [OF refl])
    fix j assume "j \<in> set (sort (map fst ?layers))"
    then have "map_of ?layers j \<noteq> None" by (simp add: map_of_eq_None_iff)
    then show "(the \<circ> map_of ?layers) j = map ?v (filter (\<lambda>x. ?k x = j) ?xs)" by (simp add: layer split: if_splits)
  qed
  then have times: "map gs_total_proof_time_ms gs = map (\<lambda>j. map ?v (filter (\<lambda>x. ?k x = j) ?xs)) (sort (map fst ?layers))"
    by (rule trans [OF gs(3)])
  have "internal_groups s = Ok gs" by (simp add: internal_groups_def f gs(1))
  then show ?thesis using that gs(2) times srt by (simp add: proved_layers_def layer_times_def)
qed

lemma layer_times_all:
  "mset (concat (map (layer_times s) (proved_layers s))) = mset (map (ips_prove_time_ms \<circ> snd) (ps_internal_proofs s))"
proof -
  have "mset (concat (map (\<lambda>j. map (\<lambda>x. ips_prove_time_ms (snd x))
      (filter (\<lambda>x. ipi_layer_idx (fst x) = j) (ps_internal_proofs s))) (proved_layers s))) =
    mset (map (\<lambda>x. ips_prove_time_ms (snd x)) (ps_internal_proofs s))"
    by (rule mset_by_key) (auto simp: proved_layers_def)
  then show ?thesis by (simp only: layer_times_def [abs_def] comp_def)
qed

section \<open>Lemmas on the numbers\<close>

lemma commas_from_shift: "0 < i \<Longrightarrow> commas_from (i + 3) cs = commas_from i cs"
proof (induction cs arbitrary: i)
  case (Cons c cs)
  from Cons.IH [of "Suc i"] Cons.prems show ?case by simp
qed simp

lemma commas_from_three:
  "commas_from 0 (x # y # z # cs) = x # y # z # commas_from 3 cs"
  "commas_from 3 (c # cs) = CHR '','' # commas_from 0 (c # cs)"
proof -
  show "commas_from 0 (x # y # z # cs) = x # y # z # commas_from 3 cs" by (simp, simp only: numeral_3_eq_3)
  show "commas_from 3 (c # cs) = CHR '','' # commas_from 0 (c # cs)" using commas_from_shift [of 1 cs] by simp
qed

lemma show_nat_snoc: "10 \<le> n \<Longrightarrow> show_nat n = show_nat (n div 10) @ [digit_char (n mod 10)]"
  by (subst show_nat.simps) simp

lemma show_nat_digit: "n < 10 \<Longrightarrow> show_nat n = [digit_char n]"
  by (subst show_nat.simps) simp

text \<open>The commas separate groups of three digits.\<close>

lemma format_with_commas_step:
  assumes "1000 \<le> n"
  shows "format_with_commas n = format_with_commas (n div 1000) @ CHR '','' #
     map digit_char [n div 100 mod 10, n div 10 mod 10, n mod 10]"
proof -
  have d: "n div 10 div 10 = n div 100" "n div 100 div 10 = n div 1000" by (simp_all add: div_mult2_eq [symmetric])
  have "10 \<le> n div 100" "10 \<le> n div 10" using assms by simp_all
  then have "show_nat n = show_nat (n div 1000) @ map digit_char [n div 100 mod 10, n div 10 mod 10, n mod 10]"
    using assms show_nat_snoc [of n] show_nat_snoc [of "n div 10"] show_nat_snoc [of "n div 100"] by (simp add: d)
  moreover obtain c cs where c: "rev (show_nat (n div 1000)) = c # cs"
    using show_nat_nonempty [of "n div 1000"] by (metis neq_Nil_conv rev_is_Nil_conv)
  ultimately show ?thesis by (simp add: format_with_commas_def commas_from_three del: commas_from.simps(2))
qed

lemma format_with_commas_small:
  assumes "n < 1000"
  shows "format_with_commas n = show_nat n"
proof -
  consider "n < 10" | "10 \<le> n" "n < 100" | "100 \<le> n" by linarith
  then show ?thesis
  proof cases
    case 2
    then show ?thesis using show_nat_snoc [of n] show_nat_digit [of "n div 10"] by (simp add: format_with_commas_def)
  next
    case 3
    then have "10 \<le> n div 10" "n div 10 div 10 < 10" using assms by simp_all
    then show ?thesis
      using 3 show_nat_snoc [of n] show_nat_snoc [of "n div 10"] show_nat_digit [of "n div 10 div 10"]
      by (simp add: format_with_commas_def commas_from_three)
  qed (simp add: format_with_commas_def show_nat_digit)
qed

section \<open>Lemmas on the gauges\<close>

lemma sanitized_chars: "\<forall>c \<in> set (sanitize_metric_key key). metric_char c"
  by (auto simp: sanitize_metric_key_def metric_char_def)

definition gauge_key :: "gauge \<Rightarrow> string \<times> (string \<times> string) list" where
  "gauge_key g = (gu_name g, gu_labels g)"

text \<open>The names that a sub metric may take, given the names that its family reserves.\<close>

definition metric_names_ok :: "string list \<Rightarrow> (string, f64_bits) hmap \<Rightarrow> bool" where
  "metric_names_ok reserved sub_metrics \<longleftrightarrow>
     distinct (map (sanitize_metric_key \<circ> fst) sub_metrics) \<and>
     (\<forall>name \<in> set reserved. name \<notin> (sanitize_metric_key \<circ> fst) ` set sub_metrics)"

lemma sub_metric_keys:
  "map gauge_key (sub_metric_gauges prefix labels m) = map (\<lambda>n. (prefix @ n, labels)) (map (sanitize_metric_key \<circ> fst) m)"
  by (auto simp: sub_metric_gauges_def gauge_key_def)

lemma distinct_sub_metric_keys: "metric_names_ok reserved m \<Longrightarrow> distinct (map gauge_key (sub_metric_gauges prefix labels m))"
  unfolding sub_metric_keys by (simp add: metric_names_ok_def distinct_map inj_on_def)

text \<open>Blocks with labels of their own do not share a key.\<close>

lemma distinct_blocks:
  assumes "distinct xs" "\<And>x. x \<in> set xs \<Longrightarrow> distinct (map gauge_key (f x))"
    and "\<And>x g. g \<in> set (f x) \<Longrightarrow> gu_labels g = labels x"
    and "\<And>x y. x \<in> set xs \<Longrightarrow> y \<in> set xs \<Longrightarrow> labels x = labels y \<Longrightarrow> x = y"
  shows "distinct (map gauge_key (concat (map f xs)))"
  using assms(1,2,4)
proof (induction xs)
  case (Cons x xs)
  have "gauge_key g \<noteq> gauge_key g'" if g: "g \<in> set (f x)" "y \<in> set xs" "g' \<in> set (f y)" for g g' y
  proof
    assume "gauge_key g = gauge_key g'"
    then have "labels x = labels y" using assms(3) [OF g(1)] assms(3) [OF g(3)] by (simp add: gauge_key_def)
    then have "x = y" using Cons.prems(3) g(2) by simp
    then show False using Cons.prems(1) g(2) by simp
  qed
  then have "gauge_key ` set (f x) \<inter> gauge_key ` set (concat (map f xs)) = {}" by fastforce
  moreover have "distinct (map gauge_key (concat (map f xs)))" by (rule Cons.IH) (use Cons.prems in auto)
  ultimately show ?case using Cons.prems(2) [of x] by simp
qed simp

lemma hm_wf_entry: "hm_wf m \<Longrightarrow> (k, v) \<in> set m \<Longrightarrow> (k, w) \<in> set m \<Longrightarrow> v = w"
  by (auto simp: hm_wf_def dest: eq_key_imp_eq_value)

lemma distinct_hm: "hm_wf m \<Longrightarrow> distinct m"
  unfolding hm_wf_def distinct_map by simp

definition all_metric_names_ok :: "proof_state \<Rightarrow> bool" where
  "all_metric_names_ok s \<longleftrightarrow>
     (\<forall>p \<in> set (ps_app_proofs s). metric_names_ok [''prove_time_ms'', ''prove_wallclock_ms''] (aps_sub_metrics (snd p))) \<and>
     (\<forall>p \<in> set (ps_leaf_proofs s). metric_names_ok [''prove_wallclock_ms''] (lps_sub_metrics (snd p))) \<and>
     (\<forall>p \<in> set (ps_internal_proofs s). metric_names_ok [''prove_wallclock_ms''] (ips_sub_metrics (snd p))) \<and>
     (\<forall>e \<in> set_option (ps_evm_proof s). metric_names_ok [''total_prove_ms''] (eps_sub_metrics e))"

lemma distinct_app_gauges:
  assumes "hm_wf (ps_app_proofs s)" "all_metric_names_ok s"
  shows "distinct (map gauge_key (concat (map (app_gauges fl s) (ps_app_proofs s))))"
proof (rule distinct_blocks [where labels = "\<lambda>p. core_labels s @ [(''segment_idx'', show_nat (fst p))]"])
  show "distinct (map gauge_key (app_gauges fl s p))" if p: "p \<in> set (ps_app_proofs s)" for p
  proof -
    have ok: "metric_names_ok [''prove_time_ms'', ''prove_wallclock_ms''] (aps_sub_metrics (snd p))"
      using assms(2) p by (simp add: all_metric_names_ok_def)
    let ?n = "map (sanitize_metric_key \<circ> fst) (aps_sub_metrics (snd p))"
    have "''prove_time_ms'' \<notin> set ?n" "distinct ?n" using ok by (simp_all add: metric_names_ok_def)
    moreover have "map gauge_key (app_gauges fl s p) =
        map (\<lambda>n. (n, core_labels s @ [(''segment_idx'', show_nat (fst p))]))
          ([''edge_app_prove_time_ms'', ''edge_segment_fastfwd_time_ms'', ''edge_segment_stark_prove_time_ms''] @
           map ((@) ''edge_app_'') ?n)"
      by (cases p) (simp add: app_gauges_def Let_def sub_metric_gauges_def gauge_key_def case_prod_unfold)
    ultimately show ?thesis by (auto simp: distinct_map inj_on_def)
  qed
qed (use distinct_hm [OF assms(1)] hm_wf_entry [OF assms(1)] in
    \<open>auto simp: app_gauges_def Let_def sub_metric_gauges_def dest!: show_nat_inject\<close>)

lemma distinct_leaf_gauges:
  assumes "hm_wf (ps_leaf_proofs s)" "all_metric_names_ok s"
  shows "distinct (map gauge_key (concat (map (leaf_gauges s) (ps_leaf_proofs s))))"
proof (rule distinct_blocks [where labels = "\<lambda>p. core_labels s @ [(''batch_idx'', show_nat (fst p))]"])
  show "distinct (map gauge_key (leaf_gauges s p))" if "p \<in> set (ps_leaf_proofs s)" for p
    using assms(2) that distinct_sub_metric_keys by (cases p) (fastforce simp: leaf_gauges_def all_metric_names_ok_def)
qed (use distinct_hm [OF assms(1)] hm_wf_entry [OF assms(1)] in
    \<open>auto simp: leaf_gauges_def sub_metric_gauges_def dest!: show_nat_inject\<close>)

lemma distinct_internal_gauges:
  assumes "hm_wf (ps_internal_proofs s)" "all_metric_names_ok s"
  shows "distinct (map gauge_key (concat (map (internal_gauges s) (ps_internal_proofs s))))"
proof (rule distinct_blocks [where labels = "\<lambda>p. core_labels s @
    [(''layer_idx'', show_nat (ipi_layer_idx (fst p))), (''node_idx'', show_nat (ipi_idx (fst p)))]"])
  show "distinct (map gauge_key (internal_gauges s p))" if "p \<in> set (ps_internal_proofs s)" for p
    using assms(2) that distinct_sub_metric_keys by (cases p) (fastforce simp: internal_gauges_def all_metric_names_ok_def)
  show "p = q" if "p \<in> set (ps_internal_proofs s)" "q \<in> set (ps_internal_proofs s)"
    "core_labels s @ [(''layer_idx'', show_nat (ipi_layer_idx (fst p))), (''node_idx'', show_nat (ipi_idx (fst p)))] =
     core_labels s @ [(''layer_idx'', show_nat (ipi_layer_idx (fst q))), (''node_idx'', show_nat (ipi_idx (fst q)))]" for p q
  proof -
    have same: "fst p = fst q" using that(3) by (auto dest!: show_nat_inject intro: internal_proof_index.equality)
    have "(fst p, snd p) \<in> set (ps_internal_proofs s)" using that(1) by simp
    moreover have "(fst p, snd q) \<in> set (ps_internal_proofs s)" unfolding same using that(2) by simp
    ultimately show ?thesis using hm_wf_entry [OF assms(1)] same by (simp add: prod_eq_iff)
  qed
qed (use distinct_hm [OF assms(1)] in \<open>auto simp: internal_gauges_def sub_metric_gauges_def\<close>)

lemma distinct_evm_gauges:
  assumes "all_metric_names_ok s" "ps_evm_proof s = Some e"
  shows "distinct (map gauge_key (evm_gauges fl s e))"
proof -
  let ?n = "map (sanitize_metric_key \<circ> fst) (eps_sub_metrics e)"
  have "''total_prove_ms'' \<notin> set ?n" "distinct ?n"
    using assms by (simp_all add: all_metric_names_ok_def metric_names_ok_def)
  moreover have "map gauge_key (evm_gauges fl s e) =
      map (\<lambda>n. (n, proof_metric_labels s)) [''edge_halo2_prove_time_ms'', ''edge_root_prove_time_ms'', ''edge_evm_total_prove_ms''] @
      map (\<lambda>n. (''edge_evm_'' @ n, core_labels s)) ?n"
    by (simp add: evm_gauges_def proof_gauge_def sub_metric_gauges_def gauge_key_def case_prod_unfold)
  ultimately show ?thesis by (auto simp: distinct_map inj_on_def)
qed

text \<open>The gauges of the proof as a whole.\<close>

definition whole_gauges :: "f64_ops \<Rightarrow> proof_state \<Rightarrow> gauge list" where
  "whole_gauges fl s =
     option_gauge fl s ''edge_e2e_latency_ms'' (ps_e2e_latency_ms s) @
     option_gauge fl s ''edge_proving_latency_ms'' (ps_proving_latency_ms s) @
     (case ps_execute_e2_state s of
        Some e2_state \<Rightarrow>
          [proof_gauge fl s ''edge_execute_time_ms'' (e2_execute_time_ms e2_state),
           proof_gauge fl s ''edge_num_segments'' (e2_num_segments e2_state),
           proof_gauge fl s ''edge_cost'' (e2_cost e2_state)]
      | None \<Rightarrow> []) @
     [proof_gauge fl s ''edge_total_app_prove_ms'' (sum_list (map (aps_prove_time_ms \<circ> snd) (ps_app_proofs s))),
      proof_gauge fl s ''edge_total_leaf_prove_ms'' (sum_list (map (lps_prove_time_ms \<circ> snd) (ps_leaf_proofs s))),
      proof_gauge fl s ''edge_total_internal_prove_ms'' (sum_list (map (ips_prove_time_ms \<circ> snd) (ps_internal_proofs s))),
      proof_gauge fl s ''edge_compression_time_ms'' (compression_ms s),
      proof_gauge fl s ''edge_app_prove_wallclock_ms'' (wallclock_ms (ps_app_prove_started_at s) (ps_app_prove_ended_at s)),
      proof_gauge fl s ''edge_leaf_prove_wallclock_ms'' (wallclock_ms (ps_leaf_prove_started_at s) (ps_leaf_prove_ended_at s)),
      proof_gauge fl s ''edge_internal_prove_wallclock_ms''
        (wallclock_ms (ps_internal_prove_started_at s) (ps_internal_prove_ended_at s)),
      \<lparr>gu_name = ''edge_proof_status'', gu_labels = proof_metric_labels s, gu_value = status_value fl (ps_status s)\<rparr>]"

definition evm_block :: "f64_ops \<Rightarrow> proof_state \<Rightarrow> gauge list" where
  "evm_block fl s = (case ps_evm_proof s of Some e \<Rightarrow> evm_gauges fl s e | None \<Rightarrow> [])"

lemma mset_emitted:
  "mset (emit_completion_metrics fl s) =
     mset (whole_gauges fl s @ concat (map (app_gauges fl s) (ps_app_proofs s)) @
       concat (map (leaf_gauges s) (ps_leaf_proofs s)) @ concat (map (internal_gauges s) (ps_internal_proofs s)) @ evm_block fl s)"
  by (simp add: emit_completion_metrics_def whole_gauges_def evm_block_def del: mset_concat)

definition whole_names :: "string list" where
  "whole_names = [''edge_e2e_latency_ms'', ''edge_proving_latency_ms'', ''edge_execute_time_ms'', ''edge_num_segments'', ''edge_cost'',
     ''edge_total_app_prove_ms'', ''edge_total_leaf_prove_ms'', ''edge_total_internal_prove_ms'', ''edge_compression_time_ms'',
     ''edge_app_prove_wallclock_ms'', ''edge_leaf_prove_wallclock_ms'', ''edge_internal_prove_wallclock_ms'', ''edge_proof_status'']"

lemma whole_gauges_names:
  "distinct (map gu_name (whole_gauges fl s))" "gu_name ` set (whole_gauges fl s) \<subseteq> set whole_names"
  by (auto simp: whole_gauges_def option_gauge_def proof_gauge_def whole_names_def split: option.splits)

definition family_name :: "string \<Rightarrow> string list \<Rightarrow> string list \<Rightarrow> string \<Rightarrow> bool" where
  "family_name prefix fixed reserved name \<longleftrightarrow> name \<in> set fixed \<or> (\<exists>k. name = prefix @ k \<and> k \<notin> set reserved)"

lemma sub_metric_family:
  "metric_names_ok reserved m \<Longrightarrow> g \<in> set (sub_metric_gauges prefix labels m) \<Longrightarrow> family_name prefix fixed reserved (gu_name g)"
  by (force simp: sub_metric_gauges_def metric_names_ok_def family_name_def)

lemma emitted_families:
  assumes "all_metric_names_ok s"
  shows "g \<in> set (concat (map (app_gauges fl s) (ps_app_proofs s))) \<Longrightarrow>
      family_name ''edge_app_'' [''edge_segment_fastfwd_time_ms'', ''edge_segment_stark_prove_time_ms'']
        [''prove_wallclock_ms''] (gu_name g)"
    and "g \<in> set (concat (map (leaf_gauges s) (ps_leaf_proofs s))) \<Longrightarrow>
      family_name ''edge_leaf_'' [] [''prove_wallclock_ms''] (gu_name g)"
    and "g \<in> set (concat (map (internal_gauges s) (ps_internal_proofs s))) \<Longrightarrow>
      family_name ''edge_internal_'' [] [''prove_wallclock_ms''] (gu_name g)"
    and "g \<in> set (evm_block fl s) \<Longrightarrow>
      family_name ''edge_evm_'' [''edge_halo2_prove_time_ms'', ''edge_root_prove_time_ms''] [] (gu_name g)"
proof -
  have weaker: "metric_names_ok [''prove_wallclock_ms''] m" if "metric_names_ok [''prove_time_ms'', ''prove_wallclock_ms''] m" for m
    using that by (simp add: metric_names_ok_def)
  show "g \<in> set (concat (map (leaf_gauges s) (ps_leaf_proofs s))) \<Longrightarrow>
      family_name ''edge_leaf_'' [] [''prove_wallclock_ms''] (gu_name g)"
    using assms by (auto simp: leaf_gauges_def all_metric_names_ok_def intro!: sub_metric_family)
  show "g \<in> set (concat (map (internal_gauges s) (ps_internal_proofs s))) \<Longrightarrow>
      family_name ''edge_internal_'' [] [''prove_wallclock_ms''] (gu_name g)"
    using assms by (auto simp: internal_gauges_def all_metric_names_ok_def intro!: sub_metric_family)
  show "g \<in> set (evm_block fl s) \<Longrightarrow>
      family_name ''edge_evm_'' [''edge_halo2_prove_time_ms'', ''edge_root_prove_time_ms''] [] (gu_name g)"
    by (auto simp: evm_block_def evm_gauges_def proof_gauge_def family_name_def sub_metric_gauges_def split: option.splits)
  assume "g \<in> set (concat (map (app_gauges fl s) (ps_app_proofs s)))"
  then obtain idx st where p: "(idx, st) \<in> set (ps_app_proofs s)" "g \<in> set (app_gauges fl s (idx, st))" by force
  have "metric_names_ok [''prove_wallclock_ms''] (aps_sub_metrics st)"
    using assms p(1) by (auto simp: all_metric_names_ok_def intro!: weaker)
  note sub = sub_metric_family [OF this, where fixed = "[''edge_segment_fastfwd_time_ms'', ''edge_segment_stark_prove_time_ms'']"]
  show "family_name ''edge_app_''
      [''edge_segment_fastfwd_time_ms'', ''edge_segment_stark_prove_time_ms''] [''prove_wallclock_ms''] (gu_name g)"
    using p(2) by (auto simp: app_gauges_def Let_def intro: sub) (simp_all add: family_name_def)
qed

lemma distinct_mapI_key: "distinct (map gu_name gs) \<Longrightarrow> distinct (map gauge_key gs)"
  by (auto simp: distinct_map inj_on_def gauge_key_def)

definition named :: "(string \<Rightarrow> bool) \<Rightarrow> gauge list \<Rightarrow> bool" where
  "named P gs \<longleftrightarrow> (\<forall>g \<in> set gs. P (gu_name g))"

lemma disjoint_names:
  assumes "named P xs" "named Q ys" "\<And>n. P n \<Longrightarrow> Q n \<Longrightarrow> False"
  shows "gauge_key ` set xs \<inter> gauge_key ` set ys = {}"
  using assms by (force simp: gauge_key_def named_def)

lemma exported_get:
  assumes "distinct (map gauge_key gs)" "g \<in> set gs"
  shows "map_of (exported_gauges fl gs) (gauge_key g) = Some (gu_value g)"
proof -
  have keep: "map_of (fold (\<lambda>g. exported_value (otel_record fl (gu_name g) (gu_labels g) (Gauge_Set (gu_value g)))) gs m) key =
      map_of m key" if "key \<notin> gauge_key ` set gs" for gs m key
    using that by (induction gs arbitrary: m) (auto simp: otel_record_def gauge_key_def)
  have "map_of (fold (\<lambda>g. exported_value (otel_record fl (gu_name g) (gu_labels g) (Gauge_Set (gu_value g)))) gs m) (gauge_key g) =
      Some (gu_value g)" for m
    using assms
  proof (induction gs arbitrary: m)
    case (Cons h gs)
    show ?case
    proof (cases "g = h")
      case True
      then show ?thesis using Cons.prems(1) by (auto simp: keep) (simp add: otel_record_def gauge_key_def)
    next
      case False
      then show ?thesis using Cons by simp
    qed
  qed simp
  then show ?thesis by (simp add: exported_gauges_def)
qed

lemma distinct_five:
  assumes "distinct (map k as)" "distinct (map k bs)" "distinct (map k cs)" "distinct (map k ds)" "distinct (map k es)"
    "k ` set as \<inter> k ` set bs = {}" "k ` set as \<inter> k ` set cs = {}" "k ` set as \<inter> k ` set ds = {}" "k ` set as \<inter> k ` set es = {}"
    "k ` set bs \<inter> k ` set cs = {}" "k ` set bs \<inter> k ` set ds = {}" "k ` set bs \<inter> k ` set es = {}"
    "k ` set cs \<inter> k ` set ds = {}" "k ` set cs \<inter> k ` set es = {}" "k ` set ds \<inter> k ` set es = {}"
  shows "distinct (map k (as @ bs @ cs @ ds @ es))"
  using assms by (simp add: image_Un Int_Un_distrib)

lemma emitted_distinct:
  assumes wf: "hm_wf (ps_app_proofs s)" "hm_wf (ps_leaf_proofs s)" "hm_wf (ps_internal_proofs s)"
    and names: "all_metric_names_ok s"
  shows "distinct (map gauge_key (emit_completion_metrics fl s))"
proof -
  let ?app = "concat (map (app_gauges fl s) (ps_app_proofs s))" and ?leaf = "concat (map (leaf_gauges s) (ps_leaf_proofs s))"
    and ?internal = "concat (map (internal_gauges s) (ps_internal_proofs s))"
  have fam: "named (family_name ''edge_app_'' [''edge_segment_fastfwd_time_ms'', ''edge_segment_stark_prove_time_ms'']
        [''prove_wallclock_ms'']) ?app"
    "named (family_name ''edge_leaf_'' [] [''prove_wallclock_ms'']) ?leaf"
    "named (family_name ''edge_internal_'' [] [''prove_wallclock_ms'']) ?internal"
    "named (family_name ''edge_evm_'' [''edge_halo2_prove_time_ms'', ''edge_root_prove_time_ms''] []) (evm_block fl s)"
    using emitted_families [OF names] unfolding named_def by blast+
  have whole: "named (\<lambda>n. n \<in> set whole_names) (whole_gauges fl s)"
    using whole_gauges_names(2) by (auto simp: named_def)
  have "distinct (map gauge_key (evm_block fl s))"
    using distinct_evm_gauges [OF names] by (simp add: evm_block_def split: option.split)
  moreover have "distinct (map gauge_key (whole_gauges fl s))"
    by (rule distinct_mapI_key [OF whole_gauges_names(1)])
  moreover have
    "gauge_key ` set (whole_gauges fl s) \<inter> gauge_key ` set (?app) = {}"
    "gauge_key ` set (whole_gauges fl s) \<inter> gauge_key ` set (?leaf) = {}"
    "gauge_key ` set (whole_gauges fl s) \<inter> gauge_key ` set (?internal) = {}"
    "gauge_key ` set (whole_gauges fl s) \<inter> gauge_key ` set (evm_block fl s) = {}"
    "gauge_key ` set (?app) \<inter> gauge_key ` set (?leaf) = {}"
    "gauge_key ` set (?app) \<inter> gauge_key ` set (?internal) = {}"
    "gauge_key ` set (?app) \<inter> gauge_key ` set (evm_block fl s) = {}"
    "gauge_key ` set (?leaf) \<inter> gauge_key ` set (?internal) = {}"
    "gauge_key ` set (?leaf) \<inter> gauge_key ` set (evm_block fl s) = {}"
    "gauge_key ` set (?internal) \<inter> gauge_key ` set (evm_block fl s) = {}"
    by ((rule disjoint_names [OF whole fam(1)] disjoint_names [OF whole fam(2)] disjoint_names [OF whole fam(3)] disjoint_names [OF whole fam(4)] disjoint_names [OF fam(1) fam(2)]
          disjoint_names [OF fam(1) fam(3)] disjoint_names [OF fam(1) fam(4)] disjoint_names [OF fam(2) fam(3)] disjoint_names [OF fam(2) fam(4)] disjoint_names [OF fam(3) fam(4)],
        (auto simp: family_name_def whole_names_def)[1])+)
  ultimately have "distinct (map gauge_key (whole_gauges fl s @ ?app @ ?leaf @ ?internal @ evm_block fl s))"
    using distinct_app_gauges [OF wf(1) names] distinct_leaf_gauges [OF wf(2) names] distinct_internal_gauges [OF wf(3) names]
    by (intro distinct_five)
  then show ?thesis by (metis mset_emitted mset_eq_imp_distinct_iff mset_map)
qed

lemma sum_groups: "sum_list (map group_sum gs) = sum_list (concat (map gs_total_proof_time_ms gs))"
  by (induction gs) (simp_all add: group_sum_def)

lemma emitted_shape:
  assumes "g \<in> set (emit_completion_metrics fl s)"
  shows "list_all metric_char (gu_name g)" "\<exists>more. gu_labels g = core_labels s @ more"
proof -
  have sub: "list_all metric_char (gu_name h) \<and> (\<exists>more. gu_labels h = core_labels s @ more)"
    if "h \<in> set (sub_metric_gauges prefix (core_labels s @ labels) m)" "list_all metric_char prefix" for h prefix labels m
    using that sanitized_chars by (auto simp: sub_metric_gauges_def list_all_iff)
  have prefixes: "list_all metric_char ''edge_app_''" "list_all metric_char ''edge_leaf_''"
    "list_all metric_char ''edge_internal_''" "list_all metric_char ''edge_evm_''"
    "list_all (list_all metric_char) (whole_names @ [''edge_app_prove_time_ms'', ''edge_segment_fastfwd_time_ms'',
      ''edge_segment_stark_prove_time_ms'', ''edge_halo2_prove_time_ms'', ''edge_root_prove_time_ms'', ''edge_evm_total_prove_ms''])"
    by code_simp+
  have sub0: "list_all metric_char (gu_name h) \<and> (\<exists>more. gu_labels h = core_labels s @ more)"
    if "h \<in> set (sub_metric_gauges ''edge_evm_'' (core_labels s) m)" for h m
    using sub [of h _ "[]"] that prefixes(4) by simp
  have whole: "gu_labels h = proof_metric_labels s" if "h \<in> set (whole_gauges fl s)" for h
    using that by (auto simp: whole_gauges_def option_gauge_def proof_gauge_def split: option.splits)
  have "g \<in> set (whole_gauges fl s @ concat (map (app_gauges fl s) (ps_app_proofs s)) @
       concat (map (leaf_gauges s) (ps_leaf_proofs s)) @ concat (map (internal_gauges s) (ps_internal_proofs s)) @ evm_block fl s)"
    using assms by (metis mset_emitted set_mset_mset)
  then consider "g \<in> set (whole_gauges fl s)" | p where "g \<in> set (app_gauges fl s p)" | p where "g \<in> set (leaf_gauges s p)"
    | p where "g \<in> set (internal_gauges s p)" | e where "g \<in> set (evm_gauges fl s e)"
    by (auto simp: evm_block_def split: option.splits)
  then have "list_all metric_char (gu_name g) \<and> (\<exists>more. gu_labels g = core_labels s @ more)"
  proof cases
    case 1
    then show ?thesis using whole whole_gauges_names(2) [of fl s] prefixes(5) by (auto simp: proof_metric_labels_def list_all_iff)
  next
    case (2 p)
    then show ?thesis using sub [OF _ prefixes(1)] prefixes(5) by (cases p) (auto simp: app_gauges_def Let_def)
  next
    case (3 p)
    then show ?thesis using sub [OF _ prefixes(2)] by (cases p) (auto simp: leaf_gauges_def)
  next
    case (4 p)
    then show ?thesis using sub [OF _ prefixes(3)] by (cases p) (auto simp: internal_gauges_def)
  next
    case (5 e)
    then show ?thesis using sub0 prefixes(5) by (auto simp: evm_gauges_def proof_gauge_def proof_metric_labels_def)
  qed
  then show "list_all metric_char (gu_name g)" "\<exists>more. gu_labels g = core_labels s @ more" by auto
qed

section \<open>Properties\<close>



definition demo_f64_ops :: f64_ops where
  "demo_f64_ops = \<lparr>fl_of_nat = of_nat, fl_add = (+), fl_sum = sum_list, fl_div = (div), fl_neg = uminus, fl_max = max, fl_min = min,
     fl_less = (<), fl_as_u64 = unat, fl_fixed = (\<lambda>_ x. show_nat (unat x))\<rparr>"

definition demo_measured :: proof_state where
  "demo_measured = (demo_state Stark 2 2)\<lparr>ps_app_proofs :=
     map (\<lambda>i. (i, \<lparr>aps_proof = None, aps_segment_idx = i, aps_prove_time_ms = 10 + i, aps_fastfwd_time_ms = 0,
       aps_stark_prove_time_ms = 0, aps_sub_metrics = [(''stark prove_time_ms'', of_nat (7 + i))],
       aps_final_merkle_path_bytes = None, aps_deferral_merkle_proofs_bytes = None\<rparr>)) [0, 1]\<rparr>"


end
