(* ===== verification/Span_Timing.thy ===== *)
theory Span_Timing
  imports Edge_Prelude
begin

text \<open>
  The capture of span durations, \<open>telemetry/src/span_timing.rs\<close>: each thread has a map of its open spans and a map of
  the durations since the last drain. The provers of the worker drain it around each call (\<open>ms_timings\<close> of
  \<open>Worker_Provers\<close>). The conversion of a duration to milliseconds and the addition of \<open>f64\<close> are parameters. Properties:
  what a drain returns, and what becomes of a span that is closed on another thread than it was opened on.
\<close>

section \<open>The layer\<close>

datatype level = Error_Level | Warn_Level | Info_Level | Debug_Level | Trace_Level

fun verbosity :: "level \<Rightarrow> nat" where
  "verbosity Error_Level = 0"
| "verbosity Warn_Level = 1"
| "verbosity Info_Level = 2"
| "verbosity Debug_Level = 3"
| "verbosity Trace_Level = 4"

record span_timing =
  spt_name :: string
  spt_start_time :: instant

text \<open>The thread-local state.\<close>

record span_state =
  ss_active_spans :: "(nat, span_timing) hmap"
  ss_captured_timings :: "(string, f64_bits) hmap"

text \<open>\<open>ctx.span(id)\<close> gives the level and the name of a registered span.\<close>

definition on_new_span :: "(level \<times> string) option \<Rightarrow> nat \<Rightarrow> instant \<Rightarrow> span_state \<Rightarrow> span_state" where
  "on_new_span span span_id now st =
     (case span of
        Some (level, name) \<Rightarrow>
          (if verbosity level \<le> verbosity Info_Level then
             st\<lparr>ss_active_spans := AList.update span_id \<lparr>spt_name = name, spt_start_time = now\<rparr> (ss_active_spans st)\<rparr>
           else st)
      | None \<Rightarrow> st)"

record clock_ops =
  co_elapsed_ms :: "int \<Rightarrow> f64_bits"
  co_add :: "f64_bits \<Rightarrow> f64_bits \<Rightarrow> f64_bits"

definition metric_name :: "string \<Rightarrow> string" where
  "metric_name name = name @ ''_time_ms''"

definition add_timing :: "clock_ops \<Rightarrow> string \<Rightarrow> f64_bits \<Rightarrow> (string, f64_bits) hmap \<Rightarrow> (string, f64_bits) hmap" where
  "add_timing co key duration_ms timings =
     AList.update key (co_add co (case map_of timings key of Some v \<Rightarrow> v | None \<Rightarrow> 0) duration_ms) timings"

definition on_close :: "clock_ops \<Rightarrow> nat \<Rightarrow> instant \<Rightarrow> span_state \<Rightarrow> span_state" where
  "on_close co span_id now st =
     (case map_of (ss_active_spans st) span_id of
        Some timing \<Rightarrow>
          st\<lparr>ss_active_spans := AList.delete span_id (ss_active_spans st),
             ss_captured_timings := add_timing co (metric_name (spt_name timing))
               (co_elapsed_ms co (now - spt_start_time timing)) (ss_captured_timings st)\<rparr>
      | None \<Rightarrow> st)"

definition drain_span_timings :: "span_state \<Rightarrow> span_state \<times> (string, f64_bits) hmap" where
  "drain_span_timings st = (st\<lparr>ss_captured_timings := []\<rparr>, ss_captured_timings st)"

section \<open>Threads\<close>

datatype span_event =
  New_Span nat "(level \<times> string) option" instant
| Close_Span nat instant
| Drain_Spans

fun span_step :: "clock_ops \<Rightarrow> span_event \<Rightarrow> span_state \<Rightarrow> span_state" where
  "span_step co (New_Span span_id span now) st = on_new_span span span_id now st"
| "span_step co (Close_Span span_id now) st = on_close co span_id now st"
| "span_step co Drain_Spans st = fst (drain_span_timings st)"

text \<open>An event acts on the state of the thread on which it happens.\<close>

definition thread_step :: "clock_ops \<Rightarrow> nat \<times> span_event \<Rightarrow> (nat \<Rightarrow> span_state) \<Rightarrow> nat \<Rightarrow> span_state" where
  "thread_step co = (\<lambda>(thread, event) S. S(thread := span_step co event (S thread)))"

definition thread_run :: "clock_ops \<Rightarrow> (nat \<times> span_event) list \<Rightarrow> (nat \<Rightarrow> span_state) \<Rightarrow> nat \<Rightarrow> span_state" where
  "thread_run co events S = fold (thread_step co) events S"

text \<open>The measurements of the spans of one thread that close in a sequence of events, from given open spans.\<close>

fun closed_spans :: "clock_ops \<Rightarrow> (nat, span_timing) hmap \<Rightarrow> span_event list \<Rightarrow> (string \<times> f64_bits) list" where
  "closed_spans co active [] = []"
| "closed_spans co active (New_Span span_id span now # events) =
     closed_spans co (ss_active_spans (on_new_span span span_id now \<lparr>ss_active_spans = active, ss_captured_timings = []\<rparr>)) events"
| "closed_spans co active (Close_Span span_id now # events) =
     (case map_of active span_id of
        Some timing \<Rightarrow> (metric_name (spt_name timing), co_elapsed_ms co (now - spt_start_time timing)) #
          closed_spans co (AList.delete span_id active) events
      | None \<Rightarrow> closed_spans co active events)"
| "closed_spans co active (Drain_Spans # events) = closed_spans co active events"

section \<open>Lemmas\<close>

definition group_of :: "string \<Rightarrow> (string \<times> f64_bits) list \<Rightarrow> f64_bits list" where
  "group_of key measured = map snd (filter (\<lambda>(k, v). k = key) measured)"

lemma fold_add_timing:
  "map_of (fold (\<lambda>(k, v). add_timing co k v) measured timings) key =
     (case map_of timings key of
        Some v \<Rightarrow> Some (foldl (co_add co) v (group_of key measured))
      | None \<Rightarrow> (if group_of key measured = [] then None else Some (foldl (co_add co) 0 (group_of key measured))))"
  by (induction measured arbitrary: timings) (auto simp: add_timing_def group_of_def split: option.splits)

lemma captured_log:
  assumes "Drain_Spans \<notin> set events"
  shows "ss_captured_timings (fold (span_step co) events st) =
    fold (\<lambda>(k, v). add_timing co k v) (closed_spans co (ss_active_spans st) events) (ss_captured_timings st)"
  using assms
proof (induction events arbitrary: st)
  case (Cons e events)
  show ?case
  proof (cases e)
    case (New_Span span_id span now)
    then show ?thesis using Cons by (auto simp: on_new_span_def split: option.splits prod.splits)
  next
    case (Close_Span span_id now)
    then show ?thesis using Cons by (simp add: on_close_def split: option.split)
  next
    case Drain_Spans
    then show ?thesis using Cons.prems by simp
  qed
qed simp

text \<open>A thread sees the events of its own.\<close>

lemma thread_run_own: "thread_run co events S a = fold (span_step co) (map snd (filter (\<lambda>(t, e). t = a) events)) (S a)"
  by (induction events arbitrary: S) (auto simp: thread_run_def thread_step_def)

definition touches_span :: "nat \<Rightarrow> span_event \<Rightarrow> bool" where
  "touches_span i e = (case e of New_Span j _ _ \<Rightarrow> j = i | Close_Span j _ \<Rightarrow> j = i | Drain_Spans \<Rightarrow> False)"

lemma untouched_span:
  assumes "list_all (\<lambda>e. \<not> touches_span i e) events"
  shows "map_of (ss_active_spans (fold (span_step co) events st)) i = map_of (ss_active_spans st) i"
  using assms
proof (induction events arbitrary: st)
  case (Cons e events)
  have "map_of (ss_active_spans (span_step co e st)) i = map_of (ss_active_spans st) i"
    using Cons.prems by (cases e)
      (auto simp: touches_span_def on_new_span_def on_close_def drain_span_timings_def split: option.splits prod.splits)
  then show ?case using Cons by simp
qed simp

section \<open>Properties\<close>

text \<open>A drain returns, for each span name, the sum in closing order of the durations of the spans of that name that were
  opened and closed on the thread since the last drain, whatever happens on other threads, and leaves nothing behind.\<close>

theorem drain_sums_closed_spans:
  assumes "list_all (\<lambda>(t, e). t = a \<longrightarrow> e \<noteq> Drain_Spans) events"
  shows "let S1 = S(a := fst (drain_span_timings (S a))); (st, timings) = drain_span_timings (thread_run co events S1 a);
       measured = group_of key (closed_spans co (ss_active_spans (S a)) (map snd (filter (\<lambda>(t, e). t = a) events)))
     in map_of timings key = (if measured = [] then None else Some (foldl (co_add co) 0 measured)) \<and>
        ss_captured_timings st = []"
proof -
  let ?own = "map snd (filter (\<lambda>(t, e). t = a) events)"
  have "Drain_Spans \<notin> set ?own" using assms by (auto simp: list_all_iff)
  from captured_log [OF this, of co "fst (drain_span_timings (S a))"] show ?thesis
    by (simp add: drain_span_timings_def thread_run_own fold_add_timing)
qed

text \<open>C39. A span that is closed on another thread than it was opened on (an asynchronous handler that was moved between the
  threads of the runtime) is neither measured nor forgotten: the closing thread ignores it, and its entry stays in the map
  of the opening thread, however long the program runs, until the identifier is used there again.\<close>

theorem foreign_close_leaks_span:
  assumes "b \<noteq> a" "map_of (ss_active_spans (S b)) i = None" "verbosity level \<le> verbosity Info_Level"
    and "list_all (\<lambda>(t, e). t = a \<longrightarrow> \<not> touches_span i e) later"
  shows "let S1 = thread_run co [(a, New_Span i (Some (level, name)) opened), (b, Close_Span i closed)] S;
       S2 = thread_run co later S1
     in S1 b = S b \<and> map_of (ss_active_spans (S2 a)) i = Some \<lparr>spt_name = name, spt_start_time = opened\<rparr>"
proof -
  have "list_all (\<lambda>e. \<not> touches_span i e) (map snd (filter (\<lambda>(t, e). t = a) later))"
    using assms(4) by (auto simp: list_all_iff)
  then show ?thesis
    using assms(1-3) by (simp add: thread_run_own untouched_span Let_def)
      (auto simp: thread_run_def thread_step_def on_close_def on_new_span_def)
qed

definition demo_clock_ops :: clock_ops where
  "demo_clock_ops = \<lparr>co_elapsed_ms = (\<lambda>d. of_int (d div 1000000)), co_add = (+)\<rparr>"

definition demo_threads :: "nat \<Rightarrow> span_state" where
  "demo_threads = (\<lambda>_. \<lparr>ss_active_spans = [], ss_captured_timings = []\<rparr>)"

definition demo_span_events :: "(nat \<times> span_event) list" where
  "demo_span_events =
     [(0, New_Span 1 (Some (Info_Level, ''prove'')) 0), (1, New_Span 2 (Some (Info_Level, ''prove'')) 0),
      (0, Close_Span 1 3000000), (1, Drain_Spans), (0, New_Span 1 (Some (Info_Level, ''prove'')) 4000000), (0, Close_Span 1 9000000)]"

theorem drain_sums_closed_spans_witness:
  "map_of (snd (drain_span_timings (thread_run demo_clock_ops demo_span_events demo_threads 0))) ''prove_time_ms'' = Some 8"
proof -
  have own: "list_all (\<lambda>(t, e). t = 0 \<longrightarrow> e \<noteq> Drain_Spans) demo_span_events" by (simp add: demo_span_events_def)
  have same: "demo_threads(0 := fst (drain_span_timings (demo_threads 0))) = demo_threads"
    by (rule ext) (simp add: demo_threads_def drain_span_timings_def)
  have "group_of ''prove_time_ms'' (closed_spans demo_clock_ops (ss_active_spans (demo_threads 0))
      (map snd (filter (\<lambda>(t, e). t = 0) demo_span_events))) = [3, 5]" by code_simp
  with drain_sums_closed_spans [OF own, of demo_threads demo_clock_ops "''prove_time_ms''"]
  show ?thesis unfolding same by (simp add: Let_def case_prod_unfold demo_clock_ops_def)
qed

theorem foreign_close_leaks_span_witness:
  "map_of (ss_active_spans (thread_run demo_clock_ops [(1, Drain_Spans), (0, Drain_Spans)]
     (thread_run demo_clock_ops [(0, New_Span 7 (Some (Info_Level, ''handle_recursion_prove'')) 5), (1, Close_Span 7 9)]
       demo_threads) 0)) 7 = Some \<lparr>spt_name = ''handle_recursion_prove'', spt_start_time = 5\<rparr>"
  using foreign_close_leaks_span [of 1 0 demo_threads 7 Info_Level "[(1, Drain_Spans), (0, Drain_Spans)]" demo_clock_ops
    "''handle_recursion_prove''" 5 9]
  by (simp add: demo_threads_def touches_span_def Let_def)

end
